(* ===== verification/Prelude.thy ===== *)
theory Prelude
  imports Main "HOL-Library.Word"
begin

text \<open>
  Shared vocabulary of the development: the C integer types as words, host memory as a
  function from addresses to bytes, the wrap-safe millisecond comparison used by every timer of
  the firmware, first-match scans over fixed tables, and the collections that the component
  theories extend (\<open>wire\<close> for byte-level encodings, \<open>ring\<close> for the circular
  queues, \<open>engine_frame\<close> for the fields an operation leaves alone).
\<close>

unbundle bit_operations_syntax

named_theorems wire "byte-level encodings and their inverses"
named_theorems ring "circular queues and their list view"
named_theorems engine_frame "fields an operation leaves unchanged"
named_theorems mem_simps "reading back what was written to host memory"

type_synonym u8 = "8 word"
type_synonym u16 = "16 word"
type_synonym u32 = "32 word"
type_synonym mem = "nat \<Rightarrow> u8"

section \<open>Pointer and length arguments\<close>

text \<open>
  A C argument pair \<open>(const uint8_t *data, uint32_t len)\<close>: either a null pointer together
  with the length the caller passed, or the bytes that the pointer and the length delimit.
\<close>

datatype cbuf = NullBuf nat | Bytes "u8 list"

fun buf_len :: "cbuf \<Rightarrow> nat" where
  "buf_len (NullBuf n) = n"
| "buf_len (Bytes xs) = length xs"

fun buf_null :: "cbuf \<Rightarrow> bool" where
  "buf_null (NullBuf n) = True"
| "buf_null (Bytes xs) = False"

fun buf_bytes :: "cbuf \<Rightarrow> u8 list" where
  "buf_bytes (NullBuf n) = []"
| "buf_bytes (Bytes xs) = xs"

lemma length_buf_bytes [simp]: "\<not> buf_null d \<Longrightarrow> length (buf_bytes d) = buf_len d"
  by (cases d) auto

lemma length_buf_bytes_le: "length (buf_bytes d) \<le> buf_len d"
  by (cases d) auto

section \<open>Host memory\<close>

definition mem_read :: "mem \<Rightarrow> nat \<Rightarrow> nat \<Rightarrow> u8 list" where
  "mem_read m a n = map m [a..<a + n]"

definition mem_write :: "mem \<Rightarrow> nat \<Rightarrow> u8 list \<Rightarrow> mem" where
  "mem_write m a bs = (\<lambda>x. if a \<le> x \<and> x < a + length bs then bs ! (x - a) else m x)"

lemma length_mem_read [simp]: "length (mem_read m a n) = n"
  by (simp add: mem_read_def)

lemma mem_write_Nil [simp]: "mem_write m a [] = m"
  by (rule ext) (auto simp: mem_write_def)

lemma mem_read_write [mem_simps]: "mem_read (mem_write m a bs) a (length bs) = bs"
  by (rule nth_equalityI) (auto simp: mem_read_def mem_write_def)

lemma mem_write_outside [mem_simps]:
  "x < a \<or> a + length bs \<le> x \<Longrightarrow> mem_write m a bs x = m x"
  by (auto simp: mem_write_def)

section \<open>Wrap-safe time\<close>

text \<open>
  The timers compare 32-bit millisecond counters by the sign of their difference:
  \<open>(int32_t)(now - due) >= 0\<close>.
\<close>

definition ms_reached :: "u32 \<Rightarrow> u32 \<Rightarrow> bool" where
  "ms_reached now due \<longleftrightarrow> 0 \<le> sint (now - due)"

definition ms_later :: "u32 \<Rightarrow> u32 \<Rightarrow> bool" where
  "ms_later a b \<longleftrightarrow> 0 < sint (a - b)"

lemma ms_reached_refl [simp]: "ms_reached t t"
  by (simp add: ms_reached_def)

lemma odd_div_half: "0 \<le> x \<Longrightarrow> x < 2 * k \<Longrightarrow> odd (x div k) \<longleftrightarrow> k \<le> (x :: int)"
proof (cases "x < k")
  case False
  assume "0 \<le> x" "x < 2 * k"
  with False have "x div k = 1"
    by (intro int_div_pos_eq [where r = "x - k"]) auto
  with False show ?thesis by simp
qed simp

lemma sint_nonneg_unat: "0 \<le> sint (w :: u32) \<longleftrightarrow> unat w < 2 ^ 31"
proof -
  have "sint w = signed_take_bit 31 (uint w)"
    by (simp add: sint_uint)
  then have "0 \<le> sint w \<longleftrightarrow> \<not> bit (uint w) 31"
    by simp
  also have "\<dots> \<longleftrightarrow> uint w < 2 ^ 31"
    using odd_div_half [of "uint w" "2 ^ 31"] uint_bounded [of w] by (simp add: bit_iff_odd not_le)
  also have "\<dots> \<longleftrightarrow> unat w < 2 ^ 31"
    unfolding unat_eq_nat_uint by (subst nat_less_iff) auto
  finally show ?thesis .
qed

lemma ms_reached_unat: "ms_reached now due \<longleftrightarrow> unat (now - due) < 2 ^ 31"
  by (simp add: ms_reached_def sint_nonneg_unat)

lemma ms_reached_after:
  "unat d < 2 ^ 31 \<Longrightarrow> unat e < 2 ^ 31 \<Longrightarrow> d \<le> e \<Longrightarrow> ms_reached (t + e) (t + d)"
proof -
  assume d: "unat d < 2 ^ 31" "unat e < 2 ^ 31" and "d \<le> e"
  then have "unat (e - d) \<le> unat e"
    by (simp add: unat_sub)
  with d show ?thesis by (simp add: ms_reached_unat)
qed

lemma ms_not_reached_before:
  "0 < unat d \<Longrightarrow> unat d \<le> 2 ^ 31 \<Longrightarrow> \<not> ms_reached t (t + d)"
proof -
  assume d: "0 < unat d" "unat d \<le> 2 ^ 31"
  then have "d \<noteq> 0" by auto
  have "unat (t - (t + d)) = unat (- d)" by simp
  also have "\<dots> = 2 ^ 32 - unat d"
    using d unat_sub_if' [of 0 d] by simp
  finally show ?thesis using d by (simp add: ms_reached_unat)
qed

text \<open>A delay of \<open>d\<close> milliseconds that starts at \<open>t\<close> runs for exactly \<open>d\<close> ticks.\<close>

lemma ms_delay:
  assumes "d < 2 ^ 31" "k < 2 ^ 31"
  shows "ms_reached (t + of_nat k) (t + of_nat d) \<longleftrightarrow> d \<le> k"
proof (cases "d \<le> k")
  case True
  then have "(t + of_nat k) - (t + of_nat d) = (of_nat (k - d) :: u32)"
    by (simp add: of_nat_diff)
  moreover have "unat (of_nat (k - d) :: u32) = k - d"
    using assms by (simp add: unat_of_nat take_bit_nat_eq_self)
  ultimately show ?thesis using True assms by (simp add: ms_reached_unat)
next
  case False
  then have "(t + of_nat d) = (t + of_nat k) + (of_nat (d - k) :: u32)"
    by (simp add: of_nat_diff)
  moreover have "unat (of_nat (d - k) :: u32) = d - k"
    using assms by (simp add: unat_of_nat take_bit_nat_eq_self)
  ultimately show ?thesis
    using False assms ms_not_reached_before [of "of_nat (d - k)" "t + of_nat k"] by simp
qed

section \<open>Decimal text\<close>

text \<open>The text that the printf conversions \<open>%d\<close> and \<open>%u\<close> give for a natural number.\<close>

fun dec :: "nat \<Rightarrow> string" where
  "dec n = (if n < 10 then [char_of (n + 48)] else dec (n div 10) @ [char_of (n mod 10 + 48)])"

declare dec.simps [simp del]

lemma dec_nonempty [simp]: "dec n \<noteq> []"
  by (simp add: dec.simps [of n])

lemma of_nat_unat_id [simp]: "of_nat (unat w) = (w :: 'a :: len word)"
  by simp

lemma unat_u8_less [simp]: "unat (w :: u8) < 256"
  using unsigned_less [of w, where 'a = nat] by simp

lemma unat_u16_less [simp]: "unat (w :: u16) < 65536"
  using unsigned_less [of w, where 'a = nat] by simp

lemma bit_u8_beyond [simp]: "8 \<le> n \<Longrightarrow> \<not> bit (w :: u8) n"
  using bit_imp_le_length [of w n] by auto

lemma unat_u8_u32 [simp]: "unat (ucast l :: u32) = unat (l :: u8)"
proof -
  have "unat l < 2 ^ 32" by (rule order.strict_trans2 [OF unat_u8_less]) simp
  then show ?thesis by (simp only: unsigned_ucast_eq) (simp add: take_bit_nat_eq_self)
qed

lemma unat_u16_u32 [simp]: "unat (ucast l :: u32) = unat (l :: u16)"
proof -
  have "unat l < 2 ^ 32" by (rule order.strict_trans2 [OF unat_u16_less]) simp
  then show ?thesis by (simp only: unsigned_ucast_eq) (simp add: take_bit_nat_eq_self)
qed

text \<open>The bytes of a 32-bit word.\<close>

lemma unat_byte: "unat (ucast (drop_bit n w) :: u8) = unat (w :: u32) div 2 ^ n mod 256"
proof -
  have "unat (ucast (drop_bit n w) :: u8) = take_bit 8 (unat (drop_bit n w))"
    by (simp only: unsigned_ucast_eq) simp
  then show ?thesis by (simp only: unat_drop_bit_eq) (simp add: take_bit_eq_mod drop_bit_eq_div)
qed

lemma unat_byte0: "unat (ucast w :: u8) = unat (w :: u32) mod 256"
  using unat_byte [of 0 w] by simp

lemma byte_masks:
  "ucast (x AND 0xFF) = (ucast (x :: u32) :: u8)"
  "ucast (drop_bit 8 (x AND 0xFF00)) = (ucast (drop_bit 8 x) :: u8)"
  "ucast (drop_bit 16 (x AND 0xFF0000)) = (ucast (drop_bit 16 x) :: u8)"
  "ucast (drop_bit 24 (x AND 0xFF000000)) = (ucast (drop_bit 24 x) :: u8)"
proof -
  have *: "ucast (y AND 0xFF) = (ucast y :: u8)" for y :: u32
  proof (rule bit_word_eqI)
    fix n assume "n < LENGTH(8)"
    then have "n < 8" by simp
    then have "bit (0xFF :: u32) n" using bit_mask_iff [of 8 n, where 'a = u32] by (simp add: mask_numeral)
    with \<open>n < 8\<close> show "bit (ucast (y AND 0xFF) :: u8) n = bit (ucast y :: u8) n" by (simp add: bit_simps)
  qed
  show "ucast (x AND 0xFF) = (ucast x :: u8)" by (rule *)
  show "ucast (drop_bit 8 (x AND 0xFF00)) = (ucast (drop_bit 8 x) :: u8)"
   "ucast (drop_bit 16 (x AND 0xFF0000)) = (ucast (drop_bit 16 x) :: u8)"
   "ucast (drop_bit 24 (x AND 0xFF000000)) = (ucast (drop_bit 24 x) :: u8)"
    using * [of "drop_bit 8 x"] * [of "drop_bit 16 x"] * [of "drop_bit 24 x"] by simp_all
qed

lemma split3: "(n div 65536 mod 256 * 256 + n div 256 mod 256) * 256 + n mod 256 = (n :: nat)"
  if "n < 16777216"
proof -
  have 1: "n div 65536 mod 256 = n div 65536" using that by (simp add: less_mult_imp_div_less)
  have 2: "n div 65536 * 256 + n div 256 mod 256 = n div 256"
    using div_mult_mod_eq [of "n div 256" 256] by (simp flip: div_mult2_eq)
  show ?thesis unfolding 1 2 by (rule div_mult_mod_eq)
qed

lemma split4: "((n div 16777216 mod 256 * 256 + n div 65536 mod 256) * 256 + n div 256 mod 256) * 256 + n mod 256 = (n :: nat)"
  if "n < 4294967296"
proof -
  have "n div 256 < 16777216" using that by (simp add: less_mult_imp_div_less)
  moreover have "n div 256 div 65536 = n div 16777216" "n div 256 div 256 = n div 65536"
    by (simp_all flip: div_mult2_eq)
  ultimately have 1: "(n div 16777216 mod 256 * 256 + n div 65536 mod 256) * 256 + n div 256 mod 256 = n div 256"
    using split3 [of "n div 256"] by (simp only:)
  show ?thesis unfolding 1 by (rule div_mult_mod_eq)
qed

lemma u32_less: "unat (w :: u32) < 4294967296"
  using unsigned_less [of w, where 'a = nat] by simp

section \<open>First-match scans\<close>

text \<open>
  The loop \<open>for (i = 0; i < n; i++) if (P(a[i])) return &a[i]; return NULL\<close>, which the
  tables of the firmware use for every lookup, as the index of the first match.
\<close>

fun find_index :: "('a \<Rightarrow> bool) \<Rightarrow> 'a list \<Rightarrow> nat option" where
  "find_index P [] = None"
| "find_index P (x # xs) = (if P x then Some 0 else map_option Suc (find_index P xs))"

lemma find_index_None: "find_index P xs = None \<longleftrightarrow> (\<forall>x \<in> set xs. \<not> P x)"
  by (induction xs) auto

lemma find_index_SomeD:
  "find_index P xs = Some i \<Longrightarrow> i < length xs \<and> P (xs ! i) \<and> (\<forall>j < i. \<not> P (xs ! j))"
proof (induction xs arbitrary: i)
  case (Cons x xs)
  show ?case
  proof (cases "P x")
    case False
    with Cons.prems obtain k where "find_index P xs = Some k" "i = Suc k" by auto
    with Cons.IH [of k] False show ?thesis
      by (auto simp: nth_Cons split: nat.split)
  qed (use Cons.prems in auto)
qed simp

lemma find_index_SomeI:
  "i < length xs \<Longrightarrow> P (xs ! i) \<Longrightarrow> (\<And>j. j < i \<Longrightarrow> \<not> P (xs ! j)) \<Longrightarrow> find_index P xs = Some i"
proof (induction xs arbitrary: i)
  case (Cons x xs)
  show ?case
  proof (cases i)
    case 0
    with Cons.prems show ?thesis by simp
  next
    case (Suc k)
    have "find_index P xs = Some k"
      using Cons.prems(1,2) Cons.prems(3) [of "Suc _"] Suc by (intro Cons.IH) auto
    with Suc Cons.prems(3) [of 0] show ?thesis by simp
  qed
qed simp

lemma find_index_cong_list:
  "length xs = length ys \<Longrightarrow> (\<And>i. i < length xs \<Longrightarrow> P (xs ! i) = P (ys ! i)) \<Longrightarrow>
   find_index P xs = find_index P ys"
proof (induction xs ys rule: list_induct2')
  case (4 x xs y ys)
  have "find_index P xs = find_index P ys"
    using "4.prems"(1) "4.prems"(2) [of "Suc _"] by (intro "4.IH") auto
  moreover have "P x = P y"
    using "4.prems"(2) [of 0] by simp
  ultimately show ?case by simp
qed auto

lemma find_index_find: "find_index P xs = find (\<lambda>i. P (xs ! i)) [0..<length xs]"
proof (cases "find (\<lambda>i. P (xs ! i)) [0..<length xs]")
  case None
  then have "find_index P xs = None"
    by (auto simp: find_None_iff find_index_None in_set_conv_nth)
  with None show ?thesis by simp
next
  case (Some i)
  then have "i < length xs" "P (xs ! i)" "\<forall>j < i. \<not> P (xs ! j)"
    by (auto simp: find_Some_iff)
  with Some show ?thesis by (auto intro: find_index_SomeI)
qed

lemma distinct_map_filter_nth:
  "distinct (map f (filter P xs)) \<longleftrightarrow>
   (\<forall>i < length xs. \<forall>j < length xs. P (xs ! i) \<and> P (xs ! j) \<and> f (xs ! i) = f (xs ! j) \<longrightarrow> i = j)"
proof (induction xs)
  case (Cons x xs)
  have "(\<forall>i < length (x # xs). \<forall>j < length (x # xs). P ((x # xs) ! i) \<and> P ((x # xs) ! j) \<and>
      f ((x # xs) ! i) = f ((x # xs) ! j) \<longrightarrow> i = j) \<longleftrightarrow>
    (P x \<longrightarrow> (\<forall>j < length xs. P (xs ! j) \<longrightarrow> f x \<noteq> f (xs ! j))) \<and>
    (\<forall>i < length xs. \<forall>j < length xs. P (xs ! i) \<and> P (xs ! j) \<and> f (xs ! i) = f (xs ! j) \<longrightarrow> i = j)"
    by (simp add: All_less_Suc2) (safe; metis)
  with Cons.IH show ?case
    by (auto simp: in_set_conv_nth)
qed simp

section \<open>Slot recycling\<close>

text \<open>
  The fallback scan of the stream tables: the first slot that is free wins, else the slot whose
  deadline comes first.  \<open>v\<close> is the victim so far.
\<close>

fun pick_victim :: "('a \<Rightarrow> bool) \<Rightarrow> ('a \<Rightarrow> u32) \<Rightarrow> 'a list \<Rightarrow> nat list \<Rightarrow> nat \<Rightarrow> nat" where
  "pick_victim free due xs [] v = v"
| "pick_victim free due xs (i # is) v =
     (if free (xs ! i) then i
      else pick_victim free due xs is (if ms_later (due (xs ! v)) (due (xs ! i)) then i else v))"

lemma pick_victim_bound:
  "v < n \<Longrightarrow> \<forall>i \<in> set is. i < n \<Longrightarrow> pick_victim free due xs is v < n"
  by (induction "is" arbitrary: v) auto

lemma pick_victim_free:
  "\<exists>i \<in> set is. free (xs ! i) \<Longrightarrow> free (xs ! pick_victim free due xs is v)"
  by (induction "is" arbitrary: v) auto

end
