(* ===== verification/AunTypes.thy ===== *)
theory AunTypes
  imports Prelude
begin

text \<open>
  The state of the AUN protocol engine (\<open>src/src/AUN/aun.h\<close>) and its byte-level helpers
  (the first section of \<open>src/src/AUN/aun.c\<close>).

  Every struct of \<open>aun.h\<close> is a record with the struct's fields, prefixed by a letter for the
  struct.  Sequence numbers, addresses, ports, control bytes, times and statistics keep their C
  width as words.  Lengths, sizes and queue positions are \<open>nat\<close>; the invariant of
  \<open>AunEngine\<close> bounds each of them below its C width.  A pointer to host memory is an address
  into a \<^typ>\<open>mem\<close>, with \<^const>\<open>None\<close> for \<open>NULL\<close>; a byte array that is only ever read
  up to a stored length is the list of those bytes.

  The injected transport (\<open>aun_transport_t\<close>) is a parameter: its two function pointers act on
  an arbitrary user state \<open>'u\<close>, the outside world.  That nothing was sent is the statement
  that this state is unchanged, for every transport.
\<close>

section \<open>Constants\<close>

abbreviation (input) AUN_HDR_SIZE :: nat where "AUN_HDR_SIZE \<equiv> 8"
abbreviation (input) AUN_DEFAULT_UDP_PORT :: u16 where "AUN_DEFAULT_UDP_PORT \<equiv> 32768"
abbreviation (input) AUN_MAX_DATA :: nat where "AUN_MAX_DATA \<equiv> 8192"
abbreviation (input) AUN_TYPE_BROADCAST :: u8 where "AUN_TYPE_BROADCAST \<equiv> 1"
abbreviation (input) AUN_TYPE_DATA :: u8 where "AUN_TYPE_DATA \<equiv> 2"
abbreviation (input) AUN_TYPE_ACK :: u8 where "AUN_TYPE_ACK \<equiv> 3"
abbreviation (input) AUN_TYPE_NAK :: u8 where "AUN_TYPE_NAK \<equiv> 4"
abbreviation (input) AUN_TYPE_IMMEDIATE :: u8 where "AUN_TYPE_IMMEDIATE \<equiv> 5"
abbreviation (input) AUN_TYPE_IMM_REPLY :: u8 where "AUN_TYPE_IMM_REPLY \<equiv> 6"
abbreviation (input) AUN_CTRL_MACHINE_PEEK :: u8 where "AUN_CTRL_MACHINE_PEEK \<equiv> 8"
abbreviation (input) AUN_CTRL_IMM4_FIRST :: u8 where "AUN_CTRL_IMM4_FIRST \<equiv> 2"
abbreviation (input) AUN_CTRL_IMM4_LAST :: u8 where "AUN_CTRL_IMM4_LAST \<equiv> 5"
abbreviation (input) AUN_CTRL_POKE :: u8 where "AUN_CTRL_POKE \<equiv> 2"

abbreviation (input) AUN_OK :: u8 where "AUN_OK \<equiv> 0"
abbreviation (input) AUN_TX_NOT_LISTENING :: u8 where "AUN_TX_NOT_LISTENING \<equiv> 1"
abbreviation (input) AUN_TX_NET_ERROR :: u8 where "AUN_TX_NET_ERROR \<equiv> 2"
abbreviation (input) AUN_TX_NO_ROUTE :: u8 where "AUN_TX_NO_ROUTE \<equiv> 3"
abbreviation (input) AUN_TX_BUSY :: u8 where "AUN_TX_BUSY \<equiv> 4"
abbreviation (input) AUN_ERR_PARAM :: u8 where "AUN_ERR_PARAM \<equiv> 5"
abbreviation (input) AUN_ERR_NOT_READY :: u8 where "AUN_ERR_NOT_READY \<equiv> 6"
abbreviation (input) AUN_ERR_NO_BLOCK :: u8 where "AUN_ERR_NO_BLOCK \<equiv> 7"
abbreviation (input) AUN_STATUS_PENDING :: u8 where "AUN_STATUS_PENDING \<equiv> 0x80"

abbreviation (input) AUN_MAP_MAX :: nat where "AUN_MAP_MAX \<equiv> 32"
abbreviation (input) AUN_RX_BLOCKS :: nat where "AUN_RX_BLOCKS \<equiv> 2"
abbreviation (input) AUN_RX_QUEUE :: nat where "AUN_RX_QUEUE \<equiv> 8"
abbreviation (input) AUN_REJECT_RETRIES :: nat where "AUN_REJECT_RETRIES \<equiv> 10"
abbreviation (input) AUN_REJECT_TIMEOUT_MS :: u32 where "AUN_REJECT_TIMEOUT_MS \<equiv> 10"
abbreviation (input) AUN_NORESP_TIMEOUT_MS :: u32 where "AUN_NORESP_TIMEOUT_MS \<equiv> 1000"
abbreviation (input) AUN_NORESP_RETRIES :: nat where "AUN_NORESP_RETRIES \<equiv> 0"
abbreviation (input) AUN_HIMM_TIMEOUT_MS :: u32 where "AUN_HIMM_TIMEOUT_MS \<equiv> 1000"
abbreviation (input) AUN_HIMM_CACHE_MS :: u32 where "AUN_HIMM_CACHE_MS \<equiv> 6000"
abbreviation (input) AUN_DEFER_RETRIES :: nat where "AUN_DEFER_RETRIES \<equiv> 250"
abbreviation (input) AUN_DEFER_DELAY_MS :: u32 where "AUN_DEFER_DELAY_MS \<equiv> 8"
abbreviation (input) AUN_CONDEMN_RETRIES :: nat where "AUN_CONDEMN_RETRIES \<equiv> 12"
abbreviation (input) AUN_CONDEMN_TTL_MS :: u32 where "AUN_CONDEMN_TTL_MS \<equiv> 10000"
abbreviation (input) AUN_CONDEMN_SLOTS :: nat where "AUN_CONDEMN_SLOTS \<equiv> 4"
abbreviation (input) AUN_RX_DEFER_SLOTS :: nat where "AUN_RX_DEFER_SLOTS \<equiv> 8"
abbreviation (input) AUN_WILDCARD :: u8 where "AUN_WILDCARD \<equiv> 0xFF"
abbreviation (input) AUN_HIMM_MAX :: nat where "AUN_HIMM_MAX \<equiv> 2048"
abbreviation (input) AUN_DBG_PREV_SLOTS :: nat where "AUN_DBG_PREV_SLOTS \<equiv> 6"

abbreviation (input) AUN_RXV_ACK :: u8 where "AUN_RXV_ACK \<equiv> 0"
abbreviation (input) AUN_RXV_REDUP :: u8 where "AUN_RXV_REDUP \<equiv> 1"
abbreviation (input) AUN_RXV_NAK :: u8 where "AUN_RXV_NAK \<equiv> 2"
abbreviation (input) AUN_RXV_NOSRC :: u8 where "AUN_RXV_NOSRC \<equiv> 3"
abbreviation (input) AUN_RXV_FULL :: u8 where "AUN_RXV_FULL \<equiv> 4"

text \<open>A DATA frame on port 0 with one of these control bytes is a 4-way immediate operation.\<close>

abbreviation imm4 :: "u8 \<Rightarrow> u8 \<Rightarrow> bool" where
  "imm4 port ctrl \<equiv> port = 0 \<and> AUN_CTRL_IMM4_FIRST \<le> ctrl \<and> ctrl \<le> AUN_CTRL_IMM4_LAST"

section \<open>Structs\<close>

record 'u aun_transport_t =
  tr_udp_send :: "'u \<Rightarrow> u32 \<Rightarrow> u16 \<Rightarrow> u8 list \<Rightarrow> bool \<times> 'u"
  tr_now_ms :: "'u \<Rightarrow> u32"
  tr_user :: 'u

record aun_map_entry_t =
  m_net :: u8
  m_stn :: u8
  m_ip_be :: u32
  m_udp_port :: u16
  m_last_rx_seq :: u32
  m_seq_valid :: bool

record aun_rx_frame_t =
  f_len :: nat
  f_src_stn :: u8
  f_src_net :: u8
  f_port :: u8
  f_ctrl :: u8
  f_rejects :: nat
  f_seq :: u32
  f_src_ip_be :: u32
  f_src_port :: u16
  f_data :: "u8 list"

record aun_rx_defer_t =
  d_valid :: bool
  d_port :: u8
  d_src_port :: u16
  d_src_ip_be :: u32
  d_due_ms :: u32

record aun_rx_condemn_t =
  c_valid :: bool
  c_port :: u8
  c_src_port :: u16
  c_src_ip_be :: u32
  c_until_ms :: u32

record aun_rx_block_t =
  b_open :: bool
  b_presented :: bool
  b_pres_off :: nat
  b_port :: u8
  b_stn :: u8
  b_net :: u8
  b_buf :: "nat option"
  b_buf_size :: nat
  b_head :: nat
  b_count :: nat
  b_q :: "aun_rx_frame_t list"
  b_defer :: "aun_rx_defer_t list"

record aun_tx_t =
  t_state :: u8
  t_wire_type :: u8
  t_seq :: u32
  t_ip_be :: u32
  t_udp_port :: u16
  t_datagram :: "u8 list"
  t_len :: nat
  t_deadline_ms :: u32
  t_noresp_left :: nat
  t_reject_left :: nat
  t_reject_pending :: bool
  t_reply_buf :: "nat option"
  t_reply_max :: nat
  t_reply_len :: nat

record aun_counters_t =
  k_tx_ok :: u32
  k_tx_fail :: u32
  k_rx_data :: u32
  k_rx_broadcast :: u32
  k_rx_imm :: u32
  k_rx_dup :: u32
  k_rx_no_block :: u32
  k_rx_unknown_source :: u32
  k_rx_too_big :: u32
  k_rx_bad :: u32
  k_rx_full :: u32
  k_ack_sent :: u32
  k_nak_sent :: u32
  k_ack_fail :: u32
  k_rx_parked_drop :: u32
  k_himm_timeout :: u32
  k_himm_replay :: u32

record aun_host_imm_t =
  h_active :: bool
  h_from_data :: bool
  h_ctrl :: u8
  h_seq :: u32
  h_ip_be :: u32
  h_port :: u16
  h_len :: nat
  h_due_ms :: u32
  h_gen :: u32
  h_polled_gen :: u32
  h_data :: "u8 list"

record aun_himm_cache_t =
  hc_valid :: bool
  hc_is_nak :: bool
  hc_from_data :: bool
  hc_ctrl :: u8
  hc_seq :: u32
  hc_ip_be :: u32
  hc_port :: u16
  hc_len :: nat
  hc_due_ms :: u32
  hc_data :: "u8 list"

record aun_dbg_prev_t =
  p_valid :: bool
  p_ip_be :: u32
  p_udp_port :: u16
  p_aun_port :: u8
  p_len :: nat
  p_hash :: u32

text \<open>
  The station map is the list of its \<open>map_count\<close> live entries; entries are only ever added.
  The trace hook acts on the same outside world as the transport.
\<close>

record 'u aun_engine_t =
  initialised :: bool
  station :: u8
  net :: u8
  transport :: "'u aun_transport_t"
  next_seq :: u32
  e_map :: "aun_map_entry_t list"
  e_rx :: "aun_rx_block_t list"
  condemned :: "aun_rx_condemn_t list"
  tx :: aun_tx_t
  counters :: aun_counters_t
  broadcast_ip_be :: u32
  subnet_base_be :: u32
  subnet_mask_be :: u32
  learn_net :: u8
  machine_id :: "u8 list"
  host_imm_enabled :: bool
  himm :: aun_host_imm_t
  himm_cache :: aun_himm_cache_t
  test_enabled :: bool
  test_stn :: u8
  test_net :: u8
  trace_fn :: "('u \<Rightarrow> u32 \<Rightarrow> u8 \<Rightarrow> nat \<Rightarrow> u8 \<Rightarrow> bool \<Rightarrow> u8 list \<Rightarrow> 'u) option"
  dbg_prev :: "aun_dbg_prev_t list"
  dbg_prev_next :: nat

record aun_rx_info_t =
  i_src_stn :: u8
  i_src_net :: u8
  i_port :: u8
  i_ctrl :: u8
  i_len :: nat

section \<open>Zeroed structs (\<open>memset\<close>)\<close>

definition frame_zero :: aun_rx_frame_t where
  "frame_zero = \<lparr>f_len = 0, f_src_stn = 0, f_src_net = 0, f_port = 0, f_ctrl = 0, f_rejects = 0,
     f_seq = 0, f_src_ip_be = 0, f_src_port = 0, f_data = []\<rparr>"

definition defer_zero :: aun_rx_defer_t where
  "defer_zero = \<lparr>d_valid = False, d_port = 0, d_src_port = 0, d_src_ip_be = 0, d_due_ms = 0\<rparr>"

definition condemn_zero :: aun_rx_condemn_t where
  "condemn_zero =
     \<lparr>c_valid = False, c_port = 0, c_src_port = 0, c_src_ip_be = 0, c_until_ms = 0\<rparr>"

definition rx_block_zero :: aun_rx_block_t where
  "rx_block_zero = \<lparr>b_open = False, b_presented = False, b_pres_off = 0, b_port = 0, b_stn = 0,
     b_net = 0, b_buf = None, b_buf_size = 0, b_head = 0, b_count = 0,
     b_q = replicate AUN_RX_QUEUE frame_zero,
     b_defer = replicate AUN_RX_DEFER_SLOTS defer_zero\<rparr>"

definition tx_zero :: aun_tx_t where
  "tx_zero = \<lparr>t_state = AUN_OK, t_wire_type = 0, t_seq = 0, t_ip_be = 0, t_udp_port = 0,
     t_datagram = [], t_len = 0, t_deadline_ms = 0, t_noresp_left = 0, t_reject_left = 0,
     t_reject_pending = False, t_reply_buf = None, t_reply_max = 0, t_reply_len = 0\<rparr>"

definition counters_zero :: aun_counters_t where
  "counters_zero = \<lparr>k_tx_ok = 0, k_tx_fail = 0, k_rx_data = 0, k_rx_broadcast = 0, k_rx_imm = 0,
     k_rx_dup = 0, k_rx_no_block = 0, k_rx_unknown_source = 0, k_rx_too_big = 0, k_rx_bad = 0,
     k_rx_full = 0, k_ack_sent = 0, k_nak_sent = 0, k_ack_fail = 0, k_rx_parked_drop = 0,
     k_himm_timeout = 0, k_himm_replay = 0\<rparr>"

definition himm_zero :: aun_host_imm_t where
  "himm_zero = \<lparr>h_active = False, h_from_data = False, h_ctrl = 0, h_seq = 0, h_ip_be = 0,
     h_port = 0, h_len = 0, h_due_ms = 0, h_gen = 0, h_polled_gen = 0, h_data = []\<rparr>"

definition himm_cache_zero :: aun_himm_cache_t where
  "himm_cache_zero = \<lparr>hc_valid = False, hc_is_nak = False, hc_from_data = False, hc_ctrl = 0,
     hc_seq = 0, hc_ip_be = 0, hc_port = 0, hc_len = 0, hc_due_ms = 0, hc_data = []\<rparr>"

definition dbg_prev_zero :: aun_dbg_prev_t where
  "dbg_prev_zero =
     \<lparr>p_valid = False, p_ip_be = 0, p_udp_port = 0, p_aun_port = 0, p_len = 0, p_hash = 0\<rparr>"

section \<open>Small helpers\<close>

definition rd32le :: "u8 list \<Rightarrow> u32" where
  "rd32le p = ucast (p ! 0) OR push_bit 8 (ucast (p ! 1)) OR
     push_bit 16 (ucast (p ! 2)) OR push_bit 24 (ucast (p ! 3))"

definition wr32le :: "u32 \<Rightarrow> u8 list" where
  "wr32le v = [ucast v, ucast (drop_bit 8 v), ucast (drop_bit 16 v), ucast (drop_bit 24 v)]"

definition dbg_hash :: "u8 list \<Rightarrow> u32" where
  "dbg_hash p = fold (\<lambda>b h. (h XOR ucast b) * 16777619) p 2166136261"

definition now_ms :: "'u aun_engine_t \<Rightarrow> u32" where
  "now_ms e = tr_now_ms (transport e) (tr_user (transport e))"

definition udp_send :: "'u aun_engine_t \<Rightarrow> u32 \<Rightarrow> u16 \<Rightarrow> u8 list \<Rightarrow> bool \<times> 'u aun_engine_t" where
  "udp_send e ip port buf =
     (let (ok, u) = tr_udp_send (transport e) (tr_user (transport e)) ip port buf
      in (ok, e\<lparr>transport := (transport e)\<lparr>tr_user := u\<rparr>\<rparr>))"

definition map_find_by_addr :: "'u aun_engine_t \<Rightarrow> u8 \<Rightarrow> u8 \<Rightarrow> nat option" where
  "map_find_by_addr e n s = find_index (\<lambda>m. m_net m = n \<and> m_stn m = s) (e_map e)"

definition learn_resolve :: "'u aun_engine_t \<Rightarrow> u8 \<Rightarrow> u8 \<Rightarrow> (u32 \<times> u16) option" where
  "learn_resolve e n s =
     (if learn_net e = 0xFF \<or> n \<noteq> learn_net e then None
      else Some ((subnet_base_be e AND 0x00FFFFFF) OR push_bit 24 (ucast s), AUN_DEFAULT_UDP_PORT))"

definition learn_attribute :: "'u aun_engine_t \<Rightarrow> u32 \<Rightarrow> u16 \<Rightarrow> (u8 \<times> u8) option" where
  "learn_attribute e ip port =
     (if learn_net e = 0xFF \<or> port \<noteq> AUN_DEFAULT_UDP_PORT then None
      else if ip AND subnet_mask_be e \<noteq> subnet_base_be e AND subnet_mask_be e then None
      else (let s = ucast (drop_bit 24 ip) :: u8
            in if s \<noteq> 0 \<and> s \<noteq> 255 then Some (learn_net e, s) else None))"

definition map_find_by_ip :: "'u aun_engine_t \<Rightarrow> u32 \<Rightarrow> u16 \<Rightarrow> nat option" where
  "map_find_by_ip e ip port = find_index (\<lambda>m. m_ip_be m = ip \<and> m_udp_port m = port) (e_map e)"

definition build_header :: "u8 \<Rightarrow> u8 \<Rightarrow> u8 \<Rightarrow> u32 \<Rightarrow> u8 list" where
  "build_header ty port ctrl s = [ty, port, ctrl AND 0x7F, 0] @ wr32le s"

definition send_ack_nak ::
  "'u aun_engine_t \<Rightarrow> u32 \<Rightarrow> u16 \<Rightarrow> u8 \<Rightarrow> u8 \<Rightarrow> u8 \<Rightarrow> u32 \<Rightarrow> 'u aun_engine_t" where
  "send_ack_nak e ip port ty aun_port ctrl s =
     (let (ok, e1) = udp_send e ip port (build_header ty aun_port ctrl s); k = counters e1
      in if \<not> ok then e1\<lparr>counters := k\<lparr>k_ack_fail := k_ack_fail k + 1\<rparr>\<rparr>
         else if ty = AUN_TYPE_ACK then e1\<lparr>counters := k\<lparr>k_ack_sent := k_ack_sent k + 1\<rparr>\<rparr>
         else e1\<lparr>counters := k\<lparr>k_nak_sent := k_nak_sent k + 1\<rparr>\<rparr>)"

section \<open>Initialisation and configuration\<close>

text \<open>
  \<open>aun_init\<close> clears the whole engine (\<open>memset\<close>) before it fills it in, so the result does
  not depend on the engine it is given.
\<close>

definition aun_init :: "'u aun_transport_t \<Rightarrow> u8 \<Rightarrow> u8 \<Rightarrow> 'u aun_engine_t" where
  "aun_init tr s n =
     \<lparr>initialised = True, station = s, net = n, transport = tr, next_seq = 4, e_map = [],
      e_rx = replicate AUN_RX_BLOCKS rx_block_zero,
      condemned = replicate AUN_CONDEMN_SLOTS condemn_zero,
      tx = tx_zero, counters = counters_zero, broadcast_ip_be = 0, subnet_base_be = 0,
      subnet_mask_be = 0, learn_net = 0xFF, machine_id = [0x01, 0x00, 0x60, 0x03],
      host_imm_enabled = False, himm = himm_zero, himm_cache = himm_cache_zero,
      test_enabled = False, test_stn = 0, test_net = 0, trace_fn = None,
      dbg_prev = replicate AUN_DBG_PREV_SLOTS dbg_prev_zero, dbg_prev_next = 0\<rparr>"

definition aun_map_add ::
  "'u aun_engine_t \<Rightarrow> u8 \<Rightarrow> u8 \<Rightarrow> u32 \<Rightarrow> u16 \<Rightarrow> bool \<times> 'u aun_engine_t" where
  "aun_map_add e n s ip udp_port =
     (let p = (if udp_port = 0 then AUN_DEFAULT_UDP_PORT else udp_port)
      in case map_find_by_addr e n s of
           Some i \<Rightarrow>
             (True, e\<lparr>e_map := (e_map e)
                [i := (e_map e ! i)\<lparr>m_ip_be := ip, m_udp_port := p, m_seq_valid := False\<rparr>]\<rparr>)
         | None \<Rightarrow>
             if length (e_map e) \<ge> AUN_MAP_MAX then (False, e)
             else (True, e\<lparr>e_map := e_map e @
                [\<lparr>m_net = n, m_stn = s, m_ip_be = ip, m_udp_port = p, m_last_rx_seq = 0,
                  m_seq_valid = False\<rparr>]\<rparr>))"

definition aun_set_addressing ::
  "'u aun_engine_t \<Rightarrow> u32 \<Rightarrow> u32 \<Rightarrow> u32 \<Rightarrow> u8 \<Rightarrow> 'u aun_engine_t" where
  "aun_set_addressing e bcast base msk ln =
     e\<lparr>broadcast_ip_be := bcast, subnet_base_be := base, subnet_mask_be := msk, learn_net := ln\<rparr>"

definition aun_test_responder :: "'u aun_engine_t \<Rightarrow> bool \<Rightarrow> u8 \<Rightarrow> u8 \<Rightarrow> 'u aun_engine_t" where
  "aun_test_responder e enable s n = e\<lparr>test_enabled := enable, test_stn := s, test_net := n\<rparr>"

definition aun_set_machine_id :: "'u aun_engine_t \<Rightarrow> u8 list \<Rightarrow> 'u aun_engine_t" where
  "aun_set_machine_id e ident = e\<lparr>machine_id := take 4 ident\<rparr>"

definition aun_set_trace ::
  "'u aun_engine_t \<Rightarrow> ('u \<Rightarrow> u32 \<Rightarrow> u8 \<Rightarrow> nat \<Rightarrow> u8 \<Rightarrow> bool \<Rightarrow> u8 list \<Rightarrow> 'u) option \<Rightarrow>
   'u aun_engine_t" where
  "aun_set_trace e fn = e\<lparr>trace_fn := fn\<rparr>"

definition aun_set_host_imm :: "'u aun_engine_t \<Rightarrow> bool \<Rightarrow> 'u aun_engine_t" where
  "aun_set_host_imm e enable =
     e\<lparr>host_imm_enabled := enable, himm := (himm e)\<lparr>h_active := False\<rparr>,
       himm_cache := (himm_cache e)\<lparr>hc_valid := False\<rparr>\<rparr>"

definition send_imm_reply ::
  "'u aun_engine_t \<Rightarrow> u32 \<Rightarrow> u16 \<Rightarrow> u8 \<Rightarrow> u32 \<Rightarrow> u8 list \<Rightarrow> 'u aun_engine_t" where
  "send_imm_reply e ip port ctrl s data =
     snd (udp_send e ip port
            (build_header AUN_TYPE_IMM_REPLY 0 ctrl s @ take AUN_HIMM_MAX data))"

definition himm_cache_store :: "'u aun_engine_t \<Rightarrow> bool \<Rightarrow> u8 list \<Rightarrow> 'u aun_engine_t" where
  "himm_cache_store e is_nak data =
     (let d = take AUN_HIMM_MAX data; h = himm e
      in e\<lparr>himm_cache := \<lparr>hc_valid = True, hc_is_nak = is_nak, hc_from_data = h_from_data h,
             hc_ctrl = h_ctrl h, hc_seq = h_seq h, hc_ip_be = h_ip_be h, hc_port = h_port h,
             hc_len = (if is_nak then 0 else length d),
             hc_due_ms = now_ms e + AUN_HIMM_CACHE_MS,
             hc_data = (if \<not> is_nak \<and> length d \<noteq> 0 then d else hc_data (himm_cache e))\<rparr>\<rparr>)"

definition aun_himm_reply :: "'u aun_engine_t \<Rightarrow> u8 list \<Rightarrow> 'u aun_engine_t" where
  "aun_himm_reply e data =
     (if \<not> h_active (himm e) then e
      else (let d = take AUN_HIMM_MAX data; h = himm e
            in if h_from_data h then
                 (let e1 = send_ack_nak e (h_ip_be h) (h_port h) AUN_TYPE_ACK 0 (h_ctrl h) (h_seq h);
                      e2 = himm_cache_store e1 False []
                  in e2\<lparr>himm := (himm e2)\<lparr>h_active := False\<rparr>\<rparr>)
               else
                 (let e1 = send_imm_reply e (h_ip_be h) (h_port h) (h_ctrl h) (h_seq h) d;
                      e2 = himm_cache_store e1 False d
                  in e2\<lparr>himm := (himm e2)\<lparr>h_active := False\<rparr>\<rparr>)))"

section \<open>Byte-level facts\<close>

lemma length_wr32le [simp]: "length (wr32le v) = 4"
  by (simp add: wr32le_def)

lemma rd32le_wr32le [wire, simp]: "rd32le (wr32le v @ xs) = v"
proof (rule bit_word_eqI)
  fix n assume "n < LENGTH(32)"
  then have "n < 32" by simp
  then consider "n < 8" | "8 \<le> n" "n < 16" | "16 \<le> n" "n < 24" | "24 \<le> n" "n < 32" by linarith
  then show "bit (rd32le (wr32le v @ xs)) n = bit v n"
    by cases (auto simp: rd32le_def wr32le_def bit_simps)
qed

lemma wr32le_rd32le [wire]: "length p = 4 \<Longrightarrow> wr32le (rd32le p) = p"
proof -
  assume "length p = 4"
  then obtain a b c d where "p = [a, b, c, d]"
    by (auto simp: length_Suc_conv numeral_eq_Suc)
  then show ?thesis
    by (auto simp: rd32le_def wr32le_def bit_simps intro!: bit_word_eqI)
qed

lemma length_build_header [simp]: "length (build_header ty port ctrl s) = AUN_HDR_SIZE"
  by (simp add: build_header_def)

lemma build_header_fields [wire, simp]:
  "(build_header ty port ctrl s @ d) ! 0 = ty"
  "(build_header ty port ctrl s @ d) ! Suc 0 = port"
  "(build_header ty port ctrl s @ d) ! 2 = ctrl AND 0x7F"
  "rd32le (drop 4 (build_header ty port ctrl s @ d)) = s"
  "rd32le (drop 4 (build_header ty port ctrl s) @ d) = s"
  "drop 8 (build_header ty port ctrl s @ d) = d"
  by (simp_all add: build_header_def)

lemma and_0x7F_idem [wire, simp]: "(c AND 0x7F) AND 0x7F = (c AND 0x7F :: u8)"
  by (simp add: and.assoc)

lemma ctrl_bit7_strip [wire, simp]: "(c OR 0x80) AND 0x7F = (c AND 0x7F :: u8)"
  by (simp add: bit.conj_disj_distrib2)

section \<open>What a send changes\<close>

text \<open>The transport after exactly one datagram was handed to it.\<close>

definition after_send :: "'u aun_transport_t \<Rightarrow> u32 \<Rightarrow> u16 \<Rightarrow> u8 list \<Rightarrow> 'u aun_transport_t" where
  "after_send tr ip port bs = tr\<lparr>tr_user := snd (tr_udp_send tr (tr_user tr) ip port bs)\<rparr>"

lemma snd_udp_send:
  "snd (udp_send e ip port bs) = e\<lparr>transport := after_send (transport e) ip port bs\<rparr>"
  by (simp add: udp_send_def after_send_def case_prod_beta)

lemma fst_udp_send:
  "fst (udp_send e ip port bs) = fst (tr_udp_send (transport e) (tr_user (transport e)) ip port bs)"
  by (simp add: udp_send_def case_prod_beta)

lemma transport_send_ack_nak [simp]:
  "transport (send_ack_nak e ip port ty ap ctrl s) =
     after_send (transport e) ip port (build_header ty ap ctrl s)"
  by (simp add: send_ack_nak_def case_prod_beta Let_def snd_udp_send)

lemma send_ack_nak_frame [simp, engine_frame]:
  "initialised (send_ack_nak e ip port ty ap ctrl s) = initialised e"
  "next_seq (send_ack_nak e ip port ty ap ctrl s) = next_seq e"
  "e_map (send_ack_nak e ip port ty ap ctrl s) = e_map e"
  "e_rx (send_ack_nak e ip port ty ap ctrl s) = e_rx e"
  "condemned (send_ack_nak e ip port ty ap ctrl s) = condemned e"
  "tx (send_ack_nak e ip port ty ap ctrl s) = tx e"
  "machine_id (send_ack_nak e ip port ty ap ctrl s) = machine_id e"
  "host_imm_enabled (send_ack_nak e ip port ty ap ctrl s) = host_imm_enabled e"
  "himm (send_ack_nak e ip port ty ap ctrl s) = himm e"
  "himm_cache (send_ack_nak e ip port ty ap ctrl s) = himm_cache e"
  "trace_fn (send_ack_nak e ip port ty ap ctrl s) = trace_fn e"
  "dbg_prev (send_ack_nak e ip port ty ap ctrl s) = dbg_prev e"
  "dbg_prev_next (send_ack_nak e ip port ty ap ctrl s) = dbg_prev_next e"
  by (simp_all add: send_ack_nak_def case_prod_beta Let_def snd_udp_send)

lemma send_imm_reply_eq:
  "send_imm_reply e ip port ctrl s d =
     e\<lparr>transport := after_send (transport e) ip port
        (build_header AUN_TYPE_IMM_REPLY 0 ctrl s @ take AUN_HIMM_MAX d)\<rparr>"
  by (simp add: send_imm_reply_def snd_udp_send)

section \<open>The station map\<close>

lemma map_find_by_ip_SomeD:
  "map_find_by_ip e ip sp = Some i \<Longrightarrow>
     i < length (e_map e) \<and> m_ip_be (e_map e ! i) = ip \<and> m_udp_port (e_map e ! i) = sp"
  unfolding map_find_by_ip_def by (drule find_index_SomeD) simp

lemma map_find_by_addr_SomeD:
  "map_find_by_addr e n s = Some i \<Longrightarrow>
     i < length (e_map e) \<and> m_net (e_map e ! i) = n \<and> m_stn (e_map e ! i) = s"
  unfolding map_find_by_addr_def by (drule find_index_SomeD) simp

text \<open>In learn mode with a subnet mask of at least 24 bits, a station attributed to an address
  is resolved back to the same address and port.\<close>

theorem learn_roundtrip:
  "learn_attribute e ip port = Some (n, s) \<Longrightarrow> 0x00FFFFFF AND subnet_mask_be e = 0x00FFFFFF \<Longrightarrow>
   learn_resolve e n s = Some (ip, port)"
proof -
  assume a: "learn_attribute e ip port = Some (n, s)"
    and m: "0x00FFFFFF AND subnet_mask_be e = 0x00FFFFFF"
  from a have eq: "ip AND subnet_mask_be e = subnet_base_be e AND subnet_mask_be e"
    and s: "s = ucast (drop_bit 24 ip)" and n: "n = learn_net e" "learn_net e \<noteq> 0xFF" "port = 32768"
    by (auto simp: learn_attribute_def Let_def split: if_splits)
  have "subnet_base_be e AND 0x00FFFFFF = (subnet_base_be e AND subnet_mask_be e) AND 0x00FFFFFF"
    by (simp only: and.assoc and.commute [of "subnet_mask_be e"] m)
  also have "\<dots> = ip AND 0x00FFFFFF"
    by (simp only: eq [symmetric] and.assoc and.commute [of "subnet_mask_be e"] m)
  finally have "(subnet_base_be e AND 0x00FFFFFF) OR push_bit 24 (ucast s) =
      (ip AND mask 24) OR push_bit 24 (ucast (ucast (drop_bit 24 ip) :: u8))"
    by (simp add: s mask_eq_exp_minus_1)
  also have "\<dots> = ip"
    by (rule bit_word_eqI) (auto simp: bit_simps)
  finally show ?thesis using n by (simp add: learn_resolve_def)
qed

end
