(* ===== verification/Contracts.thy ===== *)
theory Contracts
  imports Prelude
begin

text \<open>
  The contracts that components of the firmware rely on, as locales: a bounded FIFO from which
  an element in the middle can be removed (the receive queue of an AUN block), and a fixed-size
  table of streams with deadlines, lazily expired by lookups and recycled by stores (the deferred
  and the condemned streams), and the sector streams of a disk image.  The laws a client needs are derived here once; the tables and
  queues of the model are interpretations.
\<close>

section \<open>The contract of a bounded FIFO with removal\<close>

locale bounded_fifo =
  fixes view :: "'q \<Rightarrow> 'a list"
    and put :: "'q \<Rightarrow> 'a \<Rightarrow> 'q"
    and remove_at :: "'q \<Rightarrow> nat \<Rightarrow> 'q"
    and invar :: "'q \<Rightarrow> bool"
    and cap :: nat
  assumes view_bound: "invar q \<Longrightarrow> length (view q) \<le> cap"
    and view_put: "invar q \<Longrightarrow> length (view q) < cap \<Longrightarrow> view (put q x) = view q @ [x]"
    and invar_put: "invar q \<Longrightarrow> length (view q) < cap \<Longrightarrow> invar (put q x)"
    and view_remove_at: "invar q \<Longrightarrow> k < length (view q) \<Longrightarrow>
          view (remove_at q k) = take k (view q) @ drop (Suc k) (view q)"
    and invar_remove_at: "invar q \<Longrightarrow> invar (remove_at q k)"
begin

lemma filter_split_at:
  "k < length (view q) \<Longrightarrow>
   filter P (view q) = filter P (take k (view q)) @ (if P (view q ! k) then [view q ! k] else []) @
     filter P (drop (Suc k) (view q))"
proof -
  assume "k < length (view q)"
  then have "view q = take k (view q) @ view q ! k # drop (Suc k) (view q)"
    by (rule id_take_nth_drop)
  then have "filter P (view q) = filter P (take k (view q) @ view q ! k # drop (Suc k) (view q))"
    by simp
  then show ?thesis by (simp del: append_take_drop_id)
qed

text \<open>Removing a frame leaves every stream it does not belong to as it was \<dots>\<close>

lemma other_stream_kept:
  "invar q \<Longrightarrow> k < length (view q) \<Longrightarrow> \<not> P (view q ! k) \<Longrightarrow>
   filter P (view (remove_at q k)) = filter P (view q)"
  using filter_split_at [of k q P] by (simp add: view_remove_at)

text \<open>\<dots> and pops its own stream, when it is that stream's oldest frame.\<close>

lemma own_stream_popped:
  assumes "invar q" "k < length (view q)" "P (view q ! k)" "\<And>j. j < k \<Longrightarrow> \<not> P (view q ! j)"
  shows "filter P (view q) = view q ! k # filter P (view (remove_at q k))"
proof -
  have "filter P (take k (view q)) = []"
    using assms(2,4) by (auto simp: filter_empty_conv in_set_conv_nth)
  then show ?thesis
    using filter_split_at [of k q P] assms by (simp add: view_remove_at)
qed

lemma put_appends_to_stream:
  "invar q \<Longrightarrow> length (view q) < cap \<Longrightarrow>
   filter P (view (put q x)) = filter P (view q) @ (if P x then [x] else [])"
  by (simp add: view_put)

lemma set_remove_at: "invar q \<Longrightarrow> k < length (view q) \<Longrightarrow> set (view (remove_at q k)) \<subseteq> set (view q)"
  by (auto simp: view_remove_at dest: in_set_takeD in_set_dropD)

lemma length_remove_at:
  "invar q \<Longrightarrow> k < length (view q) \<Longrightarrow> length (view (remove_at q k)) = length (view q) - 1"
  by (simp add: view_remove_at)

end

section \<open>The contract of a stream table\<close>

locale stream_table =
  fixes valid :: "'e \<Rightarrow> bool"
    and key :: "'e \<Rightarrow> 'k"
    and due :: "'e \<Rightarrow> u32"
    and clear :: "'e \<Rightarrow> 'e"
    and entry :: "'k \<Rightarrow> u32 \<Rightarrow> 'e"
    and lookup :: "u32 \<Rightarrow> 'e list \<Rightarrow> 'k \<Rightarrow> nat option \<times> 'e list"
    and until :: "u32 \<Rightarrow> 'd \<Rightarrow> u32"
    and store :: "u32 \<Rightarrow> 'e list \<Rightarrow> 'k \<Rightarrow> 'd \<Rightarrow> 'e list"
  assumes clear_invalid: "\<not> valid (clear e)"
    and entry_valid: "valid (entry k t)"
    and entry_key: "key (entry k t) = k"
    and entry_due: "due (entry k t) = t"
    and lookup_eq: "lookup now ts k =
          (case find_index (\<lambda>e. valid e \<and> key e = k) ts of
             None \<Rightarrow> (None, ts)
           | Some i \<Rightarrow> if ms_reached now (due (ts ! i)) then (None, ts[i := clear (ts ! i)])
                      else (Some i, ts))"
    and store_eq: "store now ts k d =
          ts[(case find_index (\<lambda>e. valid e \<and> key e = k) ts of
                Some i \<Rightarrow> i
              | None \<Rightarrow> pick_victim (\<lambda>e. \<not> valid e \<or> ms_reached now (due e)) due ts
                          [0..<length ts] 0) := entry k (until now d)]"
begin

definition unique :: "'e list \<Rightarrow> bool" where
  "unique ts \<longleftrightarrow> distinct (map key (filter valid ts))"

definition live :: "u32 \<Rightarrow> 'e list \<Rightarrow> 'k \<Rightarrow> bool" where
  "live now ts k \<longleftrightarrow> (\<exists>i < length ts. valid (ts ! i) \<and> key (ts ! i) = k \<and>
     \<not> ms_reached now (due (ts ! i)))"

lemma unique_nth: "unique ts \<longleftrightarrow> (\<forall>i < length ts. \<forall>j < length ts.
     valid (ts ! i) \<and> valid (ts ! j) \<and> key (ts ! i) = key (ts ! j) \<longrightarrow> i = j)"
  by (simp add: unique_def distinct_map_filter_nth)

lemma uniqueD:
  "unique ts \<Longrightarrow> i < length ts \<Longrightarrow> j < length ts \<Longrightarrow> valid (ts ! i) \<Longrightarrow> valid (ts ! j) \<Longrightarrow>
   key (ts ! i) = key (ts ! j) \<Longrightarrow> i = j"
  by (auto simp: unique_nth)

lemma unique_clear: "unique ts \<Longrightarrow> unique (ts[i := clear (ts ! i)])"
  unfolding unique_nth by (metis clear_invalid length_list_update nth_list_update_eq nth_list_update_neq)

lemma unique_lookup: "unique ts \<Longrightarrow> unique (snd (lookup now ts k))"
  by (auto simp: lookup_eq unique_clear split: option.split)

lemma length_lookup [simp]: "length (snd (lookup now ts k)) = length ts"
  by (auto simp: lookup_eq split: option.split)

lemma length_store [simp]: "length (store now ts k d) = length ts"
  by (simp add: store_eq)

lemma lookup_live:
  assumes "unique ts"
  shows "fst (lookup now ts k) \<noteq> None \<longleftrightarrow> live now ts k"
proof (cases "find_index (\<lambda>e. valid e \<and> key e = k) ts")
  case None
  then have "\<not> live now ts k" by (auto simp: live_def find_index_None)
  with None show ?thesis by (simp add: lookup_eq)
next
  case (Some i)
  then have i: "i < length ts" "valid (ts ! i)" "key (ts ! i) = k"
    by (auto dest: find_index_SomeD)
  then have "live now ts k \<longleftrightarrow> \<not> ms_reached now (due (ts ! i))"
    using uniqueD [OF assms] unfolding live_def by metis
  with Some show ?thesis by (simp add: lookup_eq)
qed

lemma live_clear_expired:
  assumes "i < length ts" "ms_reached now (due (ts ! i)) \<or> \<not> valid (ts ! i)"
  shows "live now (ts[i := clear (ts ! i)]) = live now ts"
  unfolding live_def fun_eq_iff using assms
  by (metis clear_invalid length_list_update nth_list_update_eq nth_list_update_neq)

lemma live_lookup: "live now (snd (lookup now ts k)) = live now ts"
  by (auto simp: lookup_eq live_clear_expired split: option.split dest: find_index_SomeD)

lemma lookup_Some:
  "fst (lookup now ts k) = Some i \<Longrightarrow>
   i < length ts \<and> valid (ts ! i) \<and> key (ts ! i) = k \<and> snd (lookup now ts k) = ts"
  by (auto simp: lookup_eq split: option.splits if_splits dest: find_index_SomeD)

text \<open>Looking a stream up and clearing what was found removes the stream, at every time.\<close>

lemma lift_absent:
  assumes "unique ts"
  shows "\<not> live t (case lookup now ts k of (None, ts1) \<Rightarrow> ts1 | (Some i, ts1) \<Rightarrow> ts1[i := clear (ts1 ! i)]) k"
proof (cases "find_index (\<lambda>e. valid e \<and> key e = k) ts")
  case None
  then have "\<not> live t ts k" by (auto simp: live_def find_index_None)
  with None show ?thesis by (simp add: lookup_eq)
next
  case (Some i)
  then have i: "i < length ts" "valid (ts ! i)" "key (ts ! i) = k" by (auto dest: find_index_SomeD)
  have "\<not> live t (ts[i := clear (ts ! i)]) k"
    using uniqueD [OF assms] i unfolding live_def
    by (metis clear_invalid length_list_update nth_list_update_eq nth_list_update_neq)
  with Some show ?thesis by (simp add: lookup_eq)
qed

lemma unique_lift:
  "unique ts \<Longrightarrow>
   unique (case lookup now ts k of (None, ts1) \<Rightarrow> ts1 | (Some i, ts1) \<Rightarrow> ts1[i := clear (ts1 ! i)])"
  using unique_lookup [of ts now k] unique_clear
  by (auto split: prod.split option.split)

lemma store_index:
  assumes "ts \<noteq> []"
  obtains i where "i < length ts" "store now ts k d = ts[i := entry k (until now d)]"
    "\<And>j. j < length ts \<Longrightarrow> j \<noteq> i \<Longrightarrow> unique ts \<Longrightarrow> \<not> (valid (ts ! j) \<and> key (ts ! j) = k)"
proof (cases "find_index (\<lambda>e. valid e \<and> key e = k) ts")
  case None
  show ?thesis
  proof (rule that)
    show "pick_victim (\<lambda>e. \<not> valid e \<or> ms_reached now (due e)) due ts [0..<length ts] 0 < length ts"
      using assms by (intro pick_victim_bound) auto
    show "store now ts k d =
        ts[pick_victim (\<lambda>e. \<not> valid e \<or> ms_reached now (due e)) due ts [0..<length ts] 0 :=
           entry k (until now d)]"
      using None by (simp add: store_eq)
    show "\<not> (valid (ts ! j) \<and> key (ts ! j) = k)" if "j < length ts" for j
      using None that by (auto simp: find_index_None)
  qed
next
  case (Some i)
  then have "i < length ts" "valid (ts ! i)" "key (ts ! i) = k"
    by (auto dest: find_index_SomeD)
  then show ?thesis
    using that [of i] Some by (auto simp: store_eq dest: uniqueD)
qed

lemma unique_store: "unique ts \<Longrightarrow> unique (store now ts k d)"
proof (cases "ts = []")
  case False
  assume u: "unique ts"
  obtain i where "i < length ts" "store now ts k d = ts[i := entry k (until now d)]"
    "\<And>j. j < length ts \<Longrightarrow> j \<noteq> i \<Longrightarrow> unique ts \<Longrightarrow> \<not> (valid (ts ! j) \<and> key (ts ! j) = k)"
    using store_index [OF False] by blast
  with u show ?thesis
    by (auto simp: unique_nth nth_list_update entry_key)
qed (simp add: store_eq unique_def)

text \<open>A stored stream is live exactly until its deadline.\<close>

lemma store_live_iff:
  assumes "ts \<noteq> []" "unique ts"
  shows "live t (store now ts k d) k \<longleftrightarrow> \<not> ms_reached t (until now d)"
proof -
  obtain i where i: "i < length ts" "store now ts k d = ts[i := entry k (until now d)]"
    "\<And>j. j < length ts \<Longrightarrow> j \<noteq> i \<Longrightarrow> \<not> (valid (ts ! j) \<and> key (ts ! j) = k)"
    using store_index [OF assms(1)] assms(2) by metis
  then show ?thesis
    unfolding live_def
    by (metis entry_due entry_key entry_valid length_list_update nth_list_update_eq nth_list_update_neq)
qed

lemma live_update_other:
  assumes "k' \<noteq> k"
  shows "live now (ts[v := entry k t]) k' \<longleftrightarrow> (\<exists>i < length ts. i \<noteq> v \<and> valid (ts ! i) \<and>
     key (ts ! i) = k' \<and> \<not> ms_reached now (due (ts ! i)))"
proof -
  have "i \<noteq> v" if "i < length ts" "key (ts[v := entry k t] ! i) = k'" for i
    using that assms by (auto simp: entry_key)
  then show ?thesis unfolding live_def by (metis length_list_update nth_list_update_neq)
qed

lemma store_other_not_live:
  "k' \<noteq> k \<Longrightarrow> live now' (store now ts k d) k' \<Longrightarrow> live now' ts k'"
  unfolding store_eq live_update_other by (auto simp: live_def)

lemma store_other_live:
  assumes "unique ts" "k' \<noteq> k" "live now ts k'"
    and room: "\<exists>i < length ts. \<not> valid (ts ! i) \<or> ms_reached now (due (ts ! i))"
  shows "live now (store now ts k d) k'"
proof -
  let ?v = "case find_index (\<lambda>e. valid e \<and> key e = k) ts of Some i \<Rightarrow> i
     | None \<Rightarrow> pick_victim (\<lambda>e. \<not> valid e \<or> ms_reached now (due e)) due ts [0..<length ts] 0"
  have v: "\<not> valid (ts ! ?v) \<or> key (ts ! ?v) = k \<or> ms_reached now (due (ts ! ?v))"
  proof (cases "find_index (\<lambda>e. valid e \<and> key e = k) ts")
    case None
    have "\<exists>i \<in> set [0..<length ts]. (\<lambda>e. \<not> valid e \<or> ms_reached now (due e)) (ts ! i)"
      using room by auto
    from pick_victim_free [OF this] None show ?thesis by auto
  qed (auto dest: find_index_SomeD)
  from assms(3) obtain j where "j < length ts" "valid (ts ! j)" "key (ts ! j) = k'"
      "\<not> ms_reached now (due (ts ! j))"
    by (auto simp: live_def)
  moreover from this v assms(2) have "j \<noteq> ?v" by auto
  ultimately show ?thesis
    unfolding store_eq live_update_other [OF assms(2)] by blast
qed

end

section \<open>The contract of a sector stream\<close>

text \<open>
  A disk image is a list of bytes, read and written in sectors of 256 bytes; what lies beyond its
  end reads as zeros.
\<close>

definition padded :: "u8 list \<Rightarrow> nat \<Rightarrow> nat \<Rightarrow> u8 list" where
  "padded data p n = map (\<lambda>i. if i < length data then data ! i else 0) [p..<p + n]"

definition sector :: "u8 list \<Rightarrow> nat \<Rightarrow> u8 list" where
  "sector data k = padded data (256 * k) 256"

lemma length_padded [simp]: "length (padded data p n) = n"
  by (simp add: padded_def)

lemma length_sector [simp]: "length (sector data k) = 256"
  by (simp add: sector_def)

lemma nth_padded: "i < n \<Longrightarrow> padded data p n ! i = (if p + i < length data then data ! (p + i) else 0)"
  by (simp add: padded_def)

lemma padded_slice: "i + m \<le> n \<Longrightarrow> take m (drop i (padded data p n)) = padded data (p + i) m"
  by (rule nth_equalityI) (auto simp: nth_padded add.assoc)

lemma short_read_padded:
  assumes "q = min p (length data)"
  shows "take n (drop q data) @ replicate (n - length (take n (drop q data))) 0 = padded data p n"
proof (rule nth_equalityI)
  fix i assume "i < length (take n (drop q data) @ replicate (n - length (take n (drop q data))) (0 :: u8))"
  then have "i < n" by simp
  then show "(take n (drop q data) @ replicate (n - length (take n (drop q data))) 0) ! i = padded data p n ! i"
    using assms by (cases "p \<le> length data") (auto simp: nth_append nth_padded)
qed (use assms in auto)

text \<open>Running a fallible read \<open>n\<close> times, and a fallible write over a list.\<close>

fun run_reads :: "('s \<Rightarrow> 'a option \<times> 's) \<Rightarrow> nat \<Rightarrow> 's \<Rightarrow> 'a list option \<times> 's" where
  "run_reads f 0 s = (Some [], s)"
| "run_reads f (Suc n) s = (case f s of (None, s) \<Rightarrow> (None, s)
     | (Some b, s) \<Rightarrow> (case run_reads f n s of (r, s) \<Rightarrow> (map_option ((#) b) r, s)))"

fun run_writes :: "('a \<Rightarrow> 's \<Rightarrow> bool \<times> 's) \<Rightarrow> 'a list \<Rightarrow> 's \<Rightarrow> bool \<times> 's" where
  "run_writes f [] s = (True, s)"
| "run_writes f (b # bs) s = (case f b s of (ok, s) \<Rightarrow> if ok then run_writes f bs s else (False, s))"

text \<open>
  A reader that is positioned at sector \<open>k\<close> with \<open>m\<close> sectors to go delivers sector
  \<open>k\<close> of the image and moves on; the image stays.
\<close>

locale sector_reader =
  fixes reading :: "'o \<Rightarrow> 's \<Rightarrow> nat \<Rightarrow> nat \<Rightarrow> bool"
    and image :: "'o \<Rightarrow> 's \<Rightarrow> u8 list"
    and read_next :: "'o \<Rightarrow> 's \<Rightarrow> u8 list option \<times> 's"
  assumes read_next: "reading f s k (Suc m) \<Longrightarrow> \<exists>s'. read_next f s = (Some (sector (image f s) k), s') \<and>
    reading f s' (Suc k) m \<and> image f s' = image f s"
begin

lemma read_all:
  "reading f s k n \<Longrightarrow> \<exists>s'. run_reads (read_next f) n s = (Some (map (sector (image f s)) [k..<k + n]), s') \<and>
     reading f s' (k + n) 0 \<and> image f s' = image f s"
proof (induction n arbitrary: s k)
  case (Suc n)
  from read_next [OF Suc.prems] obtain s1 where s1: "read_next f s = (Some (sector (image f s) k), s1)"
    "reading f s1 (Suc k) n" "image f s1 = image f s" by blast
  from Suc.IH [OF s1(2)] obtain s2 where
    "run_reads (read_next f) n s1 = (Some (map (sector (image f s1)) [Suc k..<Suc k + n]), s2)"
    "reading f s2 (Suc k + n) 0" "image f s2 = image f s1" by blast
  moreover have "[k..<k + Suc n] = k # [Suc k..<Suc k + n]"
    by (subst upt_conv_Cons) auto
  ultimately show ?case using s1 by (simp del: upt_Suc)
qed simp

end

text \<open>
  A writer that accepted the sectors \<open>acc\<close> from sector \<open>k\<close> on accepts one more while
  some are to go; when none is to go, the image holds them all.
\<close>

locale sector_writer =
  fixes writing :: "'o \<Rightarrow> u8 list \<Rightarrow> nat \<Rightarrow> u8 list list \<Rightarrow> nat \<Rightarrow> 's \<Rightarrow> bool"
    and image :: "'o \<Rightarrow> 's \<Rightarrow> u8 list"
    and write_next :: "'o \<Rightarrow> u8 list \<Rightarrow> 's \<Rightarrow> bool \<times> 's"
  assumes write_next: "writing f base k acc (Suc m) s \<Longrightarrow> length b = 256 \<Longrightarrow>
      \<exists>s'. write_next f b s = (True, s') \<and> writing f base k (acc @ [b]) m s'"
    and written: "writing f base k acc 0 s \<Longrightarrow>
      image f s = take (256 * k) base @ concat acc @ drop (256 * k + length (concat acc)) base"
begin

lemma write_all:
  "writing f base k acc (length bs) s \<Longrightarrow> \<forall>b \<in> set bs. length b = 256 \<Longrightarrow>
   \<exists>s'. run_writes (write_next f) bs s = (True, s') \<and> writing f base k (acc @ bs) 0 s'"
proof (induction bs arbitrary: acc s)
  case (Cons b bs)
  then obtain s1 where s1: "write_next f b s = (True, s1)" "writing f base k (acc @ [b]) (length bs) s1"
    using write_next [of f base k acc "length bs" s b] by auto
  with Cons.IH [OF s1(2)] Cons.prems show ?case by simp
qed simp

end

end
