(* ===== verification/AunRx.thy ===== *)
theory AunRx
  imports AunTypes Contracts
begin

text \<open>
  The receive side of the AUN engine: the per-block circular queue of un-acknowledged frames, the
  table of deferred streams of a block, the engine's table of condemned streams, and the host
  operations \<open>aun_rx_open\<close>, \<open>aun_rx_poll\<close>, \<open>aun_rx_ready\<close>, \<open>aun_rx_collect\<close> and
  \<open>aun_rx_close\<close> (\<open>src/src/AUN/aun.c\<close>, section "receive blocks").

  A lookup in a stream table lazily invalidates an expired entry, so every operation that looks
  a stream up returns the table as well.
\<close>

section \<open>Blocks\<close>

definition set_rx :: "'u aun_engine_t \<Rightarrow> nat \<Rightarrow> aun_rx_block_t \<Rightarrow> 'u aun_engine_t" where
  "set_rx e h b = e\<lparr>e_rx := (e_rx e)[h := b]\<rparr>"

definition aun_rx_open ::
  "'u aun_engine_t \<Rightarrow> nat \<Rightarrow> u8 \<Rightarrow> u8 \<Rightarrow> u8 \<Rightarrow> nat option \<Rightarrow> nat \<Rightarrow> u8 \<times> 'u aun_engine_t" where
  "aun_rx_open e handle port s n buf buf_size =
     (if \<not> initialised e then (AUN_ERR_NOT_READY, e)
      else if handle \<ge> AUN_RX_BLOCKS \<or> buf = None \<or> buf_size = 0 then (AUN_ERR_PARAM, e)
      else (AUN_OK, set_rx e handle (rx_block_zero\<lparr>b_open := True, b_port := port, b_stn := s,
              b_net := n, b_buf := buf, b_buf_size := buf_size\<rparr>)))"

text \<open>Slot of the frame at logical offset \<open>i\<close> from the head.\<close>

definition rx_slot :: "aun_rx_block_t \<Rightarrow> nat \<Rightarrow> nat" where
  "rx_slot b i = (b_head b + i) mod AUN_RX_QUEUE"

definition q_at :: "aun_rx_block_t \<Rightarrow> nat \<Rightarrow> aun_rx_frame_t" where
  "q_at b i = b_q b ! rx_slot b i"

section \<open>Deferred and condemned streams\<close>

definition defer_match :: "u8 \<Rightarrow> u32 \<Rightarrow> u16 \<Rightarrow> aun_rx_defer_t \<Rightarrow> bool" where
  "defer_match port ip sp d \<longleftrightarrow>
     d_valid d \<and> d_port d = port \<and> d_src_ip_be d = ip \<and> d_src_port d = sp"

definition defer_find ::
  "u32 \<Rightarrow> aun_rx_defer_t list \<Rightarrow> u8 \<Rightarrow> u32 \<Rightarrow> u16 \<Rightarrow> nat option \<times> aun_rx_defer_t list" where
  "defer_find now ds port ip sp =
     (case find_index (defer_match port ip sp) ds of
        None \<Rightarrow> (None, ds)
      | Some i \<Rightarrow>
          if ms_reached now (d_due_ms (ds ! i)) then (None, ds[i := (ds ! i)\<lparr>d_valid := False\<rparr>])
          else (Some i, ds))"

definition defer_set ::
  "u32 \<Rightarrow> aun_rx_defer_t list \<Rightarrow> u8 \<Rightarrow> u32 \<Rightarrow> u16 \<Rightarrow> u32 \<Rightarrow> aun_rx_defer_t list" where
  "defer_set now ds port ip sp due =
     (let v = (case find_index (defer_match port ip sp) ds of
                 Some i \<Rightarrow> i
               | None \<Rightarrow>
                   pick_victim (\<lambda>d. \<not> d_valid d \<or> ms_reached now (d_due_ms d)) d_due_ms ds
                     [0..<length ds] 0)
      in ds[v := \<lparr>d_valid = True, d_port = port, d_src_port = sp, d_src_ip_be = ip,
                  d_due_ms = due\<rparr>])"

definition condemn_match :: "u8 \<Rightarrow> u32 \<Rightarrow> u16 \<Rightarrow> aun_rx_condemn_t \<Rightarrow> bool" where
  "condemn_match port ip sp c \<longleftrightarrow>
     c_valid c \<and> c_port c = port \<and> c_src_ip_be c = ip \<and> c_src_port c = sp"

definition condemn_find ::
  "u32 \<Rightarrow> aun_rx_condemn_t list \<Rightarrow> u8 \<Rightarrow> u32 \<Rightarrow> u16 \<Rightarrow> nat option \<times> aun_rx_condemn_t list" where
  "condemn_find now cs port ip sp =
     (case find_index (condemn_match port ip sp) cs of
        None \<Rightarrow> (None, cs)
      | Some i \<Rightarrow>
          if ms_reached now (c_until_ms (cs ! i)) then (None, cs[i := (cs ! i)\<lparr>c_valid := False\<rparr>])
          else (Some i, cs))"

definition condemn_set ::
  "u32 \<Rightarrow> aun_rx_condemn_t list \<Rightarrow> u8 \<Rightarrow> u32 \<Rightarrow> u16 \<Rightarrow> aun_rx_condemn_t list" where
  "condemn_set now cs port ip sp =
     (let v = (case find_index (condemn_match port ip sp) cs of
                 Some i \<Rightarrow> i
               | None \<Rightarrow>
                   pick_victim (\<lambda>c. \<not> c_valid c \<or> ms_reached now (c_until_ms c)) c_until_ms cs
                     [0..<length cs] 0)
      in cs[v := \<lparr>c_valid = True, c_port = port, c_src_port = sp, c_src_ip_be = ip,
                  c_until_ms = now + AUN_CONDEMN_TTL_MS\<rparr>])"

section \<open>Presenting frames\<close>

definition rx_frame_eligible ::
  "u32 \<Rightarrow> aun_rx_block_t \<Rightarrow> aun_rx_frame_t \<Rightarrow> bool \<times> aun_rx_block_t" where
  "rx_frame_eligible now b f =
     (if f_src_ip_be f = 0 then (True, b)
      else (let (r, ds) = defer_find now (b_defer b) (f_port f) (f_src_ip_be f) (f_src_port f)
            in (r = None, b\<lparr>b_defer := ds\<rparr>)))"

fun rx_first_eligible_loop ::
  "u32 \<Rightarrow> aun_rx_block_t \<Rightarrow> nat list \<Rightarrow> nat option \<times> aun_rx_block_t" where
  "rx_first_eligible_loop now b [] = (None, b)"
| "rx_first_eligible_loop now b (i # is) =
     (let (ok, b1) = rx_frame_eligible now b (q_at b i)
      in if ok then (Some i, b1) else rx_first_eligible_loop now b1 is)"

definition rx_first_eligible :: "u32 \<Rightarrow> aun_rx_block_t \<Rightarrow> nat option \<times> aun_rx_block_t" where
  "rx_first_eligible now b = rx_first_eligible_loop now b [0..<b_count b]"

definition rx_remove_at :: "aun_rx_block_t \<Rightarrow> nat \<Rightarrow> aun_rx_block_t" where
  "rx_remove_at b off =
     (let b1 = (if off = 0 then b\<lparr>b_head := (b_head b + 1) mod AUN_RX_QUEUE\<rparr>
                else b\<lparr>b_q := fold (\<lambda>j q. q[rx_slot b j := q ! rx_slot b (Suc j)])
                                  [off..<b_count b - 1] (b_q b)\<rparr>)
      in b1\<lparr>b_count := b_count b1 - 1\<rparr>)"

definition rx_info :: "aun_rx_frame_t \<Rightarrow> aun_rx_info_t" where
  "rx_info f = \<lparr>i_src_stn = f_src_stn f, i_src_net = f_src_net f, i_port = f_port f,
     i_ctrl = f_ctrl f, i_len = f_len f\<rparr>"

definition copy_to_host :: "mem \<Rightarrow> nat option \<Rightarrow> u8 list \<Rightarrow> mem" where
  "copy_to_host m buf bs = (case buf of None \<Rightarrow> m | Some a \<Rightarrow> mem_write m a bs)"

definition rx_is_open :: "'u aun_engine_t \<Rightarrow> nat \<Rightarrow> bool" where
  "rx_is_open e handle \<longleftrightarrow> handle < AUN_RX_BLOCKS \<and> b_open (e_rx e ! handle)"

definition aun_rx_poll ::
  "'u aun_engine_t \<Rightarrow> mem \<Rightarrow> nat \<Rightarrow> u8 \<times> aun_rx_info_t option \<times> 'u aun_engine_t \<times> mem" where
  "aun_rx_poll e m handle =
     (if \<not> rx_is_open e handle then (AUN_ERR_NO_BLOCK, None, e, m)
      else (let b = e_rx e ! handle
            in if b_count b = 0 then (AUN_STATUS_PENDING, None, e, m)
               else if b_presented b then
                 (AUN_OK, Some (rx_info (q_at b (b_pres_off b))), e, m)
               else (case rx_first_eligible (now_ms e) b of
                       (None, b1) \<Rightarrow> (AUN_STATUS_PENDING, None, set_rx e handle b1, m)
                     | (Some off, b1) \<Rightarrow>
                         (let b2 = b1\<lparr>b_pres_off := off, b_presented := True\<rparr>; f = q_at b2 off
                          in (AUN_OK, Some (rx_info f), set_rx e handle b2,
                              copy_to_host m (b_buf b2) (f_data f))))))"

fun rx_ready_loop :: "u32 \<Rightarrow> aun_rx_block_t \<Rightarrow> nat list \<Rightarrow> nat \<Rightarrow> nat \<times> aun_rx_block_t" where
  "rx_ready_loop now b [] n = (n, b)"
| "rx_ready_loop now b (i # is) n =
     (let (ok, b1) = rx_frame_eligible now b (q_at b i)
      in rx_ready_loop now b1 is (if ok then n + 1 else n))"

definition aun_rx_ready :: "'u aun_engine_t \<Rightarrow> nat \<Rightarrow> nat \<times> 'u aun_engine_t" where
  "aun_rx_ready e handle =
     (if \<not> rx_is_open e handle then (0, e)
      else (let b = e_rx e ! handle; (n, b1) = rx_ready_loop (now_ms e) b [0..<b_count b] 0
            in (n, set_rx e handle b1)))"

section \<open>Collecting frames\<close>

text \<open>The sequence number that the duplicate filter compares against.\<close>

definition map_stamp :: "'u aun_engine_t \<Rightarrow> u32 \<Rightarrow> u16 \<Rightarrow> u32 \<Rightarrow> 'u aun_engine_t" where
  "map_stamp e ip sp s =
     (case map_find_by_ip e ip sp of
        None \<Rightarrow> e
      | Some i \<Rightarrow> e\<lparr>e_map := (e_map e)
                      [i := (e_map e ! i)\<lparr>m_last_rx_seq := s, m_seq_valid := True\<rparr>]\<rparr>)"

definition rx_accept_frame :: "'u aun_engine_t \<Rightarrow> aun_rx_frame_t \<Rightarrow> 'u aun_engine_t" where
  "rx_accept_frame e f =
     (if f_src_ip_be f = 0 then e
      else (let e1 = send_ack_nak e (f_src_ip_be f) (f_src_port f) AUN_TYPE_ACK (f_port f)
                       (f_ctrl f) (f_seq f);
                e2 = map_stamp e1 (f_src_ip_be f) (f_src_port f) (f_seq f);
                (c, cs) = condemn_find (now_ms e2) (condemned e2) (f_port f) (f_src_ip_be f)
                            (f_src_port f)
            in e2\<lparr>condemned := (case c of None \<Rightarrow> cs
                                | Some i \<Rightarrow> cs[i := (cs ! i)\<lparr>c_valid := False\<rparr>])\<rparr>))"

definition rx_shed_frame :: "'u aun_engine_t \<Rightarrow> aun_rx_frame_t \<Rightarrow> 'u aun_engine_t" where
  "rx_shed_frame e f =
     (let e1 = send_ack_nak e (f_src_ip_be f) (f_src_port f) AUN_TYPE_ACK (f_port f)
                 (f_ctrl f) (f_seq f);
          e2 = map_stamp e1 (f_src_ip_be f) (f_src_port f) (f_seq f)
      in e2\<lparr>condemned := condemn_set (now_ms e2) (condemned e2) (f_port f) (f_src_ip_be f)
                           (f_src_port f)\<rparr>)"

text \<open>The frame a collect answers for: the presented one, else what a poll would present.\<close>

definition rx_current :: "u32 \<Rightarrow> aun_rx_block_t \<Rightarrow> nat option \<times> aun_rx_block_t" where
  "rx_current now b =
     (if b_count b = 0 then (None, b)
      else if b_presented b then (Some (b_pres_off b), b)
      else rx_first_eligible now b)"

text \<open>
  The answer for the frame \<open>f\<close> at offset \<open>k\<close> of block \<open>b\<close>: accepted, dropped (a
  broadcast), shed because its reject budget is spent, or parked.
\<close>

definition rx_reject ::
  "'u aun_engine_t \<Rightarrow> nat \<Rightarrow> aun_rx_block_t \<Rightarrow> nat \<Rightarrow> aun_rx_frame_t \<Rightarrow> 'u aun_engine_t" where
  "rx_reject e handle b k f =
     (let (c, cs) = condemn_find (now_ms e) (condemned e) (f_port f) (f_src_ip_be f) (f_src_port f);
          e1 = e\<lparr>condemned := cs\<rparr>
      in if f_rejects f \<ge> (if c \<noteq> None then AUN_CONDEMN_RETRIES else AUN_DEFER_RETRIES) then
           (let e2 = rx_shed_frame e1 f; k2 = counters e2
            in (set_rx e2 handle ((rx_remove_at b k)\<lparr>b_presented := False\<rparr>))
                 \<lparr>counters := k2\<lparr>k_rx_parked_drop := k_rx_parked_drop k2 + 1\<rparr>\<rparr>)
         else
           set_rx e1 handle
             (b\<lparr>b_q := (b_q b)[rx_slot b k := f\<lparr>f_rejects := f_rejects f + 1\<rparr>],
                b_defer := defer_set (now_ms e1) (b_defer b) (f_port f) (f_src_ip_be f)
                  (f_src_port f) (now_ms e1 + AUN_DEFER_DELAY_MS),
                b_presented := False\<rparr>))"

definition rx_answer ::
  "'u aun_engine_t \<Rightarrow> nat \<Rightarrow> aun_rx_block_t \<Rightarrow> nat \<Rightarrow> bool \<Rightarrow> 'u aun_engine_t" where
  "rx_answer e handle b k accept =
     (let f = q_at b k
      in if accept then
           set_rx (rx_accept_frame e f) handle ((rx_remove_at b k)\<lparr>b_presented := False\<rparr>)
         else if f_src_ip_be f = 0 then
           set_rx e handle ((rx_remove_at b k)\<lparr>b_presented := False\<rparr>)
         else rx_reject e handle b k f)"

definition aun_rx_collect :: "'u aun_engine_t \<Rightarrow> nat \<Rightarrow> bool \<Rightarrow> u8 \<times> 'u aun_engine_t" where
  "aun_rx_collect e handle accept =
     (if \<not> rx_is_open e handle then (AUN_ERR_NO_BLOCK, e)
      else
        (AUN_OK,
         case rx_current (now_ms e) (e_rx e ! handle) of
           (None, b) \<Rightarrow> set_rx e handle (b\<lparr>b_presented := False\<rparr>)
         | (Some k, b) \<Rightarrow> rx_answer e handle b k accept))"

definition aun_rx_close :: "'u aun_engine_t \<Rightarrow> nat \<Rightarrow> u8 \<times> 'u aun_engine_t" where
  "aun_rx_close e handle =
     (if \<not> rx_is_open e handle then (AUN_ERR_NO_BLOCK, e)
      else (AUN_OK, set_rx e handle rx_block_zero))"

section \<open>Queueing frames\<close>

definition rx_seq_pending :: "'u aun_engine_t \<Rightarrow> u32 \<Rightarrow> u16 \<Rightarrow> u32 \<Rightarrow> bool" where
  "rx_seq_pending e ip sp s \<longleftrightarrow>
     list_ex (\<lambda>b. b_open b \<and>
       list_ex (\<lambda>j. f_src_ip_be (q_at b j) = ip \<and> f_src_port (q_at b j) = sp \<and>
                    f_seq (q_at b j) = s) [0..<b_count b]) (e_rx e)"

definition rx_accepts :: "aun_rx_block_t \<Rightarrow> u8 \<Rightarrow> u8 \<Rightarrow> u8 \<Rightarrow> bool" where
  "rx_accepts b port s n \<longleftrightarrow>
     b_open b \<and> (b_port b = 0 \<or> b_port b = port) \<and>
     (b_stn b = AUN_WILDCARD \<or> b_stn b = s) \<and> (b_net b = AUN_WILDCARD \<or> b_net b = n)"

fun rx_match_loop ::
  "aun_rx_block_t list \<Rightarrow> u8 \<Rightarrow> u8 \<Rightarrow> u8 \<Rightarrow> nat list \<Rightarrow> bool \<Rightarrow> nat option \<times> bool" where
  "rx_match_loop bs port s n [] saw_full = (None, saw_full)"
| "rx_match_loop bs port s n (i # is) saw_full =
     (if \<not> rx_accepts (bs ! i) port s n then rx_match_loop bs port s n is saw_full
      else if b_count (bs ! i) \<ge> AUN_RX_QUEUE then rx_match_loop bs port s n is True
      else (Some i, saw_full))"

definition rx_match :: "'u aun_engine_t \<Rightarrow> u8 \<Rightarrow> u8 \<Rightarrow> u8 \<Rightarrow> nat option \<times> bool" where
  "rx_match e port s n = rx_match_loop (e_rx e) port s n [0..<AUN_RX_BLOCKS] False"

definition rx_put :: "aun_rx_block_t \<Rightarrow> aun_rx_frame_t \<Rightarrow> aun_rx_block_t" where
  "rx_put b f = b\<lparr>b_q := (b_q b)[rx_slot b (b_count b) := f], b_count := b_count b + 1\<rparr>"

text \<open>
  The result is the block and the slot of the queued frame, or \<^const>\<open>None\<close> with the reason
  (\<open>AUN_RXV_FULL\<close> or \<open>AUN_RXV_NAK\<close>).
\<close>

definition rx_deliver ::
  "'u aun_engine_t \<Rightarrow> u8 \<Rightarrow> u8 \<Rightarrow> u8 \<Rightarrow> u8 \<Rightarrow> u8 list \<Rightarrow>
   (nat \<times> nat) option \<times> u8 \<times> 'u aun_engine_t" where
  "rx_deliver e port ctrl s n data =
     (case rx_match e port s n of
        (None, saw_full) \<Rightarrow>
          if saw_full then (None, AUN_RXV_FULL, e)
          else (None, AUN_RXV_NAK, e\<lparr>counters := (counters e)
                  \<lparr>k_rx_no_block := k_rx_no_block (counters e) + 1\<rparr>\<rparr>)
      | (Some i, saw_full) \<Rightarrow>
          (let b = e_rx e ! i
           in if length data > b_buf_size b \<or> length data > AUN_MAX_DATA then
                (None, AUN_RXV_NAK, e\<lparr>counters := (counters e)
                   \<lparr>k_rx_too_big := k_rx_too_big (counters e) + 1\<rparr>\<rparr>)
              else
                (let f = \<lparr>f_len = length data, f_src_stn = s, f_src_net = n, f_port = port,
                          f_ctrl = ctrl OR 0x80, f_rejects = 0, f_seq = 0, f_src_ip_be = 0,
                          f_src_port = 0, f_data = data\<rparr>
                 in (Some (i, rx_slot b (b_count b)), AUN_RXV_ACK, set_rx e i (rx_put b f)))))"

section \<open>The list view of a block's queue\<close>

text \<open>
  The frames of a block, oldest first.  The circular queue is a bounded FIFO of them.
\<close>

definition rx_queue :: "aun_rx_block_t \<Rightarrow> aun_rx_frame_t list" where
  "rx_queue b = map (q_at b) [0..<b_count b]"

definition ring_wf :: "aun_rx_block_t \<Rightarrow> bool" where
  "ring_wf b \<longleftrightarrow> length (b_q b) = AUN_RX_QUEUE \<and> b_head b < AUN_RX_QUEUE \<and> b_count b \<le> AUN_RX_QUEUE"

lemma length_rx_queue [simp, ring]: "length (rx_queue b) = b_count b"
  by (simp add: rx_queue_def)

lemma nth_rx_queue [simp, ring]: "i < b_count b \<Longrightarrow> rx_queue b ! i = q_at b i"
  by (simp add: rx_queue_def)

lemma rx_slot_less [simp, ring]: "rx_slot b i < AUN_RX_QUEUE"
  by (simp add: rx_slot_def)

lemma mod_shift_inj: "i \<le> j \<Longrightarrow> j < n \<Longrightarrow> (h + i) mod n = (h + j) mod n \<Longrightarrow> i = (j :: nat)"
  using mod_eq_dvd_iff_nat [of "h + i" "h + j" n] nat_dvd_not_less [of "j - i" n]
  by (cases "i = j") auto

lemma rx_slot_inj [ring]:
  "i < AUN_RX_QUEUE \<Longrightarrow> j < AUN_RX_QUEUE \<Longrightarrow> rx_slot b i = rx_slot b j \<longleftrightarrow> i = j"
  unfolding rx_slot_def by (metis linorder_le_cases mod_shift_inj)

lemma rx_slot_cong [simp, ring]:
  "rx_slot (b\<lparr>b_q := q\<rparr>) i = rx_slot b i"
  "rx_slot (b\<lparr>b_count := c\<rparr>) i = rx_slot b i"
  "rx_slot (b\<lparr>b_defer := d\<rparr>) i = rx_slot b i"
  "rx_slot (b\<lparr>b_presented := p\<rparr>) i = rx_slot b i"
  "rx_slot (b\<lparr>b_pres_off := off\<rparr>) i = rx_slot b i"
  by (simp_all add: rx_slot_def)

lemma q_at_cong [simp, ring]:
  "q_at (b\<lparr>b_count := c\<rparr>) i = q_at b i"
  "q_at (b\<lparr>b_defer := d\<rparr>) i = q_at b i"
  "q_at (b\<lparr>b_presented := p\<rparr>) i = q_at b i"
  "q_at (b\<lparr>b_pres_off := off\<rparr>) i = q_at b i"
  "q_at (b\<lparr>b_q := q\<rparr>) i = q ! rx_slot b i"
  by (simp_all add: q_at_def)

lemma rx_queue_cong [simp, ring]:
  "rx_queue (b\<lparr>b_defer := d\<rparr>) = rx_queue b"
  "rx_queue (b\<lparr>b_presented := p\<rparr>) = rx_queue b"
  "rx_queue (b\<lparr>b_pres_off := off\<rparr>) = rx_queue b"
  by (simp_all add: rx_queue_def cong: map_cong)

lemma rx_queue_put:
  "ring_wf b \<Longrightarrow> b_count b < AUN_RX_QUEUE \<Longrightarrow> rx_queue (rx_put b f) = rx_queue b @ [f]"
  by (rule nth_equalityI)
     (auto simp: rx_put_def q_at_def ring_wf_def nth_append rx_slot_inj nth_list_update less_Suc_eq)

lemma ring_shift_length [simp]:
  "length (fold (\<lambda>j q. q[rx_slot b j := q ! rx_slot b (Suc j)]) is q) = length q"
  by (induction "is" arbitrary: q) simp_all

lemma ring_shift_nth:
  assumes "length q = AUN_RX_QUEUE" "off \<le> m" "m < AUN_RX_QUEUE" "k < AUN_RX_QUEUE"
  shows "fold (\<lambda>j q. q[rx_slot b j := q ! rx_slot b (Suc j)]) [off..<m] q ! rx_slot b k =
     (if off \<le> k \<and> k < m then q ! rx_slot b (Suc k) else q ! rx_slot b k)"
  using assms
proof (induction m arbitrary: k)
  case (Suc m)
  show ?case
  proof (cases "off = Suc m")
    case False
    with Suc.prems have "off \<le> m" by simp
    with Suc show ?thesis
      by (auto simp: nth_list_update rx_slot_inj less_Suc_eq)
  qed auto
qed simp

lemma rx_queue_remove_at:
  assumes "ring_wf b" "k < b_count b"
  shows "rx_queue (rx_remove_at b k) = take k (rx_queue b) @ drop (Suc k) (rx_queue b)"
proof (cases "k = 0")
  case True
  have "(Suc (b_head b) mod 8 + i) mod 8 = (b_head b + Suc i) mod 8" for i
    by presburger
  then show ?thesis
    using True assms
    by (intro nth_equalityI) (auto simp: rx_remove_at_def q_at_def rx_slot_def)
next
  case False
  show ?thesis
  proof (rule nth_equalityI)
    fix i assume "i < length (rx_queue (rx_remove_at b k))"
    then have "i < b_count b - 1" using False by (simp add: rx_remove_at_def)
    then show "rx_queue (rx_remove_at b k) ! i = (take k (rx_queue b) @ drop (Suc k) (rx_queue b)) ! i"
      using False assms
      by (auto simp: rx_remove_at_def ring_wf_def ring_shift_nth nth_append q_at_def)
  qed (use assms False in \<open>auto simp: rx_remove_at_def\<close>)
qed

lemma ring_wf_put: "ring_wf b \<Longrightarrow> b_count b < AUN_RX_QUEUE \<Longrightarrow> ring_wf (rx_put b f)"
  by (simp add: ring_wf_def rx_put_def)

lemma ring_wf_remove_at: "ring_wf b \<Longrightarrow> ring_wf (rx_remove_at b k)"
  by (auto simp: ring_wf_def rx_remove_at_def Let_def)


interpretation rxq: bounded_fifo rx_queue rx_put rx_remove_at ring_wf AUN_RX_QUEUE
  by unfold_locales
     (simp_all add: rx_queue_put rx_queue_remove_at ring_wf_put ring_wf_remove_at, simp add: ring_wf_def)

section \<open>The stream tables\<close>

abbreviation defer_key :: "aun_rx_defer_t \<Rightarrow> u8 \<times> u32 \<times> u16" where
  "defer_key d \<equiv> (d_port d, d_src_ip_be d, d_src_port d)"

abbreviation condemn_key :: "aun_rx_condemn_t \<Rightarrow> u8 \<times> u32 \<times> u16" where
  "condemn_key c \<equiv> (c_port c, c_src_ip_be c, c_src_port c)"

lemma defer_match_key: "defer_match port ip sp = (\<lambda>d. d_valid d \<and> defer_key d = (port, ip, sp))"
  by (auto simp: defer_match_def fun_eq_iff)

lemma condemn_match_key:
  "condemn_match port ip sp = (\<lambda>c. c_valid c \<and> condemn_key c = (port, ip, sp))"
  by (auto simp: condemn_match_def fun_eq_iff)

interpretation dtab: stream_table d_valid defer_key d_due_ms "\<lambda>d. d\<lparr>d_valid := False\<rparr>"
  "\<lambda>(port, ip, sp) t.
     \<lparr>d_valid = True, d_port = port, d_src_port = sp, d_src_ip_be = ip, d_due_ms = t\<rparr>"
  "\<lambda>now ds (port, ip, sp). defer_find now ds port ip sp"
  "\<lambda>now t. t"
  "\<lambda>now ds (port, ip, sp) t. defer_set now ds port ip sp t"
  by unfold_locales
     (auto simp: defer_find_def defer_set_def defer_match_key case_prod_beta Let_def)

interpretation ctab: stream_table c_valid condemn_key c_until_ms "\<lambda>c. c\<lparr>c_valid := False\<rparr>"
  "\<lambda>(port, ip, sp) t.
     \<lparr>c_valid = True, c_port = port, c_src_port = sp, c_src_ip_be = ip, c_until_ms = t\<rparr>"
  "\<lambda>now cs (port, ip, sp). condemn_find now cs port ip sp"
  "\<lambda>now (d :: unit). now + AUN_CONDEMN_TTL_MS"
  "\<lambda>now cs (port, ip, sp) d. condemn_set now cs port ip sp"
  by unfold_locales
     (auto simp: condemn_find_def condemn_set_def condemn_match_key case_prod_beta Let_def)

end
