(* ===== verification/AunBlock.thy ===== *)
theory AunBlock
  imports AunRx
begin

text \<open>
  The contract of a receive block: which frames wait for their stream's deferral to expire, what
  the scans over the queue compute in terms of the list view of the queue, and the block
  invariant, which every operation on a block preserves.
\<close>

section \<open>Streams, waiting frames and the block invariant\<close>

text \<open>A stream is an AUN port of a sender, as the two tables key it.\<close>

definition frame_stream :: "aun_rx_frame_t \<Rightarrow> u8 \<times> u32 \<times> u16" where
  "frame_stream f = (f_port f, f_src_ip_be f, f_src_port f)"

text \<open>
  A frame from the network waits while its stream has a valid deferral that is not yet due.
  Broadcasts and frames of the loopback responder (source address 0) never wait.
\<close>

definition frame_waiting :: "u32 \<Rightarrow> aun_rx_defer_t list \<Rightarrow> aun_rx_frame_t \<Rightarrow> bool" where
  "frame_waiting now ds f \<longleftrightarrow> f_src_ip_be f \<noteq> 0 \<and>
     list_ex (\<lambda>d. d_valid d \<and> defer_key d = frame_stream f \<and> \<not> ms_reached now (d_due_ms d)) ds"

definition stream_condemned :: "u32 \<Rightarrow> aun_rx_condemn_t list \<Rightarrow> aun_rx_frame_t \<Rightarrow> bool" where
  "stream_condemned now cs f \<longleftrightarrow>
     list_ex (\<lambda>c. c_valid c \<and> condemn_key c = frame_stream f \<and> \<not> ms_reached now (c_until_ms c)) cs"

definition defer_wf :: "aun_rx_defer_t list \<Rightarrow> bool" where
  "defer_wf ds \<longleftrightarrow> length ds = AUN_RX_DEFER_SLOTS \<and> distinct (map defer_key (filter d_valid ds))"

definition condemn_wf :: "aun_rx_condemn_t list \<Rightarrow> bool" where
  "condemn_wf cs \<longleftrightarrow> length cs = AUN_CONDEMN_SLOTS \<and> distinct (map condemn_key (filter c_valid cs))"

definition frame_wf :: "nat \<Rightarrow> aun_rx_frame_t \<Rightarrow> bool" where
  "frame_wf sz f \<longleftrightarrow> f_len f = length (f_data f) \<and> f_len f \<le> sz \<and> f_len f \<le> AUN_MAX_DATA \<and>
     f_rejects f \<le> AUN_DEFER_RETRIES"

text \<open>The frame at \<open>k\<close> is the oldest queued frame of its stream.\<close>

definition oldest_of_stream :: "aun_rx_frame_t list \<Rightarrow> nat \<Rightarrow> bool" where
  "oldest_of_stream q k \<longleftrightarrow> frame_stream (q ! k) \<notin> frame_stream ` set (take k q)"

text \<open>
  The frame that the next poll or collect of a block answers for: the presented frame, else the
  oldest frame that does not wait.
\<close>

definition rx_choice :: "u32 \<Rightarrow> aun_rx_block_t \<Rightarrow> nat option" where
  "rx_choice now b =
     (if b_presented b then Some (b_pres_off b)
      else find_index (\<lambda>f. \<not> frame_waiting now (b_defer b) f) (rx_queue b))"

definition block_wf :: "aun_rx_block_t \<Rightarrow> bool" where
  "block_wf b \<longleftrightarrow> ring_wf b \<and> defer_wf (b_defer b) \<and>
     (b_presented b \<longrightarrow> b_pres_off b < b_count b \<and> oldest_of_stream (rx_queue b) (b_pres_off b)) \<and>
     (b_open b \<longrightarrow> b_buf b \<noteq> None \<and> 0 < b_buf_size b) \<and> (\<not> b_open b \<longrightarrow> b_count b = 0) \<and>
     list_all (frame_wf (b_buf_size b)) (rx_queue b)"

section \<open>Lookups refresh the table and change nothing else\<close>

lemma frame_waiting_live:
  "frame_waiting now ds f \<longleftrightarrow> f_src_ip_be f \<noteq> 0 \<and> dtab.live now ds (frame_stream f)"
  by (auto simp: frame_waiting_def dtab.live_def list_ex_length)

lemma stream_condemned_live:
  "stream_condemned now cs f \<longleftrightarrow> ctab.live now cs (frame_stream f)"
  by (auto simp: stream_condemned_def ctab.live_def list_ex_length)

lemma defer_wf_unique: "defer_wf ds \<longleftrightarrow> length ds = AUN_RX_DEFER_SLOTS \<and> dtab.unique ds"
  by (simp add: defer_wf_def dtab.unique_def)

lemma condemn_wf_unique: "condemn_wf cs \<longleftrightarrow> length cs = AUN_CONDEMN_SLOTS \<and> ctab.unique cs"
  by (simp add: condemn_wf_def ctab.unique_def)

lemma defer_find_wf:
  assumes "defer_wf ds" "f_src_ip_be f \<noteq> 0"
  shows "fst (defer_find now ds (f_port f) (f_src_ip_be f) (f_src_port f)) \<noteq> None \<longleftrightarrow>
           frame_waiting now ds f"
    and "defer_wf (snd (defer_find now ds (f_port f) (f_src_ip_be f) (f_src_port f)))"
    and "frame_waiting now (snd (defer_find now ds (f_port f) (f_src_ip_be f) (f_src_port f))) =
           frame_waiting now ds"
  using assms dtab.lookup_live [of ds now "frame_stream f"]
    dtab.unique_lookup [of ds now "frame_stream f"] dtab.length_lookup [of now ds "frame_stream f"]
    dtab.live_lookup [of now ds "frame_stream f"]
  by (simp_all add: defer_wf_unique frame_waiting_live frame_stream_def fun_eq_iff)

lemma condemn_find_wf:
  assumes "condemn_wf cs"
  shows "fst (condemn_find now cs (f_port f) (f_src_ip_be f) (f_src_port f)) \<noteq> None \<longleftrightarrow>
           stream_condemned now cs f"
    and "condemn_wf (snd (condemn_find now cs (f_port f) (f_src_ip_be f) (f_src_port f)))"
    and "stream_condemned now (snd (condemn_find now cs (f_port f) (f_src_ip_be f) (f_src_port f))) =
           stream_condemned now cs"
  using assms ctab.lookup_live [of cs now "frame_stream f"]
    ctab.unique_lookup [of cs now "frame_stream f"] ctab.length_lookup [of now cs "frame_stream f"]
    ctab.live_lookup [of now cs "frame_stream f"]
  by (simp_all add: condemn_wf_unique stream_condemned_live frame_stream_def fun_eq_iff)

definition condemn_lift :: "u32 \<Rightarrow> aun_rx_condemn_t list \<Rightarrow> aun_rx_frame_t \<Rightarrow> aun_rx_condemn_t list" where
  "condemn_lift now cs f =
     (case condemn_find now cs (f_port f) (f_src_ip_be f) (f_src_port f) of
        (None, cs1) \<Rightarrow> cs1 | (Some i, cs1) \<Rightarrow> cs1[i := (cs1 ! i)\<lparr>c_valid := False\<rparr>])"

lemma condemn_lift_wf:
  assumes "condemn_wf cs"
  shows "condemn_wf (condemn_lift now cs f)" "\<not> stream_condemned t (condemn_lift now cs f) f"
proof -
  have "length (condemn_lift now cs f) = length cs"
    using ctab.length_lookup [of now cs "frame_stream f"]
    by (auto simp: condemn_lift_def frame_stream_def split: prod.split option.split)
  with assms ctab.unique_lift [of cs now "frame_stream f"]
  show "condemn_wf (condemn_lift now cs f)"
    by (simp add: condemn_wf_unique condemn_lift_def frame_stream_def)
  show "\<not> stream_condemned t (condemn_lift now cs f) f"
    using assms ctab.lift_absent [of cs t now "frame_stream f"]
    by (simp add: condemn_wf_unique stream_condemned_live condemn_lift_def frame_stream_def)
qed

definition refreshes :: "u32 \<Rightarrow> aun_rx_block_t \<Rightarrow> aun_rx_block_t \<Rightarrow> bool" where
  "refreshes now b b1 \<longleftrightarrow> b1 = b\<lparr>b_defer := b_defer b1\<rparr> \<and>
     (defer_wf (b_defer b) \<longrightarrow> defer_wf (b_defer b1)) \<and>
     frame_waiting now (b_defer b1) = frame_waiting now (b_defer b)"

lemma refreshes_refl [simp]: "refreshes now b b"
  by (simp add: refreshes_def)

lemma refreshes_trans: "refreshes now b b1 \<Longrightarrow> refreshes now b1 b2 \<Longrightarrow> refreshes now b b2"
  unfolding refreshes_def by (metis (no_types, lifting) aun_rx_block_t.fold_congs(12) aun_rx_block_t.update_convs(12) aun_rx_block_t.surjective)

lemma refreshes_fields:
  "refreshes now b b1 \<Longrightarrow> b_count b1 = b_count b \<and> rx_queue b1 = rx_queue b \<and> q_at b1 = q_at b \<and>
     b_head b1 = b_head b \<and> b_q b1 = b_q b \<and> b_open b1 = b_open b \<and> b_buf b1 = b_buf b \<and>
     b_buf_size b1 = b_buf_size b \<and> b_presented b1 = b_presented b \<and> b_pres_off b1 = b_pres_off b \<and>
     rx_slot b1 = rx_slot b \<and> b_port b1 = b_port b \<and> b_stn b1 = b_stn b \<and> b_net b1 = b_net b"
  unfolding refreshes_def
  by (cases b; cases b1) (auto simp: rx_queue_def q_at_def rx_slot_def fun_eq_iff)

lemma rx_frame_eligible_wf:
  assumes "defer_wf (b_defer b)"
  shows "fst (rx_frame_eligible now b f) \<longleftrightarrow> \<not> frame_waiting now (b_defer b) f"
    and "refreshes now b (snd (rx_frame_eligible now b f))"
  using defer_find_wf [OF assms, of f now] assms
  by (auto simp: rx_frame_eligible_def case_prod_beta refreshes_def frame_waiting_def [of _ _ f])

section \<open>The scans, on the list view\<close>

lemma rx_first_eligible_loop_wf:
  assumes "defer_wf (b_defer b)"
  shows "fst (rx_first_eligible_loop now b is) =
           find (\<lambda>i. \<not> frame_waiting now (b_defer b) (q_at b i)) is \<and>
         refreshes now b (snd (rx_first_eligible_loop now b is))"
  using assms
proof (induction "is" arbitrary: b)
  case (Cons i "is")
  let ?b1 = "snd (rx_frame_eligible now b (q_at b i))"
  have r: "refreshes now b ?b1" by (rule rx_frame_eligible_wf [OF Cons.prems])
  with Cons.prems have "defer_wf (b_defer ?b1)" by (simp add: refreshes_def)
  from Cons.IH [OF this] r refreshes_fields [OF r] Cons.prems show ?case
    by (auto simp: case_prod_beta rx_frame_eligible_wf refreshes_def [of now b ?b1]
        intro: refreshes_trans [OF r])
qed simp

lemma rx_first_eligible_wf:
  assumes "defer_wf (b_defer b)"
  shows "fst (rx_first_eligible now b) =
           find_index (\<lambda>f. \<not> frame_waiting now (b_defer b) f) (rx_queue b)"
    and "refreshes now b (snd (rx_first_eligible now b))"
proof -
  have "find (\<lambda>i. \<not> frame_waiting now (b_defer b) (q_at b i)) [0..<b_count b] =
      find (\<lambda>i. \<not> frame_waiting now (b_defer b) (rx_queue b ! i)) [0..<b_count b]"
    by (rule find_cong) auto
  with rx_first_eligible_loop_wf [OF assms, of now "[0..<b_count b]"]
  show "fst (rx_first_eligible now b) =
           find_index (\<lambda>f. \<not> frame_waiting now (b_defer b) f) (rx_queue b)"
    and "refreshes now b (snd (rx_first_eligible now b))"
    by (simp_all add: rx_first_eligible_def find_index_find)
qed

lemma rx_ready_loop_wf:
  assumes "defer_wf (b_defer b)"
  shows "fst (rx_ready_loop now b is n) =
           n + length (filter (\<lambda>i. \<not> frame_waiting now (b_defer b) (q_at b i)) is) \<and>
         refreshes now b (snd (rx_ready_loop now b is n))"
  using assms
proof (induction "is" arbitrary: b n)
  case (Cons i "is")
  let ?b1 = "snd (rx_frame_eligible now b (q_at b i))"
  have r: "refreshes now b ?b1" by (rule rx_frame_eligible_wf [OF Cons.prems])
  with Cons.prems have "defer_wf (b_defer ?b1)" by (simp add: refreshes_def)
  from Cons.IH [OF this] r refreshes_fields [OF r] Cons.prems show ?case
    by (auto simp: case_prod_beta rx_frame_eligible_wf refreshes_def [of now b ?b1]
        intro: refreshes_trans [OF r])
qed simp

section \<open>Preservation of the block invariant\<close>

lemma block_wf_zero [simp]: "block_wf rx_block_zero"
  by (simp add: block_wf_def rx_block_zero_def ring_wf_def defer_wf_def defer_zero_def rx_queue_def)

lemma block_wf_defer: "block_wf b \<Longrightarrow> defer_wf (b_defer b)"
  by (simp add: block_wf_def)

lemma block_wf_refreshes: "block_wf b \<Longrightarrow> refreshes now b b1 \<Longrightarrow> block_wf b1"
  using refreshes_fields [of now b b1]
  by (auto simp: block_wf_def ring_wf_def refreshes_def)

lemma block_wf_unpresent: "block_wf b \<Longrightarrow> block_wf (b\<lparr>b_presented := False\<rparr>)"
  by (auto simp: block_wf_def ring_wf_def)

lemma block_wf_present:
  "block_wf b \<Longrightarrow> k < b_count b \<Longrightarrow> oldest_of_stream (rx_queue b) k \<Longrightarrow>
   block_wf (b\<lparr>b_pres_off := k, b_presented := True\<rparr>)"
  by (auto simp: block_wf_def ring_wf_def)

lemma rx_remove_at_fields [simp]:
  "b_open (rx_remove_at b k) = b_open b" "b_buf (rx_remove_at b k) = b_buf b"
  "b_buf_size (rx_remove_at b k) = b_buf_size b" "b_defer (rx_remove_at b k) = b_defer b"
  "b_count (rx_remove_at b k) = b_count b - 1" "b_presented (rx_remove_at b k) = b_presented b"
  "b_port (rx_remove_at b k) = b_port b" "b_stn (rx_remove_at b k) = b_stn b"
  "b_net (rx_remove_at b k) = b_net b"
  by (simp_all add: rx_remove_at_def Let_def)

lemma block_wf_remove:
  assumes "block_wf b" "k < b_count b"
  shows "block_wf ((rx_remove_at b k)\<lparr>b_presented := False\<rparr>)"
proof -
  have "set (rx_queue (rx_remove_at b k)) \<subseteq> set (rx_queue b)"
    using assms by (intro rxq.set_remove_at) (auto simp: block_wf_def)
  moreover have "ring_wf (rx_remove_at b k)"
    using assms by (auto simp: block_wf_def ring_wf_remove_at)
  ultimately show ?thesis
    using assms by (auto simp: block_wf_def ring_wf_def list_all_iff)
qed

lemma rx_put_fields [simp]:
  "b_open (rx_put b f) = b_open b" "b_buf (rx_put b f) = b_buf b"
  "b_buf_size (rx_put b f) = b_buf_size b" "b_defer (rx_put b f) = b_defer b"
  "b_count (rx_put b f) = b_count b + 1" "b_presented (rx_put b f) = b_presented b"
  "b_pres_off (rx_put b f) = b_pres_off b" "b_port (rx_put b f) = b_port b"
  "b_stn (rx_put b f) = b_stn b" "b_net (rx_put b f) = b_net b"
  by (simp_all add: rx_put_def)

lemma block_wf_put:
  assumes "block_wf b" "b_count b < AUN_RX_QUEUE" "b_open b" "frame_wf (b_buf_size b) f"
  shows "block_wf (rx_put b f)"
  using assms rx_queue_put [of b f]
  by (auto simp: block_wf_def ring_wf_put oldest_of_stream_def nth_append)

lemma rx_queue_update:
  assumes "ring_wf b" "k < b_count b"
  shows "rx_queue (b\<lparr>b_q := (b_q b)[rx_slot b k := f]\<rparr>) = (rx_queue b)[k := f]"
  using assms
  by (intro nth_equalityI) (auto simp: q_at_def ring_wf_def rx_slot_inj nth_list_update)

lemma defer_wf_set: "defer_wf ds \<Longrightarrow> defer_wf (defer_set now ds port ip sp t)"
  using dtab.unique_store [of ds now "(port, ip, sp)" t]
    dtab.length_store [of now ds "(port, ip, sp)" t]
  by (simp add: defer_wf_unique)

lemma condemn_wf_set: "condemn_wf cs \<Longrightarrow> condemn_wf (condemn_set now cs port ip sp)"
  using ctab.unique_store [of cs now "(port, ip, sp)" "()"]
    ctab.length_store [of now cs "(port, ip, sp)" "()"]
  by (simp add: condemn_wf_unique)

text \<open>
  A deferral holds its own stream exactly until it is due, and holds back no other stream.
\<close>

lemma defer_set_waiting:
  assumes "defer_wf ds" "f_src_ip_be f \<noteq> 0" "frame_stream g = frame_stream f"
  shows "frame_waiting t (defer_set now ds (f_port f) (f_src_ip_be f) (f_src_port f) due) g \<longleftrightarrow>
    \<not> ms_reached t due"
proof -
  from assms(1) have "ds \<noteq> []" "dtab.unique ds" by (auto simp: defer_wf_unique)
  from dtab.store_live_iff [OF this, of t now "frame_stream f" due] assms show ?thesis
    by (auto simp: frame_waiting_live frame_stream_def)
qed

lemma defer_set_other:
  assumes "frame_stream g \<noteq> frame_stream f"
    "frame_waiting t (defer_set now ds (f_port f) (f_src_ip_be f) (f_src_port f) due) g"
  shows "frame_waiting t ds g"
  using dtab.store_other_not_live [of "frame_stream g" "frame_stream f" t now ds due] assms
  by (auto simp: frame_waiting_live frame_stream_def)

lemma condemn_set_condemned:
  assumes "condemn_wf cs"
  shows "stream_condemned t (condemn_set now cs (f_port f) (f_src_ip_be f) (f_src_port f)) f \<longleftrightarrow>
    \<not> ms_reached t (now + AUN_CONDEMN_TTL_MS)"
proof -
  from assms have "cs \<noteq> []" "ctab.unique cs" by (auto simp: condemn_wf_unique)
  from ctab.store_live_iff [OF this, of t now "frame_stream f" "()"] show ?thesis
    by (simp add: stream_condemned_live frame_stream_def)
qed

lemma block_wf_reject:
  assumes "block_wf b" "k < b_count b" "f_rejects (q_at b k) < AUN_DEFER_RETRIES"
  shows "block_wf (b\<lparr>b_q := (b_q b)[rx_slot b k := (q_at b k)\<lparr>f_rejects := f_rejects (q_at b k) + 1\<rparr>],
           b_defer := defer_set now (b_defer b) port ip sp t, b_presented := False\<rparr>)"
proof -
  let ?f = "(q_at b k)\<lparr>f_rejects := f_rejects (q_at b k) + 1\<rparr>"
  have q: "rx_queue (b\<lparr>b_q := (b_q b)[rx_slot b k := ?f]\<rparr>) = (rx_queue b)[k := ?f]"
    using assms by (intro rx_queue_update) (auto simp: block_wf_def)
  have "frame_wf (b_buf_size b) (q_at b k)"
    using assms nth_rx_queue [of k b] by (auto simp: block_wf_def list_all_length)
  then have "frame_wf (b_buf_size b) ?f" using assms(3) by (simp add: frame_wf_def)
  then have "list_all (frame_wf (b_buf_size b)) ((rx_queue b)[k := ?f])"
    using assms by (auto simp: block_wf_def list_all_length nth_list_update)
  with q assms show ?thesis
    by (simp add: block_wf_def ring_wf_def defer_wf_set)
qed

section \<open>The chosen frame\<close>

lemma oldest_of_stream_nth:
  "k < length q \<Longrightarrow> oldest_of_stream q k \<longleftrightarrow> (\<forall>j < k. frame_stream (q ! j) \<noteq> frame_stream (q ! k))"
proof -
  assume "k < length q"
  then have "frame_stream ` set (take k q) = (\<lambda>j. frame_stream (q ! j)) ` {0..<k}"
    by (subst nth_image [symmetric]) (auto simp only: image_image less_imp_le)
  then show ?thesis
    unfolding oldest_of_stream_def by (metis (no_types, lifting) atLeastLessThan_iff image_iff zero_le)
qed

lemma rx_choice_SomeD:
  assumes "block_wf b" "rx_choice now b = Some k"
  shows "k < b_count b" "oldest_of_stream (rx_queue b) k"
proof -
  have "k < b_count b \<and> oldest_of_stream (rx_queue b) k"
  proof (cases "b_presented b")
    case False
    with assms(2) have k: "k < b_count b" "\<not> frame_waiting now (b_defer b) (rx_queue b ! k)"
        "\<forall>j < k. frame_waiting now (b_defer b) (rx_queue b ! j)"
      by (auto simp: rx_choice_def dest: find_index_SomeD)
    have "frame_stream (rx_queue b ! j) \<noteq> frame_stream (rx_queue b ! k)" if "j < k" for j
      using k that by (auto simp: frame_waiting_def frame_stream_def)
    with k(1) have "oldest_of_stream (rx_queue b) k"
      by (subst oldest_of_stream_nth) auto
    with k(1) show ?thesis ..
  qed (use assms in \<open>auto simp: rx_choice_def block_wf_def\<close>)
  then show "k < b_count b" "oldest_of_stream (rx_queue b) k" by auto
qed

lemma rx_choice_empty: "block_wf b \<Longrightarrow> b_count b = 0 \<Longrightarrow> rx_choice now b = None"
  by (auto simp: rx_choice_def block_wf_def rx_queue_def)

text \<open>Removing the chosen frame pops its own stream and leaves the others alone.\<close>

lemma stream_fifo:
  assumes "block_wf b" "rx_choice now b = Some k"
  shows "filter (\<lambda>g. frame_stream g = s) (rx_queue b) =
    (if s = frame_stream (q_at b k) then [q_at b k] else []) @
    filter (\<lambda>g. frame_stream g = s) (rx_queue (rx_remove_at b k))"
proof -
  have k: "ring_wf b" "k < b_count b" "oldest_of_stream (rx_queue b) k"
    using rx_choice_SomeD [OF assms] assms(1) by (auto simp: block_wf_def)
  have older: "frame_stream (rx_queue b ! j) \<noteq> frame_stream (rx_queue b ! k)" if "j < k" for j
    using k that oldest_of_stream_nth [of k "rx_queue b"] by simp
  show ?thesis
  proof (cases "s = frame_stream (q_at b k)")
    case True
    with rxq.own_stream_popped [of b k "\<lambda>g. frame_stream g = s"] k older show ?thesis by simp
  next
    case False
    with rxq.other_stream_kept [of b k "\<lambda>g. frame_stream g = s"] k show ?thesis by simp
  qed
qed

end
