(* ===== verification/AunReceive.thy ===== *)
theory AunReceive
  imports AunBlock
begin

text \<open>
  What the host operations on receive blocks do, on every branch, in terms of the list view of
  the queue: polling presents the oldest frame whose stream is not deferred, collecting answers
  for that frame, and nothing else goes out on the network.
\<close>

section \<open>Frame conditions\<close>

lemma set_rx_fields [simp, engine_frame]:
  "initialised (set_rx e h b) = initialised e" "transport (set_rx e h b) = transport e"
  "next_seq (set_rx e h b) = next_seq e" "e_map (set_rx e h b) = e_map e"
  "e_rx (set_rx e h b) = (e_rx e)[h := b]" "condemned (set_rx e h b) = condemned e"
  "tx (set_rx e h b) = tx e" "counters (set_rx e h b) = counters e"
  "machine_id (set_rx e h b) = machine_id e" "himm (set_rx e h b) = himm e"
  "himm_cache (set_rx e h b) = himm_cache e" "host_imm_enabled (set_rx e h b) = host_imm_enabled e"
  "dbg_prev (set_rx e h b) = dbg_prev e" "dbg_prev_next (set_rx e h b) = dbg_prev_next e"
  "trace_fn (set_rx e h b) = trace_fn e" "now_ms (set_rx e h b) = now_ms e"
  by (simp_all add: set_rx_def now_ms_def)

lemma map_stamp_fields [simp, engine_frame]:
  "initialised (map_stamp e ip sp s) = initialised e" "transport (map_stamp e ip sp s) = transport e"
  "next_seq (map_stamp e ip sp s) = next_seq e" "e_rx (map_stamp e ip sp s) = e_rx e"
  "condemned (map_stamp e ip sp s) = condemned e" "tx (map_stamp e ip sp s) = tx e"
  "counters (map_stamp e ip sp s) = counters e" "machine_id (map_stamp e ip sp s) = machine_id e"
  "himm (map_stamp e ip sp s) = himm e" "himm_cache (map_stamp e ip sp s) = himm_cache e"
  "host_imm_enabled (map_stamp e ip sp s) = host_imm_enabled e"
  "dbg_prev (map_stamp e ip sp s) = dbg_prev e" "dbg_prev_next (map_stamp e ip sp s) = dbg_prev_next e"
  "trace_fn (map_stamp e ip sp s) = trace_fn e" "now_ms (map_stamp e ip sp s) = now_ms e"
  "length (e_map (map_stamp e ip sp s)) = length (e_map e)"
  by (simp_all add: map_stamp_def now_ms_def split: option.split)

lemma map_stamp_addresses [simp]:
  "map (\<lambda>m. (m_net m, m_stn m, m_ip_be m, m_udp_port m)) (e_map (map_stamp e ip sp s)) =
   map (\<lambda>m. (m_net m, m_stn m, m_ip_be m, m_udp_port m)) (e_map e)"
  by (auto simp: map_stamp_def nth_list_update intro!: nth_equalityI split: option.split
      dest!: map_find_by_ip_SomeD)

lemma rx_accept_frame_fields [simp, engine_frame]:
  "initialised (rx_accept_frame e f) = initialised e" "next_seq (rx_accept_frame e f) = next_seq e"
  "e_rx (rx_accept_frame e f) = e_rx e" "tx (rx_accept_frame e f) = tx e"
  "machine_id (rx_accept_frame e f) = machine_id e" "himm (rx_accept_frame e f) = himm e"
  "himm_cache (rx_accept_frame e f) = himm_cache e"
  "dbg_prev (rx_accept_frame e f) = dbg_prev e"
  "dbg_prev_next (rx_accept_frame e f) = dbg_prev_next e"
  "length (e_map (rx_accept_frame e f)) = length (e_map e)"
  by (simp_all add: rx_accept_frame_def case_prod_beta Let_def)

lemma transport_rx_accept_frame [simp]:
  "transport (rx_accept_frame e f) =
     (if f_src_ip_be f = 0 then transport e
      else after_send (transport e) (f_src_ip_be f) (f_src_port f)
             (build_header AUN_TYPE_ACK (f_port f) (f_ctrl f) (f_seq f)))"
  by (simp add: rx_accept_frame_def case_prod_beta Let_def)

lemma rx_shed_frame_fields [simp, engine_frame]:
  "initialised (rx_shed_frame e f) = initialised e" "next_seq (rx_shed_frame e f) = next_seq e"
  "e_rx (rx_shed_frame e f) = e_rx e" "tx (rx_shed_frame e f) = tx e"
  "machine_id (rx_shed_frame e f) = machine_id e" "himm (rx_shed_frame e f) = himm e"
  "himm_cache (rx_shed_frame e f) = himm_cache e"
  "dbg_prev (rx_shed_frame e f) = dbg_prev e" "dbg_prev_next (rx_shed_frame e f) = dbg_prev_next e"
  "length (e_map (rx_shed_frame e f)) = length (e_map e)"
  "transport (rx_shed_frame e f) = after_send (transport e) (f_src_ip_be f) (f_src_port f)
      (build_header AUN_TYPE_ACK (f_port f) (f_ctrl f) (f_seq f))"
  by (simp_all add: rx_shed_frame_def Let_def)

section \<open>The case analysis of poll and collect\<close>

lemma rx_is_openD: "rx_is_open e h \<Longrightarrow> h < AUN_RX_BLOCKS \<and> b_open (e_rx e ! h)"
  by (simp add: rx_is_open_def)

lemma rx_scan_choice:
  assumes "block_wf b" "\<not> b_presented b"
  obtains b1 where "rx_first_eligible now b = (rx_choice now b, b1)" "refreshes now b b1"
  using rx_first_eligible_wf [OF block_wf_defer [OF assms(1)], of now] assms(2) that
    [of "snd (rx_first_eligible now b)"]
  by (simp add: rx_choice_def prod_eq_iff)

text \<open>What a poll returns, with the block after the scan.\<close>

abbreviation rx_poll_result ::
  "'u aun_engine_t \<Rightarrow> mem \<Rightarrow> nat \<Rightarrow> aun_rx_block_t \<Rightarrow> u8 \<times> aun_rx_info_t option \<times> 'u aun_engine_t \<times> mem"
  where
  "rx_poll_result e m h b1 \<equiv>
     (case rx_choice (now_ms e) (e_rx e ! h) of
          None \<Rightarrow> (AUN_STATUS_PENDING, None, set_rx e h b1, m)
        | Some k \<Rightarrow>
            (AUN_OK, Some (rx_info (q_at (e_rx e ! h) k)),
             set_rx e h (b1\<lparr>b_pres_off := k, b_presented := True\<rparr>),
             copy_to_host m (b_buf (e_rx e ! h)) (f_data (q_at (e_rx e ! h) k))))"

lemma aun_rx_poll_choice:
  assumes "rx_is_open e h" "block_wf (e_rx e ! h)" "\<not> b_presented (e_rx e ! h)"
  obtains b1 where "refreshes (now_ms e) (e_rx e ! h) b1"
    "aun_rx_poll e m h = rx_poll_result e m h b1"
proof (cases "b_count (e_rx e ! h) = 0")
  case True
  have "set_rx e h (e_rx e ! h) = e" by (simp add: set_rx_def)
  then show ?thesis
    using that [of "e_rx e ! h"] True assms rx_choice_empty [OF assms(2) True]
    by (simp add: aun_rx_poll_def Let_def)
next
  case False
  obtain b1 where b1: "rx_first_eligible (now_ms e) (e_rx e ! h) =
      (rx_choice (now_ms e) (e_rx e ! h), b1)" "refreshes (now_ms e) (e_rx e ! h) b1"
    using rx_scan_choice [OF assms(2,3)] .
  show ?thesis
    using that [OF b1(2)] False assms b1(1) refreshes_fields [OF b1(2)]
    by (simp add: aun_rx_poll_def Let_def split: option.split)
qed

lemma rx_current_choice:
  assumes "block_wf b"
  obtains b1 where "refreshes now b b1" "rx_current now b = (rx_choice now b, b1)"
proof (cases "b_count b = 0 \<or> b_presented b")
  case True
  then have "rx_current now b = (rx_choice now b, b)"
    using rx_choice_empty [OF assms] assms by (auto simp: rx_choice_def rx_current_def block_wf_def)
  with that [of b] show ?thesis by simp
next
  case False
  then have "\<not> b_presented b" "rx_current now b = rx_first_eligible now b"
    by (simp_all add: rx_current_def)
  with rx_scan_choice [OF assms] that show ?thesis by metis
qed

lemma aun_rx_collect_choice:
  assumes "rx_is_open e h" "block_wf (e_rx e ! h)"
  obtains b1 where "refreshes (now_ms e) (e_rx e ! h) b1"
    "aun_rx_collect e h accept =
       (AUN_OK, case rx_choice (now_ms e) (e_rx e ! h) of
                  None \<Rightarrow> set_rx e h (b1\<lparr>b_presented := False\<rparr>)
                | Some k \<Rightarrow> rx_answer e h b1 k accept)"
proof -
  obtain b1 where "refreshes (now_ms e) (e_rx e ! h) b1"
    "rx_current (now_ms e) (e_rx e ! h) = (rx_choice (now_ms e) (e_rx e ! h), b1)"
    using rx_current_choice [OF assms(2)] .
  with that [of b1] assms(1) show ?thesis
    by (simp add: aun_rx_collect_def split: option.split)
qed

section \<open>The receive invariant\<close>

definition rx_wf :: "'u aun_engine_t \<Rightarrow> bool" where
  "rx_wf e \<longleftrightarrow> length (e_rx e) = AUN_RX_BLOCKS \<and> list_all block_wf (e_rx e) \<and> condemn_wf (condemned e)"

lemma rx_wfD:
  "rx_wf e \<Longrightarrow> rx_is_open e h \<Longrightarrow> h < length (e_rx e) \<and> block_wf (e_rx e ! h)"
  by (auto simp: rx_wf_def rx_is_open_def list_all_length)

lemma rx_wf_set_rx: "rx_wf e \<Longrightarrow> block_wf b \<Longrightarrow> rx_wf (set_rx e h b)"
  using set_update_subset_insert [of "e_rx e" h b] by (auto simp: rx_wf_def list_all_iff)

lemma rx_wf_frame [simp]:
  "rx_wf (e\<lparr>counters := k\<rparr>) = rx_wf e" "rx_wf (e\<lparr>transport := tr\<rparr>) = rx_wf e"
  "rx_wf (e\<lparr>tx := t\<rparr>) = rx_wf e" "rx_wf (e\<lparr>next_seq := s\<rparr>) = rx_wf e"
  "rx_wf (e\<lparr>e_map := m\<rparr>) = rx_wf e" "rx_wf (e\<lparr>himm := hi\<rparr>) = rx_wf e"
  "rx_wf (e\<lparr>himm_cache := hc\<rparr>) = rx_wf e" "rx_wf (e\<lparr>dbg_prev := d\<rparr>) = rx_wf e"
  "rx_wf (e\<lparr>dbg_prev_next := n\<rparr>) = rx_wf e"
  by (simp_all add: rx_wf_def)

lemma rx_accept_frame_condemned:
  "condemned (rx_accept_frame e f) =
     (if f_src_ip_be f = 0 then condemned e
      else condemn_lift (now_ms (rx_accept_frame e f)) (condemned e) f)"
  by (auto simp: rx_accept_frame_def condemn_lift_def case_prod_beta Let_def now_ms_def
      split: option.split)

lemma rx_shed_frame_condemned:
  "condemned (rx_shed_frame e f) =
     condemn_set (now_ms (rx_shed_frame e f)) (condemned e) (f_port f) (f_src_ip_be f) (f_src_port f)"
  by (simp add: rx_shed_frame_def Let_def now_ms_def)

lemma rx_wf_accept_frame: "rx_wf e \<Longrightarrow> rx_wf (rx_accept_frame e f)"
  by (simp add: rx_wf_def rx_accept_frame_condemned condemn_lift_wf)

lemma rx_wf_shed_frame: "rx_wf e \<Longrightarrow> rx_wf (rx_shed_frame e f)"
  by (simp add: rx_wf_def rx_shed_frame_condemned condemn_wf_set)

lemma rx_wf_condemn_find:
  fixes f :: aun_rx_frame_t
  shows "rx_wf e \<Longrightarrow> rx_wf (e\<lparr>condemned := snd (condemn_find now (condemned e) (f_port f) (f_src_ip_be f) (f_src_port f))\<rparr>)"
  using condemn_find_wf(2) by (auto simp: rx_wf_def)

lemma rx_wf_reject:
  assumes "rx_wf e" "block_wf b" "k < b_count b" "f = q_at b k"
  shows "rx_wf (rx_reject e h b k f)"
proof -
  let ?c = "condemn_find (now_ms e) (condemned e) (f_port f) (f_src_ip_be f) (f_src_port f)"
  let ?e1 = "e\<lparr>condemned := snd ?c\<rparr>"
  have e1: "rx_wf ?e1" by (rule rx_wf_condemn_find [OF assms(1)])
  show ?thesis
  proof (cases "f_rejects f \<ge> (if fst ?c \<noteq> None then AUN_CONDEMN_RETRIES else AUN_DEFER_RETRIES)")
    case True
    have "rx_wf (set_rx (rx_shed_frame ?e1 f) h ((rx_remove_at b k)\<lparr>b_presented := False\<rparr>))"
      using rx_wf_shed_frame [OF e1] block_wf_remove [OF assms(2,3)] by (rule rx_wf_set_rx)
    with True show ?thesis
      by (simp add: rx_reject_def case_prod_beta Let_def)
  next
    case False
    then have "f_rejects (q_at b k) < AUN_DEFER_RETRIES"
      using assms(4) by (auto split: if_splits)
    with False rx_wf_set_rx [OF e1 block_wf_reject [OF assms(2,3)]] assms(4) show ?thesis
      by (simp add: rx_reject_def case_prod_beta Let_def)
  qed
qed

lemma rx_wf_answer:
  assumes "rx_wf e" "block_wf b" "k < b_count b"
  shows "rx_wf (rx_answer e h b k accept)"
  using assms rx_wf_reject [OF assms refl] block_wf_remove [OF assms(2,3)]
  by (simp add: rx_answer_def Let_def rx_wf_set_rx rx_wf_accept_frame)

lemma rx_wf_collect: "rx_wf e \<Longrightarrow> rx_wf (snd (aun_rx_collect e h accept))"
proof (cases "rx_is_open e h")
  case True
  assume e: "rx_wf e"
  with True have b: "block_wf (e_rx e ! h)" by (simp add: rx_wfD)
  obtain b1 where r: "refreshes (now_ms e) (e_rx e ! h) b1" and
    c: "aun_rx_collect e h accept = (AUN_OK, case rx_choice (now_ms e) (e_rx e ! h) of
            None \<Rightarrow> set_rx e h (b1\<lparr>b_presented := False\<rparr>) | Some k \<Rightarrow> rx_answer e h b1 k accept)"
    using aun_rx_collect_choice [OF True b] .
  have b1: "block_wf b1" by (rule block_wf_refreshes [OF b r])
  show ?thesis
  proof (cases "rx_choice (now_ms e) (e_rx e ! h)")
    case None
    with c e b1 show ?thesis by (simp add: rx_wf_set_rx block_wf_unpresent)
  next
    case (Some k)
    then have "k < b_count b1" using rx_choice_SomeD [OF b] refreshes_fields [OF r] by simp
    with c Some e b1 show ?thesis by (simp add: rx_wf_answer)
  qed
qed (simp add: aun_rx_collect_def)

lemma rx_wf_poll: "rx_wf e \<Longrightarrow> rx_wf (fst (snd (snd (aun_rx_poll e m h))))"
proof (cases "rx_is_open e h \<and> \<not> b_presented (e_rx e ! h)")
  case True
  assume e: "rx_wf e"
  with True have b: "block_wf (e_rx e ! h)" by (simp add: rx_wfD)
  from True b obtain b1 where r: "refreshes (now_ms e) (e_rx e ! h) b1" and
    c: "aun_rx_poll e m h = rx_poll_result e m h b1"
    using aun_rx_poll_choice by blast
  have b1: "block_wf b1" by (rule block_wf_refreshes [OF b r])
  show ?thesis
  proof (cases "rx_choice (now_ms e) (e_rx e ! h)")
    case (Some k)
    then have "k < b_count b1" "oldest_of_stream (rx_queue b1) k"
      using rx_choice_SomeD [OF b] refreshes_fields [OF r] by simp_all
    with c Some e b1 show ?thesis by (simp add: rx_wf_set_rx block_wf_present)
  qed (use c e b1 in \<open>simp add: rx_wf_set_rx\<close>)
qed (auto simp: aun_rx_poll_def Let_def)

lemma rx_wf_ready: "rx_wf e \<Longrightarrow> rx_wf (snd (aun_rx_ready e h))"
  using rx_ready_loop_wf [of "e_rx e ! h" "now_ms e" "[0..<b_count (e_rx e ! h)]" 0]
    rx_wfD [of e h] block_wf_refreshes [of "e_rx e ! h" "now_ms e"]
  by (auto simp: aun_rx_ready_def Let_def case_prod_beta rx_wf_set_rx block_wf_defer)

lemma rx_wf_open: "rx_wf e \<Longrightarrow> rx_wf (snd (aun_rx_open e h port s n buf sz))"
proof -
  assume e: "rx_wf e"
  have "block_wf (rx_block_zero\<lparr>b_open := True, b_port := port, b_stn := s, b_net := n,
      b_buf := Some a, b_buf_size := sz\<rparr>)" if "0 < sz" for a
    using that by (simp add: block_wf_def rx_block_zero_def ring_wf_def defer_wf_def
        defer_zero_def rx_queue_def)
  with e show ?thesis by (auto simp: aun_rx_open_def rx_wf_set_rx)
qed

lemma rx_wf_close: "rx_wf e \<Longrightarrow> rx_wf (snd (aun_rx_close e h))"
  by (simp add: aun_rx_close_def rx_wf_set_rx)

section \<open>What the host operations do\<close>

text \<open>Polling presents the oldest frame whose stream is not deferred: its metadata is returned,
  its bytes are in the host buffer, nothing outside the buffer is written, the queue is unchanged
  and nothing is sent.\<close>

theorem aun_rx_poll_presents_oldest:
  fixes e :: "'u aun_engine_t" and h :: nat
  defines "b \<equiv> e_rx e ! h"
  assumes "rx_wf e" "rx_is_open e h" "\<not> b_presented b"
    and "find_index (\<lambda>f. \<not> frame_waiting (now_ms e) (b_defer b) f) (rx_queue b) = Some k"
    and "f = rx_queue b ! k" "b_buf b = Some a" "aun_rx_poll e m h = (r, i, e1, m1)"
  shows "r = AUN_OK \<and> i = Some (rx_info f) \<and> mem_read m1 a (f_len f) = f_data f \<and>
    (\<forall>x. x < a \<or> a + b_buf_size b \<le> x \<longrightarrow> m1 x = m x) \<and>
    rx_queue (e_rx e1 ! h) = rx_queue b \<and> oldest_of_stream (rx_queue b) k \<and>
    transport e1 = transport e"
proof -
  have b: "block_wf b" "h < length (e_rx e)" using assms rx_wfD by (auto simp: b_def)
  have c: "rx_choice (now_ms e) b = Some k" using assms by (simp add: rx_choice_def)
  have k: "k < b_count b" "oldest_of_stream (rx_queue b) k" using rx_choice_SomeD [OF b(1) c] by auto
  obtain b1 where r: "refreshes (now_ms e) b b1" "aun_rx_poll e m h =
      (AUN_OK, Some (rx_info (q_at b k)), set_rx e h (b1\<lparr>b_pres_off := k, b_presented := True\<rparr>),
       copy_to_host m (b_buf b) (f_data (q_at b k)))"
    using aun_rx_poll_choice [of e h m] assms b c by (auto simp: b_def)
  have "frame_wf (b_buf_size b) f"
    using b(1) k(1) assms(6) by (simp add: block_wf_def list_all_length)
  then show ?thesis
    using r b k assms refreshes_fields [OF r(1)]
    by (auto simp: copy_to_host_def frame_wf_def mem_simps mem_write_outside)
qed

text \<open>Polling again before collecting returns the same frame and changes neither the engine nor
  memory.\<close>

theorem aun_rx_poll_stable:
  assumes "rx_wf e" "aun_rx_poll e m h = (AUN_OK, i, e1, m1)"
  shows "aun_rx_poll e1 m2 h = (AUN_OK, i, e1, m2)"
proof -
  from assms(2) have o: "rx_is_open e h" by (auto simp: aun_rx_poll_def split: if_splits)
  with assms(1) have b: "block_wf (e_rx e ! h)" "h < length (e_rx e)" using rx_wfD by auto
  show ?thesis
  proof (cases "b_presented (e_rx e ! h)")
    case True
    with assms(2) show ?thesis by (auto simp: aun_rx_poll_def Let_def split: if_splits)
  next
    case False
    obtain b1 where r: "refreshes (now_ms e) (e_rx e ! h) b1" and
      c: "aun_rx_poll e m h = rx_poll_result e m h b1"
      using aun_rx_poll_choice [OF o b(1) False] .
    with assms(2) obtain k where k: "rx_choice (now_ms e) (e_rx e ! h) = Some k"
        "e1 = set_rx e h (b1\<lparr>b_pres_off := k, b_presented := True\<rparr>)"
        "i = Some (rx_info (q_at (e_rx e ! h) k))"
      by (auto split: option.splits)
    with o b rx_choice_SomeD(1) [OF b(1) k(1)] refreshes_fields [OF r] show ?thesis
      by (auto simp: aun_rx_poll_def rx_is_open_def Let_def)
  qed
qed

text \<open>aun_rx_ready counts exactly the queued frames that a poll may present: it is positive if
  and only if a poll returns AUN_OK and zero if and only if a poll returns AUN_STATUS_PENDING.\<close>

theorem aun_rx_ready_iff_poll:
  assumes "rx_wf e" "rx_is_open e h" "\<not> b_presented (e_rx e ! h)"
  shows "fst (aun_rx_ready e h) =
      length (filter (\<lambda>f. \<not> frame_waiting (now_ms e) (b_defer (e_rx e ! h)) f) (rx_queue (e_rx e ! h)))
    \<and> (0 < fst (aun_rx_ready e h) \<longleftrightarrow> fst (aun_rx_poll e m h) = AUN_OK)
    \<and> (fst (aun_rx_ready e h) = 0 \<longleftrightarrow> fst (aun_rx_poll e m h) = AUN_STATUS_PENDING)
    \<and> transport (snd (aun_rx_ready e h)) = transport e"
proof -
  let ?b = "e_rx e ! h" and ?P = "\<lambda>f. \<not> frame_waiting (now_ms e) (b_defer (e_rx e ! h)) f"
  have b: "block_wf ?b" using assms rx_wfD by auto
  have "fst (aun_rx_ready e h) = length (filter (\<lambda>i. ?P (q_at ?b i)) [0..<b_count ?b])"
    using rx_ready_loop_wf [OF block_wf_defer [OF b], of "now_ms e" "[0..<b_count ?b]" 0] assms(2)
    by (simp add: aun_rx_ready_def Let_def case_prod_beta)
  also have "\<dots> = length (filter ?P (rx_queue ?b))"
    by (simp add: rx_queue_def filter_map comp_def)
  finally have n: "fst (aun_rx_ready e h) = length (filter ?P (rx_queue ?b))" .
  obtain b1 where "aun_rx_poll e m h = rx_poll_result e m h b1"
    using aun_rx_poll_choice [OF assms(2) b assms(3)] .
  then have "fst (aun_rx_poll e m h) =
      (if find_index ?P (rx_queue ?b) = None then AUN_STATUS_PENDING else AUN_OK)"
    using assms(3) by (simp add: rx_choice_def split: option.split)
  moreover have "find_index ?P (rx_queue ?b) = None \<longleftrightarrow> length (filter ?P (rx_queue ?b)) = 0"
    by (auto simp: find_index_None filter_empty_conv)
  ultimately show ?thesis
    using n assms(2) by (auto simp: aun_rx_ready_def Let_def case_prod_beta)
qed

lemma rx_wf_openE:
  assumes "rx_wf e" "rx_is_open e h"
  obtains "block_wf (e_rx e ! h)" "h < length (e_rx e)" "condemn_wf (condemned e)"
  using assms rx_wfD [OF assms] by (simp add: rx_wf_def)

lemma aun_rx_collect_chosen:
  assumes "rx_wf e" "rx_is_open e h" "rx_choice (now_ms e) (e_rx e ! h) = Some k"
  obtains b1 where "refreshes (now_ms e) (e_rx e ! h) b1" "block_wf b1" "k < b_count b1"
    "q_at b1 k = rx_queue (e_rx e ! h) ! k" "rx_queue b1 = rx_queue (e_rx e ! h)"
    "aun_rx_collect e h accept = (AUN_OK, rx_answer e h b1 k accept)"
proof -
  have b: "block_wf (e_rx e ! h)" using rx_wf_openE [OF assms(1,2)] .
  obtain b1 where r: "refreshes (now_ms e) (e_rx e ! h) b1" and
    c: "aun_rx_collect e h accept = (AUN_OK, case rx_choice (now_ms e) (e_rx e ! h) of
         None \<Rightarrow> set_rx e h (b1\<lparr>b_presented := False\<rparr>) | Some k \<Rightarrow> rx_answer e h b1 k accept)"
    using aun_rx_collect_choice [OF assms(2) b] .
  show ?thesis
    using that [OF r block_wf_refreshes [OF b r]] c assms(3) rx_choice_SomeD(1) [OF b assms(3)]
      refreshes_fields [OF r] by simp
qed

lemma e_map_rx_accept_frame:
  "f_src_ip_be f \<noteq> 0 \<Longrightarrow>
   e_map (rx_accept_frame e f) = e_map (map_stamp e (f_src_ip_be f) (f_src_port f) (f_seq f))"
  by (simp add: rx_accept_frame_def map_stamp_def map_find_by_ip_def case_prod_beta Let_def
      split: option.split)

lemma e_map_rx_shed_frame:
  "e_map (rx_shed_frame e f) = e_map (map_stamp e (f_src_ip_be f) (f_src_port f) (f_seq f))"
  by (simp add: rx_shed_frame_def map_stamp_def map_find_by_ip_def Let_def split: option.split)

lemma map_stamp_stamped:
  "map_find_by_ip e ip sp = Some i \<Longrightarrow>
   m_seq_valid (e_map (map_stamp e ip sp s) ! i) \<and> m_last_rx_seq (e_map (map_stamp e ip sp s) ! i) = s"
  by (auto simp: map_stamp_def dest: map_find_by_ip_SomeD)

lemma rx_collect_accepts:
  fixes e :: "'u aun_engine_t" and h :: nat
  defines "b \<equiv> e_rx e ! h"
  assumes "rx_wf e" "rx_is_open e h" "rx_choice (now_ms e) b = Some k"
    and "f = rx_queue b ! k" "f_src_ip_be f \<noteq> 0" "aun_rx_collect e h True = (r, e1)"
  shows "r = AUN_OK \<and>
    transport e1 = after_send (transport e) (f_src_ip_be f) (f_src_port f)
      (build_header AUN_TYPE_ACK (f_port f) (f_ctrl f) (f_seq f)) \<and>
    rx_queue (e_rx e1 ! h) = take k (rx_queue b) @ drop (Suc k) (rx_queue b) \<and>
    (\<forall>i. map_find_by_ip e (f_src_ip_be f) (f_src_port f) = Some i \<longrightarrow>
       m_seq_valid (e_map e1 ! i) \<and> m_last_rx_seq (e_map e1 ! i) = f_seq f) \<and>
    (\<forall>t. \<not> stream_condemned t (condemned e1) f)"
proof -
  have wf: "h < length (e_rx e)" "condemn_wf (condemned e)"
    using rx_wf_openE [OF assms(2,3)] by blast+
  obtain b1 where b1: "block_wf b1" "k < b_count b1" "q_at b1 k = f" "rx_queue b1 = rx_queue b"
      "aun_rx_collect e h True = (AUN_OK, rx_answer e h b1 k True)"
    using aun_rx_collect_chosen [OF assms(2,3), of k True] assms(4,5) unfolding b_def by metis
  then have e1: "r = AUN_OK"
      "e1 = set_rx (rx_accept_frame e f) h ((rx_remove_at b1 k)\<lparr>b_presented := False\<rparr>)"
    using assms by (simp_all add: rx_answer_def)
  moreover have "rx_queue (rx_remove_at b1 k) = take k (rx_queue b) @ drop (Suc k) (rx_queue b)"
    using b1 by (simp add: block_wf_def rx_queue_remove_at)
  ultimately show ?thesis
    using wf assms(6) condemn_lift_wf(2) [OF wf(2)]
    by (auto simp: rx_accept_frame_condemned e_map_rx_accept_frame map_stamp_stamped)
qed

text \<open>Accepting a network frame sends exactly one datagram, the ACK that echoes the frame's
  sequence number to its sender, removes the frame, stamps the sender's last sequence number and
  lifts a condemnation of its stream.\<close>

theorem aun_rx_collect_acks:
  fixes e :: "'u aun_engine_t" and h :: nat
  defines "b \<equiv> e_rx e ! h"
  assumes "rx_wf e" "rx_is_open e h" "rx_choice (now_ms e) b = Some k"
    and "f = rx_queue b ! k" "f_src_ip_be f \<noteq> 0" "aun_rx_collect e h True = (r, e1)"
  shows "r = AUN_OK \<and>
    transport e1 = after_send (transport e) (f_src_ip_be f) (f_src_port f)
      (build_header AUN_TYPE_ACK (f_port f) (f_ctrl f) (f_seq f)) \<and>
    rx_queue (e_rx e1 ! h) = take k (rx_queue b) @ drop (Suc k) (rx_queue b) \<and>
    (\<forall>i. map_find_by_ip e (f_src_ip_be f) (f_src_port f) = Some i \<longrightarrow>
       m_seq_valid (e_map e1 ! i) \<and> m_last_rx_seq (e_map e1 ! i) = f_seq f) \<and>
    (\<forall>t. \<not> stream_condemned t (condemned e1) f)"
  using rx_collect_accepts [of e h k f r e1] assms by (simp add: b_def)

text \<open>C15. Collecting (accepting) a frame pops the oldest queued frame of its stream and leaves every
  other stream exactly as it was: arrival order is kept per stream and no stream blocks another.\<close>

theorem aun_rx_collect_stream_order:
  fixes e :: "'u aun_engine_t" and h :: nat
  defines "b \<equiv> e_rx e ! h"
  assumes "rx_wf e" "rx_is_open e h" "rx_choice (now_ms e) b = Some k"
    and "aun_rx_collect e h True = (r, e1)"
  shows "filter (\<lambda>g. frame_stream g = s) (rx_queue b) =
    (if s = frame_stream (rx_queue b ! k) then [rx_queue b ! k] else []) @
    filter (\<lambda>g. frame_stream g = s) (rx_queue (e_rx e1 ! h))"
proof -
  have wf: "block_wf b" "h < length (e_rx e)"
    using rx_wf_openE [OF assms(2,3)] by (auto simp: b_def)
  have k: "k < b_count b" by (rule rx_choice_SomeD [OF wf(1) assms(4)])
  obtain b1 where b1: "block_wf b1" "k < b_count b1" "rx_queue b1 = rx_queue b"
      "aun_rx_collect e h True = (AUN_OK, rx_answer e h b1 k True)"
    using aun_rx_collect_chosen [OF assms(2,3), of k True] assms(4) unfolding b_def by metis
  then have "rx_queue (e_rx e1 ! h) = rx_queue (rx_remove_at b k)"
    using assms(5) wf k by (simp add: rx_answer_def Let_def block_wf_def rx_queue_remove_at)
  then show ?thesis
    using stream_fifo [OF wf(1) assms(4), of s] k by simp
qed

lemma rx_reject_parks:
  assumes "condemn_wf (condemned e)"
    and "f_rejects f < (if stream_condemned (now_ms e) (condemned e) f
                        then AUN_CONDEMN_RETRIES else AUN_DEFER_RETRIES)"
  shows "\<exists>cs. rx_reject e h b k f = set_rx (e\<lparr>condemned := cs\<rparr>) h
     (b\<lparr>b_q := (b_q b)[rx_slot b k := f\<lparr>f_rejects := f_rejects f + 1\<rparr>],
        b_defer := defer_set (now_ms e) (b_defer b) (f_port f) (f_src_ip_be f) (f_src_port f)
          (now_ms e + AUN_DEFER_DELAY_MS), b_presented := False\<rparr>)"
proof -
  let ?c = "condemn_find (now_ms e) (condemned e) (f_port f) (f_src_ip_be f) (f_src_port f)"
  have "(fst ?c \<noteq> None) = stream_condemned (now_ms e) (condemned e) f"
    by (rule condemn_find_wf [OF assms(1)])
  moreover have "now_ms (e\<lparr>condemned := snd ?c\<rparr>) = now_ms e" by (simp add: now_ms_def)
  ultimately show ?thesis
    using assms(2) by (intro exI [of _ "snd ?c"]) (simp add: rx_reject_def case_prod_beta Let_def del: not_None_eq)
qed

lemma rx_reject_sheds:
  assumes "condemn_wf (condemned e)"
    and "\<not> f_rejects f < (if stream_condemned (now_ms e) (condemned e) f
                        then AUN_CONDEMN_RETRIES else AUN_DEFER_RETRIES)"
  shows "\<exists>cs k2. condemn_wf cs \<and> k2 = counters (rx_shed_frame (e\<lparr>condemned := cs\<rparr>) f) \<and> rx_reject e h b k f =
     (set_rx (rx_shed_frame (e\<lparr>condemned := cs\<rparr>) f) h ((rx_remove_at b k)\<lparr>b_presented := False\<rparr>))
       \<lparr>counters := k2\<lparr>k_rx_parked_drop := k_rx_parked_drop k2 + 1\<rparr>\<rparr>"
proof -
  let ?c = "condemn_find (now_ms e) (condemned e) (f_port f) (f_src_ip_be f) (f_src_port f)"
  have "(fst ?c \<noteq> None) = stream_condemned (now_ms e) (condemned e) f"
    by (rule condemn_find_wf [OF assms(1)])
  with assms condemn_find_wf(2) [OF assms(1), of "now_ms e" f] show ?thesis
    by (intro exI [of _ "snd ?c"]) (simp add: rx_reject_def case_prod_beta Let_def del: not_None_eq)
qed

text \<open>Rejecting a frame within its budget sends nothing, keeps the frame in place with one more
  reject charged, holds back its stream for exactly 8 ms of the 32-bit millisecond clock, and
  holds back no other stream.\<close>

theorem aun_rx_collect_parks:
  fixes e :: "'u aun_engine_t" and h :: nat
  defines "b \<equiv> e_rx e ! h"
  assumes "rx_wf e" "rx_is_open e h" "rx_choice (now_ms e) b = Some k"
    and "f = rx_queue b ! k" "f_src_ip_be f \<noteq> 0"
    and "f_rejects f < (if stream_condemned (now_ms e) (condemned e) f
                        then AUN_CONDEMN_RETRIES else AUN_DEFER_RETRIES)"
    and "aun_rx_collect e h False = (r, e1)" and "b1 = e_rx e1 ! h"
  shows "r = AUN_OK \<and> transport e1 = transport e \<and> e_map e1 = e_map e \<and>
    rx_queue b1 = (rx_queue b)[k := f\<lparr>f_rejects := f_rejects f + 1\<rparr>] \<and>
    (\<forall>g n. frame_stream g = frame_stream f \<longrightarrow> n < 2 ^ 31 \<longrightarrow>
       frame_waiting (now_ms e + of_nat n) (b_defer b1) g = (n < 8)) \<and>
    (\<forall>g. frame_stream g \<noteq> frame_stream f \<longrightarrow>
       frame_waiting (now_ms e) (b_defer b1) g \<longrightarrow> frame_waiting (now_ms e) (b_defer b) g)"
proof -
  have wf: "h < length (e_rx e)" "condemn_wf (condemned e)"
    using rx_wf_openE [OF assms(2,3)] by blast+
  obtain b' where b': "refreshes (now_ms e) b b'" "block_wf b'" "k < b_count b'" "q_at b' k = f"
      "rx_queue b' = rx_queue b" "aun_rx_collect e h False = (AUN_OK, rx_answer e h b' k False)"
    using aun_rx_collect_chosen [OF assms(2,3), of k False] assms(4,5) unfolding b_def by metis
  have ans: "rx_answer e h b' k False = rx_reject e h b' k f"
    using b'(4) assms(6) by (simp add: rx_answer_def)
  obtain cs where "rx_reject e h b' k f = set_rx (e\<lparr>condemned := cs\<rparr>) h
     (b'\<lparr>b_q := (b_q b')[rx_slot b' k := f\<lparr>f_rejects := f_rejects f + 1\<rparr>],
        b_defer := defer_set (now_ms e) (b_defer b') (f_port f) (f_src_ip_be f) (f_src_port f)
          (now_ms e + AUN_DEFER_DELAY_MS), b_presented := False\<rparr>)"
    using rx_reject_parks [OF wf(2) assms(7)] by blast
  with ans have e1: "r = AUN_OK" "transport e1 = transport e" "e_map e1 = e_map e"
      "rx_queue b1 = (rx_queue b)[k := f\<lparr>f_rejects := f_rejects f + 1\<rparr>]"
      "b_defer b1 = defer_set (now_ms e) (b_defer b') (f_port f) (f_src_ip_be f) (f_src_port f)
          (now_ms e + AUN_DEFER_DELAY_MS)"
    using b' assms(8,9) wf(1) rx_queue_update [of b' k] by (auto simp: block_wf_def)
  have "ms_reached (now_ms e + of_nat n) (now_ms e + 8) = (8 \<le> n)" if "n < 2 ^ 31" for n
    using ms_delay [of 8 n "now_ms e"] that by simp
  with e1 defer_set_waiting [OF block_wf_defer [OF b'(2)] assms(6)]
    defer_set_other [of _ f "now_ms e" "now_ms e" "b_defer b'"] b'(1)
  show ?thesis by (auto simp: refreshes_def)
qed

lemma counters_send_ack_nak_parked [simp]:
  "k_rx_parked_drop (counters (send_ack_nak e ip port ty ap ctrl s)) = k_rx_parked_drop (counters e)"
  by (simp add: send_ack_nak_def case_prod_beta Let_def snd_udp_send)

text \<open>Rejecting a frame whose budget is spent acknowledges it once, removes it, counts the drop,
  stamps its sequence number so that a crossing retransmission is re-acknowledged, and condemns
  its stream for exactly 10 s.\<close>

theorem aun_rx_collect_sheds:
  fixes e :: "'u aun_engine_t" and h :: nat
  defines "b \<equiv> e_rx e ! h"
  assumes "rx_wf e" "rx_is_open e h" "rx_choice (now_ms e) b = Some k"
    and "f = rx_queue b ! k" "f_src_ip_be f \<noteq> 0"
    and "f_rejects f \<ge> (if stream_condemned (now_ms e) (condemned e) f
                        then AUN_CONDEMN_RETRIES else AUN_DEFER_RETRIES)"
    and "aun_rx_collect e h False = (r, e1)"
  shows "r = AUN_OK \<and>
    transport e1 = after_send (transport e) (f_src_ip_be f) (f_src_port f)
      (build_header AUN_TYPE_ACK (f_port f) (f_ctrl f) (f_seq f)) \<and>
    rx_queue (e_rx e1 ! h) = take k (rx_queue b) @ drop (Suc k) (rx_queue b) \<and>
    k_rx_parked_drop (counters e1) = k_rx_parked_drop (counters e) + 1 \<and>
    (\<forall>i. map_find_by_ip e (f_src_ip_be f) (f_src_port f) = Some i \<longrightarrow>
       m_seq_valid (e_map e1 ! i) \<and> m_last_rx_seq (e_map e1 ! i) = f_seq f) \<and>
    (\<forall>n < 2 ^ 31. stream_condemned (now_ms e1 + of_nat n) (condemned e1) f = (n < 10000))"
proof -
  have wf: "h < length (e_rx e)" "condemn_wf (condemned e)"
    using rx_wf_openE [OF assms(2,3)] by blast+
  obtain b1 where b1: "block_wf b1" "k < b_count b1" "q_at b1 k = f" "rx_queue b1 = rx_queue b"
      "aun_rx_collect e h False = (AUN_OK, rx_answer e h b1 k False)"
    using aun_rx_collect_chosen [OF assms(2,3), of k False] assms(4,5) unfolding b_def by metis
  have ans: "rx_answer e h b1 k False = rx_reject e h b1 k f"
    using b1(3) assms(6) by (simp add: rx_answer_def)
  obtain cs k2 where cs: "condemn_wf cs" "k2 = counters (rx_shed_frame (e\<lparr>condemned := cs\<rparr>) f)"
      "rx_answer e h b1 k False =
        (set_rx (rx_shed_frame (e\<lparr>condemned := cs\<rparr>) f) h ((rx_remove_at b1 k)\<lparr>b_presented := False\<rparr>))
          \<lparr>counters := k2\<lparr>k_rx_parked_drop := k_rx_parked_drop k2 + 1\<rparr>\<rparr>"
    unfolding ans using rx_reject_sheds [OF wf(2), of f h b1 k] assms(7) unfolding not_less by blast
  have q: "rx_queue (rx_remove_at b1 k) = take k (rx_queue b) @ drop (Suc k) (rx_queue b)"
    using b1 by (simp add: block_wf_def rx_queue_remove_at)
  have t: "now_ms e1 = now_ms (rx_shed_frame (e\<lparr>condemned := cs\<rparr>) f)"
    using b1(5) cs(3) assms(8) by (simp add: now_ms_def)
  have "k_rx_parked_drop k2 = k_rx_parked_drop (counters e)"
    unfolding cs(2) by (simp add: rx_shed_frame_def Let_def)
  moreover have "ms_reached (now_ms e1 + of_nat n) (now_ms e1 + 10000) = (10000 \<le> n)" if "n < 2 ^ 31" for n
    using ms_delay [of 10000 n "now_ms e1"] that by simp
  moreover have "map_find_by_ip (e\<lparr>condemned := cs\<rparr>) = map_find_by_ip e"
    by (simp add: map_find_by_ip_def fun_eq_iff)
  ultimately show ?thesis
    using b1(5) cs(3) assms(8) q wf condemn_set_condemned [OF cs(1)] t
    by (auto simp: rx_shed_frame_condemned e_map_rx_shed_frame map_stamp_stamped)
qed

definition rx_budget :: "aun_rx_frame_t list \<Rightarrow> nat" where
  "rx_budget q = (\<Sum>f \<leftarrow> q. AUN_DEFER_RETRIES + 1 - f_rejects f)"

lemma rx_budget_bound: "rx_budget q \<le> length q * (AUN_DEFER_RETRIES + 1)"
  by (induction q) (auto simp: rx_budget_def)

lemma rx_budget_remove:
  "k < length q \<Longrightarrow> f_rejects (q ! k) \<le> AUN_DEFER_RETRIES \<Longrightarrow>
   rx_budget (take k q @ drop (Suc k) q) < rx_budget q"
  by (subst (3) id_take_nth_drop [of k q]) (auto simp: rx_budget_def simp del: append_take_drop_id)

lemma rx_budget_park:
  "k < length q \<Longrightarrow> f_rejects (q ! k) < AUN_DEFER_RETRIES \<Longrightarrow>
   rx_budget (q[k := (q ! k)\<lparr>f_rejects := f_rejects (q ! k) + 1\<rparr>]) < rx_budget q"
  by (subst (4) id_take_nth_drop [of k q]) (auto simp: rx_budget_def upd_conv_take_nth_drop simp del: append_take_drop_id)


text \<open>Every answer removes the frame or charges its reject budget.\<close>

lemma rx_answer_queue:
  assumes "condemn_wf (condemned e)" "h < length (e_rx e)" "block_wf b" "k < b_count b" "f = q_at b k"
  shows "rx_queue (e_rx (rx_answer e h b k accept) ! h) = take k (rx_queue b) @ drop (Suc k) (rx_queue b) \<or>
    f_rejects f < AUN_DEFER_RETRIES \<and>
    rx_queue (e_rx (rx_answer e h b k accept) ! h) = (rx_queue b)[k := f\<lparr>f_rejects := f_rejects f + 1\<rparr>]"
proof -
  have wf: "ring_wf b" using assms(3) by (simp add: block_wf_def)
  note q = rx_queue_remove_at [OF wf assms(4)] rx_queue_update [OF wf assms(4)]
  let ?budget = "if stream_condemned (now_ms e) (condemned e) f then AUN_CONDEMN_RETRIES else AUN_DEFER_RETRIES"
  consider "accept \<or> f_src_ip_be f = 0" | "\<not> accept" "f_src_ip_be f \<noteq> 0" "f_rejects f < ?budget"
    | "\<not> accept" "f_src_ip_be f \<noteq> 0" "\<not> f_rejects f < ?budget" by blast
  then show ?thesis
  proof cases
    case 2
    then have "f_rejects f < AUN_DEFER_RETRIES" by (auto split: if_splits)
    with 2 assms q rx_reject_parks [OF assms(1) 2(3), of h b k] show ?thesis
      by (auto simp: rx_answer_def)
  next
    case 3
    with assms q rx_reject_sheds [OF assms(1) 3(3), of h b k] show ?thesis
      by (auto simp: rx_answer_def)
  qed (use assms q in \<open>auto simp: rx_answer_def Let_def\<close>)
qed

text \<open>Every collect that answers for a frame, accepting or rejecting, strictly decreases the
  reject budget left in the block's queue, which is at most 8 * 251: a host that keeps answering
  drains the queue.\<close>

theorem aun_rx_collect_progress:
  fixes e :: "'u aun_engine_t" and h :: nat
  assumes "rx_wf e" "rx_is_open e h" "rx_choice (now_ms e) (e_rx e ! h) = Some k"
    and "aun_rx_collect e h accept = (r, e1)"
  shows "rx_budget (rx_queue (e_rx e1 ! h)) < rx_budget (rx_queue (e_rx e ! h)) \<and>
    rx_budget (rx_queue (e_rx e ! h)) \<le> AUN_RX_QUEUE * (AUN_DEFER_RETRIES + 1)"
proof -
  have wf: "h < length (e_rx e)" "condemn_wf (condemned e)"
    using rx_wf_openE [OF assms(1,2)] by blast+
  obtain b1 where b1: "block_wf b1" "k < b_count b1" "rx_queue b1 = rx_queue (e_rx e ! h)"
      "q_at b1 k = rx_queue (e_rx e ! h) ! k"
      "aun_rx_collect e h accept = (AUN_OK, rx_answer e h b1 k accept)"
    using aun_rx_collect_chosen [OF assms(1-3), of accept] by metis
  have "length (rx_queue b1) \<le> AUN_RX_QUEUE" "f_rejects (rx_queue b1 ! k) \<le> AUN_DEFER_RETRIES"
    using b1(1,2) by (auto simp: block_wf_def ring_wf_def list_all_length frame_wf_def)
  moreover from this(1) have "rx_budget (rx_queue b1) \<le> AUN_RX_QUEUE * (AUN_DEFER_RETRIES + 1)"
    using rx_budget_bound [of "rx_queue b1"] by simp
  ultimately show ?thesis
    unfolding b1(3) [symmetric]
    using rx_answer_queue [OF wf(2,1) b1(1,2) refl, of accept] b1(1,2,5) assms(4)
      rx_budget_remove [of k "rx_queue b1"] rx_budget_park [of k "rx_queue b1"] by auto
qed

end
