(* ===== verification/AunTx.thy ===== *)
theory AunTx
  imports AunRx
begin

text \<open>
  The transmit side (\<open>src/src/AUN/aun.c\<close>, section "transmit"), the inbound datagram path
  (section "inbound") and the timers (section "timeouts / retries").
\<close>

section \<open>Transmit\<close>

definition tx_loopback ::
  "'u aun_engine_t \<Rightarrow> mem \<Rightarrow> u8 \<Rightarrow> u8 \<Rightarrow> u8 \<Rightarrow> cbuf \<Rightarrow> nat option \<Rightarrow> nat \<Rightarrow>
   'u aun_engine_t \<times> mem" where
  "tx_loopback e m wire_type ctrl port data reply_buf reply_max =
     (let e1 = e\<lparr>tx := (tx e)\<lparr>t_state := AUN_OK, t_reply_buf := None, t_reply_len := 0\<rparr>\<rparr>;
          (e2, m2) =
            (if wire_type = AUN_TYPE_IMMEDIATE then
               (let n = min reply_max 4
                in (e1\<lparr>tx := (tx e1)\<lparr>t_reply_len := n\<rparr>\<rparr>,
                    copy_to_host m reply_buf (take n (machine_id e1))))
             else if imm4 port ctrl then
               (e1\<lparr>tx := (tx e1)\<lparr>t_reply_len := 0\<rparr>\<rparr>, m)
             else
               (case rx_deliver e1 port ctrl (test_stn e1) (test_net e1) (buf_bytes data) of
                  (None, why, e') \<Rightarrow> (e'\<lparr>tx := (tx e')\<lparr>t_state := AUN_TX_NOT_LISTENING\<rparr>\<rparr>, m)
                | (Some _, why, e') \<Rightarrow> (e', m)));
          k = counters e2
      in (if t_state (tx e2) = AUN_OK then e2\<lparr>counters := k\<lparr>k_tx_ok := k_tx_ok k + 1\<rparr>\<rparr>
          else e2\<lparr>counters := k\<lparr>k_tx_fail := k_tx_fail k + 1\<rparr>\<rparr>, m2))"

definition tx_route :: "'u aun_engine_t \<Rightarrow> u8 \<Rightarrow> u8 \<Rightarrow> (u32 \<times> u16) option" where
  "tx_route e dest_net dest_stn =
     (case map_find_by_addr e dest_net dest_stn of
        Some i \<Rightarrow> Some (m_ip_be (e_map e ! i), m_udp_port (e_map e ! i))
      | None \<Rightarrow> learn_resolve e dest_net dest_stn)"

definition tx_begin ::
  "'u aun_engine_t \<Rightarrow> mem \<Rightarrow> u8 \<Rightarrow> u8 \<Rightarrow> u8 \<Rightarrow> u8 \<Rightarrow> u8 \<Rightarrow> cbuf \<Rightarrow> nat option \<Rightarrow> nat \<Rightarrow>
   u8 \<times> 'u aun_engine_t \<times> mem" where
  "tx_begin e m wire_type dest_net dest_stn ctrl port data reply_buf reply_max =
     (if \<not> initialised e then (AUN_ERR_NOT_READY, e, m)
      else if buf_len data > AUN_MAX_DATA \<or> buf_len data \<noteq> 0 \<and> buf_null data then
        (AUN_ERR_PARAM, e, m)
      else if t_state (tx e) = AUN_STATUS_PENDING then (AUN_TX_BUSY, e, m)
      else if test_enabled e \<and> dest_stn = test_stn e \<and> dest_net = test_net e then
        (let (e1, m1) = tx_loopback e m wire_type ctrl port data reply_buf reply_max
         in (AUN_OK, e1, m1))
      else
        (case tx_route e dest_net dest_stn of
           None \<Rightarrow> (AUN_TX_NO_ROUTE, e, m)
         | Some (dest_ip, dest_port) \<Rightarrow>
             (let t = (tx e)\<lparr>t_wire_type := wire_type, t_seq := next_seq e, t_ip_be := dest_ip,
                        t_udp_port := dest_port,
                        t_datagram := build_header wire_type port ctrl (next_seq e) @ buf_bytes data,
                        t_len := AUN_HDR_SIZE + buf_len data,
                        t_noresp_left := AUN_NORESP_RETRIES,
                        t_reject_left :=
                          (if wire_type = AUN_TYPE_DATA then AUN_REJECT_RETRIES else 0),
                        t_reject_pending := False, t_reply_buf := reply_buf,
                        t_reply_max := reply_max, t_reply_len := 0,
                        t_state := AUN_STATUS_PENDING\<rparr>;
                  (ok, e1) = udp_send (e\<lparr>tx := t, next_seq := next_seq e + 4\<rparr>) (t_ip_be t)
                               (t_udp_port t) (t_datagram t)
              in if \<not> ok then
                   (AUN_OK, e1\<lparr>tx := (tx e1)\<lparr>t_state := AUN_TX_NET_ERROR\<rparr>,
                               counters := (counters e1)
                                 \<lparr>k_tx_fail := k_tx_fail (counters e1) + 1\<rparr>\<rparr>, m)
                 else
                   (AUN_OK, e1\<lparr>tx := (tx e1)
                                 \<lparr>t_deadline_ms := now_ms e1 + AUN_NORESP_TIMEOUT_MS\<rparr>\<rparr>, m))))"

definition aun_tx_start ::
  "'u aun_engine_t \<Rightarrow> mem \<Rightarrow> u8 \<Rightarrow> u8 \<Rightarrow> u8 \<Rightarrow> u8 \<Rightarrow> cbuf \<Rightarrow> u8 \<times> 'u aun_engine_t \<times> mem" where
  "aun_tx_start e m dest_net dest_stn ctrl port data =
     tx_begin e m AUN_TYPE_DATA dest_net dest_stn ctrl port data None 0"

text \<open>A Poke carries \<open>[start][data]\<close>; the wire wants the byte count spliced in.\<close>

definition poke_splice :: "u8 list \<Rightarrow> u8 list" where
  "poke_splice d = take 4 d @ wr32le (of_nat (length d - 4)) @ drop 4 d"

definition aun_immediate ::
  "'u aun_engine_t \<Rightarrow> mem \<Rightarrow> u8 \<Rightarrow> u8 \<Rightarrow> u8 \<Rightarrow> cbuf \<Rightarrow> nat option \<Rightarrow> nat \<Rightarrow>
   u8 \<times> 'u aun_engine_t \<times> mem" where
  "aun_immediate e m dest_net dest_stn ctrl data reply_buf reply_max =
     (let c = ctrl AND 0x7F
      in if AUN_CTRL_IMM4_FIRST \<le> c \<and> c \<le> AUN_CTRL_IMM4_LAST then
           (if c = AUN_CTRL_POKE then
              (if buf_null data \<or> buf_len data < 4 \<or> buf_len data > AUN_MAX_DATA - 4 then
                 (AUN_ERR_PARAM, e, m)
               else tx_begin e m AUN_TYPE_DATA dest_net dest_stn ctrl 0
                      (Bytes (poke_splice (buf_bytes data))) None 0)
            else tx_begin e m AUN_TYPE_DATA dest_net dest_stn ctrl 0 data None 0)
         else tx_begin e m AUN_TYPE_IMMEDIATE dest_net dest_stn ctrl 0 data reply_buf reply_max)"

definition aun_broadcast :: "'u aun_engine_t \<Rightarrow> u8 \<Rightarrow> u8 \<Rightarrow> cbuf \<Rightarrow> u8 \<times> 'u aun_engine_t" where
  "aun_broadcast e ctrl port data =
     (if \<not> initialised e then (AUN_ERR_NOT_READY, e)
      else if buf_len data > AUN_MAX_DATA \<or> buf_len data \<noteq> 0 \<and> buf_null data then
        (AUN_ERR_PARAM, e)
      else
        (let dgram = build_header AUN_TYPE_BROADCAST port ctrl (next_seq e) @ buf_bytes data;
             e1 = e\<lparr>next_seq := next_seq e + 4\<rparr>;
             e2 = fold (\<lambda>p e'. snd (udp_send e' (m_ip_be p) (m_udp_port p) dgram)) (e_map e1) e1;
             e3 = (if broadcast_ip_be e2 \<noteq> 0
                   then snd (udp_send e2 (broadcast_ip_be e2) AUN_DEFAULT_UDP_PORT dgram) else e2)
         in (AUN_OK, e3)))"

definition aun_tx_status :: "'u aun_engine_t \<Rightarrow> u8" where
  "aun_tx_status e = t_state (tx e)"

definition aun_tx_reply_len :: "'u aun_engine_t \<Rightarrow> nat" where
  "aun_tx_reply_len e = t_reply_len (tx e)"

section \<open>Inbound\<close>

definition rd16le :: "u8 \<Rightarrow> u8 \<Rightarrow> u16" where
  "rd16le lo hi = ucast lo OR push_bit 8 (ucast hi)"

definition himm_len_ok :: "u8 \<Rightarrow> u8 list \<Rightarrow> bool" where
  "himm_len_ok ctrl data =
     (if ctrl = 1 then
        (if length data < 6 then False
         else (let st = rd16le (data ! 0) (data ! 1); en = rd16le (data ! 4) (data ! 5)
               in en \<ge> st \<and> unat en - unat st \<le> AUN_HIMM_MAX))
      else if ctrl = 2 then length data \<ge> 4
      else if ctrl = 3 \<or> ctrl = 4 \<or> ctrl = 5 then length data \<ge> 2 \<and> length data \<le> 4 + 386
      else True)"

definition himm_hold ::
  "'u aun_engine_t \<Rightarrow> bool \<Rightarrow> u32 \<Rightarrow> u16 \<Rightarrow> u8 \<Rightarrow> u32 \<Rightarrow> u8 list \<Rightarrow> 'u aun_engine_t" where
  "himm_hold e from_data ip sp ctrl s data =
     e\<lparr>himm := (himm e)\<lparr>h_gen := h_gen (himm e) + 1, h_active := True, h_from_data := from_data,
         h_ctrl := ctrl, h_seq := s, h_ip_be := ip, h_port := sp, h_len := length data,
         h_due_ms := now_ms e + AUN_HIMM_TIMEOUT_MS, h_data := data\<rparr>\<rparr>"

definition himm_cached :: "'u aun_engine_t \<Rightarrow> bool \<Rightarrow> u32 \<Rightarrow> u16 \<Rightarrow> u32 \<Rightarrow> bool" where
  "himm_cached e from_data ip sp s \<longleftrightarrow>
     (let c = himm_cache e
      in hc_valid c \<and> hc_from_data c = from_data \<and> \<not> ms_reached (now_ms e) (hc_due_ms c) \<and>
         hc_ip_be c = ip \<and> hc_port c = sp \<and> hc_seq c = s)"

definition count_rx_imm :: "'u aun_engine_t \<Rightarrow> 'u aun_engine_t" where
  "count_rx_imm e = e\<lparr>counters := (counters e)\<lparr>k_rx_imm := k_rx_imm (counters e) + 1\<rparr>\<rparr>"

definition count_replay :: "'u aun_engine_t \<Rightarrow> 'u aun_engine_t" where
  "count_replay e = e\<lparr>counters := (counters e)\<lparr>k_himm_replay := k_himm_replay (counters e) + 1\<rparr>\<rparr>"

text \<open>
  \<open>hold_len = dlen - 4u\<close> wraps for a short Poke; the wrap-around is written out.  The length
  test has refused such a Poke before \<open>hold_len\<close> is used.
\<close>

definition rx_imm4_data ::
  "'u aun_engine_t \<Rightarrow> u32 \<Rightarrow> u16 \<Rightarrow> u8 \<Rightarrow> u32 \<Rightarrow> u8 list \<Rightarrow> 'u aun_engine_t" where
  "rx_imm4_data e0 ip sp ctrl s data =
     (let e = count_rx_imm e0;
          dlen = length data;
          hold_len = (if ctrl = AUN_CTRL_POKE then (dlen + (2 ^ 32 - 4)) mod 2 ^ 32 else dlen);
          ok = (host_imm_enabled e \<and>
                (if ctrl = AUN_CTRL_POKE then dlen \<ge> 8 else himm_len_ok ctrl data))
      in if \<not> ok \<or> hold_len > AUN_HIMM_MAX then
           send_ack_nak e ip sp AUN_TYPE_NAK 0 ctrl s
         else if himm_cached e True ip sp s then
           count_replay (send_ack_nak e ip sp
             (if hc_is_nak (himm_cache e) then AUN_TYPE_NAK else AUN_TYPE_ACK) 0 ctrl s)
         else if h_active (himm e) then e
         else himm_hold e True ip sp ctrl s
                (if ctrl = AUN_CTRL_POKE then take 4 data @ drop 8 data else data))"

definition rx_immediate ::
  "'u aun_engine_t \<Rightarrow> u32 \<Rightarrow> u16 \<Rightarrow> u8 \<Rightarrow> u8 \<Rightarrow> u32 \<Rightarrow> u8 list \<Rightarrow> 'u aun_engine_t" where
  "rx_immediate e0 ip sp port ctrl s data =
     (let e = count_rx_imm e0
      in if ctrl = AUN_CTRL_MACHINE_PEEK then send_imm_reply e ip sp ctrl s (machine_id e)
         else if host_imm_enabled e \<and> length data \<le> AUN_HIMM_MAX \<and> himm_len_ok ctrl data then
           (if h_active (himm e) then
              (if \<not> (h_ip_be (himm e) = ip \<and> h_port (himm e) = sp \<and> h_seq (himm e) = s)
               then send_ack_nak e ip sp AUN_TYPE_NAK port ctrl s else e)
            else if himm_cached e False ip sp s then
              count_replay
                (if hc_is_nak (himm_cache e) then send_ack_nak e ip sp AUN_TYPE_NAK port ctrl s
                 else (let c = himm_cache e
                       in send_imm_reply e (hc_ip_be c) (hc_port c) (hc_ctrl c) (hc_seq c)
                            (take (hc_len c) (hc_data c))))
            else himm_hold e False ip sp ctrl s data)
         else send_ack_nak e ip sp AUN_TYPE_NAK port ctrl s)"

definition rx_ack_nak :: "'u aun_engine_t \<Rightarrow> u32 \<Rightarrow> u16 \<Rightarrow> u8 \<Rightarrow> u32 \<Rightarrow> 'u aun_engine_t" where
  "rx_ack_nak e ip sp ty s =
     (let t = tx e; k = counters e
      in if t_state t = AUN_STATUS_PENDING \<and> s = t_seq t \<and> ip = t_ip_be t \<and> sp = t_udp_port t then
           (if ty = AUN_TYPE_NAK then
              (if t_reject_left t > 0 then
                 e\<lparr>tx := t\<lparr>t_reject_left := t_reject_left t - 1, t_reject_pending := True,
                            t_deadline_ms := now_ms e + AUN_REJECT_TIMEOUT_MS\<rparr>\<rparr>
               else
                 e\<lparr>tx := t\<lparr>t_state := AUN_TX_NOT_LISTENING\<rparr>,
                   counters := k\<lparr>k_tx_fail := k_tx_fail k + 1\<rparr>\<rparr>)
            else if t_wire_type t = AUN_TYPE_DATA then
              e\<lparr>tx := t\<lparr>t_state := AUN_OK\<rparr>, counters := k\<lparr>k_tx_ok := k_tx_ok k + 1\<rparr>\<rparr>
            else e)
         else e)"

definition rx_imm_reply ::
  "'u aun_engine_t \<Rightarrow> mem \<Rightarrow> u32 \<Rightarrow> u16 \<Rightarrow> u32 \<Rightarrow> u8 list \<Rightarrow> 'u aun_engine_t \<times> mem" where
  "rx_imm_reply e m ip sp s data =
     (let t = tx e; k = counters e
      in if t_state t = AUN_STATUS_PENDING \<and> s = t_seq t \<and> ip = t_ip_be t \<and>
            sp = t_udp_port t \<and> t_wire_type t = AUN_TYPE_IMMEDIATE then
           (let n = min (length data) (t_reply_max t)
            in (e\<lparr>tx := t\<lparr>t_reply_len := n, t_state := AUN_OK\<rparr>,
                  counters := k\<lparr>k_tx_ok := k_tx_ok k + 1\<rparr>\<rparr>,
                copy_to_host m (t_reply_buf t) (take n data)))
         else (e, m))"

text \<open>
  An inbound DATA frame that is no 4-way immediate: attribute the source, drop a retransmission
  of a queued frame, re-acknowledge one of a collected frame, else queue it.  The result carries
  the verdict for the trace hook.
\<close>

definition rx_data_source :: "'u aun_engine_t \<Rightarrow> u32 \<Rightarrow> u16 \<Rightarrow> nat option \<times> 'u aun_engine_t" where
  "rx_data_source e ip sp =
     (case map_find_by_ip e ip sp of
        Some i \<Rightarrow> (Some i, e)
      | None \<Rightarrow>
          (case learn_attribute e ip sp of
             None \<Rightarrow> (None, e)
           | Some (lnet, lstn) \<Rightarrow>
               (let e1 = snd (aun_map_add e lnet lstn ip sp) in (map_find_by_ip e1 ip sp, e1))))"

definition rx_data_verdict ::
  "'u aun_engine_t \<Rightarrow> u32 \<Rightarrow> u16 \<Rightarrow> u8 \<Rightarrow> u8 \<Rightarrow> u32 \<Rightarrow> u8 list \<Rightarrow> u8 \<times> 'u aun_engine_t" where
  "rx_data_verdict e0 ip sp port ctrl s data =
     (let (src, e) = rx_data_source e0 ip sp; k = counters e
      in case src of
           None \<Rightarrow>
             (AUN_RXV_NOSRC, e\<lparr>counters := k\<lparr>k_rx_unknown_source := k_rx_unknown_source k + 1\<rparr>\<rparr>)
         | Some i \<Rightarrow>
             (let me = e_map e ! i
              in if rx_seq_pending e ip sp s then
                   (AUN_RXV_REDUP, e\<lparr>counters := k\<lparr>k_rx_dup := k_rx_dup k + 1\<rparr>\<rparr>)
                 else if m_seq_valid me \<and> s = m_last_rx_seq me then
                   (AUN_RXV_REDUP,
                    send_ack_nak (e\<lparr>counters := k\<lparr>k_rx_dup := k_rx_dup k + 1\<rparr>\<rparr>)
                      ip sp AUN_TYPE_ACK port ctrl s)
                 else
                   (case rx_deliver e port ctrl (m_stn me) (m_net me) data of
                      (Some (bi, slot), why, e1) \<Rightarrow>
                        (let b = e_rx e1 ! bi;
                             f = (b_q b ! slot)\<lparr>f_seq := s, f_src_ip_be := ip, f_src_port := sp\<rparr>;
                             e2 = set_rx e1 bi (b\<lparr>b_q := (b_q b)[slot := f]\<rparr>);
                             k2 = counters e2
                         in (AUN_RXV_ACK, e2\<lparr>counters := k2\<lparr>k_rx_data := k_rx_data k2 + 1\<rparr>\<rparr>))
                    | (None, why, e1) \<Rightarrow>
                        if why = AUN_RXV_FULL then
                          (AUN_RXV_FULL, e1\<lparr>counters := (counters e1)
                             \<lparr>k_rx_full := k_rx_full (counters e1) + 1\<rparr>\<rparr>)
                        else
                          (AUN_RXV_NAK, send_ack_nak e1 ip sp AUN_TYPE_NAK port ctrl s))))"

definition dbg_match :: "u32 \<Rightarrow> u16 \<Rightarrow> u8 \<Rightarrow> aun_dbg_prev_t \<Rightarrow> bool" where
  "dbg_match ip sp port p \<longleftrightarrow>
     p_valid p \<and> p_ip_be p = ip \<and> p_udp_port p = sp \<and> p_aun_port p = port"

definition rx_trace ::
  "'u aun_engine_t \<Rightarrow> nat option \<Rightarrow> bool \<Rightarrow> u32 \<Rightarrow> u16 \<Rightarrow> u8 \<Rightarrow> u32 \<Rightarrow> u8 \<Rightarrow> u8 list \<Rightarrow>
   'u aun_engine_t" where
  "rx_trace e dp same ip sp port s verdict data =
     (case trace_fn e of
        None \<Rightarrow> e
      | Some fn \<Rightarrow>
          (let tr = transport e;
               e1 = e\<lparr>transport := tr
                 \<lparr>tr_user := fn (tr_user tr) s port (length data) verdict same data\<rparr>\<rparr>
           in if length data \<noteq> 0 \<and> length data \<le> AUN_MAX_DATA then
                (let (i, nxt) = (case dp of Some i \<Rightarrow> (i, dbg_prev_next e1)
                    | None \<Rightarrow> (dbg_prev_next e1, (dbg_prev_next e1 + 1) mod AUN_DBG_PREV_SLOTS))
                 in e1\<lparr>dbg_prev_next := nxt,
                       dbg_prev := (dbg_prev e1)[i := \<lparr>p_valid = True, p_ip_be = ip,
                         p_udp_port = sp, p_aun_port = port, p_len = length data,
                         p_hash = dbg_hash data\<rparr>]\<rparr>)
              else e1))"

definition rx_data ::
  "'u aun_engine_t \<Rightarrow> u32 \<Rightarrow> u16 \<Rightarrow> u8 \<Rightarrow> u8 \<Rightarrow> u32 \<Rightarrow> u8 list \<Rightarrow> 'u aun_engine_t" where
  "rx_data e ip sp port ctrl s data =
     (let dp = (if trace_fn e = None then None
                else find_index (dbg_match ip sp port) (dbg_prev e));
          same = (case dp of None \<Rightarrow> False
                  | Some i \<Rightarrow> data \<noteq> [] \<and> length data = p_len (dbg_prev e ! i) \<and>
                             dbg_hash data = p_hash (dbg_prev e ! i));
          (verdict, e1) = rx_data_verdict e ip sp port ctrl s data
      in rx_trace e1 dp same ip sp port s verdict data)"

definition rx_broadcast ::
  "'u aun_engine_t \<Rightarrow> u32 \<Rightarrow> u16 \<Rightarrow> u8 \<Rightarrow> u8 \<Rightarrow> u8 list \<Rightarrow> 'u aun_engine_t" where
  "rx_broadcast e ip sp port ctrl data =
     (let (s, n) = (case map_find_by_ip e ip sp of
                      Some i \<Rightarrow> (m_stn (e_map e ! i), m_net (e_map e ! i))
                    | None \<Rightarrow> (0, 0))
      in case rx_deliver e port ctrl s n data of
           (Some _, why, e1) \<Rightarrow>
             e1\<lparr>counters := (counters e1)\<lparr>k_rx_broadcast := k_rx_broadcast (counters e1) + 1\<rparr>\<rparr>
         | (None, why, e1) \<Rightarrow> e1)"

definition count_rx_bad :: "'u aun_engine_t \<Rightarrow> 'u aun_engine_t" where
  "count_rx_bad e = e\<lparr>counters := (counters e)\<lparr>k_rx_bad := k_rx_bad (counters e) + 1\<rparr>\<rparr>"

definition aun_udp_input ::
  "'u aun_engine_t \<Rightarrow> mem \<Rightarrow> u32 \<Rightarrow> u16 \<Rightarrow> u8 list \<Rightarrow> 'u aun_engine_t \<times> mem" where
  "aun_udp_input e m ip sp buf =
     (if \<not> initialised e \<or> length buf < AUN_HDR_SIZE then (count_rx_bad e, m)
      else
        (let ty = buf ! 0; port = buf ! 1; ctrl = buf ! 2 AND 0x7F; s = rd32le (drop 4 buf);
             data = drop AUN_HDR_SIZE buf
         in if ty = AUN_TYPE_ACK \<or> ty = AUN_TYPE_NAK then (rx_ack_nak e ip sp ty s, m)
            else if ty = AUN_TYPE_IMM_REPLY then rx_imm_reply e m ip sp s data
            else if ty = AUN_TYPE_DATA then
              (if imm4 port ctrl then (rx_imm4_data e ip sp ctrl s data, m)
               else (rx_data e ip sp port ctrl s data, m))
            else if ty = AUN_TYPE_BROADCAST then (rx_broadcast e ip sp port ctrl data, m)
            else if ty = AUN_TYPE_IMMEDIATE then (rx_immediate e ip sp port ctrl s data, m)
            else (count_rx_bad e, m)))"

section \<open>Timeouts and retries\<close>

definition poll_himm :: "'u aun_engine_t \<Rightarrow> 'u aun_engine_t" where
  "poll_himm e =
     (if h_active (himm e) \<and> ms_reached (now_ms e) (h_due_ms (himm e)) then
        (let h = himm e;
             e1 = send_ack_nak e (h_ip_be h) (h_port h) AUN_TYPE_NAK 0 (h_ctrl h) (h_seq h);
             e2 = himm_cache_store e1 True []
         in e2\<lparr>himm := (himm e2)\<lparr>h_active := False\<rparr>,
               counters := (counters e2)\<lparr>k_himm_timeout := k_himm_timeout (counters e2) + 1\<rparr>\<rparr>)
      else e)"

definition tx_fail :: "'u aun_engine_t \<Rightarrow> u8 \<Rightarrow> 'u aun_engine_t" where
  "tx_fail e code =
     e\<lparr>tx := (tx e)\<lparr>t_state := code\<rparr>,
       counters := (counters e)\<lparr>k_tx_fail := k_tx_fail (counters e) + 1\<rparr>\<rparr>"

definition tx_resend :: "'u aun_engine_t \<Rightarrow> 'u aun_engine_t" where
  "tx_resend e =
     (let t = tx e; (ok, e1) = udp_send e (t_ip_be t) (t_udp_port t) (t_datagram t)
      in if \<not> ok then tx_fail e1 AUN_TX_NET_ERROR
         else e1\<lparr>tx := (tx e1)\<lparr>t_deadline_ms := now_ms e1 + AUN_NORESP_TIMEOUT_MS\<rparr>\<rparr>)"

definition aun_poll :: "'u aun_engine_t \<Rightarrow> 'u aun_engine_t" where
  "aun_poll e0 =
     (if \<not> initialised e0 then e0
      else
        (let e = poll_himm e0
         in if t_state (tx e) \<noteq> AUN_STATUS_PENDING then e
            else if \<not> ms_reached (now_ms e) (t_deadline_ms (tx e)) then e
            else if t_reject_pending (tx e) then
              tx_resend (e\<lparr>tx := (tx e)\<lparr>t_reject_pending := False\<rparr>\<rparr>)
            else if t_noresp_left (tx e) = 0 then tx_fail e AUN_TX_NOT_LISTENING
            else tx_resend (e\<lparr>tx := (tx e)\<lparr>t_noresp_left := t_noresp_left (tx e) - 1\<rparr>\<rparr>)))"

end
