(* ===== verification/AunInvariant.thy ===== *)
theory AunInvariant
  imports AunReceive AunTx
begin

text \<open>
  The invariant of the AUN engine and its preservation by every public operation of
  \<open>aun.c\<close>: the receive blocks are well formed, no two queued frames of the network carry the
  same sender and sequence number, the station map has no two entries for one station, and every
  stored length is bounded by its buffer.
\<close>

section \<open>The invariant\<close>

text \<open>The identity by which a sender's retransmission is recognised.\<close>

definition frame_id :: "aun_rx_frame_t \<Rightarrow> u32 \<times> u16 \<times> u32" where
  "frame_id f = (f_src_ip_be f, f_src_port f, f_seq f)"

definition block_ids :: "aun_rx_block_t \<Rightarrow> (u32 \<times> u16 \<times> u32) list" where
  "block_ids b = map frame_id (filter (\<lambda>f. f_src_ip_be f \<noteq> 0) (rx_queue b))"

definition queued_ids :: "'u aun_engine_t \<Rightarrow> (u32 \<times> u16 \<times> u32) list" where
  "queued_ids e = concat (map block_ids (e_rx e))"

definition map_wf :: "aun_map_entry_t list \<Rightarrow> bool" where
  "map_wf ms \<longleftrightarrow> length ms \<le> AUN_MAP_MAX \<and> distinct (map (\<lambda>m. (m_net m, m_stn m)) ms)"

definition tx_wf :: "aun_tx_t \<Rightarrow> bool" where
  "tx_wf t \<longleftrightarrow> t_len t = length (t_datagram t) \<and> t_len t \<le> AUN_HDR_SIZE + AUN_MAX_DATA \<and>
     t_reject_left t \<le> AUN_REJECT_RETRIES \<and> t_noresp_left t \<le> AUN_NORESP_RETRIES \<and>
     (t_state t = AUN_STATUS_PENDING \<longrightarrow> AUN_HDR_SIZE \<le> t_len t)"

definition himm_wf :: "aun_host_imm_t \<Rightarrow> bool" where
  "himm_wf h \<longleftrightarrow> h_len h = length (h_data h) \<and> h_len h \<le> AUN_HIMM_MAX"

definition cache_wf :: "aun_himm_cache_t \<Rightarrow> bool" where
  "cache_wf c \<longleftrightarrow> hc_len c \<le> length (hc_data c) \<and> length (hc_data c) \<le> AUN_HIMM_MAX"

definition aun_wf :: "'u aun_engine_t \<Rightarrow> bool" where
  "aun_wf e \<longleftrightarrow> rx_wf e \<and> distinct (queued_ids e) \<and> map_wf (e_map e) \<and> tx_wf (tx e) \<and>
     himm_wf (himm e) \<and> cache_wf (himm_cache e) \<and> length (machine_id e) = 4 \<and>
     length (dbg_prev e) = AUN_DBG_PREV_SLOTS \<and> dbg_prev_next e < AUN_DBG_PREV_SLOTS"

section \<open>Queued frames are distinct\<close>

lemma distinct_concat_update:
  assumes "distinct (concat xss)" "h < length xss" "distinct ys" "set ys \<inter> set (concat xss) \<subseteq> set (xss ! h)"
  shows "distinct (concat (xss[h := ys]))"
  using assms
proof (induction xss arbitrary: h)
  case (Cons xs xss)
  show ?case
  proof (cases h)
    case (Suc k)
    with Cons.prems have "set (xss ! k) \<subseteq> \<Union> (set ` set xss)" by auto
    with Cons.prems Suc have "set ys \<inter> set xs = {}" by (auto 0 3)
    moreover have "distinct (concat (xss[k := ys]))"
      using Cons.prems Suc by (intro Cons.IH) auto
    moreover have "\<Union> (set ` set (xss[k := ys])) \<subseteq> set ys \<union> \<Union> (set ` set xss)"
      using set_update_subset_insert [of xss k ys] by auto
    moreover have "set xs \<inter> \<Union> (set ` set xss) = {}" "distinct xs" using Cons.prems by simp_all
    ultimately have "set xs \<inter> \<Union> (set ` set (xss[k := ys])) = {}"
      by blast
    with \<open>distinct xs\<close> \<open>distinct (concat (xss[k := ys]))\<close> Suc show ?thesis by simp
  qed (use Cons.prems in auto)
qed simp

lemma queued_ids_set_rx:
  "queued_ids (set_rx e h b) = concat ((map block_ids (e_rx e))[h := block_ids b])"
  by (simp add: queued_ids_def map_update)

lemma distinct_queued_shrink:
  assumes "distinct (queued_ids e)" "h < length (e_rx e)" "distinct (block_ids b)"
    "set (block_ids b) \<subseteq> set (block_ids (e_rx e ! h))"
  shows "distinct (queued_ids (set_rx e h b))"
  unfolding queued_ids_set_rx
  by (rule distinct_concat_update) (use assms in \<open>auto simp: queued_ids_def\<close>)

lemma distinct_block_ids:
  "distinct (queued_ids e) \<Longrightarrow> h < length (e_rx e) \<Longrightarrow> distinct (block_ids (e_rx e ! h))"
  unfolding queued_ids_def by (metis distinct_concat_iff length_map nth_map nth_mem)

lemma block_ids_remove:
  assumes "rx_queue b1 = take k (rx_queue b) @ drop (Suc k) (rx_queue b)" "k < b_count b"
  shows "distinct (block_ids b) \<longrightarrow> distinct (block_ids b1)" "set (block_ids b1) \<subseteq> set (block_ids b)"
proof -
  have "block_ids b = map frame_id (filter (\<lambda>f. f_src_ip_be f \<noteq> 0)
      (take k (rx_queue b) @ rx_queue b ! k # drop (Suc k) (rx_queue b)))"
    unfolding block_ids_def using id_take_nth_drop [of k "rx_queue b"] assms(2) by simp
  then show "distinct (block_ids b) \<longrightarrow> distinct (block_ids b1)" "set (block_ids b1) \<subseteq> set (block_ids b)"
    unfolding block_ids_def assms(1) by (auto simp del: append_take_drop_id)
qed

lemma block_ids_update:
  assumes "rx_queue b1 = (rx_queue b)[k := g]" "k < b_count b" "frame_id g = frame_id (rx_queue b ! k)"
  shows "block_ids b1 = block_ids b"
proof -
  have q: "rx_queue b = take k (rx_queue b) @ rx_queue b ! k # drop (Suc k) (rx_queue b)"
    using assms(2) by (intro id_take_nth_drop) simp
  have "f_src_ip_be g = f_src_ip_be (rx_queue b ! k)" using assms(3) by (simp add: frame_id_def)
  then show ?thesis
    unfolding block_ids_def assms(1) using assms(2,3)
    by (subst (2) q) (simp add: upd_conv_take_nth_drop del: append_take_drop_id)
qed

lemma block_ids_put:
  "ring_wf b \<Longrightarrow> b_count b < AUN_RX_QUEUE \<Longrightarrow>
   block_ids (rx_put b f) = block_ids b @ (if f_src_ip_be f = 0 then [] else [frame_id f])"
  by (simp add: block_ids_def rx_queue_put)

lemma rx_seq_pending_ids:
  assumes "rx_wf e" "ip \<noteq> 0"
  shows "rx_seq_pending e ip sp s \<longleftrightarrow> (ip, sp, s) \<in> set (queued_ids e)"
proof -
  have "b_count b = 0" if "b \<in> set (e_rx e)" "\<not> b_open b" for b
    using that assms(1) by (auto simp: rx_wf_def list_all_iff block_wf_def)
  then show ?thesis
    using assms(2) unfolding rx_seq_pending_def queued_ids_def block_ids_def rx_queue_def frame_id_def
    by (fastforce simp: list_ex_iff)
qed

section \<open>Preservation\<close>

lemma aun_wf_frame [simp]:
  "aun_wf (e\<lparr>counters := k\<rparr>) = aun_wf e" "aun_wf (e\<lparr>transport := tr\<rparr>) = aun_wf e"
  "aun_wf (e\<lparr>next_seq := s\<rparr>) = aun_wf e" "aun_wf (e\<lparr>broadcast_ip_be := x\<rparr>) = aun_wf e"
  "aun_wf (e\<lparr>subnet_base_be := x\<rparr>) = aun_wf e" "aun_wf (e\<lparr>subnet_mask_be := x\<rparr>) = aun_wf e"
  "aun_wf (e\<lparr>learn_net := n\<rparr>) = aun_wf e" "aun_wf (e\<lparr>test_enabled := te\<rparr>) = aun_wf e"
  "aun_wf (e\<lparr>test_stn := n\<rparr>) = aun_wf e" "aun_wf (e\<lparr>test_net := n\<rparr>) = aun_wf e"
  "aun_wf (e\<lparr>trace_fn := tf\<rparr>) = aun_wf e" "aun_wf (e\<lparr>host_imm_enabled := te\<rparr>) = aun_wf e"
  by (simp_all add: aun_wf_def rx_wf_def queued_ids_def)

lemma aun_wf_part:
  "aun_wf e \<Longrightarrow> tx_wf t \<Longrightarrow> aun_wf (e\<lparr>tx := t\<rparr>)"
  "aun_wf e \<Longrightarrow> himm_wf hi \<Longrightarrow> aun_wf (e\<lparr>himm := hi\<rparr>)"
  "aun_wf e \<Longrightarrow> cache_wf hc \<Longrightarrow> aun_wf (e\<lparr>himm_cache := hc\<rparr>)"
  "aun_wf e \<Longrightarrow> map_wf ms \<Longrightarrow> aun_wf (e\<lparr>e_map := ms\<rparr>)"
  "aun_wf e \<Longrightarrow> condemn_wf cs \<Longrightarrow> aun_wf (e\<lparr>condemned := cs\<rparr>)"
  by (simp_all add: aun_wf_def rx_wf_def queued_ids_def)

lemma aun_wfD:
  "aun_wf e \<Longrightarrow> rx_wf e" "aun_wf e \<Longrightarrow> map_wf (e_map e)" "aun_wf e \<Longrightarrow> tx_wf (tx e)"
  "aun_wf e \<Longrightarrow> himm_wf (himm e)" "aun_wf e \<Longrightarrow> cache_wf (himm_cache e)"
  "aun_wf e \<Longrightarrow> distinct (queued_ids e)" "aun_wf e \<Longrightarrow> condemn_wf (condemned e)"
  "aun_wf e \<Longrightarrow> length (machine_id e) = 4"
  by (simp_all add: aun_wf_def rx_wf_def)

lemma aun_wf_init: "aun_wf (aun_init tr s n)"
proof -
  have "e_rx (aun_init tr s n) = [rx_block_zero, rx_block_zero]"
    by (simp add: aun_init_def numeral_2_eq_2)
  moreover have "block_ids rx_block_zero = []"
    by (simp add: block_ids_def rx_queue_def rx_block_zero_def)
  ultimately have "rx_wf (aun_init tr s n)" "queued_ids (aun_init tr s n) = []"
    by (simp_all add: rx_wf_def queued_ids_def)
       (simp add: aun_init_def condemn_wf_def condemn_zero_def)
  then show ?thesis
    by (simp add: aun_wf_def)
       (simp add: aun_init_def map_wf_def tx_wf_def tx_zero_def himm_wf_def himm_zero_def
         cache_wf_def himm_cache_zero_def)
qed

lemma map_wf_same_addresses:
  "map (\<lambda>m. (m_net m, m_stn m, m_ip_be m, m_udp_port m)) ms1 =
   map (\<lambda>m. (m_net m, m_stn m, m_ip_be m, m_udp_port m)) ms \<Longrightarrow> map_wf ms1 = map_wf ms"
proof -
  assume eq: "map (\<lambda>m. (m_net m, m_stn m, m_ip_be m, m_udp_port m)) ms1 =
   map (\<lambda>m. (m_net m, m_stn m, m_ip_be m, m_udp_port m)) ms"
  from arg_cong [OF eq, of "map (\<lambda>(n, s, _). (n, s))"] map_eq_imp_length_eq [OF eq] show ?thesis
    by (simp add: map_wf_def comp_def)
qed

lemma aun_wf_map_stamp: "aun_wf e \<Longrightarrow> aun_wf (map_stamp e ip sp s)"
  using map_wf_same_addresses [OF map_stamp_addresses [of e ip sp s]]
  by (simp add: aun_wf_def rx_wf_def queued_ids_def)

lemma aun_wf_send_ack_nak [simp]: "aun_wf (send_ack_nak e ip port ty ap ctrl s) = aun_wf e"
  by (simp add: aun_wf_def rx_wf_def queued_ids_def)

lemma aun_wf_send_imm_reply [simp]: "aun_wf (send_imm_reply e ip port ctrl s d) = aun_wf e"
  by (simp add: send_imm_reply_eq)

lemma aun_wf_map_add: "aun_wf e \<Longrightarrow> aun_wf (snd (aun_map_add e n s ip port))"
proof -
  assume e: "aun_wf e"
  have "map_wf ((e_map e)[i := (e_map e ! i)\<lparr>m_ip_be := a, m_udp_port := p, m_seq_valid := False\<rparr>])"
    if "map_find_by_addr e n s = Some i" for i a p
  proof -
    have "map (\<lambda>m. (m_net m, m_stn m)) ((e_map e)
        [i := (e_map e ! i)\<lparr>m_ip_be := a, m_udp_port := p, m_seq_valid := False\<rparr>]) =
        map (\<lambda>m. (m_net m, m_stn m)) (e_map e)"
      using map_find_by_addr_SomeD [OF that]
      by (intro nth_equalityI) (auto simp: nth_list_update)
    with aun_wfD(2) [OF e] show ?thesis by (simp add: map_wf_def)
  qed
  moreover have "(n, s) \<notin> (\<lambda>m. (m_net m, m_stn m)) ` set (e_map e)" if "map_find_by_addr e n s = None"
    using that by (auto simp: map_find_by_addr_def find_index_None)
  ultimately show ?thesis
    using e aun_wfD(2) [OF e]
    by (auto simp: aun_map_add_def Let_def map_wf_def intro!: aun_wf_part split: option.split)
qed

lemma aun_wf_set_rx:
  assumes "aun_wf e" "h < length (e_rx e)" "block_wf b" "distinct (block_ids b)"
    "set (block_ids b) \<subseteq> set (block_ids (e_rx e ! h))"
  shows "aun_wf (set_rx e h b)"
  using assms distinct_queued_shrink [of e h b] rx_wf_set_rx [of e b h]
  by (simp add: aun_wf_def)

lemma aun_wf_set_rx_same:
  assumes "aun_wf e" "h < length (e_rx e)" "block_wf b" "rx_queue b = rx_queue (e_rx e ! h)"
  shows "aun_wf (set_rx e h b)"
  using assms aun_wf_set_rx [of e h b] distinct_block_ids [of e h]
  by (simp add: block_ids_def aun_wf_def)

lemma aun_wf_accept_frame: "aun_wf e \<Longrightarrow> aun_wf (rx_accept_frame e f)"
proof (cases "f_src_ip_be f = 0")
  case False
  assume "aun_wf e"
  with False rx_wf_accept_frame [of e f] map_wf_same_addresses [OF map_stamp_addresses
        [of e "f_src_ip_be f" "f_src_port f" "f_seq f"]] show ?thesis
    by (auto simp: aun_wf_def queued_ids_def e_map_rx_accept_frame)
qed (simp add: rx_accept_frame_def)

lemma aun_wf_shed_frame: "aun_wf e \<Longrightarrow> aun_wf (rx_shed_frame e f)"
  using rx_wf_shed_frame [of e f] map_wf_same_addresses [OF map_stamp_addresses
        [of e "f_src_ip_be f" "f_src_port f" "f_seq f"]]
  by (auto simp: aun_wf_def queued_ids_def e_map_rx_shed_frame)


lemma aun_wf_poll_rx: "aun_wf e \<Longrightarrow> aun_wf (fst (snd (snd (aun_rx_poll e m h))))"
proof (cases "rx_is_open e h \<and> \<not> b_presented (e_rx e ! h)")
  case True
  assume e: "aun_wf e"
  then have rx: "rx_wf (fst (snd (snd (aun_rx_poll e m h))))" by (simp add: aun_wfD rx_wf_poll)
  from True e have b: "block_wf (e_rx e ! h)" "h < length (e_rx e)"
    using rx_wfD [OF aun_wfD(1)] by auto
  from True b obtain b1 where r: "refreshes (now_ms e) (e_rx e ! h) b1" and
    c: "aun_rx_poll e m h = rx_poll_result e m h b1"
    using aun_rx_poll_choice by blast
  have "fst (snd (snd (aun_rx_poll e m h))) = set_rx e h
      (case rx_choice (now_ms e) (e_rx e ! h) of
         None \<Rightarrow> b1 | Some k \<Rightarrow> b1\<lparr>b_pres_off := k, b_presented := True\<rparr>)"
    using c by (simp split: option.split)
  then obtain b2 where "fst (snd (snd (aun_rx_poll e m h))) = set_rx e h b2"
      "rx_queue b2 = rx_queue (e_rx e ! h)"
    using refreshes_fields [OF r] by (simp split: option.splits)
  moreover from this rx have "block_wf b2"
    using b(2) by (auto simp: rx_wf_def list_all_length)
  ultimately show ?thesis using e b by (simp add: aun_wf_set_rx_same)
qed (auto simp: aun_rx_poll_def Let_def)

lemma aun_wf_ready: "aun_wf e \<Longrightarrow> aun_wf (snd (aun_rx_ready e h))"
proof (cases "rx_is_open e h")
  case True
  assume e: "aun_wf e"
  with True have b: "block_wf (e_rx e ! h)" "h < length (e_rx e)"
    using rx_wfD [OF aun_wfD(1)] by auto
  have r: "refreshes (now_ms e) (e_rx e ! h) (snd (rx_ready_loop (now_ms e) (e_rx e ! h) [0..<b_count (e_rx e ! h)] 0))"
    using rx_ready_loop_wf [OF block_wf_defer [OF b(1)]] by blast
  with True e b show ?thesis
    using refreshes_fields [OF r] block_wf_refreshes [OF b(1) r]
    by (simp add: aun_rx_ready_def Let_def case_prod_beta aun_wf_set_rx_same)
qed (simp add: aun_rx_ready_def)

lemma block_ids_empty: "b_count b = 0 \<Longrightarrow> block_ids b = []"
  by (simp add: block_ids_def rx_queue_def)

lemma aun_wf_open: "aun_wf e \<Longrightarrow> aun_wf (snd (aun_rx_open e h port s n buf sz))"
proof (cases "initialised e \<and> h < AUN_RX_BLOCKS \<and> buf \<noteq> None \<and> sz \<noteq> 0")
  case True
  let ?b = "rx_block_zero\<lparr>b_open := True, b_port := port, b_stn := s, b_net := n, b_buf := buf, b_buf_size := sz\<rparr>"
  assume e: "aun_wf e"
  with True have "block_wf ?b" "block_ids ?b = []" "h < length (e_rx e)"
    using rx_wf_open [OF aun_wfD(1) [OF e], of h port s n buf sz]
    by (auto simp: aun_rx_open_def rx_wf_def list_all_length aun_wf_def
        block_ids_def rx_queue_def rx_block_zero_def)
  with e True show ?thesis by (simp add: aun_rx_open_def aun_wf_set_rx)
qed (auto simp: aun_rx_open_def)

lemma aun_wf_close: "aun_wf e \<Longrightarrow> aun_wf (snd (aun_rx_close e h))"
  using block_ids_empty [of rx_block_zero] rx_wfD [of e h]
  by (auto simp: aun_rx_close_def aun_wf_set_rx aun_wfD(1) rx_block_zero_def [THEN arg_cong, of b_count])

lemma aun_wf_rx_answer_queue:
  assumes "aun_wf e" "h < length (e_rx e)" "block_wf b" "k < b_count b"
    "rx_queue b = rx_queue (e_rx e ! h)"
  shows "distinct (block_ids (e_rx (rx_answer e h b k accept) ! h)) \<and>
    set (block_ids (e_rx (rx_answer e h b k accept) ! h)) \<subseteq> set (block_ids (e_rx e ! h))"
proof -
  let ?b1 = "e_rx (rx_answer e h b k accept) ! h" and ?f = "q_at b k"
  have ids: "block_ids b = block_ids (e_rx e ! h)" using assms(5) by (simp add: block_ids_def)
  have d: "distinct (block_ids b)" using assms(1,2) ids by (simp add: distinct_block_ids aun_wfD)
  have "frame_id (?f\<lparr>f_rejects := n\<rparr>) = frame_id ?f" for n by (simp add: frame_id_def)
  then show ?thesis
    using rx_answer_queue [OF aun_wfD(7) [OF assms(1)] assms(2-4) refl, of accept]
      block_ids_remove [of ?b1 k b] block_ids_update [of ?b1 b k] assms(4) d ids by auto
qed

lemma rx_answer_form:
  assumes "aun_wf e"
  shows "\<exists>e1 b1 k1. rx_answer e h b k accept = (set_rx e1 h b1)\<lparr>counters := k1\<rparr> \<and>
    aun_wf e1 \<and> e_rx e1 = e_rx e"
proof -
  let ?f = "q_at b k"
  let ?budget = "if stream_condemned (now_ms e) (condemned e) ?f then AUN_CONDEMN_RETRIES else AUN_DEFER_RETRIES"
  note cw = aun_wfD(7) [OF assms]
  consider "accept" | "\<not> accept" "f_src_ip_be ?f = 0"
    | "\<not> accept" "f_src_ip_be ?f \<noteq> 0" "f_rejects ?f < ?budget"
    | "\<not> accept" "f_src_ip_be ?f \<noteq> 0" "\<not> f_rejects ?f < ?budget" by blast
  then show ?thesis
  proof cases
    case 1
    let ?X = "rx_accept_frame e ?f" and ?b = "(rx_remove_at b k)\<lparr>b_presented := False\<rparr>"
    have "rx_answer e h b k accept = (set_rx ?X h ?b)\<lparr>counters := counters (set_rx ?X h ?b)\<rparr>"
      using 1 by (simp add: rx_answer_def)
    with aun_wf_accept_frame [OF assms] rx_accept_frame_fields(3) [of e ?f] show ?thesis by blast
  next
    case 2
    let ?b = "(rx_remove_at b k)\<lparr>b_presented := False\<rparr>"
    have "rx_answer e h b k accept = (set_rx e h ?b)\<lparr>counters := counters (set_rx e h ?b)\<rparr>"
      using 2 by (simp add: rx_answer_def)
    with assms show ?thesis by blast
  next
    case 3
    let ?c = "condemn_find (now_ms e) (condemned e) (f_port ?f) (f_src_ip_be ?f) (f_src_port ?f)"
    let ?X = "e\<lparr>condemned := snd ?c\<rparr>"
    have "\<not> (if fst ?c \<noteq> None then AUN_CONDEMN_RETRIES else AUN_DEFER_RETRIES) \<le> f_rejects ?f"
      using 3(3) condemn_find_wf(1) [OF cw, of "now_ms e" ?f] by (simp only: not_le)
    then obtain b1 where "rx_answer e h b k accept = set_rx ?X h b1"
      using 3 by (simp add: rx_answer_def rx_reject_def case_prod_beta Let_def)
    then have "rx_answer e h b k accept = (set_rx ?X h b1)\<lparr>counters := counters (set_rx ?X h b1)\<rparr>"
      by simp
    moreover have "aun_wf ?X" "e_rx ?X = e_rx e"
      using aun_wf_part(5) [OF assms] condemn_find_wf(2) [OF cw] by simp_all
    ultimately show ?thesis by blast
  next
    case 4
    obtain cs k2 where "condemn_wf cs" "rx_answer e h b k accept =
        (set_rx (rx_shed_frame (e\<lparr>condemned := cs\<rparr>) ?f) h ((rx_remove_at b k)\<lparr>b_presented := False\<rparr>))
          \<lparr>counters := k2\<lparr>k_rx_parked_drop := k_rx_parked_drop k2 + 1\<rparr>\<rparr>"
      using rx_reject_sheds [OF cw 4(3), of h b k] 4(1,2) by (auto simp: rx_answer_def)
    moreover from this(1) have "aun_wf (rx_shed_frame (e\<lparr>condemned := cs\<rparr>) ?f)"
      by (simp add: aun_wf_shed_frame aun_wf_part(5) [OF assms])
    moreover have "e_rx (rx_shed_frame (e\<lparr>condemned := cs\<rparr>) ?f) = e_rx e" by simp
    ultimately show ?thesis by blast
  qed
qed

lemma aun_wf_rx_answer:
  assumes "aun_wf e" "h < length (e_rx e)" "block_wf b" "k < b_count b"
    "rx_queue b = rx_queue (e_rx e ! h)"
  shows "aun_wf (rx_answer e h b k accept)"
proof -
  obtain e1 b1 k1 where f: "rx_answer e h b k accept = (set_rx e1 h b1)\<lparr>counters := k1\<rparr>"
    "aun_wf e1" "e_rx e1 = e_rx e"
    using rx_answer_form [OF assms(1)] by blast
  then have b1: "e_rx (rx_answer e h b k accept) ! h = b1" using assms(2) by simp
  have "block_wf b1"
    using rx_wf_answer [OF aun_wfD(1) [OF assms(1)] assms(3,4), of h accept] b1 f assms(2)
    by (auto simp: rx_wf_def list_all_length)
  then show ?thesis
    using aun_wf_rx_answer_queue [OF assms, of accept] f assms(2) unfolding b1
    by (simp add: aun_wf_set_rx)
qed

lemma aun_wf_collect: "aun_wf e \<Longrightarrow> aun_wf (snd (aun_rx_collect e h accept))"
proof (cases "rx_is_open e h")
  case True
  assume e: "aun_wf e"
  with True have b: "block_wf (e_rx e ! h)" "h < length (e_rx e)"
    using rx_wfD [OF aun_wfD(1)] by auto
  obtain b1 where r: "refreshes (now_ms e) (e_rx e ! h) b1" and
    c: "aun_rx_collect e h accept = (AUN_OK, case rx_choice (now_ms e) (e_rx e ! h) of
            None \<Rightarrow> set_rx e h (b1\<lparr>b_presented := False\<rparr>) | Some k \<Rightarrow> rx_answer e h b1 k accept)"
    using aun_rx_collect_choice [OF True b(1)] .
  have b1: "block_wf b1" by (rule block_wf_refreshes [OF b(1) r])
  show ?thesis
  proof (cases "rx_choice (now_ms e) (e_rx e ! h)")
    case None
    with c e b b1 refreshes_fields [OF r] show ?thesis
      by (simp add: aun_wf_set_rx_same block_wf_unpresent)
  next
    case (Some k)
    then have "k < b_count b1" using rx_choice_SomeD [OF b(1)] refreshes_fields [OF r] by simp
    with c Some e b b1 refreshes_fields [OF r] show ?thesis by (simp add: aun_wf_rx_answer)
  qed
qed (simp add: aun_rx_collect_def)

section \<open>Deliveries\<close>

lemma rx_match_SomeD:
  "rx_match_loop bs port s n is sf = (Some i, sf') \<Longrightarrow>
     i \<in> set is \<and> rx_accepts (bs ! i) port s n \<and> b_count (bs ! i) < AUN_RX_QUEUE"
  by (induction bs port s n "is" sf rule: rx_match_loop.induct) (auto split: if_splits)

text \<open>A delivered frame as it stands in the queue.\<close>

definition delivered_frame :: "u8 \<Rightarrow> u8 \<Rightarrow> u8 \<Rightarrow> u8 \<Rightarrow> u8 list \<Rightarrow> u32 \<Rightarrow> u32 \<Rightarrow> u16 \<Rightarrow> aun_rx_frame_t" where
  "delivered_frame port ctrl s n data sq ip sp =
     \<lparr>f_len = length data, f_src_stn = s, f_src_net = n, f_port = port, f_ctrl = ctrl OR 0x80,
      f_rejects = 0, f_seq = sq, f_src_ip_be = ip, f_src_port = sp, f_data = data\<rparr>"

lemma rx_deliver_cases:
  assumes "aun_wf e"
  obtains (queued) i where "rx_deliver e port ctrl s n data =
      (Some (i, rx_slot (e_rx e ! i) (b_count (e_rx e ! i))), AUN_RXV_ACK,
       set_rx e i (rx_put (e_rx e ! i) (delivered_frame port ctrl s n data 0 0 0)))"
      "i < length (e_rx e)" "rx_accepts (e_rx e ! i) port s n" "b_count (e_rx e ! i) < AUN_RX_QUEUE"
      "length data \<le> b_buf_size (e_rx e ! i)" "length data \<le> AUN_MAX_DATA" "block_wf (e_rx e ! i)"
  | (refused) why k where "rx_deliver e port ctrl s n data = (None, why, e\<lparr>counters := k\<rparr>)"
proof (cases "rx_match e port s n")
  case (Pair r sf)
  show ?thesis
  proof (cases r)
    case None
    then have "rx_deliver e port ctrl s n data =
        (None, if sf then AUN_RXV_FULL else AUN_RXV_NAK,
         e\<lparr>counters := if sf then counters e
            else (counters e)\<lparr>k_rx_no_block := k_rx_no_block (counters e) + 1\<rparr>\<rparr>)"
      using Pair by (simp add: rx_deliver_def)
    then show ?thesis by (rule refused)
  next
    case (Some i)
    then have i: "i < AUN_RX_BLOCKS" "rx_accepts (e_rx e ! i) port s n" "b_count (e_rx e ! i) < AUN_RX_QUEUE"
      using Pair rx_match_SomeD [of "e_rx e" port s n "[0..<AUN_RX_BLOCKS]" False i sf]
      by (simp_all add: rx_match_def del: upt_rec_numeral)
    then have len: "i < length (e_rx e)" "block_wf (e_rx e ! i)"
      using aun_wfD(1) [OF assms] by (auto simp: rx_wf_def list_all_length)
    show ?thesis
    proof (cases "length data > b_buf_size (e_rx e ! i) \<or> length data > AUN_MAX_DATA")
      case True
      with Some Pair refused show ?thesis by (simp add: rx_deliver_def Let_def)
    next
      case False
      then have "rx_deliver e port ctrl s n data =
        (Some (i, rx_slot (e_rx e ! i) (b_count (e_rx e ! i))), AUN_RXV_ACK,
         set_rx e i (rx_put (e_rx e ! i) (delivered_frame port ctrl s n data 0 0 0)))"
        using Some Pair by (simp add: rx_deliver_def Let_def delivered_frame_def)
      with queued [of i] i len False show ?thesis by simp
    qed
  qed
qed

lemma frame_wf_delivered [simp]:
  "length data \<le> sz \<Longrightarrow> length data \<le> AUN_MAX_DATA \<Longrightarrow> frame_wf sz (delivered_frame port ctrl s n data sq ip sp)"
  by (simp add: frame_wf_def delivered_frame_def)

lemma aun_wf_put:
  assumes "aun_wf e" "i < length (e_rx e)" "b_open (e_rx e ! i)" "b_count (e_rx e ! i) < AUN_RX_QUEUE"
    "frame_wf (b_buf_size (e_rx e ! i)) f" "f_src_ip_be f = 0 \<or> frame_id f \<notin> set (queued_ids e)"
  shows "aun_wf (set_rx e i (rx_put (e_rx e ! i) f))"
proof -
  have b: "block_wf (e_rx e ! i)" using assms(1,2) by (auto simp: aun_wf_def rx_wf_def list_all_length)
  then have ids: "block_ids (rx_put (e_rx e ! i) f) =
      block_ids (e_rx e ! i) @ (if f_src_ip_be f = 0 then [] else [frame_id f])"
    using assms(4) by (simp add: block_ids_put block_wf_def)
  have sub: "set (block_ids (e_rx e ! i)) \<subseteq> set (queued_ids e)"
    using assms(2) nth_mem [OF assms(2)] unfolding queued_ids_def by force
  have "distinct (queued_ids (set_rx e i (rx_put (e_rx e ! i) f)))"
    unfolding queued_ids_set_rx
    by (rule distinct_concat_update)
       (use assms ids sub distinct_block_ids [of e i] in \<open>auto simp: aun_wf_def queued_ids_def split: if_splits\<close>)
  with assms block_wf_put [OF b assms(4,3,5)] show ?thesis
    by (simp add: aun_wf_def rx_wf_set_rx)
qed

lemma rx_put_restamp:
  assumes "ring_wf b"
  shows "(rx_put b f)\<lparr>b_q := (b_q (rx_put b f))[rx_slot b (b_count b) :=
      (b_q (rx_put b f) ! rx_slot b (b_count b))\<lparr>f_seq := s, f_src_ip_be := ip, f_src_port := sp\<rparr>]\<rparr> =
    rx_put b (f\<lparr>f_seq := s, f_src_ip_be := ip, f_src_port := sp\<rparr>)"
proof -
  have "rx_slot b (b_count b) < length (b_q b)"
    using assms rx_slot_less [of b "b_count b"] by (simp add: ring_wf_def)
  then show ?thesis by (simp add: rx_put_def)
qed

text \<open>The cases of an inbound DATA frame, once its source is known.\<close>

lemma rx_data_verdict_cases:
  assumes "aun_wf e0" "rx_data_source e0 ip sp = (src, e)" "aun_wf e"
  obtains (nosrc) k where "src = None" "rx_data_verdict e0 ip sp port ctrl s data = (AUN_RXV_NOSRC, e\<lparr>counters := k\<rparr>)"
  | (pending) i k where "src = Some i" "rx_seq_pending e ip sp s"
      "rx_data_verdict e0 ip sp port ctrl s data = (AUN_RXV_REDUP, e\<lparr>counters := k\<rparr>)"
  | (redup) i k where "src = Some i" "\<not> rx_seq_pending e ip sp s"
      "m_seq_valid (e_map e ! i)" "m_last_rx_seq (e_map e ! i) = s"
      "rx_data_verdict e0 ip sp port ctrl s data =
        (AUN_RXV_REDUP, send_ack_nak (e\<lparr>counters := k\<rparr>) ip sp AUN_TYPE_ACK port ctrl s)"
  | (stored) i bi k where "src = Some i" "\<not> rx_seq_pending e ip sp s"
      "\<not> (m_seq_valid (e_map e ! i) \<and> s = m_last_rx_seq (e_map e ! i))"
      "bi < length (e_rx e)" "rx_accepts (e_rx e ! bi) port (m_stn (e_map e ! i)) (m_net (e_map e ! i))"
      "b_count (e_rx e ! bi) < AUN_RX_QUEUE"
      "length data \<le> b_buf_size (e_rx e ! bi)" "length data \<le> AUN_MAX_DATA"
      "rx_data_verdict e0 ip sp port ctrl s data =
        (AUN_RXV_ACK, (set_rx e bi (rx_put (e_rx e ! bi)
           (delivered_frame port ctrl (m_stn (e_map e ! i)) (m_net (e_map e ! i)) data s ip sp)))
           \<lparr>counters := k\<rparr>)"
  | (full) i k where "src = Some i" "\<not> rx_seq_pending e ip sp s"
      "fst (snd (rx_deliver e port ctrl (m_stn (e_map e ! i)) (m_net (e_map e ! i)) data)) = AUN_RXV_FULL"
      "rx_data_verdict e0 ip sp port ctrl s data = (AUN_RXV_FULL, e\<lparr>counters := k\<rparr>)"
  | (nak) i k where "src = Some i" "\<not> rx_seq_pending e ip sp s"
      "fst (snd (rx_deliver e port ctrl (m_stn (e_map e ! i)) (m_net (e_map e ! i)) data)) \<noteq> AUN_RXV_FULL"
      "rx_data_verdict e0 ip sp port ctrl s data =
        (AUN_RXV_NAK, send_ack_nak (e\<lparr>counters := k\<rparr>) ip sp AUN_TYPE_NAK port ctrl s)"
proof (cases src)
  case None
  from assms(2) None have "rx_data_verdict e0 ip sp port ctrl s data = (AUN_RXV_NOSRC,
      e\<lparr>counters := (counters e)\<lparr>k_rx_unknown_source := k_rx_unknown_source (counters e) + 1\<rparr>\<rparr>)"
    by (simp add: rx_data_verdict_def Let_def)
  from nosrc [OF None this] show ?thesis .
next
  case (Some i)
  let ?dup = "(counters e)\<lparr>k_rx_dup := k_rx_dup (counters e) + 1\<rparr>"
  show ?thesis
  proof (cases "rx_seq_pending e ip sp s")
    case True
    from assms(2) Some True
    have "rx_data_verdict e0 ip sp port ctrl s data = (AUN_RXV_REDUP, e\<lparr>counters := ?dup\<rparr>)"
      by (simp add: rx_data_verdict_def Let_def)
    from pending [OF Some True this] show ?thesis .
  next
    case np: False
    show ?thesis
    proof (cases "m_seq_valid (e_map e ! i) \<and> s = m_last_rx_seq (e_map e ! i)")
      case True
      with assms(2) Some np have "rx_data_verdict e0 ip sp port ctrl s data =
          (AUN_RXV_REDUP, send_ack_nak (e\<lparr>counters := ?dup\<rparr>) ip sp AUN_TYPE_ACK port ctrl s)"
        by (simp add: rx_data_verdict_def Let_def)
      from redup [OF Some np _ _ this] True show ?thesis by blast
    next
      case nd: False
      show ?thesis
        using assms(3)
      proof (cases rule: rx_deliver_cases [of e port ctrl "m_stn (e_map e ! i)" "m_net (e_map e ! i)" data])
        case (queued bi)
        then have "rx_data_verdict e0 ip sp port ctrl s data = (AUN_RXV_ACK,
            (set_rx e bi (rx_put (e_rx e ! bi)
              (delivered_frame port ctrl (m_stn (e_map e ! i)) (m_net (e_map e ! i)) data s ip sp)))
             \<lparr>counters := (counters e)\<lparr>k_rx_data := k_rx_data (counters e) + 1\<rparr>\<rparr>)"
          using Some np nd assms(2) rx_put_restamp [of "e_rx e ! bi"]
          by (simp add: rx_data_verdict_def Let_def block_wf_def delivered_frame_def set_rx_def)
        with stored [of i bi] Some np nd queued show ?thesis by blast
      next
        case (refused why k)
        show ?thesis
        proof (cases "why = AUN_RXV_FULL")
          case True
          from refused Some np nd assms(2) True have "rx_data_verdict e0 ip sp port ctrl s data =
              (AUN_RXV_FULL, e\<lparr>counters := k\<lparr>k_rx_full := k_rx_full k + 1\<rparr>\<rparr>)"
            by (simp add: rx_data_verdict_def Let_def)
          from full [OF Some np _ this] refused True show ?thesis by simp
        next
          case False
          from refused Some np nd assms(2) False have "rx_data_verdict e0 ip sp port ctrl s data =
              (AUN_RXV_NAK, send_ack_nak (e\<lparr>counters := k\<rparr>) ip sp AUN_TYPE_NAK port ctrl s)"
            by (simp add: rx_data_verdict_def Let_def)
          from nak [OF Some np _ this] refused False show ?thesis by simp
        qed
      qed
    qed
  qed
qed

lemma aun_wf_data_source: "aun_wf e \<Longrightarrow> rx_data_source e ip sp = (src, e1) \<Longrightarrow> aun_wf e1"
  using aun_wf_map_add
  by (auto simp: rx_data_source_def Let_def split: option.splits)

lemma aun_wf_data_verdict:
  assumes "aun_wf e"
  shows "aun_wf (snd (rx_data_verdict e ip sp port ctrl s data))"
proof -
  obtain src e1 where src: "rx_data_source e ip sp = (src, e1)" by (cases "rx_data_source e ip sp")
  have e1: "aun_wf e1" by (rule aun_wf_data_source [OF assms src])
  show ?thesis
    using assms src e1
  proof (cases rule: rx_data_verdict_cases [where port = port and ctrl = ctrl and s = s and data = data])
    case (stored i bi k)
    let ?f = "delivered_frame port ctrl (m_stn (e_map e1 ! i)) (m_net (e_map e1 ! i)) data s ip sp"
    have "f_src_ip_be ?f = 0 \<or> frame_id ?f \<notin> set (queued_ids e1)"
      using stored(2) rx_seq_pending_ids [OF aun_wfD(1) [OF e1], of ip sp s]
      by (auto simp: delivered_frame_def frame_id_def)
    with stored e1 aun_wf_put [of e1 bi ?f] show ?thesis by (simp add: rx_accepts_def)
  qed (use e1 in simp_all)
qed

lemma aun_wf_trace: "aun_wf e \<Longrightarrow> aun_wf (rx_trace e dp same ip sp port s v data)"
  by (auto simp: rx_trace_def Let_def aun_wf_def rx_wf_def queued_ids_def split: option.split)

lemma aun_wf_rx_data: "aun_wf e \<Longrightarrow> aun_wf (rx_data e ip sp port ctrl s data)"
  using aun_wf_data_verdict [of e ip sp port ctrl s data]
  by (simp add: rx_data_def Let_def case_prod_beta aun_wf_trace)

lemma aun_wf_deliver: "aun_wf e \<Longrightarrow> aun_wf (snd (snd (rx_deliver e port ctrl s n data)))"
proof -
  assume e: "aun_wf e"
  then show ?thesis
  proof (cases rule: rx_deliver_cases [of e port ctrl s n data])
    case (queued i)
    with e aun_wf_put [of e i "delivered_frame port ctrl s n data 0 0 0"] show ?thesis
      by (simp add: rx_accepts_def delivered_frame_def frame_wf_def)
  qed (use e in simp)
qed

lemma aun_wf_broadcast_in: "aun_wf e \<Longrightarrow> aun_wf (rx_broadcast e ip sp port ctrl data)"
proof -
  assume e: "aun_wf e"
  have "aun_wf (case rx_deliver e port ctrl s n data of
      (Some _, why, e1) \<Rightarrow> e1\<lparr>counters := (counters e1)\<lparr>k_rx_broadcast := k_rx_broadcast (counters e1) + 1\<rparr>\<rparr>
    | (None, why, e1) \<Rightarrow> e1)" for s n
    using aun_wf_deliver [OF e, of port ctrl s n data]
    by (auto split: prod.split option.split)
  then show ?thesis by (simp add: rx_broadcast_def case_prod_beta split: option.split)
qed

section \<open>Immediate operations\<close>

lemma himm_wf_inactive: "himm_wf (h\<lparr>h_active := x\<rparr>) = himm_wf h"
  by (simp add: himm_wf_def)

lemma aun_wf_cache_store: "aun_wf e \<Longrightarrow> aun_wf (himm_cache_store e nak data)"
  using aun_wfD(5) [of e]
  by (auto simp: himm_cache_store_def Let_def cache_wf_def intro!: aun_wf_part)

lemma himm_cache_store_himm [simp]: "himm (himm_cache_store e nak d) = himm e"
  by (simp add: himm_cache_store_def Let_def)

lemma aun_wf_himm_reply: "aun_wf e \<Longrightarrow> aun_wf (aun_himm_reply e data)"
  by (auto simp: aun_himm_reply_def Let_def himm_wf_inactive aun_wfD(4) send_imm_reply_eq
      intro!: aun_wf_part aun_wf_cache_store)

lemma aun_wf_himm_hold:
  "aun_wf e \<Longrightarrow> length data \<le> AUN_HIMM_MAX \<Longrightarrow> aun_wf (himm_hold e fd ip sp ctrl s data)"
  by (auto simp: himm_hold_def himm_wf_def intro!: aun_wf_part)

lemma aun_wf_count [simp]:
  "aun_wf (count_rx_imm e) = aun_wf e" "aun_wf (count_replay e) = aun_wf e"
  "aun_wf (count_rx_bad e) = aun_wf e"
  by (simp_all add: count_rx_imm_def count_replay_def count_rx_bad_def)

text \<open>The wrap-around of the held length never matters: a Poke that short is refused.\<close>

lemma poke_hold_len: "8 \<le> n \<Longrightarrow> n < 2 ^ 32 \<Longrightarrow> (n + (2 ^ 32 - 4)) mod 2 ^ 32 = n - (4 :: nat)"
  using mod_add_self2 [of "n - 4" "2 ^ 32"] by (simp add: add.commute)

lemma aun_wf_imm4:
  assumes "aun_wf e" "length data < 2 ^ 32"
  shows "aun_wf (rx_imm4_data e ip sp ctrl s data)"
proof -
  have "length (take 4 data @ drop 8 data) \<le> AUN_HIMM_MAX"
    if "8 \<le> length data" "(length data + (2 ^ 32 - 4)) mod 2 ^ 32 \<le> AUN_HIMM_MAX"
    using that poke_hold_len [of "length data"] assms(2) by simp
  then show ?thesis
    using assms(1) by (auto simp: rx_imm4_data_def Let_def not_less intro!: aun_wf_himm_hold)
qed

lemma aun_wf_immediate: "aun_wf e \<Longrightarrow> aun_wf (rx_immediate e ip sp port ctrl s data)"
  by (auto simp: rx_immediate_def Let_def intro!: aun_wf_himm_hold)

section \<open>Transmission\<close>

lemma aun_wf_ack_nak: "aun_wf e \<Longrightarrow> aun_wf (rx_ack_nak e ip sp ty s)"
  using aun_wfD(3) [of e]
  by (auto simp: rx_ack_nak_def Let_def tx_wf_def intro!: aun_wf_part)

lemma aun_wf_imm_reply: "aun_wf e \<Longrightarrow> aun_wf (fst (rx_imm_reply e m ip sp s data))"
  using aun_wfD(3) [of e]
  by (auto simp: rx_imm_reply_def Let_def tx_wf_def intro!: aun_wf_part)

lemma aun_wf_udp_input:
  "aun_wf e \<Longrightarrow> length buf < 2 ^ 32 \<Longrightarrow> aun_wf (fst (aun_udp_input e m ip sp buf))"
  by (simp add: aun_udp_input_def Let_def aun_wf_ack_nak aun_wf_imm_reply aun_wf_imm4
      aun_wf_rx_data aun_wf_broadcast_in aun_wf_immediate)

lemma aun_wf_tx_fail: "aun_wf e \<Longrightarrow> code \<noteq> AUN_STATUS_PENDING \<Longrightarrow> aun_wf (tx_fail e code)"
  using aun_wfD(3) [of e] by (auto simp: tx_fail_def tx_wf_def intro!: aun_wf_part)

lemma aun_wf_tx_resend: "aun_wf e \<Longrightarrow> aun_wf (tx_resend e)"
  using aun_wfD(3) [of e]
  by (auto simp: tx_resend_def Let_def case_prod_beta snd_udp_send tx_wf_def
      intro!: aun_wf_part aun_wf_tx_fail)

lemma aun_wf_poll_himm: "aun_wf e \<Longrightarrow> aun_wf (poll_himm e)"
  by (auto simp: poll_himm_def Let_def himm_wf_inactive aun_wfD(4)
      intro!: aun_wf_part aun_wf_cache_store)

lemma aun_wf_poll: "aun_wf e \<Longrightarrow> aun_wf (aun_poll e)"
proof -
  assume "aun_wf e"
  then have p: "aun_wf (poll_himm e)" by (rule aun_wf_poll_himm)
  have "aun_wf ((poll_himm e)\<lparr>tx := (tx (poll_himm e))\<lparr>t_reject_pending := x\<rparr>\<rparr>)"
    "aun_wf ((poll_himm e)\<lparr>tx := (tx (poll_himm e))\<lparr>t_noresp_left := t_noresp_left (tx (poll_himm e)) - 1\<rparr>\<rparr>)" for x
    using aun_wfD(3) [OF p] by (auto simp: tx_wf_def intro!: aun_wf_part p)
  with p \<open>aun_wf e\<close> show ?thesis
    by (auto simp: aun_poll_def Let_def aun_wf_tx_resend aun_wf_tx_fail)
qed


lemma aun_wf_loopback:
  "aun_wf e \<Longrightarrow> aun_wf (fst (tx_loopback e m ty ctrl port data rb rm))"
proof -
  assume e: "aun_wf e"
  have 1: "aun_wf (e\<lparr>tx := (tx e)\<lparr>t_state := AUN_OK, t_reply_buf := None, t_reply_len := 0\<rparr>\<rparr>)" (is "aun_wf ?e1")
    "aun_wf (e\<lparr>tx := (tx e)\<lparr>t_state := AUN_OK, t_reply_buf := None, t_reply_len := n\<rparr>\<rparr>)" for n
    using aun_wfD(3) [OF e] by (auto simp: tx_wf_def intro!: aun_wf_part e)
  have "aun_wf e2" if "rx_deliver ?e1 port ctrl s n d = (r, why, e2)" for r why s n d e2
    using aun_wf_deliver [OF 1(1), of port ctrl s n d] that by simp
  moreover from this have "aun_wf (e2\<lparr>tx := (tx e2)\<lparr>t_state := AUN_TX_NOT_LISTENING\<rparr>\<rparr>)"
    if "rx_deliver ?e1 port ctrl s n d = (r, why, e2)" for r why s n d e2
    using aun_wfD(3) [of e2] that by (auto simp: tx_wf_def intro!: aun_wf_part)
  ultimately show ?thesis
    using 1 by (auto simp: tx_loopback_def Let_def split: prod.split option.split)
qed

lemma aun_wf_tx_begin:
  "aun_wf e \<Longrightarrow> aun_wf (fst (snd (tx_begin e m ty dn ds ctrl port data rb rm)))"
proof -
  assume e: "aun_wf e"
  have "tx_wf (t\<lparr>t_datagram := build_header ty port ctrl s @ buf_bytes data, t_len := AUN_HDR_SIZE + buf_len data,
      t_noresp_left := AUN_NORESP_RETRIES, t_reject_left := if ty = AUN_TYPE_DATA then AUN_REJECT_RETRIES else 0,
      t_state := x\<rparr>)" if "\<not> (buf_len data > AUN_MAX_DATA \<or> buf_len data \<noteq> 0 \<and> buf_null data)" for t s x
    using that by (cases data) (auto simp: tx_wf_def)
  then show ?thesis
    using e by (auto simp: tx_begin_def Let_def case_prod_beta snd_udp_send aun_wf_loopback tx_wf_def
        split: option.split intro!: aun_wf_part)
qed

lemma aun_wf_tx_ops:
  "aun_wf e \<Longrightarrow> aun_wf (fst (snd (aun_tx_start e m dn ds ctrl port data)))"
  "aun_wf e \<Longrightarrow> aun_wf (fst (snd (aun_immediate e m dn ds ctrl data rb rm)))"
  by (auto simp: aun_tx_start_def aun_immediate_def Let_def aun_wf_tx_begin)

lemma udp_send_fold:
  "\<exists>tr. fold (\<lambda>p e'. snd (udp_send e' (m_ip_be p) (m_udp_port p) dgram)) ms e = e\<lparr>transport := tr\<rparr>"
proof (induction ms arbitrary: e)
  case Nil
  show ?case by (intro exI [of _ "transport e"]) simp
next
  case (Cons p ms)
  show ?case
    using Cons.IH [of "snd (udp_send e (m_ip_be p) (m_udp_port p) dgram)"]
    by (auto simp: snd_udp_send)
qed

lemma aun_wf_broadcast: "aun_wf e \<Longrightarrow> aun_wf (snd (aun_broadcast e ctrl port data))"
proof -
  assume e: "aun_wf e"
  have "aun_wf (fold (\<lambda>p e'. snd (udp_send e' (m_ip_be p) (m_udp_port p) dgram)) ms
      (e\<lparr>next_seq := x\<rparr>))" for dgram x and ms :: "aun_map_entry_t list"
    using udp_send_fold [of dgram ms "e\<lparr>next_seq := x\<rparr>"] e by auto
  with e show ?thesis by (simp add: aun_broadcast_def Let_def snd_udp_send)
qed

lemma aun_wf_set_host_imm: "aun_wf e \<Longrightarrow> aun_wf (aun_set_host_imm e enable)"
  using aun_wfD(4,5) [of e]
  by (auto simp: aun_set_host_imm_def himm_wf_inactive cache_wf_def intro!: aun_wf_part)

lemma aun_wf_set_machine_id: "aun_wf e \<Longrightarrow> 4 \<le> length ident \<Longrightarrow> aun_wf (aun_set_machine_id e ident)"
  by (simp add: aun_set_machine_id_def aun_wf_def rx_wf_def queued_ids_def)

lemma aun_wf_settings:
  "aun_wf e \<Longrightarrow> aun_wf (aun_set_addressing e bcast base msk ln)"
  "aun_wf e \<Longrightarrow> aun_wf (aun_test_responder e enable s n)"
  "aun_wf e \<Longrightarrow> aun_wf (aun_set_trace e fn)"
  by (simp_all add: aun_set_addressing_def aun_test_responder_def aun_set_trace_def)

end
