(* ===== verification/AunEngine.thy ===== *)
theory AunEngine
  imports AunInvariant
begin

text \<open>
  The AUN engine as a state machine: one step per public operation of \<open>aun.h\<close> on the engine
  and the host memory, plus a step in which the outside world (the network, the clock and the
  host) changes on its own.  Theorems about the engine's reachable states and about the fate of
  frames, immediates and transmissions follow.
\<close>

section \<open>Steps\<close>

inductive aun_step :: "'u aun_engine_t \<times> mem \<Rightarrow> 'u aun_engine_t \<times> mem \<Rightarrow> bool" where
  world: "aun_step (e, m) (e\<lparr>transport := (transport e)\<lparr>tr_user := u\<rparr>\<rparr>, m1)"
| map_add: "aun_map_add e n s ip port = (ok, e1) \<Longrightarrow> aun_step (e, m) (e1, m)"
| addressing: "aun_step (e, m) (aun_set_addressing e bcast base msk ln, m)"
| responder: "aun_step (e, m) (aun_test_responder e enable s n, m)"
| machine: "4 \<le> length ident \<Longrightarrow> aun_step (e, m) (aun_set_machine_id e ident, m)"
| trace: "aun_step (e, m) (aun_set_trace e fn, m)"
| host_imm: "aun_step (e, m) (aun_set_host_imm e enable, m)"
| rx_open: "aun_rx_open e h port s n buf sz = (r, e1) \<Longrightarrow> aun_step (e, m) (e1, m)"
| rx_poll: "aun_rx_poll e m h = (r, i, e1, m1) \<Longrightarrow> aun_step (e, m) (e1, m1)"
| rx_ready: "aun_rx_ready e h = (c, e1) \<Longrightarrow> aun_step (e, m) (e1, m)"
| rx_collect: "aun_rx_collect e h accept = (r, e1) \<Longrightarrow> aun_step (e, m) (e1, m)"
| rx_close: "aun_rx_close e h = (r, e1) \<Longrightarrow> aun_step (e, m) (e1, m)"
| tx_start: "aun_tx_start e m dn ds ctrl port data = (r, e1, m1) \<Longrightarrow> aun_step (e, m) (e1, m1)"
| immediate: "aun_immediate e m dn ds ctrl data rb rm = (r, e1, m1) \<Longrightarrow> aun_step (e, m) (e1, m1)"
| broadcast: "aun_broadcast e ctrl port data = (r, e1) \<Longrightarrow> aun_step (e, m) (e1, m)"
| himm_reply: "aun_step (e, m) (aun_himm_reply e data, m)"
| udp_input: "length buf < 2 ^ 32 \<Longrightarrow> aun_udp_input e m ip sp buf = (e1, m1) \<Longrightarrow>
    aun_step (e, m) (e1, m1)"
| poll: "aun_step (e, m) (aun_poll e, m)"

inductive aun_reachable :: "'u aun_transport_t \<Rightarrow> u8 \<Rightarrow> u8 \<Rightarrow> 'u aun_engine_t \<times> mem \<Rightarrow> bool"
  for tr s n where
  init: "aun_reachable tr s n (aun_init tr s n, m)"
| step: "aun_reachable tr s n c \<Longrightarrow> aun_step c c1 \<Longrightarrow> aun_reachable tr s n c1"

inductive_cases aun_stepE: "aun_step c c1"

lemma aun_step_wf: "aun_step c c1 \<Longrightarrow> aun_wf (fst c) \<Longrightarrow> aun_wf (fst c1)"
proof (induction rule: aun_step.induct)
  case (map_add e n s ip port ok e1 m)
  with aun_wf_map_add [of e n s ip port] show ?case by simp
next
  case (rx_open e h port s n buf sz r e1 m)
  with aun_wf_open [of e h port s n buf sz] show ?case by simp
next
  case (rx_poll e m h r i e1 m1)
  with aun_wf_poll_rx [of e m h] show ?case by simp
next
  case (rx_ready e h c e1 m)
  with aun_wf_ready [of e h] show ?case by simp
next
  case (rx_collect e h accept r e1 m)
  with aun_wf_collect [of e h accept] show ?case by simp
next
  case (rx_close e h r e1 m)
  with aun_wf_close [of e h] show ?case by simp
next
  case (tx_start e m dn ds ctrl port data r e1 m1)
  with aun_wf_tx_ops(1) [of e m dn ds ctrl port data] show ?case by simp
next
  case (immediate e m dn ds ctrl data rb rm r e1 m1)
  with aun_wf_tx_ops(2) [of e m dn ds ctrl data rb rm] show ?case by simp
next
  case (broadcast e ctrl port data r e1 m)
  with aun_wf_broadcast [of e ctrl port data] show ?case by simp
next
  case (udp_input buf e m ip sp e1 m1)
  with aun_wf_udp_input [of e buf m ip sp] show ?case by simp
qed (simp_all add: aun_wf_settings aun_wf_set_machine_id aun_wf_set_host_imm aun_wf_himm_reply aun_wf_poll)

text \<open>C7. Every state that the public operations and the outside world can reach from aun_init is
  well formed: queue positions and stored lengths are in bounds, the presented frame is the
  oldest of its stream, no two queued network frames carry the same sender and sequence number,
  no stream has two table entries, no station has two map entries.\<close>

theorem aun_reachable_wf: "aun_reachable tr s n c \<Longrightarrow> aun_wf (fst c)"
  by (induction rule: aun_reachable.induct) (simp_all add: aun_wf_init aun_step_wf)

section \<open>Inbound data\<close>

lemma udp_input_data:
  assumes "initialised e" "\<not> imm4 port (ctrl AND 0x7F)"
  shows "aun_udp_input e m ip sp (build_header AUN_TYPE_DATA port ctrl s @ data) =
    (rx_data e ip sp port (ctrl AND 0x7F) s data, m)"
  using assms by (auto simp: aun_udp_input_def Let_def)

lemma rx_data_untraced:
  "trace_fn e = None \<Longrightarrow> trace_fn (snd (rx_data_verdict e ip sp port ctrl s data)) = None \<Longrightarrow>
   rx_data e ip sp port ctrl s data = snd (rx_data_verdict e ip sp port ctrl s data)"
  by (simp add: rx_data_def Let_def case_prod_beta rx_trace_def)

lemma rx_data_source_known:
  "map_find_by_ip e ip sp = Some i \<Longrightarrow> rx_data_source e ip sp = (Some i, e)"
  by (simp add: rx_data_source_def)

lemma rx_deliver_match:
  "rx_match e port s n = (Some i, sf) \<Longrightarrow> length data \<le> b_buf_size (e_rx e ! i) \<Longrightarrow> length data \<le> AUN_MAX_DATA \<Longrightarrow>
   rx_deliver e port ctrl s n data =
      (Some (i, rx_slot (e_rx e ! i) (b_count (e_rx e ! i))), AUN_RXV_ACK,
       set_rx e i (rx_put (e_rx e ! i) (delivered_frame port ctrl s n data 0 0 0)))"
  by (simp add: rx_deliver_def Let_def delivered_frame_def)

lemma data_queued_state:
  assumes "aun_wf e" "initialised e" "trace_fn e = None" "\<not> imm4 port (ctrl AND 0x7F)"
    and "map_find_by_ip e ip sp = Some i" "me = e_map e ! i"
    and "\<not> rx_seq_pending e ip sp s" "\<not> (m_seq_valid me \<and> m_last_rx_seq me = s)"
    and "rx_match e port (m_stn me) (m_net me) = (Some bi, sf)"
    and "length data \<le> b_buf_size (e_rx e ! bi)" "length data \<le> AUN_MAX_DATA"
  shows "bi < length (e_rx e) \<and> b_open (e_rx e ! bi) \<and> block_wf (e_rx e ! bi) \<and>
    b_count (e_rx e ! bi) < AUN_RX_QUEUE \<and>
    (\<exists>k. aun_udp_input e m ip sp (build_header AUN_TYPE_DATA port ctrl s @ data) =
      ((set_rx e bi (rx_put (e_rx e ! bi)
          (delivered_frame port (ctrl AND 0x7F) (m_stn me) (m_net me) data s ip sp)))\<lparr>counters := k\<rparr>, m))"
proof -
  let ?f = "delivered_frame port (ctrl AND 0x7F) (m_stn me) (m_net me) data s ip sp"
  have bi: "bi < AUN_RX_BLOCKS" "b_count (e_rx e ! bi) < AUN_RX_QUEUE" "b_open (e_rx e ! bi)"
    using assms(9) rx_match_SomeD [of "e_rx e" port "m_stn me" "m_net me" "[0..<AUN_RX_BLOCKS]" False bi sf]
    by (simp_all add: rx_match_def rx_accepts_def del: upt_rec_numeral)
  then have len: "bi < length (e_rx e)" "block_wf (e_rx e ! bi)" "ring_wf (e_rx e ! bi)"
    using assms(1) by (auto simp: aun_wf_def rx_wf_def list_all_length block_wf_def)
  have v: "rx_data_verdict e ip sp port (ctrl AND 0x7F) s data =
     (AUN_RXV_ACK, (set_rx e bi (rx_put (e_rx e ! bi) ?f))
        \<lparr>counters := (counters e)\<lparr>k_rx_data := k_rx_data (counters e) + 1\<rparr>\<rparr>)"
    using assms len rx_put_restamp [OF len(3)] rx_deliver_match [OF assms(9,10,11)]
    by (simp add: rx_data_verdict_def rx_data_source_known Let_def delivered_frame_def set_rx_def
        eq_commute [of _ s])
  then have "aun_udp_input e m ip sp (build_header AUN_TYPE_DATA port ctrl s @ data) =
      (snd (rx_data_verdict e ip sp port (ctrl AND 0x7F) s data), m)"
    using udp_input_data [OF assms(2,4)] rx_data_untraced [OF assms(3)] assms(3) by simp
  with v bi len show ?thesis by (auto intro: exI)
qed

text \<open>A new DATA frame from a mapped station for a listening block with room is appended to that
  block's queue with its wire identity, no other block changes, and nothing is sent: the
  acknowledgement waits for the host.\<close>

theorem data_queued_silently:
  assumes "aun_wf e" "initialised e" "trace_fn e = None" "\<not> imm4 port (ctrl AND 0x7F)"
    and "map_find_by_ip e ip sp = Some i" "me = e_map e ! i"
    and "\<not> rx_seq_pending e ip sp s" "\<not> (m_seq_valid me \<and> m_last_rx_seq me = s)"
    and "rx_match e port (m_stn me) (m_net me) = (Some bi, sf)"
    and "length data \<le> b_buf_size (e_rx e ! bi)" "length data \<le> AUN_MAX_DATA"
    and "aun_udp_input e m ip sp (build_header AUN_TYPE_DATA port ctrl s @ data) = (e1, m1)"
  shows "transport e1 = transport e \<and> m1 = m \<and>
    rx_queue (e_rx e1 ! bi) = rx_queue (e_rx e ! bi) @
      [delivered_frame port (ctrl AND 0x7F) (m_stn me) (m_net me) data s ip sp] \<and>
    (\<forall>j. j \<noteq> bi \<longrightarrow> e_rx e1 ! j = e_rx e ! j)"
  using data_queued_state [OF assms(1-11), of m] assms(12) by (auto simp: rx_queue_put block_wf_def)

lemma retransmission_verdict:
  assumes "initialised e" "trace_fn e = None" "\<not> imm4 port (ctrl AND 0x7F)"
    and "map_find_by_ip e ip sp = Some i" "me = e_map e ! i"
    and "rx_seq_pending e ip sp s \<or> m_seq_valid me \<and> m_last_rx_seq me = s"
    and "aun_udp_input e m ip sp (build_header AUN_TYPE_DATA port ctrl s @ data) = (e1, m1)"
  shows "e_rx e1 = e_rx e \<and> e_map e1 = e_map e \<and> m1 = m \<and>
    transport e1 = (if rx_seq_pending e ip sp s then transport e
      else after_send (transport e) ip sp (build_header AUN_TYPE_ACK port (ctrl AND 0x7F) s))"
proof -
  let ?v = "rx_data_verdict e ip sp port (ctrl AND 0x7F) s data"
  let ?e = "e\<lparr>counters := (counters e)\<lparr>k_rx_dup := k_rx_dup (counters e) + 1\<rparr>\<rparr>"
  have v: "snd ?v = (if rx_seq_pending e ip sp s then ?e
      else send_ack_nak ?e ip sp AUN_TYPE_ACK port (ctrl AND 0x7F) s)"
    using assms(4-6) by (auto simp: rx_data_verdict_def rx_data_source_known Let_def)
  then have "e1 = snd ?v" "m1 = m"
    using assms(7) udp_input_data [OF assms(1,3)] rx_data_untraced [OF assms(2)] assms(2) by auto
  with v show ?thesis by simp
qed

lemma concat_replaced:
  assumes "distinct (concat xss)" "h < length xss" "x \<in> set (xss ! h)" "x \<notin> set ys"
  shows "x \<notin> set (concat (xss[h := ys]))"
  using assms
proof (induction xss arbitrary: h)
  case (Cons xs xss)
  show ?case
  proof (cases h)
    case 0
    then show ?thesis using Cons.prems by auto
  next
    case (Suc j)
    then have "x \<in> set (concat xss)" using Cons.prems(2,3) by auto
    then have "x \<notin> set xs" using Cons.prems(1) by auto
    with Cons.IH [of j] Cons.prems Suc show ?thesis by simp
  qed
qed simp

lemma addresses_map:
  "map (\<lambda>m. (m_net m, m_stn m, m_ip_be m, m_udp_port m)) xs = map (\<lambda>m. (m_net m, m_stn m, m_ip_be m, m_udp_port m)) ys \<Longrightarrow>
   map (\<lambda>m. m_ip_be m = ip \<and> m_udp_port m = sp) xs = map (\<lambda>m. m_ip_be m = ip \<and> m_udp_port m = sp) ys"
  by (auto simp: list_eq_iff_nth_eq)

lemma find_index_map: "map P xs = map P ys \<Longrightarrow> find_index P xs = find_index P ys"
proof (induction xs arbitrary: ys)
  case (Cons x xs)
  then show ?case by (cases ys) auto
qed simp

text \<open>Once a frame is collected, its identity is queued nowhere and is the last one of its sender.\<close>

lemma collected_once:
  assumes "aun_wf e" "rx_is_open e h" "rx_choice (now_ms e) (e_rx e ! h) = Some k" "f = rx_queue (e_rx e ! h) ! k"
    and "f_src_ip_be f \<noteq> 0" "aun_rx_collect e h True = (r, e1)"
  shows "frame_id f \<in> set (queued_ids e)" "frame_id f \<notin> set (queued_ids e1)" "aun_wf e1"
    and "initialised e1 = initialised e" "trace_fn e1 = trace_fn e"
    and "map_find_by_ip e ip sp = Some i \<Longrightarrow> map_find_by_ip e1 ip sp = Some i"
proof -
  let ?b = "e_rx e ! h"
  have wf: "h < length (e_rx e)" "rx_wf e" using assms(1,2) aun_wfD(1) by (auto simp: rx_is_open_def aun_wf_def rx_wf_def)
  obtain b1 where b1: "block_wf b1" "k < b_count b1" "q_at b1 k = f" "rx_queue b1 = rx_queue ?b"
      "aun_rx_collect e h True = (AUN_OK, rx_answer e h b1 k True)"
    using aun_rx_collect_chosen [OF wf(2) assms(2,3), of True] assms(4) by metis
  define b2 where "b2 = (rx_remove_at b1 k)\<lparr>b_presented := False\<rparr>"
  have e1: "e1 = set_rx (rx_accept_frame e f) h b2"
    using b1 assms(6) by (simp add: rx_answer_def b2_def)
  have q: "rx_queue b2 = take k (rx_queue ?b) @ drop (Suc k) (rx_queue ?b)"
    using b1 by (simp add: block_wf_def rx_queue_remove_at b2_def)
  have k: "k < length (rx_queue ?b)" using b1(2,4) by (metis length_rx_queue)
  let ?net = "\<lambda>f. f_src_ip_be f \<noteq> 0"
  have f: "rx_queue ?b = take k (rx_queue ?b) @ f # drop (Suc k) (rx_queue ?b)" unfolding assms(4) by (rule id_take_nth_drop [OF k])
  have ids: "block_ids ?b = map frame_id (filter ?net (take k (rx_queue ?b))) @ frame_id f # map frame_id (filter ?net (drop (Suc k) (rx_queue ?b)))"
    unfolding block_ids_def by (subst f) (simp add: assms(5) del: append_take_drop_id)
  have d: "distinct (concat (map block_ids (e_rx e)))" "distinct (block_ids ?b)"
    using aun_wfD(6) [OF assms(1)] distinct_block_ids [OF aun_wfD(6) [OF assms(1)] wf(1)] by (simp_all add: queued_ids_def)
  show "frame_id f \<in> set (queued_ids e)"
  proof -
    have "frame_id f \<in> set (block_ids ?b)" by (simp add: ids)
    then show ?thesis using nth_mem [OF wf(1)] by (simp only: queued_ids_def set_concat set_map) blast
  qed
  have "block_ids b2 = map frame_id (filter ?net (take k (rx_queue ?b))) @ map frame_id (filter ?net (drop (Suc k) (rx_queue ?b)))"
    by (simp add: block_ids_def q del: append_take_drop_id)
  then have "frame_id f \<notin> set (block_ids b2)" using d(2) unfolding ids by simp
  then show "frame_id f \<notin> set (queued_ids e1)"
    unfolding e1 queued_ids_set_rx using concat_replaced [OF d(1), of h "frame_id f" "block_ids b2"] ids wf(1) by simp
  show "aun_wf e1" using aun_wf_collect [OF assms(1), of h True] assms(6) by simp
  show "initialised e1 = initialised e" "trace_fn e1 = trace_fn e"
    by (simp_all add: e1) (simp add: rx_accept_frame_def map_stamp_def case_prod_beta Let_def split: option.split)
  show "map_find_by_ip e1 ip sp = Some i" if "map_find_by_ip e ip sp = Some i"
  proof -
    have "map (\<lambda>m. (m_net m, m_stn m, m_ip_be m, m_udp_port m)) (e_map e1) = map (\<lambda>m. (m_net m, m_stn m, m_ip_be m, m_udp_port m)) (e_map e)"
      using assms(5) by (simp add: e1 e_map_rx_accept_frame map_stamp_addresses)
    then have "map (\<lambda>m. m_ip_be m = ip \<and> m_udp_port m = sp) (e_map e1) = map (\<lambda>m. m_ip_be m = ip \<and> m_udp_port m = sp) (e_map e)"
      by (rule addresses_map)
    from find_index_map [OF this] show ?thesis using that unfolding map_find_by_ip_def by simp
  qed
qed

text \<open>C18. A retransmitted DATA frame is not queued a second time: while its original is the next
  frame that a collect would take it is dropped in silence, and directly after aun_rx_collect has
  taken the original it is acknowledged exactly once, echoing its sequence number; in both cases
  no receive block and no memory changes.\<close>

theorem data_retransmission:
  assumes "aun_wf e" "initialised e" "trace_fn e = None" "rx_is_open e h"
    and "rx_choice (now_ms e) (e_rx e ! h) = Some k" "f = rx_queue (e_rx e ! h) ! k"
    and "f_src_ip_be f = ip" "f_src_port f = sp" "f_seq f = s" "ip \<noteq> 0" "map_find_by_ip e ip sp = Some i"
    and "\<not> imm4 port (ctrl AND 0x7F)" "dgram = build_header AUN_TYPE_DATA port ctrl s @ data"
    and "aun_udp_input e m ip sp dgram = (e1, m1)"
    and "aun_rx_collect e h True = (r, e2)" "aun_udp_input e2 m ip sp dgram = (e3, m3)"
  shows "e_rx e1 = e_rx e \<and> transport e1 = transport e \<and> m1 = m \<and> e_rx e3 = e_rx e2 \<and> m3 = m \<and>
    transport e3 = after_send (transport e2) ip sp (build_header AUN_TYPE_ACK port (ctrl AND 0x7F) s)"
proof -
  have id: "frame_id f = (ip, sp, s)" using assms(7-9) by (simp add: frame_id_def)
  have ip: "f_src_ip_be f \<noteq> 0" using assms(7,10) by simp
  note c = collected_once [OF assms(1,4-6) ip assms(15), unfolded id]
  have p: "rx_seq_pending e ip sp s" "\<not> rx_seq_pending e2 ip sp s"
    using c(1-3) assms(1,10) by (simp_all add: rx_seq_pending_ids aun_wfD(1))
  have "m_seq_valid (e_map e2 ! i)" "m_last_rx_seq (e_map e2 ! i) = s"
    using rx_collect_accepts [OF aun_wfD(1) [OF assms(1)] assms(4-6) ip assms(15)] assms(7-9,11) by auto
  with retransmission_verdict [OF assms(2,3,12,11) refl disjI1 [OF p(1)], of m data e1 m1]
    retransmission_verdict [of e2 port ctrl ip sp i _ s m data e3 m3] c(4-6) assms p
  show ?thesis by simp
qed

text \<open>A DATA frame that cannot be queued is answered by a NAK when no block listens or the frame
  is too big, and by silence when every listening block is full; no queue changes.\<close>

theorem data_refused:
  assumes "initialised e" "trace_fn e = None"
    and "\<not> imm4 port (ctrl AND 0x7F)"
    and "map_find_by_ip e ip sp = Some i" "me = e_map e ! i"
    and "\<not> rx_seq_pending e ip sp s" "\<not> (m_seq_valid me \<and> m_last_rx_seq me = s)"
    and "case rx_match e port (m_stn me) (m_net me) of (None, sf) \<Rightarrow> True
       | (Some bi, sf) \<Rightarrow> length data > b_buf_size (e_rx e ! bi) \<or> length data > AUN_MAX_DATA"
    and "aun_udp_input e m ip sp (build_header AUN_TYPE_DATA port ctrl s @ data) = (e1, m1)"
  shows "e_rx e1 = e_rx e \<and> m1 = m \<and>
    transport e1 = (if rx_match e port (m_stn me) (m_net me) = (None, True) then transport e
      else after_send (transport e) ip sp (build_header AUN_TYPE_NAK port (ctrl AND 0x7F) s))"
proof -
  let ?v = "rx_data_verdict e ip sp port (ctrl AND 0x7F) s data"
  obtain r sf where m: "rx_match e port (m_stn me) (m_net me) = (r, sf)" by fastforce
  have v: "e_rx (snd ?v) = e_rx e \<and> trace_fn (snd ?v) = None \<and>
     transport (snd ?v) = (if rx_match e port (m_stn me) (m_net me) = (None, True) then transport e
      else after_send (transport e) ip sp (build_header AUN_TYPE_NAK port (ctrl AND 0x7F) s))"
    using assms(2,4-8) m
    by (cases r; cases sf) (auto simp: rx_data_verdict_def rx_data_source_known rx_deliver_def Let_def)
  then have "e1 = snd ?v" "m1 = m"
    using assms(9) udp_input_data [OF assms(1,3)] rx_data_untraced [OF assms(2)] by auto
  with v show ?thesis by simp
qed

section \<open>What inbound frames leave alone\<close>

lemma rx_deliver_frame [simp, engine_frame]:
  "tx (snd (snd (rx_deliver e port ctrl s n data))) = tx e"
  "himm (snd (snd (rx_deliver e port ctrl s n data))) = himm e"
  "transport (snd (snd (rx_deliver e port ctrl s n data))) = transport e"
  by (auto simp: rx_deliver_def Let_def split: prod.split option.split)

lemma aun_map_add_frame [simp, engine_frame]:
  "tx (snd (aun_map_add e n s ip p)) = tx e" "himm (snd (aun_map_add e n s ip p)) = himm e"
  "transport (snd (aun_map_add e n s ip p)) = transport e"
  "e_rx (snd (aun_map_add e n s ip p)) = e_rx e"
  "trace_fn (snd (aun_map_add e n s ip p)) = trace_fn e"
  by (auto simp: aun_map_add_def Let_def split: option.split)

lemma rx_data_source_frame [simp, engine_frame]:
  "tx (snd (rx_data_source e ip sp)) = tx e" "himm (snd (rx_data_source e ip sp)) = himm e"
  by (auto simp: rx_data_source_def Let_def split: option.split)

lemma rx_data_verdict_frame [simp, engine_frame]:
  "tx (snd (rx_data_verdict e ip sp port ctrl s data)) = tx e"
  "himm (snd (rx_data_verdict e ip sp port ctrl s data)) = himm e"
proof -
  let ?e = "snd (rx_data_source e ip sp)"
  have "tx e2 = tx e \<and> himm e2 = himm e" if "rx_deliver ?e port ctrl sn n data = (r, why, e2)" for sn n r why e2
    using rx_deliver_frame(1,2) [of ?e port ctrl sn n data] that by simp
  then show "tx (snd (rx_data_verdict e ip sp port ctrl s data)) = tx e"
    "himm (snd (rx_data_verdict e ip sp port ctrl s data)) = himm e"
    by (auto simp: rx_data_verdict_def Let_def case_prod_beta split: option.split prod.split)
qed

lemma rx_trace_frame [simp, engine_frame]:
  "tx (rx_trace e dp same ip sp port s v data) = tx e"
  "himm (rx_trace e dp same ip sp port s v data) = himm e"
  by (auto simp: rx_trace_def Let_def split: option.split)

lemma rx_data_frame [simp, engine_frame]:
  "tx (rx_data e ip sp port ctrl s data) = tx e" "himm (rx_data e ip sp port ctrl s data) = himm e"
  by (simp_all add: rx_data_def Let_def case_prod_beta)

lemma rx_broadcast_frame [simp, engine_frame]:
  "tx (rx_broadcast e ip sp port ctrl data) = tx e"
  "himm (rx_broadcast e ip sp port ctrl data) = himm e"
  "transport (rx_broadcast e ip sp port ctrl data) = transport e"
proof -
  have "tx e2 = tx e \<and> himm e2 = himm e \<and> transport e2 = transport e"
    if "rx_deliver e port ctrl s n data = (r, why, e2)" for s n r why e2
    using rx_deliver_frame [of e port ctrl s n data] that by simp
  then show "tx (rx_broadcast e ip sp port ctrl data) = tx e"
    "himm (rx_broadcast e ip sp port ctrl data) = himm e"
    "transport (rx_broadcast e ip sp port ctrl data) = transport e"
    by (auto simp: rx_broadcast_def split: option.split prod.split)
qed

lemma count_frame [simp, engine_frame]:
  "tx (count_rx_imm e) = tx e" "tx (count_replay e) = tx e" "tx (count_rx_bad e) = tx e"
  "himm (count_rx_imm e) = himm e" "himm (count_replay e) = himm e" "himm (count_rx_bad e) = himm e"
  "transport (count_rx_imm e) = transport e" "transport (count_replay e) = transport e"
  "himm_cache (count_rx_imm e) = himm_cache e" "himm_cache (count_replay e) = himm_cache e"
  "host_imm_enabled (count_rx_imm e) = host_imm_enabled e" "now_ms (count_rx_imm e) = now_ms e"
  "machine_id (count_rx_imm e) = machine_id e"
  by (simp_all add: count_rx_imm_def count_replay_def count_rx_bad_def now_ms_def)

lemma imm_tx_frame [simp, engine_frame]:
  "tx (rx_imm4_data e ip sp ctrl s data) = tx e" "tx (rx_immediate e ip sp port ctrl s data) = tx e"
  by (simp_all add: rx_imm4_data_def rx_immediate_def Let_def himm_hold_def send_imm_reply_eq)

lemma imm_held_frame:
  assumes "h_active (himm e)"
  shows "himm (rx_imm4_data e ip sp ctrl s data) = himm e"
    "himm (rx_immediate e ip sp port ctrl s data) = himm e"
  using assms by (simp_all add: rx_imm4_data_def rx_immediate_def Let_def send_imm_reply_eq)

lemma rx_ack_nak_frame [simp, engine_frame]:
  "himm (rx_ack_nak e ip sp ty s) = himm e" "transport (rx_ack_nak e ip sp ty s) = transport e"
  by (simp_all add: rx_ack_nak_def Let_def)

lemma rx_imm_reply_frame [simp, engine_frame]:
  "himm (fst (rx_imm_reply e m ip sp s data)) = himm e"
  "transport (fst (rx_imm_reply e m ip sp s data)) = transport e"
  by (simp_all add: rx_imm_reply_def Let_def)

text \<open>While an immediate operation is held for the host, no inbound datagram replaces or alters
  it.\<close>

theorem himm_held_until_answered:
  assumes "h_active (himm e)"
  shows "himm (fst (aun_udp_input e m ip sp buf)) = himm e"
  using assms by (simp add: aun_udp_input_def Let_def imm_held_frame)

section \<open>Transmissions\<close>

text \<open>The datagrams that the engine may still send for the current transmission.\<close>

definition tx_sends_left :: "aun_tx_t \<Rightarrow> nat" where
  "tx_sends_left t = t_reject_left t + (if t_reject_pending t then 1 else 0) + t_noresp_left t"

lemma poll_himm_idle:
  "\<not> (h_active (himm e) \<and> ms_reached (now_ms e) (h_due_ms (himm e))) \<Longrightarrow> poll_himm e = e"
  by (auto simp: poll_himm_def)

text \<open>When a pending transmission's deadline has passed, aun_poll ends it as not listening, or
  sends the very same datagram once more and uses up one of the at most ten retransmissions: no
  transmission stays pending for ever.\<close>

theorem aun_poll_tx_progress:
  assumes "initialised e" "t_state (tx e) = AUN_STATUS_PENDING"
    and "ms_reached (now_ms e) (t_deadline_ms (tx e))"
    and "\<not> (h_active (himm e) \<and> ms_reached (now_ms e) (h_due_ms (himm e)))"
  shows "if tx_sends_left (tx e) = t_reject_left (tx e)
    then transport (aun_poll e) = transport e \<and> aun_tx_status (aun_poll e) = AUN_TX_NOT_LISTENING
    else transport (aun_poll e) =
           after_send (transport e) (t_ip_be (tx e)) (t_udp_port (tx e)) (t_datagram (tx e)) \<and>
         tx_sends_left (tx (aun_poll e)) + 1 = tx_sends_left (tx e) \<and>
         t_datagram (tx (aun_poll e)) = t_datagram (tx e) \<and>
         (aun_tx_status (aun_poll e) = AUN_STATUS_PENDING \<or> aun_tx_status (aun_poll e) = AUN_TX_NET_ERROR)"
  using assms poll_himm_idle [OF assms(4)]
  by (simp add: aun_poll_def Let_def tx_sends_left_def tx_resend_def tx_fail_def aun_tx_status_def
      case_prod_beta snd_udp_send)

lemma tx_sends_left_ack:
  "tx_sends_left (tx (rx_ack_nak e ip sp ty s)) \<le> tx_sends_left (tx e)"
  "t_datagram (tx (rx_ack_nak e ip sp ty s)) = t_datagram (tx e)"
  by (auto simp: rx_ack_nak_def Let_def tx_sends_left_def)

lemma tx_sends_left_reply:
  "tx_sends_left (tx (fst (rx_imm_reply e m ip sp s data))) \<le> tx_sends_left (tx e)"
  "t_datagram (tx (fst (rx_imm_reply e m ip sp s data))) = t_datagram (tx e)"
  by (auto simp: rx_imm_reply_def Let_def tx_sends_left_def)

lemma tx_sends_left_input:
  "tx_sends_left (tx (fst (aun_udp_input e m ip sp buf))) \<le> tx_sends_left (tx e) \<and>
   t_datagram (tx (fst (aun_udp_input e m ip sp buf))) = t_datagram (tx e)"
  by (simp add: aun_udp_input_def Let_def tx_sends_left_ack tx_sends_left_reply)

lemma rx_ack_nak_other:
  "tx (rx_ack_nak e ip sp ty s) \<noteq> tx e \<Longrightarrow> ip = t_ip_be (tx e) \<and> sp = t_udp_port (tx e) \<and> s = t_seq (tx e)"
  by (auto simp: rx_ack_nak_def Let_def split: if_splits)

lemma rx_imm_reply_other:
  "tx (fst (rx_imm_reply e m ip sp s data)) \<noteq> tx e \<Longrightarrow>
   ip = t_ip_be (tx e) \<and> sp = t_udp_port (tx e) \<and> s = t_seq (tx e)"
  by (auto simp: rx_imm_reply_def Let_def split: if_splits)

text \<open>C32. An inbound datagram changes the pending transmission only if it is an ACK, NAK or
  immediate reply that comes from the addressed station and echoes the transmission's sequence
  number.\<close>

theorem tx_answer_matches:
  assumes "aun_udp_input e m ip sp buf = (e1, m1)" "tx e1 \<noteq> tx e"
  shows "AUN_HDR_SIZE \<le> length buf \<and> ip = t_ip_be (tx e) \<and> sp = t_udp_port (tx e) \<and>
     rd32le (drop 4 buf) = t_seq (tx e) \<and>
     buf ! 0 \<in> {AUN_TYPE_ACK, AUN_TYPE_NAK, AUN_TYPE_IMM_REPLY}"
proof -
  have e1: "tx (fst (aun_udp_input e m ip sp buf)) \<noteq> tx e" using assms by simp
  then consider "AUN_HDR_SIZE \<le> length buf" "buf ! 0 = AUN_TYPE_ACK \<or> buf ! 0 = AUN_TYPE_NAK"
      "tx (rx_ack_nak e ip sp (buf ! 0) (rd32le (drop 4 buf))) \<noteq> tx e"
    | "AUN_HDR_SIZE \<le> length buf" "buf ! 0 = AUN_TYPE_IMM_REPLY"
      "tx (fst (rx_imm_reply e m ip sp (rd32le (drop 4 buf)) (drop AUN_HDR_SIZE buf))) \<noteq> tx e"
    by (simp add: aun_udp_input_def Let_def split: if_splits)
  then show ?thesis
    by cases (auto dest: rx_ack_nak_other rx_imm_reply_other)
qed

text \<open>The only host memory an inbound datagram can change lies within the reply buffer of the
  pending immediate operation.\<close>

theorem udp_input_memory:
  assumes "aun_udp_input e m ip sp buf = (e1, m1)" "m1 x \<noteq> m x"
  shows "\<exists>a. t_reply_buf (tx e) = Some a \<and> a \<le> x \<and> x < a + t_reply_max (tx e) \<and>
     t_state (tx e) = AUN_STATUS_PENDING \<and> t_wire_type (tx e) = AUN_TYPE_IMMEDIATE"
proof -
  have "snd (aun_udp_input e m ip sp buf) x \<noteq> m x" using assms by simp
  then have "snd (rx_imm_reply e m ip sp (rd32le (drop 4 buf)) (drop AUN_HDR_SIZE buf)) x \<noteq> m x"
    by (simp add: aun_udp_input_def Let_def split: if_splits)
  then show ?thesis
    by (auto simp: rx_imm_reply_def Let_def copy_to_host_def mem_write_def split: if_splits option.splits)
qed

section \<open>Immediate operations for the host\<close>

lemma now_ms_world [simp]: "now_ms (e\<lparr>transport := (transport e)\<lparr>tr_user := u\<rparr>\<rparr>) = tr_now_ms (transport e) u"
  by (simp add: now_ms_def)

lemma himm_cache_store_fields [simp]:
  "transport (himm_cache_store e nak d) = transport e"
  "host_imm_enabled (himm_cache_store e nak d) = host_imm_enabled e"
  "initialised (himm_cache_store e nak d) = initialised e"
  "himm_cache (himm_cache_store e nak d) =
     \<lparr>hc_valid = True, hc_is_nak = nak, hc_from_data = h_from_data (himm e), hc_ctrl = h_ctrl (himm e),
      hc_seq = h_seq (himm e), hc_ip_be = h_ip_be (himm e), hc_port = h_port (himm e),
      hc_len = (if nak then 0 else length (take AUN_HIMM_MAX d)), hc_due_ms = now_ms e + AUN_HIMM_CACHE_MS,
      hc_data = (if \<not> nak \<and> length (take AUN_HIMM_MAX d) \<noteq> 0 then take AUN_HIMM_MAX d else hc_data (himm_cache e))\<rparr>"
  by (simp_all add: himm_cache_store_def Let_def)

lemma take_min_length [simp]: "take (min (length xs) n) xs = take n xs"
  by (simp add: min_def)

text \<open>A retransmission of the immediate operation that the host has answered last, within 6 s of the answer
  and with no other immediate operation in between, is answered from the cache with the very same reply datagram
  and is not held again.\<close>

theorem himm_replayed_immediate:
  fixes e :: "'u aun_engine_t"
  assumes h: "h = himm e" "h_active h" "\<not> h_from_data h" "h_ctrl h = ctrl AND 0x7F"
    and e: "initialised e" "host_imm_enabled e" "e1 = aun_himm_reply e reply"
    and req: "ctrl AND 0x7F \<noteq> AUN_CTRL_MACHINE_PEEK" "length data \<le> AUN_HIMM_MAX"
      "himm_len_ok (ctrl AND 0x7F) data"
    and later: "e2 = e1\<lparr>transport := (transport e1)\<lparr>tr_user := u\<rparr>\<rparr>" "now_ms e2 = now_ms e1 + of_nat n"
      "n < 6000"
    and again: "aun_udp_input e2 m (h_ip_be h) (h_port h)
           (build_header AUN_TYPE_IMMEDIATE port ctrl (h_seq h) @ data) = (e3, m3)"
  shows "transport e1 = after_send (transport e) (h_ip_be h) (h_port h)
           (build_header AUN_TYPE_IMM_REPLY 0 ctrl (h_seq h) @ take AUN_HIMM_MAX reply) \<and>
    transport e3 = after_send (transport e2) (h_ip_be h) (h_port h)
           (build_header AUN_TYPE_IMM_REPLY 0 ctrl (h_seq h) @ take AUN_HIMM_MAX reply) \<and>
    \<not> h_active (himm e1) \<and> himm e3 = himm e1"
proof -
  let ?d = "take AUN_HIMM_MAX reply"
  have hd: "build_header ty p (ctrl AND 0x7F) s = build_header ty p ctrl s" for ty p s
    by (simp add: build_header_def)
  have t1: "transport e1 = after_send (transport e) (h_ip_be h) (h_port h)
           (build_header AUN_TYPE_IMM_REPLY 0 ctrl (h_seq h) @ ?d)"
    using h e hd by (simp add: aun_himm_reply_def Let_def send_imm_reply_eq)
  have c1: "himm_cache e1 =
     \<lparr>hc_valid = True, hc_is_nak = False, hc_from_data = False, hc_ctrl = ctrl AND 0x7F,
      hc_seq = h_seq h, hc_ip_be = h_ip_be h, hc_port = h_port h,
      hc_len = length ?d, hc_due_ms = now_ms e1 + AUN_HIMM_CACHE_MS,
      hc_data = (if ?d \<noteq> [] then ?d else hc_data (himm_cache e))\<rparr>"
    using h e by (simp add: aun_himm_reply_def Let_def send_imm_reply_eq now_ms_def)
  have e1: "himm e1 = h\<lparr>h_active := False\<rparr>" "initialised e1" "host_imm_enabled e1"
    using h e by (simp_all add: aun_himm_reply_def Let_def send_imm_reply_eq)
  have fresh: "\<not> ms_reached (now_ms e1 + of_nat n) (now_ms e1 + 6000)"
    using ms_delay [of 6000 n "now_ms e1"] later(3) by simp
  have e2: "himm e2 = h\<lparr>h_active := False\<rparr>" "initialised e2" "host_imm_enabled e2"
      "himm_cache e2 = himm_cache e1"
    using e1 later(1) by simp_all
  have "himm_cached (count_rx_imm e2) False (h_ip_be h) (h_port h) (h_seq h)"
    using c1 e2(4) fresh later(2) by (simp add: himm_cached_def Let_def)
  then have "e3 = count_replay (send_imm_reply (count_rx_imm e2) (h_ip_be h) (h_port h)
      (ctrl AND 0x7F) (h_seq h) ?d)"
    using again e2 c1 req by (auto simp: aun_udp_input_def rx_immediate_def Let_def)
  then show ?thesis
    using t1 e1 e2 hd by (simp add: send_imm_reply_eq)
qed

text \<open>A held immediate that the host does not answer in time is refused with one NAK, the slot
  is released, the timeout counted, and the refusal cached for 6 s.\<close>

theorem himm_reaped:
  fixes e :: "'u aun_engine_t"
  assumes h: "h = himm e" "h_active h" "ms_reached (now_ms e) (h_due_ms h)" and e1: "e1 = poll_himm e"
    and later: "e2 = e1\<lparr>transport := (transport e1)\<lparr>tr_user := u\<rparr>\<rparr>" "now_ms e2 = now_ms e1 + of_nat n"
      "n < 6000"
  shows "transport e1 = after_send (transport e) (h_ip_be h) (h_port h)
      (build_header AUN_TYPE_NAK 0 (h_ctrl h) (h_seq h)) \<and>
    \<not> h_active (himm e1) \<and> k_himm_timeout (counters e1) = k_himm_timeout (counters e) + 1 \<and>
    himm_cached e2 (h_from_data h) (h_ip_be h) (h_port h) (h_seq h) \<and> hc_is_nak (himm_cache e2)"
proof -
  have k: "k_himm_timeout (counters (send_ack_nak e ip p ty ap c s)) = k_himm_timeout (counters e)" for ip p ty ap c s
    by (simp add: send_ack_nak_def case_prod_beta Let_def snd_udp_send)
  have c: "himm_cache e1 = \<lparr>hc_valid = True, hc_is_nak = True, hc_from_data = h_from_data h,
      hc_ctrl = h_ctrl h, hc_seq = h_seq h, hc_ip_be = h_ip_be h, hc_port = h_port h, hc_len = 0,
      hc_due_ms = now_ms e1 + AUN_HIMM_CACHE_MS, hc_data = hc_data (himm_cache e)\<rparr>"
    using h e1 by (simp add: poll_himm_def Let_def now_ms_def)
  have "\<not> ms_reached (now_ms e1 + of_nat n) (now_ms e1 + 6000)"
    using ms_delay [of 6000 n "now_ms e1"] later(3) by simp
  moreover have "himm_cache e2 = himm_cache e1" using later(1) by simp
  ultimately have "himm_cached e2 (h_from_data h) (h_ip_be h) (h_port h) (h_seq h)" "hc_is_nak (himm_cache e2)"
    using c later(2) by (simp_all add: himm_cached_def Let_def)
  moreover have "transport e1 = after_send (transport e) (h_ip_be h) (h_port h)
      (build_header AUN_TYPE_NAK 0 (h_ctrl h) (h_seq h))" "\<not> h_active (himm e1)"
      "k_himm_timeout (counters e1) = k_himm_timeout (counters e) + 1"
    using h k e1 by (simp_all add: poll_himm_def Let_def himm_cache_store_def)
  ultimately show ?thesis by simp
qed

section \<open>Pokes\<close>

lemma poke_splice_inverse:
  "4 \<le> length d \<Longrightarrow> take 4 (poke_splice d) @ drop 8 (poke_splice d) = d"
  by (simp add: poke_splice_def)

lemma poke_splice_count:
  "4 \<le> length d \<Longrightarrow> rd32le (drop 4 (poke_splice d)) = of_nat (length d - 4)"
  by (simp add: poke_splice_def)

lemma length_poke_splice: "4 \<le> length d \<Longrightarrow> length (poke_splice d) = length d + 4"
  by (simp add: poke_splice_def)

text \<open>A Poke survives the wire: the receiving station holds for its host exactly the start
  address and data that the sender spliced the byte count into.\<close>

theorem poke_roundtrip:
  fixes e :: "'u aun_engine_t"
  assumes d: "4 \<le> length d" "length d \<le> AUN_HIMM_MAX"
    and e: "initialised e" "host_imm_enabled e" "\<not> h_active (himm e)" "\<not> himm_cached e True ip sp s"
    and "aun_udp_input e m ip sp (build_header AUN_TYPE_DATA 0 (AUN_CTRL_POKE OR 0x80) s @ poke_splice d) = (e1, m1)"
  shows "h_active (himm e1) \<and> h_data (himm e1) = d \<and> h_len (himm e1) = length d \<and>
    h_ctrl (himm e1) = AUN_CTRL_POKE \<and> h_seq (himm e1) = s \<and> h_from_data (himm e1) \<and>
    transport e1 = transport e \<and> m1 = m"
proof -
  have "himm_cached (count_rx_imm e) True ip sp s = himm_cached e True ip sp s"
    by (simp add: himm_cached_def)
  moreover have "(length (poke_splice d) + (2 ^ 32 - 4)) mod 2 ^ 32 = length d"
    using poke_hold_len [of "length d + 4"] d length_poke_splice [OF d(1)] by simp
  ultimately have "e1 = himm_hold (count_rx_imm e) True ip sp AUN_CTRL_POKE s
      (take 4 (poke_splice d) @ drop 8 (poke_splice d))" "m1 = m"
    using assms length_poke_splice [OF d(1)]
    by (auto simp: aun_udp_input_def rx_imm4_data_def Let_def)
  then show ?thesis
    using poke_splice_inverse [OF d(1)] by (simp add: himm_hold_def)
qed


end
