(* ===== verification/AunEndToEnd.thy ===== *)
theory AunEndToEnd
  imports AunEngine
begin

text \<open>
  Two AUN engines back to back: the datagram that one engine transmits is the datagram that the
  other one's host is handed, and the acknowledgement of that host's collect completes the
  transmission.
\<close>

section \<open>A frame's journey\<close>

lemma aun_tx_start_sends:
  assumes "initialised e" "t_state (tx e) \<noteq> AUN_STATUS_PENDING" "length data \<le> AUN_MAX_DATA"
    and "\<not> (test_enabled e \<and> ds = test_stn e \<and> dn = test_net e)"
    and "tx_route e dn ds = Some (ip, sp)"
    and "dgram = build_header AUN_TYPE_DATA port ctrl (next_seq e) @ data"
    and "fst (tr_udp_send (transport e) (tr_user (transport e)) ip sp dgram)"
  shows "\<exists>e1. aun_tx_start e m dn ds ctrl port (Bytes data) = (AUN_OK, e1, m) \<and>
    transport e1 = after_send (transport e) ip sp dgram \<and> initialised e1 \<and> next_seq e1 = next_seq e + 4 \<and>
    t_state (tx e1) = AUN_STATUS_PENDING \<and> t_seq (tx e1) = next_seq e \<and> t_ip_be (tx e1) = ip \<and>
    t_udp_port (tx e1) = sp \<and> t_wire_type (tx e1) = AUN_TYPE_DATA \<and> t_datagram (tx e1) = dgram"
  using assms
  by (auto simp: aun_tx_start_def tx_begin_def Let_def case_prod_beta fst_udp_send snd_udp_send)

lemma ack_completes:
  assumes "initialised e" "t_state (tx e) = AUN_STATUS_PENDING" "t_wire_type (tx e) = AUN_TYPE_DATA"
  shows "aun_tx_status (fst (aun_udp_input e m (t_ip_be (tx e)) (t_udp_port (tx e))
    (build_header AUN_TYPE_ACK port ctrl (t_seq (tx e))))) = AUN_OK"
proof -
  have f: "build_header AUN_TYPE_ACK port ctrl s ! 0 = AUN_TYPE_ACK"
    "rd32le (drop 4 (build_header AUN_TYPE_ACK port ctrl s)) = s" for s
    using build_header_fields [of AUN_TYPE_ACK port ctrl s "[]"] by simp_all
  show ?thesis
    using assms by (simp add: aun_udp_input_def Let_def f rx_ack_nak_def aun_tx_status_def)
qed

lemma aun_wf_udp_input_step:
  "aun_wf e \<Longrightarrow> length buf < 2 ^ 32 \<Longrightarrow> aun_udp_input e m ip sp buf = (e1, m1) \<Longrightarrow> aun_wf e1"
  using aun_wf_udp_input [of e buf m ip sp] by simp

text \<open>C2. Two engines back to back, with B's receive block open and empty, nothing presented on it,
  no deferral of A's stream, the frame not seen before and tracing off: a DATA frame that A
  transmits is taken by B without sending anything, B's host polls it, again without sending
  anything, and finds exactly the transmitted bytes, port and control byte in its buffer, B's
  collect sends exactly one ACK, and that ACK completes A's transmission with AUN_OK.\<close>

theorem frame_end_to_end:
  fixes A :: "'u aun_engine_t" and B :: "'v aun_engine_t"
  assumes A: "initialised A" "t_state (tx A) \<noteq> AUN_STATUS_PENDING" "length data \<le> AUN_MAX_DATA"
      "\<not> (test_enabled A \<and> ds = test_stn A \<and> dn = test_net A)" "tx_route A dn ds = Some (ipB, spB)"
      "dgram = build_header AUN_TYPE_DATA port ctrl (next_seq A) @ data"
      "fst (tr_udp_send (transport A) (tr_user (transport A)) ipB spB dgram)"
    and B: "aun_wf B" "initialised B" "trace_fn B = None" "map_find_by_ip B ipA spA = Some i"
      "me = e_map B ! i" "ipA \<noteq> 0" "\<not> imm4 port (ctrl AND 0x7F)"
      "\<not> (m_seq_valid me \<and> m_last_rx_seq me = next_seq A)"
      "rx_match B port (m_stn me) (m_net me) = (Some h, sf)" "b = e_rx B ! h"
      "length data \<le> b_buf_size b" "b_buf b = Some a" "\<not> b_presented b" "b_count b = 0"
      "\<not> rx_seq_pending B ipA spA (next_seq A)"
      "\<forall>d \<in> set (b_defer b). \<not> (d_valid d \<and> defer_key d = (port, ipA, spA))"
    and steps: "aun_tx_start A mA dn ds ctrl port (Bytes data) = (rA, A1, mA1)"
      "aun_udp_input B mB ipA spA (t_datagram (tx A1)) = (B1, mB1)"
      "aun_rx_poll B1 mB1 h = (rP, info, B2, mB2)"
      "aun_rx_collect B2 h True = (rC, B3)"
      "ack = build_header AUN_TYPE_ACK port (ctrl OR 0x80) (next_seq A)"
      "aun_udp_input A1 mA1 ipB spB ack = (A2, mA2)"
  shows "rA = AUN_OK \<and> transport A1 = after_send (transport A) ipB spB dgram \<and>
    transport B1 = transport B \<and> transport B2 = transport B \<and> rP = AUN_OK \<and> info = Some \<lparr>i_src_stn = m_stn me, i_src_net = m_net me, i_port = port,
      i_ctrl = (ctrl AND 0x7F) OR 0x80, i_len = length data\<rparr> \<and>
    mem_read mB2 a (length data) = data \<and>
    rC = AUN_OK \<and> transport B3 = after_send (transport B) ipA spA ack \<and> aun_tx_status A2 = AUN_OK"
proof -
  let ?f = "delivered_frame port (ctrl AND 0x7F) (m_stn me) (m_net me) data (next_seq A) ipA spA"
  have A1: "rA = AUN_OK" "transport A1 = after_send (transport A) ipB spB dgram" "initialised A1"
      "t_state (tx A1) = AUN_STATUS_PENDING" "t_seq (tx A1) = next_seq A" "t_ip_be (tx A1) = ipB"
      "t_udp_port (tx A1) = spB" "t_wire_type (tx A1) = AUN_TYPE_DATA" "t_datagram (tx A1) = dgram"
    using aun_tx_start_sends [OF A, of mA] steps(1) by auto
  have q: "h < length (e_rx B)" "b_open b" "block_wf b" "b_count b < AUN_RX_QUEUE"
      "mB1 = mB" "\<exists>k. B1 = (set_rx B h (rx_put b ?f))\<lparr>counters := k\<rparr>"
    using data_queued_state [OF B(1-3,7,4,5,15,8,9) B(11) [unfolded B(10)] A(3), of mB] steps(2) A1(9) A(6) B(10)
    by auto
  then have B1: "transport B1 = transport B" "e_rx B1 ! h = rx_put b ?f" "aun_wf B1" "rx_is_open B1 h"
    using aun_wf_udp_input_step [OF B(1) _ steps(2)] B(1) A1(9) A(3,6)
    by (auto simp: rx_is_open_def aun_wf_def rx_wf_def)
  have "ring_wf b" using q(3) by (simp add: block_wf_def)
  then have queue: "rx_queue (rx_put b ?f) = [?f]" "block_wf (rx_put b ?f)"
    using q(4) B(14) B1(2) rx_wfD [OF aun_wfD(1) [OF B1(3)] B1(4)]
    by (simp_all add: rx_queue_put rx_queue_def [of b])
  have nw: "\<not> frame_waiting t (b_defer b) ?f" for t
    using B(16) by (auto simp: frame_waiting_def list_ex_iff frame_stream_def delivered_frame_def)
  then have c: "rx_choice (now_ms B1) (e_rx B1 ! h) = Some 0"
    using B1 queue B(13) by (simp add: rx_choice_def)
  obtain b1 where b1: "refreshes (now_ms B1) (rx_put b ?f) b1"
      "aun_rx_poll B1 mB1 h = rx_poll_result B1 mB1 h b1"
    using aun_rx_poll_choice [OF B1(4), of mB1] queue B1(2) B(13) by auto
  have q0: "q_at (rx_put b ?f) 0 = ?f"
    using queue nth_rx_queue [of 0 "rx_put b ?f"] by simp
  then have B2: "rP = AUN_OK" "info = Some (rx_info ?f)" "mB2 = mem_write mB a data"
      "B2 = set_rx B1 h (b1\<lparr>b_pres_off := 0, b_presented := True\<rparr>)"
    using b1(2) c steps(3) B1(2) q(5) B(12) by (auto simp: copy_to_host_def delivered_frame_def)
  have wf2: "rx_wf B2" using rx_wf_poll [OF aun_wfD(1) [OF B1(3)], of mB1 h] steps(3) by simp
  have blk: "e_rx B2 ! h = b1\<lparr>b_pres_off := 0, b_presented := True\<rparr>" "rx_is_open B2 h"
    using B2(4) B1 q(1,2) refreshes_fields [OF b1(1)] by (auto simp: rx_is_open_def aun_wf_def rx_wf_def)
  have "rx_choice (now_ms B2) (e_rx B2 ! h) = Some 0" "rx_queue (e_rx B2 ! h) ! 0 = ?f"
    using blk queue refreshes_fields [OF b1(1)] by (simp_all add: rx_choice_def)
  with rx_collect_accepts [OF wf2 blk(2), of 0 ?f rC B3] steps(4) B(6)
  have "rC = AUN_OK" "transport B3 = after_send (transport B2) ipA spA
      (build_header AUN_TYPE_ACK port ((ctrl AND 0x7F) OR 0x80) (next_seq A))"
    by (simp_all add: delivered_frame_def)
  moreover have "build_header AUN_TYPE_ACK port ((ctrl AND 0x7F) OR 0x80) (next_seq A) = ack"
    using steps(5) by (simp add: build_header_def)
  moreover have "aun_tx_status A2 = AUN_OK"
    using ack_completes [OF A1(3,4,8), of mA1 port "ctrl OR 0x80"] A1(5-7) steps(5,6) by simp
  ultimately show ?thesis
    using A1(1,2) B2 B1(1) mem_read_write [of mB a data] by (simp add: rx_info_def delivered_frame_def)
qed

end
