(* ===== verification/AunDemo.thy ===== *)
theory AunDemo
  imports AunEndToEnd
begin

text \<open>
  Concrete stations that satisfy the hypotheses of the theorems about the AUN engine, and the
  theorems applied to them.  The demonstration world records every datagram handed to the
  transport and has a clock that stands still.
\<close>

section \<open>Stations\<close>

type_synonym demo_world = "u32 \<times> (u32 \<times> u16 \<times> u8 list) list"

definition demo_transport :: "demo_world aun_transport_t" where
  "demo_transport =
     \<lparr>tr_udp_send = (\<lambda>(t, out) ip port bs. (True, (t, out @ [(ip, port, bs)]))), tr_now_ms = fst,
      tr_user = (1000, [])\<rparr>"

definition demo_mem :: mem where
  "demo_mem = (\<lambda>_. 0)"

definition demo_engine :: "demo_world aun_engine_t" where
  "demo_engine = snd (aun_rx_open (snd (aun_map_add (aun_init demo_transport 10 0) 0 20 0x0A000014 32768))
     0 0x99 0xFF 0xFF (Some 4096) 512)"

definition demo_frame :: "u8 list" where
  "demo_frame = build_header AUN_TYPE_DATA 0x99 0x80 100 @ [1, 2, 3]"

definition demo_queued :: "demo_world aun_engine_t" where
  "demo_queued = fst (aun_udp_input demo_engine demo_mem 0x0A000014 32768 demo_frame)"

definition demo_parked :: "demo_world aun_engine_t" where
  "demo_parked = snd (aun_rx_collect demo_queued 0 False)"

text \<open>A transmission of two bytes to the same station.\<close>

definition demo_sending :: "demo_world aun_engine_t" where
  "demo_sending = demo_engine\<lparr>tx := tx_zero\<lparr>t_state := AUN_STATUS_PENDING, t_wire_type := AUN_TYPE_DATA,
     t_seq := 4, t_ip_be := 0x0A000014, t_udp_port := 32768,
     t_datagram := build_header AUN_TYPE_DATA 0x99 0x80 4 @ [7, 8], t_len := 10, t_deadline_ms := 2000,
     t_reject_left := AUN_REJECT_RETRIES\<rparr>\<rparr>"

text \<open>A frame whose reject budget is spent: 250 rejects are charged to it.\<close>

definition demo_spent :: "demo_world aun_engine_t" where
  "demo_spent = set_rx demo_engine 0 (rx_put (e_rx demo_engine ! 0)
     ((delivered_frame 0x99 0 20 0 [1, 2, 3] 100 0x0A000014 32768)\<lparr>f_rejects := 250\<rparr>))"

text \<open>The transmission of \<open>demo_sending\<close>, one second later.\<close>

definition demo_waited :: "demo_world aun_engine_t" where
  "demo_waited = demo_sending\<lparr>transport := (transport demo_sending)\<lparr>tr_user := (2000, [])\<rparr>\<rparr>"

text \<open>A station that answers immediate operations, holding a Peek of 16 bytes.\<close>

definition demo_peek :: "u8 list" where
  "demo_peek = [0x00, 0x30, 0xFF, 0xFF, 0x10, 0x30, 0xFF, 0xFF]"

definition demo_held :: "demo_world aun_engine_t" where
  "demo_held = demo_engine\<lparr>host_imm_enabled := True, himm := himm_zero\<lparr>h_active := True, h_ctrl := 1,
     h_seq := 200, h_ip_be := 0x0A000014, h_port := 32768, h_len := 8, h_due_ms := 3000, h_gen := 1,
     h_data := demo_peek\<rparr>\<rparr>"

definition demo_answered :: "demo_world aun_engine_t" where
  "demo_answered = aun_himm_reply demo_held [42]"

definition demo_expired :: "demo_world aun_engine_t" where
  "demo_expired = demo_held\<lparr>transport := (transport demo_held)\<lparr>tr_user := (9000, [])\<rparr>\<rparr>"

text \<open>A pending Peek whose four-byte reply buffer is at address 64.\<close>

definition demo_peeking :: "demo_world aun_engine_t" where
  "demo_peeking = demo_engine\<lparr>tx := tx_zero\<lparr>t_state := AUN_STATUS_PENDING, t_wire_type := AUN_TYPE_IMMEDIATE,
     t_seq := 4, t_ip_be := 0x0A000014, t_udp_port := 32768, t_reply_buf := Some 64, t_reply_max := 4\<rparr>\<rparr>"

text \<open>
  The sender of the end-to-end run: station 20 at 10.0.0.20 (as in \<open>demo_engine\<close>'s map), which
  knows station 10 at 10.0.0.10.
\<close>

definition demo_sender :: "demo_world aun_engine_t" where
  "demo_sender = snd (aun_map_add (aun_init demo_transport 20 0) 0 10 0x0A00000A 32768)"

section \<open>The theorems at work\<close>

lemma replicate_2: "replicate 2 x = [x, x]"
  by (simp add: numeral_2_eq_2)

lemmas demo_simps = demo_engine_def demo_transport_def demo_mem_def aun_init_def aun_rx_open_def
  aun_map_add_def map_find_by_addr_def map_find_by_ip_def rx_seq_pending_def rx_match_def rx_accepts_def
  rx_block_zero_def set_rx_def now_ms_def rx_is_open_def replicate_2

lemma demo_engine_wf: "aun_wf demo_engine"
  unfolding demo_engine_def by (intro aun_wf_open aun_wf_map_add aun_wf_init)

lemma demo_queued_wf: "aun_wf demo_queued"
  unfolding demo_queued_def by (intro aun_wf_udp_input demo_engine_wf) (simp add: demo_frame_def)

lemma demo_queued_ready:
  "rx_wf demo_queued" "rx_is_open demo_queued 0" "\<not> b_presented (e_rx demo_queued ! 0)"
  "rx_choice (now_ms demo_queued) (e_rx demo_queued ! 0) = Some 0"
  "f_src_ip_be (rx_queue (e_rx demo_queued ! 0) ! 0) \<noteq> 0" "b_buf (e_rx demo_queued ! 0) = Some 4096"
  by (simp add: demo_queued_wf aun_wfD) code_simp+

lemma demo_engine_known:
  "initialised demo_engine" "trace_fn demo_engine = None"
  "map_find_by_ip demo_engine 0x0A000014 32768 = Some 0"
  "\<not> rx_seq_pending demo_engine 0x0A000014 32768 100"
  "\<not> (m_seq_valid (e_map demo_engine ! 0) \<and> m_last_rx_seq (e_map demo_engine ! 0) = 100)"
  "rx_match demo_engine 0x99 (m_stn (e_map demo_engine ! 0)) (m_net (e_map demo_engine ! 0)) = (Some 0, False)"
  "length [1, 2, 3 :: u8] \<le> b_buf_size (e_rx demo_engine ! 0)" "b_count (e_rx demo_engine ! 0) = 0"
  by code_simp+

lemma demo_frame_in:
  "aun_udp_input demo_engine demo_mem 0x0A000014 32768 (build_header AUN_TYPE_DATA 0x99 0x80 100 @ [1, 2, 3]) =
     (demo_queued, snd (aun_udp_input demo_engine demo_mem 0x0A000014 32768 demo_frame))"
  by (simp add: demo_queued_def demo_frame_def)

theorem data_queued_silently_witness:
  "transport demo_queued = transport demo_engine \<and>
   rx_queue (e_rx demo_queued ! 0) = rx_queue (e_rx demo_engine ! 0) @
     [delivered_frame 0x99 (0x80 AND 0x7F) (m_stn (e_map demo_engine ! 0)) (m_net (e_map demo_engine ! 0))
        [1, 2, 3] 100 0x0A000014 32768]"
  using data_queued_silently [OF demo_engine_wf demo_engine_known(1,2) _ demo_engine_known(3) refl
      demo_engine_known(4-7) _ demo_frame_in] by simp

theorem data_retransmission_witness:
  "let e = snd (aun_rx_collect demo_queued 0 True) in
   e_rx (fst (aun_udp_input demo_queued demo_mem 0x0A000014 32768 demo_frame)) = e_rx demo_queued \<and>
   transport (fst (aun_udp_input e demo_mem 0x0A000014 32768 demo_frame)) =
     after_send (transport e) 0x0A000014 32768 (build_header AUN_TYPE_ACK 0x99 (0x80 AND 0x7F) 100)"
proof -
  have q: "initialised demo_queued" "trace_fn demo_queued = None" "map_find_by_ip demo_queued 0x0A000014 32768 = Some 0"
    "f_src_ip_be (rx_queue (e_rx demo_queued ! 0) ! 0) = 0x0A000014" "f_src_port (rx_queue (e_rx demo_queued ! 0) ! 0) = 32768"
    "f_seq (rx_queue (e_rx demo_queued ! 0) ! 0) = 100"
    by code_simp+
  show ?thesis
    using data_retransmission [OF demo_queued_wf q(1,2) demo_queued_ready(2,4) refl q(4-6) _ q(3) _ refl surjective_pairing surjective_pairing surjective_pairing,
        where port = "0x99" and ctrl = "0x80" and m = demo_mem and data = "[1, 2, 3]"]
    by (simp add: Let_def demo_frame_def)
qed

theorem data_refused_witness:
  "transport (fst (aun_udp_input demo_engine demo_mem 0x0A000014 32768 (build_header AUN_TYPE_DATA 0x98 0x80 100 @ [1]))) =
   after_send (transport demo_engine) 0x0A000014 32768 (build_header AUN_TYPE_NAK 0x98 (0x80 AND 0x7F) 100)"
proof -
  have "rx_match demo_engine 0x98 (m_stn (e_map demo_engine ! 0)) (m_net (e_map demo_engine ! 0)) = (None, False)"
    by code_simp
  with data_refused [OF demo_engine_known(1,2) _ demo_engine_known(3) refl demo_engine_known(4,5) _ surjective_pairing,
      where port = "0x98" and ctrl = "0x80" and m = demo_mem and data = "[1]"]
  show ?thesis by simp
qed

theorem aun_rx_poll_presents_oldest_witness:
  "mem_read (snd (snd (snd (aun_rx_poll demo_queued demo_mem 0)))) 4096 3 = [1, 2, 3]"
proof -
  have q: "rx_queue (e_rx demo_queued ! 0) = [delivered_frame 0x99 0 20 0 [1, 2, 3] 100 0x0A000014 32768]"
    by code_simp
  from demo_queued_ready(3,4) have "find_index (\<lambda>f. \<not> frame_waiting (now_ms demo_queued)
      (b_defer (e_rx demo_queued ! 0)) f) (rx_queue (e_rx demo_queued ! 0)) = Some 0"
    by (simp add: rx_choice_def)
  from aun_rx_poll_presents_oldest [OF demo_queued_ready(1-3) this refl demo_queued_ready(6), of demo_mem]
  show ?thesis
    by (cases "aun_rx_poll demo_queued demo_mem 0") (auto simp: q delivered_frame_def numeral_3_eq_3)
qed

theorem aun_rx_poll_stable_witness:
  "fst (aun_rx_poll (fst (snd (snd (aun_rx_poll demo_queued demo_mem 0)))) demo_mem 0) = AUN_OK"
proof -
  have "fst (aun_rx_poll demo_queued demo_mem 0) = AUN_OK" by code_simp
  with aun_rx_poll_stable [OF demo_queued_ready(1), of demo_mem 0] show ?thesis
    by (cases "aun_rx_poll demo_queued demo_mem 0") auto
qed

theorem aun_rx_ready_iff_poll_witness:
  "0 < fst (aun_rx_ready demo_queued 0) \<and> fst (aun_rx_poll demo_queued demo_mem 0) = AUN_OK"
proof -
  have "fst (aun_rx_poll demo_queued demo_mem 0) = AUN_OK" by code_simp
  with aun_rx_ready_iff_poll [OF demo_queued_ready(1-3), of demo_mem] show ?thesis by blast
qed

theorem aun_rx_collect_stream_order_witness:
  "filter (\<lambda>g. frame_stream g = (0x99, 0x0A000014, 32768)) (rx_queue (e_rx demo_queued ! 0)) =
   rx_queue (e_rx demo_queued ! 0) ! 0 #
     filter (\<lambda>g. frame_stream g = (0x99, 0x0A000014, 32768)) (rx_queue (e_rx (snd (aun_rx_collect demo_queued 0 True)) ! 0))"
proof -
  have "frame_stream (rx_queue (e_rx demo_queued ! 0) ! 0) = (0x99, 0x0A000014, 32768)" by code_simp
  with aun_rx_collect_stream_order [OF demo_queued_ready(1,2,4) surjective_pairing,
      of "(0x99, 0x0A000014, 32768)"] show ?thesis by simp
qed

lemma demo_rejects:
  "f_rejects (rx_queue (e_rx demo_queued ! 0) ! 0) <
     (if stream_condemned (now_ms demo_queued) (condemned demo_queued) (rx_queue (e_rx demo_queued ! 0) ! 0)
      then AUN_CONDEMN_RETRIES else AUN_DEFER_RETRIES)"
  by code_simp

theorem aun_rx_collect_parks_witness:
  "transport demo_parked = transport demo_queued \<and>
   frame_waiting (now_ms demo_queued + of_nat 7) (b_defer (e_rx demo_parked ! 0)) (rx_queue (e_rx demo_queued ! 0) ! 0) \<and>
   \<not> frame_waiting (now_ms demo_queued + of_nat 8) (b_defer (e_rx demo_parked ! 0)) (rx_queue (e_rx demo_queued ! 0) ! 0)"
proof -
  note p = aun_rx_collect_parks [OF demo_queued_ready(1,2,4) refl demo_queued_ready(5) demo_rejects
      surjective_pairing refl, folded demo_parked_def]
  then have "n < 2 ^ 31 \<Longrightarrow> frame_waiting (now_ms demo_queued + of_nat n) (b_defer (e_rx demo_parked ! 0))
      (rx_queue (e_rx demo_queued ! 0) ! 0) = (n < 8)" for n by blast
  from this [of 7] this [of 8] p show ?thesis by simp
qed

lemma demo_spent_queue:
  "rx_queue (e_rx demo_spent ! 0) =
     [(delivered_frame 0x99 0 20 0 [1, 2, 3] 100 0x0A000014 32768)\<lparr>f_rejects := 250\<rparr>]"
  by (simp add: demo_spent_def demo_simps rx_put_def rx_slot_def rx_queue_def q_at_def)

lemma demo_spent_wf: "aun_wf demo_spent"
  unfolding demo_spent_def
  by (intro aun_wf_put demo_engine_wf)
     (simp_all add: demo_simps frame_wf_def delivered_frame_def queued_ids_def block_ids_def rx_queue_def)

lemma demo_spent_ready:
  "rx_wf demo_spent" "rx_is_open demo_spent 0"
  "rx_choice (now_ms demo_spent) (e_rx demo_spent ! 0) = Some 0"
  "f_src_ip_be (rx_queue (e_rx demo_spent ! 0) ! 0) \<noteq> 0"
  "f_rejects (rx_queue (e_rx demo_spent ! 0) ! 0) \<ge>
     (if stream_condemned (now_ms demo_spent) (condemned demo_spent) (rx_queue (e_rx demo_spent ! 0) ! 0)
      then AUN_CONDEMN_RETRIES else AUN_DEFER_RETRIES)"
proof -
  show "rx_wf demo_spent" using demo_spent_wf by (rule aun_wfD)
  show "rx_is_open demo_spent 0"
    by (simp add: demo_spent_def demo_simps rx_put_def)
  have "\<not> b_presented (e_rx demo_spent ! 0)" "b_defer (e_rx demo_spent ! 0) = replicate 8 defer_zero"
    by (simp_all add: demo_spent_def demo_simps rx_put_def)
  then show "rx_choice (now_ms demo_spent) (e_rx demo_spent ! 0) = Some 0"
    by (simp add: rx_choice_def demo_spent_queue frame_waiting_def defer_zero_def list_ex_iff)
qed (simp_all add: demo_spent_queue delivered_frame_def)

theorem aun_rx_collect_sheds_witness:
  "k_rx_parked_drop (counters (snd (aun_rx_collect demo_spent 0 False))) =
     k_rx_parked_drop (counters demo_spent) + 1"
  using aun_rx_collect_sheds [OF demo_spent_ready(1-3) refl demo_spent_ready(4,5) surjective_pairing] by simp

theorem aun_rx_collect_progress_witness:
  "rx_budget (rx_queue (e_rx (snd (aun_rx_collect demo_queued 0 False)) ! 0)) <
   rx_budget (rx_queue (e_rx demo_queued ! 0))"
  using aun_rx_collect_progress [OF demo_queued_ready(1,2,4) surjective_pairing] by blast

theorem aun_poll_tx_progress_witness:
  "aun_tx_status (aun_poll demo_waited) = AUN_TX_NOT_LISTENING"
proof -
  have "initialised demo_waited" "t_state (tx demo_waited) = AUN_STATUS_PENDING"
    "ms_reached (now_ms demo_waited) (t_deadline_ms (tx demo_waited))"
    "\<not> (h_active (himm demo_waited) \<and> ms_reached (now_ms demo_waited) (h_due_ms (himm demo_waited)))"
    by (simp_all add: demo_waited_def demo_sending_def demo_simps tx_zero_def himm_zero_def)
  note p = aun_poll_tx_progress [OF this]
  have "tx_sends_left (tx demo_waited) = t_reject_left (tx demo_waited)"
    by (simp add: demo_waited_def demo_sending_def tx_zero_def tx_sends_left_def)
  with p show ?thesis by simp
qed

theorem tx_answer_matches_witness:
  "rd32le (drop 4 (build_header AUN_TYPE_ACK 0x99 0x80 4)) = t_seq (tx demo_sending)"
proof -
  have "t_state (tx (fst (aun_udp_input demo_sending demo_mem 0x0A000014 32768
      (build_header AUN_TYPE_ACK 0x99 0x80 4)))) \<noteq> t_state (tx demo_sending)"
    using build_header_fields [of AUN_TYPE_ACK "0x99" "0x80" 4 "[]"]
    by (simp add: aun_udp_input_def rx_ack_nak_def Let_def demo_sending_def demo_simps tx_zero_def)
  then have "tx (fst (aun_udp_input demo_sending demo_mem 0x0A000014 32768
      (build_header AUN_TYPE_ACK 0x99 0x80 4))) \<noteq> tx demo_sending" by metis
  from tx_answer_matches [OF surjective_pairing this] show ?thesis by blast
qed

lemma demo_held_active:
  "h_active (himm demo_held)" "\<not> h_from_data (himm demo_held)" "h_ctrl (himm demo_held) = 0x81 AND 0x7F"
  "initialised demo_held" "host_imm_enabled demo_held" "himm_len_ok (0x81 AND 0x7F) demo_peek"
  "length demo_peek \<le> AUN_HIMM_MAX"
  by (simp_all add: demo_held_def demo_simps himm_len_ok_def demo_peek_def rd16le_def himm_zero_def)

theorem himm_held_until_answered_witness:
  "himm (fst (aun_udp_input demo_held demo_mem 1 1 demo_frame)) = himm demo_held"
  by (rule himm_held_until_answered [OF demo_held_active(1)])

theorem himm_replayed_immediate_witness:
  "transport (fst (aun_udp_input demo_answered demo_mem (h_ip_be (himm demo_held)) (h_port (himm demo_held))
      (build_header AUN_TYPE_IMMEDIATE 0 0x81 (h_seq (himm demo_held)) @ demo_peek))) =
   after_send (transport demo_answered) (h_ip_be (himm demo_held)) (h_port (himm demo_held))
     (build_header AUN_TYPE_IMM_REPLY 0 0x81 (h_seq (himm demo_held)) @ [42])"
proof -
  have "demo_answered = demo_answered\<lparr>transport := (transport demo_answered)\<lparr>tr_user := tr_user (transport demo_answered)\<rparr>\<rparr>"
    "now_ms demo_answered = now_ms demo_answered + of_nat 0" "(0x81 AND 0x7F :: u8) \<noteq> AUN_CTRL_MACHINE_PEEK"
    by simp_all
  from himm_replayed_immediate [OF refl demo_held_active(1-5) demo_answered_def this(3) demo_held_active(7,6)
      this(1,2) _ surjective_pairing] show ?thesis by simp
qed

theorem himm_reaped_witness:
  "\<not> h_active (himm (poll_himm demo_expired)) \<and> hc_is_nak (himm_cache (poll_himm demo_expired))"
proof -
  have "h_active (himm demo_expired)" "ms_reached (now_ms demo_expired) (h_due_ms (himm demo_expired))"
    by (simp_all add: demo_expired_def demo_held_def demo_simps ms_reached_unat)
  moreover have "poll_himm demo_expired = (poll_himm demo_expired)
      \<lparr>transport := (transport (poll_himm demo_expired))\<lparr>tr_user := tr_user (transport (poll_himm demo_expired))\<rparr>\<rparr>"
    "now_ms (poll_himm demo_expired) = now_ms (poll_himm demo_expired) + of_nat 0"
    by simp_all
  ultimately show ?thesis using himm_reaped [OF refl _ _ refl, of demo_expired] by fastforce
qed

theorem aun_reachable_wf_witness: "aun_wf (fst (aun_poll (aun_init demo_transport 10 0), demo_mem))"
  by (rule aun_reachable_wf [OF aun_reachable.step [OF aun_reachable.init aun_step.poll]])

theorem poke_roundtrip_witness:
  "h_data (himm (fst (aun_udp_input (aun_set_host_imm demo_engine True) demo_mem 1 1
     (build_header AUN_TYPE_DATA 0 (AUN_CTRL_POKE OR 0x80) 7 @ poke_splice [1, 2, 3, 4, 5])))) = [1, 2, 3, 4, 5]"
proof -
  let ?e = "aun_set_host_imm demo_engine True"
  have "initialised ?e" "host_imm_enabled ?e" "\<not> h_active (himm ?e)" "\<not> himm_cached ?e True 1 1 7"
    by (simp_all add: aun_set_host_imm_def demo_simps himm_cached_def himm_cache_zero_def)
  from poke_roundtrip [OF _ _ this surjective_pairing, of "[1, 2, 3, 4, 5]" demo_mem] show ?thesis by simp
qed

theorem learn_roundtrip_witness:
  "learn_resolve (aun_set_addressing demo_engine 0 0x0000000A 0x00FFFFFF 0) 0 20 = Some (0x1400000A, 32768)"
  by (rule learn_roundtrip)
     (simp_all add: learn_attribute_def aun_set_addressing_def Let_def)

theorem udp_input_memory_witness:
  "\<exists>a. t_reply_buf (tx demo_peeking) = Some a \<and> a \<le> 64 \<and> 64 < a + t_reply_max (tx demo_peeking)"
proof -
  have "snd (aun_udp_input demo_peeking demo_mem 0x0A000014 32768 (build_header AUN_TYPE_IMM_REPLY 0 0x81 4 @ [9])) 64
      \<noteq> demo_mem 64"
    by (simp add: aun_udp_input_def rx_imm_reply_def Let_def demo_peeking_def demo_simps tx_zero_def
        copy_to_host_def mem_write_def)
  from udp_input_memory [OF surjective_pairing this] show ?thesis by blast
qed

theorem frame_end_to_end_witness:
  "\<exists>A1 B1 B2 B3 A2 mA mB1 mB2 mA2 info.
     aun_tx_start demo_sender demo_mem 0 10 0x80 0x99 (Bytes [1, 2, 3]) = (AUN_OK, A1, mA) \<and>
     aun_udp_input demo_engine demo_mem 0x0A000014 32768 (t_datagram (tx A1)) = (B1, mB1) \<and>
     aun_rx_poll B1 mB1 0 = (AUN_OK, info, B2, mB2) \<and> mem_read mB2 4096 3 = [1, 2, 3] \<and>
     aun_rx_collect B2 0 True = (AUN_OK, B3) \<and>
     aun_udp_input A1 mA 0x0A00000A 32768 (build_header AUN_TYPE_ACK 0x99 0x80 4) = (A2, mA2) \<and>
     aun_tx_status A2 = AUN_OK"
proof -
  let ?d = "[1, 2, 3] :: u8 list"
  have A: "initialised demo_sender" "t_state (tx demo_sender) \<noteq> AUN_STATUS_PENDING"
    "\<not> (test_enabled demo_sender \<and> (10 :: u8) = test_stn demo_sender \<and> 0 = test_net demo_sender)"
    "tx_route demo_sender 0 10 = Some (0x0A00000A, 32768)" "next_seq demo_sender = 4"
    "fst (tr_udp_send (transport demo_sender) (tr_user (transport demo_sender)) 0x0A00000A 32768 dg)" for dg
    by (simp_all add: demo_sender_def demo_simps tx_zero_def tx_route_def)
  have B: "\<not> (m_seq_valid (e_map demo_engine ! 0) \<and> m_last_rx_seq (e_map demo_engine ! 0) = next_seq demo_sender)"
    "b_buf (e_rx demo_engine ! 0) = Some 4096" "\<not> b_presented (e_rx demo_engine ! 0)"
    "\<not> rx_seq_pending demo_engine 0x0A000014 32768 (next_seq demo_sender)"
    "\<forall>d \<in> set (b_defer (e_rx demo_engine ! 0)). \<not> (d_valid d \<and> defer_key d = (0x99, 0x0A000014, 32768))"
    by (simp_all add: demo_simps defer_zero_def)
  obtain rA A1 mA B1 mB1 rP info B2 mB2 rC B3 A2 mA2 where s:
    "aun_tx_start demo_sender demo_mem 0 10 0x80 0x99 (Bytes ?d) = (rA, A1, mA)"
    "aun_udp_input demo_engine demo_mem 0x0A000014 32768 (t_datagram (tx A1)) = (B1, mB1)"
    "aun_rx_poll B1 mB1 0 = (rP, info, B2, mB2)" "aun_rx_collect B2 0 True = (rC, B3)"
    "aun_udp_input A1 mA 0x0A00000A 32768 (build_header AUN_TYPE_ACK 0x99 (0x80 OR 0x80) (next_seq demo_sender)) = (A2, mA2)"
    by (metis surjective_pairing)
  from frame_end_to_end [OF A(1,2) _ A(3,4) refl A(6) demo_engine_wf demo_engine_known(1-3) refl _ _
      B(1) demo_engine_known(6) refl demo_engine_known(7) B(2,3) demo_engine_known(8) B(4,5) s(1-4) refl s(5)] s A(5)
  show ?thesis by (simp add: numeral_3_eq_3)
qed

theorem aun_rx_collect_acks_witness:
  "transport (snd (aun_rx_collect demo_queued 0 True)) =
   (let f = rx_queue (e_rx demo_queued ! 0) ! 0
    in after_send (transport demo_queued) (f_src_ip_be f) (f_src_port f)
         (build_header AUN_TYPE_ACK (f_port f) (f_ctrl f) (f_seq f)))"
  using aun_rx_collect_acks [OF demo_queued_ready(1,2,4) refl demo_queued_ready(5) surjective_pairing]
  by (simp add: Let_def)

end
