(* ===== verification/AunConfig.thy ===== *)
theory AunConfig
  imports Prelude
begin

text \<open>
  The parsers for the AUN options of \<open>Pi1MHz.cfg\<close> (\<open>src/src/AUN/aun_config.c\<close>).

  A C string is the list of its characters before the terminating zero; a parser that advances
  \<open>*s\<close> returns the rest of the string.  \<open>parse_num\<close> compares its accumulator with
  \<open>max\<close> after every digit and every \<open>max\<close> of the callers is at most 65535, so the
  32-bit accumulator never wraps and is a \<^typ>\<open>nat\<close> here.  A \<open>NULL\<close> string is \<^const>\<open>None\<close>.
\<close>

section \<open>Numbers\<close>

definition is_digit :: "char \<Rightarrow> bool" where
  "is_digit c \<longleftrightarrow> of_char (CHR ''0'') \<le> (of_char c :: nat) \<and> (of_char c :: nat) \<le> of_char (CHR ''9'')"

definition digit_val :: "char \<Rightarrow> nat" where
  "digit_val c = of_char c - of_char (CHR ''0'')"

fun parse_digits :: "string \<Rightarrow> nat \<Rightarrow> nat \<Rightarrow> bool \<Rightarrow> (nat \<times> string) option" where
  "parse_digits [] mx v any = (if any then Some (v, []) else None)"
| "parse_digits (c # cs) mx v any =
     (if is_digit c then
        (let v1 = v * 10 + digit_val c in if v1 > mx then None else parse_digits cs mx v1 True)
      else if any then Some (v, c # cs) else None)"

definition parse_num :: "string \<Rightarrow> nat \<Rightarrow> (nat \<times> string) option" where
  "parse_num s mx = parse_digits s mx 0 False"

section \<open>Stations, networks, ports\<close>

definition aun_parse_station :: "string option \<Rightarrow> (u8 \<times> u8) option" where
  "aun_parse_station str =
     (case str of None \<Rightarrow> None | Some s \<Rightarrow>
        (case parse_num s 254 of None \<Rightarrow> None | Some (a0, s1) \<Rightarrow>
           (case (case s1 of
                    c # s2 \<Rightarrow> if c = CHR ''.'' then map_option (\<lambda>(b, s3). (a0, b, s3)) (parse_num s2 254)
                             else Some (0, a0, s1)
                  | [] \<Rightarrow> Some (0, a0, s1)) of
              None \<Rightarrow> None
            | Some (a, b, s4) \<Rightarrow>
                if s4 \<noteq> [] \<or> b = 0 then None else Some (of_nat a, of_nat b))))"

definition is_ip_word :: "string \<Rightarrow> bool" where
  "is_ip_word s \<longleftrightarrow> length s = 2 \<and> (s ! 0 = CHR ''i'' \<or> s ! 0 = CHR ''I'') \<and>
     (s ! 1 = CHR ''p'' \<or> s ! 1 = CHR ''P'')"

definition aun_station_is_ip :: "string option \<Rightarrow> (u8 \<times> bool) option" where
  "aun_station_is_ip str =
     (case str of None \<Rightarrow> None | Some s \<Rightarrow>
        (let pre = takeWhile (\<lambda>c. c \<noteq> CHR ''.'') s
         in case (if length pre < length s then
                    (if is_ip_word pre then Some (0, True, drop (length pre + 1) s)
                     else (case parse_num s 254 of
                             None \<Rightarrow> None
                           | Some (n, p) \<Rightarrow>
                               if length s - length p \<noteq> length pre then None
                               else Some (n, False, drop (length pre + 1) s)))
                  else Some (0, False, s)) of
              None \<Rightarrow> None
            | Some (n, from_ip, tail) \<Rightarrow>
                if is_ip_word tail then Some (of_nat n, from_ip) else None))"

definition aun_parse_net :: "string option \<Rightarrow> u8 option" where
  "aun_parse_net str =
     (case str of None \<Rightarrow> None | Some s \<Rightarrow>
        (case parse_num s 254 of
           None \<Rightarrow> None
         | Some (v, s1) \<Rightarrow> if s1 \<noteq> [] then None else Some (of_nat v)))"

definition hex_val :: "char \<Rightarrow> u32 option" where
  "hex_val ch =
     (let c = of_char ch :: nat
      in if of_char (CHR ''0'') \<le> c \<and> c \<le> of_char (CHR ''9'') then Some (of_nat (c - of_char (CHR ''0'')))
         else if of_char (CHR ''a'') \<le> c \<and> c \<le> of_char (CHR ''f'') then
           Some (of_nat (c - of_char (CHR ''a'') + 10))
         else if of_char (CHR ''A'') \<le> c \<and> c \<le> of_char (CHR ''F'') then
           Some (of_nat (c - of_char (CHR ''A'') + 10))
         else None)"

text \<open>One of the four bytes: two hex digits, the end of the string being no digit.\<close>

fun parse_machine_byte :: "string \<Rightarrow> (u8 \<times> string) option" where
  "parse_machine_byte (a # b # s) =
     (case hex_val a of None \<Rightarrow> None | Some x \<Rightarrow>
        (case hex_val b of None \<Rightarrow> None | Some y \<Rightarrow>
           Some (ucast (push_bit 4 (push_bit 4 0 OR x) OR y), s)))"
| "parse_machine_byte s = None"

fun parse_machine_loop :: "nat \<Rightarrow> string \<Rightarrow> u8 list \<Rightarrow> u8 list option" where
  "parse_machine_loop 0 s ident = (if s = [] then Some ident else None)"
| "parse_machine_loop (Suc k) s ident =
     (case parse_machine_byte s of
        None \<Rightarrow> None
      | Some (b, s1) \<Rightarrow> parse_machine_loop k s1 (ident @ [b]))"

definition aun_parse_machine :: "string option \<Rightarrow> u8 list option" where
  "aun_parse_machine str = (case str of None \<Rightarrow> None | Some s \<Rightarrow> parse_machine_loop 4 s [])"

definition aun_parse_port :: "string option \<Rightarrow> u16 option" where
  "aun_parse_port str =
     (case str of None \<Rightarrow> None | Some s \<Rightarrow>
        (case parse_num s 65535 of
           None \<Rightarrow> None
         | Some (v, s1) \<Rightarrow> if s1 \<noteq> [] \<or> v = 0 then None else Some (of_nat v)))"

section \<open>The station map\<close>

text \<open>The four octets, the first one in the low byte; \<open>i\<close> counts them.\<close>

fun parse_ip_loop :: "nat list \<Rightarrow> string \<Rightarrow> u32 \<Rightarrow> (u32 \<times> string) option" where
  "parse_ip_loop [] s v = Some (v, s)"
| "parse_ip_loop (i # is) s v =
     (case parse_num s 255 of
        None \<Rightarrow> None
      | Some (octet, s1) \<Rightarrow>
          (let v1 = v OR push_bit (8 * i) (of_nat octet)
           in if i < 3 then
                (case s1 of
                   [] \<Rightarrow> None
                 | c # s2 \<Rightarrow> if c \<noteq> CHR ''.'' then None else parse_ip_loop is s2 v1)
              else parse_ip_loop is s1 v1))"

definition parse_ip :: "string \<Rightarrow> (u32 \<times> string) option" where
  "parse_ip s = parse_ip_loop [0, 1, 2, 3] s 0"

definition expect :: "char \<Rightarrow> string \<Rightarrow> string option" where
  "expect c s = (case s of [] \<Rightarrow> None | d # s1 \<Rightarrow> if d = c then Some s1 else None)"

definition parse_map_port :: "string \<Rightarrow> (nat \<times> string) option" where
  "parse_map_port s =
     (case expect (CHR '':'') s of
        None \<Rightarrow> Some (0, s)
      | Some s1 \<Rightarrow>
          (case parse_num s1 65535 of
             None \<Rightarrow> None
           | Some (port, s2) \<Rightarrow> if port = 0 then None else Some (port, s2)))"

definition parse_map_entry :: "string \<Rightarrow> ((u8 \<times> u8 \<times> u32 \<times> u16) \<times> string) option" where
  "parse_map_entry s =
     (case parse_num s 254 of None \<Rightarrow> None | Some (n, s1) \<Rightarrow>
      case expect (CHR ''.'') s1 of None \<Rightarrow> None | Some s2 \<Rightarrow>
      case parse_num s2 254 of None \<Rightarrow> None | Some (st, s3) \<Rightarrow>
      if st = 0 then None else
      case expect (CHR ''='') s3 of None \<Rightarrow> None | Some s4 \<Rightarrow>
      case parse_ip s4 of None \<Rightarrow> None | Some (ip, s5) \<Rightarrow>
      case parse_map_port s5 of None \<Rightarrow> None | Some (port, s6) \<Rightarrow>
      Some ((of_nat n, of_nat st, ip, of_nat port), s6))"

lemma parse_digits_shrinks: "parse_digits s mx v any = Some (n, r) \<Longrightarrow> length r \<le> length s"
  by (induction s mx v any rule: parse_digits.induct) (auto simp: Let_def split: if_splits)

lemma parse_num_shrinks: "parse_num s mx = Some (n, r) \<Longrightarrow> length r < length s"
  by (cases s) (auto simp: parse_num_def Let_def split: if_splits dest: parse_digits_shrinks)

lemma parse_ip_loop_shrinks: "parse_ip_loop is s v = Some (ip, r) \<Longrightarrow> length r \<le> length s"
proof (induction "is" s v rule: parse_ip_loop.induct)
  case (2 i "is" s v)
  then show ?case
    by (fastforce simp: Let_def split: option.splits list.splits if_splits dest: parse_num_shrinks)
qed simp

lemma parse_ip_shrinks: "parse_ip s = Some (ip, r) \<Longrightarrow> length r \<le> length s"
  unfolding parse_ip_def by (rule parse_ip_loop_shrinks)

lemma expect_shrinks: "expect c s = Some r \<Longrightarrow> length r < length s"
  by (auto simp: expect_def split: list.splits if_splits)

lemma parse_map_port_shrinks: "parse_map_port s = Some (p, r) \<Longrightarrow> length r \<le> length s"
  by (auto simp: parse_map_port_def split: option.splits if_splits
      dest!: parse_num_shrinks expect_shrinks)

lemma parse_map_entry_shrinks: "parse_map_entry s = Some (x, r) \<Longrightarrow> length r < length s"
  by (auto simp: parse_map_entry_def split: option.splits if_splits
      dest!: parse_num_shrinks expect_shrinks parse_ip_shrinks parse_map_port_shrinks)

text \<open>
  \<open>add\<close> is the callback; it acts on the state \<open>'a\<close> that \<open>user\<close> points to.
\<close>

function parse_map_loop ::
  "('a \<Rightarrow> u8 \<Rightarrow> u8 \<Rightarrow> u32 \<Rightarrow> u16 \<Rightarrow> bool \<times> 'a) \<Rightarrow> string \<Rightarrow> 'a \<Rightarrow> int \<Rightarrow> int \<times> 'a" where
  "parse_map_loop add s st count =
     (if s = [] then (count, st)
      else (case parse_map_entry s of
              None \<Rightarrow> (-1, st)
            | Some ((n, sn, ip, port), r) \<Rightarrow>
                (let (ok, st1) = add st n sn ip port
                 in if \<not> ok then (-1, st1)
                    else (case r of
                            [] \<Rightarrow> (count + 1, st1)
                          | c # r1 \<Rightarrow>
                              if c = CHR '','' then
                                (if r1 = [] then (-1, st1) else parse_map_loop add r1 st1 (count + 1))
                              else (-1, st1)))))"
  by pat_completeness auto

termination
  by (relation "measure (\<lambda>(add, s, st, count). length s)") (auto dest: parse_map_entry_shrinks)

declare parse_map_loop.simps [simp del]

definition aun_parse_map ::
  "string option \<Rightarrow> ('a \<Rightarrow> u8 \<Rightarrow> u8 \<Rightarrow> u32 \<Rightarrow> u16 \<Rightarrow> bool \<times> 'a) \<Rightarrow> 'a \<Rightarrow> int \<times> 'a" where
  "aun_parse_map str add st = (case str of None \<Rightarrow> (0, st) | Some s \<Rightarrow> parse_map_loop add s st 0)"

section \<open>Printing\<close>

text \<open>The text of an address and a list of map entries, as a user writes them.\<close>

definition octet :: "u32 \<Rightarrow> nat \<Rightarrow> nat" where
  "octet ip i = unat (ucast (drop_bit (8 * i) ip) :: u8)"

definition ip_text :: "u32 \<Rightarrow> string" where
  "ip_text ip = dec (octet ip 0) @ ''.'' @ dec (octet ip 1) @ ''.'' @ dec (octet ip 2) @ ''.'' @
     dec (octet ip 3)"

fun entry_text :: "u8 \<times> u8 \<times> u32 \<times> u16 \<Rightarrow> string" where
  "entry_text (n, s, ip, port) = dec (unat n) @ ''.'' @ dec (unat s) @ ''='' @ ip_text ip @
     (if port = 0 then [] else '':'' @ dec (unat port))"

fun map_text :: "(u8 \<times> u8 \<times> u32 \<times> u16) list \<Rightarrow> string" where
  "map_text [] = []"
| "map_text [x] = entry_text x"
| "map_text (x # y # xs) = entry_text x @ '','' @ map_text (y # xs)"

definition stops :: "string \<Rightarrow> bool" where
  "stops r \<longleftrightarrow> r = [] \<or> \<not> is_digit (hd r)"

section \<open>Round trips\<close>

lemma digit_char: "k < 10 \<Longrightarrow> is_digit (char_of (k + 48)) \<and> digit_val (char_of (k + 48 :: nat)) = k"
  by (simp add: is_digit_def digit_val_def of_char_of)

lemma parse_digits_stop: "stops r \<Longrightarrow> parse_digits r mx v True = Some (v, r)"
  by (cases r) (auto simp: stops_def)

text \<open>The accumulator after the digits of \<open>n\<close> is \<open>v\<close> shifted by their number, plus \<open>n\<close>.\<close>

lemma parse_digits_dec:
  "v * 10 ^ length (dec n) + n \<le> mx \<Longrightarrow>
   parse_digits (dec n @ r) mx v any = parse_digits r mx (v * 10 ^ length (dec n) + n) True"
proof (induction n arbitrary: r v any rule: dec.induct)
  case (1 n)
  show ?case
  proof (cases "n < 10")
    case True
    with 1(2) digit_char [of n] show ?thesis by (simp add: dec.simps [of n] Let_def)
  next
    case False
    have d: "dec n = dec (n div 10) @ [char_of (n mod 10 + 48)]" using False by (simp add: dec.simps [of n])
    let ?w = "v * 10 ^ length (dec (n div 10)) + n div 10"
    have w: "?w * 10 + n mod 10 = v * 10 ^ length (dec n) + n"
      using d by (simp add: algebra_simps)
    have "a \<le> a * 10 + m" for a m :: nat by simp
    from this [of ?w "n mod 10"] w 1(2) have "?w \<le> mx" by (metis order_trans)
    then have "parse_digits (dec n @ r) mx v any = parse_digits (char_of (n mod 10 + 48) # r) mx ?w True"
      using 1(1) [OF False, of v "char_of (n mod 10 + 48) # r"] d by simp
    also have "\<dots> = parse_digits r mx (?w * 10 + n mod 10) True"
      using w 1(2) digit_char [of "n mod 10"] by (simp only: parse_digits.simps Let_def) simp
    finally show ?thesis unfolding w .
  qed
qed

lemma parse_num_dec: "n \<le> mx \<Longrightarrow> stops r \<Longrightarrow> parse_num (dec n @ r) mx = Some (n, r)"
  by (simp add: parse_num_def parse_digits_dec parse_digits_stop)

lemma parse_digits_bound: "parse_digits s mx v any = Some (n, r) \<Longrightarrow> v \<le> mx \<Longrightarrow> n \<le> mx"
  by (induction s mx v any rule: parse_digits.induct) (auto simp: Let_def split: if_splits)

lemma parse_num_bound: "parse_num s mx = Some (n, r) \<Longrightarrow> n \<le> mx"
  by (auto simp: parse_num_def dest: parse_digits_bound)

lemma stops_simps [simp]: "stops []" "stops (CHR ''.'' # r)" "stops (CHR ''='' # r)"
  "stops (CHR '':'' # r)" "stops (CHR '','' # r)"
  by (simp_all add: stops_def is_digit_def)

lemma octet_less: "octet ip i \<le> 255"
  using unat_u8_less [of "ucast (drop_bit (8 * i) ip)"] unfolding octet_def by linarith

lemma octets_join:
  "of_nat (octet ip 0) OR push_bit 8 (of_nat (octet ip 1)) OR push_bit 16 (of_nat (octet ip 2)) OR
   push_bit 24 (of_nat (octet ip 3) :: u32) = ip"
proof (rule bit_word_eqI)
  fix n assume "n < LENGTH(32)"
  then have "n < 32" by simp
  then consider "n < 8" | "8 \<le> n" "n < 16" | "16 \<le> n" "n < 24" | "24 \<le> n" "n < 32" by linarith
  then show "bit (of_nat (octet ip 0) OR push_bit 8 (of_nat (octet ip 1)) OR
      push_bit 16 (of_nat (octet ip 2)) OR push_bit 24 (of_nat (octet ip 3) :: u32)) n = bit ip n"
    by cases (auto simp: octet_def bit_simps)
qed

lemma parse_ip_text: "stops r \<Longrightarrow> parse_ip (ip_text ip @ r) = Some (ip, r)"
  using octets_join [of ip]
  by (simp add: parse_ip_def ip_text_def parse_num_dec octet_less or.assoc)

definition entry_ok :: "u8 \<times> u8 \<times> u32 \<times> u16 \<Rightarrow> bool" where
  "entry_ok x = (case x of (n, s, ip, port) \<Rightarrow> n \<noteq> 255 \<and> s \<noteq> 0 \<and> s \<noteq> 255)"

lemma not_255: "n \<noteq> 255 \<longleftrightarrow> unat (n :: u8) \<le> 254"
proof -
  have "unat n \<le> 255" using unat_u8_less [of n] by linarith
  moreover have "n = 255 \<longleftrightarrow> unat n = 255" by (simp add: word_unat_eq_iff)
  ultimately show ?thesis by auto
qed

lemma not_0: "s \<noteq> 0 \<longleftrightarrow> unat (s :: 'a :: len word) \<noteq> 0"
  by (simp add: word_unat_eq_iff)

lemma parse_map_port_text:
  "stops r \<Longrightarrow> expect (CHR '':'') r = None \<Longrightarrow>
   parse_map_port ((if port = 0 then [] else '':'' @ dec (unat (port :: u16))) @ r) = Some (unat port, r)"
proof -
  assume r: "stops r" "expect (CHR '':'') r = None"
  have "unat port \<le> 65535" using unat_u16_less [of port] by linarith
  with r not_0 [of port] show ?thesis
    by (auto simp: parse_map_port_def expect_def [of _ "_ # _"] parse_num_dec)
qed

lemma parse_map_entry_text:
  assumes "entry_ok x" "stops r" "expect (CHR '':'') r = None"
  shows "parse_map_entry (entry_text x @ r) = Some (x, r)"
proof -
  obtain n s ip port where x: "x = (n, s, ip, port)" by (cases x) auto
  have "stops ((if port = 0 then [] else '':'' @ dec (unat port)) @ r)" using assms(2) by simp
  with assms x not_255 [of n] not_255 [of s] not_0 [of s] show ?thesis
    by (simp add: parse_map_entry_def entry_ok_def parse_num_dec expect_def [of _ "_ # _"] parse_ip_text
        parse_map_port_text)
qed

lemma parse_map_loop_text:
  assumes "\<forall>x \<in> set es. entry_ok x" "\<And>st n s ip p. fst (add st n s ip p)" "es \<noteq> []"
  shows "parse_map_loop add (map_text es) st count =
    (count + int (length es), fold (\<lambda>(n, s, ip, p) st. snd (add st n s ip p)) es st)"
  using assms(1,3)
proof (induction es arbitrary: st count rule: map_text.induct)
  case (2 x)
  obtain n s ip port where x: "x = (n, s, ip, port)" by (cases x) auto
  have ne: "entry_text x \<noteq> []" using x by simp
  have "parse_map_entry (entry_text x) = Some (x, [])"
    using parse_map_entry_text [of x "[]"] 2 by (simp add: expect_def)
  with ne x assms(2) [of st n s ip port] show ?case
    unfolding map_text.simps by (cases "add st n s ip port") (subst parse_map_loop.simps, simp)
next
  case (3 x y xs)
  obtain n s ip port where x: "x = (n, s, ip, port)" by (cases x) auto
  have ne: "map_text (y # xs) \<noteq> []" by (cases xs; cases y) auto
  have "parse_map_entry (entry_text x @ '','' @ map_text (y # xs)) = Some (x, '','' @ map_text (y # xs))"
    using 3(2) by (intro parse_map_entry_text) (auto simp: expect_def)
  then have "parse_map_loop add (map_text (x # y # xs)) st count =
      parse_map_loop add (map_text (y # xs)) (snd (add st n s ip port)) (count + 1)"
    using x ne assms(2) [of st n s ip port]
    by (cases "add st n s ip port") (subst parse_map_loop.simps, simp)
  with 3 x show ?case by simp
qed simp

text \<open>A station setting net.station, or a bare station, is parsed back to the numbers it was
  written from.\<close>

theorem parse_station_roundtrip:
  assumes "n \<noteq> 255" "s \<noteq> 0" "s \<noteq> 255"
  shows "aun_parse_station (Some (dec (unat n) @ ''.'' @ dec (unat s))) = Some (n, s) \<and>
    aun_parse_station (Some (dec (unat s))) = Some (0, s)"
proof -
  have "parse_num (dec (unat s)) 254 = Some (unat s, [])"
    using assms parse_num_dec [of "unat s" 254 "[]"] by (simp add: not_255)
  with assms show ?thesis
    by (simp add: aun_parse_station_def parse_num_dec not_255 not_0)
qed

theorem parse_station_range:
  assumes "aun_parse_station str = Some (n, s)"
  shows "n \<noteq> 255 \<and> s \<noteq> 0 \<and> s \<noteq> 255"
proof -
  have w: "k \<le> 254 \<Longrightarrow> (of_nat k :: u8) \<noteq> 255" "k \<le> 254 \<Longrightarrow> k \<noteq> 0 \<Longrightarrow> (of_nat k :: u8) \<noteq> 0" for k
    by (simp_all add: not_255 not_0 unat_of_nat take_bit_nat_eq_self)
  from assms show ?thesis
    by (auto simp: aun_parse_station_def w split: option.splits list.splits if_splits
        dest!: parse_num_bound)
qed

text \<open>A station map setting is parsed entry by entry: every well-formed entry is added once, in
  order, with its network, station, address and port, and their number is returned.\<close>

theorem parse_map_roundtrip:
  assumes "\<forall>x \<in> set es. entry_ok x" "\<And>st n s ip p. fst (add st n s ip p)" "es \<noteq> []"
  shows "aun_parse_map (Some (map_text es)) add st =
    (int (length es), fold (\<lambda>(n, s, ip, p) st. snd (add st n s ip p)) es st)"
  using parse_map_loop_text [OF assms, where st = st and count = 0] by (simp add: aun_parse_map_def)

theorem parse_station_roundtrip_witness: "aun_parse_station (Some (dec (unat (1 :: u8)) @ ''.'' @ dec (unat (32 :: u8)))) = Some (1, 32)"
  using parse_station_roundtrip [of 1 32] by simp

theorem parse_station_range_witness: "(1 :: u8) \<noteq> 255 \<and> (32 :: u8) \<noteq> 0 \<and> (32 :: u8) \<noteq> 255"
proof -
  have "aun_parse_station (Some ''1.32'') = Some (1, 32)"
    by (simp add: aun_parse_station_def parse_num_def is_digit_def digit_val_def Let_def)
  from parse_station_range [OF this] show ?thesis .
qed

theorem parse_map_roundtrip_witness:
  "aun_parse_map (Some (map_text [(1, 254, 0x0A01A8C0, 0), (1, 200, 0x0B01A8C0, 32769)]))
     (\<lambda>st n s ip p. (True, st @ [(n, s, ip, p)])) [] =
   (2, [(1, 254, 0x0A01A8C0, 0), (1, 200, 0x0B01A8C0, 32769)])"
  using parse_map_roundtrip [of "[(1, 254, 0x0A01A8C0, 0), (1, 200, 0x0B01A8C0, 32769)]"
      "\<lambda>st n s ip p. (True, st @ [(n, s, ip, p)])" "[]"]
  by (simp add: entry_ok_def)

end
