(* ===== verification/FsTypes.thy ===== *)
theory FsTypes
  imports Prelude
begin

text \<open>
  The vocabulary of \<open>BeebSCSI/filesystem.c\<close>: the interface of the FatFs library, which the
  firmware calls and which is a parameter here; the table of configuration keys with the lookups
  of \<open>rpi/fileparser.c\<close>; and the state of the file system component.
\<close>

section \<open>The SD card\<close>

datatype fresult = FR_OK | FR_DISK_ERR | FR_INT_ERR | FR_NOT_READY | FR_NO_FILE | FR_NO_PATH
  | FR_INVALID_NAME | FR_DENIED | FR_EXIST | FR_INVALID_OBJECT | FR_WRITE_PROTECTED
  | FR_INVALID_DRIVE | FR_NOT_ENABLED | FR_NO_FILESYSTEM | FR_MKFS_ABORTED | FR_TIMEOUT
  | FR_LOCKED | FR_NOT_ENOUGH_CORE | FR_TOO_MANY_OPEN_FILES | FR_INVALID_PARAMETER

datatype fa = FA_READ | FA_WRITE | FA_CREATE_NEW | FA_CREATE_ALWAYS

text \<open>
  The file objects of the component: one per logical unit, held open while the unit is started,
  the one of the FAT transfer commands, and the local object of the functions that open and close
  a file themselves.
\<close>

datatype fil = LunFil nat | FatFil | LocalFil

record filinfo =
  fname :: string
  fsize :: u32
  fattrib :: u8

text \<open>
  The operations that \<open>filesystem.c\<close> calls outside itself, on the state \<open>'f\<close> of the card
  and of the heap: FatFs (with \<open>FSIZE_t\<close> a 32-bit word, as configured, and the fast-seek
  table of a file object reduced to whether it is attached), \<open>malloc\<close>, and the
  write-protect option of \<open>config.c\<close>.
  A read returns the bytes it transferred, a write the number of bytes it transferred.
\<close>

record keyvalue =
  kv_length :: nat
  kv_string :: "u8 list option"

record 'f sdcard =
  f_mount :: "nat \<Rightarrow> 'f \<Rightarrow> fresult \<times> 'f"
  f_open :: "fil \<Rightarrow> string \<Rightarrow> fa list \<Rightarrow> 'f \<Rightarrow> fresult \<times> 'f"
  f_close :: "fil \<Rightarrow> 'f \<Rightarrow> fresult \<times> 'f"
  f_size :: "fil \<Rightarrow> 'f \<Rightarrow> u32"
  f_tell :: "fil \<Rightarrow> 'f \<Rightarrow> u32"
  f_lseek :: "fil \<Rightarrow> u32 \<Rightarrow> 'f \<Rightarrow> fresult \<times> 'f"
  f_linkmap :: "fil \<Rightarrow> 'f \<Rightarrow> fresult \<times> 'f"
  cltbl :: "fil \<Rightarrow> 'f \<Rightarrow> bool"
  set_cltbl :: "fil \<Rightarrow> bool \<Rightarrow> 'f \<Rightarrow> 'f"
  f_read :: "fil \<Rightarrow> nat \<Rightarrow> 'f \<Rightarrow> (fresult \<times> u8 list) \<times> 'f"
  f_write :: "fil \<Rightarrow> u8 list \<Rightarrow> 'f \<Rightarrow> (fresult \<times> nat) \<times> 'f"
  f_sync :: "fil \<Rightarrow> 'f \<Rightarrow> fresult \<times> 'f"
  f_expand :: "fil \<Rightarrow> u32 \<Rightarrow> 'f \<Rightarrow> fresult \<times> 'f"
  f_opendir :: "string \<Rightarrow> 'f \<Rightarrow> fresult \<times> 'f"
  f_readdir :: "'f \<Rightarrow> (fresult \<times> filinfo) \<times> 'f"
  f_closedir :: "'f \<Rightarrow> fresult \<times> 'f"
  f_mkdir :: "string \<Rightarrow> 'f \<Rightarrow> fresult \<times> 'f"
  malloc :: "nat \<Rightarrow> 'f \<Rightarrow> bool \<times> 'f"
  config_beeb_write_protected :: "'f \<Rightarrow> bool"

section \<open>Configuration keys\<close>

datatype parserkeyvaluetype = NUMSTRING | STRING | INTEGER

record parserkey =
  key :: string
  key_min :: int
  key_max :: int
  key_type :: parserkeyvaluetype

definition pkey :: "string \<Rightarrow> int \<Rightarrow> int \<Rightarrow> parserkeyvaluetype \<Rightarrow> parserkey" where
  "pkey k lo hi t = \<lparr>key = k, key_min = lo, key_max = hi, key_type = t\<rparr>"

definition scsiattributes :: "parserkey list" where
  "scsiattributes = [
     pkey ''Title'' 0 39 STRING, pkey ''Description'' 0 255 STRING,
     pkey ''Inquiry'' 0 101 NUMSTRING, pkey ''ModeParamHeader'' 0 4 NUMSTRING,
     pkey ''LBADescriptor'' 0 8 NUMSTRING, pkey ''ModePage0'' 0 10 NUMSTRING,
     pkey ''ModePage1'' 0 5 NUMSTRING, pkey ''ModePage3'' 0 23 NUMSTRING,
     pkey ''WritPage3'' 0 23 NUMSTRING, pkey ''ModePage4'' 0 6 NUMSTRING,
     pkey ''ModePage32'' 0 10 NUMSTRING, pkey ''ModePage33'' 0 9 NUMSTRING,
     pkey ''ModePage35'' 0 3 NUMSTRING, pkey ''ModePage36'' 0 4 NUMSTRING,
     pkey ''ModePage37'' 0 6 NUMSTRING, pkey ''ModePage38'' 0 6 NUMSTRING,
     pkey ''LDUserCode'' 0 4 STRING, pkey ''LDVideoXoffset'' (-768) 768 INTEGER]"

definition INQUIRY :: nat where "INQUIRY = 2"
definition MODEPARAMHEADER :: nat where "MODEPARAMHEADER = 3"
definition LBADESCRIPTOR :: nat where "LBADESCRIPTOR = 4"
definition MODEPAGE0 :: nat where "MODEPAGE0 = 5"
definition MODEPAGE3 :: nat where "MODEPAGE3 = 7"
definition WRITPAGE3 :: nat where "WRITPAGE3 = 8"
definition MODEPAGE4 :: nat where "MODEPAGE4 = 9"
definition LDUSERCODE :: nat where "LDUSERCODE = 16"

lemmas key_index_defs = INQUIRY_def MODEPARAMHEADER_def LBADESCRIPTOR_def MODEPAGE0_def
  MODEPAGE3_def WRITPAGE3_def MODEPAGE4_def LDUSERCODE_def

text \<open>\<open>NUM_KEYS\<close> counts the terminating entry of the table too.\<close>

definition NUM_KEYS :: nat where "NUM_KEYS = 19"
definition MAX_LUNS :: nat where "MAX_LUNS = 16"

definition tolower :: "char \<Rightarrow> char" where
  "tolower c = (let n = of_char c :: nat in if 65 \<le> n \<and> n \<le> 90 then char_of (n + 32) else c)"

text \<open>
  A C string is the list of its characters; the end of the list is the terminating zero.
\<close>

fun localstrcasecmp :: "string \<Rightarrow> string \<Rightarrow> bool" where
  "localstrcasecmp [] [] = True"
| "localstrcasecmp [] (c # cs) = (c \<in> {CHR 0x00, CHR 0x0A, CHR 0x0D, CHR '' '', CHR 0x09, CHR ''#'', CHR ''=''})"
| "localstrcasecmp (a # as) [] = False"
| "localstrcasecmp (a # as) (b # bs) = (tolower a = tolower b \<and> localstrcasecmp as bs)"

definition parse_findindex :: "string \<Rightarrow> parserkey list \<Rightarrow> nat option" where
  "parse_findindex searchkey array = find_index (\<lambda>k. localstrcasecmp (key k) searchkey) array"

definition kv_empty :: keyvalue where
  "kv_empty = \<lparr>kv_length = 0, kv_string = None\<rparr>"

definition parse_releasekeyvalues :: "keyvalue list \<Rightarrow> keyvalue list" where
  "parse_releasekeyvalues values = map (\<lambda>v. if kv_string v \<noteq> None then kv_empty else v) values"

section \<open>State\<close>

record HDGeometry =
  BlockSize :: u32
  Cylinders :: u32
  Heads :: u8
  SectorsPerTrack :: u16
  Interleave :: u16

definition DEFAULT_SECTORS_PER_TRACK :: u16 where "DEFAULT_SECTORS_PER_TRACK = 33"
definition DEFAULT_BLOCK_SIZE :: u32 where "DEFAULT_BLOCK_SIZE = 256"
definition SECTOR_BUFFER_LENGTH :: u32 where "SECTOR_BUFFER_LENGTH = 64"

record 'f filesystem =
  fsMountState :: bool
  lunDirectory :: u8
  lunDirectoryVFS :: u8
  fsLunStatus :: "bool list"
  fsLunGeometry :: "HDGeometry list"
  keyvalues :: "keyvalue list list"
  fatDirectory :: string
  sectorBuffer :: "u8 list"
  sectorsInBuffer :: u8
  currentBufferSector :: u8
  sectorsRemaining :: u32
  hostLockMask :: u16
  hostRevokeMask :: u16
  card :: 'f

text \<open>The fixed array sizes, and the byte of a stored value.\<close>

definition fs_shape :: "('f, 'z) filesystem_scheme \<Rightarrow> bool" where
  "fs_shape s \<longleftrightarrow> length (fsLunStatus s) = MAX_LUNS \<and> length (fsLunGeometry s) = MAX_LUNS \<and>
     length (keyvalues s) = MAX_LUNS \<and> (\<forall>kvs \<in> set (keyvalues s). length kvs = NUM_KEYS) \<and>
     length (sectorBuffer s) = 256 * unat SECTOR_BUFFER_LENGTH"

definition kv_get :: "nat \<Rightarrow> nat \<Rightarrow> ('f, 'z) filesystem_scheme \<Rightarrow> keyvalue" where
  "kv_get lun i s = keyvalues s ! lun ! i"

definition kv_set :: "nat \<Rightarrow> nat \<Rightarrow> keyvalue \<Rightarrow> ('f, 'z) filesystem_scheme \<Rightarrow> ('f, 'z) filesystem_scheme" where
  "kv_set lun i v s = s\<lparr>keyvalues := (keyvalues s)[lun := (keyvalues s ! lun)[i := v]]\<rparr>"

definition geo_get :: "nat \<Rightarrow> ('f, 'z) filesystem_scheme \<Rightarrow> HDGeometry" where
  "geo_get lun s = fsLunGeometry s ! lun"

definition geo_set :: "nat \<Rightarrow> HDGeometry \<Rightarrow> ('f, 'z) filesystem_scheme \<Rightarrow> ('f, 'z) filesystem_scheme" where
  "geo_set lun g s = s\<lparr>fsLunGeometry := (fsLunGeometry s)[lun := g]\<rparr>"

definition lun_status_set :: "nat \<Rightarrow> bool \<Rightarrow> ('f, 'z) filesystem_scheme \<Rightarrow> ('f, 'z) filesystem_scheme" where
  "lun_status_set lun b s = s\<lparr>fsLunStatus := (fsLunStatus s)[lun := b]\<rparr>"

text \<open>Overwriting a prefix of a stored block, and the big-endian reads of the geometry code.\<close>

definition poke_at :: "nat \<Rightarrow> u8 list \<Rightarrow> u8 list \<Rightarrow> u8 list" where
  "poke_at i bs xs = take i xs @ bs @ drop (i + length bs) xs"

definition be16 :: "u8 \<Rightarrow> u8 \<Rightarrow> u32" where
  "be16 a b = push_bit 8 (ucast a) + ucast b"

definition be24 :: "u8 \<Rightarrow> u8 \<Rightarrow> u8 \<Rightarrow> u32" where
  "be24 a b c = push_bit 16 (ucast a) + push_bit 8 (ucast b) + ucast c"

lemma length_poke_at [simp]: "i + length bs \<le> length xs \<Longrightarrow> length (poke_at i bs xs) = length xs"
  by (simp add: poke_at_def)

end
