(* ===== verification/FileParser.thy ===== *)
theory FileParser
  imports FsTypes
begin

text \<open>
  The configuration files of \<open>rpi/fileparser.c\<close>: one pass over a file either reads the values
  of the known keys, or copies the file while replacing them.  The file is the list of its bytes;
  the cursor of the source is the list of bytes still to come, whose end stands for the
  terminating zero that \<open>filesystemReadFile\<close> appends.
\<close>

section \<open>Reading and writing whole files\<close>

text \<open>
  The size argument is \<^const>\<open>None\<close> when the caller passes a null buffer, so that one for the
  whole file is allocated, and the capacity of the caller's buffer otherwise.  The result is
  what was placed in the buffer; its length is what the C function returns.
\<close>

definition filesystemReadFile ::
  "'f sdcard \<Rightarrow> bool \<Rightarrow> string \<Rightarrow> nat option \<Rightarrow> 'f \<Rightarrow> u8 list option \<times> 'f" where
  "filesystemReadFile ops mounted name max_size c =
     (let (r, c) = (if mounted then (FR_OK, c) else f_mount ops 1 c) in
      if r \<noteq> FR_OK then (None, c) else
      let (r, c) = f_open ops LocalFil name [FA_READ] c in
      if r \<noteq> FR_OK then (None, c) else
      let fileSize = unat (f_size ops LocalFil c);
          (ok, c) = (case max_size of None \<Rightarrow> malloc ops (fileSize + 1) c | Some m \<Rightarrow> (True, c)) in
      if \<not> ok then (let (r, c) = f_close ops LocalFil c in (None, c)) else
      let read_len = (case max_size of None \<Rightarrow> fileSize | Some m \<Rightarrow> min m fileSize);
          ((r, b), c) = f_read ops LocalFil read_len c;
          (r', c) = f_close ops LocalFil c in
      if r \<noteq> FR_OK then (None, c) else (Some b, c))"

definition filesystemWriteFile :: "'f sdcard \<Rightarrow> string \<Rightarrow> u8 list \<Rightarrow> 'f \<Rightarrow> nat \<times> 'f" where
  "filesystemWriteFile ops name b c =
     (let (r, c) = f_open ops LocalFil name [FA_CREATE_ALWAYS, FA_WRITE] c in
      if r \<noteq> FR_OK then (0, c) else
      let ((r, n), c) = f_write ops LocalFil b c;
          (r', c) = f_close ops LocalFil c in (n, c))"

section \<open>Lexical level\<close>

definition PARSE_MAX_FILE_SIZE :: nat where "PARSE_MAX_FILE_SIZE = 256 * 1024"

definition bytes_string :: "u8 list \<Rightarrow> string" where
  "bytes_string = map (\<lambda>b. char_of (unat b))"

definition is_eol :: "u8 \<Rightarrow> bool" where "is_eol b \<longleftrightarrow> b = 10 \<or> b = 13"
definition is_sep :: "u8 \<Rightarrow> bool" where "is_sep b \<longleftrightarrow> b = 32 \<or> b = 9 \<or> b = 61"

definition is_hex :: "u8 \<Rightarrow> bool" where
  "is_hex b \<longleftrightarrow> (48 \<le> b \<and> b \<le> 57) \<or> (65 \<le> b \<and> b \<le> 70) \<or> (97 \<le> b \<and> b \<le> 102)"

text \<open>The length of a number token, and whether it is hexadecimal (0), prefixed (1) or neither (-1).\<close>

definition parse_numstrlen :: "u8 list \<Rightarrow> nat \<times> int" where
  "parse_numstrlen buf =
     (let tok = takeWhile (\<lambda>b. 32 < b \<and> b \<noteq> 35) buf;
          scan = (\<lambda>(i, b) nonnumber. if is_hex b then nonnumber
                    else if b = 120 \<or> b = 88 then (if nonnumber = 0 \<and> i = (1 :: nat) then 1 else -1)
                    else (-1 :: int)) in
      (length tok, fold scan (enumerate 0 tok) 0))"

definition parse_strlen :: "u8 list \<Rightarrow> nat" where
  "parse_strlen buf = length (takeWhile (\<lambda>b. 32 \<le> b \<and> b \<noteq> 35) buf)"

text \<open>Bounded append to the output buffer: what exceeds the capacity is dropped.\<close>

definition out_put :: "nat \<Rightarrow> u8 list \<Rightarrow> u8 list \<Rightarrow> u8 list" where
  "out_put cap bs out = out @ take (cap - length out) bs"

definition hex_digit :: "u8 \<Rightarrow> u8" where
  "hex_digit n = (if n < 10 then n + 48 else n + 65 - 10)"

definition hex_text :: "u8 list \<Rightarrow> u8 list" where
  "hex_text bs = concat (map (\<lambda>b. [hex_digit (drop_bit 4 b AND 0x0F), hex_digit (b AND 0x0F)]) bs)"

definition nibble :: "u8 \<Rightarrow> u8" where
  "nibble b = (if 48 \<le> b \<and> b \<le> 57 then b - 48 else if 65 \<le> b \<and> b \<le> 70 then b - 65 + 10
     else if 97 \<le> b \<and> b \<le> 102 then b - 97 + 10 else 0)"

fun hex_bytes :: "nat \<Rightarrow> u8 list \<Rightarrow> u8 list" where
  "hex_bytes (Suc n) (a # b # rest) = (push_bit 4 (nibble a) OR nibble b) # hex_bytes n rest"
| "hex_bytes _ _ = []"

text \<open>
  \<open>strtol\<close> with base 0 on the 32-bit target: white space, a sign, a prefix that selects the
  base, and as many digits as follow; the result saturates.
\<close>

definition digit_of :: "u8 \<Rightarrow> nat" where
  "digit_of b = (if 48 \<le> b \<and> b \<le> 57 then unat b - 48 else if 65 \<le> b \<and> b \<le> 90 then unat b - 55
     else if 97 \<le> b \<and> b \<le> 122 then unat b - 87 else 99)"

definition digits_value :: "nat \<Rightarrow> u8 list \<Rightarrow> nat" where
  "digits_value base bs = fold (\<lambda>b v. v * base + digit_of b) (takeWhile (\<lambda>b. digit_of b < base) bs) 0"

definition strtol :: "u8 list \<Rightarrow> int" where
  "strtol bs =
     (let bs = dropWhile (\<lambda>b. b = 32 \<or> (9 \<le> b \<and> b \<le> 13)) bs;
          neg = (bs \<noteq> [] \<and> hd bs = 45);
          bs = (if bs \<noteq> [] \<and> (hd bs = 45 \<or> hd bs = 43) then tl bs else bs);
          n = (case bs of a # b # c # _ \<Rightarrow> if a = 48 \<and> (b = 120 \<or> b = 88) \<and> digit_of c < 16
                 then digits_value 16 (drop 2 bs) else digits_value (if a = 48 then 8 else 10) bs
               | a # _ \<Rightarrow> digits_value (if a = 48 then 8 else 10) bs | [] \<Rightarrow> 0) in
      if neg then max (- (2 ^ 31)) (- int n) else min (2 ^ 31 - 1) (int n))"

definition int_bytes :: "int \<Rightarrow> u8 list" where
  "int_bytes i = (let w = word_of_int i :: u32 in
     [ucast w, ucast (drop_bit 8 w), ucast (drop_bit 16 w), ucast (drop_bit 24 w)])"

definition bytes_int :: "u8 list \<Rightarrow> int" where
  "bytes_int b = sint (ucast (b ! 0) OR push_bit 8 (ucast (b ! 1)) OR push_bit 16 (ucast (b ! 2)) OR
     push_bit 24 (ucast (b ! 3)) :: u32)"

definition int_text :: "int \<Rightarrow> u8 list" where
  "int_text i = map (\<lambda>c. of_nat (of_char c)) (if i < 0 then ''-'' @ dec (nat (- i)) else dec (nat i))"

section \<open>One key and its value\<close>

text \<open>
  Reading a value: the bytes still to come, the new entry and the heap.  A failed allocation
  leaves a null pointer, and the length as it was.
\<close>

definition read_numstring :: "'f sdcard \<Rightarrow> nat \<Rightarrow> u8 list \<Rightarrow> keyvalue \<Rightarrow> 'f \<Rightarrow> (u8 list \<times> keyvalue) \<times> 'f" where
  "read_numstring ops maxbytes rest kv c =
     (let (len, nonnumber) = parse_numstrlen rest in
      if nonnumber < 0 then ((rest, kv), c) else
      let (rest, len) = (if nonnumber = 1 then (drop 2 rest, len - 2) else (rest, len));
          (rest, len) = (if odd len then (48 # rest, len + 1) else (rest, len));
          nbytes = min (len div 2) maxbytes;
          (ok, c) = malloc ops maxbytes c in
      if \<not> ok then ((drop len rest, kv\<lparr>kv_string := None\<rparr>), c)
      else ((drop len rest, \<lparr>kv_length = nbytes,
        kv_string = Some (hex_bytes nbytes rest @ replicate (maxbytes - nbytes) 0)\<rparr>), c))"

definition read_string :: "'f sdcard \<Rightarrow> nat \<Rightarrow> u8 list \<Rightarrow> keyvalue \<Rightarrow> 'f \<Rightarrow> (u8 list \<times> keyvalue) \<times> 'f" where
  "read_string ops mx rest kv c =
     (let len = parse_strlen rest; copylen = min len mx; (ok, c) = malloc ops (copylen + 1) c in
      if \<not> ok then ((drop len rest, kv\<lparr>kv_string := None\<rparr>), c)
      else ((drop len rest, \<lparr>kv_length = copylen, kv_string = Some (take copylen rest @ [0])\<rparr>), c))"

definition read_integer :: "'f sdcard \<Rightarrow> int \<Rightarrow> int \<Rightarrow> u8 list \<Rightarrow> keyvalue \<Rightarrow> 'f \<Rightarrow> (u8 list \<times> keyvalue) \<times> 'f" where
  "read_integer ops lo hi rest kv c =
     (let len = parse_strlen rest; (ok, c) = malloc ops 4 c in
      if \<not> ok then ((drop len rest, kv\<lparr>kv_string := None\<rparr>), c)
      else let parsed = strtol rest;
               parsed = (if parsed < lo then lo else parsed);
               parsed = (if hi < parsed then hi else parsed) in
        ((drop len rest, \<lparr>kv_length = 1, kv_string = Some (int_bytes parsed)\<rparr>), c))"

definition read_value :: "'f sdcard \<Rightarrow> parserkey \<Rightarrow> u8 list \<Rightarrow> keyvalue \<Rightarrow> 'f \<Rightarrow> (u8 list \<times> keyvalue) \<times> 'f" where
  "read_value ops k rest kv c = (case key_type k of
     NUMSTRING \<Rightarrow> read_numstring ops (nat (key_max k)) rest kv c
   | STRING \<Rightarrow> read_string ops (nat (key_max k)) rest kv c
   | INTEGER \<Rightarrow> read_integer ops (key_min k) (key_max k) rest kv c)"

text \<open>Writing a value in place of the one in the file.\<close>

definition kv_chars :: "keyvalue \<Rightarrow> u8 list" where
  "kv_chars kv = (case kv_string kv of Some xs \<Rightarrow> take (kv_length kv) xs | None \<Rightarrow> [])"

definition write_value :: "nat \<Rightarrow> parserkey \<Rightarrow> u8 list \<Rightarrow> keyvalue \<Rightarrow> u8 list \<Rightarrow> u8 list \<times> u8 list" where
  "write_value cap k rest kv out = (if kv_length kv = 0 then (rest, out) else
     case key_type k of
       NUMSTRING \<Rightarrow> (drop (fst (parse_numstrlen rest)) rest, out_put cap (hex_text (kv_chars kv)) out)
     | STRING \<Rightarrow> (drop (parse_strlen rest) rest, out_put cap (kv_chars kv) out)
     | INTEGER \<Rightarrow>
         let txt = int_text (bytes_int (the (kv_string kv))) in
         (drop (parse_strlen rest) rest, if length txt < cap - length out then out @ txt else out))"

section \<open>The pass over the file\<close>

definition to_eol :: "u8 list \<Rightarrow> u8 list" where
  "to_eol = takeWhile (\<lambda>b. \<not> is_eol b)"

text \<open>
  After a key: the separators; then either the end of the line or of the file (no value), or a
  value follows.
\<close>

definition key_tail :: "nat \<Rightarrow> u8 list \<Rightarrow> u8 list \<Rightarrow> bool \<times> u8 list \<times> u8 list" where
  "key_tail cap rest out =
     (let seps = takeWhile is_sep rest; rest = dropWhile is_sep rest; out = out_put cap seps out in
      case rest of [] \<Rightarrow> (False, [], out)
      | b # bs \<Rightarrow>
          if b = 35 then (False, drop (length (to_eol rest)) rest, out_put cap (to_eol rest) out)
          else if is_eol b then (False, bs, out_put cap [b] out)
          else (True, rest, out))"

definition copy_line :: "nat \<Rightarrow> u8 list \<Rightarrow> u8 list \<Rightarrow> u8 list \<times> u8 list" where
  "copy_line cap rest out = (drop (length (to_eol rest)) rest, out_put cap (to_eol rest) out)"

definition parse_key ::
  "'f sdcard \<Rightarrow> bool \<Rightarrow> nat \<Rightarrow> parserkey list \<Rightarrow> nat \<Rightarrow> u8 list \<Rightarrow> keyvalue list \<Rightarrow> u8 list \<Rightarrow> 'f
   \<Rightarrow> (u8 list \<times> keyvalue list \<times> u8 list) \<times> 'f" where
  "parse_key ops outfile cap keyv i rest values out c =
     (let k = keyv ! i; n = length (key k);
          (flag, rest, out) = key_tail cap (drop n rest) (out_put cap (take n rest) out) in
      if \<not> flag then ((rest, values, out), c)
      else if outfile then
        (let (rest, out) = write_value cap k rest (values ! i) out;
             (rest, out) = copy_line cap rest out in ((rest, values, out), c))
      else
        (let ((rest, kv), c) = read_value ops k rest (values ! i) c;
             (rest, out) = copy_line cap rest out in ((rest, values[i := kv], out), c)))"

text \<open>
  The loop; the cursor moves in every round, so as many rounds as there are bytes are enough.
\<close>

fun parse_loop ::
  "nat \<Rightarrow> 'f sdcard \<Rightarrow> bool \<Rightarrow> nat \<Rightarrow> parserkey list \<Rightarrow> u8 list \<Rightarrow> keyvalue list \<Rightarrow> u8 list \<Rightarrow> 'f
   \<Rightarrow> (keyvalue list \<times> u8 list) \<times> 'f" where
  "parse_loop 0 ops outfile cap keyv rest values out c = ((values, out), c)"
| "parse_loop (Suc fuel) ops outfile cap keyv rest values out c =
     (let out = out_put cap (takeWhile (\<lambda>b. b \<le> 32) rest) out;
          rest = dropWhile (\<lambda>b. b \<le> 32) rest in
      if rest = [] then ((values, out), c) else
      case (if hd rest = 35 then None else parse_findindex (bytes_string rest) keyv) of
        None \<Rightarrow> (let (rest, out) = copy_line cap rest out in
                 parse_loop fuel ops outfile cap keyv rest values out c)
      | Some i \<Rightarrow> (let ((rest, values, out), c) = parse_key ops outfile cap keyv i rest values out c in
                   parse_loop fuel ops outfile cap keyv rest values out c))"

definition parse_readfile ::
  "'f sdcard \<Rightarrow> bool \<Rightarrow> string \<Rightarrow> string option \<Rightarrow> parserkey list \<Rightarrow> keyvalue list \<Rightarrow> 'f
   \<Rightarrow> (bool \<times> keyvalue list) \<times> 'f" where
  "parse_readfile ops mounted name outfile keyv values c =
     (let (f, c) = filesystemReadFile ops mounted name None c in
      case f of None \<Rightarrow> ((False, values), c)
      | Some buffer \<Rightarrow>
        if buffer = [] \<or> PARSE_MAX_FILE_SIZE < length buffer then ((False, values), c) else
        let (ok, c) = malloc ops (length buffer * 4) c in
        if \<not> ok then ((False, values), c) else
        let ((values, out), c) = parse_loop (length buffer) ops (outfile \<noteq> None) (length buffer * 4) keyv
              buffer values [] c in
        case outfile of None \<Rightarrow> ((True, values), c)
        | Some dest \<Rightarrow> (let (n, c) = filesystemWriteFile ops dest out c in ((n = length out, values), c)))"

end
