(* ===== verification/Filesystem.thy ===== *)
theory Filesystem
  imports FileParser
begin

text \<open>
  The operations of \<open>BeebSCSI/filesystem.c\<close>, in the order of the source: mounting, the
  interlock between the host and the Beeb, the status and geometry of the logical units, their
  creation and configuration, the buffered sector stream and the mode pages.  Every operation
  takes the SD card interface, and passes the component's state explicitly.
\<close>

section \<open>Names of a unit's files\<close>

definition lun_path :: "nat \<Rightarrow> ('f, 'z) filesystem_scheme \<Rightarrow> string" where
  "lun_path lun s = (if lun < 8
     then ''/BeebSCSI'' @ dec (unat (lunDirectory s)) @ ''/scsi'' @ dec lun @ ''.''
     else ''/BeebVFS'' @ dec (unat (lunDirectoryVFS s)) @ ''/scsi'' @ dec (lun mod 8) @ ''.'')"

definition lun_dir :: "nat \<Rightarrow> ('f, 'z) filesystem_scheme \<Rightarrow> string" where
  "lun_dir lun s = (if lun < 8 then ''/BeebSCSI'' @ dec (unat (lunDirectory s))
     else ''/BeebVFS'' @ dec (unat (lunDirectoryVFS s)))"

section \<open>Host-side write interlock\<close>

definition toupper :: "char \<Rightarrow> char" where
  "toupper c = (let n = of_char c :: nat in if 97 \<le> n \<and> n \<le> 122 then char_of (n - 32) else c)"

text \<open>
  Compares \<open>len\<close> characters; reading at or past the end of a list is the terminating zero,
  at which the loop stops.
\<close>

fun fsHostNameEqual :: "string \<Rightarrow> string \<Rightarrow> nat \<Rightarrow> bool" where
  "fsHostNameEqual a b 0 = True"
| "fsHostNameEqual [] [] (Suc n) = True"
| "fsHostNameEqual (x # xs) (y # ys) (Suc n) = (toupper x = toupper y \<and> fsHostNameEqual xs ys n)"
| "fsHostNameEqual _ _ (Suc n) = False"

definition fsHostLunNames :: "nat \<Rightarrow> ('f, 'z) filesystem_scheme \<Rightarrow> string \<times> string" where
  "fsHostLunNames lun s = (lun_dir lun s, lun_path lun s)"

definition lun_bit :: "nat \<Rightarrow> u16" where
  "lun_bit lun = push_bit lun 1"

definition filesystemLunHostLocked :: "nat \<Rightarrow> ('f, 'z) filesystem_scheme \<Rightarrow> bool" where
  "filesystemLunHostLocked lun s \<longleftrightarrow> lun < MAX_LUNS \<and> hostLockMask s AND lun_bit lun \<noteq> 0"

fun strip_slashes :: "nat \<Rightarrow> string \<Rightarrow> nat" where
  "strip_slashes 0 path = 0"
| "strip_slashes (Suc n) path = (if 0 < n \<and> path ! n = CHR ''/'' then strip_slashes n path else Suc n)"

definition filesystemHostPathBusy :: "string option \<Rightarrow> ('f, 'z) filesystem_scheme \<Rightarrow> bool" where
  "filesystemHostPathBusy path s = (case path of None \<Rightarrow> False | Some [] \<Rightarrow> False | Some p \<Rightarrow>
     let n = strip_slashes (length p) p in
     list_ex (\<lambda>lun. (fsLunStatus s ! lun \<or> filesystemLunHostLocked lun s) \<and>
       (let (d, stem) = fsHostLunNames lun s in
         length stem \<le> n \<and> fsHostNameEqual p stem (length stem) \<or>
         n \<le> length d \<and> fsHostNameEqual p d n \<and> (n = length d \<or> d ! n = CHR ''/'')))
       [0..<MAX_LUNS])"

definition filesystemLunFromHostPath :: "string option \<Rightarrow> ('f, 'z) filesystem_scheme \<Rightarrow> int" where
  "filesystemLunFromHostPath path s = (case path of None \<Rightarrow> -1 | Some p \<Rightarrow>
     (case find (\<lambda>lun. let stem = snd (fsHostLunNames lun s) in fsHostNameEqual p stem (length stem))
        [0..<MAX_LUNS] of
        None \<Rightarrow> -1 | Some lun \<Rightarrow> int lun))"

definition filesystemHostLockLun :: "int \<Rightarrow> bool \<Rightarrow> ('f, 'z) filesystem_scheme \<Rightarrow> ('f, 'z) filesystem_scheme" where
  "filesystemHostLockLun lun lock s = (if lun < 0 \<or> int MAX_LUNS \<le> lun then s else
     let b = lun_bit (nat lun); s = s\<lparr>hostRevokeMask := hostRevokeMask s AND NOT b\<rparr> in
     if lock then s\<lparr>hostLockMask := hostLockMask s OR b\<rparr>
     else s\<lparr>hostLockMask := hostLockMask s AND NOT b\<rparr>)"

definition filesystemHostRevokeLun :: "nat \<Rightarrow> ('f, 'z) filesystem_scheme \<Rightarrow> ('f, 'z) filesystem_scheme" where
  "filesystemHostRevokeLun lun s = (if MAX_LUNS \<le> lun then s
     else if hostLockMask s AND lun_bit lun = 0 then s
     else s\<lparr>hostLockMask := hostLockMask s AND NOT (lun_bit lun),
            hostRevokeMask := hostRevokeMask s OR lun_bit lun\<rparr>)"

definition filesystemHostLunRevoked :: "nat \<Rightarrow> ('f, 'z) filesystem_scheme \<Rightarrow> bool" where
  "filesystemHostLunRevoked lun s \<longleftrightarrow> lun < MAX_LUNS \<and> hostRevokeMask s AND lun_bit lun \<noteq> 0"

section \<open>Geometry and configuration of a unit\<close>

definition filesystemGetLunBlockSize :: "nat \<Rightarrow> ('f, 'z) filesystem_scheme \<Rightarrow> u32" where
  "filesystemGetLunBlockSize lun s = BlockSize (geo_get lun s)"

definition filesystemGetheadspercylinder :: "nat \<Rightarrow> ('f, 'z) filesystem_scheme \<Rightarrow> u32" where
  "filesystemGetheadspercylinder lun s = ucast (Heads (geo_get lun s))"

definition filesystemGetLunSPTSize :: "nat \<Rightarrow> ('f, 'z) filesystem_scheme \<Rightarrow> u32" where
  "filesystemGetLunSPTSize lun s = ucast (SectorsPerTrack (geo_get lun s))"

definition filesystemGetLunTotalBytes :: "nat \<Rightarrow> ('f, 'z) filesystem_scheme \<Rightarrow> u32" where
  "filesystemGetLunTotalBytes lun s = (let g = geo_get lun s in
     ((ucast (Heads g) * Cylinders g) * ucast (SectorsPerTrack g)) * BlockSize g)"

definition filesystemGetLunTotalSectors :: "nat \<Rightarrow> ('f, 'z) filesystem_scheme \<Rightarrow> u32" where
  "filesystemGetLunTotalSectors lun s = (let g = geo_get lun s in
     (Cylinders g * ucast (Heads g)) * ucast (SectorsPerTrack g))"

text \<open>
  The value of key \<open>i\<close>, allocated with \<open>n\<close> zero bytes when it has none; \<open>None\<close> when
  \<open>malloc\<close> fails.
\<close>

definition kv_alloc :: "'f sdcard \<Rightarrow> nat \<Rightarrow> nat \<Rightarrow> nat \<Rightarrow> 'f filesystem \<Rightarrow> bool \<times> 'f filesystem" where
  "kv_alloc ops lun i n s = (case kv_string (kv_get lun i s) of
     Some xs \<Rightarrow> (True, s)
   | None \<Rightarrow> (case malloc ops n (card s) of (ok, c) \<Rightarrow>
       let s = s\<lparr>card := c\<rparr> in
       if ok then (True, kv_set lun i \<lparr>kv_length = n, kv_string = Some (replicate n 0)\<rparr> s)
       else (False, s)))"

definition kv_bytes :: "nat \<Rightarrow> nat \<Rightarrow> ('f, 'z) filesystem_scheme \<Rightarrow> u8 list" where
  "kv_bytes lun i s = (case kv_string (kv_get lun i s) of Some xs \<Rightarrow> xs | None \<Rightarrow> [])"

text \<open>Storing \<open>bs\<close> at offset \<open>k\<close> of the value and raising its length to at least \<open>n\<close>.\<close>

definition kv_store :: "nat \<Rightarrow> nat \<Rightarrow> nat \<Rightarrow> u8 list \<Rightarrow> nat \<Rightarrow> ('f, 'z) filesystem_scheme \<Rightarrow> ('f, 'z) filesystem_scheme" where
  "kv_store lun i k bs n s = kv_set lun i
     \<lparr>kv_length = max (kv_length (kv_get lun i s)) n,
      kv_string = Some (poke_at k bs (kv_bytes lun i s))\<rparr> s"

definition cyl_hi :: "HDGeometry \<Rightarrow> u8" where "cyl_hi g = ucast (drop_bit 8 (Cylinders g))"
definition cyl_lo :: "HDGeometry \<Rightarrow> u8" where "cyl_lo g = ucast (Cylinders g)"

definition filesystemLunToconfigGeometry :: "'f sdcard \<Rightarrow> nat \<Rightarrow> 'f filesystem \<Rightarrow> 'f filesystem" where
  "filesystemLunToconfigGeometry ops lun s =
     (let g = geo_get lun s; (ok, s) = kv_alloc ops lun MODEPAGE0 10 s in
      if \<not> ok then s else
      let s = kv_store lun MODEPAGE0 0
                [1, cyl_hi g, cyl_lo g, Heads g, 0x00, 0x80, 0x00, 0x80, 0x00, 0x01] 10 s;
          (ok, s) = kv_alloc ops lun MODEPAGE4 6 s in
      if \<not> ok then s else
      kv_store lun MODEPAGE4 0 [4, 4, 0, cyl_hi g, cyl_lo g, Heads g] 6 s)"

text \<open>\<open>while ((n % heads != 0) && heads > 1) heads--\<close>\<close>

function heads_loop :: "u32 \<Rightarrow> u8 \<Rightarrow> u8" where
  "heads_loop n heads = (if n mod ucast heads \<noteq> 0 \<and> 1 < heads then heads_loop n (heads - 1) else heads)"
  by auto
termination
  by (relation "measure (\<lambda>(n, heads). unat heads)") (auto simp: unat_sub word_less_nat_alt word_le_nat_alt)

declare heads_loop.simps [simp del]

definition filesytemdattoconfigGeometry :: "'f sdcard \<Rightarrow> nat \<Rightarrow> 'f filesystem \<Rightarrow> 'f filesystem" where
  "filesytemdattoconfigGeometry ops lun s =
     (let g = geo_get lun s;
          tracks = f_size ops (LunFil lun) (card s) div (ucast (SectorsPerTrack g) * BlockSize g);
          heads = heads_loop tracks 16 in
      filesystemLunToconfigGeometry ops lun
        (geo_set lun (g\<lparr>Cylinders := tracks div ucast heads, Heads := heads\<rparr>) s))"

definition filesystemCopyPage0toPage4 :: "nat \<Rightarrow> 'f filesystem \<Rightarrow> 'f filesystem" where
  "filesystemCopyPage0toPage4 lun s = (case kv_string (kv_get lun MODEPAGE0 s) of None \<Rightarrow> s
     | Some p \<Rightarrow>
        let g = (geo_get lun s)\<lparr>Cylinders := be16 (p ! 1) (p ! 2), Heads := p ! 3\<rparr>;
            s = geo_set lun g s in
        (case kv_string (kv_get lun MODEPAGE4 s) of None \<Rightarrow> s
         | Some q \<Rightarrow> kv_store lun MODEPAGE4 2 [0, cyl_hi g, cyl_lo g, Heads g] 6 s))"

definition filesystemCopyPage4toPage0 :: "nat \<Rightarrow> 'f filesystem \<Rightarrow> 'f filesystem" where
  "filesystemCopyPage4toPage0 lun s = (case kv_string (kv_get lun MODEPAGE4 s) of None \<Rightarrow> s
     | Some p \<Rightarrow>
        let g = (geo_get lun s)\<lparr>Cylinders := be16 (p ! 3) (p ! 4), Heads := p ! 5\<rparr>;
            s = geo_set lun g s in
        (case kv_string (kv_get lun MODEPAGE0 s) of None \<Rightarrow> s
         | Some q \<Rightarrow> kv_store lun MODEPAGE0 1 [cyl_hi g, cyl_lo g, Heads g] 4 s))"

text \<open>
  \<open>filesystemConfigToLunGeometry\<close> in its four steps: the mode parameter header, the block
  size, the sectors per track, the cylinders and heads.  A failed allocation in the first two
  ends the function.
\<close>

definition config_header :: "'f sdcard \<Rightarrow> nat \<Rightarrow> 'f filesystem \<Rightarrow> bool \<times> 'f filesystem" where
  "config_header ops lun s = (case kv_string (kv_get lun MODEPARAMHEADER s) of
     Some xs \<Rightarrow> (True, s)
   | None \<Rightarrow> let (ok, s) = kv_alloc ops lun MODEPARAMHEADER 4 s in
       if ok then (True, kv_store lun MODEPARAMHEADER 0 [0, 0, 0, 8] 4 s) else (False, s))"

definition config_block_size :: "'f sdcard \<Rightarrow> nat \<Rightarrow> 'f filesystem \<Rightarrow> bool \<times> 'f filesystem" where
  "config_block_size ops lun s =
     (let g = geo_get lun s in
      case kv_string (kv_get lun LBADESCRIPTOR s) of
        Some p \<Rightarrow>
          let bs = be24 (p ! 5) (p ! 6) (p ! 7) in
          (True, geo_set lun (g\<lparr>BlockSize := if bs = 0 then DEFAULT_BLOCK_SIZE else bs\<rparr>) s)
      | None \<Rightarrow>
          let s = geo_set lun (g\<lparr>BlockSize := DEFAULT_BLOCK_SIZE\<rparr>) s;
              (ok, s) = kv_alloc ops lun LBADESCRIPTOR 8 s in
          if ok then (True, kv_store lun LBADESCRIPTOR 0
            [0, 0, 0, 0, 0, ucast (drop_bit 16 DEFAULT_BLOCK_SIZE),
             ucast (drop_bit 8 DEFAULT_BLOCK_SIZE), ucast DEFAULT_BLOCK_SIZE] 8 s)
          else (False, s))"

definition config_spt :: "nat \<Rightarrow> 'f filesystem \<Rightarrow> 'f filesystem" where
  "config_spt lun s =
     (let spt = (case kv_string (kv_get lun MODEPAGE3 s) of
            Some p \<Rightarrow> ucast (be16 (p ! 10) (p ! 11)) | None \<Rightarrow> DEFAULT_SECTORS_PER_TRACK) in
      geo_set lun ((geo_get lun s)\<lparr>SectorsPerTrack := if spt = 0 then DEFAULT_SECTORS_PER_TRACK else spt\<rparr>) s)"

definition config_chs :: "'f sdcard \<Rightarrow> nat \<Rightarrow> 'f filesystem \<Rightarrow> 'f filesystem" where
  "config_chs ops lun s = (case kv_string (kv_get lun MODEPAGE0 s) of
     Some p \<Rightarrow> geo_set lun ((geo_get lun s)\<lparr>Cylinders := be16 (p ! 1) (p ! 2), Heads := p ! 3\<rparr>) s
   | None \<Rightarrow> (case kv_string (kv_get lun MODEPAGE4 s) of
       Some p \<Rightarrow> filesystemCopyPage4toPage0 lun
         (geo_set lun ((geo_get lun s)\<lparr>Cylinders := be16 (p ! 3) (p ! 4), Heads := p ! 5\<rparr>) s)
     | None \<Rightarrow> filesytemdattoconfigGeometry ops lun s))"

definition filesystemConfigToLunGeometry :: "'f sdcard \<Rightarrow> nat \<Rightarrow> 'f filesystem \<Rightarrow> 'f filesystem" where
  "filesystemConfigToLunGeometry ops lun s =
     (let (ok, s) = config_header ops lun s in if \<not> ok then s else
      let (ok, s) = config_block_size ops lun s in if \<not> ok then s else
      config_chs ops lun (config_spt lun s))"

definition release_keys :: "nat \<Rightarrow> ('f, 'z) filesystem_scheme \<Rightarrow> ('f, 'z) filesystem_scheme" where
  "release_keys lun s = s\<lparr>keyvalues := (keyvalues s)[lun := parse_releasekeyvalues (keyvalues s ! lun)]\<rparr>"

definition read_keys :: "'f sdcard \<Rightarrow> string \<Rightarrow> string option \<Rightarrow> nat \<Rightarrow> 'f filesystem \<Rightarrow> bool \<times> 'f filesystem" where
  "read_keys ops name out lun s =
     (let ((ok, kvs), c) = parse_readfile ops (fsMountState s) name out scsiattributes (keyvalues s ! lun) (card s) in
      (ok, s\<lparr>keyvalues := (keyvalues s)[lun := kvs], card := c\<rparr>))"

definition filesystemCheckExtAttributes :: "'f sdcard \<Rightarrow> nat \<Rightarrow> 'f filesystem \<Rightarrow> bool \<times> 'f filesystem" where
  "filesystemCheckExtAttributes ops lun s =
     (let name = lun_path lun s @ ''cfg'';
          (ok, s) = read_keys ops name None lun (release_keys lun s) in
      if ok then (True, filesystemConfigToLunGeometry ops lun s)
      else let (ok, s) = read_keys ops ''/Pi1MHz/defscsi.cfg'' None lun s in
        (False, filesystemConfigToLunGeometry ops lun s))"

definition filesystemReadLunDescriptor :: "'f sdcard \<Rightarrow> nat \<Rightarrow> 'f filesystem \<Rightarrow> bool \<times> 'f filesystem" where
  "filesystemReadLunDescriptor ops lun s =
     (let (ok, s) = filesystemCheckExtAttributes ops lun s in
      if ok then (True, s) else
      let (r, c) = f_open ops LocalFil (lun_path lun s @ ''dsc'') [FA_READ] (card s); s = s\<lparr>card := c\<rparr> in
      if r \<noteq> FR_OK then (False, s) else
      let ((r, b), c) = f_read ops LocalFil 22 (card s); s = s\<lparr>card := c\<rparr> in
      if r \<noteq> FR_OK \<or> length b \<noteq> 22 then
        (let (r, c) = f_close ops LocalFil (card s) in (False, s\<lparr>card := c\<rparr>))
      else
        let g = (geo_get lun s)\<lparr>BlockSize := be24 (b ! 9) (b ! 10) (b ! 11),
              Cylinders := be16 (b ! 13) (b ! 14), Heads := b ! 15,
              SectorsPerTrack := DEFAULT_SECTORS_PER_TRACK\<rparr>;
            s = filesystemLunToconfigGeometry ops lun (geo_set lun g s);
            (r, c) = f_close ops LocalFil (card s) in
        (True, s\<lparr>card := c\<rparr>))"

section \<open>Starting and stopping units\<close>

text \<open>
  Rebuilding the cluster link map of a unit's file, falling back to slow seeks when the file is
  too fragmented.
\<close>

definition link_file :: "'f sdcard \<Rightarrow> fil \<Rightarrow> 'f \<Rightarrow> 'f" where
  "link_file ops fp c = (let (r, c) = f_linkmap ops fp (set_cltbl ops fp True c) in
     if r \<noteq> FR_OK then set_cltbl ops fp False c else c)"

definition filesystemCheckLunImage :: "'f sdcard \<Rightarrow> nat \<Rightarrow> 'f filesystem \<Rightarrow> bool \<times> 'f filesystem" where
  "filesystemCheckLunImage ops lun s = (if fsLunStatus s ! lun then (True, s) else
     let (r, c) = f_open ops (LunFil lun) (lun_path lun s @ ''dat'') [FA_READ, FA_WRITE] (card s) in
     if r \<noteq> FR_OK then (False, s\<lparr>card := c\<rparr>) else
     let s = lun_status_set lun True (s\<lparr>card := link_file ops (LunFil lun) c\<rparr>);
         (ok, s) = filesystemReadLunDescriptor ops lun s in
     (True, if ok then s else filesytemdattoconfigGeometry ops lun s))"

definition filesystemCheckLunDirectory :: "'f sdcard \<Rightarrow> u8 \<Rightarrow> nat \<Rightarrow> 'f filesystem \<Rightarrow> bool \<times> 'f filesystem" where
  "filesystemCheckLunDirectory ops dir lun s = (if \<not> fsMountState s then (False, s) else
     let name = (if lun < 8 then ''/BeebSCSI'' @ dec (unat dir)
                 else ''/BeebVFS'' @ dec (unat (lunDirectoryVFS s)));
         (r, c) = f_opendir ops name (card s) in
     if r = FR_NO_PATH then
       (if 8 \<le> lun \<or> config_beeb_write_protected ops c then (False, s\<lparr>card := c\<rparr>)
        else let (r, c) = f_mkdir ops name c in (r = FR_OK, s\<lparr>card := c\<rparr>))
     else let (r', c) = f_closedir ops c in (r = FR_OK, s\<lparr>card := c\<rparr>))"

definition filesystemSetLunStatus :: "'f sdcard \<Rightarrow> nat \<Rightarrow> bool \<Rightarrow> 'f filesystem \<Rightarrow> bool \<times> 'f filesystem" where
  "filesystemSetLunStatus ops lun status s = (if fsLunStatus s ! lun = status then (True, s)
     else if status then
       (if \<not> fsMountState s then (False, s) else
        let (ok, s) = filesystemCheckLunDirectory ops (lunDirectory s) lun s in
        if \<not> ok then (False, s) else
        let (ok, s) = filesystemCheckLunImage ops lun s in
        if \<not> ok then (False, s) else (True, lun_status_set lun True s))
     else let (r, c) = f_close ops (LunFil lun) (card s) in
       (True, lun_status_set lun False (release_keys lun (s\<lparr>card := c\<rparr>))))"

definition filesystemReadLunStatus :: "nat \<Rightarrow> ('f, 'z) filesystem_scheme \<Rightarrow> bool" where
  "filesystemReadLunStatus lun s = fsLunStatus s ! lun"

definition filesystemTestLunStatus :: "'f sdcard \<Rightarrow> nat \<Rightarrow> 'f filesystem \<Rightarrow> bool \<times> 'f filesystem" where
  "filesystemTestLunStatus ops lun s = (if fsLunStatus s ! lun
     then filesystemCheckLunImage ops lun s else (False, s))"

definition filesystemInitialise :: "u8 \<Rightarrow> u8 \<Rightarrow> 'f filesystem \<Rightarrow> 'f filesystem" where
  "filesystemInitialise scsijuke vfsjuke s =
     s\<lparr>lunDirectory := scsijuke, lunDirectoryVFS := vfsjuke, fsMountState := False\<rparr>"

definition filesystemMount :: "'f sdcard \<Rightarrow> 'f filesystem \<Rightarrow> bool \<times> 'f filesystem" where
  "filesystemMount ops s = (if fsMountState s then (True, s) else
     let (r, c) = f_mount ops 1 (card s) in (r = FR_OK, s\<lparr>card := c, fsMountState := r = FR_OK\<rparr>))"

definition filesystemDismount :: "'f sdcard \<Rightarrow> 'f filesystem \<Rightarrow> bool \<times> 'f filesystem" where
  "filesystemDismount ops s = (if \<not> fsMountState s then (False, s) else
     let s = fold (\<lambda>lun s. release_keys lun (snd (filesystemSetLunStatus ops lun False s))) [0..<MAX_LUNS] s;
         (r, c) = f_mount ops 0 (card s) in
     (r = FR_OK, s\<lparr>card := c, fsMountState := False\<rparr>))"

definition filesystemReset :: "'f sdcard \<Rightarrow> 'f filesystem \<Rightarrow> 'f filesystem" where
  "filesystemReset ops s =
     snd (filesystemMount ops (snd (filesystemDismount ops (s\<lparr>fatDirectory := ''/Transfer''\<rparr>))))"

definition filesystemReadLunUserCode :: "nat \<Rightarrow> ('f, 'z) filesystem_scheme \<Rightarrow> u8 list" where
  "filesystemReadLunUserCode lun s = (case kv_string (kv_get lun LDUSERCODE s) of
     Some p \<Rightarrow> [p ! 0, p ! 1, p ! 2, p ! 3, p ! 4] | None \<Rightarrow> [0, 0, 0, 0, 0])"

definition filesystemSetLunDirectory :: "u8 \<Rightarrow> u8 \<Rightarrow> ('f, 'z) filesystem_scheme \<Rightarrow> ('f, 'z) filesystem_scheme" where
  "filesystemSetLunDirectory hostid n s =
     (if hostid < 16 then s\<lparr>lunDirectory := n\<rparr> else s\<lparr>lunDirectoryVFS := n\<rparr>)"

definition filesystemGetLunDirectory :: "('f, 'z) filesystem_scheme \<Rightarrow> u8" where
  "filesystemGetLunDirectory s = lunDirectory s"

section \<open>Creating units\<close>

definition filesystemCreateLunImage :: "'f sdcard \<Rightarrow> nat \<Rightarrow> 'f filesystem \<Rightarrow> bool \<times> 'f filesystem" where
  "filesystemCreateLunImage ops lun s = (if config_beeb_write_protected ops (card s) then (False, s) else
     let (ok, s) = filesystemCheckLunImage ops lun s in
     if ok then (True, s) else if 7 < lun then (False, s) else
     let (r, c) = f_open ops LocalFil (lun_path lun s @ ''dat'') [FA_CREATE_NEW, FA_READ, FA_WRITE] (card s) in
     if r \<noteq> FR_OK then (False, s\<lparr>card := c\<rparr>) else
     let (r, c) = f_close ops LocalFil c in (True, s\<lparr>card := c\<rparr>))"

definition filesystemCreateLunDescriptor :: "'f sdcard \<Rightarrow> nat \<Rightarrow> 'f filesystem \<Rightarrow> bool \<times> 'f filesystem" where
  "filesystemCreateLunDescriptor ops lun s =
     (if 7 < lun \<or> config_beeb_write_protected ops (card s) then (False, s) else
      let name = lun_path lun s @ ''cfg'';
          (ok, s) = read_keys ops name None lun (release_keys lun s) in
      if ok then (True, s) else
      let (ok, s) = read_keys ops ''/Pi1MHz/defscsi.cfg'' (Some name) lun s in
      if ok then (True, snd (read_keys ops name None lun (release_keys lun s))) else (False, s))"

definition filesystemWriteAttributes :: "'f sdcard \<Rightarrow> nat \<Rightarrow> 'f filesystem \<Rightarrow> bool \<times> 'f filesystem" where
  "filesystemWriteAttributes ops lun s = (if config_beeb_write_protected ops (card s) then (True, s)
     else if 7 < lun then (False, s) else
     let name = lun_path lun s @ ''cfg''; (ok, s) = read_keys ops name (Some name) lun s in
     if ok then (True, s) else read_keys ops ''/Pi1MHz/defscsi.cfg'' (Some name) lun s)"

definition filesystemFormatLun :: "'f sdcard \<Rightarrow> nat \<Rightarrow> u8 \<Rightarrow> 'f filesystem \<Rightarrow> bool \<times> 'f filesystem" where
  "filesystemFormatLun ops lun dataPattern s = (if config_beeb_write_protected ops (card s) then (True, s)
     else if 7 < lun then (False, s) else
     let s = snd (filesystemSetLunStatus ops lun False s);
         (r, c) = f_open ops LocalFil (lun_path lun s @ ''dat'') [FA_READ, FA_WRITE, FA_CREATE_ALWAYS] (card s);
         s = s\<lparr>card := c\<rparr> in
     if r \<noteq> FR_OK then (False, s) else
     let (r, c) = f_expand ops LocalFil (filesystemGetLunTotalBytes lun s) (card s); s = s\<lparr>card := c\<rparr> in
     if r \<noteq> FR_OK then (False, s) else
     let (r, c) = f_close ops LocalFil (card s) in (True, s\<lparr>card := c\<rparr>))"

section \<open>The sector stream\<close>

definition filesystemOpenLunForRead :: "'f sdcard \<Rightarrow> nat \<Rightarrow> u32 \<Rightarrow> u32 \<Rightarrow> 'f filesystem \<Rightarrow> bool \<times> 'f filesystem" where
  "filesystemOpenLunForRead ops lun startSector requiredNumberOfSectors s =
     (let seekPoint = startSector * 256;
          seekPoint = (if f_size ops (LunFil lun) (card s) < seekPoint
                       then f_size ops (LunFil lun) (card s) else seekPoint);
          (r, c) = f_lseek ops (LunFil lun) seekPoint (card s); s = s\<lparr>card := c\<rparr> in
      if r \<noteq> FR_OK then (False, s) else
      (True, lun_status_set lun True
        (s\<lparr>sectorsRemaining := requiredNumberOfSectors, sectorsInBuffer := 0\<rparr>)))"

text \<open>Filling the buffer from the file; a short read leaves zeros.\<close>

definition fill_buffer :: "'f sdcard \<Rightarrow> nat \<Rightarrow> 'f filesystem \<Rightarrow> bool \<times> 'f filesystem" where
  "fill_buffer ops lun s =
     (let n = (if SECTOR_BUFFER_LENGTH < sectorsRemaining s then SECTOR_BUFFER_LENGTH else sectorsRemaining s);
          bytes = unat n * 256;
          ((r, b), c) = f_read ops (LunFil lun) bytes (card s);
          s = s\<lparr>card := c, sectorBuffer := poke_at 0 b (sectorBuffer s)\<rparr> in
      if r \<noteq> FR_OK then (False, s) else
      let s = (if length b < bytes
               then s\<lparr>sectorBuffer := poke_at (length b) (replicate (bytes - length b) 0) (sectorBuffer s)\<rparr>
               else s) in
      (True, s\<lparr>sectorsInBuffer := ucast n, currentBufferSector := 0,
         sectorsRemaining := sectorsRemaining s - ucast (ucast n :: u8)\<rparr>))"

definition sector_at :: "u8 \<Rightarrow> ('f, 'z) filesystem_scheme \<Rightarrow> u8 list" where
  "sector_at k s = take 256 (drop (unat k * 256) (sectorBuffer s))"

definition filesystemReadNextSector :: "'f sdcard \<Rightarrow> nat \<Rightarrow> 'f filesystem \<Rightarrow> u8 list option \<times> 'f filesystem" where
  "filesystemReadNextSector ops lun s =
     (let (ok, s) = (if sectorsInBuffer s = 0 then fill_buffer ops lun s else (True, s)) in
      if \<not> ok then (None, s) else
      (Some (sector_at (currentBufferSector s) s),
       s\<lparr>currentBufferSector := currentBufferSector s + 1, sectorsInBuffer := sectorsInBuffer s - 1\<rparr>))"

definition filesystemCloseLunForRead :: "'f sdcard \<Rightarrow> nat \<Rightarrow> 'f filesystem \<Rightarrow> bool \<times> 'f filesystem" where
  "filesystemCloseLunForRead ops lun s = (True, snd (filesystemSetLunStatus ops lun False s))"

text \<open>
  With fast seek, a seek beyond the end of the file is clipped, so the file is first extended with
  slow seeks and its link map rebuilt.
\<close>

definition extend_for_write :: "'f sdcard \<Rightarrow> fil \<Rightarrow> u32 \<Rightarrow> 'f \<Rightarrow> bool \<times> 'f" where
  "extend_for_write ops fp pos c =
     (if cltbl ops fp c \<and> f_size ops fp c < pos then
        let (r, c) = f_lseek ops fp pos (set_cltbl ops fp False c);
            c = link_file ops fp c in
        (r = FR_OK \<and> f_tell ops fp c = pos, c)
      else (True, c))"

definition filesystemOpenLunForWrite :: "'f sdcard \<Rightarrow> nat \<Rightarrow> u32 \<Rightarrow> u32 \<Rightarrow> 'f filesystem \<Rightarrow> bool \<times> 'f filesystem" where
  "filesystemOpenLunForWrite ops lun startSector requiredNumberOfSectors s = (if 7 < lun then (False, s) else
     let (ok, c) = extend_for_write ops (LunFil lun) (startSector * 256) (card s); s = s\<lparr>card := c\<rparr> in
     if \<not> ok then (False, s) else
     let (r, c) = f_lseek ops (LunFil lun) (startSector * 256) (card s); s = s\<lparr>card := c\<rparr> in
     if r \<noteq> FR_OK then (False, s) else
     (True, s\<lparr>sectorsRemaining := requiredNumberOfSectors, currentBufferSector := 0\<rparr>))"

text \<open>
  Writing the filled part of the buffer; with fast seek a write that grows the file stops short
  and is completed with slow seeks.
\<close>

definition flush_bytes :: "'f sdcard \<Rightarrow> fil \<Rightarrow> u8 list \<Rightarrow> 'f \<Rightarrow> bool \<times> 'f" where
  "flush_bytes ops fp b c =
     (let ((r, n), c) = f_write ops fp b c;
          ((r, n), c) = (if r = FR_OK \<and> n \<noteq> length b \<and> cltbl ops fp c then
             (let ((r, m), c) = f_write ops fp (drop n b) (set_cltbl ops fp False c) in
              ((r, n + m), link_file ops fp c))
           else ((r, n), c)) in
      (r = FR_OK \<and> n = length b, c))"

definition filesystemWriteNextSector :: "'f sdcard \<Rightarrow> nat \<Rightarrow> u8 list \<Rightarrow> 'f filesystem \<Rightarrow> bool \<times> 'f filesystem" where
  "filesystemWriteNextSector ops lun buffer s = (if config_beeb_write_protected ops (card s) then (True, s) else
     let s = s\<lparr>sectorBuffer := poke_at (unat (currentBufferSector s) * 256) (take 256 buffer) (sectorBuffer s),
               currentBufferSector := currentBufferSector s + 1\<rparr>;
         k = ucast (currentBufferSector s) :: u32 in
     if k = SECTOR_BUFFER_LENGTH \<or> k = sectorsRemaining s then
       let n = (if k = SECTOR_BUFFER_LENGTH then SECTOR_BUFFER_LENGTH else sectorsRemaining s);
           (ok, c) = flush_bytes ops (LunFil lun) (take (unat n * 256) (sectorBuffer s)) (card s);
           s = s\<lparr>card := c\<rparr> in
       if \<not> ok then (False, s) else
       let s = s\<lparr>currentBufferSector := 0, sectorsRemaining := sectorsRemaining s - n\<rparr> in
       if sectorsRemaining s = 0
       then (let (r, c) = f_sync ops (LunFil lun) (card s) in (True, s\<lparr>card := c\<rparr>))
       else (True, s)
     else (True, s))"

definition filesystemCloseLunForWrite :: "'f sdcard \<Rightarrow> nat \<Rightarrow> 'f filesystem \<Rightarrow> bool \<times> 'f filesystem" where
  "filesystemCloseLunForWrite ops lun s = (True, snd (filesystemSetLunStatus ops lun False s))"

section \<open>Inquiry and mode page data\<close>

text \<open>The getters return the stored block with its length; a null pointer is \<open>None\<close>.\<close>

definition kv_data :: "nat \<Rightarrow> nat \<Rightarrow> ('f, 'z) filesystem_scheme \<Rightarrow> (u8 list \<times> nat) option" where
  "kv_data lun i s = map_option (\<lambda>xs. (xs, kv_length (kv_get lun i s))) (kv_string (kv_get lun i s))"

definition filesystemGetInquiryData :: "nat \<Rightarrow> ('f, 'z) filesystem_scheme \<Rightarrow> (u8 list \<times> nat) option" where
  "filesystemGetInquiryData lun s = kv_data lun INQUIRY s"

definition filesystemGetModeParamHeaderData :: "nat \<Rightarrow> ('f, 'z) filesystem_scheme \<Rightarrow> (u8 list \<times> nat) option" where
  "filesystemGetModeParamHeaderData lun s = kv_data lun MODEPARAMHEADER s"

definition filesystemGetLBADescriptorData :: "nat \<Rightarrow> ('f, 'z) filesystem_scheme \<Rightarrow> (u8 list \<times> nat) option" where
  "filesystemGetLBADescriptorData lun s = kv_data lun LBADESCRIPTOR s"

definition page_digits :: "u8 \<Rightarrow> string" where
  "page_digits page = (let p = unat (page AND 0x3F) in
     if 10 \<le> p then [char_of (p div 10 + 48), char_of (p mod 10 + 48)] else [char_of (p + 48)])"

definition filesystemPagetoIndex :: "u8 \<Rightarrow> nat option" where
  "filesystemPagetoIndex page = parse_findindex (''ModePage'' @ page_digits page) scsiattributes"

definition filesystemWritetoIndex :: "u8 \<Rightarrow> nat option" where
  "filesystemWritetoIndex page = parse_findindex (''WritPage'' @ page_digits page) scsiattributes"

definition filesystemGetModePageData :: "nat \<Rightarrow> u8 \<Rightarrow> ('f, 'z) filesystem_scheme \<Rightarrow> (u8 list \<times> nat) option" where
  "filesystemGetModePageData lun page s = (case filesystemPagetoIndex page of None \<Rightarrow> None
     | Some i \<Rightarrow> kv_data lun i s)"

text \<open>
  The bits of a page that its write mask admits come from the host, the others stay; a page with
  no mask is replaced by a zero-filled block of at least the key's declared size.
\<close>

definition mask_bytes :: "u8 list \<Rightarrow> u8 list \<Rightarrow> u8 list \<Rightarrow> nat \<Rightarrow> u8 list" where
  "mask_bytes buf wmask old n = map (\<lambda>i. (buf ! i AND wmask ! i) OR (old ! i AND NOT (wmask ! i))) [0..<n]"

definition filesystemWriteModePageData :: "'f sdcard \<Rightarrow> nat \<Rightarrow> u8 \<Rightarrow> nat \<Rightarrow> u8 list \<Rightarrow> 'f filesystem \<Rightarrow> bool \<times> 'f filesystem" where
  "filesystemWriteModePageData ops lun page len buf s = (case filesystemPagetoIndex page of None \<Rightarrow> (False, s)
     | Some i \<Rightarrow>
       (case (case filesystemWritetoIndex page of None \<Rightarrow> None
              | Some w \<Rightarrow> if kv_string (kv_get lun i s) \<noteq> None then kv_data lun w s else None) of
          Some (wmask, wlen) \<Rightarrow>
            let n = min len wlen in
            (True, kv_store lun i 0 (mask_bytes buf wmask (kv_bytes lun i s) n) n s)
        | None \<Rightarrow>
            let alloc = max len (nat (key_max (scsiattributes ! i)));
                (ok, c) = malloc ops alloc (card s); s = s\<lparr>card := c\<rparr> in
            if \<not> ok then (False, kv_set lun i kv_empty s)
            else (True, kv_set lun i \<lparr>kv_length = len,
              kv_string = Some (take len buf @ replicate (alloc - len) 0)\<rparr> s)))"

section \<open>FAT transfer\<close>

text \<open>A C string in a byte buffer ends at the first zero byte.\<close>

definition cstring :: "u8 list \<Rightarrow> string" where
  "cstring b = map (char_of \<circ> unat) (takeWhile (\<lambda>x. x \<noteq> 0) b)"

definition string_bytes :: "string \<Rightarrow> u8 list" where
  "string_bytes = map (\<lambda>c. of_nat (of_char c))"

definition filesystemSetFatDirectory :: "u8 list \<Rightarrow> ('f, 'z) filesystem_scheme \<Rightarrow> ('f, 'z) filesystem_scheme" where
  "filesystemSetFatDirectory buffer s = s\<lparr>fatDirectory := take 255 (cstring buffer)\<rparr>"

text \<open>Reading directory entries \<open>0\<close> to \<open>n\<close>; \<open>None\<close> when the directory ends first.\<close>

fun read_entries :: "'f sdcard \<Rightarrow> nat \<Rightarrow> 'f \<Rightarrow> filinfo option \<times> 'f" where
  "read_entries ops n c = (let ((r, info), c) = f_readdir ops c in
     if r \<noteq> FR_OK \<or> fname info = [] then (None, c)
     else case n of 0 \<Rightarrow> (Some info, c) | Suc m \<Rightarrow> read_entries ops m c)"

declare read_entries.simps [simp del]

definition AM_DIR :: u8 where "AM_DIR = 0x10"

definition be32_bytes :: "u32 \<Rightarrow> u8 list" where
  "be32_bytes w = [ucast (drop_bit 24 w), ucast (drop_bit 16 w), ucast (drop_bit 8 w), ucast w]"

definition fat_info :: "filinfo \<Rightarrow> u8 list \<Rightarrow> u8 list" where
  "fat_info info buf =
     (let head = (if fattrib info AND AM_DIR \<noteq> 0 then 2 # be32_bytes 0
                  else 1 # be32_bytes (if 536870912 < fsize info then 536870912 else fsize info));
          name = take 126 (string_bytes (fname info)) @ [0] in
      poke_at 127 name (poke_at 0 head buf))"

definition filesystemGetFatFileInfo :: "'f sdcard \<Rightarrow> u32 \<Rightarrow> u8 list \<Rightarrow> 'f filesystem \<Rightarrow> (bool \<times> u8 list) \<times> 'f filesystem" where
  "filesystemGetFatFileInfo ops fileNumber buf s = (if \<not> fsMountState s then ((False, buf), s) else
     let (r, c) = f_opendir ops (fatDirectory s) (card s);
         (ok, c) = (if r = FR_NO_PATH then
            (let (r, c) = f_mkdir ops (fatDirectory s) c in
             if r \<noteq> FR_OK then (False, c) else (True, snd (f_opendir ops (fatDirectory s) c)))
          else (r = FR_OK, c)) in
     if \<not> ok then ((False, buf), s\<lparr>card := c\<rparr>) else
     let (e, c) = read_entries ops (unat fileNumber) c; (r, c) = f_closedir ops c; s = s\<lparr>card := c\<rparr> in
     case e of None \<Rightarrow> ((True, poke_at 0 [0] buf), s) | Some info \<Rightarrow> ((True, fat_info info buf), s))"

definition filesystemOpenFatForRead :: "'f sdcard \<Rightarrow> u32 \<Rightarrow> u32 \<Rightarrow> 'f filesystem \<Rightarrow> bool \<times> 'f filesystem" where
  "filesystemOpenFatForRead ops fileNumber blockNumber s = (if \<not> fsMountState s then (False, s) else
     let (r, c) = f_opendir ops (fatDirectory s) (card s) in
     if r \<noteq> FR_OK then (False, s\<lparr>card := c\<rparr>) else
     let (e, c) = read_entries ops (unat fileNumber) c; (r, c) = f_closedir ops c in
     case e of None \<Rightarrow> (False, s\<lparr>card := c\<rparr>)
     | Some info \<Rightarrow> if fattrib info AND AM_DIR \<noteq> 0 then (False, s\<lparr>card := c\<rparr>) else
        let (r, c) = f_open ops FatFil (fatDirectory s @ ''/'' @ fname info) [FA_READ] c in
        if r \<noteq> FR_OK then (False, s\<lparr>card := c\<rparr>) else
        let (r, c) = f_lseek ops FatFil (blockNumber * 256) c in
        if r \<noteq> FR_OK then (let (r, c) = f_close ops FatFil c in (False, s\<lparr>card := c\<rparr>))
        else (True, s\<lparr>card := c\<rparr>))"

definition filesystemReadNextFatBlock :: "'f sdcard \<Rightarrow> 'f filesystem \<Rightarrow> u8 list option \<times> 'f filesystem" where
  "filesystemReadNextFatBlock ops s =
     (let ((r, b), c) = f_read ops FatFil 256 (card s); s = s\<lparr>card := c\<rparr> in
      if r \<noteq> FR_OK then (None, s) else (Some (b @ replicate (256 - length b) 0), s))"

definition filesystemCloseFatForRead :: "'f sdcard \<Rightarrow> 'f filesystem \<Rightarrow> bool \<times> 'f filesystem" where
  "filesystemCloseFatForRead ops s = (let (r, c) = f_close ops FatFil (card s) in (True, s\<lparr>card := c\<rparr>))"

end
