(* ===== verification/Config.thy ===== *)
theory Config
  imports Filesystem
begin

text \<open>
  The configuration store of \<open>config.c\<close>: the file \<open>Pi1MHz.cfg\<close> is parsed once into a
  bounded table of keys and values, which is searched without regard to case.  The pointers into
  the retained image are the strings they point to.
\<close>

section \<open>Parsing\<close>

definition CONFIG_MAX_KEYS :: nat where "CONFIG_MAX_KEYS = 96"

definition lower :: "char \<Rightarrow> char" where
  "lower c = (let n = of_char c :: nat in if 65 \<le> n \<and> n \<le> 90 then char_of (n - 65 + 97) else c)"

definition ci_equal :: "string \<Rightarrow> string \<Rightarrow> bool" where
  "ci_equal a b \<longleftrightarrow> map lower a = map lower b"

definition eol_char :: "char \<Rightarrow> bool" where "eol_char c \<longleftrightarrow> c = CHR 0x0A \<or> c = CHR 0x0D"
definition blank_char :: "char \<Rightarrow> bool" where "blank_char c \<longleftrightarrow> c = CHR '' '' \<or> c = CHR 0x09"

text \<open>What a C string pointer at the start of a buffer denotes.\<close>

definition c_string :: "string \<Rightarrow> string" where
  "c_string = takeWhile (\<lambda>c. c \<noteq> CHR 0x00)"

definition strip_blanks :: "string \<Rightarrow> string" where
  "strip_blanks v = rev (dropWhile blank_char (rev v))"

definition config_line :: "string \<Rightarrow> (string \<times> string) option" where
  "config_line line = 
     (if line = [] \<or> hd line = CHR ''#'' \<or> blank_char (hd line) then None else
     let stop = (\<lambda>c. blank_char c \<or> c = CHR ''='');
         k = takeWhile (\<lambda>c. \<not> stop c) line;
         p = dropWhile blank_char (dropWhile (\<lambda>c. \<not> stop c) line);
         p = (if p \<noteq> [] \<and> hd p = CHR ''='' then dropWhile blank_char (tl p) else p);
         v = strip_blanks (takeWhile (\<lambda>c. c \<noteq> CHR ''#'') p) in
     if k = [] then None else Some (c_string k, c_string v))"

definition add_entry :: "(string \<times> string) option \<Rightarrow> (string \<times> string) list \<Rightarrow> (string \<times> string) list" where
  "add_entry x es = (case x of Some kv \<Rightarrow> if length es < CONFIG_MAX_KEYS then es @ [kv] else es | None \<Rightarrow> es)"

function config_parse :: "string \<Rightarrow> (string \<times> string) list \<Rightarrow> (string \<times> string) list" where
  "config_parse buf es = (if buf = [] then es else
     config_parse (dropWhile eol_char (dropWhile (\<lambda>c. \<not> eol_char c) buf))
       (add_entry (config_line (takeWhile (\<lambda>c. \<not> eol_char c) buf)) es))"
  by auto
termination
proof (relation "measure (length \<circ> fst)")
  fix buf :: string and es :: "(string \<times> string) list"
  assume "buf \<noteq> []"
  then obtain c cs where buf: "buf = c # cs" by (cases buf) auto
  have "length (dropWhile P xs) \<le> length xs" for P and xs :: string by (rule length_dropWhile_le)
  then show "((dropWhile eol_char (dropWhile (\<lambda>c. \<not> eol_char c) buf),
      add_entry (config_line (takeWhile (\<lambda>c. \<not> eol_char c) buf)) es), buf, es) \<in> measure (length \<circ> fst)"
    unfolding buf by (auto simp: less_Suc_eq_le intro: order_trans)
qed simp

declare config_parse.simps [simp del]

section \<open>Lookup\<close>

definition config_get :: "(string \<times> string) list \<Rightarrow> string \<Rightarrow> string option" where
  "config_get es k = map_option snd (find (\<lambda>e. ci_equal (fst e) k) es)"

definition config_get_bool :: "(string \<times> string) list \<Rightarrow> string \<Rightarrow> bool" where
  "config_get_bool es k = (case config_get es k of
     Some (c # cs) \<Rightarrow> c \<in> {CHR ''1'', CHR ''y'', CHR ''Y'', CHR ''t'', CHR ''T''}
   | _ \<Rightarrow> False)"

definition beeb_write_protected :: "(string \<times> string) list \<Rightarrow> bool" where
  "beeb_write_protected es = config_get_bool es ''Beeb_write_protect''"

text \<open>The result and the address, which only a non-negative override changes.\<close>

definition config_emulator_override :: "(string \<times> string) list \<Rightarrow> string \<Rightarrow> u8 \<Rightarrow> int \<times> u8" where
  "config_emulator_override es name addr =
     (case config_get es (take 122 name @ ''_addr'') of
        None \<Rightarrow> (0, addr)
      | Some v \<Rightarrow> let t = strtol (string_bytes v) in
          if t < 0 then (-1, addr) else (1, word_of_int t))"

text \<open>The store: whether the file was loaded, and the table.\<close>

record config_store =
  config_loaded :: bool
  config_entries :: "(string \<times> string) list"

definition config_load :: "'f sdcard \<Rightarrow> bool \<Rightarrow> string \<Rightarrow> config_store \<Rightarrow> 'f \<Rightarrow> config_store \<times> 'f" where
  "config_load ops mounted filename s c = (if config_loaded s then (s, c) else
     let s = s\<lparr>config_loaded := True\<rparr>;
         (raw, c) = filesystemReadFile ops mounted filename None c in
     case raw of None \<Rightarrow> (s, c)
     | Some b \<Rightarrow> if b = [] then (s, c) else
         let (ok, c) = malloc ops (length b + 1) c in
         if \<not> ok then (s, c)
         else (s\<lparr>config_entries := config_parse (bytes_string b) (config_entries s)\<rparr>, c))"

section \<open>What is stored can be looked up\<close>

definition key_ok :: "string \<Rightarrow> bool" where
  "key_ok k \<longleftrightarrow> k \<noteq> [] \<and> hd k \<noteq> CHR ''#'' \<and>
     (\<forall>c \<in> set k. \<not> eol_char c \<and> \<not> blank_char c \<and> c \<noteq> CHR ''='' \<and> c \<noteq> CHR 0x00)"

definition value_ok :: "string \<Rightarrow> bool" where
  "value_ok v \<longleftrightarrow> (\<forall>c \<in> set v. \<not> eol_char c \<and> c \<noteq> CHR ''#'' \<and> c \<noteq> CHR 0x00) \<and>
     (v \<noteq> [] \<longrightarrow> \<not> blank_char (hd v) \<and> \<not> blank_char (last v))"

definition entry_text :: "string \<times> string \<Rightarrow> string" where
  "entry_text kv = fst kv @ ''='' @ snd kv"

lemma takeWhile_stop: "\<forall>c \<in> set k. \<not> P c \<Longrightarrow> P x \<Longrightarrow> takeWhile (\<lambda>c. \<not> P c) (k @ x # r) = k \<and>
    dropWhile (\<lambda>c. \<not> P c) (k @ x # r) = x # r"
  by (induction k) auto

lemma config_line_text:
  assumes "key_ok k" "value_ok v"
  shows "config_line (entry_text (k, v)) = Some (k, v)"
proof -
  have c: "k \<noteq> []" "hd k \<noteq> CHR ''#''" "\<not> blank_char (hd k)" using assms(1) by (auto simp: key_ok_def)
  let ?stop = "\<lambda>c. blank_char c \<or> c = CHR ''=''"
  have split: "takeWhile (\<lambda>c. \<not> ?stop c) (k @ CHR ''='' # v) = k"
    "dropWhile (\<lambda>c. \<not> ?stop c) (k @ CHR ''='' # v) = CHR ''='' # v"
    using assms(1) takeWhile_stop [of k ?stop "CHR ''=''" v] by (auto simp: key_ok_def)
  have d: "dropWhile blank_char v = v"
    using assms(2) by (cases v) (auto simp: value_ok_def)
  have t: "takeWhile (\<lambda>c. c \<noteq> CHR ''#'') v = v" "c_string k = k" "c_string v = v"
    using assms by (auto simp: value_ok_def key_ok_def c_string_def takeWhile_eq_all_conv)
  have s: "strip_blanks v = v"
    using assms(2) by (cases v rule: rev_cases) (auto simp: value_ok_def strip_blanks_def)
  have "\<not> blank_char (CHR ''='')" by (simp add: blank_char_def)
  then show ?thesis
    using c by (simp add: config_line_def entry_text_def Let_def split [simplified] d t s)
qed

lemma config_parse_line:
  assumes "\<forall>c \<in> set l. \<not> eol_char c" "l \<noteq> []" "rest = [] \<or> \<not> eol_char (hd rest)"
  shows "config_parse (l @ CHR 0x0A # rest) es = config_parse rest (add_entry (config_line l) es)"
proof -
  have "eol_char (CHR 0x0A)" by (simp add: eol_char_def)
  moreover have "dropWhile eol_char rest = rest" using assms(3) by (cases rest) auto
  ultimately show ?thesis
    using takeWhile_stop [OF assms(1), of "CHR 0x0A" rest]
    by (subst config_parse.simps) simp
qed

definition config_text :: "(string \<times> string) list \<Rightarrow> string" where
  "config_text es = concat (map (\<lambda>kv. entry_text kv @ [CHR 0x0A]) es)"

lemma config_parse_text:
  assumes "\<forall>kv \<in> set es. key_ok (fst kv) \<and> value_ok (snd kv)" "length acc + length es \<le> CONFIG_MAX_KEYS"
  shows "config_parse (config_text es) acc = acc @ es"
  using assms
proof (induction es arbitrary: acc)
  case (Cons kv es)
  obtain k v where kv: "kv = (k, v)" by fastforce
  have ok: "key_ok k" "value_ok v" using Cons.prems(1) kv by auto
  have "\<forall>c \<in> set (entry_text kv). \<not> eol_char c" "entry_text kv \<noteq> []"
    using ok by (auto simp: entry_text_def kv key_ok_def value_ok_def eol_char_def)
  moreover have "config_text es = [] \<or> \<not> eol_char (hd (config_text es))"
    using Cons.prems(1) by (cases es) (auto simp: config_text_def entry_text_def key_ok_def hd_append)
  ultimately have "config_parse (config_text (kv # es)) acc = config_parse (config_text es) (acc @ [kv])"
    using Cons.prems(2) by (simp add: config_text_def config_parse_line kv config_line_text [OF ok] add_entry_def)
  with Cons show ?case by simp
qed (simp add: config_text_def config_parse.simps)

text \<open>A settings file that lists keys and values is read back: config_get finds the value of
  every key of the text, whatever the case in which the key is asked for.\<close>

theorem config_roundtrip:
  assumes "\<forall>kv \<in> set es. key_ok (fst kv) \<and> value_ok (snd kv)" "length es \<le> CONFIG_MAX_KEYS"
    and "distinct (map (map lower \<circ> fst) es)" "(k, v) \<in> set es" "ci_equal k k'"
  shows "config_get (config_parse (config_text es) []) k' = Some v"
proof -
  have "config_parse (config_text es) [] = es" using config_parse_text [of es "[]"] assms(1,2) by simp
  moreover have "find (\<lambda>e. ci_equal (fst e) k') es = Some (k, v)"
    using assms(3-5) by (induction es) (force simp: ci_equal_def)+
  ultimately show ?thesis by (simp add: config_get_def)
qed

end
