(* ===== verification/Bus.thy ===== *)
theory Bus
  imports Config
begin

text \<open>
  The bus side of \<open>Pi1MHz.c\<close>: the bytes that the Beeb reads from FRED and JIM, kept twice (in
  the words of the video processor, which serves the reads, and in a shadow array), the shared
  interrupt line, the registration of callbacks and pollers, the *FX registers, and the
  configuration of the emulators at reset.
\<close>

section \<open>State\<close>

text \<open>
  Functions are their addresses, zero being the null pointer.  \<open>nirq_output\<close> is the function
  of the interrupt pin: an output drives the line low.
\<close>

record bus =
  Memory :: "u8 list"
  Memory_VPU :: "u32 list"
  nirq_mask :: u32
  nirq_output :: bool
  nnmi_output :: bool
  status_addr :: u8
  fx_register :: "u8 list"
  callback_table :: "nat \<Rightarrow> nat"
  poll_table :: "nat list"

definition NUM_EMULATORS :: nat where "NUM_EMULATORS = 16"

definition GET_DATA :: "u32 \<Rightarrow> u8" where
  "GET_DATA gpio = ucast (gpio AND 0xFF)"

definition GET_ADDR :: "u32 \<Rightarrow> nat" where
  "GET_ADDR gpio = unat (drop_bit 14 (gpio AND 0x3FC000))"

section \<open>Memory\<close>

definition Pi1MHz_MemoryWrite :: "nat \<Rightarrow> u8 \<Rightarrow> bus \<Rightarrow> bus" where
  "Pi1MHz_MemoryWrite addr data s =
     (let other = ucast (Memory s ! (addr XOR 1)) OR 0xFF00 :: u32;
          mine = 0xFF00 OR ucast data;
          w = (if odd addr then push_bit 16 mine OR other else mine OR push_bit 16 other) in
      s\<lparr>Memory_VPU := (Memory_VPU s)[addr div 2 := w], Memory := (Memory s)[addr := data]\<rparr>)"

definition Pi1MHz_MemoryWrite16 :: "nat \<Rightarrow> u32 \<Rightarrow> bus \<Rightarrow> bus" where
  "Pi1MHz_MemoryWrite16 addr data s =
     s\<lparr>Memory := (Memory s)[addr := ucast data, addr + 1 := ucast (drop_bit 8 data)],
       Memory_VPU := (Memory_VPU s)[addr div 2 := 0xFF00FF00 OR (data AND 0xFF) OR push_bit 8 data]\<rparr>"

definition Pi1MHz_MemoryWrite32 :: "nat \<Rightarrow> u32 \<Rightarrow> bus \<Rightarrow> bus" where
  "Pi1MHz_MemoryWrite32 addr data s =
     s\<lparr>Memory := (Memory s)[addr := ucast data, addr + 1 := ucast (drop_bit 8 data),
         addr + 2 := ucast (drop_bit 16 data), addr + 3 := ucast (drop_bit 24 data)],
       Memory_VPU := (Memory_VPU s)[addr div 2 := 0xFF00FF00 OR (data AND 0xFF) OR push_bit 8 data,
         addr div 2 + 1 := 0xFF00FF00 OR drop_bit 16 data OR push_bit 16 (drop_bit 24 data)]\<rparr>"

definition Pi1MHz_MemoryRead :: "nat \<Rightarrow> bus \<Rightarrow> u8" where
  "Pi1MHz_MemoryRead addr s = Memory s ! addr"

definition Pi1MHz_EmulatedMemoryByte :: "u32 \<Rightarrow> bus \<Rightarrow> bus" where
  "Pi1MHz_EmulatedMemoryByte gpio s = Pi1MHz_MemoryWrite (GET_ADDR gpio) (GET_DATA gpio) s"

text \<open>What the Beeb reads: the low or the high half of a word.\<close>

definition bus_read :: "bus \<Rightarrow> nat \<Rightarrow> u8" where
  "bus_read s a = ucast (drop_bit (if odd a then 16 else 0) (Memory_VPU s ! (a div 2)))"

definition mem_wf :: "bus \<Rightarrow> bool" where
  "mem_wf s \<longleftrightarrow> length (Memory s) = 512 \<and> length (Memory_VPU s) = 256 \<and> (\<forall>a < 512. bus_read s a = Memory s ! a)"

lemma xor_1: "(a :: nat) XOR Suc 0 = (if even a then a + 1 else a - 1)"
  using xor_nat_rec [of a 1] by (auto elim: evenE oddE)

lemma byte_mask_bits:
  "bit (0xFF00 :: u32) n \<longleftrightarrow> 8 \<le> n \<and> n < 16"
  "bit (0xFF00FF00 :: u32) n \<longleftrightarrow> 8 \<le> n \<and> n < 16 \<or> 24 \<le> n \<and> n < 32"
  "bit (0xFF :: u32) n \<longleftrightarrow> n < 8"
proof -
  have 1: "(0xFF00 :: u32) = push_bit 8 (mask 8)" "(0xFF :: u32) = mask 8" by (simp_all add: mask_numeral)
  have 2: "(0xFF00FF00 :: u32) = push_bit 8 (mask 8) OR push_bit 24 (mask 8)" by (simp add: mask_numeral)
  show "bit (0xFF00 :: u32) n \<longleftrightarrow> 8 \<le> n \<and> n < 16" unfolding 1 by (auto simp: bit_push_bit_iff bit_mask_iff)
  show "bit (0xFF00FF00 :: u32) n \<longleftrightarrow> 8 \<le> n \<and> n < 16 \<or> 24 \<le> n \<and> n < 32"
    unfolding 2 by (auto simp: bit_or_iff bit_push_bit_iff bit_mask_iff)
  show "bit (0xFF :: u32) n \<longleftrightarrow> n < 8" unfolding 1 by (auto simp: bit_mask_iff)
qed

lemmas word_bits = bit_unsigned_iff bit_or_iff bit_and_iff bit_push_bit_iff bit_drop_bit_eq comp_def

text \<open>A word that holds two bytes in its halves.\<close>

definition halves :: "u8 \<Rightarrow> u8 \<Rightarrow> u32 \<Rightarrow> bool" where
  "halves lo hi w \<longleftrightarrow> ucast w = lo \<and> ucast (drop_bit 16 w) = hi"

lemma halves_write8:
  "halves lo hi ((0xFF00 OR ucast lo) OR push_bit 16 (ucast hi OR 0xFF00))" (is ?even)
  "halves lo hi (push_bit 16 (0xFF00 OR ucast hi) OR (ucast lo OR 0xFF00))" (is ?odd)
proof -
  show ?even unfolding halves_def by (intro conjI bit_word_eqI; simp only: word_bits byte_mask_bits; auto)
  show ?odd unfolding halves_def by (intro conjI bit_word_eqI; simp only: word_bits byte_mask_bits; auto)
qed

lemma halves_write16: "halves (ucast d) (ucast (drop_bit 8 d)) (0xFF00FF00 OR (d AND 0xFF) OR push_bit 8 d)"
  unfolding halves_def
  by (intro conjI bit_word_eqI; simp only: word_bits byte_mask_bits; auto)

lemma halves_write32:
  "halves (ucast (drop_bit 16 d)) (ucast (drop_bit 24 d)) (0xFF00FF00 OR drop_bit 16 d OR push_bit 16 (drop_bit 24 d))"
  unfolding halves_def
  by (intro conjI bit_word_eqI; simp only: word_bits byte_mask_bits; auto dest: bit_imp_le_length)

lemma mem_wf_halves:
  "mem_wf s \<longleftrightarrow> length (Memory s) = 512 \<and> length (Memory_VPU s) = 256 \<and>
     (\<forall>i < 256. halves (Memory s ! (2 * i)) (Memory s ! (2 * i + 1)) (Memory_VPU s ! i))"
proof -
  have "(\<forall>a < 512. bus_read s a = Memory s ! a) \<longleftrightarrow>
      (\<forall>i < 256. bus_read s (2 * i) = Memory s ! (2 * i) \<and> bus_read s (2 * i + 1) = Memory s ! (2 * i + 1))"
    (is "?l \<longleftrightarrow> ?r")
  proof
    assume r: ?r
    show ?l
    proof (intro allI impI)
      fix a :: nat assume "a < 512"
      then have "a div 2 < 256" "a = 2 * (a div 2) \<or> a = 2 * (a div 2) + 1" by auto
      with r show "bus_read s a = Memory s ! a" by metis
    qed
  qed auto
  then show ?thesis by (auto simp: mem_wf_def halves_def bus_read_def)
qed

lemma MemoryWrite_wf:
  assumes "mem_wf s" "a < 512"
  shows "mem_wf (Pi1MHz_MemoryWrite a d s)"
proof -
  obtain i where i: "a = 2 * i \<or> a = 2 * i + 1" "i < 256" 
    by (rule that [of "a div 2"]) (use assms(2) in auto)
  then show ?thesis
    using assms(1) halves_write8 [of d] halves_write8 [of _ d]
    by (auto simp: mem_wf_halves Pi1MHz_MemoryWrite_def Let_def xor_1 nth_list_update)
qed

lemma MemoryWrite16_wf:
  assumes "mem_wf s" "even a" "a < 512"
  shows "mem_wf (Pi1MHz_MemoryWrite16 a d s)"
proof -
  obtain i where i: "a = 2 * i" "i < 256" using assms(2,3) by (auto elim!: evenE)
  then show ?thesis
    using assms(1) halves_write16 [of d]
    by (auto simp: mem_wf_halves Pi1MHz_MemoryWrite16_def nth_list_update)
qed

lemma MemoryWrite32_wf:
  assumes "mem_wf s" "4 dvd a" "a < 512"
  shows "mem_wf (Pi1MHz_MemoryWrite32 a d s)"
proof -
  obtain i where i: "a = 4 * i" "i < 128" using assms(2,3) by (auto elim!: dvdE)
  then show ?thesis
    using assms(1) halves_write16 [of d] halves_write32 [of d]
    by (auto simp: mem_wf_halves Pi1MHz_MemoryWrite32_def nth_list_update)
qed

text \<open>The stores refine an update of the bytes that the Beeb sees.\<close>

definition bus_view :: "bus \<Rightarrow> u8 list" where
  "bus_view s = map (bus_read s) [0..<512]"

lemma bus_view_wf: "mem_wf s \<Longrightarrow> bus_view s = Memory s"
  by (auto simp: bus_view_def mem_wf_def intro!: nth_equalityI)

text \<open>C19. A byte written to the emulated memory refines an update of the flat page the Beeb reads:
  exactly the addressed byte changes, although the code keeps a byte array and packs pairs of
  bytes with shifted copies into the words the VPU reads.\<close>

theorem MemoryWrite_refines:
  assumes "mem_wf s" "a < 512"
  shows "bus_view (Pi1MHz_MemoryWrite a d s) = (bus_view s)[a := d]"
  using assms MemoryWrite_wf [OF assms, of d]
  by (simp add: bus_view_wf) (simp add: Pi1MHz_MemoryWrite_def Let_def)

lemma MemoryWrite16_refines:
  assumes "mem_wf s" "even a" "a < 512"
  shows "bus_view (Pi1MHz_MemoryWrite16 a d s) = (bus_view s)[a := ucast d, a + 1 := ucast (drop_bit 8 d)]"
  using assms MemoryWrite16_wf [OF assms, of d]
  by (simp add: bus_view_wf) (simp add: Pi1MHz_MemoryWrite16_def)

lemma MemoryWrite32_refines:
  assumes "mem_wf s" "4 dvd a" "a < 512"
  shows "bus_view (Pi1MHz_MemoryWrite32 a d s) = (bus_view s)[a := ucast d, a + 1 := ucast (drop_bit 8 d),
    a + 2 := ucast (drop_bit 16 d), a + 3 := ucast (drop_bit 24 d)]"
  using assms MemoryWrite32_wf [OF assms, of d]
  by (simp add: bus_view_wf) (simp add: Pi1MHz_MemoryWrite32_def)

section \<open>Registration\<close>

definition Pi1MHz_Register_Memory :: "nat \<Rightarrow> nat \<Rightarrow> nat \<Rightarrow> bus \<Rightarrow> bus" where
  "Pi1MHz_Register_Memory access addr f s = s\<lparr>callback_table := (callback_table s)(access + addr := f)\<rparr>"

definition Pi1MHz_Register_Poll :: "nat \<Rightarrow> bus \<Rightarrow> bus" where
  "Pi1MHz_Register_Poll f s =
     (if f = 0 then s
      else if f \<in> set (poll_table s) then s
      else if NUM_EMULATORS \<le> length (poll_table s) then s
      else s\<lparr>poll_table := poll_table s @ [f]\<rparr>)"

definition poll_wf :: "bus \<Rightarrow> bool" where
  "poll_wf s \<longleftrightarrow> length (poll_table s) \<le> NUM_EMULATORS \<and> distinct (poll_table s) \<and> 0 \<notin> set (poll_table s)"

lemma Register_Poll_wf: "poll_wf s \<Longrightarrow> poll_wf (Pi1MHz_Register_Poll f s)"
  by (auto simp: poll_wf_def Pi1MHz_Register_Poll_def)

text \<open>
  Registering the pollers of the emulators, in any order and however often: each is called once
  per pass, in the order of its first registration, as long as they are not more than the table
  holds.
\<close>

text \<open>As long as the distinct polling functions fit, the poll table holds each registered
  function exactly once, in the order in which the functions first appear when repetitions are
  dropped.\<close>

theorem register_all_pollers:
  assumes "length (remdups fs) \<le> NUM_EMULATORS" "0 \<notin> set fs" "poll_table s = []"
  shows "poll_table (fold Pi1MHz_Register_Poll fs s) = rev (remdups (rev fs))"
  using assms(1,2)
proof (induction fs rule: rev_induct)
  case (snoc f fs)
  have len: "length (remdups xs) = Finite_Set.card (set xs)" for xs :: "nat list" by (rule length_remdups_card_conv)
  have le: "Finite_Set.card (set fs) \<le> Finite_Set.card (set (fs @ [f]))" by (intro card_mono) auto
  then have IH: "poll_table (fold Pi1MHz_Register_Poll fs s) = rev (remdups (rev fs))"
    using snoc.IH snoc.prems by (simp add: len)
  moreover have "f \<notin> set fs \<Longrightarrow> Finite_Set.card (set fs) < NUM_EMULATORS"
    using snoc.prems(1) by (simp add: len card_insert_if)
  ultimately show ?case
    using snoc.prems(2) len [of "rev fs"] by (cases "f \<in> set fs") (auto simp: Pi1MHz_Register_Poll_def [of f])
qed (simp add: assms(3))

section \<open>Interrupt lines\<close>

definition Pi1MHz_SetnIRQ_src :: "u8 \<Rightarrow> bool \<Rightarrow> bus \<Rightarrow> bus" where
  "Pi1MHz_SetnIRQ_src src assert_irq s =
     (let old = nirq_mask s;
          mask' = (if assert_irq then old OR push_bit (unat src) 1 else old AND NOT (push_bit (unat src) 1));
          s = s\<lparr>nirq_mask := mask'\<rparr> in
      if (old \<noteq> 0) \<noteq> (mask' \<noteq> 0) then s\<lparr>nirq_output := mask' \<noteq> 0\<rparr> else s)"

definition Pi1MHz_nIRQ_ASSERT :: "u8 \<Rightarrow> bus \<Rightarrow> bus" where
  "Pi1MHz_nIRQ_ASSERT src = Pi1MHz_SetnIRQ_src src True"

definition Pi1MHz_nIRQ_CLEAR :: "u8 \<Rightarrow> bus \<Rightarrow> bus" where
  "Pi1MHz_nIRQ_CLEAR src = Pi1MHz_SetnIRQ_src src False"

definition Pi1MHz_SetnNMI :: "bool \<Rightarrow> bus \<Rightarrow> bus" where
  "Pi1MHz_SetnNMI nmi s = s\<lparr>nnmi_output := nmi\<rparr>"

definition irq_wf :: "bus \<Rightarrow> bool" where
  "irq_wf s \<longleftrightarrow> nirq_output s = (nirq_mask s \<noteq> 0)"

lemma SetnIRQ_mask: "unat src < 32 \<Longrightarrow> n < 32 \<Longrightarrow>
    bit (nirq_mask (Pi1MHz_SetnIRQ_src src b s)) n = (if n = unat src then b else bit (nirq_mask s) n)"
  by (auto simp: Pi1MHz_SetnIRQ_src_def Let_def bit_simps)

lemma SetnIRQ_wf: "irq_wf s \<Longrightarrow> irq_wf (Pi1MHz_SetnIRQ_src src b s)"
  by (auto simp: irq_wf_def Pi1MHz_SetnIRQ_src_def Let_def)

text \<open>Requests on the line: the last one of each source counts.\<close>

fun irq_requests :: "(u8 \<times> bool) list \<Rightarrow> (u8 \<Rightarrow> bool) \<Rightarrow> u8 \<Rightarrow> bool" where
  "irq_requests [] r = r"
| "irq_requests ((src, b) # qs) r = irq_requests qs (r(src := b))"

lemma unat_small: "n < 32 \<Longrightarrow> unat (of_nat n :: u8) = n"
  by (simp add: unat_of_nat take_bit_nat_eq_self)

text \<open>C26. The shared interrupt line is the disjunction of its sources: after any sequence of
  assertions and releases the line is driven if and only if some source's last request was to
  assert.\<close>

theorem nirq_shared:
  assumes "\<forall>q \<in> set qs. unat (fst q) < 32" "irq_wf s" "\<forall>n < 32. bit (nirq_mask s) n = r (of_nat n)"
  shows "nirq_output (fold (\<lambda>(src, b). Pi1MHz_SetnIRQ_src src b) qs s) \<longleftrightarrow>
    (\<exists>src. unat src < 32 \<and> irq_requests qs r src)"
  using assms
proof (induction qs arbitrary: s r)
  case Nil
  have "nirq_mask s \<noteq> 0 \<longleftrightarrow> (\<exists>n < 32. bit (nirq_mask s) n)"
    using bit_word_eqI [of "nirq_mask s" 0] by auto
  also have "\<dots> \<longleftrightarrow> (\<exists>src :: u8. unat src < 32 \<and> r src)"
  proof
    assume "\<exists>n < 32. bit (nirq_mask s) n"
    then obtain n where "n < 32" "r (of_nat n)" using Nil by auto
    moreover from this have "unat (of_nat n :: u8) = n" by (intro unat_small)
    ultimately show "\<exists>src :: u8. unat src < 32 \<and> r src" by (intro exI [of _ "of_nat n"]) simp
  qed (use Nil in force)
  finally show ?case using Nil by (simp add: irq_wf_def)
next
  case (Cons q qs)
  obtain src b where q: "q = (src, b)" by fastforce
  have src: "unat src < 32" using Cons.prems(1) q by simp
  have eq: "n = unat src \<longleftrightarrow> of_nat n = src" if "n < 32" for n
    using that unat_small [OF that] by auto
  have "\<forall>n < 32. bit (nirq_mask (Pi1MHz_SetnIRQ_src src b s)) n = (r(src := b)) (of_nat n)"
    using Cons.prems(3) src by (auto simp: SetnIRQ_mask eq)
  then have "nirq_output (fold (\<lambda>(src, b). Pi1MHz_SetnIRQ_src src b) qs (Pi1MHz_SetnIRQ_src src b s)) \<longleftrightarrow>
      (\<exists>x. unat x < 32 \<and> irq_requests qs (r(src := b)) x)"
    using Cons.prems(1,2) by (intro Cons.IH SetnIRQ_wf) simp_all
  then show ?case by (simp add: q del: fun_upd_apply)
qed

section \<open>The *FX registers\<close>

definition Pi1MHzBus_addr_Status :: "u32 \<Rightarrow> bus \<Rightarrow> bus" where
  "Pi1MHzBus_addr_Status gpio s =
     (let data = GET_DATA gpio; addr = GET_ADDR gpio;
          s = Pi1MHz_MemoryWrite addr data (s\<lparr>status_addr := data\<rparr>) in
      Pi1MHz_MemoryWrite (addr + 1) (fx_register s ! unat data) s)"

definition Pi1MHzBus_write_Status :: "u32 \<Rightarrow> bus \<Rightarrow> bus" where
  "Pi1MHzBus_write_Status gpio s =
     (let data = GET_DATA gpio; addr = GET_ADDR gpio;
          s = s\<lparr>fx_register := (fx_register s)[unat (status_addr s) := data]\<rparr> in
      Pi1MHz_MemoryWrite addr data s)"

definition Pi1MHZ_FX_CONTROL :: nat where "Pi1MHZ_FX_CONTROL = 0xCA"
definition WRITE_FRED :: nat where "WRITE_FRED = 0"
definition READ_FRED :: nat where "READ_FRED = 512"

lemma MemoryWrite_fields [simp]:
  "fx_register (Pi1MHz_MemoryWrite a d s) = fx_register s" "status_addr (Pi1MHz_MemoryWrite a d s) = status_addr s"
  "Memory (Pi1MHz_MemoryWrite a d s) = (Memory s)[a := d]" "nirq_mask (Pi1MHz_MemoryWrite a d s) = nirq_mask s"
  "nirq_output (Pi1MHz_MemoryWrite a d s) = nirq_output s"
  by (simp_all add: Pi1MHz_MemoryWrite_def Let_def)

lemma mem_wf_fields [simp]:
  "mem_wf (s\<lparr>fx_register := f\<rparr>) = mem_wf s" "mem_wf (s\<lparr>status_addr := a\<rparr>) = mem_wf s"
  "mem_wf (Pi1MHz_SetnIRQ_src i b s) = mem_wf s"
  by (simp_all add: mem_wf_def bus_read_def Pi1MHz_SetnIRQ_src_def Let_def)

text \<open>
  Selecting a register, writing it, and selecting it again later: the Beeb reads back what it wrote.
\<close>

text \<open>The Beeb reads back what it writes to a *FX register: select, write, select again puts the
  written byte at the data address.\<close>

theorem fx_register_roundtrip:
  assumes "mem_wf s" "length (fx_register s) = 256"
    and "GET_ADDR sel = 0xCA" "GET_ADDR wr = 0xCB"
  shows "bus_read (Pi1MHzBus_addr_Status sel (Pi1MHzBus_write_Status wr (Pi1MHzBus_addr_Status sel s))) 0xCB = GET_DATA wr"
proof -
  let ?s1 = "Pi1MHzBus_addr_Status sel s" and ?s2 = "Pi1MHzBus_write_Status wr (Pi1MHzBus_addr_Status sel s)"
  let ?s3 = "Pi1MHzBus_addr_Status sel ?s2"
  have wf: "mem_wf ?s3"
    using assms by (simp add: Pi1MHzBus_addr_Status_def Pi1MHzBus_write_Status_def Let_def MemoryWrite_wf)
  have "length (Memory ?s3) = 512" using wf by (simp add: mem_wf_def)
  moreover have "fx_register ?s2 ! unat (GET_DATA sel) = GET_DATA wr"
    using assms(2) unat_u8_less [of "GET_DATA sel"]
    by (simp add: Pi1MHzBus_addr_Status_def Pi1MHzBus_write_Status_def Let_def)
  ultimately have "Memory ?s3 ! 0xCB = GET_DATA wr"
    using assms(3) by (simp add: Pi1MHzBus_addr_Status_def [of sel ?s2] Let_def)
  then show ?thesis using wf by (simp add: mem_wf_def)
qed

section \<open>The emulators\<close>

record emulator =
  em_name :: string
  em_address :: u8
  em_enable :: bool

definition emulator_list :: "emulator list" where
  "emulator_list = map (\<lambda>(n, a, e). \<lparr>em_name = n, em_address = a, em_enable = e\<rparr>) [
     (''Helpers'', 0x88, True), (''Rampage'', 0xFD, True), (''Rambyte'', 0x00, True),
     (''Harddisc'', 0x40, True), (''M5000'', 0, True), (''BeebSID'', 0x20, False),
     (''Services'', 0xA6, True), (''Videoplayer'', 0x00, True), (''Framebuffer'', 0xA0, True),
     (''Mouseredirect'', 0xAC, True), (''usb'', 0x00, True), (''wifi'', 0x00, True),
     (''aun'', 0x00, True), (''net'', 0x00, True), (''Teletext'', 0x10, True),
     (''Watchdog'', 0x00, True)]"

definition override_emulator :: "(string \<times> string) list \<Rightarrow> emulator \<Rightarrow> emulator" where
  "override_emulator cfg em =
     (let (ov, a) = config_emulator_override cfg (em_name em) (em_address em) in
      if ov < 0 then em\<lparr>em_enable := False\<rparr>
      else if 0 < ov then em\<lparr>em_address := a, em_enable := True\<rparr>
      else em)"

text \<open>M5000 and BeebSID share the audio output; BeebSID wins.\<close>

definition exclude_M5000 :: "emulator list \<Rightarrow> emulator list" where
  "exclude_M5000 es =
     (if list_ex (\<lambda>em. em_enable em \<and> em_name em = ''BeebSID'') es
      then map (\<lambda>em. if em_name em = ''M5000'' \<and> em_enable em then em\<lparr>em_enable := False\<rparr> else em) es
      else es)"

definition configure_emulators :: "(string \<times> string) list \<Rightarrow> emulator list \<Rightarrow> emulator list" where
  "configure_emulators cfg es = exclude_M5000 (map (override_emulator cfg) es)"

definition enabled :: "string \<Rightarrow> emulator list \<Rightarrow> bool" where
  "enabled n es \<longleftrightarrow> (\<exists>em \<in> set es. em_name em = n \<and> em_enable em)"

lemma override_name [simp]: "em_name (override_emulator cfg em) = em_name em"
  by (auto simp: override_emulator_def Let_def split: prod.splits)

text \<open>Whatever the settings file says, BeebSID and M5000, which share the audio output, are
  never both enabled.\<close>

theorem one_audio_emulator: "\<not> (enabled ''BeebSID'' (configure_emulators cfg es) \<and> enabled ''M5000'' (configure_emulators cfg es))"
  by (auto simp: configure_emulators_def exclude_M5000_def enabled_def list_ex_iff split: if_splits)

text \<open>The state of the bus after the part of \<open>init_emulator\<close> that precedes the emulators.\<close>

definition bus_reset :: "nat \<Rightarrow> nat \<Rightarrow> nat \<Rightarrow> bus \<Rightarrow> bus" where
  "bus_reset addr_Status write_Status read_Status s =
     (let s = s\<lparr>poll_table := [], callback_table := (\<lambda>_. 0), Memory := replicate 512 0,
                Memory_VPU := replicate 256 0, nirq_mask := 0, nirq_output := False\<rparr>;
          s = Pi1MHz_SetnNMI False s;
          s = Pi1MHz_Register_Memory WRITE_FRED Pi1MHZ_FX_CONTROL addr_Status s;
          s = Pi1MHz_Register_Memory WRITE_FRED (Pi1MHZ_FX_CONTROL + 1) write_Status s in
      Pi1MHz_Register_Memory READ_FRED (Pi1MHZ_FX_CONTROL + 1) read_Status s)"

lemma bus_reset_wf: "mem_wf (bus_reset a b c s)" "irq_wf (bus_reset a b c s)" "poll_wf (bus_reset a b c s)"
  by (simp_all add: bus_reset_def Let_def Pi1MHz_SetnNMI_def Pi1MHz_Register_Memory_def mem_wf_def irq_wf_def
      poll_wf_def bus_read_def)

end
