(* ===== verification/FileParserProps.thy ===== *)
theory FileParserProps
  imports FileParser
begin

text \<open>
  What the configuration-file pass guarantees: every stored value keeps to the block that holds
  it, the output buffer is never overrun, the pass ends, a rewritten line reads back as the value
  that was stored, and a file is copied unchanged where no value is stored.
\<close>

section \<open>Stored values fit their blocks\<close>

text \<open>
  A hexadecimal value is stored in a block of at least the key's declared size, so the fixed
  offsets that the geometry code reads lie inside it; a string has room for its terminator; an
  integer is four bytes.  A write mask is never longer than declared.
\<close>

definition is_mask :: "parserkey \<Rightarrow> bool" where
  "is_mask k \<longleftrightarrow> take 4 (key k) = ''Writ''"

definition kv_ok :: "parserkey \<Rightarrow> keyvalue \<Rightarrow> bool" where
  "kv_ok k kv = (case kv_string kv of None \<Rightarrow> True | Some xs \<Rightarrow>
     (case key_type k of
        NUMSTRING \<Rightarrow> nat (key_max k) \<le> length xs \<and> kv_length kv \<le> length xs \<and>
          (is_mask k \<longrightarrow> kv_length kv \<le> nat (key_max k))
      | STRING \<Rightarrow> kv_length kv < length xs
      | INTEGER \<Rightarrow> length xs = 4))"

definition kvs_ok :: "parserkey list \<Rightarrow> keyvalue list \<Rightarrow> bool" where
  "kvs_ok keyv values \<longleftrightarrow> (\<forall>i < length keyv. i < length values \<longrightarrow> kv_ok (keyv ! i) (values ! i))"

lemma length_hex_bytes: "2 * n \<le> length rest \<Longrightarrow> length (hex_bytes n rest) = n"
  by (induction n rest rule: hex_bytes.induct) auto

lemma numstrlen_le: "parse_numstrlen rest = (len, nn) \<Longrightarrow> len \<le> length rest"
  by (auto simp: parse_numstrlen_def Let_def length_takeWhile_le)

lemma numstr_prefix:
  assumes "parse_numstrlen rest = (len, 1)"
  shows "2 \<le> len"
proof -
  let ?tok = "takeWhile (\<lambda>b. 32 < b \<and> b \<noteq> 35) rest"
  have len: "len = length ?tok" and f: "fold (\<lambda>(i, b) nonnumber. if is_hex b then nonnumber
       else if b = 120 \<or> b = 88 then (if nonnumber = 0 \<and> i = (1 :: nat) then 1 else -1)
       else (-1 :: int)) (enumerate 0 ?tok) 0 = 1"
    using assms by (auto simp: parse_numstrlen_def Let_def)
  from f show ?thesis unfolding len
    by (cases ?tok; cases "tl ?tok") (auto split: if_splits)
qed

lemma read_numstring_ok:
  assumes "read_numstring ops mx rest kv c = ((rest', kv'), c')"
  shows "kv' = kv \<or> (\<forall>xs. kv_string kv' = Some xs \<longrightarrow>
      mx \<le> length xs \<and> kv_length kv' \<le> length xs \<and> kv_length kv' \<le> mx)"
    "length rest' \<le> length rest"
proof -
  obtain len nn where ln: "parse_numstrlen rest = (len, nn)" by fastforce
  note le = numstrlen_le [OF ln] and pre = numstr_prefix
  define r1 l1 where "r1 = (if nn = 1 then drop 2 rest else rest)" and "l1 = (if nn = 1 then len - 2 else len)"
  have rl: "l1 \<le> length r1" "length r1 - l1 \<le> length rest"
    using le ln pre [of rest len] by (auto simp: r1_def l1_def)
  define r2 l2 where "r2 = (if odd l1 then 48 # r1 else r1)" and "l2 = (if odd l1 then l1 + 1 else l1)"
  have rl2: "l2 \<le> length r2" "length r2 - l2 \<le> length rest"
    using rl by (auto simp: r2_def l2_def)
  have n: "length (hex_bytes (min (l2 div 2) mx) r2) = min (l2 div 2) mx"
    by (rule length_hex_bytes) (use rl2 in auto)
  obtain ok c1 where m: "malloc ops mx c = (ok, c1)" by fastforce
  have "read_numstring ops mx rest kv c = (if nn < 0 then ((rest, kv), c)
      else if \<not> ok then ((drop l2 r2, kv\<lparr>kv_string := None\<rparr>), c1)
      else ((drop l2 r2, \<lparr>kv_length = min (l2 div 2) mx,
        kv_string = Some (hex_bytes (min (l2 div 2) mx) r2 @ replicate (mx - min (l2 div 2) mx) 0)\<rparr>), c1))"
    by (simp add: read_numstring_def ln Let_def m r1_def l1_def r2_def l2_def flip: numeral_2_eq_2)
  then show "kv' = kv \<or> (\<forall>xs. kv_string kv' = Some xs \<longrightarrow>
      mx \<le> length xs \<and> kv_length kv' \<le> length xs \<and> kv_length kv' \<le> mx)"
    "length rest' \<le> length rest"
    using assms n rl2 by (auto split: if_splits)
qed


lemma length_int_bytes [simp]: "length (int_bytes i) = 4"
  by (simp add: int_bytes_def Let_def)

lemma strlen_le: "parse_strlen rest \<le> length rest"
  by (simp add: parse_strlen_def length_takeWhile_le)

lemma read_value_shrinks:
  "read_value ops k rest kv c = ((rest', kv'), c') \<Longrightarrow> length rest' \<le> length rest"
  by (auto simp: read_value_def read_string_def read_integer_def Let_def
      dest: read_numstring_ok(2) split: parserkeyvaluetype.splits prod.splits if_splits)

lemma read_value_ok:
  assumes "read_value ops k rest kv c = ((rest', kv'), c')" "kv_ok k kv"
  shows "kv_ok k kv'"
proof (cases "key_type k")
  case NUMSTRING
  with assms read_numstring_ok(1) [of ops "nat (key_max k)" rest kv c rest' kv' c'] show ?thesis
    by (auto simp: read_value_def kv_ok_def split: option.splits)
next
  case STRING
  with assms strlen_le [of rest] show ?thesis
    by (auto simp: read_value_def kv_ok_def read_string_def Let_def split: prod.splits if_splits)
next
  case INTEGER
  with assms show ?thesis
    by (auto simp: read_value_def kv_ok_def read_integer_def Let_def split: prod.splits if_splits)
qed

lemma length_write_value_rest: "write_value cap k rest kv out = (rest', out') \<Longrightarrow> length rest' \<le> length rest"
  by (auto simp: write_value_def Let_def split: if_splits parserkeyvaluetype.splits)

lemma key_tail_shrinks: "key_tail cap rest out = (flag, rest', out') \<Longrightarrow> length rest' \<le> length rest"
  using length_dropWhile_le [of is_sep rest]
  by (cases "dropWhile is_sep rest") (auto simp: key_tail_def Let_def length_dropWhile_le split: if_splits)

lemma copy_line_shrinks: "copy_line cap rest out = (rest', out') \<Longrightarrow> length rest' \<le> length rest"
  by (auto simp: copy_line_def)

lemma copy_line_strict:
  "copy_line cap (b # rest) out = (rest', out') \<Longrightarrow> \<not> is_eol b \<Longrightarrow> length rest' \<le> length rest"
  by (auto simp: copy_line_def to_eol_def)

lemma parse_key_ok:
  assumes p: "parse_key ops outfile cap keyv i rest vs out c = ((rest', vs1, out'), c')"
    and i: "i < length keyv" and n: "n = length (key (keyv ! i))"
  shows "kvs_ok keyv vs \<Longrightarrow> kvs_ok keyv vs1" "length vs1 = length vs" "length rest' \<le> length rest - n"
proof -
  obtain flag r1 o1 where kt: "key_tail cap (drop n rest) (out_put cap (take n rest) out) = (flag, r1, o1)"
    by (metis prod_cases3)
  note sh = key_tail_shrinks [OF kt]
  obtain r2 o2 where wv: "write_value cap (keyv ! i) r1 (vs ! i) o1 = (r2, o2)" by fastforce
  obtain r3 o3 where cl: "copy_line cap r2 o2 = (r3, o3)" by fastforce
  obtain r4 kv c4 where rv: "read_value ops (keyv ! i) r1 (vs ! i) c = ((r4, kv), c4)" by (metis prod.exhaust)
  obtain r5 o5 where cl2: "copy_line cap r4 o1 = (r5, o5)" by fastforce
  have eq: "parse_key ops outfile cap keyv i rest vs out c =
    (if \<not> flag then ((r1, vs, o1), c) else if outfile then ((r3, vs, o3), c)
     else ((r5, vs[i := kv], o5), c4))"
    using kt wv cl rv cl2 by (simp add: parse_key_def Let_def n)
  show "length vs1 = length vs" using p eq by (auto split: if_splits)
  show "kvs_ok keyv vs1" if ok: "kvs_ok keyv vs"
  proof -
    have "i < length vs \<Longrightarrow> kv_ok (keyv ! i) kv"
      using read_value_ok [OF rv] ok i by (auto simp: kvs_ok_def)
    then show ?thesis using p ok unfolding eq
      by (cases "i < length vs") (auto simp: kvs_ok_def nth_list_update split: if_splits)
  qed
  show "length rest' \<le> length rest - n"
    using p sh length_write_value_rest [OF wv] copy_line_shrinks [OF cl] copy_line_shrinks [OF cl2]
      read_value_shrinks [OF rv] unfolding eq by (auto split: if_splits)
qed


lemma findindex_bound: "parse_findindex str keyv = Some i \<Longrightarrow> i < length keyv"
  by (auto simp: parse_findindex_def dest: find_index_SomeD)

lemma parse_loop_ok:
  assumes "kvs_ok keyv vs"
  shows "kvs_ok keyv (fst (fst (parse_loop fuel ops outfile cap keyv rest vs out c))) \<and>
    length (fst (fst (parse_loop fuel ops outfile cap keyv rest vs out c))) = length vs"
  using assms
proof (induction fuel arbitrary: rest vs out c)
  case (Suc fuel)
  let ?r = "dropWhile (\<lambda>b. b \<le> 32) rest" and ?o = "out_put cap (takeWhile (\<lambda>b. b \<le> 32) rest) out"
  show ?case
  proof (cases "if hd ?r = 35 then None else parse_findindex (bytes_string ?r) keyv")
    case None
    with Suc show ?thesis by (auto simp: Let_def split: prod.splits)
  next
    case (Some i)
    then have i: "i < length keyv" by (auto split: if_splits dest: findindex_bound)
    obtain r1 v1 o1 c1 where pk: "parse_key ops outfile cap keyv i ?r vs ?o c = ((r1, v1, o1), c1)"
      by (metis prod.exhaust)
    with parse_key_ok [OF pk i refl] Suc.IH [of v1 r1 o1 c1] Suc.prems Some show ?thesis
      by (simp add: Let_def)
  qed
qed simp

lemma parse_readfile_ok:
  assumes "kvs_ok keyv vs" "parse_readfile ops mounted name outfile keyv vs c = ((ok, vs1), c')"
  shows "kvs_ok keyv vs1 \<and> length vs1 = length vs"
proof -
  have "\<And>fuel ofl cap buf out c1. kvs_ok keyv (fst (fst (parse_loop fuel ops ofl cap keyv buf vs out c1))) \<and>
    length (fst (fst (parse_loop fuel ops ofl cap keyv buf vs out c1))) = length vs"
    by (rule parse_loop_ok [OF assms(1)])
  then show ?thesis using assms
    by (auto simp: parse_readfile_def Let_def split: prod.splits option.splits if_splits) (metis fst_conv)+
qed

text \<open>Enough rounds: the result no longer depends on their number.\<close>

lemma parse_loop_fuel:
  assumes "\<forall>k \<in> set keyv. key k \<noteq> []" "length rest \<le> fuel" "length rest \<le> fuel'"
  shows "parse_loop fuel ops outfile cap keyv rest vs out c = parse_loop fuel' ops outfile cap keyv rest vs out c"
  using assms(2,3)
proof (induction fuel arbitrary: fuel' rest vs out c)
  case 0
  then show ?case by (cases fuel') (auto simp: out_put_def)
next
  case (Suc fuel)
  let ?r = "dropWhile (\<lambda>b. b \<le> 32) rest" and ?o = "out_put cap (takeWhile (\<lambda>b. b \<le> 32) rest) out"
  show ?case
  proof (cases ?r)
    case Nil
    then show ?thesis using Suc.prems by (cases fuel') (auto simp: Let_def out_put_def)
  next
    case (Cons b bs)
    then have len: "length bs < length rest"
      using length_dropWhile_le [of "\<lambda>b. b \<le> 32" rest] by simp
    with Suc.prems obtain f where f: "fuel' = Suc f" by (cases fuel') auto
    have b: "\<not> is_eol b"
      using hd_dropWhile [of "\<lambda>b. b \<le> 32" rest] Cons by (auto simp: is_eol_def)
    show ?thesis
    proof (cases "if b = 35 then None else parse_findindex (bytes_string ?r) keyv")
      case None
      obtain r1 o1 where cl: "copy_line cap (b # bs) ?o = (r1, o1)" by fastforce
      have "length r1 \<le> length bs" by (rule copy_line_strict [OF cl b])
      with Suc.IH [of r1 f vs o1 c] Suc.prems len f None Cons cl show ?thesis
        by (cases "b = 35") (simp_all add: Let_def)
    next
      case (Some i)
      then have i: "i < length keyv" by (auto split: if_splits dest: findindex_bound)
      then have k: "0 < length (key (keyv ! i))" using assms(1) by auto
      obtain r1 v1 o1 c1 where pk: "parse_key ops outfile cap keyv i ?r vs ?o c = ((r1, v1, o1), c1)"
        by (metis prod.exhaust)
      have "length r1 \<le> length bs"
        using parse_key_ok(3) [OF pk i refl] k Cons by (cases "key (keyv ! i)") auto
      with Suc.IH [of r1 f v1 o1 c1] Suc.prems len f Some Cons pk show ?thesis
        by (cases "b = 35") (simp_all add: Let_def)
    qed
  qed
qed


section \<open>Nothing is written beyond the output buffer\<close>

lemma out_put_bound: "length out \<le> cap \<Longrightarrow> length (out_put cap bs out) \<le> cap"
  by (auto simp: out_put_def)

lemma out_put_room: "length out + length bs \<le> cap \<Longrightarrow> out_put cap bs out = out @ bs"
  by (simp add: out_put_def)

lemma write_value_bound:
  "write_value cap k rest kv out = (rest', out') \<Longrightarrow> length out \<le> cap \<Longrightarrow> length out' \<le> cap"
  by (auto simp: write_value_def Let_def out_put_bound split: if_splits parserkeyvaluetype.splits)

lemma key_tail_bound:
  "key_tail cap rest out = (flag, rest', out') \<Longrightarrow> length out \<le> cap \<Longrightarrow> length out' \<le> cap"
  by (auto simp: key_tail_def Let_def out_put_bound split: list.splits if_splits)

lemma copy_line_bound: "copy_line cap rest out = (rest', out') \<Longrightarrow> length out \<le> cap \<Longrightarrow> length out' \<le> cap"
  by (auto simp: copy_line_def out_put_bound)

lemma parse_key_bound:
  assumes p: "parse_key ops outfile cap keyv i rest vs out c = ((rest', vs1, out'), c')" and o: "length out \<le> cap"
  shows "length out' \<le> cap"
proof -
  obtain flag r1 o1 where kt: "key_tail cap (drop (length (key (keyv ! i))) rest)
      (out_put cap (take (length (key (keyv ! i))) rest) out) = (flag, r1, o1)"
    by (metis prod_cases3)
  have "length o1 \<le> cap" by (rule key_tail_bound [OF kt out_put_bound [OF o]])
  with p kt show ?thesis
    by (auto simp: parse_key_def Let_def split: prod.splits if_splits
        dest!: write_value_bound copy_line_bound)
qed

lemma parse_loop_bound:
  "length out \<le> cap \<Longrightarrow> length (snd (fst (parse_loop fuel ops outfile cap keyv rest vs out c))) \<le> cap"
proof (induction fuel arbitrary: rest vs out c)
  case (Suc fuel)
  let ?r = "dropWhile (\<lambda>b. b \<le> 32) rest" and ?o = "out_put cap (takeWhile (\<lambda>b. b \<le> 32) rest) out"
  have o: "length ?o \<le> cap" by (rule out_put_bound [OF Suc.prems])
  show ?case
  proof (cases "if hd ?r = 35 then None else parse_findindex (bytes_string ?r) keyv")
    case None
    obtain r1 o1 where cl: "copy_line cap ?r ?o = (r1, o1)" by fastforce
    with Suc.IH [OF copy_line_bound [OF cl o]] None o show ?thesis by (simp add: Let_def)
  next
    case (Some i)
    obtain r1 v1 o1 c1 where pk: "parse_key ops outfile cap keyv i ?r vs ?o c = ((r1, v1, o1), c1)"
      by (metis prod.exhaust)
    with Suc.IH [OF parse_key_bound [OF pk o]] Some o show ?thesis by (simp add: Let_def)
  qed
qed simp

section \<open>Hexadecimal values\<close>

lemma nibble_cases:
  assumes "n < (16 :: u8)"
  shows "n \<in> {0, 1, 2, 3, 4, 5, 6, 7, 8, 9, 10, 11, 12, 13, 14, 15}"
proof -
  have "unat n < 16" using assms by (simp add: word_less_nat_alt)
  then have "unat n \<in> set [0..<16]" by simp
  also have "[0..<16] = [0, 1, 2, 3, 4, 5, 6, 7, 8, 9, 10, 11, 12, 13, 14, 15 :: nat]"
    by code_simp
  finally have "(of_nat (unat n) :: u8) \<in> of_nat ` set [0, 1, 2, 3, 4, 5, 6, 7, 8, 9, 10, 11, 12, 13, 14, 15 :: nat]"
    by (rule imageI)
  then show ?thesis by simp
qed

lemma nibble_hex_digit:
  assumes "n < 16"
  shows "nibble (hex_digit n) = n" "is_hex (hex_digit n)"
  using nibble_cases [OF assms] by (elim insertE emptyE; simp add: hex_digit_def nibble_def is_hex_def)+

lemma hi_nibble: "drop_bit 4 b AND 0x0F < (16 :: u8)"
  by (rule order_le_less_trans [OF word_and_le1]) simp

lemma lo_nibble: "b AND 0x0F < (16 :: u8)"
  by (rule order_le_less_trans [OF word_and_le1]) simp

lemma nibbles_join: "push_bit 4 (drop_bit 4 b AND 0x0F) OR (b AND 0x0F) = (b :: u8)"
proof (rule bit_word_eqI)
  fix n assume "n < LENGTH(8)"
  then have "n \<in> set [0, 1, 2, 3, 4, 5, 6, 7]" by (simp add: upt_rec_numeral flip: set_upt) arith
  then show "bit (push_bit 4 (drop_bit 4 b AND 0x0F) OR (b AND 0x0F)) n = bit b n"
    by (auto simp: bit_simps)
qed

lemma length_hex_text: "length (hex_text bs) = 2 * length bs"
  by (induction bs) (auto simp: hex_text_def)

lemma hex_bytes_text: "hex_bytes (length bs) (hex_text bs @ r) = bs"
  by (induction bs) (auto simp: hex_text_def nibble_hex_digit hi_nibble lo_nibble nibbles_join
      simp del: push_bit_and)

lemma hex_text_is_hex: "b \<in> set (hex_text bs) \<Longrightarrow> is_hex b"
  by (auto simp: hex_text_def nibble_hex_digit hi_nibble lo_nibble)


definition token_end :: "u8 list \<Rightarrow> bool" where
  "token_end r \<longleftrightarrow> r = [] \<or> hd r \<le> 32 \<or> hd r = 35"

lemma is_hex_token: "is_hex b \<Longrightarrow> 32 < b \<and> b \<noteq> 35"
  by (auto simp: is_hex_def word_less_nat_alt word_le_nat_alt)

lemma takeWhile_token:
  assumes "\<forall>b \<in> set xs. 32 < b \<and> b \<noteq> 35" "token_end r"
  shows "takeWhile (\<lambda>b. 32 < b \<and> b \<noteq> 35) (xs @ r) = xs"
  using assms by (cases r) (auto simp: token_end_def)

lemma fold_scan_hex:
  "\<forall>b \<in> set xs. is_hex b \<Longrightarrow>
   fold (\<lambda>(i, b) nn. if is_hex b then nn else if b = 120 \<or> b = 88 then (if nn = 0 \<and> i = (1 :: nat) then 1 else -1)
     else (-1 :: int)) (enumerate k xs) z = z"
  by (induction xs arbitrary: k) auto

lemma numstrlen_hex_text:
  assumes "token_end r"
  shows "parse_numstrlen (hex_text bs @ r) = (2 * length bs, 0)"
proof -
  have "takeWhile (\<lambda>b. 32 < b \<and> b \<noteq> 35) (hex_text bs @ r) = hex_text bs"
    by (rule takeWhile_token) (use assms in \<open>auto dest!: hex_text_is_hex is_hex_token\<close>)
  with fold_scan_hex [of "hex_text bs" 0 0] show ?thesis
    by (auto simp: parse_numstrlen_def Let_def length_hex_text dest: hex_text_is_hex)
qed

lemma read_back_numstring:
  assumes "token_end r" "length bs \<le> mx" "fst (malloc ops mx c)"
  shows "read_numstring ops mx (hex_text bs @ r) kv c =
    ((r, \<lparr>kv_length = length bs, kv_string = Some (bs @ replicate (mx - length bs) 0)\<rparr>), snd (malloc ops mx c))"
proof -
  obtain c' where m: "malloc ops mx c = (True, c')" using assms(3) by (metis prod.collapse)
  show ?thesis
    using assms(1,2) by (simp add: read_numstring_def numstrlen_hex_text Let_def m hex_bytes_text length_hex_text min_def)
qed

text \<open>
  A configuration line: the key, separators, the value, and a tail.
\<close>

definition value_line :: "parserkey \<Rightarrow> u8 list \<Rightarrow> u8 list \<Rightarrow> u8 list \<Rightarrow> u8 list \<Rightarrow> bool" where
  "value_line k name seps tok tail \<longleftrightarrow> length name = length (key k) \<and> (\<forall>b \<in> set seps. is_sep b) \<and>
     tok \<noteq> [] \<and> hd tok \<noteq> 61 \<and> (\<forall>b \<in> set tok. 32 < b \<and> b \<noteq> 35) \<and> token_end tail"

lemma key_tail_value:
  assumes "\<forall>b \<in> set seps. is_sep b" "tok \<noteq> []" "hd tok \<noteq> 61" "32 < hd tok" "hd tok \<noteq> 35"
    "length out + length seps \<le> cap"
  shows "key_tail cap (seps @ tok @ tail) out = (True, tok @ tail, out @ seps)"
proof -
  obtain b bs where tok: "tok = b # bs" using assms(2) by (cases tok) auto
  have "\<not> is_sep b" "b \<noteq> 35" "\<not> is_eol b"
    using assms(3-5) tok by (auto simp: is_sep_def is_eol_def)
  moreover have "takeWhile is_sep (seps @ b # bs @ tail) = seps" "dropWhile is_sep (seps @ b # bs @ tail) = b # bs @ tail"
    using assms(1) calculation by (auto simp: takeWhile_append dropWhile_append)
  ultimately show ?thesis
    using assms(6) tok by (simp add: key_tail_def Let_def out_put_room)
qed

lemma rewrite_line:
  assumes l: "value_line k name seps tok tail" and k: "keyv ! i = k" "key_type k = NUMSTRING"
    and v: "kv_string (vs ! i) = Some xs" "kv_length (vs ! i) = length bs" "0 < length bs" "take (length bs) xs = bs"
    and room: "length out + length name + length seps + 2 * length bs + length tail \<le> cap"
  shows "parse_key ops True cap keyv i (name @ seps @ tok @ tail) vs out c =
    ((drop (length (to_eol tail)) tail, vs, out @ name @ seps @ hex_text bs @ to_eol tail), c)"
proof -
  have n: "length (key k) = length name" using l by (simp add: value_line_def)
  have tok: "parse_numstrlen (tok @ tail) = (length tok, snd (parse_numstrlen (tok @ tail)))"
    using l takeWhile_token [of tok tail] by (simp add: value_line_def parse_numstrlen_def Let_def)
  have te: "length (to_eol tail) \<le> length tail"
    by (simp add: to_eol_def length_takeWhile_le)
  have kt: "key_tail cap (seps @ tok @ tail) (out @ name) = (True, tok @ tail, (out @ name) @ seps)"
    using l room by (intro key_tail_value) (auto simp: value_line_def)
  have wv: "write_value cap k (tok @ tail) (vs ! i) ((out @ name) @ seps) =
      (tail, out @ name @ seps @ hex_text bs)"
    using v k(2) room by (subst write_value_def, subst tok) (simp add: kv_chars_def out_put_room length_hex_text)
  show ?thesis
    using kt wv te room by (simp add: parse_key_def Let_def k(1) n out_put_room copy_line_def length_hex_text)
qed

lemma read_line:
  assumes l: "value_line k name seps (hex_text bs) tail" and k: "keyv ! i = k" "key_type k = NUMSTRING"
    and b: "length bs \<le> nat (key_max k)" and m: "fst (malloc ops (nat (key_max k)) c)"
    and room: "length out + length name + length seps \<le> cap"
  shows "fst (snd (fst (parse_key ops False cap keyv i (name @ seps @ hex_text bs @ tail) vs out c))) =
    vs[i := \<lparr>kv_length = length bs, kv_string = Some (bs @ replicate (nat (key_max k) - length bs) 0)\<rparr>]"
proof -
  have n: "length (key k) = length name" and te: "token_end tail" using l by (simp_all add: value_line_def)
  have kt: "key_tail cap (seps @ hex_text bs @ tail) (out @ name) = (True, hex_text bs @ tail, (out @ name) @ seps)"
    using l room by (intro key_tail_value) (auto simp: value_line_def)
  show ?thesis
    using kt room read_back_numstring [OF te b m, of "vs ! i"]
    by (simp add: parse_key_def Let_def k n out_put_room read_value_def copy_line_def)
qed


lemma hex_text_value_line:
  assumes "value_line k name seps tok tail" "0 < length bs"
  shows "value_line k name seps (hex_text bs) tail"
proof -
  have ne: "hex_text bs \<noteq> []" using assms(2) length_hex_text [of bs] by auto
  then have "is_hex (hd (hex_text bs))" using hex_text_is_hex [OF hd_in_set] by blast
  then have "hd (hex_text bs) \<noteq> 61" by (auto simp: is_hex_def)
  with ne assms(1) show ?thesis
    by (auto simp: value_line_def dest!: hex_text_is_hex is_hex_token)
qed

text \<open>C35. Rewriting a hexadecimal line of a descriptor file keeps key, separators and the tail of
  the line and puts the new bytes in place of the old value; reading the rewritten line gives
  back exactly those bytes.\<close>

theorem config_rewrite_reads_back:
  assumes "value_line (keyv ! i) name seps tok tail" "key_type (keyv ! i) = NUMSTRING"
    and "kv_string (vs ! i) = Some xs" "kv_length (vs ! i) = length bs" "0 < length bs" "take (length bs) xs = bs"
    and "length bs \<le> nat (key_max (keyv ! i))" "fst (malloc ops (nat (key_max (keyv ! i))) c)"
    and "length name + length seps + 2 * length bs + length tail \<le> cap"
  shows "parse_key ops True cap keyv i (name @ seps @ tok @ tail) vs [] c =
      ((drop (length (to_eol tail)) tail, vs, name @ seps @ hex_text bs @ to_eol tail), c) \<and>
    fst (snd (fst (parse_key ops False cap keyv i (name @ seps @ hex_text bs @ tail) vs' [] c))) =
      vs'[i := \<lparr>kv_length = length bs,
               kv_string = Some (bs @ replicate (nat (key_max (keyv ! i)) - length bs) 0)\<rparr>]"
  using rewrite_line [OF assms(1) refl assms(2-6), where out = "[]"] assms(9)
    read_line [OF hex_text_value_line [OF assms(1,5)] refl assms(2,7,8), where out = "[]" and cap = cap]
  by simp

section \<open>Copying a file unchanged\<close>

lemma take_drop_to_eol: "to_eol r @ drop (length (to_eol r)) r = r"
  by (simp add: to_eol_def flip: dropWhile_eq_drop)

lemma copy_line_copies:
  "copy_line cap rest out = (rest', out') \<Longrightarrow> length out + length rest \<le> cap \<Longrightarrow> out' @ rest' = out @ rest"
  using length_takeWhile_le [of "\<lambda>b. \<not> is_eol b" rest] take_drop_to_eol [of rest]
  by (auto simp: copy_line_def out_put_room to_eol_def)

lemma key_tail_copies:
  assumes "key_tail cap rest out = (flag, rest', out')" "length out + length rest \<le> cap"
  shows "out' @ rest' = out @ rest"
proof -
  let ?s = "takeWhile is_sep rest" and ?d = "dropWhile is_sep rest"
  have sd: "?s @ ?d = rest" by simp
  then have l: "length out + length ?s + length ?d \<le> cap"
    using assms(2) by (metis add.assoc length_append)
  then have o: "out_put cap ?s out = out @ ?s" by (simp add: out_put_room)
  show ?thesis
  proof (cases ?d)
    case Nil
    with assms(1) have "out' = out_put cap ?s out" "rest' = []" by (simp_all add: key_tail_def Let_def)
    with Nil sd o show ?thesis by (metis append.right_neutral)
  next
    case (Cons b bs)
    have "length (to_eol ?d) \<le> length ?d" by (simp add: to_eol_def length_takeWhile_le)
    then show ?thesis using assms(1) o sd Cons l take_drop_to_eol [of ?d]
      by (auto simp: key_tail_def Let_def out_put_room split: if_splits)
  qed
qed

lemma parse_key_copies:
  assumes p: "parse_key ops True cap keyv i rest vs out c = ((rest', vs', out'), c')"
    and z: "kv_length (vs ! i) = 0" and room: "length out + length rest \<le> cap"
  shows "out' @ rest' = out @ rest \<and> vs' = vs \<and> c' = c"
proof -
  let ?n = "length (key (keyv ! i))"
  obtain flag r1 o1 where kt: "key_tail cap (drop ?n rest) (out_put cap (take ?n rest) out) = (flag, r1, o1)"
    by (metis prod_cases3)
  have o: "out_put cap (take ?n rest) out = out @ take ?n rest"
    by (rule out_put_room) (use room in auto)
  have 1: "o1 @ r1 = out @ rest"
    using key_tail_copies [OF kt] room unfolding o by simp
  then have "length o1 + length r1 \<le> cap" using room by (metis length_append)
  then show ?thesis
    using p kt z 1 by (auto simp: parse_key_def Let_def write_value_def dest: copy_line_copies split: if_splits prod.splits)
qed


lemma parse_loop_copies:
  assumes "\<forall>k \<in> set keyv. key k \<noteq> []" "\<forall>i < length keyv. kv_length (vs ! i) = 0"
    and "length rest \<le> fuel" "length out + length rest \<le> cap"
  shows "parse_loop fuel ops True cap keyv rest vs out c = ((vs, out @ rest), c)"
  using assms(3,4)
proof (induction fuel arbitrary: rest out)
  case (Suc fuel)
  let ?w = "takeWhile (\<lambda>b. b \<le> 32) rest" and ?r = "dropWhile (\<lambda>b. b \<le> 32) rest"
  have wr: "?w @ ?r = rest" by simp
  then have l: "length out + length ?w + length ?r \<le> cap"
    using Suc.prems(2) by (metis add.assoc length_append)
  have o: "out_put cap ?w out = out @ ?w" using l by (simp add: out_put_room)
  show ?case
  proof (cases ?r)
    case Nil
    then have "parse_loop (Suc fuel) ops True cap keyv rest vs out c = ((vs, out_put cap ?w out), c)"
      by (simp add: Let_def)
    with Nil wr o show ?thesis by (metis append.right_neutral)
  next
    case (Cons b bs)
    then have len: "length bs < length rest"
      using length_dropWhile_le [of "\<lambda>b. b \<le> 32" rest] by simp
    have b: "\<not> is_eol b"
      using hd_dropWhile [of "\<lambda>b. b \<le> 32" rest] Cons by (auto simp: is_eol_def)
    show ?thesis
    proof (cases "if b = 35 then None else parse_findindex (bytes_string ?r) keyv")
      case None
      obtain r1 o1 where cl: "copy_line cap (b # bs) (out @ ?w) = (r1, o1)" by fastforce
      have s: "o1 @ r1 = out @ rest"
        using copy_line_copies [OF cl] l Cons wr by (metis append.assoc length_append)
      then have "length o1 + length r1 \<le> cap" using Suc.prems(2) by (metis length_append)
      with Suc.IH [of r1 o1] Suc.prems len None Cons cl o s copy_line_strict [OF cl b] show ?thesis
        by (cases "b = 35") (simp_all add: Let_def)
    next
      case (Some i)
      then have i: "i < length keyv" by (auto split: if_splits dest: findindex_bound)
      then have k: "key (keyv ! i) \<noteq> []" using assms(1) by auto
      obtain r1 v1 o1 c1 where pk: "parse_key ops True cap keyv i (b # bs) vs (out @ ?w) c = ((r1, v1, o1), c1)"
        by (metis prod.exhaust)
      have s: "o1 @ r1 = out @ rest" "v1 = vs" "c1 = c"
        using parse_key_copies [OF pk] assms(2) i l Cons wr by (metis append.assoc length_append)+
      then have "length o1 + length r1 \<le> cap" using Suc.prems(2) by (metis length_append)
      moreover have "length r1 \<le> length bs"
        using parse_key_ok(3) [OF pk i refl] k by (cases "key (keyv ! i)") auto
      ultimately show ?thesis using Suc.IH [of r1 o1] Suc.prems len Some Cons pk o s
        by (cases "b = 35") (simp_all add: Let_def)
    qed
  qed
qed (simp add: out_put_def)

end
