(* ===== verification/FsInvariant.thy ===== *)
theory FsInvariant
  imports Filesystem FileParserProps
begin

text \<open>
  The invariant of the file system component: every array keeps its size, the sector buffer is
  never overrun, and every stored configuration value keeps to its block, so that all the fixed
  offsets of the geometry and mode-page code lie inside what was allocated.
\<close>

section \<open>Which key a mode page selects\<close>

lemma digit_chars:
  assumes "k < (10 :: nat)"
  shows "char_of (k + 48) \<in> set ''0123456789''"
proof -
  have "k \<in> {0, 1, 2, 3, 4, 5, 6, 7, 8, 9}" using assms by simp arith
  then show ?thesis by (elim insertE emptyE; simp add: char_of_eq_iff)
qed

lemma page_digits_cases:
  "(\<exists>x \<in> set ''0123456789''. page_digits p = [x]) \<or>
   (\<exists>x \<in> set ''0123456789''. \<exists>y \<in> set ''0123456789''. page_digits p = [x, y])"
proof -
  have "p AND 0x3F \<le> (0x3F :: u8)" by (rule word_and_le1)
  then have "unat (p AND 0x3F) div 10 < 10" "unat (p AND 0x3F) mod 10 < 10" by (auto simp: word_le_nat_alt)
  then show ?thesis
    using digit_chars [of "unat (p AND 0x3F) div 10"] digit_chars [of "unat (p AND 0x3F) mod 10"]
      digit_chars [of "unat (p AND 0x3F)"]
    unfolding page_digits_def Let_def by (cases "10 \<le> unat (p AND 0x3F)") (auto simp del: char_of_def)
qed

lemma length_scsiattributes [simp]: "length scsiattributes = 18"
  by (simp add: scsiattributes_def)

lemma below_18: "i < 18 \<Longrightarrow> i \<in> {0, 1, 2, 3, 4, 5, 6, 7, 8, 9, 10, 11, 12, 13, 14, 15, 16, 17 :: nat}"
  by simp presburger

lemma writ_index:
  assumes "filesystemWritetoIndex page = Some w"
  shows "w = WRITPAGE3 \<and> page_digits page = ''3''"
proof -
  have w: "w < 18" "localstrcasecmp (key (scsiattributes ! w)) (''WritPage'' @ page_digits page)"
    using assms find_index_SomeD [of _ scsiattributes w] by (auto simp: filesystemWritetoIndex_def parse_findindex_def)
  have "w = WRITPAGE3 \<and> localstrcasecmp ''3'' (page_digits page)"
    using below_18 [OF w(1)] w(2)
    by (elim insertE emptyE; simp add: scsiattributes_def pkey_def tolower_def Let_def key_index_defs)
  then show ?thesis
    using page_digits_cases [of page] by (auto simp: tolower_def Let_def)
qed

lemma mode_index:
  assumes "filesystemPagetoIndex page = Some i"
  shows "i < 18 \<and> key_type (scsiattributes ! i) = NUMSTRING \<and> \<not> is_mask (scsiattributes ! i)"
proof -
  have w: "i < 18" "localstrcasecmp (key (scsiattributes ! i)) (''ModePage'' @ page_digits page)"
    using assms find_index_SomeD [of _ scsiattributes i] by (auto simp: filesystemPagetoIndex_def parse_findindex_def)
  show ?thesis
    using below_18 [OF w(1)] w(2)
    by (elim insertE emptyE; simp add: scsiattributes_def pkey_def tolower_def Let_def is_mask_def)
qed

lemma mode_index_3: "page_digits page = ''3'' \<Longrightarrow> filesystemPagetoIndex page = Some MODEPAGE3"
  by (simp add: filesystemPagetoIndex_def parse_findindex_def scsiattributes_def pkey_def tolower_def Let_def key_index_defs)

section \<open>The invariant\<close>

definition fs_wf :: "('f, 'z) filesystem_scheme \<Rightarrow> bool" where
  "fs_wf s \<longleftrightarrow> fs_shape s \<and> (\<forall>lun < MAX_LUNS. kvs_ok scsiattributes (keyvalues s ! lun))"

named_theorems fs_inv "operations that keep the file system invariant"

lemma fs_wf_card [simp]: "fs_wf (s\<lparr>card := c\<rparr>) = fs_wf s"
  by (simp add: fs_wf_def fs_shape_def)

lemma fs_wf_scalars [simp]:
  "fs_wf (s\<lparr>fsMountState := a\<rparr>) = fs_wf s" "fs_wf (s\<lparr>lunDirectory := b\<rparr>) = fs_wf s"
  "fs_wf (s\<lparr>lunDirectoryVFS := b\<rparr>) = fs_wf s" "fs_wf (s\<lparr>fatDirectory := d\<rparr>) = fs_wf s"
  "fs_wf (s\<lparr>sectorsInBuffer := b\<rparr>) = fs_wf s" "fs_wf (s\<lparr>currentBufferSector := b\<rparr>) = fs_wf s"
  "fs_wf (s\<lparr>sectorsRemaining := w\<rparr>) = fs_wf s" "fs_wf (s\<lparr>hostLockMask := m\<rparr>) = fs_wf s"
  "fs_wf (s\<lparr>hostRevokeMask := m\<rparr>) = fs_wf s"
  by (simp_all add: fs_wf_def fs_shape_def)

lemma fs_wf_geo_set [simp]: "fs_wf (geo_set lun g s) = fs_wf s"
  by (simp add: fs_wf_def fs_shape_def geo_set_def)

lemma fs_wf_lun_status_set [simp]: "fs_wf (lun_status_set lun b s) = fs_wf s"
  by (simp add: fs_wf_def fs_shape_def lun_status_set_def)

lemma fs_wf_buffer:
  "fs_wf s \<Longrightarrow> length b = length (sectorBuffer s) \<Longrightarrow> fs_wf (s\<lparr>sectorBuffer := b\<rparr>)"
  by (simp add: fs_wf_def fs_shape_def)

lemma fs_wf_keys:
  assumes "fs_wf s" "length kvs = NUM_KEYS" "kvs_ok scsiattributes kvs"
  shows "fs_wf (s\<lparr>keyvalues := (keyvalues s)[lun := kvs]\<rparr>)"
  using assms set_update_subset_insert [of "keyvalues s" lun kvs]
  by (cases "lun < length (keyvalues s)") (auto simp: fs_wf_def fs_shape_def nth_list_update)

lemma fs_wf_kvs: "fs_wf s \<Longrightarrow> lun < MAX_LUNS \<Longrightarrow> length (keyvalues s ! lun) = NUM_KEYS \<and> kvs_ok scsiattributes (keyvalues s ! lun)"
  by (auto simp: fs_wf_def fs_shape_def)

lemma fs_wf_kv: "fs_wf s \<Longrightarrow> lun < MAX_LUNS \<Longrightarrow> i < 18 \<Longrightarrow> kv_ok (scsiattributes ! i) (kv_get lun i s)"
  using fs_wf_kvs [of s lun] by (auto simp: kvs_ok_def NUM_KEYS_def kv_get_def)

lemma fs_wf_kv_set:
  assumes "fs_wf s" "lun < MAX_LUNS" "i < 18" "kv_ok (scsiattributes ! i) v"
  shows "fs_wf (kv_set lun i v s)"
  unfolding kv_set_def using fs_wf_kvs [OF assms(1,2)] assms
  by (intro fs_wf_keys) (auto simp: kvs_ok_def nth_list_update NUM_KEYS_def)

lemma kv_get_set: "fs_wf s \<Longrightarrow> lun < MAX_LUNS \<Longrightarrow> i < 18 \<Longrightarrow> kv_get lun i (kv_set lun i v s) = v"
  using fs_wf_kvs [of s lun] by (simp add: kv_get_def kv_set_def NUM_KEYS_def fs_wf_def fs_shape_def)

definition num_key :: "nat \<Rightarrow> nat \<Rightarrow> bool" where
  "num_key i m \<longleftrightarrow> i < 18 \<and> key_type (scsiattributes ! i) = NUMSTRING \<and> \<not> is_mask (scsiattributes ! i) \<and>
     nat (key_max (scsiattributes ! i)) = m"

lemma num_keys: "num_key MODEPARAMHEADER 4" "num_key LBADESCRIPTOR 8" "num_key MODEPAGE0 10"
  "num_key MODEPAGE3 23" "num_key MODEPAGE4 6"
  by (simp_all add: num_key_def key_index_defs scsiattributes_def pkey_def is_mask_def)

text \<open>A numeric value that is present has all its declared bytes.\<close>

lemma num_key_block:
  assumes "fs_wf s" "lun < MAX_LUNS" "num_key i m" "kv_string (kv_get lun i s) = Some xs"
  shows "m \<le> length xs \<and> kv_length (kv_get lun i s) \<le> length xs"
  using fs_wf_kv [OF assms(1,2), of i] assms(3,4) by (auto simp: num_key_def kv_ok_def)

lemma kv_ok_num: "num_key i m \<Longrightarrow> m \<le> length xs \<Longrightarrow> n \<le> length xs \<Longrightarrow>
   kv_ok (scsiattributes ! i) \<lparr>kv_length = n, kv_string = Some xs\<rparr>"
  by (auto simp: num_key_def kv_ok_def)

lemma kv_alloc_wf:
  assumes "fs_wf s" "lun < MAX_LUNS" "num_key i n" "kv_alloc ops lun i n s = (ok, s')"
  shows "fs_wf s'" "ok \<Longrightarrow> kv_string (kv_get lun i s') \<noteq> None"
proof -
  have i: "i < 18" using assms(3) by (simp add: num_key_def)
  show "fs_wf s'" using assms i
    by (auto simp: kv_alloc_def Let_def intro!: fs_wf_kv_set kv_ok_num split: option.splits prod.splits if_splits)
  show "ok \<Longrightarrow> kv_string (kv_get lun i s') \<noteq> None" using assms i
    by (auto simp: kv_alloc_def Let_def kv_get_set split: option.splits prod.splits if_splits)
qed

lemma kv_store_wf:
  assumes "fs_wf s" "lun < MAX_LUNS" "num_key i m" "kv_string (kv_get lun i s) \<noteq> None"
    "k + length bs \<le> m" "n \<le> m"
  shows "fs_wf (kv_store lun i k bs n s)"
proof -
  obtain xs where xs: "kv_string (kv_get lun i s) = Some xs" using assms(4) by auto
  then have "m \<le> length xs \<and> kv_length (kv_get lun i s) \<le> length xs"
    by (rule num_key_block [OF assms(1-3)])
  with xs show ?thesis
    unfolding kv_store_def using assms
    by (intro fs_wf_kv_set kv_ok_num [of i m]) (auto simp: kv_bytes_def num_key_def)
qed

lemma LunToconfigGeometry_wf [fs_inv]:
  assumes "fs_wf s" "lun < MAX_LUNS"
  shows "fs_wf (filesystemLunToconfigGeometry ops lun s)"
proof -
  obtain ok1 s1 where a1: "kv_alloc ops lun MODEPAGE0 10 s = (ok1, s1)" by fastforce
  note k1 = kv_alloc_wf [OF assms num_keys(3) a1]
  let ?s2 = "kv_store lun MODEPAGE0 0 [1, cyl_hi (geo_get lun s), cyl_lo (geo_get lun s), Heads (geo_get lun s),
    0x00, 0x80, 0x00, 0x80, 0x00, 0x01] 10 s1"
  obtain ok2 s3 where a2: "kv_alloc ops lun MODEPAGE4 6 ?s2 = (ok2, s3)" by fastforce
  show ?thesis
  proof (cases ok1)
    case True
    with k1 have "fs_wf ?s2" by (intro kv_store_wf [OF k1(1) assms(2) num_keys(3)]) auto
    note k2 = kv_alloc_wf [OF this assms(2) num_keys(5) a2]
    show ?thesis
    proof (cases ok2)
      case True
      with k2 have "fs_wf (kv_store lun MODEPAGE4 0 [4, 4, 0, cyl_hi (geo_get lun s), cyl_lo (geo_get lun s), Heads (geo_get lun s)] 6 s3)"
        by (intro kv_store_wf [OF k2(1) assms(2) num_keys(5)]) auto
      with \<open>ok1\<close> True a1 a2 show ?thesis by (simp add: filesystemLunToconfigGeometry_def Let_def)
    next
      case False
      with \<open>ok1\<close> a1 a2 k2(1) show ?thesis by (simp add: filesystemLunToconfigGeometry_def Let_def)
    qed
  next
    case False
    with a1 k1(1) show ?thesis by (simp add: filesystemLunToconfigGeometry_def Let_def)
  qed
qed


lemma dattoconfigGeometry_wf [fs_inv]:
  "fs_wf s \<Longrightarrow> lun < MAX_LUNS \<Longrightarrow> fs_wf (filesytemdattoconfigGeometry ops lun s)"
  by (simp add: filesytemdattoconfigGeometry_def Let_def LunToconfigGeometry_wf)

lemma kv_get_geo [simp]: "kv_get lun i (geo_set l g s) = kv_get lun i s"
  by (simp add: kv_get_def geo_set_def)

lemma CopyPage0toPage4_wf [fs_inv]:
  "fs_wf s \<Longrightarrow> lun < MAX_LUNS \<Longrightarrow> fs_wf (filesystemCopyPage0toPage4 lun s)"
  by (auto simp: filesystemCopyPage0toPage4_def Let_def intro!: kv_store_wf [OF _ _ num_keys(5)]
      split: option.splits)

lemma CopyPage4toPage0_wf [fs_inv]:
  "fs_wf s \<Longrightarrow> lun < MAX_LUNS \<Longrightarrow> fs_wf (filesystemCopyPage4toPage0 lun s)"
  by (auto simp: filesystemCopyPage4toPage0_def Let_def intro!: kv_store_wf [OF _ _ num_keys(3)]
      split: option.splits)

lemma config_header_wf:
  assumes "fs_wf s" "lun < MAX_LUNS"
  shows "fs_wf (snd (config_header ops lun s))"
proof -
  obtain ok1 s1 where a1: "kv_alloc ops lun MODEPARAMHEADER 4 s = (ok1, s1)" by fastforce
  note k1 = kv_alloc_wf [OF assms num_keys(1) a1]
  then show ?thesis using assms a1
    by (auto simp: config_header_def Let_def intro!: kv_store_wf [OF _ _ num_keys(1)] split: option.splits)
qed

lemma config_block_size_wf:
  assumes "fs_wf s" "lun < MAX_LUNS"
  shows "fs_wf (snd (config_block_size ops lun s))"
proof -
  let ?s = "geo_set lun (geo_get lun s\<lparr>BlockSize := DEFAULT_BLOCK_SIZE\<rparr>) s"
  obtain ok1 s1 where a1: "kv_alloc ops lun LBADESCRIPTOR 8 ?s = (ok1, s1)" by fastforce
  have "fs_wf ?s" using assms by simp
  note k1 = kv_alloc_wf [OF this assms(2) num_keys(2) a1]
  then show ?thesis using assms a1
    by (auto simp: config_block_size_def Let_def intro!: kv_store_wf [OF _ _ num_keys(2)] split: option.splits)
qed

lemma ConfigToLunGeometry_wf [fs_inv]:
  assumes "fs_wf s" "lun < MAX_LUNS"
  shows "fs_wf (filesystemConfigToLunGeometry ops lun s)"
proof -
  obtain ok1 s1 where a1: "config_header ops lun s = (ok1, s1)" by fastforce
  obtain ok2 s2 where a2: "config_block_size ops lun s1 = (ok2, s2)" by fastforce
  have 1: "fs_wf s1" using config_header_wf [OF assms, of ops] a1 by simp
  then have 2: "fs_wf s2" using config_block_size_wf [OF _ assms(2), of s1 ops] a2 by simp
  then have "fs_wf (config_chs ops lun (config_spt lun s2))"
    using assms(2) by (auto simp: config_chs_def config_spt_def Let_def intro!: fs_inv split: option.splits)
  with 1 2 a1 a2 show ?thesis by (simp add: filesystemConfigToLunGeometry_def Let_def)
qed

lemma release_keys_wf [fs_inv]:
  assumes "fs_wf s"
  shows "fs_wf (release_keys lun s)"
proof (cases "lun < MAX_LUNS")
  case True
  then show ?thesis unfolding release_keys_def using assms fs_wf_kvs [OF assms True]
    by (intro fs_wf_keys) (auto simp: parse_releasekeyvalues_def kvs_ok_def kv_ok_def kv_empty_def NUM_KEYS_def)
next
  case False
  then show ?thesis using assms by (auto simp: release_keys_def fs_wf_def fs_shape_def list_update_beyond)
qed

lemma read_keys_wf:
  assumes "fs_wf s" "lun < MAX_LUNS" "read_keys ops name out lun s = (ok, s')"
  shows "fs_wf s'"
proof -
  obtain ok' kvs c where p: "parse_readfile ops (fsMountState s) name out scsiattributes (keyvalues s ! lun) (card s) = ((ok', kvs), c)"
    by (metis prod.exhaust)
  have "fs_wf (s\<lparr>keyvalues := (keyvalues s)[lun := kvs]\<rparr>)"
    using fs_wf_kvs [OF assms(1,2)] parse_readfile_ok [OF _ p] by (intro fs_wf_keys assms) auto
  then show ?thesis using assms(3) p by (auto simp: read_keys_def)
qed

lemma CheckExtAttributes_wf [fs_inv]:
  assumes "fs_wf s" "lun < MAX_LUNS"
  shows "fs_wf (snd (filesystemCheckExtAttributes ops lun s))"
proof -
  obtain ok1 s1 where a1: "read_keys ops (lun_path lun s @ ''cfg'') None lun (release_keys lun s) = (ok1, s1)" by fastforce
  obtain ok2 s2 where a2: "read_keys ops ''/Pi1MHz/defscsi.cfg'' None lun s1 = (ok2, s2)" by fastforce
  have 1: "fs_wf s1" by (rule read_keys_wf [OF release_keys_wf [OF assms(1)] assms(2) a1])
  then have "fs_wf s2" by (rule read_keys_wf [OF _ assms(2) a2])
  with 1 a1 a2 assms(2) show ?thesis
    by (simp add: filesystemCheckExtAttributes_def Let_def ConfigToLunGeometry_wf)
qed

lemma ReadLunDescriptor_wf [fs_inv]:
  assumes "fs_wf s" "lun < MAX_LUNS"
  shows "fs_wf (snd (filesystemReadLunDescriptor ops lun s))"
proof -
  obtain ok1 s1 where a1: "filesystemCheckExtAttributes ops lun s = (ok1, s1)" by fastforce
  have "fs_wf s1" using CheckExtAttributes_wf [OF assms, of ops] a1 by simp
  then show ?thesis using a1 assms(2)
    by (auto simp: filesystemReadLunDescriptor_def Let_def LunToconfigGeometry_wf split: prod.splits)
qed

lemma CheckLunImage_wf [fs_inv]:
  assumes "fs_wf s" "lun < MAX_LUNS"
  shows "fs_wf (snd (filesystemCheckLunImage ops lun s))"
proof -
  obtain r c where o: "f_open ops (LunFil lun) (lun_path lun s @ ''dat'') [FA_READ, FA_WRITE] (card s) = (r, c)" by fastforce
  obtain ok1 s1 where a1: "filesystemReadLunDescriptor ops lun
      (lun_status_set lun True (s\<lparr>card := link_file ops (LunFil lun) c\<rparr>)) = (ok1, s1)" by fastforce
  have "fs_wf s1" using ReadLunDescriptor_wf [OF _ assms(2), of "lun_status_set lun True (s\<lparr>card := link_file ops (LunFil lun) c\<rparr>)" ops] a1 assms(1) by simp
  then show ?thesis using a1 o assms
    by (simp add: filesystemCheckLunImage_def Let_def dattoconfigGeometry_wf)
qed

lemma CheckLunDirectory_wf [fs_inv]:
  "fs_wf s \<Longrightarrow> fs_wf (snd (filesystemCheckLunDirectory ops dir lun s))"
  by (auto simp: filesystemCheckLunDirectory_def Let_def split: prod.splits)

lemma SetLunStatus_wf [fs_inv]:
  assumes "fs_wf s" "lun < MAX_LUNS"
  shows "fs_wf (snd (filesystemSetLunStatus ops lun b s))"
proof -
  obtain ok1 s1 where a1: "filesystemCheckLunDirectory ops (lunDirectory s) lun s = (ok1, s1)" by fastforce
  obtain ok2 s2 where a2: "filesystemCheckLunImage ops lun s1 = (ok2, s2)" by fastforce
  have 1: "fs_wf s1" using CheckLunDirectory_wf [OF assms(1), of ops "lunDirectory s" lun] a1 by simp
  then have "fs_wf s2" using CheckLunImage_wf [OF _ assms(2), of s1 ops] a2 by simp
  then show ?thesis using 1 assms a1 a2
    by (auto simp: filesystemSetLunStatus_def Let_def release_keys_wf split: prod.splits)
qed


lemma Mount_wf [fs_inv]: "fs_wf s \<Longrightarrow> fs_wf (snd (filesystemMount ops s))"
  by (auto simp: filesystemMount_def Let_def split: prod.splits)

lemma stop_all_wf:
  "\<forall>l \<in> set ls. l < MAX_LUNS \<Longrightarrow> fs_wf s \<Longrightarrow>
   fs_wf (fold (\<lambda>lun s. release_keys lun (snd (filesystemSetLunStatus ops lun False s))) ls s)"
  by (induction ls arbitrary: s) (auto intro: release_keys_wf SetLunStatus_wf)

lemma Dismount_wf [fs_inv]: "fs_wf s \<Longrightarrow> fs_wf (snd (filesystemDismount ops s))"
  using stop_all_wf [of "[0..<MAX_LUNS]" s ops] by (auto simp: filesystemDismount_def Let_def split: prod.splits)

lemma Reset_wf [fs_inv]: "fs_wf s \<Longrightarrow> fs_wf (filesystemReset ops s)"
  by (simp add: filesystemReset_def Mount_wf Dismount_wf)

lemma SetLunDirectory_wf [fs_inv]: "fs_wf s \<Longrightarrow> fs_wf (filesystemSetLunDirectory i n s)"
  by (simp add: filesystemSetLunDirectory_def)

lemma Initialise_wf [fs_inv]: "fs_wf s \<Longrightarrow> fs_wf (filesystemInitialise a b s)"
  by (simp add: filesystemInitialise_def)

lemma HostRevokeLun_wf [fs_inv]: "fs_wf s \<Longrightarrow> fs_wf (filesystemHostRevokeLun lun s)"
  by (simp add: filesystemHostRevokeLun_def)

lemma HostLockLun_wf [fs_inv]: "fs_wf s \<Longrightarrow> fs_wf (filesystemHostLockLun lun b s)"
  by (simp add: filesystemHostLockLun_def Let_def)

lemma CreateLunImage_wf [fs_inv]:
  assumes "fs_wf s" "lun < MAX_LUNS"
  shows "fs_wf (snd (filesystemCreateLunImage ops lun s))"
proof -
  obtain ok1 s1 where a1: "filesystemCheckLunImage ops lun s = (ok1, s1)" by fastforce
  have "fs_wf s1" using CheckLunImage_wf [OF assms, of ops] a1 by simp
  with a1 assms show ?thesis
    by (auto simp: filesystemCreateLunImage_def Let_def split: prod.splits)
qed

lemma read_keys_wf' [fs_inv]: "fs_wf s \<Longrightarrow> lun < MAX_LUNS \<Longrightarrow> fs_wf (snd (read_keys ops name out lun s))"
  using read_keys_wf [of s lun ops name out] by (metis prod.collapse)

lemma CreateLunDescriptor_wf [fs_inv]:
  assumes "fs_wf s" "lun < MAX_LUNS"
  shows "fs_wf (snd (filesystemCreateLunDescriptor ops lun s))"
proof -
  let ?n = "lun_path lun s @ ''cfg''"
  obtain ok1 s1 where a1: "read_keys ops ?n None lun (release_keys lun s) = (ok1, s1)" by fastforce
  obtain ok2 s2 where a2: "read_keys ops ''/Pi1MHz/defscsi.cfg'' (Some ?n) lun s1 = (ok2, s2)" by fastforce
  have 1: "fs_wf s1" by (rule read_keys_wf [OF release_keys_wf [OF assms(1)] assms(2) a1])
  then have 2: "fs_wf s2" by (rule read_keys_wf [OF _ assms(2) a2])
  then have "fs_wf (snd (read_keys ops ?n None lun (release_keys lun s2)))"
    by (intro read_keys_wf' release_keys_wf assms(2))
  with 1 2 a1 a2 assms show ?thesis
    by (simp add: filesystemCreateLunDescriptor_def Let_def)
qed

lemma WriteAttributes_wf [fs_inv]:
  assumes "fs_wf s" "lun < MAX_LUNS"
  shows "fs_wf (snd (filesystemWriteAttributes ops lun s))"
proof -
  let ?n = "lun_path lun s @ ''cfg''"
  obtain ok1 s1 where a1: "read_keys ops ?n (Some ?n) lun s = (ok1, s1)" by fastforce
  have "fs_wf s1" by (rule read_keys_wf [OF assms a1])
  then have "fs_wf (snd (read_keys ops ''/Pi1MHz/defscsi.cfg'' (Some ?n) lun s1))"
    by (rule read_keys_wf' [OF _ assms(2)])
  with \<open>fs_wf s1\<close> a1 assms show ?thesis
    by (simp add: filesystemWriteAttributes_def Let_def)
qed

lemma FormatLun_wf [fs_inv]:
  "fs_wf s \<Longrightarrow> lun < MAX_LUNS \<Longrightarrow> fs_wf (snd (filesystemFormatLun ops lun p s))"
  by (auto simp: filesystemFormatLun_def Let_def SetLunStatus_wf split: prod.splits)

lemma OpenLunForRead_wf [fs_inv]: "fs_wf s \<Longrightarrow> fs_wf (snd (filesystemOpenLunForRead ops lun a n s))"
  by (auto simp: filesystemOpenLunForRead_def Let_def split: prod.splits)

lemma CloseLun_wf [fs_inv]:
  "fs_wf s \<Longrightarrow> lun < MAX_LUNS \<Longrightarrow> fs_wf (snd (filesystemCloseLunForRead ops lun s))"
  "fs_wf s \<Longrightarrow> lun < MAX_LUNS \<Longrightarrow> fs_wf (snd (filesystemCloseLunForWrite ops lun s))"
  by (simp_all add: filesystemCloseLunForRead_def filesystemCloseLunForWrite_def SetLunStatus_wf)

lemma OpenLunForWrite_wf [fs_inv]: "fs_wf s \<Longrightarrow> fs_wf (snd (filesystemOpenLunForWrite ops lun a n s))"
  by (auto simp: filesystemOpenLunForWrite_def Let_def split: prod.splits)

text \<open>FatFs returns at most the bytes it was asked for.\<close>

definition read_bound :: "'f sdcard \<Rightarrow> bool" where
  "read_bound ops \<longleftrightarrow> (\<forall>fp n c. length (snd (fst (f_read ops fp n c))) \<le> n)"

lemma fs_wf_sectorBuffer: "fs_wf s \<Longrightarrow> length (sectorBuffer s) = 16384"
  by (simp add: fs_wf_def fs_shape_def SECTOR_BUFFER_LENGTH_def)

lemma ReadNextSector_wf [fs_inv]:
  assumes "fs_wf s" "read_bound ops"
  shows "fs_wf (snd (filesystemReadNextSector ops lun s))"
proof -
  define n where "n = (if SECTOR_BUFFER_LENGTH < sectorsRemaining s then SECTOR_BUFFER_LENGTH else sectorsRemaining s)"
  have n: "unat n \<le> 64" by (auto simp: n_def SECTOR_BUFFER_LENGTH_def word_less_nat_alt)
  obtain r b c where rd: "f_read ops (LunFil lun) (unat n * 256) (card s) = ((r, b), c)" by (metis prod.exhaust)
  have b: "length b \<le> unat n * 256"
    using assms(2) rd unfolding read_bound_def by (metis fst_conv snd_conv)
  have "fs_wf (snd (fill_buffer ops lun s))"
    using assms(1) b n fs_wf_sectorBuffer [OF assms(1)] rd
    by (auto simp: fill_buffer_def Let_def intro!: fs_wf_buffer simp flip: n_def)
  with assms(1) show ?thesis
    by (auto simp: filesystemReadNextSector_def Let_def split: prod.splits if_splits)
qed

lemma WriteNextSector_wf:
  assumes "fs_wf s" "unat (currentBufferSector s) < 64"
  shows "fs_wf (snd (filesystemWriteNextSector ops lun b s))"
    "fst (filesystemWriteNextSector ops lun b s) \<Longrightarrow>
      unat (currentBufferSector (snd (filesystemWriteNextSector ops lun b s))) < 64"
proof -
  have len: "length (poke_at (unat (currentBufferSector s) * 256) (take 256 b) (sectorBuffer s)) = length (sectorBuffer s)"
    using assms fs_wf_sectorBuffer [OF assms(1)] by (intro length_poke_at) auto
  then show "fs_wf (snd (filesystemWriteNextSector ops lun b s))"
    using assms by (auto simp: filesystemWriteNextSector_def Let_def intro!: fs_wf_buffer split: prod.splits)
  have "unat (currentBufferSector s + 1) = Suc (unat (currentBufferSector s))"
    using assms(2) by (simp add: unat_plus_if')
  then have "unat (ucast (currentBufferSector s + 1) :: u32) = Suc (unat (currentBufferSector s))"
    using assms(2) by (simp add: unsigned_ucast_eq take_bit_nat_eq_self)
  moreover have "(ucast (currentBufferSector s + 1) :: u32) \<noteq> SECTOR_BUFFER_LENGTH \<Longrightarrow>
      unat (ucast (currentBufferSector s + 1) :: u32) \<noteq> 64"
    by (auto simp: SECTOR_BUFFER_LENGTH_def word_unat_eq_iff)
  ultimately show "fst (filesystemWriteNextSector ops lun b s) \<Longrightarrow>
      unat (currentBufferSector (snd (filesystemWriteNextSector ops lun b s))) < 64"
    using assms(2) \<open>unat (currentBufferSector s + 1) = _\<close>
    by (auto simp: filesystemWriteNextSector_def Let_def split: prod.splits if_splits)
qed

lemma WriteModePageData_wf:
  assumes "fs_wf s" "lun < MAX_LUNS" "len \<le> length buf"
  shows "fs_wf (snd (filesystemWriteModePageData ops lun page len buf s))"
proof (cases "filesystemPagetoIndex page")
  case (Some i)
  then have i: "i < 18" "key_type (scsiattributes ! i) = NUMSTRING" "\<not> is_mask (scsiattributes ! i)"
    using mode_index by auto
  then have nk: "num_key i (nat (key_max (scsiattributes ! i)))" by (simp add: num_key_def)
  let ?m = "case filesystemWritetoIndex page of None \<Rightarrow> None
      | Some w \<Rightarrow> if kv_string (kv_get lun i s) \<noteq> None then kv_data lun w s else None"
  show ?thesis
  proof (cases ?m)
    case None
    have "fs_wf (kv_set lun i kv_empty s')" if "fs_wf s'" for s' :: "'a filesystem"
      by (rule fs_wf_kv_set [OF that assms(2) i(1)]) (simp add: kv_ok_def kv_empty_def)
    moreover have "fs_wf (kv_set lun i \<lparr>kv_length = len,
        kv_string = Some (take len buf @ replicate (max len (nat (key_max (scsiattributes ! i))) - len) 0)\<rparr> s')"
      if "fs_wf s'" for s' :: "'a filesystem"
      by (rule fs_wf_kv_set [OF that assms(2) i(1)], rule kv_ok_num [OF nk]) (use assms(3) in auto)
    ultimately show ?thesis using assms(1) None Some
      by (auto simp: filesystemWriteModePageData_def Let_def split: prod.splits)
  next
    case (Some mw)
    then obtain w where w: "filesystemWritetoIndex page = Some w" and d: "kv_data lun w s = Some mw"
      and nn: "kv_string (kv_get lun i s) \<noteq> None"
      by (auto split: option.splits if_splits)
    have "w = WRITPAGE3" "i = MODEPAGE3"
      using writ_index [OF w] mode_index_3 [of page] \<open>filesystemPagetoIndex page = Some i\<close> by auto
    obtain wmask wlen where mw: "mw = (wmask, wlen)" by fastforce
    have "wlen \<le> 23"
      using fs_wf_kv [OF assms(1,2), of WRITPAGE3] d mw \<open>w = WRITPAGE3\<close>
      by (auto simp: kv_data_def kv_ok_def key_index_defs scsiattributes_def pkey_def is_mask_def)
    then have "fs_wf (kv_store lun i 0 (mask_bytes buf wmask (kv_bytes lun i s) (min len wlen)) (min len wlen) s)"
      using nn \<open>i = MODEPAGE3\<close> by (intro kv_store_wf [OF assms(1,2), of i 23]) (auto simp: num_keys mask_bytes_def)
    then show ?thesis
      using \<open>filesystemPagetoIndex page = Some i\<close> Some mw by (simp add: filesystemWriteModePageData_def Let_def)
  qed
qed (simp add: filesystemWriteModePageData_def assms)


lemma SetFatDirectory_wf [fs_inv]: "fs_wf s \<Longrightarrow> fs_wf (filesystemSetFatDirectory b s)"
  by (simp add: filesystemSetFatDirectory_def)

lemma GetFatFileInfo_wf [fs_inv]: "fs_wf s \<Longrightarrow> fs_wf (snd (filesystemGetFatFileInfo ops n b s))"
  by (auto simp: filesystemGetFatFileInfo_def Let_def split: prod.splits option.splits)

lemma OpenFatForRead_wf [fs_inv]: "fs_wf s \<Longrightarrow> fs_wf (snd (filesystemOpenFatForRead ops n b s))"
  by (auto simp: filesystemOpenFatForRead_def Let_def split: prod.splits option.splits)

lemma ReadNextFatBlock_wf [fs_inv]: "fs_wf s \<Longrightarrow> fs_wf (snd (filesystemReadNextFatBlock ops s))"
  by (auto simp: filesystemReadNextFatBlock_def Let_def split: prod.splits)

lemma CloseFatForRead_wf [fs_inv]: "fs_wf s \<Longrightarrow> fs_wf (snd (filesystemCloseFatForRead ops s))"
  by (auto simp: filesystemCloseFatForRead_def Let_def split: prod.splits)

end
