(* ===== verification/Scsi.thy ===== *)
theory Scsi
  imports Filesystem
begin

text \<open>
  The SCSI target of \<open>BeebSCSI/scsi.c\<close>: bus states, command decoding and every command, on
  top of the file system component.  The host adapter (\<open>hostadapter.h\<close>) and the F-Code
  interpreter are parameters; every call on them is passed the state of the outside world.
  Debug output is left out, as it changes no state.
\<close>

section \<open>Interfaces and state\<close>

text \<open>
  The host adapter acts on the state \<open>'h\<close> of the bus and the Beeb behind it.  The volatile
  inputs may change at every read.  A write DMA fills a prefix of its buffer, whose previous
  contents it is given; \<open>indeterminate\<close> is what an uninitialised 256-byte stack buffer holds.
\<close>

record 'h hostadapter =
  hostadapterReadDatabus :: "'h \<Rightarrow> u8 \<times> 'h"
  hostadapterReadByte :: "'h \<Rightarrow> u8 \<times> 'h"
  hostadapterWriteByte :: "u8 \<Rightarrow> 'h \<Rightarrow> 'h"
  hostadapterPerformReadDMA :: "u8 list \<Rightarrow> 'h \<Rightarrow> u32 \<times> 'h"
  hostadapterPerformWriteDMA :: "u8 list \<Rightarrow> 'h \<Rightarrow> (u32 \<times> u8 list) \<times> 'h"
  hostadapterWriteResetFlag :: "bool \<Rightarrow> 'h \<Rightarrow> 'h"
  hostadapterReadResetFlag :: "'h \<Rightarrow> bool \<times> 'h"
  hostadapterWriteDataPhaseFlags :: "bool \<Rightarrow> bool \<Rightarrow> bool \<Rightarrow> 'h \<Rightarrow> 'h"
  hostadapterWriteBusyFlag :: "bool \<Rightarrow> 'h \<Rightarrow> 'h"
  hostadapterWriteRequestFlag :: "bool \<Rightarrow> 'h \<Rightarrow> 'h"
  hostadapterReadSelectFlag :: "'h \<Rightarrow> bool \<times> 'h"
  statusledActivity :: "bool \<Rightarrow> 'h \<Rightarrow> 'h"
  indeterminate :: "'h \<Rightarrow> u8 list"

record ('h, 'f) scsi_env =
  ha :: "'h hostadapter"
  sd :: "'f sdcard"
  fcodeWriteBuffer :: "nat \<Rightarrow> 'f filesystem \<Rightarrow> u8 list \<Rightarrow> u8 list \<Rightarrow> 'h \<Rightarrow> (u8 list \<times> u8 list) \<times> 'h"

datatype scsi_state = SCSI_BUSFREE | SCSI_COMMAND | SCSI_STATUS | SCSI_MESSAGE
  | SCSI_TESTUNITREADY | SCSI_REZEROUNIT | SCSI_REQUESTSENSE | SCSI_FORMAT | SCSI_READ6
  | SCSI_WRITE6 | SCSI_SEEK | SCSI_TRANSLATE | SCSI_MODESELECT6 | SCSI_MODESENSE6
  | SCSI_STARTSTOP | SCSI_INQUIRY | SCSI_SENDDIAGNOSTIC | SCSI_REASSIGNBLOCKS
  | SCSI_VERIFY | SCSI_READCAPACITY | SCSI_READDEFECTDATA10 | SCSI_CERTIFY
  | SCSI_WRITE_FCODE | SCSI_READ_FCODE | SCSI_BEEBSCSI_SENSE | SCSI_BEEBSCSI_SELECT
  | SCSI_BEEBSCSI_FATPATH | SCSI_BEEBSCSI_FATINFO | SCSI_BEEBSCSI_FATREAD

datatype it_phase = ITPHASE_DATAOUT | ITPHASE_DATAIN | ITPHASE_COMMAND | ITPHASE_STATUS
  | ITPHASE_MESSAGEOUT | ITPHASE_MESSAGEIN

record ('h, 'f) scsi =
  cdb :: "u8 list"
  targetLUN :: u8
  status :: u8
  requestSenseData :: "u32 list"
  scsiState :: scsi_state
  scsiHostID :: u8
  ourscsiid :: u8
  scsiEmulationBusFreestate :: u8
  scsiFcodeBuffer :: "u8 list"
  scsiFcodeBufferRX :: "u8 list"
  fs :: "'f filesystem"
  host :: 'h

definition NO_ERROR :: u32 where "NO_ERROR = 0"
definition UNIT_NOT_READY :: u32 where "UNIT_NOT_READY = 0x02000000"
definition DRIVE_NOT_READY :: u32 where "DRIVE_NOT_READY = 0x04000000"
definition BAD_FORMAT :: u32 where "BAD_FORMAT = 0x1C000000"
definition ILLEGAL_ADDR :: u32 where "ILLEGAL_ADDR = 0xA1000000"
definition BAD_ARG :: u32 where "BAD_ARG = 0x24000000"
definition SCSI_STATUS_OK :: u8 where "SCSI_STATUS_OK = 0"
definition SCSI_STATUS_CHECK_COND :: u8 where "SCSI_STATUS_CHECK_COND = 2"

definition lun :: "('h, 'f) scsi \<Rightarrow> nat" where
  "lun s = unat (targetLUN s)"

text \<open>
  Running an operation of the host adapter, or of the file system, inside the component's state;
  ending a command with good status, or with a check condition and a sense code.
\<close>

definition on_host :: "('h \<Rightarrow> 'a \<times> 'h) \<Rightarrow> ('h, 'f) scsi \<Rightarrow> 'a \<times> ('h, 'f) scsi" where
  "on_host f s = (case f (host s) of (a, h) \<Rightarrow> (a, s\<lparr>host := h\<rparr>))"

definition on_fs :: "('f filesystem \<Rightarrow> 'a \<times> 'f filesystem) \<Rightarrow> ('h, 'f) scsi \<Rightarrow> 'a \<times> ('h, 'f) scsi" where
  "on_fs f s = (case f (fs s) of (a, x) \<Rightarrow> (a, s\<lparr>fs := x\<rparr>))"

definition do_host :: "('h \<Rightarrow> 'h) \<Rightarrow> ('h, 'f) scsi \<Rightarrow> ('h, 'f) scsi" where
  "do_host f s = s\<lparr>host := f (host s)\<rparr>"

definition do_fs :: "('f filesystem \<Rightarrow> 'f filesystem) \<Rightarrow> ('h, 'f) scsi \<Rightarrow> ('h, 'f) scsi" where
  "do_fs f s = s\<lparr>fs := f (fs s)\<rparr>"

definition good :: "('h, 'f) scsi \<Rightarrow> ('h, 'f) scsi" where
  "good s = s\<lparr>status := SCSI_STATUS_OK\<rparr>"

definition bad :: "('h, 'f) scsi \<Rightarrow> ('h, 'f) scsi" where
  "bad s = s\<lparr>status := SCSI_STATUS_CHECK_COND\<rparr>"

definition set_sense :: "u32 \<Rightarrow> ('h, 'f) scsi \<Rightarrow> ('h, 'f) scsi" where
  "set_sense code s = s\<lparr>requestSenseData := (requestSenseData s)[lun s := code]\<rparr>"

definition check_cond :: "u32 \<Rightarrow> ('h, 'f) scsi \<Rightarrow> ('h, 'f) scsi" where
  "check_cond code s = set_sense code (bad s)"

definition write_bytes :: "('h, 'f) scsi_env \<Rightarrow> u8 list \<Rightarrow> ('h, 'f) scsi \<Rightarrow> ('h, 'f) scsi" where
  "write_bytes e bs s = do_host (fold (hostadapterWriteByte (ha e)) bs) s"

fun read_bytes :: "('h, 'f) scsi_env \<Rightarrow> nat \<Rightarrow> ('h, 'f) scsi \<Rightarrow> u8 list \<times> ('h, 'f) scsi" where
  "read_bytes e 0 s = ([], s)"
| "read_bytes e (Suc n) s =
     (let (b, s) = on_host (hostadapterReadByte (ha e)) s; (bs, s) = read_bytes e n s in (b # bs, s))"

definition scsiInformationTransferPhase :: "('h, 'f) scsi_env \<Rightarrow> it_phase \<Rightarrow> ('h, 'f) scsi \<Rightarrow> ('h, 'f) scsi" where
  "scsiInformationTransferPhase e p s = do_host (case p of
     ITPHASE_DATAOUT \<Rightarrow> hostadapterWriteDataPhaseFlags (ha e) False False False
   | ITPHASE_DATAIN \<Rightarrow> hostadapterWriteDataPhaseFlags (ha e) False False True
   | ITPHASE_COMMAND \<Rightarrow> hostadapterWriteDataPhaseFlags (ha e) False True False
   | ITPHASE_STATUS \<Rightarrow> hostadapterWriteDataPhaseFlags (ha e) False True True
   | ITPHASE_MESSAGEOUT \<Rightarrow> hostadapterWriteDataPhaseFlags (ha e) True True False
   | ITPHASE_MESSAGEIN \<Rightarrow> hostadapterWriteDataPhaseFlags (ha e) True True True) s"

definition fcodeClearBuffer :: "('h, 'f) scsi \<Rightarrow> ('h, 'f) scsi" where
  "fcodeClearBuffer s = s\<lparr>scsiFcodeBufferRX := (scsiFcodeBufferRX s)[0 := 0x0D]\<rparr>"

definition scsiReset :: "u8 \<Rightarrow> ('h, 'f) scsi \<Rightarrow> ('h, 'f) scsi" where
  "scsiReset scsiid s =
     (fcodeClearBuffer (s\<lparr>requestSenseData := replicate MAX_LUNS NO_ERROR, ourscsiid := scsiid\<rparr>))
       \<lparr>scsiState := SCSI_BUSFREE\<rparr>"

section \<open>Bus states\<close>

definition busfree_select :: "('h, 'f) scsi_env \<Rightarrow> ('h, 'f) scsi \<Rightarrow> scsi_state \<times> ('h, 'f) scsi" where
  "busfree_select e s =
     (let (sel, s) = on_host (hostadapterReadSelectFlag (ha e)) s in
      if \<not> sel then (SCSI_BUSFREE, s) else
      let (i, s) = on_host (hostadapterReadDatabus (ha e)) s; s = s\<lparr>scsiHostID := i\<rparr> in
      if ourscsiid s \<noteq> 0 \<and> i \<noteq> ourscsiid s then (SCSI_BUSFREE, s) else
      (SCSI_COMMAND, (do_host (hostadapterWriteBusyFlag (ha e) True) s)\<lparr>scsiEmulationBusFreestate := 0\<rparr>))"

definition scsiEmulationBusFree :: "('h, 'f) scsi_env \<Rightarrow> ('h, 'f) scsi \<Rightarrow> scsi_state \<times> ('h, 'f) scsi" where
  "scsiEmulationBusFree e s =
     (if scsiEmulationBusFreestate s = 0 then
        let s = do_host (hostadapterWriteResetFlag (ha e) False) s;
            s = scsiInformationTransferPhase e ITPHASE_DATAOUT s;
            s = do_host (hostadapterWriteBusyFlag (ha e) False) s;
            s = do_host (hostadapterWriteRequestFlag (ha e) False) s in
        busfree_select e (s\<lparr>scsiEmulationBusFreestate := 1\<rparr>)
      else if scsiEmulationBusFreestate s = 1 then busfree_select e s
      else (SCSI_COMMAND, s))"

definition scsiTransformLUNid :: "u8 \<Rightarrow> u8 \<Rightarrow> u32" where
  "scsiTransformLUNid hostid l =
     (if hostid = 2 then 32 OR (ucast l AND 0x1F)
      else if hostid = 4 then 64 OR (ucast l AND 0x1F)
      else if hostid = 8 then 96 OR (ucast l AND 0x1F)
      else if hostid = 16 then ucast l OR 256
      else ucast l)"

definition group0 :: "(u8 \<times> scsi_state) list" where
  "group0 = [(0x00, SCSI_TESTUNITREADY), (0x01, SCSI_REZEROUNIT), (0x03, SCSI_REQUESTSENSE),
     (0x04, SCSI_FORMAT), (0x07, SCSI_REASSIGNBLOCKS), (0x08, SCSI_READ6), (0x0A, SCSI_WRITE6),
     (0x0B, SCSI_SEEK), (0x0F, SCSI_TRANSLATE), (0x12, SCSI_INQUIRY), (0x15, SCSI_MODESELECT6),
     (0x1A, SCSI_MODESENSE6), (0x1B, SCSI_STARTSTOP), (0x1D, SCSI_SENDDIAGNOSTIC)]"

definition group1 :: "(u8 \<times> scsi_state) list" where
  "group1 = [(0x05, SCSI_READCAPACITY), (0x0F, SCSI_VERIFY), (0x17, SCSI_READDEFECTDATA10)]"

definition group6_lvdos :: "(u8 \<times> scsi_state) list" where
  "group6_lvdos = [(0x0A, SCSI_WRITE_FCODE), (0x08, SCSI_READ_FCODE)]"

definition group6 :: "(u8 \<times> scsi_state) list" where
  "group6 = [(0x10, SCSI_BEEBSCSI_SENSE), (0x11, SCSI_BEEBSCSI_SELECT), (0x12, SCSI_BEEBSCSI_FATPATH),
     (0x13, SCSI_BEEBSCSI_FATINFO), (0x14, SCSI_BEEBSCSI_FATREAD)]"

definition group7 :: "(u8 \<times> scsi_state) list" where
  "group7 = [(0x02, SCSI_CERTIFY)]"

definition decode_command :: "u8 \<Rightarrow> u8 \<Rightarrow> scsi_state option" where
  "decode_command hostid b =
     (let grp = drop_bit 5 (b AND 0xE0); op = b AND 0x1F in
      if grp = 0 then map_of group0 op
      else if grp = 1 then map_of group1 op
      else if grp = 6 then
        (case (if hostid = 16 then map_of group6_lvdos op else None) of
           Some c \<Rightarrow> Some c | None \<Rightarrow> map_of group6 op)
      else if grp = 7 then map_of group7 op
      else None)"

definition cdb_length :: "u8 \<Rightarrow> nat" where
  "cdb_length b = (if drop_bit 5 (b AND 0xE0) = 1 then 10 else 6)"

definition scsiEmulationCommand :: "('h, 'f) scsi_env \<Rightarrow> ('h, 'f) scsi \<Rightarrow> scsi_state \<times> ('h, 'f) scsi" where
  "scsiEmulationCommand e s =
     (let s = scsiInformationTransferPhase e ITPHASE_COMMAND s;
          (b, s) = on_host (hostadapterReadByte (ha e)) s;
          n = cdb_length b;
          (bs, s) = read_bytes e (n - 1) s;
          newLUN = scsiTransformLUNid (scsiHostID s) (hd bs);
          s = s\<lparr>cdb := (b # ucast newLUN # tl bs) @ drop n (cdb s),
                targetLUN := ucast (drop_bit 5 (newLUN AND 0x1E0))\<rparr> in
      case decode_command (scsiHostID s) b of
        Some c \<Rightarrow> (c, s)
      | None \<Rightarrow> (SCSI_STATUS, bad s))"

definition scsiEmulationStatus :: "('h, 'f) scsi_env \<Rightarrow> ('h, 'f) scsi \<Rightarrow> scsi_state \<times> ('h, 'f) scsi" where
  "scsiEmulationStatus e s =
     (SCSI_MESSAGE, write_bytes e [status s] (scsiInformationTransferPhase e ITPHASE_STATUS s))"

definition scsiEmulationMessage :: "('h, 'f) scsi_env \<Rightarrow> ('h, 'f) scsi \<Rightarrow> scsi_state \<times> ('h, 'f) scsi" where
  "scsiEmulationMessage e s =
     (SCSI_BUSFREE, write_bytes e [0] (scsiInformationTransferPhase e ITPHASE_MESSAGEIN s))"

section \<open>Unit commands\<close>

definition scsiCommandTestUnitReady :: "('h, 'f) scsi_env \<Rightarrow> ('h, 'f) scsi \<Rightarrow> scsi_state \<times> ('h, 'f) scsi" where
  "scsiCommandTestUnitReady e s = (SCSI_STATUS,
     if filesystemReadLunStatus (lun s) (fs s) then good s else check_cond UNIT_NOT_READY s)"

definition scsiCommandRezeroUnit :: "('h, 'f) scsi_env \<Rightarrow> ('h, 'f) scsi \<Rightarrow> scsi_state \<times> ('h, 'f) scsi" where
  "scsiCommandRezeroUnit e s = (SCSI_STATUS,
     if filesystemReadLunStatus (lun s) (fs s) then good s else check_cond UNIT_NOT_READY s)"

definition sense_bytes :: "u32 \<Rightarrow> u8 list" where
  "sense_bytes x = [ucast (drop_bit 24 (x AND 0xFF000000)), ucast (drop_bit 16 (x AND 0x1F0000)),
     ucast (drop_bit 8 (x AND 0x00FF00)), ucast (x AND 0x0000FF)]"

definition scsiCommandRequestSense :: "('h, 'f) scsi_env \<Rightarrow> ('h, 'f) scsi \<Rightarrow> scsi_state \<times> ('h, 'f) scsi" where
  "scsiCommandRequestSense e s =
     (let s = scsiInformationTransferPhase e ITPHASE_DATAIN s;
          s = write_bytes e (sense_bytes (requestSenseData s ! lun s)) s in
      (SCSI_STATUS, good (set_sense NO_ERROR s)))"

fun read_records :: "('h, 'f) scsi_env \<Rightarrow> nat \<Rightarrow> ('h, 'f) scsi \<Rightarrow> ('h, 'f) scsi" where
  "read_records e 0 s = s"
| "read_records e (Suc n) s = read_records e n (snd (read_bytes e 8 s))"

definition format_defects :: "('h, 'f) scsi_env \<Rightarrow> ('h, 'f) scsi \<Rightarrow> ('h, 'f) scsi" where
  "format_defects e s =
     (let opts = cdb s ! 1 AND 0x1F in
      if opts = 28 \<or> opts = 30 then
        let s = scsiInformationTransferPhase e ITPHASE_DATAOUT s;
            (hdr, s) = read_bytes e 4 s in
        read_records e ((unat (hdr ! 2) * 256 + unat (hdr ! 3)) div 8) s
      else s)"

definition scsiCommandFormat :: "('h, 'f) scsi_env \<Rightarrow> ('h, 'f) scsi \<Rightarrow> scsi_state \<times> ('h, 'f) scsi" where
  "scsiCommandFormat e s =
     (let (ok, s) = (if \<not> filesystemReadLunStatus (lun s) (fs s)
             then on_fs (filesystemCreateLunImage (sd e) (lun s)) s else (True, s)) in
      if \<not> ok then
        (SCSI_STATUS, snd (on_fs (filesystemSetLunStatus (sd e) (lun s) False) (check_cond BAD_FORMAT s)))
      else
      let s = format_defects e s;
          (ok, s) = on_fs (filesystemFormatLun (sd e) (lun s) (cdb s ! 2)) s in
      if \<not> ok then
        (SCSI_STATUS, snd (on_fs (filesystemSetLunStatus (sd e) (lun s) False) (check_cond BAD_FORMAT s)))
      else (SCSI_STATUS, good (snd (on_fs (filesystemSetLunStatus (sd e) (lun s) True) s))))"

fun reassign_loop :: "('h, 'f) scsi_env \<Rightarrow> nat \<Rightarrow> nat \<Rightarrow> ('h, 'f) scsi \<Rightarrow> scsi_state \<times> ('h, 'f) scsi" where
  "reassign_loop e lba 0 s = (SCSI_STATUS, good s)"
| "reassign_loop e lba (Suc n) s =
     (let (rst, s) = on_host (hostadapterReadResetFlag (ha e)) s in
      if rst then (SCSI_BUSFREE, s)
      else reassign_loop e lba n (snd (read_bytes e lba s)))"

definition scsiCommandReassignBlocks :: "('h, 'f) scsi_env \<Rightarrow> ('h, 'f) scsi \<Rightarrow> scsi_state \<times> ('h, 'f) scsi" where
  "scsiCommandReassignBlocks e s =
     (let longlist = (cdb s ! 1 AND 1 = 1);
          longlba = (if cdb s ! 1 AND 1 = 0 then 4 else 8 :: nat);
          s = scsiInformationTransferPhase e ITPHASE_DATAOUT s;
          (hdr, s) = read_bytes e 4 s;
          list_length = push_bit 8 (ucast (hdr ! 2)) OR ucast (hdr ! 3) :: u32;
          list_length = (if longlist
             then push_bit 24 (ucast (hdr ! 0)) OR push_bit 16 (ucast (hdr ! 1)) OR list_length
             else list_length) in
      reassign_loop e longlba (unat list_length div longlba) s)"

text \<open>The auto-start that READ6, WRITE6 and TRANSLATE share.\<close>

definition auto_start :: "('h, 'f) scsi_env \<Rightarrow> ('h, 'f) scsi \<Rightarrow> bool \<times> ('h, 'f) scsi" where
  "auto_start e s =
     (if filesystemReadLunStatus (lun s) (fs s) then (True, s) else
      let s = do_fs (filesystemHostRevokeLun (lun s)) s;
          (ok, s) = on_fs (filesystemSetLunStatus (sd e) (lun s) True) s in
      if \<not> ok then (False, check_cond BAD_FORMAT s) else (True, s))"

definition lba21 :: "u8 list \<Rightarrow> u32" where
  "lba21 c = push_bit 16 (ucast (c ! 1) AND 0x1F) OR push_bit 8 (ucast (c ! 2)) OR ucast (c ! 3)"

definition block_count :: "u8 list \<Rightarrow> u32" where
  "block_count c = (let n = ucast (c ! 4) in if n = 0 then 256 else n)"

definition close_read :: "('h, 'f) scsi_env \<Rightarrow> ('h, 'f) scsi \<Rightarrow> ('h, 'f) scsi" where
  "close_read e s = snd (on_fs (filesystemCloseLunForRead (sd e) (lun s)) s)"

definition close_write :: "('h, 'f) scsi_env \<Rightarrow> ('h, 'f) scsi \<Rightarrow> ('h, 'f) scsi" where
  "close_write e s = snd (on_fs (filesystemCloseLunForWrite (sd e) (lun s)) s)"

fun read6_loop :: "('h, 'f) scsi_env \<Rightarrow> nat \<Rightarrow> ('h, 'f) scsi \<Rightarrow> scsi_state \<times> ('h, 'f) scsi" where
  "read6_loop e 0 s = (SCSI_STATUS, good s)"
| "read6_loop e (Suc n) s =
     (let (b, s) = on_fs (filesystemReadNextSector (sd e) (lun s)) s in
      case b of None \<Rightarrow> (SCSI_STATUS, close_read e (check_cond DRIVE_NOT_READY s))
      | Some sector \<Rightarrow>
        let (k, s) = on_host (hostadapterPerformReadDMA (ha e) sector) s;
            (rst, s) = on_host (hostadapterReadResetFlag (ha e)) s in
        if rst then (SCSI_BUSFREE, close_read e s) else read6_loop e n s)"

definition scsiCommandRead6 :: "('h, 'f) scsi_env \<Rightarrow> ('h, 'f) scsi \<Rightarrow> scsi_state \<times> ('h, 'f) scsi" where
  "scsiCommandRead6 e s =
     (let (ok, s) = auto_start e s in
      if \<not> ok then (SCSI_STATUS, s) else
      let s = scsiInformationTransferPhase e ITPHASE_DATAIN s;
          (ok, s) = on_fs (filesystemOpenLunForRead (sd e) (lun s) (lba21 (cdb s)) (block_count (cdb s))) s in
      if \<not> ok then (SCSI_STATUS, close_read e (check_cond DRIVE_NOT_READY s))
      else read6_loop e (unat (block_count (cdb s))) s)"

fun write6_loop :: "('h, 'f) scsi_env \<Rightarrow> nat \<Rightarrow> ('h, 'f) scsi \<Rightarrow> scsi_state \<times> ('h, 'f) scsi" where
  "write6_loop e 0 s = (SCSI_STATUS, good s)"
| "write6_loop e (Suc n) s =
     (let ((k, b), s) = on_host (hostadapterPerformWriteDMA (ha e) (indeterminate (ha e) (host s))) s;
          (rst, s) = on_host (hostadapterReadResetFlag (ha e)) s in
      if rst then (SCSI_BUSFREE, close_write e s) else
      let (ok, s) = on_fs (filesystemWriteNextSector (sd e) (lun s) b) s in
      if \<not> ok then (SCSI_STATUS, close_write e (check_cond DRIVE_NOT_READY s)) else write6_loop e n s)"

definition scsiCommandWrite6 :: "('h, 'f) scsi_env \<Rightarrow> ('h, 'f) scsi \<Rightarrow> scsi_state \<times> ('h, 'f) scsi" where
  "scsiCommandWrite6 e s =
     (let (ok, s) = auto_start e s in
      if \<not> ok then (SCSI_STATUS, s) else
      let s = scsiInformationTransferPhase e ITPHASE_DATAOUT s;
          (ok, s) = on_fs (filesystemOpenLunForWrite (sd e) (lun s) (lba21 (cdb s)) (block_count (cdb s))) s in
      if \<not> ok then (SCSI_STATUS, close_write e (check_cond DRIVE_NOT_READY s))
      else write6_loop e (unat (block_count (cdb s))) s)"

definition scsiCommandSeek :: "('h, 'f) scsi_env \<Rightarrow> ('h, 'f) scsi \<Rightarrow> scsi_state \<times> ('h, 'f) scsi" where
  "scsiCommandSeek e s = (SCSI_STATUS,
     if filesystemReadLunStatus (lun s) (fs s) then good s else check_cond DRIVE_NOT_READY s)"

definition chs_bytes :: "u32 \<Rightarrow> u32 \<Rightarrow> u32 \<Rightarrow> u8 list" where
  "chs_bytes c h b = [ucast (drop_bit 16 (c AND 0xFF0000)), ucast (drop_bit 8 (c AND 0xFF00)),
     ucast (c AND 0xFF), ucast h, ucast (drop_bit 24 (b AND 0xFF000000)),
     ucast (drop_bit 16 (b AND 0x00FF0000)), ucast (drop_bit 8 (b AND 0x0000FF00)),
     ucast (b AND 0x000000FF)]"

definition scsiCommandTranslate :: "('h, 'f) scsi_env \<Rightarrow> ('h, 'f) scsi \<Rightarrow> scsi_state \<times> ('h, 'f) scsi" where
  "scsiCommandTranslate e s =
     (let (ok, s) = auto_start e s in
      if \<not> ok then (SCSI_STATUS, s) else
      let lba = lba21 (cdb s);
          (ok, s) = on_fs (filesystemReadLunDescriptor (sd e) (lun s)) s in
      if \<not> ok then (SCSI_STATUS, check_cond DRIVE_NOT_READY s) else
      let hpc = filesystemGetheadspercylinder (lun s) (fs s);
          spt = filesystemGetLunSPTSize (lun s) (fs s);
          cylinderNumber = lba div (hpc * spt);
          headNumber = (lba div spt) mod hpc;
          bytesFromIndex = ((lba mod spt) + 1) * filesystemGetLunBlockSize (lun s) (fs s);
          s = scsiInformationTransferPhase e ITPHASE_DATAIN s in
      (SCSI_STATUS, good (write_bytes e (chs_bytes cylinderNumber headNumber bytesFromIndex) s)))"

section \<open>Mode pages\<close>

lemma cursor_in_list:
  fixes len start plen :: u8
  assumes "\<not> unat len < unat start + unat plen + 2"
  shows "unat (start + plen + 2) = unat start + unat plen + 2"
proof -
  have "unat start + unat plen + 2 < 256"
    using assms unat_u8_less [of len] by linarith
  then have "unat start + unat plen < 256" "unat start + unat plen + 2 < 256" by auto
  then show ?thesis
    by (simp add: unat_plus_if')
qed

text \<open>
  The loop over the pages of a MODE SELECT.  \<open>start\<close> is the 8-bit cursor of the source; a
  page that does not fit in the list ends the command with a bad argument, else the cursor stays
  within the list and the loop ends.
\<close>

function modeselect_loop ::
  "('h, 'f) scsi_env \<Rightarrow> u8 \<Rightarrow> u8 list \<Rightarrow> u8 \<Rightarrow> ('h, 'f) scsi \<Rightarrow> bool \<times> ('h, 'f) scsi" where
  "modeselect_loop e len buf start s =
     (if unat start + 2 < unat len then
        let page = buf ! unat start AND 0x3F;
            buf = buf[unat start := page];
            plen = buf ! (unat start + 1) in
        if unat len < unat start + unat plen + 2 then (False, check_cond BAD_ARG s) else
        let s = snd (on_fs (filesystemWriteModePageData (sd e) (lun s) page (unat plen + 2)
                      (drop (unat start) buf)) s);
            s = (if page = 4 then do_fs (filesystemCopyPage4toPage0 (lun s)) s else s) in
        modeselect_loop e len buf (start + plen + 2) s
      else (True, s))"
  by pat_completeness auto

termination
  by (relation "measure (\<lambda>(e, len, buf, start, s). unat len - unat start)")
     (auto simp: cursor_in_list simp flip: word_le_nat_alt)

declare modeselect_loop.simps [simp del]

definition scsiCommandModeSelect6 :: "('h, 'f) scsi_env \<Rightarrow> ('h, 'f) scsi \<Rightarrow> scsi_state \<times> ('h, 'f) scsi" where
  "scsiCommandModeSelect6 e s =
     (let len = cdb s ! 4 in
      if len < 4 then (SCSI_STATUS, check_cond BAD_ARG s) else
      let (ok, s) = on_fs (filesystemCheckLunImage (sd e) (lun s)) s;
          (ok, s) = (if ok then (True, s) else on_fs (filesystemCreateLunDescriptor (sd e) (lun s)) s) in
      if \<not> ok then (SCSI_STATUS, check_cond DRIVE_NOT_READY s) else
      let s = scsiInformationTransferPhase e ITPHASE_DATAOUT s;
          (buf, s) = read_bytes e (unat len) s;
          (ok, s) = (if len = 22 \<and> buf ! 3 = 8 then
             (True, do_fs (filesystemCopyPage0toPage4 (lun s))
               (snd (on_fs (filesystemWriteModePageData (sd e) (lun s) 0 10 (drop 12 buf)) s)))
           else modeselect_loop e len buf 4 s) in
      if \<not> ok then (SCSI_STATUS, s) else
      let s = do_fs (filesystemConfigToLunGeometry (sd e) (lun s)) s;
          (ok, s) = on_fs (filesystemWriteAttributes (sd e) (lun s)) s in
      if \<not> ok then (SCSI_STATUS, check_cond DRIVE_NOT_READY s) else (SCSI_STATUS, good s))"

text \<open>
  The bytes of a MODE SENSE reply: the length byte, the rest of the parameter header, the block
  descriptor and the page, cut at the allocation length and padded with zeros.  The arithmetic is
  the signed arithmetic of the source.
\<close>

definition mode_sense_bytes :: "u8 \<Rightarrow> u8 \<Rightarrow> u8 list \<times> nat \<Rightarrow> u8 list \<times> nat \<Rightarrow> u8 list \<times> nat \<Rightarrow> u8 list" where
  "mode_sense_bytes page req hdr lba mode =
     (let total = int (snd hdr) + int (snd lba) + int (snd mode);
          len = (if int (unat req) < total then int (unat req) else total);
          first = (if page = 0 then 0 else word_of_int (len - 1));
          sendlen = (if int (snd hdr) - 1 > len - 1 then len - 1 else int (snd hdr) - 1);
          len1 = len - (sendlen + 1);
          lbalen = (if len1 < int (snd lba) then len1 else int (snd lba));
          len2 = len1 - lbalen;
          modelen = (if len2 < int (snd mode) then len2 else int (snd mode));
          len3 = len2 - modelen in
      [first] @ map (\<lambda>i. fst hdr ! i) [1..<nat (sendlen + 1)] @ map (\<lambda>i. fst lba ! i) [0..<nat lbalen] @
      map (\<lambda>i. fst mode ! i) [0..<nat modelen] @ replicate (nat len3) 0)"

definition scsiCommandModeSense6 :: "('h, 'f) scsi_env \<Rightarrow> ('h, 'f) scsi \<Rightarrow> scsi_state \<times> ('h, 'f) scsi" where
  "scsiCommandModeSense6 e s =
     (let req = cdb s ! 4; page = cdb s ! 2;
          s = snd (on_fs (filesystemReadLunDescriptor (sd e) (lun s)) s) in
      case (filesystemGetModeParamHeaderData (lun s) (fs s), filesystemGetLBADescriptorData (lun s) (fs s),
            filesystemGetModePageData (lun s) page (fs s)) of
        (Some hdr, Some lba, Some mode) \<Rightarrow>
          if req = 0 then (SCSI_STATUS, good s) else
          let s = scsiInformationTransferPhase e ITPHASE_DATAIN s in
          (SCSI_STATUS, good (write_bytes e (mode_sense_bytes page req hdr lba mode) s))
      | _ \<Rightarrow> (SCSI_STATUS, check_cond DRIVE_NOT_READY s))"

section \<open>Further unit commands\<close>

definition scsiCommandStartStop :: "('h, 'f) scsi_env \<Rightarrow> ('h, 'f) scsi \<Rightarrow> scsi_state \<times> ('h, 'f) scsi" where
  "scsiCommandStartStop e s =
     (if cdb s ! 4 AND 0x01 = 0 then
        (SCSI_STATUS, good (snd (on_fs (filesystemSetLunStatus (sd e) (lun s) False) s)))
      else
        let s = do_fs (filesystemHostRevokeLun (lun s)) s;
            (ok, s) = on_fs (filesystemSetLunStatus (sd e) (lun s) True) s in
        if \<not> ok then (SCSI_STATUS, check_cond BAD_ARG s) else (SCSI_STATUS, good s))"

definition lba32 :: "u8 list \<Rightarrow> u32" where
  "lba32 c = push_bit 24 (ucast (c ! 2)) OR push_bit 16 (ucast (c ! 3)) OR
     push_bit 8 (ucast (c ! 4)) OR ucast (c ! 5)"

definition scsiCommandVerify :: "('h, 'f) scsi_env \<Rightarrow> ('h, 'f) scsi \<Rightarrow> scsi_state \<times> ('h, 'f) scsi" where
  "scsiCommandVerify e s =
     (if \<not> filesystemReadLunStatus (lun s) (fs s) then (SCSI_STATUS, bad s) else
      if filesystemGetLunTotalSectors (lun s) (fs s) \<le> lba32 (cdb s)
      then (SCSI_STATUS, check_cond (ILLEGAL_ADDR OR (lba32 (cdb s) AND 0x00FFFFFF)) s)
      else (SCSI_STATUS, good s))"

definition scsiCommandReadCapacity :: "('h, 'f) scsi_env \<Rightarrow> ('h, 'f) scsi \<Rightarrow> scsi_state \<times> ('h, 'f) scsi" where
  "scsiCommandReadCapacity e s =
     (if \<not> filesystemReadLunStatus (lun s) (fs s) then (SCSI_STATUS, bad s) else
      if cdb s ! 8 \<noteq> 0x00 \<and> cdb s ! 8 \<noteq> 0x01 then (SCSI_STATUS, check_cond BAD_ARG s) else
      let lunsize = filesystemGetLunTotalSectors (lun s) (fs s) - 1;
          s = scsiInformationTransferPhase e ITPHASE_DATAIN s in
      (SCSI_STATUS, good (write_bytes e
        (be32_bytes lunsize @ be32_bytes (filesystemGetLunBlockSize (lun s) (fs s))) s)))"

definition scsiCommandReadDefectData10 :: "('h, 'f) scsi_env \<Rightarrow> ('h, 'f) scsi \<Rightarrow> scsi_state \<times> ('h, 'f) scsi" where
  "scsiCommandReadDefectData10 e s =
     (if \<not> filesystemReadLunStatus (lun s) (fs s) then (SCSI_STATUS, bad s) else
      let s = scsiInformationTransferPhase e ITPHASE_DATAIN s in
      (SCSI_STATUS, good (write_bytes e [0, cdb s ! 2, 0, 0] s)))"

definition scsiCommandInquiry :: "('h, 'f) scsi_env \<Rightarrow> ('h, 'f) scsi \<Rightarrow> scsi_state \<times> ('h, 'f) scsi" where
  "scsiCommandInquiry e s = (case filesystemGetInquiryData (lun s) (fs s) of
     Some (buf, inqLen) \<Rightarrow>
       let s = scsiInformationTransferPhase e ITPHASE_DATAIN s in
       (SCSI_STATUS, good (write_bytes e
          (map (\<lambda>i. if i < inqLen then buf ! i else 0) [0..<unat (cdb s ! 4)]) s))
   | None \<Rightarrow> (SCSI_STATUS, bad s))"

definition scsiCommandSendDiagnostic :: "('h, 'f) scsi_env \<Rightarrow> ('h, 'f) scsi \<Rightarrow> scsi_state \<times> ('h, 'f) scsi" where
  "scsiCommandSendDiagnostic e s =
     (let s = scsiInformationTransferPhase e ITPHASE_DATAOUT s;
          (bs, s) = read_bytes e (unat (cdb s ! 3) * 256 + unat (cdb s ! 4)) s in
      (SCSI_STATUS, good s))"

section \<open>LV-DOS and BeebSCSI commands\<close>

definition scsiWriteFCode :: "('h, 'f) scsi_env \<Rightarrow> ('h, 'f) scsi \<Rightarrow> scsi_state \<times> ('h, 'f) scsi" where
  "scsiWriteFCode e s =
     (if \<not> filesystemReadLunStatus (lun s) (fs s) then (SCSI_STATUS, check_cond DRIVE_NOT_READY s) else
      let s = scsiInformationTransferPhase e ITPHASE_DATAOUT s;
          ((k, b), s) = on_host (hostadapterPerformWriteDMA (ha e) (scsiFcodeBuffer s)) s;
          s = s\<lparr>scsiFcodeBuffer := b\<rparr>;
          (rst, s) = on_host (hostadapterReadResetFlag (ha e)) s in
      if rst then (SCSI_BUSFREE, s) else
      let ((tx, rx), s) = on_host (fcodeWriteBuffer e (lun s) (fs s) (scsiFcodeBuffer s) (scsiFcodeBufferRX s)) s in
      (SCSI_STATUS, good (s\<lparr>scsiFcodeBuffer := tx, scsiFcodeBufferRX := rx\<rparr>)))"

definition scsiReadFCode :: "('h, 'f) scsi_env \<Rightarrow> ('h, 'f) scsi \<Rightarrow> scsi_state \<times> ('h, 'f) scsi" where
  "scsiReadFCode e s =
     (if \<not> filesystemReadLunStatus (lun s) (fs s) then (SCSI_STATUS, check_cond DRIVE_NOT_READY s) else
      let s = scsiInformationTransferPhase e ITPHASE_DATAIN s;
          (k, s) = on_host (hostadapterPerformReadDMA (ha e) (scsiFcodeBufferRX s)) s;
          s = fcodeClearBuffer s;
          (rst, s) = on_host (hostadapterReadResetFlag (ha e)) s in
      if rst then (SCSI_BUSFREE, s) else (SCSI_STATUS, good s))"

definition FIRMWARE_MAJOR :: u8 where "FIRMWARE_MAJOR = 0x03"
definition FIRMWARE_MINOR :: u8 where "FIRMWARE_MINOR = 0x01"

definition lun_status_byte :: "('f, 'z) filesystem_scheme \<Rightarrow> u8" where
  "lun_status_byte s = fold (\<lambda>i b. if filesystemReadLunStatus i s then b OR push_bit i 1 else b) [0..<8] 0"

definition scsiBeebScsiSense :: "('h, 'f) scsi_env \<Rightarrow> ('h, 'f) scsi \<Rightarrow> scsi_state \<times> ('h, 'f) scsi" where
  "scsiBeebScsiSense e s =
     (if cdb s ! 4 \<noteq> 8 then (SCSI_STATUS, check_cond BAD_ARG s) else
      let s = scsiInformationTransferPhase e ITPHASE_DATAIN s in
      (SCSI_STATUS, good (write_bytes e
        [lun_status_byte (fs s), filesystemGetLunDirectory (fs s), if scsiHostID s \<noteq> 16 then 0 else 1,
         FIRMWARE_MAJOR, FIRMWARE_MINOR, 0, 0, 0] s)))"

definition scsiJukebox :: "u8 \<Rightarrow> ('h, 'f) scsi \<Rightarrow> bool \<times> ('h, 'f) scsi" where
  "scsiJukebox n s =
     (if list_ex (\<lambda>i. filesystemReadLunStatus i (fs s)) [0..<MAX_LUNS] then (False, s)
      else (True, do_fs (filesystemSetLunDirectory (scsiHostID s) n) s))"

definition scsiBeebScsiSelect :: "('h, 'f) scsi_env \<Rightarrow> ('h, 'f) scsi \<Rightarrow> scsi_state \<times> ('h, 'f) scsi" where
  "scsiBeebScsiSelect e s =
     (if cdb s ! 4 \<noteq> 8 then (SCSI_STATUS, check_cond BAD_ARG s) else
      let s = scsiInformationTransferPhase e ITPHASE_DATAOUT s;
          (buf, s) = read_bytes e (unat (cdb s ! 4)) s;
          (ok, s) = scsiJukebox (buf ! 0) s in
      if \<not> ok then (SCSI_STATUS, check_cond UNIT_NOT_READY s) else (SCSI_STATUS, good s))"

definition scsiBeebScsiFatPath :: "('h, 'f) scsi_env \<Rightarrow> ('h, 'f) scsi \<Rightarrow> scsi_state \<times> ('h, 'f) scsi" where
  "scsiBeebScsiFatPath e s =
     (let s = scsiInformationTransferPhase e ITPHASE_DATAOUT s;
          ((k, b), s) = on_host (hostadapterPerformWriteDMA (ha e) (indeterminate (ha e) (host s))) s;
          (rst, s) = on_host (hostadapterReadResetFlag (ha e)) s in
      if rst then (SCSI_BUSFREE, s) else
      (SCSI_STATUS, good (do_fs (filesystemSetFatDirectory (b[255 := 0])) s)))"

definition scsiBeebScsiFatInfo :: "('h, 'f) scsi_env \<Rightarrow> ('h, 'f) scsi \<Rightarrow> scsi_state \<times> ('h, 'f) scsi" where
  "scsiBeebScsiFatInfo e s =
     (let s = scsiInformationTransferPhase e ITPHASE_DATAIN s;
          ((ok, b), s) = on_fs (filesystemGetFatFileInfo (sd e) (ucast (cdb s ! 5)) (replicate 256 0)) s in
      if \<not> ok then (SCSI_STATUS, check_cond DRIVE_NOT_READY s) else
      let (k, s) = on_host (hostadapterPerformReadDMA (ha e) b) s;
          (rst, s) = on_host (hostadapterReadResetFlag (ha e)) s in
      if rst then (SCSI_BUSFREE, s) else (SCSI_STATUS, good s))"

definition close_fat :: "('h, 'f) scsi_env \<Rightarrow> ('h, 'f) scsi \<Rightarrow> ('h, 'f) scsi" where
  "close_fat e s = snd (on_fs (filesystemCloseFatForRead (sd e)) s)"

fun fatread_loop :: "('h, 'f) scsi_env \<Rightarrow> nat \<Rightarrow> ('h, 'f) scsi \<Rightarrow> scsi_state \<times> ('h, 'f) scsi" where
  "fatread_loop e 0 s = (SCSI_STATUS, good (close_fat e s))"
| "fatread_loop e (Suc n) s =
     (let (b, s) = on_fs (filesystemReadNextFatBlock (sd e)) s in
      case b of None \<Rightarrow> (SCSI_BUSFREE, close_fat e s)
      | Some blk \<Rightarrow>
        let (k, s) = on_host (hostadapterPerformReadDMA (ha e) blk) s;
            (rst, s) = on_host (hostadapterReadResetFlag (ha e)) s in
        if rst then (SCSI_BUSFREE, close_fat e s) else fatread_loop e n s)"

definition scsiBeebScsiFatRead :: "('h, 'f) scsi_env \<Rightarrow> ('h, 'f) scsi \<Rightarrow> scsi_state \<times> ('h, 'f) scsi" where
  "scsiBeebScsiFatRead e s =
     (let s = scsiInformationTransferPhase e ITPHASE_DATAIN s;
          (ok, s) = on_fs (filesystemOpenFatForRead (sd e) (ucast (cdb s ! 5)) (lba21 (cdb s))) s in
      if \<not> ok then (SCSI_STATUS, check_cond DRIVE_NOT_READY s)
      else fatread_loop e (unat (cdb s ! 4)) s)"

definition scsiCommandCertify :: "('h, 'f) scsi_env \<Rightarrow> ('h, 'f) scsi \<Rightarrow> scsi_state \<times> ('h, 'f) scsi" where
  "scsiCommandCertify e s = (SCSI_STATUS, good s)"

section \<open>The emulation step\<close>

definition scsi_dispatch :: "('h, 'f) scsi_env \<Rightarrow> ('h, 'f) scsi \<Rightarrow> scsi_state \<times> ('h, 'f) scsi" where
  "scsi_dispatch e s = (case scsiState s of
     SCSI_BUSFREE \<Rightarrow> scsiEmulationBusFree e s
   | SCSI_COMMAND \<Rightarrow> scsiEmulationCommand e s
   | SCSI_STATUS \<Rightarrow> scsiEmulationStatus e s
   | SCSI_MESSAGE \<Rightarrow> scsiEmulationMessage e s
   | SCSI_TESTUNITREADY \<Rightarrow> scsiCommandTestUnitReady e s
   | SCSI_REZEROUNIT \<Rightarrow> scsiCommandRezeroUnit e s
   | SCSI_REQUESTSENSE \<Rightarrow> scsiCommandRequestSense e s
   | SCSI_FORMAT \<Rightarrow> scsiCommandFormat e s
   | SCSI_REASSIGNBLOCKS \<Rightarrow> scsiCommandReassignBlocks e s
   | SCSI_READ6 \<Rightarrow> scsiCommandRead6 e s
   | SCSI_WRITE6 \<Rightarrow> scsiCommandWrite6 e s
   | SCSI_SEEK \<Rightarrow> scsiCommandSeek e s
   | SCSI_TRANSLATE \<Rightarrow> scsiCommandTranslate e s
   | SCSI_MODESELECT6 \<Rightarrow> scsiCommandModeSelect6 e s
   | SCSI_MODESENSE6 \<Rightarrow> scsiCommandModeSense6 e s
   | SCSI_STARTSTOP \<Rightarrow> scsiCommandStartStop e s
   | SCSI_VERIFY \<Rightarrow> scsiCommandVerify e s
   | SCSI_READCAPACITY \<Rightarrow> scsiCommandReadCapacity e s
   | SCSI_READDEFECTDATA10 \<Rightarrow> scsiCommandReadDefectData10 e s
   | SCSI_INQUIRY \<Rightarrow> scsiCommandInquiry e s
   | SCSI_SENDDIAGNOSTIC \<Rightarrow> scsiCommandSendDiagnostic e s
   | SCSI_WRITE_FCODE \<Rightarrow> scsiWriteFCode e s
   | SCSI_READ_FCODE \<Rightarrow> scsiReadFCode e s
   | SCSI_BEEBSCSI_SENSE \<Rightarrow> scsiBeebScsiSense e s
   | SCSI_BEEBSCSI_SELECT \<Rightarrow> scsiBeebScsiSelect e s
   | SCSI_BEEBSCSI_FATPATH \<Rightarrow> scsiBeebScsiFatPath e s
   | SCSI_BEEBSCSI_FATINFO \<Rightarrow> scsiBeebScsiFatInfo e s
   | SCSI_BEEBSCSI_FATREAD \<Rightarrow> scsiBeebScsiFatRead e s
   | SCSI_CERTIFY \<Rightarrow> scsiCommandCertify e s)"

definition scsiProcessEmulation :: "('h, 'f) scsi_env \<Rightarrow> ('h, 'f) scsi \<Rightarrow> ('h, 'f) scsi" where
  "scsiProcessEmulation e s =
     (let (st, s) = scsi_dispatch e s; s = s\<lparr>scsiState := st\<rparr> in
      do_host (statusledActivity (ha e) (st \<noteq> SCSI_BUSFREE)) s)"

end
