(* ===== verification/ScsiFrame.thy ===== *)
theory ScsiFrame
  imports Scsi
begin

text \<open>
  What the commands of the SCSI target leave alone, how they end, and the cycle of the bus states:
  a command keeps the command block and the identities, writes the sense data of the unit it
  addresses only, and leads back to the free bus.
\<close>

section \<open>Frames\<close>

named_theorems scsi_frame "fields that the helpers of the SCSI commands leave alone"

text \<open>What a command must not touch: the command block, the unit, the identities and the bus state.\<close>

definition command_frame :: "('h, 'f) scsi \<Rightarrow> u8 list \<times> u8 \<times> u8 \<times> u8 \<times> u8 \<times> scsi_state" where
  "command_frame s = (cdb s, targetLUN s, scsiHostID s, ourscsiid s, scsiEmulationBusFreestate s, scsiState s)"

lemma frame_lun: "command_frame s' = command_frame s \<Longrightarrow> lun s' = lun s"
  by (simp add: command_frame_def lun_def)

lemma frame_prims [scsi_frame]:
  "command_frame (snd (on_host f s)) = command_frame s" "command_frame (snd (on_fs g s)) = command_frame s"
  "command_frame (do_host f1 s) = command_frame s" "command_frame (do_fs g1 s) = command_frame s"
  "command_frame (good s) = command_frame s" "command_frame (bad s) = command_frame s"
  "command_frame (set_sense c s) = command_frame s" "command_frame (check_cond c s) = command_frame s"
  "command_frame (write_bytes e bs s) = command_frame s"
  "command_frame (scsiInformationTransferPhase e p s) = command_frame s"
  "command_frame (fcodeClearBuffer s) = command_frame s"
  "command_frame (close_read e s) = command_frame s" "command_frame (close_write e s) = command_frame s"
  "command_frame (close_fat e s) = command_frame s"
  "command_frame (s\<lparr>scsiFcodeBuffer := b\<rparr>) = command_frame s" "command_frame (s\<lparr>scsiFcodeBufferRX := b\<rparr>) = command_frame s"
  "command_frame (snd (auto_start e s)) = command_frame s"
  "command_frame (snd (scsiJukebox n s)) = command_frame s"
  by (simp_all add: command_frame_def on_host_def on_fs_def do_host_def do_fs_def good_def bad_def set_sense_def
      check_cond_def write_bytes_def scsiInformationTransferPhase_def fcodeClearBuffer_def close_read_def
      close_write_def close_fat_def auto_start_def scsiJukebox_def Let_def case_prod_beta)

lemma frame_read_bytes [scsi_frame]: "command_frame (snd (read_bytes e n s)) = command_frame s"
  by (induction n arbitrary: s) (simp_all add: Let_def case_prod_beta scsi_frame)

lemma frame_records [scsi_frame]: "command_frame (read_records e n s) = command_frame s"
  by (induction n arbitrary: s) (simp_all add: scsi_frame)

lemma frame_format_defects [scsi_frame]: "command_frame (format_defects e s) = command_frame s"
  by (simp add: format_defects_def Let_def case_prod_beta scsi_frame)

lemma frame_reassign [scsi_frame]: "command_frame (snd (reassign_loop e a n s)) = command_frame s"
  by (induction n arbitrary: s) (simp_all add: Let_def case_prod_beta scsi_frame)

lemma frame_read6 [scsi_frame]: "command_frame (snd (read6_loop e n s)) = command_frame s"
  by (induction n arbitrary: s) (simp_all add: Let_def case_prod_beta scsi_frame split: option.splits)

lemma frame_write6 [scsi_frame]: "command_frame (snd (write6_loop e n s)) = command_frame s"
  by (induction n arbitrary: s) (simp_all add: Let_def case_prod_beta scsi_frame)

lemma frame_fatread [scsi_frame]: "command_frame (snd (fatread_loop e n s)) = command_frame s"
  by (induction n arbitrary: s) (simp_all add: Let_def case_prod_beta scsi_frame split: option.splits)

lemma frame_modeselect [scsi_frame]: "command_frame (snd (modeselect_loop e len buf start s)) = command_frame s"
  by (induction e len buf start s rule: modeselect_loop.induct)
     (subst modeselect_loop.simps, simp add: Let_def scsi_frame)

definition is_command :: "scsi_state \<Rightarrow> bool" where
  "is_command st \<longleftrightarrow> st \<notin> {SCSI_BUSFREE, SCSI_COMMAND, SCSI_STATUS, SCSI_MESSAGE}"

lemmas command_defs = scsiCommandTestUnitReady_def scsiCommandRezeroUnit_def scsiCommandRequestSense_def
  scsiCommandFormat_def scsiCommandReassignBlocks_def scsiCommandRead6_def scsiCommandWrite6_def
  scsiCommandSeek_def scsiCommandTranslate_def scsiCommandModeSelect6_def scsiCommandModeSense6_def
  scsiCommandStartStop_def scsiCommandVerify_def scsiCommandReadCapacity_def
  scsiCommandReadDefectData10_def scsiCommandInquiry_def scsiCommandSendDiagnostic_def
  scsiWriteFCode_def scsiReadFCode_def scsiBeebScsiSense_def scsiBeebScsiSelect_def
  scsiBeebScsiFatPath_def scsiBeebScsiFatInfo_def scsiBeebScsiFatRead_def scsiCommandCertify_def

lemma command_keeps_frame:
  assumes "is_command (scsiState s)"
  shows "command_frame (snd (scsi_dispatch e s)) = command_frame s"
  using assms unfolding is_command_def scsi_dispatch_def
  by (cases "scsiState s") (simp_all add: command_defs Let_def case_prod_beta scsi_frame split: option.splits)


section \<open>How a command ends\<close>

lemma loops_end:
  "fst (reassign_loop e a n s) \<in> {SCSI_STATUS, SCSI_BUSFREE}"
  "fst (read6_loop e n s) \<in> {SCSI_STATUS, SCSI_BUSFREE}"
  "fst (write6_loop e n s) \<in> {SCSI_STATUS, SCSI_BUSFREE}"
  "fst (fatread_loop e n s) \<in> {SCSI_STATUS, SCSI_BUSFREE}"
  by (induction n arbitrary: s) (simp_all add: Let_def case_prod_beta split: option.splits)

lemma command_ends:
  assumes "is_command (scsiState s)"
  shows "fst (scsi_dispatch e s) \<in> {SCSI_STATUS, SCSI_BUSFREE}"
  using assms unfolding is_command_def scsi_dispatch_def
  by (cases "scsiState s")
     (simp_all add: command_defs Let_def case_prod_beta loops_end [simplified] split: option.splits)

lemma status_prims [scsi_frame]:
  "status (good s) = SCSI_STATUS_OK" "status (bad s) = SCSI_STATUS_CHECK_COND"
  "status (check_cond c s) = SCSI_STATUS_CHECK_COND" "status (set_sense c s) = status s"
  "status (snd (on_fs g s)) = status s" "status (close_read e s) = status s" "status (close_write e s) = status s"
  "status (close_fat e s) = status s"
  by (simp_all add: good_def bad_def check_cond_def set_sense_def on_fs_def close_read_def close_write_def
      close_fat_def case_prod_beta)

definition answered :: "scsi_state \<times> ('h, 'f) scsi \<Rightarrow> bool" where
  "answered r \<longleftrightarrow> (fst r = SCSI_STATUS \<longrightarrow> status (snd r) \<in> {SCSI_STATUS_OK, SCSI_STATUS_CHECK_COND})"

lemma answered_simps [simp]:
  "answered (SCSI_STATUS, s) \<longleftrightarrow> status s \<in> {SCSI_STATUS_OK, SCSI_STATUS_CHECK_COND}"
  "answered (SCSI_BUSFREE, s)"
  by (simp_all add: answered_def)

lemma loops_answered:
  "answered (reassign_loop e a n s)" "answered (read6_loop e n s)" "answered (write6_loop e n s)"
  "answered (fatread_loop e n s)"
  by (induction n arbitrary: s) (simp_all add: Let_def case_prod_beta scsi_frame split: option.splits)

lemma modeselect_failed:
  "\<not> fst (modeselect_loop e len buf start s) \<Longrightarrow>
   status (snd (modeselect_loop e len buf start s)) = SCSI_STATUS_CHECK_COND"
  by (induction e len buf start s rule: modeselect_loop.induct)
     (subst (asm) (3) modeselect_loop.simps, subst modeselect_loop.simps, auto simp: Let_def scsi_frame split: if_splits)

lemma auto_start_failed: "\<not> fst (auto_start e s) \<Longrightarrow> status (snd (auto_start e s)) = SCSI_STATUS_CHECK_COND"
  by (auto simp: auto_start_def Let_def case_prod_beta scsi_frame split: if_splits)

lemma modeselect_answered: "answered (scsiCommandModeSelect6 e s)"
  by (simp add: scsiCommandModeSelect6_def Let_def case_prod_beta scsi_frame)
     (auto simp: scsi_frame modeselect_failed)

lemma command_answers:
  assumes "is_command (scsiState s)"
  shows "answered (scsi_dispatch e s)"
  using assms modeselect_answered [of e s] unfolding is_command_def scsi_dispatch_def
  by (cases "scsiState s")
     (simp_all add: command_defs Let_def case_prod_beta scsi_frame loops_answered
       auto_start_failed split: option.splits)

text \<open>Every command of the target ends in one of two ways: it frees the bus, or it goes to the
  status phase with GOOD or CHECK CONDITION as the status byte, never with a stale or other
  value.\<close>

theorem command_outcome:
  assumes "is_command (scsiState s)"
  shows "fst (scsi_dispatch e s) = SCSI_BUSFREE \<or>
    fst (scsi_dispatch e s) = SCSI_STATUS \<and>
      status (snd (scsi_dispatch e s)) \<in> {SCSI_STATUS_OK, SCSI_STATUS_CHECK_COND}"
  using command_ends [OF assms, of e] command_answers [OF assms, of e] by (auto simp: answered_def)

section \<open>Sense data\<close>

text \<open>The sense data of all the units but one.\<close>

definition other_senses :: "nat \<Rightarrow> ('h, 'f) scsi \<Rightarrow> u32 list" where
  "other_senses l s = (requestSenseData s)[l := NO_ERROR]"

lemmas lun_prims [scsi_frame] = frame_prims [THEN frame_lun] frame_read_bytes [THEN frame_lun]
  frame_records [THEN frame_lun] frame_format_defects [THEN frame_lun] frame_modeselect [THEN frame_lun]

lemma sense_prims [scsi_frame]:
  "other_senses l (snd (on_host f s)) = other_senses l s" "other_senses l (snd (on_fs g s)) = other_senses l s"
  "other_senses l (do_host f1 s) = other_senses l s" "other_senses l (do_fs g1 s) = other_senses l s"
  "other_senses l (good s) = other_senses l s" "other_senses l (bad s) = other_senses l s"
  "lun s = l \<Longrightarrow> other_senses l (set_sense c s) = other_senses l s"
  "lun s = l \<Longrightarrow> other_senses l (check_cond c s) = other_senses l s"
  "other_senses l (write_bytes e bs s) = other_senses l s"
  "other_senses l (scsiInformationTransferPhase e p s) = other_senses l s"
  "other_senses l (fcodeClearBuffer s) = other_senses l s"
  "other_senses l (close_read e s) = other_senses l s" "other_senses l (close_write e s) = other_senses l s"
  "other_senses l (close_fat e s) = other_senses l s"
  "other_senses l (s\<lparr>scsiFcodeBuffer := b\<rparr>) = other_senses l s"
  "other_senses l (s\<lparr>scsiFcodeBufferRX := b\<rparr>) = other_senses l s"
  "other_senses l (snd (scsiJukebox n s)) = other_senses l s"
  by (simp_all add: other_senses_def on_host_def on_fs_def do_host_def do_fs_def good_def bad_def set_sense_def
      check_cond_def write_bytes_def scsiInformationTransferPhase_def fcodeClearBuffer_def close_read_def
      close_write_def close_fat_def scsiJukebox_def case_prod_beta lun_def)

lemma sense_auto_start [scsi_frame]: "lun s = l \<Longrightarrow> other_senses l (snd (auto_start e s)) = other_senses l s"
  by (simp add: auto_start_def Let_def case_prod_beta scsi_frame)

lemma sense_read_bytes [scsi_frame]: "other_senses l (snd (read_bytes e n s)) = other_senses l s"
  by (induction n arbitrary: s) (simp_all add: Let_def case_prod_beta scsi_frame)

lemma sense_records [scsi_frame]: "other_senses l (read_records e n s) = other_senses l s"
  by (induction n arbitrary: s) (simp_all add: scsi_frame)

lemma sense_format_defects [scsi_frame]: "other_senses l (format_defects e s) = other_senses l s"
  by (simp add: format_defects_def Let_def case_prod_beta scsi_frame)

lemma sense_reassign [scsi_frame]: "other_senses l (snd (reassign_loop e a n s)) = other_senses l s"
  by (induction n arbitrary: s) (simp_all add: Let_def case_prod_beta scsi_frame)

lemma sense_fatread [scsi_frame]: "other_senses l (snd (fatread_loop e n s)) = other_senses l s"
  by (induction n arbitrary: s) (simp_all add: Let_def case_prod_beta scsi_frame split: option.splits)

lemma sense_read6 [scsi_frame]: "lun s = l \<Longrightarrow> other_senses l (snd (read6_loop e n s)) = other_senses l s"
  by (induction n arbitrary: s) (simp_all add: Let_def case_prod_beta scsi_frame split: option.splits)

lemma sense_write6 [scsi_frame]: "lun s = l \<Longrightarrow> other_senses l (snd (write6_loop e n s)) = other_senses l s"
  by (induction n arbitrary: s) (simp_all add: Let_def case_prod_beta scsi_frame)

lemma sense_modeselect [scsi_frame]:
  "lun s = l \<Longrightarrow> other_senses l (snd (modeselect_loop e len buf start s)) = other_senses l s"
  by (induction e len buf start s rule: modeselect_loop.induct)
     (subst modeselect_loop.simps, simp add: Let_def scsi_frame)

lemma command_other_senses:
  assumes "is_command (scsiState s)"
  shows "other_senses (lun s) (snd (scsi_dispatch e s)) = other_senses (lun s) s"
  using assms unfolding is_command_def scsi_dispatch_def
  by (cases "scsiState s") (simp_all add: command_defs Let_def case_prod_beta scsi_frame split: option.splits)

lemmas bus_defs = scsiEmulationBusFree_def busfree_select_def scsiEmulationCommand_def
  scsiEmulationStatus_def scsiEmulationMessage_def

lemma sense_kept:
  "requestSenseData (snd (on_host f s)) = requestSenseData s" "requestSenseData (do_host f1 s) = requestSenseData s"
  "requestSenseData (bad s) = requestSenseData s" "requestSenseData (write_bytes e bs s) = requestSenseData s"
  "requestSenseData (scsiInformationTransferPhase e p s) = requestSenseData s"
  "requestSenseData (snd (read_bytes e n s)) = requestSenseData s"
proof -
  show "requestSenseData (snd (read_bytes e n s)) = requestSenseData s"
    by (induction n arbitrary: s) (simp_all add: Let_def case_prod_beta on_host_def)
qed (simp_all add: on_host_def do_host_def bad_def write_bytes_def scsiInformationTransferPhase_def case_prod_beta)

lemma bus_senses:
  assumes "\<not> is_command (scsiState s)"
  shows "requestSenseData (snd (scsi_dispatch e s)) = requestSenseData s"
  using assms unfolding is_command_def scsi_dispatch_def
  by (cases "scsiState s")
     (simp_all add: Let_def case_prod_beta bus_defs sense_kept split: option.splits)

lemma requestSenseData_step:
  "requestSenseData (scsiProcessEmulation e s) = requestSenseData (snd (scsi_dispatch e s))"
  by (simp add: scsiProcessEmulation_def Let_def case_prod_beta do_host_def)

text \<open>Whatever a poll of the emulation does, the sense data of every unit other than the
  addressed one is kept: no command can disturb the error report of another unit.\<close>

theorem sense_confined:
  assumes "i \<noteq> lun s"
  shows "requestSenseData (scsiProcessEmulation e s) ! i = requestSenseData s ! i"
proof (cases "is_command (scsiState s)")
  case True
  have "(requestSenseData (snd (scsi_dispatch e s)))[lun s := NO_ERROR] ! i =
      (requestSenseData s)[lun s := NO_ERROR] ! i"
    using command_other_senses [OF True, of e] by (simp add: other_senses_def)
  with assms show ?thesis by (simp add: requestSenseData_step)
qed (simp add: requestSenseData_step bus_senses)

section \<open>The bus cycle\<close>

lemma scsiState_step: "scsiState (scsiProcessEmulation e s) = fst (scsi_dispatch e s)"
  by (simp add: scsiProcessEmulation_def Let_def case_prod_beta do_host_def)

definition steps_left :: "scsi_state \<Rightarrow> nat" where
  "steps_left st = (case st of SCSI_BUSFREE \<Rightarrow> 0 | SCSI_MESSAGE \<Rightarrow> 1 | SCSI_STATUS \<Rightarrow> 2 | SCSI_COMMAND \<Rightarrow> 4 | _ \<Rightarrow> 3)"

lemma steps_left_command: "is_command st \<Longrightarrow> steps_left st = 3"
  by (cases st) (simp_all add: is_command_def steps_left_def)

lemma decode_command_is_command: "decode_command i b = Some c \<Longrightarrow> is_command c"
  by (auto simp: decode_command_def Let_def is_command_def group0_def group1_def group6_def group6_lvdos_def
      group7_def split: if_splits option.splits)

lemma steps_left_step:
  assumes "scsiState s \<noteq> SCSI_BUSFREE"
  shows "steps_left (scsiState (scsiProcessEmulation e s)) < steps_left (scsiState s)"
proof (cases "is_command (scsiState s)")
  case True
  then show ?thesis
    using command_ends [OF True, of e] by (auto simp: scsiState_step steps_left_command) (auto simp: steps_left_def)
next
  case False
  with assms consider "scsiState s = SCSI_COMMAND" | "scsiState s = SCSI_STATUS" | "scsiState s = SCSI_MESSAGE"
    by (auto simp: is_command_def)
  then show ?thesis
  proof cases
    case 1
    have "fst (scsiEmulationCommand e s) = SCSI_STATUS \<or> is_command (fst (scsiEmulationCommand e s))"
      by (auto simp: scsiEmulationCommand_def Let_def case_prod_beta decode_command_is_command split: option.splits)
    with 1 show ?thesis
      by (auto simp: scsiState_step scsi_dispatch_def steps_left_command) (auto simp: steps_left_def)
  qed (simp_all add: scsiState_step scsi_dispatch_def scsiEmulationStatus_def scsiEmulationMessage_def steps_left_def)
qed

text \<open>C22. From any state of the bus state machine, at most four polls of the emulation bring the
  target back to bus free: no command leaves the bus held.\<close>

theorem bus_cycle_ends: "\<exists>n \<le> 4. scsiState ((scsiProcessEmulation e ^^ n) s) = SCSI_BUSFREE"
proof -
  have "\<exists>n \<le> steps_left (scsiState s). scsiState ((scsiProcessEmulation e ^^ n) s) = SCSI_BUSFREE" for s
  proof (induction "steps_left (scsiState s)" arbitrary: s rule: less_induct)
    case less
    show ?case
    proof (cases "scsiState s = SCSI_BUSFREE")
      case False
      then have lt: "steps_left (scsiState (scsiProcessEmulation e s)) < steps_left (scsiState s)"
        by (rule steps_left_step)
      from less [OF lt] obtain n where "n \<le> steps_left (scsiState (scsiProcessEmulation e s))"
        "scsiState ((scsiProcessEmulation e ^^ n) (scsiProcessEmulation e s)) = SCSI_BUSFREE" by blast
      with lt show ?thesis
        by (intro exI [of _ "Suc n"]) (simp add: funpow_swap1)
    qed (auto intro!: exI [of _ 0])
  qed
  moreover have "steps_left (scsiState s) \<le> 4" by (simp add: steps_left_def split: scsi_state.splits)
  ultimately show ?thesis by (meson le_trans)
qed

end
