(* ===== verification/ScsiInvariant.thy ===== *)
theory ScsiInvariant
  imports FsInvariant ScsiFrame
begin

text \<open>
  The invariant of the SCSI target: the command block and the sense table keep their sizes, the
  addressed unit exists, and the file system below stays well formed, in every state that the main
  loop, the Beeb's resets and the other users of the card can reach.
\<close>

section \<open>The invariant and its preservation by the commands\<close>

text \<open>
  What the target relies on: FatFs reads at most what it is asked for, and the host adapter and
  the F-Code interpreter keep the size of the buffers they are given.
\<close>

definition env_laws :: "('h, 'f) scsi_env \<Rightarrow> bool" where
  "env_laws e \<longleftrightarrow> read_bound (sd e) \<and>
     (\<forall>b h. length (snd (fst (hostadapterPerformWriteDMA (ha e) b h))) = length b) \<and>
     (\<forall>l f tx rx h. length (fst (fst (fcodeWriteBuffer e l f tx rx h))) = length tx \<and>
        length (snd (fst (fcodeWriteBuffer e l f tx rx h))) = length rx)"

definition scsi_wf :: "('h, 'f) scsi \<Rightarrow> bool" where
  "scsi_wf s \<longleftrightarrow> fs_wf (fs s) \<and> length (cdb s) = 10 \<and> lun s < MAX_LUNS \<and>
     length (requestSenseData s) = MAX_LUNS \<and> length (scsiFcodeBuffer s) = 256 \<and>
     length (scsiFcodeBufferRX s) = 256 \<and> scsiEmulationBusFreestate s \<le> 1"

named_theorems scsi_inv "what keeps the invariant of the SCSI target"

lemma scsi_wfD [scsi_inv]:
  assumes "scsi_wf s"
  shows "fs_wf (fs s)" "lun s < MAX_LUNS" "length (cdb s) = 10"
  using assms by (simp_all add: scsi_wf_def)

lemma wf_prims [scsi_inv]:
  "scsi_wf (snd (on_host f s)) = scsi_wf s" "scsi_wf (do_host f1 s) = scsi_wf s"
  "scsi_wf (good s) = scsi_wf s" "scsi_wf (bad s) = scsi_wf s" "scsi_wf (set_sense c s) = scsi_wf s"
  "scsi_wf (check_cond c s) = scsi_wf s" "scsi_wf (write_bytes e bs s) = scsi_wf s"
  "scsi_wf (scsiInformationTransferPhase e p s) = scsi_wf s" "scsi_wf (fcodeClearBuffer s) = scsi_wf s"
  by (simp_all add: scsi_wf_def on_host_def do_host_def good_def bad_def set_sense_def check_cond_def
      write_bytes_def scsiInformationTransferPhase_def fcodeClearBuffer_def case_prod_beta lun_def)

lemma wf_on_fs [scsi_inv]: "scsi_wf s \<Longrightarrow> fs_wf (snd (g (fs s))) \<Longrightarrow> scsi_wf (snd (on_fs g s))"
  by (simp add: scsi_wf_def on_fs_def case_prod_beta lun_def)

lemma wf_do_fs [scsi_inv]: "scsi_wf s \<Longrightarrow> fs_wf (g (fs s)) \<Longrightarrow> scsi_wf (do_fs g s)"
  by (simp add: scsi_wf_def do_fs_def lun_def)

lemma wf_derived [scsi_inv]:
  "scsi_wf s \<Longrightarrow> scsi_wf (close_read e s)" "scsi_wf s \<Longrightarrow> scsi_wf (close_write e s)"
  "scsi_wf s \<Longrightarrow> scsi_wf (close_fat e s)" "scsi_wf s \<Longrightarrow> scsi_wf (snd (auto_start e s))"
  "scsi_wf s \<Longrightarrow> scsi_wf (snd (scsiJukebox n s))"
  by (simp_all add: close_read_def close_write_def close_fat_def auto_start_def scsiJukebox_def Let_def
      case_prod_beta scsi_inv fs_inv scsi_frame)

lemma wf_read_bytes [scsi_inv]: "scsi_wf (snd (read_bytes e n s)) = scsi_wf s"
  by (induction n arbitrary: s) (simp_all add: Let_def case_prod_beta scsi_inv)

lemma wf_records [scsi_inv]: "scsi_wf (read_records e n s) = scsi_wf s"
  by (induction n arbitrary: s) (simp_all add: scsi_inv)

lemma wf_format_defects [scsi_inv]: "scsi_wf (format_defects e s) = scsi_wf s"
  by (simp add: format_defects_def Let_def case_prod_beta scsi_inv)

lemma wf_reassign [scsi_inv]: "scsi_wf (snd (reassign_loop e a n s)) = scsi_wf s"
  by (induction n arbitrary: s) (simp_all add: Let_def case_prod_beta scsi_inv)

lemma wf_fatread [scsi_inv]: "scsi_wf s \<Longrightarrow> scsi_wf (snd (fatread_loop e n s))"
  by (induction n arbitrary: s) (simp_all add: Let_def case_prod_beta scsi_inv fs_inv split: option.splits)

lemma wf_read6 [scsi_inv]: "scsi_wf s \<Longrightarrow> read_bound (sd e) \<Longrightarrow> scsi_wf (snd (read6_loop e n s))"
  by (induction n arbitrary: s) (simp_all add: Let_def case_prod_beta scsi_inv fs_inv split: option.splits)

lemma fs_prims:
  "fs (snd (on_host f s)) = fs s" "fs (do_host f1 s) = fs s" "fs (good s) = fs s" "fs (bad s) = fs s"
  "fs (set_sense c s) = fs s" "fs (check_cond c s) = fs s" "fs (write_bytes e bs s) = fs s"
  "fs (scsiInformationTransferPhase e p s) = fs s" "fs (fcodeClearBuffer s) = fs s"
  "fs (snd (on_fs g s)) = snd (g (fs s))" "fst (on_fs g s) = fst (g (fs s))" "fs (do_fs g1 s) = g1 (fs s)"
  by (simp_all add: on_host_def do_host_def good_def bad_def set_sense_def check_cond_def
      write_bytes_def scsiInformationTransferPhase_def fcodeClearBuffer_def on_fs_def do_fs_def case_prod_beta)

lemma wf_write6 [scsi_inv]:
  "scsi_wf s \<Longrightarrow> unat (currentBufferSector (fs s)) < 64 \<Longrightarrow> scsi_wf (snd (write6_loop e n s))"
  by (induction n arbitrary: s)
     (simp_all add: Let_def case_prod_beta scsi_inv fs_prims scsi_frame WriteNextSector_wf)

lemma open_write_cursor:
  "fst (filesystemOpenLunForWrite ops l a n s) \<Longrightarrow>
   currentBufferSector (snd (filesystemOpenLunForWrite ops l a n s)) = 0"
  by (auto simp: filesystemOpenLunForWrite_def Let_def split: prod.splits if_splits)

lemma length_read_bytes [scsi_inv]: "length (fst (read_bytes e n s)) = n"
  by (induction n arbitrary: s) (simp_all add: Let_def case_prod_beta)

lemma wf_modeselect [scsi_inv]:
  "scsi_wf s \<Longrightarrow> length buf = unat len \<Longrightarrow> scsi_wf (snd (modeselect_loop e len buf start s))"
proof (induction e len buf start s rule: modeselect_loop.induct)
  case (1 e len buf start s)
  show ?case
    using 1(2,3)
    by (subst modeselect_loop.simps) (simp add: Let_def scsi_inv fs_inv scsi_frame WriteModePageData_wf 1(1))
qed

lemma wf_fcode_buffers [scsi_inv]:
  "scsi_wf s \<Longrightarrow> length b = 256 \<Longrightarrow> scsi_wf (s\<lparr>scsiFcodeBuffer := b\<rparr>)"
  "scsi_wf s \<Longrightarrow> length b = 256 \<Longrightarrow> scsi_wf (s\<lparr>scsiFcodeBufferRX := b\<rparr>)"
  by (simp_all add: scsi_wf_def lun_def)

lemma buffers_prims:
  "scsiFcodeBuffer (snd (on_host f s)) = scsiFcodeBuffer s"
  "scsiFcodeBuffer (scsiInformationTransferPhase e p s) = scsiFcodeBuffer s"
  "scsiFcodeBufferRX (snd (on_host f s)) = scsiFcodeBufferRX s"
  "scsiFcodeBufferRX (scsiInformationTransferPhase e p s) = scsiFcodeBufferRX s"
  "host (s\<lparr>scsiFcodeBuffer := b\<rparr>) = host s"
  by (simp_all add: on_host_def scsiInformationTransferPhase_def do_host_def case_prod_beta)

lemma wf_write_fcode:
  assumes "env_laws e" "scsi_wf s"
  shows "scsi_wf (snd (scsiWriteFCode e s))"
proof -
  have b: "length (scsiFcodeBuffer s) = 256" "length (scsiFcodeBufferRX s) = 256"
    using assms(2) by (simp_all add: scsi_wf_def)
  have on: "fst (on_host f t) = fst (f (host t))" for f :: "'a \<Rightarrow> 'c \<times> 'a" and t :: "('a, 'b) scsi"
    by (simp add: on_host_def case_prod_beta)
  show ?thesis
    using assms b
    by (simp add: scsiWriteFCode_def Let_def case_prod_beta scsi_inv scsi_frame on buffers_prims env_laws_def)
qed

lemma wf_write6_command:
  assumes "scsi_wf s"
  shows "scsi_wf (snd (scsiCommandWrite6 e s))"
  using assms by (simp add: scsiCommandWrite6_def Let_def case_prod_beta scsi_inv fs_inv fs_prims open_write_cursor)

lemma wf_case:
  assumes "scsi_wf (snd m)" "\<And>x t. m = (x, t) \<Longrightarrow> scsi_wf t \<Longrightarrow> scsi_wf (snd (k x t))"
  shows "scsi_wf (snd (case m of (x, t) \<Rightarrow> k x t))"
  using assms by (cases m) auto

lemma read_bytes_length: "read_bytes e n s = (b, t) \<Longrightarrow> length b = n"
  using length_read_bytes [of e n s] by simp

lemma wf_modeselect_command:
  assumes "scsi_wf s"
  shows "scsi_wf (snd (scsiCommandModeSelect6 e s))"
  unfolding scsiCommandModeSelect6_def Let_def using assms
  by (auto simp: scsi_inv fs_inv read_bytes_length WriteModePageData_wf intro!: wf_case)

lemma command_wf:
  assumes "env_laws e" "scsi_wf s" "is_command (scsiState s)"
  shows "scsi_wf (snd (scsi_dispatch e s))"
  using assms wf_write_fcode [OF assms(1,2)] wf_write6_command [OF assms(2), of e]
    wf_modeselect_command [OF assms(2), of e]
  unfolding is_command_def scsi_dispatch_def
  by (cases "scsiState s")
     (simp_all add: command_defs Let_def case_prod_beta scsi_inv fs_inv scsi_frame env_laws_def split: option.splits)

section \<open>Bus states\<close>

lemma transformed_lun_mod:
  "unat (ucast (drop_bit 5 (w AND 0x1E0)) :: u8) = unat w div 32 mod 16" for w :: u32
proof -
  have "drop_bit 5 (w AND 0x1E0) = take_bit 4 (drop_bit 5 w)"
    by (simp add: drop_bit_and take_bit_eq_mask mask_numeral)
  moreover have "unat (take_bit 4 (drop_bit 5 w)) = unat w div 32 mod 16"
    by (simp only: unat_drop_bit_eq unsigned_take_bit_eq) (simp add: take_bit_eq_mod drop_bit_eq_div)
  moreover have "unat w div 32 mod 16 < 256" by simp
  ultimately show ?thesis by (simp add: unsigned_ucast_eq take_bit_nat_eq_self)
qed

lemma scsiTransformLUNid_mod:
  "unat (scsiTransformLUNid i l) div 32 mod 16 =
    (if i = 2 then 1 else if i = 4 then 2 else if i = 8 then 3
     else if i = 16 then 8 + unat l div 32 else unat l div 32)"
proof -
  have small: "unat (ucast l AND 0x1F :: u32) < 32"
    using word_and_le1 [of "ucast l :: u32" "0x1F"] by (simp add: word_le_nat_alt)
  have or_add: "x OR (ucast l AND 0x1F :: u32) = x + (ucast l AND 0x1F)" if "x AND 0x1F = 0" for x :: u32
    using that and.left_commute [of x "ucast l" "0x1F"] by (intro disjunctive_add_eq_or [symmetric]) simp
  have lo: "unat (x OR (ucast l AND 0x1F :: u32)) div 32 mod 16 = unat x div 32"
     if "x = 32 \<or> x = 64 \<or> x = 96" for x
  proof -
    have "x AND 0x1F = 0" using that by auto
    then have "unat (x OR (ucast l AND 0x1F :: u32)) = unat x + unat (ucast l AND 0x1F :: u32)"
      using small that by (auto simp: or_add unat_plus_if')
    then show ?thesis using small that by auto
  qed
  have hi: "unat (ucast l OR 256 :: u32) = unat l + 256"
  proof -
    have "ucast l AND 256 = (0 :: u32)"
    proof (rule bit_eqI)
      fix n
      have "bit (256 :: u32) n \<longleftrightarrow> n = 8" using bit_exp_iff [of 8 n, where 'a = u32] by auto
      then show "bit (ucast l AND 256 :: u32) n = bit 0 n" by (auto simp: bit_simps)
    qed
    then have "ucast l OR 256 = (ucast l + 256 :: u32)" by (simp add: disjunctive_add_eq_or)
    then show ?thesis supply unat_u8_less [simp del] using unat_u8_less [of l]
      by (simp add: unat_plus_if')
  qed
  have "unat l div 32 < 8" using unat_u8_less [of l] by linarith
  then show ?thesis
    using lo [of 32] lo [of 64] lo [of 96] hi by (auto simp: scsiTransformLUNid_def)
qed
lemma transformed_lun:
  "unat (ucast (drop_bit 5 (scsiTransformLUNid i l AND 0x1E0)) :: u8) < MAX_LUNS"
  by (simp only: transformed_lun_mod) (simp add: MAX_LUNS_def)

lemma wf_bus_fields [scsi_inv]:
  "scsi_wf (s\<lparr>scsiHostID := i\<rparr>) = scsi_wf s" "scsi_wf (s\<lparr>scsiState := st\<rparr>) = scsi_wf s"
  "scsi_wf s \<Longrightarrow> b \<le> 1 \<Longrightarrow> scsi_wf (s\<lparr>scsiEmulationBusFreestate := b\<rparr>)"
  by (simp_all add: scsi_wf_def lun_def)

lemma wf_command_block [scsi_inv]:
  "scsi_wf s \<Longrightarrow> length c = 10 \<Longrightarrow> unat t < MAX_LUNS \<Longrightarrow> scsi_wf (s\<lparr>cdb := c, targetLUN := t\<rparr>)"
  by (simp add: scsi_wf_def lun_def)

lemma command_phase_wf:
  assumes "scsi_wf s"
  shows "scsi_wf (snd (scsiEmulationCommand e s))"
proof -
  have len: "length ((b # c # tl bs) @ drop (cdb_length b) (cdb t)) = 10"
    if "scsi_wf t" "length bs = cdb_length b - Suc 0" for t :: "('a, 'b) scsi" and b c bs
    using that by (simp add: scsi_inv cdb_length_def)
  have block: "scsi_wf (t\<lparr>cdb := (b # c # tl bs) @ drop (cdb_length b) (cdb t),
        targetLUN := ucast (drop_bit 5 (scsiTransformLUNid i l AND 0x1E0))\<rparr>)"
    if "scsi_wf t" "length bs = cdb_length b - Suc 0" for t :: "('a, 'b) scsi" and b c bs i l
    by (intro wf_command_block len that transformed_lun)
  show ?thesis
    unfolding scsiEmulationCommand_def Let_def
    by (intro wf_case) (use assms in \<open>auto simp: scsi_inv read_bytes_length block [simplified] split: option.split\<close>)
qed

lemma bus_wf:
  assumes "scsi_wf s" "\<not> is_command (scsiState s)"
  shows "scsi_wf (snd (scsi_dispatch e s))"
  using assms command_phase_wf [OF assms(1), of e] unfolding is_command_def scsi_dispatch_def
  by (cases "scsiState s")
     (simp_all add: Let_def case_prod_beta scsiEmulationBusFree_def busfree_select_def
       scsiEmulationStatus_def scsiEmulationMessage_def scsi_inv)

lemma process_wf:
  assumes "env_laws e" "scsi_wf s"
  shows "scsi_wf (scsiProcessEmulation e s)"
  using command_wf [OF assms] bus_wf [OF assms(2), of e]
  by (auto simp: scsiProcessEmulation_def Let_def case_prod_beta scsi_inv)

section \<open>Reachable states\<close>

text \<open>
  The variables at power on: zero, except for the buffers that the start-up code does not clear.
\<close>

definition geometry_zero :: HDGeometry where
  "geometry_zero = \<lparr>BlockSize = 0, Cylinders = 0, Heads = 0, SectorsPerTrack = 0, Interleave = 0\<rparr>"

definition filesystem_power_on :: "u8 list \<Rightarrow> string \<Rightarrow> 'f \<Rightarrow> 'f filesystem" where
  "filesystem_power_on buf dir c = \<lparr>fsMountState = False, lunDirectory = 0, lunDirectoryVFS = 0,
     fsLunStatus = replicate MAX_LUNS False, fsLunGeometry = replicate MAX_LUNS geometry_zero,
     keyvalues = replicate MAX_LUNS (replicate NUM_KEYS kv_empty), fatDirectory = dir,
     sectorBuffer = buf, sectorsInBuffer = 0, currentBufferSector = 0, sectorsRemaining = 0,
     hostLockMask = 0, hostRevokeMask = 0, card = c\<rparr>"

definition scsi_power_on :: "'f filesystem \<Rightarrow> 'h \<Rightarrow> ('h, 'f) scsi" where
  "scsi_power_on f h = \<lparr>cdb = replicate 10 0, targetLUN = 0, status = 0,
     requestSenseData = replicate MAX_LUNS 0, scsiState = SCSI_BUSFREE, scsiHostID = 0, ourscsiid = 0,
     scsiEmulationBusFreestate = 0, scsiFcodeBuffer = replicate 256 0,
     scsiFcodeBufferRX = replicate 256 0, fs = f, host = h\<rparr>"

lemma filesystem_power_on_wf: "length buf = 16384 \<Longrightarrow> fs_wf (filesystem_power_on buf dir c)"
  by (auto simp: fs_wf_def fs_shape_def filesystem_power_on_def SECTOR_BUFFER_LENGTH_def kvs_ok_def kv_ok_def
      kv_empty_def NUM_KEYS_def length_scsiattributes)

text \<open>
  What happens to the target: the main loop runs a step of the emulation; the Beeb resets, or
  writes the jukebox register; the FAT, MTP and web services mount, dismount, lock and unlock; and
  the outside world moves on.
\<close>

inductive scsi_step :: "('h, 'f) scsi_env \<Rightarrow> ('h, 'f) scsi \<Rightarrow> ('h, 'f) scsi \<Rightarrow> bool" for e where
  emulate: "scsi_step e s (scsiProcessEmulation e s)"
| reset: "scsi_step e s (do_fs (filesystemReset (sd e)) (scsiReset scsiid s))"
| jukebox: "scsi_step e s (snd (scsiJukebox n (do_fs (filesystemReset (sd e)) s)))"
| mount: "scsi_step e s (snd (on_fs (filesystemMount (sd e)) s))"
| dismount: "scsi_step e s (snd (on_fs (filesystemDismount (sd e)) s))"
| host_lock: "scsi_step e s (do_fs (filesystemHostLockLun l b) s)"
| bus_moves: "scsi_step e s (s\<lparr>host := h\<rparr>)"
| card_moves: "scsi_step e s (s\<lparr>fs := (fs s)\<lparr>card := c\<rparr>\<rparr>)"

inductive scsi_reachable :: "('h, 'f) scsi_env \<Rightarrow> ('h, 'f) scsi \<Rightarrow> bool" for e where
  power_on: "length buf = 16384 \<Longrightarrow>
     scsi_reachable e (scsi_power_on (filesystemInitialise scsijuke vfsjuke (filesystem_power_on buf dir c)) h)"
| step: "scsi_reachable e s \<Longrightarrow> scsi_step e s s' \<Longrightarrow> scsi_reachable e s'"

lemma scsi_step_wf:
  assumes "scsi_step e s s'" "env_laws e" "scsi_wf s"
  shows "scsi_wf s'"
  using assms
proof (cases rule: scsi_step.cases)
  case (reset scsiid)
  have "scsi_wf (scsiReset scsiid s)"
    using assms(3) by (simp add: scsi_wf_def scsiReset_def fcodeClearBuffer_def lun_def)
  with reset show ?thesis by (simp add: scsi_inv fs_inv)
next
  case (jukebox n)
  have "scsi_wf (do_fs (filesystemReset (sd e)) s)" using assms(3) by (simp add: scsi_inv fs_inv)
  with jukebox show ?thesis by (simp add: wf_derived)
next
  case (bus_moves h) with assms(3) show ?thesis by (simp add: scsi_wf_def lun_def)
next
  case (card_moves c) with assms(3) show ?thesis by (simp add: scsi_wf_def lun_def)
qed (simp_all add: process_wf scsi_inv fs_inv)

text \<open>C6. Every state of the disc target that the emulation, resets, jukebox changes, mounts, host
  locks and the outside world can reach from power on is well formed: sixteen units with their
  geometry, status and key values, a ten byte command block, the two F-code buffers and the
  sector buffer at their sizes; a stored hexadecimal value has at least the bytes its key allows,
  a text value has room for its terminator behind its length, an integer value has four bytes.\<close>

theorem scsi_reachable_wf:
  assumes "scsi_reachable e s" "env_laws e"
  shows "scsi_wf s"
  using assms
proof (induction rule: scsi_reachable.induct)
  case (power_on buf scsijuke vfsjuke dir c h)
  then have "fs_wf (filesystemInitialise scsijuke vfsjuke (filesystem_power_on buf dir c))"
    by (simp add: filesystem_power_on_wf Initialise_wf)
  then show ?case by (simp add: scsi_wf_def scsi_power_on_def lun_def MAX_LUNS_def)
qed (rule scsi_step_wf)

end
