(* ===== verification/ScsiProps.thy ===== *)
theory ScsiProps
  imports ScsiInvariant
begin

text \<open>
  The functional properties of the SCSI commands: which unit a command block addresses, how errors
  are reported, which units cannot be written, the jukebox, and the block address arithmetic.
\<close>

section \<open>Units and errors\<close>

text \<open>What a sequence of bytes written to the bus does to the host.\<close>

definition bus_bytes :: "('h, 'f) scsi_env \<Rightarrow> u8 list \<Rightarrow> 'h \<Rightarrow> 'h" where
  "bus_bytes e bs h = fold (hostadapterWriteByte (ha e)) bs h"

text \<open>The unit that a host identity and the second byte of a command block address.\<close>

definition addressed_unit :: "u8 \<Rightarrow> u8 \<Rightarrow> nat" where
  "addressed_unit hostid b1 = (if hostid = 2 then 1 else if hostid = 4 then 2 else if hostid = 8 then 3
     else if hostid = 16 then 8 + unat b1 div 32 else unat b1 div 32)"

lemma addressed_unit_word:
  "unat (ucast (drop_bit 5 (scsiTransformLUNid i b AND 0x1E0)) :: u8) = addressed_unit i b"
  by (simp only: transformed_lun_mod scsiTransformLUNid_mod addressed_unit_def)

text \<open>After the command phase the target addresses the unit that the LUN bits of the second
  command byte name, shifted into the VFS half of the unit table exactly when the host selected
  with the VFS id.\<close>

theorem lun_after_command:
  assumes "on_host (hostadapterReadByte (ha e)) (scsiInformationTransferPhase e ITPHASE_COMMAND s) = (b0, s1)"
    and "on_host (hostadapterReadByte (ha e)) s1 = (b1, s2)"
  shows "lun (snd (scsiEmulationCommand e s)) = addressed_unit (scsiHostID s) b1"
proof -
  have id: "scsiHostID (snd (read_bytes e n t)) = scsiHostID t" for n t
    using frame_read_bytes [of e n t] by (simp add: command_frame_def)
  have "scsiHostID s1 = scsiHostID s"
    using assms(1) by (auto simp: on_host_def scsiInformationTransferPhase_def do_host_def split: prod.splits)
  moreover have "fst (read_bytes e (cdb_length b0 - 1) s1) = b1 # fst (read_bytes e (cdb_length b0 - 2) s2)"
    using assms(2) by (cases "cdb_length b0 - 1") (auto simp: cdb_length_def numeral_eq_Suc Let_def case_prod_beta split: if_splits)
  ultimately have "lun (snd (scsiEmulationCommand e s)) =
      unat (ucast (drop_bit 5 (scsiTransformLUNid (scsiHostID s) b1 AND 0x1E0)) :: u8)"
    using assms(1) by (simp add: scsiEmulationCommand_def Let_def case_prod_beta id lun_def bad_def split: option.split)
  then show ?thesis by (simp only: addressed_unit_word)
qed

section \<open>Write protection\<close>

text \<open>With the write protection option set, the data phase of WRITE(6) takes its blocks and
  reports GOOD and leaves the file system, card and images exactly as they were.\<close>

theorem write6_loop_protected:
  assumes "\<And>c. config_beeb_write_protected (sd e) c" "\<And>h. \<not> fst (hostadapterReadResetFlag (ha e) h)"
  shows "fst (write6_loop e n s) = SCSI_STATUS \<and> status (snd (write6_loop e n s)) = SCSI_STATUS_OK \<and>
    fs (snd (write6_loop e n s)) = fs s"
proof (induction n arbitrary: s)
  case (Suc n)
  have "fst (on_host (hostadapterReadResetFlag (ha e)) t) = False" for t
    using assms(2) by (simp add: on_host_def case_prod_beta)
  with Suc assms(1) show ?case
    by (simp add: Let_def case_prod_beta fs_prims filesystemWriteNextSector_def)
qed (simp add: good_def)

section \<open>MODE SENSE\<close>

text \<open>MODE SENSE never sends more than the allocation length of its command, nor more than
  header, descriptor and page hold: with a non-empty header it sends exactly the smaller of the
  two.\<close>

theorem length_mode_sense_bytes:
  assumes "0 < req" "1 \<le> snd hdr"
  shows "length (mode_sense_bytes page req hdr lba mode) = min (unat req) (snd hdr + snd lba + snd mode)"
proof -
  define n where "n = unat req"
  have "1 \<le> n" using assms(1) by (simp add: word_less_nat_alt n_def)
  then show ?thesis
    using assms(2) unfolding mode_sense_bytes_def Let_def n_def [symmetric] by (auto simp: min_def)
qed

section \<open>Jukebox\<close>

lemma stop_lun_status:
  "fsLunStatus (snd (filesystemSetLunStatus ops l False s)) = (fsLunStatus s)[l := False]"
proof (cases "fsLunStatus s ! l")
  case False
  then show ?thesis using list_update_id [of "fsLunStatus s" l] by (simp add: filesystemSetLunStatus_def)
qed (simp add: filesystemSetLunStatus_def lun_status_set_def release_keys_def case_prod_beta Let_def)

lemma stop_all_status:
  "fsLunStatus (fold (\<lambda>l s. release_keys l (snd (filesystemSetLunStatus ops l False s))) ls s) =
   map (\<lambda>i. if i \<in> set ls then False else fsLunStatus s ! i) [0..<length (fsLunStatus s)]"
proof (induction ls arbitrary: s)
  case (Cons l ls)
  have "fsLunStatus (release_keys l (snd (filesystemSetLunStatus ops l False s))) = (fsLunStatus s)[l := False]"
    by (simp add: release_keys_def stop_lun_status)
  then show ?case by (auto simp: Cons.IH nth_list_update)
qed (simp add: map_nth)

lemma dismount_stops_all:
  assumes "fsMountState s" "l < MAX_LUNS" "length (fsLunStatus s) = MAX_LUNS"
  shows "\<not> filesystemReadLunStatus l (snd (filesystemDismount ops s))" "\<not> fsMountState (snd (filesystemDismount ops s))"
  using assms
  by (auto simp: filesystemDismount_def Let_def case_prod_beta filesystemReadLunStatus_def stop_all_status)

lemma reset_stops_all:
  assumes "fsMountState s" "l < MAX_LUNS" "length (fsLunStatus s) = MAX_LUNS"
  shows "\<not> filesystemReadLunStatus l (filesystemReset ops s)"
  using dismount_stops_all(1) [of "s\<lparr>fatDirectory := ''/Transfer''\<rparr>" l ops] assms
  by (auto simp: filesystemReset_def filesystemMount_def filesystemReadLunStatus_def case_prod_beta Let_def)

lemma jukebox_needs_stopped_units:
  "fst (scsiJukebox n s) \<longleftrightarrow> (\<forall>l < MAX_LUNS. \<not> filesystemReadLunStatus l (fs s))"
  by (auto simp: scsiJukebox_def list_ex_iff)


section \<open>Block addresses\<close>

text \<open>Reading a big-endian number off the bus.\<close>

definition be_nat :: "u8 list \<Rightarrow> nat" where
  "be_nat bs = foldl (\<lambda>n b. n * 256 + unat b) 0 bs"

lemma be_nat_be32: "be_nat (be32_bytes w) = unat w"
proof -
  have "unat w div 16777216 < 256" using u32_less [of w] by (simp add: less_mult_imp_div_less)
  then show ?thesis
    using split4 [OF u32_less, of w]
    by (simp add: be_nat_def be32_bytes_def unat_byte0 drop_bit_eq_div unat_div_distrib)
qed

lemma chs_bytes_fields:
  assumes "unat c < 16777216" "unat h < 256"
  shows "be_nat (take 3 (chs_bytes c h b)) = unat c" "be_nat (take 1 (drop 3 (chs_bytes c h b))) = unat h"
    "be_nat (drop 4 (chs_bytes c h b)) = unat b"
  using split3 [OF assms(1)] split4 [OF u32_less, of b] assms(2)
  by (simp_all only: be_nat_def chs_bytes_def byte_masks) (simp_all add: unat_byte0 drop_bit_eq_div unat_div_distrib)


text \<open>The inverse of TRANSLATE: what the host computes from the eight bytes.\<close>

definition chs_lba :: "nat \<Rightarrow> nat \<Rightarrow> nat \<Rightarrow> u8 list \<Rightarrow> nat" where
  "chs_lba hpc spt bs r = (be_nat (take 3 r) * hpc + be_nat (take 1 (drop 3 r))) * spt + be_nat (drop 4 r) div bs - 1"

lemma chs_inverse:
  fixes lba hpc spt :: nat
  assumes "0 < hpc" "0 < spt"
  shows "(lba div (hpc * spt) * hpc + lba div spt mod hpc) * spt + (lba mod spt + 1) - 1 = lba"
proof -
  have "lba div (hpc * spt) * hpc + lba div spt mod hpc = lba div spt"
    by (metis div_mult2_eq div_mult_mod_eq mult.commute)
  then show ?thesis by simp
qed

lemma translate_words:
  fixes lba hpc spt bs :: u32
  assumes "unat lba < 2 ^ 21" "0 < unat hpc" "unat hpc < 256" "0 < unat spt" "unat spt < 65536"
    "0 < unat bs" "unat bs < 65536"
  shows "chs_lba (unat hpc) (unat spt) (unat bs)
     (chs_bytes (lba div (hpc * spt)) ((lba div spt) mod hpc) (((lba mod spt) + 1) * bs)) = unat lba"
proof -
  have "unat hpc * unat spt < 256 * 65536" using assms by (intro mult_strict_mono) auto
  then have m: "unat (hpc * spt) = unat hpc * unat spt" by (simp add: unat_mult_lem [THEN iffD1])
  have c: "unat (lba div (hpc * spt)) = unat lba div (unat hpc * unat spt)"
    by (simp add: unat_div_distrib m)
  have h: "unat ((lba div spt) mod hpc) = unat lba div unat spt mod unat hpc"
    by (simp add: unat_div_distrib unat_mod_distrib)
  have r: "unat lba mod unat spt < unat spt" using assms(4) by (rule mod_less_divisor)
  then have r1: "unat (lba mod spt + 1) = unat lba mod unat spt + 1"
    using assms(5) by (simp add: unat_mod_distrib unat_plus_if')
  have "(unat lba mod unat spt + 1) * unat bs \<le> 65535 * 65535" 
    using assms r by (intro mult_le_mono) auto
  then have b: "unat ((lba mod spt + 1) * bs) = (unat lba mod unat spt + 1) * unat bs"
    using r1 by (simp add: unat_mult_lem [THEN iffD1])
  have cb: "unat (lba div (hpc * spt)) < 16777216"
    unfolding c by (rule le_less_trans [OF div_le_dividend]) (use assms(1) in simp)
  have hb: "unat ((lba div spt) mod hpc) < 256" unfolding h using assms(2,3) by (meson less_trans mod_less_divisor)
  show ?thesis
    unfolding chs_lba_def chs_bytes_fields [OF cb hb] c h b
    using assms(6) chs_inverse [OF assms(2,4), of "unat lba"] by simp
qed

lemma lba21_bound: "unat (lba21 c) < 2 ^ 21"
proof -
  have "(ucast (c ! 1) AND 0x1F :: u32) = take_bit 5 (ucast (c ! 1))"
    by (simp add: take_bit_eq_mask mask_numeral)
  then have "lba21 c = take_bit 21 (lba21 c)"
    unfolding lba21_def by (intro bit_word_eqI) (auto simp: bit_simps)
  then show ?thesis
    by (metis take_bit_nat_less_exp unsigned_take_bit_eq)
qed

lemma host_bytes:
  "host (good (write_bytes e bs (scsiInformationTransferPhase e ITPHASE_DATAIN s))) =
   bus_bytes e bs (hostadapterWriteDataPhaseFlags (ha e) False False True (host s))"
  by (simp add: good_def write_bytes_def do_host_def scsiInformationTransferPhase_def bus_bytes_def)

text \<open>TRANSLATE on a started unit answers GOOD and sends eight bytes from which cylinder, head
  and byte offset give back exactly the logical block address asked for.\<close>

theorem translate_started:
  assumes "filesystemReadLunStatus (lun s) (fs s)"
    and "filesystemReadLunDescriptor (sd e) (lun s) (fs s) = (True, f)"
    and "0 < filesystemGetheadspercylinder (lun s) f" "0 < filesystemGetLunSPTSize (lun s) f"
    and "0 < filesystemGetLunBlockSize (lun s) f" "filesystemGetLunBlockSize (lun s) f < 65536"
  shows "\<exists>r s'. scsiCommandTranslate e s = (SCSI_STATUS, s') \<and> status s' = SCSI_STATUS_OK \<and>
    host s' = bus_bytes e r (hostadapterWriteDataPhaseFlags (ha e) False False True (host s)) \<and>
    chs_lba (unat (filesystemGetheadspercylinder (lun s) f)) (unat (filesystemGetLunSPTSize (lun s) f))
      (unat (filesystemGetLunBlockSize (lun s) f)) r = unat (lba21 (cdb s))"
proof -
  let ?h = "filesystemGetheadspercylinder (lun s) f" and ?p = "filesystemGetLunSPTSize (lun s) f"
    and ?b = "filesystemGetLunBlockSize (lun s) f" and ?l = "lba21 (cdb s)"
  let ?r = "chs_bytes (?l div (?h * ?p)) ((?l div ?p) mod ?h) ((?l mod ?p + 1) * ?b)"
  have "chs_lba (unat ?h) (unat ?p) (unat ?b) ?r = unat ?l"
    using assms(3-)
    by (intro translate_words lba21_bound)
       (auto simp: word_less_nat_alt filesystemGetheadspercylinder_def filesystemGetLunSPTSize_def unat_u16_u32)
  moreover have "scsiCommandTranslate e s = (SCSI_STATUS, good (write_bytes e ?r
      (scsiInformationTransferPhase e ITPHASE_DATAIN (s\<lparr>fs := f\<rparr>))))"
    using assms(1,2) by (simp add: scsiCommandTranslate_def auto_start_def Let_def on_fs_def lun_def
        scsiInformationTransferPhase_def do_host_def)
  ultimately show ?thesis
    by (intro exI [of _ ?r]) (auto simp: host_bytes, simp add: good_def)
qed

text \<open>VERIFY accepts an address if and only if it is at most the last sector of the unit.\<close>

theorem verify_accepts:
  assumes "filesystemReadLunStatus (lun s) (fs s)" "0 < filesystemGetLunTotalSectors (lun s) (fs s)"
  shows "status (snd (scsiCommandVerify e s)) = SCSI_STATUS_OK \<longleftrightarrow>
    lba32 (cdb s) \<le> filesystemGetLunTotalSectors (lun s) (fs s) - 1"
proof -
  have "lba32 (cdb s) \<le> w - 1 \<longleftrightarrow> \<not> w \<le> lba32 (cdb s)" if "0 < w" for w
    using that unat_sub [of 1 w] by (auto simp: word_le_nat_alt word_less_nat_alt)
  with assms show ?thesis
    by (auto simp: scsiCommandVerify_def scsi_frame SCSI_STATUS_OK_def SCSI_STATUS_CHECK_COND_def)
qed

lemma request_sense_reports:
  assumes "lun s < length (requestSenseData s)"
  shows "\<exists>s'. scsiCommandRequestSense e s = (SCSI_STATUS, s') \<and> status s' = SCSI_STATUS_OK \<and>
    requestSenseData s' ! lun s = NO_ERROR \<and>
    host s' = bus_bytes e (sense_bytes (requestSenseData s ! lun s))
       (hostadapterWriteDataPhaseFlags (ha e) False False True (host s))"
  using assms by (auto simp: scsiCommandRequestSense_def Let_def good_def set_sense_def write_bytes_def do_host_def
      scsiInformationTransferPhase_def bus_bytes_def lun_def)

lemma illegal_sense_bytes:
  "sense_bytes (ILLEGAL_ADDR OR (w AND 0x00FFFFFF)) =
   [0xA1, ucast (drop_bit 16 w AND 0x1F), ucast (drop_bit 8 w), ucast w]"
proof -
  let ?x = "ILLEGAL_ADDR OR (w AND 0x00FFFFFF)"
  have "?x AND 0x1F0000 = w AND 0x1F0000" "?x AND 0x00FF00 = w AND 0x00FF00"
    "?x AND 0x0000FF = w AND 0x0000FF" "?x AND 0xFF000000 = ILLEGAL_ADDR"
    by (simp_all add: bit.conj_disj_distrib2 and.assoc ILLEGAL_ADDR_def)
  then show ?thesis unfolding sense_bytes_def by (simp only: byte_masks) (simp add: ILLEGAL_ADDR_def)
qed

text \<open>C36. A VERIFY beyond the end of a started unit ends in CHECK CONDITION, and the REQUEST SENSE
  that follows sends the four bytes that name the error, illegal address with a valid block
  address, and the offending address.\<close>

theorem bad_address_reported:
  assumes "filesystemReadLunStatus (lun s) (fs s)" "filesystemGetLunTotalSectors (lun s) (fs s) \<le> lba32 (cdb s)"
    and "lun s < length (requestSenseData s)"
    and "lun t = lun s" "requestSenseData t = requestSenseData (snd (scsiCommandVerify e s))"
  shows "status (snd (scsiCommandVerify e s)) = SCSI_STATUS_CHECK_COND \<and>
    host (snd (scsiCommandRequestSense e t)) = bus_bytes e
      [0xA1, ucast (drop_bit 16 (lba32 (cdb s)) AND 0x1F), ucast (drop_bit 8 (lba32 (cdb s))), ucast (lba32 (cdb s))]
      (hostadapterWriteDataPhaseFlags (ha e) False False True (host t))"
proof -
  have "requestSenseData t ! lun t = ILLEGAL_ADDR OR (lba32 (cdb s) AND 0x00FFFFFF)"
    "lun t < length (requestSenseData t)"
    using assms by (simp_all add: scsiCommandVerify_def check_cond_def set_sense_def bad_def lun_def)
  with request_sense_reports [of t e] assms(1,2) show ?thesis
    by (auto simp: illegal_sense_bytes scsiCommandVerify_def scsi_frame)
qed

section \<open>Read-only units\<close>

lemma vfs_write6: "8 \<le> lun s \<Longrightarrow> fst (scsiCommandWrite6 e s) = SCSI_STATUS \<and>
    status (snd (scsiCommandWrite6 e s)) = SCSI_STATUS_CHECK_COND"
  by (auto simp: scsiCommandWrite6_def Let_def case_prod_beta auto_start_failed scsi_frame
      fs_prims filesystemOpenLunForWrite_def)

lemma vfs_format:
  assumes "8 \<le> lun s" "\<And>c. \<not> config_beeb_write_protected (sd e) c"
  shows "fst (scsiCommandFormat e s) = SCSI_STATUS \<and> status (snd (scsiCommandFormat e s)) = SCSI_STATUS_CHECK_COND"
  using assms
  by (auto simp: scsiCommandFormat_def Let_def case_prod_beta scsi_frame fs_prims filesystemFormatLun_def)

lemma vfs_modeselect:
  assumes "8 \<le> lun s" "\<And>c. \<not> config_beeb_write_protected (sd e) c"
  shows "fst (scsiCommandModeSelect6 e s) = SCSI_STATUS \<and> status (snd (scsiCommandModeSelect6 e s)) = SCSI_STATUS_CHECK_COND"
  using assms
  by (simp add: scsiCommandModeSelect6_def Let_def case_prod_beta scsi_frame fs_prims filesystemWriteAttributes_def)
     (auto simp: scsi_frame modeselect_failed)

text \<open>The VFS units are read only: WRITE(6), FORMAT and MODE SELECT addressed to units 8 to 15
  all end in CHECK CONDITION.\<close>

theorem vfs_read_only:
  assumes "8 \<le> lun s" "\<And>c. \<not> config_beeb_write_protected (sd e) c"
    and "scsiState s \<in> {SCSI_WRITE6, SCSI_FORMAT, SCSI_MODESELECT6}"
  shows "fst (scsi_dispatch e s) = SCSI_STATUS \<and> status (snd (scsi_dispatch e s)) = SCSI_STATUS_CHECK_COND"
  using assms(3) vfs_write6 [OF assms(1), of e] vfs_format [of s e, OF assms(1,2)] vfs_modeselect [of s e, OF assms(1,2)]
  by (auto simp: scsi_dispatch_def)

end
