(* ===== verification/FsStream.thy ===== *)
theory FsStream
  imports Filesystem Contracts
begin

text \<open>
  The buffered sector stream of \<open>filesystem.c\<close> against its contract: the 64-sector buffer,
  the clamped seeks and the two-phase growth of a file with a cluster link map are invisible; a
  stream delivers, and stores, exactly the sectors of the image.
\<close>

section \<open>What FatFs promises of an open file\<close>

text \<open>
  A view of a file object: whether it is open and sound, the file's contents, the position, the
  bytes its cluster chain can hold, and the size to which the card lets it grow.  The laws are the
  documented behaviour of FatFs on such a file: a read stops at the end of the file; a write
  transfers everything, except that with a cluster link map attached it stops at the end of the
  cluster chain; a seek past the end extends the file, which a link map does not allow.
\<close>

record 'f file_view =
  fv_ok :: "'f \<Rightarrow> bool"
  fv_data :: "'f \<Rightarrow> u8 list"
  fv_pos :: "'f \<Rightarrow> nat"
  fv_cap :: "'f \<Rightarrow> nat"
  fv_room :: "'f \<Rightarrow> nat"

definition file_shape :: "'f sdcard \<Rightarrow> fil \<Rightarrow> 'f file_view \<Rightarrow> bool" where
  "file_shape ops fp v \<longleftrightarrow> (\<forall>c. fv_ok v c \<longrightarrow> length (fv_data v c) \<le> fv_cap v c \<and>
     fv_pos v c \<le> length (fv_data v c) \<and> length (fv_data v c) \<le> fv_room v c \<and> fv_room v c < 2 ^ 32 \<and>
     f_size ops fp c = of_nat (length (fv_data v c)) \<and> f_tell ops fp c = of_nat (fv_pos v c))"

definition seek_law :: "'f sdcard \<Rightarrow> fil \<Rightarrow> 'f file_view \<Rightarrow> bool" where
  "seek_law ops fp v \<longleftrightarrow> (\<forall>c p. fv_ok v c \<longrightarrow> unat p \<le> fv_room v c \<longrightarrow>
     (unat p \<le> length (fv_data v c) \<or> \<not> cltbl ops fp c) \<longrightarrow>
     (\<exists>c'. f_lseek ops fp p c = (FR_OK, c') \<and> fv_ok v c' \<and> fv_pos v c' = unat p \<and>
        cltbl ops fp c' = cltbl ops fp c \<and> fv_room v c' = fv_room v c \<and>
        length (fv_data v c') = max (length (fv_data v c)) (unat p) \<and>
        take (length (fv_data v c)) (fv_data v c') = fv_data v c))"

definition read_law :: "'f sdcard \<Rightarrow> fil \<Rightarrow> 'f file_view \<Rightarrow> bool" where
  "read_law ops fp v \<longleftrightarrow> (\<forall>c n. fv_ok v c \<longrightarrow>
     (\<exists>c'. f_read ops fp n c = ((FR_OK, take n (drop (fv_pos v c) (fv_data v c))), c') \<and> fv_ok v c' \<and>
        fv_data v c' = fv_data v c \<and> fv_pos v c' = min (fv_pos v c + n) (length (fv_data v c)) \<and>
        fv_room v c' = fv_room v c))"

section \<open>Reading sectors\<close>

text \<open>
  The invariant of the read stream: the sectors that the buffer still holds are sectors
  \<open>k, k + 1, \<dots>\<close> of the image, and the file position is behind them.
\<close>

definition reading :: "'f sdcard \<times> nat \<times> 'f file_view \<Rightarrow> 'f filesystem \<Rightarrow> nat \<Rightarrow> nat \<Rightarrow> bool" where
  "reading = (\<lambda>(ops, lun, v) s k m.
     file_shape ops (LunFil lun) v \<and> seek_law ops (LunFil lun) v \<and> read_law ops (LunFil lun) v \<and>
     fv_ok v (card s) \<and> length (sectorBuffer s) = 16384 \<and>
     unat (sectorsInBuffer s) + unat (sectorsRemaining s) = m \<and>
     (sectorsInBuffer s \<noteq> 0 \<longrightarrow> unat (currentBufferSector s) + unat (sectorsInBuffer s) \<le> 64) \<and>
     fv_pos v (card s) = min (256 * (k + unat (sectorsInBuffer s))) (length (fv_data v (card s))) \<and>
     (\<forall>j < unat (sectorsInBuffer s).
        take 256 (drop (256 * (unat (currentBufferSector s) + j)) (sectorBuffer s)) =
        sector (fv_data v (card s)) (k + j)))"

definition disk_of :: "'f sdcard \<times> nat \<times> 'f file_view \<Rightarrow> 'f filesystem \<Rightarrow> u8 list" where
  "disk_of = (\<lambda>(ops, lun, v) s. fv_data v (card s))"

lemma fill_buffer_reading:
  assumes r: "reading (ops, lun, v) s k (Suc m)" and z: "sectorsInBuffer s = 0"
  shows "\<exists>s'. fill_buffer ops lun s = (True, s') \<and> reading (ops, lun, v) s' k (Suc m) \<and>
    sectorsInBuffer s' \<noteq> 0 \<and> fv_data v (card s') = fv_data v (card s)"
proof -
  define n where "n = (if SECTOR_BUFFER_LENGTH < sectorsRemaining s then SECTOR_BUFFER_LENGTH else sectorsRemaining s)"
  have rem: "unat (sectorsRemaining s) = Suc m" and ok: "fv_ok v (card s)"
    and buf: "length (sectorBuffer s) = 16384"
    and pos: "fv_pos v (card s) = min (256 * k) (length (fv_data v (card s)))"
    using r z by (auto simp: reading_def)
  have n: "unat n = min 64 (Suc m)"
    using rem by (auto simp: n_def SECTOR_BUFFER_LENGTH_def word_less_nat_alt min_def)
  let ?D = "fv_data v (card s)"
  let ?b = "take (unat n * 256) (drop (fv_pos v (card s)) ?D)"
  obtain c where c: "f_read ops (LunFil lun) (unat n * 256) (card s) = ((FR_OK, ?b), c)"
    "fv_ok v c" "fv_data v c = ?D" "fv_pos v c = min (fv_pos v (card s) + unat n * 256) (length ?D)"
    using r ok unfolding reading_def read_law_def prod.case by blast
  have n8: "unat (ucast n :: u8) = unat n" "(ucast (ucast n :: u8) :: u32) = n"
    using n by (simp_all add: unsigned_ucast_eq unsigned_take_bit_eq take_bit_nat_eq_self word_unat_eq_iff)
  have sub: "unat (sectorsRemaining s - n) = Suc m - unat n"
    using n rem by (subst unat_sub) (auto simp: word_le_nat_alt)
  define B where "B = (if length ?b < unat n * 256
     then poke_at (length ?b) (replicate (unat n * 256 - length ?b) 0) (poke_at 0 ?b (sectorBuffer s))
     else poke_at 0 ?b (sectorBuffer s))"
  have B: "B = padded ?D (256 * k) (unat n * 256) @ drop (unat n * 256) (sectorBuffer s)"
    unfolding B_def short_read_padded [OF pos, symmetric] using n buf
    by (auto simp: poke_at_def min_def)
  have slices: "\<forall>j < unat n. take 256 (drop (256 * j) B) = sector ?D (k + j)"
    unfolding B by (simp add: padded_slice sector_def algebra_simps)
  have laws: "file_shape ops (LunFil lun) v" "seek_law ops (LunFil lun) v" "read_law ops (LunFil lun) v"
    using r by (auto simp: reading_def)
  have len: "length B = 16384"
    unfolding B using n buf by simp
  have sum: "unat n + (Suc m - unat n) = Suc m" "unat n \<le> 64"
    using n by simp_all
  have pos': "fv_pos v c = min (256 * (k + unat n)) (length ?D)"
    using c(4) pos by auto
  let ?s = "s\<lparr>card := c, sectorBuffer := B, sectorsInBuffer := ucast n, currentBufferSector := 0,
    sectorsRemaining := sectorsRemaining s - n\<rparr>"
  have "fill_buffer ops lun s = (True, ?s)"
    unfolding B_def by (simp add: fill_buffer_def Let_def c(1) n8 del: length_take length_drop flip: n_def)
  moreover have "reading (ops, lun, v) ?s k (Suc m)"
    unfolding reading_def prod.case using laws c(2) len sum pos' slices
    by (simp add: n8(1) sub c(3))
  moreover have "ucast n \<noteq> (0 :: u8)"
  proof
    assume "ucast n = (0 :: u8)"
    with n8(1) have "unat n = 0" by simp
    with n show False by simp
  qed
  ultimately show ?thesis using c by auto
qed


lemma reading_buffered:
  assumes r: "reading (ops, lun, v) s k (Suc m)" and nz: "sectorsInBuffer s \<noteq> 0"
  shows "sector_at (currentBufferSector s) s = sector (fv_data v (card s)) k"
    "reading (ops, lun, v)
      (s\<lparr>currentBufferSector := currentBufferSector s + 1, sectorsInBuffer := sectorsInBuffer s - 1\<rparr>) (Suc k) m"
proof -
  obtain i where i: "unat (sectorsInBuffer s) = Suc i"
    using nz by (metis not0_implies_Suc unat_0_iff)
  have cur: "unat (currentBufferSector s) + Suc i \<le> 64"
    using r i nz by (auto simp: reading_def)
  have dec: "unat (sectorsInBuffer s - 1) = i"
    using i by (subst unat_sub) (auto simp: word_le_nat_alt)
  have inc: "unat (currentBufferSector s + 1) = Suc (unat (currentBufferSector s))"
    using cur by (simp add: unat_plus_if')
  then have inc': "unat (1 + currentBufferSector s) = Suc (unat (currentBufferSector s))"
    by (simp add: add.commute)
  have sl: "\<forall>j < Suc i. take 256 (drop (256 * (unat (currentBufferSector s) + j)) (sectorBuffer s)) =
      sector (fv_data v (card s)) (k + j)"
    using r i by (auto simp: reading_def)
  then show "sector_at (currentBufferSector s) s = sector (fv_data v (card s)) k"
    by (simp add: All_less_Suc2 sector_at_def mult.commute)
  have "\<forall>j < i. take 256 (drop (256 * Suc (unat (currentBufferSector s) + j)) (sectorBuffer s)) =
      sector (fv_data v (card s)) (Suc (k + j))"
    using sl by (simp add: All_less_Suc2 algebra_simps)
  with r i cur show "reading (ops, lun, v)
      (s\<lparr>currentBufferSector := currentBufferSector s + 1, sectorsInBuffer := sectorsInBuffer s - 1\<rparr>) (Suc k) m"
    by (simp add: reading_def dec inc' ac_simps)
qed

lemma read_next_sector:
  assumes "reading (ops, lun, v) s k (Suc m)"
  shows "\<exists>s'. filesystemReadNextSector ops lun s = (Some (sector (fv_data v (card s)) k), s') \<and>
    reading (ops, lun, v) s' (Suc k) m \<and> fv_data v (card s') = fv_data v (card s)"
proof (cases "sectorsInBuffer s = 0")
  case True
  from fill_buffer_reading [OF assms True] obtain s' where s': "fill_buffer ops lun s = (True, s')"
    "reading (ops, lun, v) s' k (Suc m)" "sectorsInBuffer s' \<noteq> 0" "fv_data v (card s') = fv_data v (card s)"
    by blast
  with reading_buffered [OF s'(2,3)] True show ?thesis
    by (simp add: filesystemReadNextSector_def)
next
  case False
  with reading_buffered [OF assms False] show ?thesis
    by (simp add: filesystemReadNextSector_def)
qed

definition readable :: "'f sdcard \<times> nat \<times> 'f file_view \<Rightarrow> 'f filesystem \<Rightarrow> bool" where
  "readable = (\<lambda>(ops, lun, v) s. file_shape ops (LunFil lun) v \<and> seek_law ops (LunFil lun) v \<and>
     read_law ops (LunFil lun) v \<and> fv_ok v (card s) \<and> length (sectorBuffer s) = 16384)"

lemma open_for_read:
  assumes "readable (ops, lun, v) s" "unat start * 256 < 2 ^ 32"
  shows "\<exists>s'. filesystemOpenLunForRead ops lun start n s = (True, s') \<and>
    reading (ops, lun, v) s' (unat start) (unat n) \<and> fv_data v (card s') = fv_data v (card s)"
proof -
  let ?D = "fv_data v (card s)"
  define p where "p = (if f_size ops (LunFil lun) (card s) < start * 256
     then f_size ops (LunFil lun) (card s) else start * 256)"
  have ok: "fv_ok v (card s)" and sh: "file_shape ops (LunFil lun) v" and sk: "seek_law ops (LunFil lun) v"
    using assms(1) by (auto simp: readable_def)
  have D: "length ?D \<le> fv_room v (card s)" "fv_room v (card s) < 2 ^ 32"
    "f_size ops (LunFil lun) (card s) = of_nat (length ?D)"
    using sh ok by (auto simp: file_shape_def)
  have sz: "unat (of_nat (length ?D) :: u32) = length ?D"
    using D by (simp add: unat_of_nat take_bit_nat_eq_self)
  have st: "unat (start * 256) = unat start * 256"
    using assms(2) unat_mult_lem [of start 256] by simp
  have p: "unat p = min (unat start * 256) (length ?D)"
    unfolding p_def D(3) using sz st by (auto simp: word_less_nat_alt)
  have "unat p \<le> fv_room v (card s)" "unat p \<le> length ?D"
    using p D by auto
  then obtain c where c: "f_lseek ops (LunFil lun) p (card s) = (FR_OK, c)" "fv_ok v c" "fv_pos v c = unat p"
    "length (fv_data v c) = max (length ?D) (unat p)" "take (length ?D) (fv_data v c) = ?D"
    using sk ok unfolding seek_law_def by blast
  have "fv_data v c = ?D"
    using c(4,5) p by simp
  let ?s = "lun_status_set lun True (s\<lparr>card := c, sectorsRemaining := n, sectorsInBuffer := 0\<rparr>)"
  have "filesystemOpenLunForRead ops lun start n s = (True, ?s)"
    using c(1) by (simp add: filesystemOpenLunForRead_def Let_def flip: p_def)
  moreover have "reading (ops, lun, v) ?s (unat start) (unat n)"
    using assms(1) c(2,3) p \<open>fv_data v c = ?D\<close>
    by (simp add: reading_def readable_def lun_status_set_def mult.commute)
  ultimately show ?thesis
    using \<open>fv_data v c = ?D\<close> by (simp add: lun_status_set_def)
qed

lemma poke_at_append:
  "p \<le> length xs \<Longrightarrow> poke_at (p + length a) b (poke_at p a xs) = poke_at p (a @ b) xs"
  by (simp add: poke_at_def ac_simps)

lemma poke_at_Nil [simp]: "poke_at p [] xs = xs"
  by (simp add: poke_at_def)

section \<open>Writing sectors\<close>

definition same_file :: "'f file_view \<Rightarrow> 'f \<Rightarrow> 'f \<Rightarrow> bool" where
  "same_file v c c' \<longleftrightarrow> fv_ok v c' \<and> fv_data v c' = fv_data v c \<and> fv_pos v c' = fv_pos v c \<and>
     fv_room v c' = fv_room v c"

definition write_law :: "'f sdcard \<Rightarrow> fil \<Rightarrow> 'f file_view \<Rightarrow> bool" where
  "write_law ops fp v \<longleftrightarrow> (\<forall>c bs. fv_ok v c \<longrightarrow>
     (let m = (if cltbl ops fp c then min (length bs) (fv_cap v c - fv_pos v c) else length bs) in
      fv_pos v c + m \<le> fv_room v c \<longrightarrow>
      (\<exists>c'. f_write ops fp bs c = ((FR_OK, m), c') \<and> fv_ok v c' \<and>
         fv_data v c' = poke_at (fv_pos v c) (take m bs) (fv_data v c) \<and> fv_pos v c' = fv_pos v c + m \<and>
         cltbl ops fp c' = cltbl ops fp c \<and> fv_room v c' = fv_room v c)))"

definition link_law :: "'f sdcard \<Rightarrow> fil \<Rightarrow> 'f file_view \<Rightarrow> bool" where
  "link_law ops fp v \<longleftrightarrow> (\<forall>c. fv_ok v c \<longrightarrow>
     (\<forall>b. same_file v c (set_cltbl ops fp b c) \<and> cltbl ops fp (set_cltbl ops fp b c) = b) \<and>
     same_file v c (snd (f_linkmap ops fp c)) \<and> same_file v c (snd (f_sync ops fp c)))"

lemma link_lawD:
  assumes "link_law ops fp v" "fv_ok v c"
  shows "same_file v c (set_cltbl ops fp b c)" "cltbl ops fp (set_cltbl ops fp b c) = b"
    "f_linkmap ops fp c = (r, c') \<Longrightarrow> same_file v c c'" "f_sync ops fp c = (r, c') \<Longrightarrow> same_file v c c'"
  using assms by (auto simp: link_law_def dest: spec [of _ c])

lemma link_file_same:
  assumes "link_law ops fp v" "fv_ok v c"
  shows "same_file v c (link_file ops fp c)"
proof -
  obtain r c' where lm: "f_linkmap ops fp (set_cltbl ops fp True c) = (r, c')" by fastforce
  have 1: "same_file v c (set_cltbl ops fp True c)" by (rule link_lawD [OF assms])
  then have 2: "same_file v (set_cltbl ops fp True c) c'"
    using link_lawD(3) [OF assms(1) _ lm] by (simp add: same_file_def)
  then have "same_file v c' (set_cltbl ops fp False c')"
    by (intro link_lawD(1) [OF assms(1)]) (simp add: same_file_def)
  with 1 2 lm show ?thesis
    by (simp add: link_file_def same_file_def)
qed

lemma write_slow:
  assumes "write_law ops fp v" "fv_ok v c" "\<not> cltbl ops fp c" "fv_pos v c + length bs \<le> fv_room v c"
  shows "\<exists>c'. f_write ops fp bs c = ((FR_OK, length bs), c') \<and> fv_ok v c' \<and>
    fv_data v c' = poke_at (fv_pos v c) bs (fv_data v c) \<and> fv_pos v c' = fv_pos v c + length bs \<and>
    fv_room v c' = fv_room v c"
  using assms(1) [unfolded write_law_def, rule_format, of c bs] assms(2-)
  by (auto simp: Let_def)

lemma flush_bytes_ok:
  assumes sh: "file_shape ops fp v" and w: "write_law ops fp v" and l: "link_law ops fp v"
    and ok: "fv_ok v c" and room: "fv_pos v c + length b \<le> fv_room v c"
  shows "\<exists>c'. flush_bytes ops fp b c = (True, c') \<and> fv_ok v c' \<and>
    fv_data v c' = poke_at (fv_pos v c) b (fv_data v c) \<and> fv_pos v c' = fv_pos v c + length b \<and>
    fv_room v c' = fv_room v c"
proof -
  define m where "m = (if cltbl ops fp c then min (length b) (fv_cap v c - fv_pos v c) else length b)"
  have m: "m \<le> length b" by (simp add: m_def)
  have pos: "fv_pos v c \<le> length (fv_data v c)" using sh ok by (auto simp: file_shape_def)
  obtain c1 where c1: "f_write ops fp b c = ((FR_OK, m), c1)" "fv_ok v c1"
    "fv_data v c1 = poke_at (fv_pos v c) (take m b) (fv_data v c)" "fv_pos v c1 = fv_pos v c + m"
    "cltbl ops fp c1 = cltbl ops fp c" "fv_room v c1 = fv_room v c"
    using w [unfolded write_law_def, rule_format, of c b] ok room m unfolding Let_def m_def [symmetric]
    by fastforce
  show ?thesis
  proof (cases "m = length b")
    case True
    with c1 show ?thesis by (simp add: flush_bytes_def)
  next
    case False
    then have fast: "cltbl ops fp c" by (simp add: m_def split: if_splits)
    let ?c = "set_cltbl ops fp False c1"
    have s: "same_file v c1 ?c" "\<not> cltbl ops fp ?c" using l c1(2) by (auto simp: link_law_def)
    then have "fv_ok v ?c" "fv_pos v ?c + length (drop m b) \<le> fv_room v ?c"
      using c1 room m by (auto simp: same_file_def)
    from write_slow [OF w this(1) s(2) this(2)] obtain c2 where c2: "f_write ops fp (drop m b) ?c = ((FR_OK, length (drop m b)), c2)" "fv_ok v c2"
      "fv_data v c2 = poke_at (fv_pos v ?c) (drop m b) (fv_data v ?c)"
      "fv_pos v c2 = fv_pos v ?c + length (drop m b)" "fv_room v c2 = fv_room v ?c"
      by blast
    have len: "length (take m b) = m" using m by simp
    have "fv_data v c2 = poke_at (fv_pos v c) b (fv_data v c)"
      using c2(3) s(1) c1(3,4) poke_at_append [OF pos, of "take m b" "drop m b"] len
      by (simp add: same_file_def)
    then show ?thesis
      using link_file_same [OF l c2(2)] c1 c2 s(1) False fast m
      by (simp add: flush_bytes_def same_file_def)
  qed
qed


definition write_laws :: "'f sdcard \<Rightarrow> fil \<Rightarrow> 'f file_view \<Rightarrow> bool" where
  "write_laws ops fp v \<longleftrightarrow> file_shape ops fp v \<and> seek_law ops fp v \<and> write_law ops fp v \<and>
     link_law ops fp v \<and> (\<forall>c. fv_ok v c \<longrightarrow> \<not> config_beeb_write_protected ops c)"

lemma seek_ok:
  assumes "seek_law ops fp v" "fv_ok v c" "unat p \<le> fv_room v c" "unat p \<le> length (fv_data v c) \<or> \<not> cltbl ops fp c"
  obtains c' where "f_lseek ops fp p c = (FR_OK, c')" "fv_ok v c'" "fv_pos v c' = unat p"
    "fv_room v c' = fv_room v c" "length (fv_data v c') = max (length (fv_data v c)) (unat p)"
    "take (length (fv_data v c)) (fv_data v c') = fv_data v c"
  using assms unfolding seek_law_def by blast

lemma extend_for_write_ok:
  assumes w: "write_laws ops fp v" and ok: "fv_ok v c" and room: "unat p \<le> fv_room v c"
  shows "\<exists>c'. extend_for_write ops fp p c = (True, c') \<and> fv_ok v c' \<and> fv_room v c' = fv_room v c \<and>
    (unat p \<le> length (fv_data v c') \<or> \<not> cltbl ops fp c') \<and>
    length (fv_data v c) \<le> length (fv_data v c') \<and> length (fv_data v c') \<le> max (length (fv_data v c)) (unat p) \<and>
    take (length (fv_data v c)) (fv_data v c') = fv_data v c"
proof (cases "cltbl ops fp c \<and> f_size ops fp c < p")
  case True
  have sh: "file_shape ops fp v" and sk: "seek_law ops fp v" and l: "link_law ops fp v"
    using w by (auto simp: write_laws_def)
  let ?c = "set_cltbl ops fp False c"
  have s: "same_file v c ?c" "\<not> cltbl ops fp ?c" using link_lawD [OF l ok] by auto
  then have "fv_ok v ?c" "unat p \<le> fv_room v ?c" using room by (auto simp: same_file_def)
  from seek_ok [OF sk this disjI2, OF s(2)] obtain c1 where c1: "f_lseek ops fp p ?c = (FR_OK, c1)" "fv_ok v c1"
    "fv_pos v c1 = unat p" "fv_room v c1 = fv_room v ?c"
    "length (fv_data v c1) = max (length (fv_data v ?c)) (unat p)"
    "take (length (fv_data v ?c)) (fv_data v c1) = fv_data v ?c" .
  have lf: "same_file v c1 (link_file ops fp c1)" by (rule link_file_same [OF l c1(2)])
  then have "f_tell ops fp (link_file ops fp c1) = of_nat (unat p)"
    using sh c1 by (auto simp: file_shape_def same_file_def)
  then have "extend_for_write ops fp p c = (True, link_file ops fp c1)"
    using True c1 by (simp add: extend_for_write_def)
  then show ?thesis
    using lf s(1) c1 by (simp add: same_file_def)
next
  case False
  have sh: "file_shape ops fp v" using w by (simp add: write_laws_def)
  then have "length (fv_data v c) < 2 ^ 32" "f_size ops fp c = of_nat (length (fv_data v c))"
    using ok unfolding file_shape_def by (meson le_less_trans)+
  then have "unat p \<le> length (fv_data v c) \<or> \<not> cltbl ops fp c"
    using False by (auto simp: word_less_nat_alt unat_of_nat take_bit_nat_eq_self)
  then show ?thesis using False ok by (auto simp: extend_for_write_def)
qed

text \<open>
  The invariant of the write stream: of the sectors \<open>acc\<close> accepted so far, the first
  \<open>f\<close> are in the file, and the buffer holds the others.
\<close>

definition writing :: "'f sdcard \<times> nat \<times> 'f file_view \<Rightarrow> u8 list \<Rightarrow> nat \<Rightarrow> u8 list list \<Rightarrow> nat \<Rightarrow> 'f filesystem \<Rightarrow> bool" where
  "writing = (\<lambda>(ops, lun, v) base k acc m s.
     write_laws ops (LunFil lun) v \<and> fv_ok v (card s) \<and> length (sectorBuffer s) = 16384 \<and>
     256 * k \<le> length base \<and> (\<forall>b \<in> set acc. length b = 256) \<and>
     256 * (k + length acc + m) \<le> fv_room v (card s) \<and>
     unat (currentBufferSector s) < 64 \<and> unat (currentBufferSector s) \<le> length acc \<and>
     unat (sectorsRemaining s) = unat (currentBufferSector s) + m \<and>
     (m = 0 \<longrightarrow> unat (currentBufferSector s) = 0) \<and>
     (let f = length acc - unat (currentBufferSector s) in
      fv_pos v (card s) = 256 * (k + f) \<and>
      fv_data v (card s) = poke_at (256 * k) (concat (take f acc)) base \<and>
      take (256 * unat (currentBufferSector s)) (sectorBuffer s) = concat (drop f acc)))"

lemma open_for_write:
  assumes w: "write_laws ops (LunFil lun) v" and ok: "fv_ok v (card s)" "length (sectorBuffer s) = 16384"
    and lun: "lun < 8" and room: "256 * (unat start + unat n) \<le> fv_room v (card s)"
  shows "\<exists>s' base. filesystemOpenLunForWrite ops lun start n s = (True, s') \<and>
    writing (ops, lun, v) base (unat start) [] (unat n) s' \<and>
    length base = max (length (fv_data v (card s))) (256 * unat start) \<and>
    take (length (fv_data v (card s))) base = fv_data v (card s)"
proof -
  have sh: "file_shape ops (LunFil lun) v" and sk: "seek_law ops (LunFil lun) v"
    using w by (auto simp: write_laws_def)
  have big: "fv_room v (card s) < 2 ^ 32" using sh ok by (auto simp: file_shape_def)
  then have st: "unat (start * 256) = 256 * unat start"
    using room unat_mult_lem [of start 256] by simp
  then have le: "unat (start * 256) \<le> fv_room v (card s)" using room by simp
  from extend_for_write_ok [OF w ok(1) le] obtain c where
    c: "extend_for_write ops (LunFil lun) (start * 256) (card s) = (True, c)" "fv_ok v c"
    "fv_room v c = fv_room v (card s)" "unat (start * 256) \<le> length (fv_data v c) \<or> \<not> cltbl ops (LunFil lun) c"
    "length (fv_data v (card s)) \<le> length (fv_data v c)"
    "length (fv_data v c) \<le> max (length (fv_data v (card s))) (unat (start * 256))"
    "take (length (fv_data v (card s))) (fv_data v c) = fv_data v (card s)" by blast
  have "unat (start * 256) \<le> fv_room v c" using le c(3) by simp
  from seek_ok [OF sk c(2) this c(4)] obtain c' where
    c': "f_lseek ops (LunFil lun) (start * 256) c = (FR_OK, c')" "fv_ok v c'" "fv_pos v c' = unat (start * 256)"
    "fv_room v c' = fv_room v c" "length (fv_data v c') = max (length (fv_data v c)) (unat (start * 256))"
    "take (length (fv_data v c)) (fv_data v c') = fv_data v c" .
  let ?s = "s\<lparr>card := c', sectorsRemaining := n, currentBufferSector := 0\<rparr>"
  have "filesystemOpenLunForWrite ops lun start n s = (True, ?s)"
    using lun c(1) c'(1) by (simp add: filesystemOpenLunForWrite_def)
  moreover have "writing (ops, lun, v) (fv_data v c') (unat start) [] (unat n) ?s"
    using w ok c c' st room by (simp add: writing_def)
  moreover have "take (length (fv_data v (card s))) (fv_data v c') = fv_data v (card s)"
    using c(5,7) c'(6) by (metis min.absorb1 take_take)
  ultimately show ?thesis
    using c(5,6) c'(5) st by (intro exI [of _ ?s] exI [of _ "fv_data v c'"]) auto
qed


lemma length_concat_256: "\<forall>b \<in> set bs. length b = 256 \<Longrightarrow> length (concat bs) = 256 * length bs"
  by (induction bs) auto

text \<open>Accepting one more sector into the buffer, before any flush.\<close>

lemma buffer_sector:
  assumes w: "writing (ops, lun, v) base k acc (Suc m) s" and b: "length b = 256"
    and s1: "s1 = s\<lparr>sectorBuffer := poke_at (unat (currentBufferSector s) * 256) b (sectorBuffer s),
      currentBufferSector := currentBufferSector s + 1\<rparr>"
  shows "length (sectorBuffer s1) = 16384"
    "unat (currentBufferSector s1) = Suc (unat (currentBufferSector s))"
    "take (256 * unat (currentBufferSector s1)) (sectorBuffer s1) =
     concat (drop (length (acc @ [b]) - unat (currentBufferSector s1)) (acc @ [b]))"
proof -
  have cb: "unat (currentBufferSector s) < 64" "unat (currentBufferSector s) \<le> length acc"
    and buf: "length (sectorBuffer s) = 16384"
    and old: "take (256 * unat (currentBufferSector s)) (sectorBuffer s) =
      concat (drop (length acc - unat (currentBufferSector s)) acc)"
    using w by (auto simp: writing_def Let_def)
  show c: "unat (currentBufferSector s1) = Suc (unat (currentBufferSector s))"
    using cb by (simp add: s1 unat_plus_if')
  show "length (sectorBuffer s1) = 16384"
    using cb b buf by (simp add: s1)
  have "take (256 * Suc (unat (currentBufferSector s))) (poke_at (unat (currentBufferSector s) * 256) b (sectorBuffer s))
     = take (256 * unat (currentBufferSector s)) (sectorBuffer s) @ b"
    using cb b buf by (simp add: poke_at_def mult.commute)
  then show "take (256 * unat (currentBufferSector s1)) (sectorBuffer s1) =
     concat (drop (length (acc @ [b]) - unat (currentBufferSector s1)) (acc @ [b]))"
    unfolding c old using cb by (simp add: s1)
qed

lemma write_next_sector:
  assumes w: "writing (ops, lun, v) base k acc (Suc m) s" and b: "length b = 256"
  shows "\<exists>s'. filesystemWriteNextSector ops lun b s = (True, s') \<and>
    writing (ops, lun, v) base k (acc @ [b]) m s'"
proof -
  define s1 where "s1 = s\<lparr>sectorBuffer := poke_at (unat (currentBufferSector s) * 256) b (sectorBuffer s),
      currentBufferSector := currentBufferSector s + 1\<rparr>"
  note bs = buffer_sector [OF w b s1_def]
  have laws: "write_laws ops (LunFil lun) v" and ok: "fv_ok v (card s)" "fv_ok v (card s1)"
    and base: "256 * k \<le> length base" and acc: "\<forall>x \<in> set (acc @ [b]). length x = 256"
    and room: "256 * (k + length acc + Suc m) \<le> fv_room v (card s)"
    and cb: "unat (currentBufferSector s) < 64" "unat (currentBufferSector s) \<le> length acc"
    and rem: "unat (sectorsRemaining s) = unat (currentBufferSector s) + Suc m"
    and pos: "fv_pos v (card s) = 256 * (k + (length acc - unat (currentBufferSector s)))"
    and data: "fv_data v (card s) = poke_at (256 * k) (concat (take (length acc - unat (currentBufferSector s)) acc)) base"
    using w b by (auto simp: writing_def Let_def s1_def)
  have np: "\<not> config_beeb_write_protected ops (card s)"
    using laws ok by (auto simp: write_laws_def)
  let ?k = "ucast (currentBufferSector s1) :: u32"
  have k32: "unat ?k = Suc (unat (currentBufferSector s))"
    using bs(2) cb by (simp add: unsigned_ucast_eq take_bit_nat_eq_self)
  have f: "length (acc @ [b]) - unat (currentBufferSector s1) = length acc - unat (currentBufferSector s)"
    using bs(2) by simp
  show ?thesis
  proof (cases "?k = SECTOR_BUFFER_LENGTH \<or> ?k = sectorsRemaining s1")
    case False
    then have "filesystemWriteNextSector ops lun b s = (True, s1)"
      using np b unfolding filesystemWriteNextSector_def s1_def by (simp add: Let_def)
    moreover have "unat ?k \<noteq> 64" "unat ?k \<noteq> unat (sectorsRemaining s1)"
      using False by (auto simp: SECTOR_BUFFER_LENGTH_def word_unat_eq_iff)
    then have "writing (ops, lun, v) base k (acc @ [b]) m s1"
      using laws ok base acc room cb rem pos data bs k32 unfolding writing_def Let_def prod.case f
      by (simp add: s1_def)
    ultimately show ?thesis by blast
  next
    case True
    then have n: "(if ?k = SECTOR_BUFFER_LENGTH then SECTOR_BUFFER_LENGTH else sectorsRemaining s1) = ?k" by auto
    let ?bytes = "take (unat ?k * 256) (sectorBuffer s1)"
    have bytes: "?bytes = concat (drop (length acc - unat (currentBufferSector s)) (acc @ [b]))"
      using bs(2,3) k32 f by (simp add: mult.commute)
    have len: "length ?bytes = 256 * Suc (unat (currentBufferSector s))"
      using bs(1) k32 cb by simp
    have "fv_pos v (card s1) + length ?bytes \<le> fv_room v (card s1)"
      unfolding len using pos room cb by (simp add: s1_def)
    from flush_bytes_ok [OF _ _ _ ok(2) this, of ops "LunFil lun"] laws obtain c where
      c: "flush_bytes ops (LunFil lun) ?bytes (card s1) = (True, c)" "fv_ok v c"
      "fv_data v c = poke_at (fv_pos v (card s1)) ?bytes (fv_data v (card s1))"
      "fv_pos v c = fv_pos v (card s1) + length ?bytes" "fv_room v c = fv_room v (card s1)"
      by (auto simp: write_laws_def)
    have flushed: "fv_data v c = poke_at (256 * k) (concat (acc @ [b])) base"
    proof -
      let ?f = "length acc - unat (currentBufferSector s)"
      have "length (concat (take ?f acc)) = 256 * ?f"
        using acc by (subst length_concat_256) (auto dest: in_set_takeD)
      then have "fv_pos v (card s1) = 256 * k + length (concat (take ?f acc))"
        using pos by (simp add: s1_def)
      moreover have "concat (take ?f acc) @ ?bytes = concat (acc @ [b])"
      proof -
        have "take ?f acc @ drop ?f (acc @ [b]) = acc @ [b]" by simp
        then show ?thesis unfolding bytes by (metis concat_append)
      qed
      ultimately show ?thesis
        using c(3) data poke_at_append [OF base, of "concat (take ?f acc)" ?bytes] by (simp add: s1_def)
    qed
    let ?s2 = "s1\<lparr>card := c, currentBufferSector := 0, sectorsRemaining := sectorsRemaining s1 - ?k\<rparr>"
    obtain r c' where sync: "f_sync ops (LunFil lun) c = (r, c')" by fastforce
    have same: "same_file v c c'"
      using laws link_lawD(4) [OF _ c(2) sync] by (auto simp: write_laws_def)
    have run: "filesystemWriteNextSector ops lun b s =
        (True, if sectorsRemaining ?s2 = 0 then ?s2\<lparr>card := c'\<rparr> else ?s2)"
      using np b True n c(1) sync unfolding filesystemWriteNextSector_def
      by (simp add: Let_def flip: s1_def)
    have rem2: "unat (sectorsRemaining s1 - ?k) = m"
      using rem k32 by (subst unat_sub) (auto simp: word_le_nat_alt s1_def)
    have pos2: "fv_pos v c = 256 * (k + length (acc @ [b]))"
      using c(4) len pos cb by (simp add: s1_def)
    have "writing (ops, lun, v) base k (acc @ [b]) m ?s2"
      using laws c(2,5) bs(1) base acc room flushed rem2 pos2 by (simp add: writing_def s1_def)
    moreover have "writing (ops, lun, v) base k (acc @ [b]) m (?s2\<lparr>card := c'\<rparr>)"
      using laws c(2,5) bs(1) base acc room flushed rem2 pos2 same
      by (simp add: writing_def s1_def same_file_def)
    ultimately show ?thesis unfolding run by auto
  qed
qed

lemma written_image:
  assumes "writing (ops, lun, v) base k acc 0 s"
  shows "fv_data v (card s) = poke_at (256 * k) (concat acc) base"
  using assms by (auto simp: writing_def Let_def)

interpretation lunr: sector_reader reading disk_of "\<lambda>(ops, lun, v). filesystemReadNextSector ops lun"
  by unfold_locales (auto simp: disk_of_def dest!: read_next_sector)

interpretation lunw: sector_writer writing disk_of "\<lambda>(ops, lun, v). filesystemWriteNextSector ops lun"
proof unfold_locales
  fix f :: "'a sdcard \<times> nat \<times> 'a file_view" and base k acc m s b
  assume "writing f base k acc (Suc m) s" "length (b :: u8 list) = 256"
  then show "\<exists>s'. (case f of (ops, lun, v) \<Rightarrow> filesystemWriteNextSector ops lun) b s = (True, s') \<and>
      writing f base k (acc @ [b]) m s'"
    by (cases f) (auto dest: write_next_sector)
next
  fix f :: "'a sdcard \<times> nat \<times> 'a file_view" and base k acc s
  assume "writing f base k acc 0 s"
  then show "disk_of f s = take (256 * k) base @ concat acc @ drop (256 * k + length (concat acc)) base"
    by (cases f) (auto simp: disk_of_def poke_at_def dest: written_image)
qed

end
