(* ===== verification/ScsiTransfer.thy ===== *)
theory ScsiTransfer
  imports ScsiProps FsStream
begin

text \<open>
  Data transfers of the SCSI target, against the interface of the host adapter: what the target
  needs of the adapter is stated as a locale, and the block transfers and whole bus transactions
  are proved once inside it.
\<close>

section \<open>The adapter's contract\<close>

text \<open>
  An adapter that is ready to transfer in one direction (\<open>True\<close>: to the host) delivers bytes
  to the host (\<open>sent\<close>) and takes bytes from it (\<open>feed\<close>) in order, and sees no reset.
\<close>

locale bus_host =
  fixes adapter :: "'o \<Rightarrow> 'h hostadapter"
    and ready :: "'o \<Rightarrow> bool \<Rightarrow> 'h \<Rightarrow> bool"
    and sent :: "'o \<Rightarrow> 'h \<Rightarrow> u8 list"
    and feed :: "'o \<Rightarrow> 'h \<Rightarrow> u8 list"
  assumes phase: "ready x d h \<Longrightarrow> h' = hostadapterWriteDataPhaseFlags (adapter x) m c i h \<Longrightarrow>
      ready x i h' \<and> sent x h' = sent x h \<and> feed x h' = feed x h"
    and led: "ready x d h \<Longrightarrow> h' = statusledActivity (adapter x) lit h \<Longrightarrow>
      ready x d h' \<and> sent x h' = sent x h \<and> feed x h' = feed x h"
    and no_reset: "ready x d h \<Longrightarrow> \<exists>h'. hostadapterReadResetFlag (adapter x) h = (False, h') \<and>
      ready x d h' \<and> sent x h' = sent x h \<and> feed x h' = feed x h"
    and write_byte: "ready x True h \<Longrightarrow> h' = hostadapterWriteByte (adapter x) b h \<Longrightarrow>
      ready x True h' \<and> sent x h' = sent x h @ [b] \<and> feed x h' = feed x h"
    and read_byte: "ready x False h \<Longrightarrow> feed x h = b # r \<Longrightarrow> \<exists>h'. hostadapterReadByte (adapter x) h = (b, h') \<and>
      ready x False h' \<and> sent x h' = sent x h \<and> feed x h' = r"
    and read_dma: "ready x True h \<Longrightarrow> length bs = 256 \<Longrightarrow> \<exists>k h'. hostadapterPerformReadDMA (adapter x) bs h = (k, h') \<and>
      ready x True h' \<and> sent x h' = sent x h @ bs \<and> feed x h' = feed x h"
    and write_dma: "ready x False h \<Longrightarrow> length buf = 256 \<Longrightarrow> feed x h = bs @ r \<Longrightarrow> length bs = 256 \<Longrightarrow>
      \<exists>k h'. hostadapterPerformWriteDMA (adapter x) buf h = ((k, bs), h') \<and>
        ready x False h' \<and> sent x h' = sent x h \<and> feed x h' = r"
    and stack: "ready x d h \<Longrightarrow> length (indeterminate (adapter x) h) = 256"
begin

text \<open>What a step of the target does to the bytes on the bus.\<close>

definition moves :: "'o \<Rightarrow> bool \<Rightarrow> u8 list \<Rightarrow> u8 list \<Rightarrow> ('h, 'f) scsi \<Rightarrow> ('h, 'f) scsi \<Rightarrow> bool" where
  "moves x d taken given s s' \<longleftrightarrow> ready x d (host s') \<and> sent x (host s') = sent x (host s) @ given \<and>
     feed x (host s) = taken @ feed x (host s') \<and> command_frame s' = command_frame s"

lemma moves_phase:
  assumes "ready x d (host s)" "ha e = adapter x"
  shows "moves x (p \<in> {ITPHASE_DATAIN, ITPHASE_STATUS, ITPHASE_MESSAGEIN}) [] [] s (scsiInformationTransferPhase e p s)"
    and "fs (scsiInformationTransferPhase e p s) = fs s" and "status (scsiInformationTransferPhase e p s) = status s"
  using assms phase [OF assms(1) refl]
  by (cases p) (auto simp: moves_def scsiInformationTransferPhase_def do_host_def command_frame_def)

lemma write_bytes_moves:
  assumes "ready x True (host s)" "ha e = adapter x"
  shows "moves x True [] bs s (write_bytes e bs s)"
proof -
  have "ready x True h \<Longrightarrow> ready x True (fold (hostadapterWriteByte (adapter x)) bs h) \<and>
      sent x (fold (hostadapterWriteByte (adapter x)) bs h) = sent x h @ bs \<and>
      feed x (fold (hostadapterWriteByte (adapter x)) bs h) = feed x h" for h
    using write_byte [OF _ refl] by (induction bs arbitrary: h) auto
  with assms show ?thesis by (simp add: moves_def write_bytes_def do_host_def command_frame_def)
qed

lemma read_bytes_moves:
  assumes "ready x False (host s)" "ha e = adapter x" "feed x (host s) = bs @ r"
  shows "\<exists>s'. read_bytes e (length bs) s = (bs, s') \<and> moves x False bs [] s s' \<and> fs s' = fs s \<and> status s' = status s"
  using assms
proof (induction bs arbitrary: s)
  case (Cons b bs)
  then obtain h where h: "hostadapterReadByte (adapter x) (host s) = (b, h)" "ready x False h"
    "sent x h = sent x (host s)" "feed x h = bs @ r" using read_byte [of x "host s" b "bs @ r"] by auto
  have "ready x False (host (s\<lparr>host := h\<rparr>))" "feed x (host (s\<lparr>host := h\<rparr>)) = bs @ r" using h by simp_all
  from Cons.IH [OF this(1) Cons.prems(2) this(2)] h Cons.prems show ?case
    by (auto simp: on_host_def moves_def command_frame_def)
qed (simp add: moves_def)

section \<open>Block transfers\<close>

lemma read6_loop_sends:
  assumes "ha e = adapter x" "ready x True (host s)" "reading (sd e, lun s, v) (fs s) k n"
  shows "\<exists>s'. read6_loop e n s = (SCSI_STATUS, good s') \<and> fv_data v (card (fs s')) = fv_data v (card (fs s)) \<and>
    moves x True [] (concat (map (sector (fv_data v (card (fs s)))) [k..<k + n])) s s'"
  using assms(2,3)
proof (induction n arbitrary: s k)
  case (Suc n)
  let ?D = "fv_data v (card (fs s))"
  obtain f where f: "filesystemReadNextSector (sd e) (lun s) (fs s) = (Some (sector ?D k), f)"
    "reading (sd e, lun s, v) f (Suc k) n" "fv_data v (card f) = ?D"
    using read_next_sector [OF Suc.prems(2)] by blast
  obtain j h where h: "hostadapterPerformReadDMA (adapter x) (sector ?D k) (host s) = (j, h)" "ready x True h"
    "sent x h = sent x (host s) @ sector ?D k" "feed x h = feed x (host s)"
    using read_dma [OF Suc.prems(1)] length_sector by blast
  obtain h' where h': "hostadapterReadResetFlag (adapter x) h = (False, h')" "ready x True h'"
    "sent x h' = sent x h" "feed x h' = feed x h" using no_reset [OF h(2)] by blast
  define s1 where "s1 = s\<lparr>fs := f, host := h'\<rparr>"
  have step: "read6_loop e (Suc n) s = read6_loop e n s1"
    by (simp add: on_fs_def on_host_def f(1) assms(1) h(1) h'(1) s1_def Let_def)
  have "ready x True (host s1)" "reading (sd e, lun s1, v) (fs s1) (Suc k) n"
    using h'(2) f(2) by (simp_all add: s1_def lun_def)
  from Suc.IH [OF this] obtain s' where s': "read6_loop e n s1 = (SCSI_STATUS, good s')"
    "fv_data v (card (fs s')) = ?D" "moves x True [] (concat (map (sector ?D) [Suc k..<Suc k + n])) s1 s'"
    using f(3) by (auto simp: s1_def)
  moreover have "[k..<k + Suc n] = k # [Suc k..<Suc k + n]" by (subst upt_conv_Cons) auto
  ultimately show ?case
    using h h' step by (auto simp: moves_def s1_def command_frame_def simp del: read6_loop.simps upt_Suc)
qed (auto simp: moves_def)

lemma write6_loop_takes:
  assumes "ha e = adapter x" "ready x False (host s)" "feed x (host s) = concat bs @ r" "\<forall>b \<in> set bs. length b = 256"
    "writing (sd e, lun s, v) base k acc (length bs) (fs s)"
  shows "\<exists>s'. write6_loop e (length bs) s = (SCSI_STATUS, good s') \<and>
    writing (sd e, lun s, v) base k (acc @ bs) 0 (fs s') \<and> moves x False (concat bs) [] s s'"
  using assms(2-)
proof (induction bs arbitrary: s acc)
  case (Cons b bs)
  have b: "length b = 256" and fd: "feed x (host s) = b @ (concat bs @ r)" using Cons.prems by auto
  obtain j h where h: "hostadapterPerformWriteDMA (adapter x) (indeterminate (adapter x) (host s)) (host s) = ((j, b), h)"
    "ready x False h" "sent x h = sent x (host s)" "feed x h = concat bs @ r"
    using write_dma [OF Cons.prems(1) stack [OF Cons.prems(1)] fd b] by blast
  obtain h' where h': "hostadapterReadResetFlag (adapter x) h = (False, h')" "ready x False h'"
    "sent x h' = sent x h" "feed x h' = feed x h" using no_reset [OF h(2)] by blast
  obtain f where f: "filesystemWriteNextSector (sd e) (lun s) b (fs s) = (True, f)"
    "writing (sd e, lun s, v) base k (acc @ [b]) (length bs) f"
    using write_next_sector [of "sd e" "lun s" v base k acc "length bs" "fs s" b] Cons.prems(4) b by auto
  define s1 where "s1 = s\<lparr>host := h', fs := f\<rparr>"
  have step: "write6_loop e (length (b # bs)) s = write6_loop e (length bs) s1"
    using f(1) by (simp add: on_fs_def on_host_def assms(1) h(1) h'(1) s1_def Let_def lun_def)
  have l: "lun s1 = lun s" by (simp add: s1_def lun_def)
  have "ready x False (host s1)" "feed x (host s1) = concat bs @ r" "\<forall>b \<in> set bs. length b = 256"
    "writing (sd e, lun s1, v) base k (acc @ [b]) (length bs) (fs s1)"
    using h h' f(2) Cons.prems(3) by (simp_all add: s1_def lun_def)
  from Cons.IH [OF this] obtain s' where s': "write6_loop e (length bs) s1 = (SCSI_STATUS, good s')"
    "writing (sd e, lun s1, v) base k ((acc @ [b]) @ bs) 0 (fs s')" "moves x False (concat bs) [] s1 s'" by blast
  then show ?case
    using h h' step fd l by (auto simp: moves_def s1_def command_frame_def simp del: write6_loop.simps)
qed (auto simp: moves_def)

section \<open>Whole commands\<close>

lemma read6_command:
  assumes "ha e = adapter x" "ready x d (host s)" "filesystemReadLunStatus (lun s) (fs s)"
    and "readable (sd e, lun s, v) (fs s)"
  shows "\<exists>s'. scsiCommandRead6 e s = (SCSI_STATUS, s') \<and> status s' = SCSI_STATUS_OK \<and>
    fv_data v (card (fs s')) = fv_data v (card (fs s)) \<and>
    moves x True [] (concat (map (sector (fv_data v (card (fs s))))
      [unat (lba21 (cdb s))..<unat (lba21 (cdb s)) + unat (block_count (cdb s))])) s s'"
proof -
  let ?s1 = "scsiInformationTransferPhase e ITPHASE_DATAIN s"
  have p: "moves x True [] [] s ?s1" "fs ?s1 = fs s" using moves_phase [OF assms(2,1), of ITPHASE_DATAIN] by auto
  then have fr: "cdb ?s1 = cdb s" "lun ?s1 = lun s" by (simp_all add: moves_def command_frame_def lun_def)
  obtain f where f: "filesystemOpenLunForRead (sd e) (lun s) (lba21 (cdb s)) (block_count (cdb s)) (fs s) = (True, f)"
    "reading (sd e, lun s, v) f (unat (lba21 (cdb s))) (unat (block_count (cdb s)))" "fv_data v (card f) = fv_data v (card (fs s))"
    using open_for_read [OF assms(4), of "lba21 (cdb s)" "block_count (cdb s)"] lba21_bound [of "cdb s"] by auto
  define s2 where "s2 = ?s1\<lparr>fs := f\<rparr>"
  have l: "lun s2 = lun s" "cdb s2 = cdb s" using fr by (simp_all add: s2_def lun_def)
  have "scsiCommandRead6 e s = read6_loop e (unat (block_count (cdb s))) s2"
    using assms(3) f(1) p(2) fr by (simp add: scsiCommandRead6_def auto_start_def on_fs_def s2_def Let_def)
  moreover have "ready x True (host s2)" "reading (sd e, lun s2, v) (fs s2) (unat (lba21 (cdb s))) (unat (block_count (cdb s)))"
    using p(1) f(2) l by (simp_all add: s2_def moves_def)
  from read6_loop_sends [OF assms(1) this] obtain s' where
    s': "read6_loop e (unat (block_count (cdb s))) s2 = (SCSI_STATUS, good s')"
      "fv_data v (card (fs s')) = fv_data v (card (fs s))"
      "moves x True [] (concat (map (sector (fv_data v (card (fs s))))
        [unat (lba21 (cdb s))..<unat (lba21 (cdb s)) + unat (block_count (cdb s))])) s2 s'"
    using f(3) by (auto simp: s2_def)
  moreover from p(1) s'(3) have "moves x True [] (concat (map (sector (fv_data v (card (fs s))))
      [unat (lba21 (cdb s))..<unat (lba21 (cdb s)) + unat (block_count (cdb s))])) s (good s')"
    by (auto simp: moves_def s2_def command_frame_def good_def)
  ultimately show ?thesis by (simp add: good_def)
qed

lemma write6_command:
  assumes "ha e = adapter x" "ready x d (host s)" "filesystemReadLunStatus (lun s) (fs s)" "lun s < 8"
    and w: "write_laws (sd e) (LunFil (lun s)) v" "fv_ok v (card (fs s))" "length (sectorBuffer (fs s)) = 16384"
    and room: "256 * (unat (lba21 (cdb s)) + unat (block_count (cdb s))) \<le> fv_room v (card (fs s))"
    and data: "feed x (host s) = concat bs @ r" "length bs = unat (block_count (cdb s))" "\<forall>b \<in> set bs. length b = 256"
  shows "\<exists>s' base. scsiCommandWrite6 e s = (SCSI_STATUS, s') \<and> status s' = SCSI_STATUS_OK \<and>
    moves x False (concat bs) [] s s' \<and>
    length base = max (length (fv_data v (card (fs s)))) (256 * unat (lba21 (cdb s))) \<and>
    take (length (fv_data v (card (fs s)))) base = fv_data v (card (fs s)) \<and>
    fv_data v (card (fs s')) = poke_at (256 * unat (lba21 (cdb s))) (concat bs) base"
proof -
  let ?s1 = "scsiInformationTransferPhase e ITPHASE_DATAOUT s"
  have p: "moves x False [] [] s ?s1" "fs ?s1 = fs s" using moves_phase [OF assms(2,1), of ITPHASE_DATAOUT] by auto
  then have fr: "cdb ?s1 = cdb s" "lun ?s1 = lun s" by (simp_all add: moves_def command_frame_def lun_def)
  obtain f base where f: "filesystemOpenLunForWrite (sd e) (lun s) (lba21 (cdb s)) (block_count (cdb s)) (fs s) = (True, f)"
    "writing (sd e, lun s, v) base (unat (lba21 (cdb s))) [] (length bs) f"
    "length base = max (length (fv_data v (card (fs s)))) (256 * unat (lba21 (cdb s)))"
    "take (length (fv_data v (card (fs s)))) base = fv_data v (card (fs s))"
    using open_for_write [OF w(1,2,3) assms(4) room] data(2) by auto
  define s2 where "s2 = ?s1\<lparr>fs := f\<rparr>"
  have l: "lun s2 = lun s" "cdb s2 = cdb s" using fr by (simp_all add: s2_def lun_def)
  have eq: "scsiCommandWrite6 e s = write6_loop e (length bs) s2"
    using assms(3) f(1) p(2) fr data(2) by (simp add: scsiCommandWrite6_def auto_start_def on_fs_def s2_def Let_def)
  have "ready x False (host s2)" "feed x (host s2) = concat bs @ r"
    "writing (sd e, lun s2, v) base (unat (lba21 (cdb s))) [] (length bs) (fs s2)"
    using p(1) f(2) l data(1) by (simp_all add: s2_def moves_def)
  from write6_loop_takes [OF assms(1) this(1,2) data(3) this(3)] obtain s' where
    s': "write6_loop e (length bs) s2 = (SCSI_STATUS, good s')"
      "writing (sd e, lun s2, v) base (unat (lba21 (cdb s))) bs 0 (fs s')" "moves x False (concat bs) [] s2 s'" by auto
  have "moves x False (concat bs) [] s (good s')"
    using p(1) s'(3) by (auto simp: moves_def s2_def command_frame_def good_def)
  with eq s'(1) written_image [OF s'(2)] f(3,4) show ?thesis
    by (intro exI [of _ "good s'"] exI [of _ base]) (simp add: good_def)
qed

section \<open>Bus transactions\<close>

text \<open>
  From the command phase to the free bus: the target reads the six bytes of the command block,
  runs the command, and sends the status and the message.
\<close>

lemma command_step:
  assumes "ha e = adapter x" "ready x d (host s)" "scsiState s = SCSI_COMMAND"
    and "feed x (host s) = [b0, b1, b2, b3, b4, b5] @ r" "cdb_length b0 = 6"
    and "decode_command (scsiHostID s) b0 = Some c"
  shows "\<exists>s'. scsiProcessEmulation e s = s' \<and> scsiState s' = c \<and> ready x False (host s') \<and>
    sent x (host s') = sent x (host s) \<and> feed x (host s') = r \<and> fs s' = fs s \<and>
    cdb s' = [b0, ucast (scsiTransformLUNid (scsiHostID s) b1), b2, b3, b4, b5] @ drop 6 (cdb s) \<and>
    targetLUN s' = ucast (drop_bit 5 (scsiTransformLUNid (scsiHostID s) b1 AND 0x1E0))"
proof -
  let ?s1 = "scsiInformationTransferPhase e ITPHASE_COMMAND s"
  have p: "moves x False [] [] s ?s1" "fs ?s1 = fs s" using moves_phase [OF assms(2,1), of ITPHASE_COMMAND] by auto
  then have r1: "ready x False (host ?s1)" "feed x (host ?s1) = b0 # [b1, b2, b3, b4, b5] @ r"
    using assms(4) by (simp_all add: moves_def)
  obtain h where h: "hostadapterReadByte (adapter x) (host ?s1) = (b0, h)" "ready x False h"
    "sent x h = sent x (host ?s1)" "feed x h = [b1, b2, b3, b4, b5] @ r" using read_byte [OF r1] by blast
  define s2 where "s2 = ?s1\<lparr>host := h\<rparr>"
  have "ready x False (host s2)" "feed x (host s2) = [b1, b2, b3, b4, b5] @ r" using h by (simp_all add: s2_def)
  from read_bytes_moves [OF this(1) assms(1) this(2)] obtain s3 where
    s3: "read_bytes e 5 s2 = ([b1, b2, b3, b4, b5], s3)" "moves x False [b1, b2, b3, b4, b5] [] s2 s3" "fs s3 = fs s2"
    by (auto simp del: read_bytes.simps simp: eval_nat_numeral)
  define s4 where "s4 = s3\<lparr>cdb := [b0, ucast (scsiTransformLUNid (scsiHostID s) b1), b2, b3, b4, b5] @ drop 6 (cdb s),
      targetLUN := ucast (drop_bit 5 (scsiTransformLUNid (scsiHostID s) b1 AND 0x1E0))\<rparr>"
  have fr: "cdb s3 = cdb s" "scsiHostID s3 = scsiHostID s"
    using p(1) s3(2) by (simp_all add: moves_def command_frame_def s2_def)
  have "scsiEmulationCommand e s = (c, s4)"
    using assms(5,6) fr s3(1) h(1)
    by (simp add: scsiEmulationCommand_def on_host_def assms(1) s2_def [symmetric] Let_def s4_def)
  then have eq: "scsiProcessEmulation e s = do_host (statusledActivity (ha e) (c \<noteq> SCSI_BUSFREE)) (s4\<lparr>scsiState := c\<rparr>)"
    by (simp add: scsiProcessEmulation_def scsi_dispatch_def assms(3))
  have "ready x False (host s4)" "sent x (host s4) = sent x (host s)" "feed x (host s4) = r"
    using p(1) s3(2) h by (simp_all add: s4_def s2_def moves_def)
  with led [OF this(1) refl] show ?thesis
    using p(2) s3(3) unfolding eq by (simp add: do_host_def assms(1) s4_def s2_def)
qed

lemma finish_steps:
  assumes "ha e = adapter x" "ready x d (host s)" "scsiState s = SCSI_STATUS"
  shows "\<exists>s'. (scsiProcessEmulation e ^^ 2) s = s' \<and> scsiState s' = SCSI_BUSFREE \<and> ready x True (host s') \<and>
    sent x (host s') = sent x (host s) @ [status s, 0] \<and> feed x (host s') = feed x (host s) \<and> fs s' = fs s"
proof -
  have one: "\<exists>s'. scsiProcessEmulation e s = s' \<and> scsiState s' = st' \<and> ready x True (host s') \<and>
      sent x (host s') = sent x (host s) @ [b] \<and> feed x (host s') = feed x (host s) \<and> fs s' = fs s \<and> status s' = status s"
    if "ready x d (host s)" "scsi_dispatch e s = (st', write_bytes e [b] (scsiInformationTransferPhase e p s))"
      "p \<in> {ITPHASE_STATUS, ITPHASE_MESSAGEIN}" for s :: "('h, 'a) scsi" and d st' b p
  proof -
    let ?s1 = "scsiInformationTransferPhase e p s"
    have p: "moves x True [] [] s ?s1" "fs ?s1 = fs s" "status ?s1 = status s"
      using moves_phase [OF that(1) assms(1), of p] that(3) by auto
    then have "moves x True [] [b] ?s1 (write_bytes e [b] ?s1)"
      using assms(1) by (intro write_bytes_moves) (auto simp: moves_def)
    with p have m: "moves x True [] [b] s (write_bytes e [b] ?s1)" by (auto simp: moves_def)
    have f: "fs (write_bytes e [b] ?s1) = fs s" "status (write_bytes e [b] ?s1) = status s"
      using p by (simp_all add: write_bytes_def do_host_def)
    from m have "ready x True (host (write_bytes e [b] ?s1))" by (simp add: moves_def)
    from led [OF this refl] m f show ?thesis
      by (simp add: scsiProcessEmulation_def that(2) do_host_def assms(1) moves_def)
  qed
  obtain s1 where s1: "scsiProcessEmulation e s = s1" "scsiState s1 = SCSI_MESSAGE" "ready x True (host s1)"
    "sent x (host s1) = sent x (host s) @ [status s]" "feed x (host s1) = feed x (host s)" "fs s1 = fs s"
    using one [OF assms(2), of SCSI_MESSAGE "status s" ITPHASE_STATUS] assms(3)
    by (auto simp: scsi_dispatch_def scsiEmulationStatus_def)
  obtain s2 where "scsiProcessEmulation e s1 = s2" "scsiState s2 = SCSI_BUSFREE" "ready x True (host s2)"
    "sent x (host s2) = sent x (host s1) @ [0]" "feed x (host s2) = feed x (host s1)" "fs s2 = fs s1"
    using one [OF s1(3), of SCSI_BUSFREE 0 ITPHASE_MESSAGEIN] s1(2)
    by (auto simp: scsi_dispatch_def scsiEmulationMessage_def)
  with s1 show ?thesis by (simp add: numeral_2_eq_2)
qed

lemma transaction:
  assumes "ha e = adapter x" "ready x d (host s)" "scsiState s = SCSI_COMMAND"
    and "feed x (host s) = [b0, b1, b2, b3, b4, b5] @ taken @ r" "cdb_length b0 = 6"
    and "decode_command (scsiHostID s) b0 = Some c"
    and run: "\<And>t. scsiState t = c \<Longrightarrow> ready x False (host t) \<Longrightarrow> feed x (host t) = taken @ r \<Longrightarrow>
       fs t = fs s \<Longrightarrow> cdb t = [b0, ucast (scsiTransformLUNid (scsiHostID s) b1), b2, b3, b4, b5] @ drop 6 (cdb s) \<Longrightarrow>
       targetLUN t = ucast (drop_bit 5 (scsiTransformLUNid (scsiHostID s) b1 AND 0x1E0)) \<Longrightarrow>
       \<exists>t' dir. scsi_dispatch e t = (SCSI_STATUS, t') \<and> status t' = st \<and> moves x dir taken given t t' \<and> P (fs t')"
  shows "\<exists>s'. (scsiProcessEmulation e ^^ 4) s = s' \<and> scsiState s' = SCSI_BUSFREE \<and> ready x True (host s') \<and>
    sent x (host s') = sent x (host s) @ given @ [st, 0] \<and> feed x (host s') = r \<and> P (fs s')"
proof -
  obtain s1 where s1: "scsiProcessEmulation e s = s1" "scsiState s1 = c" "ready x False (host s1)"
    "sent x (host s1) = sent x (host s)" "feed x (host s1) = taken @ r" "fs s1 = fs s"
    "cdb s1 = [b0, ucast (scsiTransformLUNid (scsiHostID s) b1), b2, b3, b4, b5] @ drop 6 (cdb s)"
    "targetLUN s1 = ucast (drop_bit 5 (scsiTransformLUNid (scsiHostID s) b1 AND 0x1E0))"
    using command_step [OF assms(1-6)] by auto
  obtain t dir where t: "scsi_dispatch e s1 = (SCSI_STATUS, t)" "status t = st" "moves x dir taken given s1 t" "P (fs t)"
    using run [OF s1(2,3,5-8)] by blast
  define s2 where "s2 = scsiProcessEmulation e s1"
  have "ready x dir (host t)" using t(3) by (simp add: moves_def)
  from led [OF this refl] have s2: "ready x dir (host s2)" "scsiState s2 = SCSI_STATUS" "status s2 = st" "fs s2 = fs t"
    "sent x (host s2) = sent x (host s1) @ given" "feed x (host s2) = r"
    using t s1(5) by (simp_all add: s2_def scsiProcessEmulation_def do_host_def assms(1) moves_def)
  obtain s4 where "(scsiProcessEmulation e ^^ 2) s2 = s4" "scsiState s4 = SCSI_BUSFREE" "ready x True (host s4)"
    "sent x (host s4) = sent x (host s2) @ [status s2, 0]" "feed x (host s4) = feed x (host s2)" "fs s4 = fs s2"
    using finish_steps [OF assms(1) s2(1,2)] by auto
  moreover have "(scsiProcessEmulation e ^^ 4) s = (scsiProcessEmulation e ^^ 2) s2"
    by (simp add: s2_def s1(1) numeral_eq_Suc)
  ultimately show ?thesis using s1 s2 t by simp
qed

text \<open>The block address and count that reach the command are those of the bytes sent.\<close>

lemma cdb_fields:
  assumes "c = [b0, ucast (scsiTransformLUNid i b1), b2, b3, b4, b5] @ r"
  shows "lba21 c = lba21 [b0, b1, b2, b3, b4, b5]" "block_count c = block_count [b0, b1, b2, b3, b4, b5]"
proof -
  have m: "(0x1F :: u32) = mask 5" by (simp add: mask_numeral)
  have low: "ucast (ucast w :: u8) AND 0x1F = w AND 0x1F" for w :: u32
    unfolding m by (intro bit_word_eqI; simp only: bit_unsigned_iff bit_and_iff bit_mask_iff; auto)
  have "(ucast (ucast (scsiTransformLUNid i b1) :: u8) AND 0x1F :: u32) = ucast b1 AND 0x1F"
    unfolding low by (simp add: scsiTransformLUNid_def bit.conj_disj_distrib2 and.assoc)
  then show "lba21 c = lba21 [b0, b1, b2, b3, b4, b5]" by (simp add: lba21_def assms)
  show "block_count c = block_count [b0, b1, b2, b3, b4, b5]" by (simp add: block_count_def assms)
qed

lemma read6_transaction:
  assumes "ha e = adapter x" "ready x d (host s)" "scsiState s = SCSI_COMMAND"
    and "feed x (host s) = [0x08, b1, b2, b3, b4, b5] @ r"
    and "l = addressed_unit (scsiHostID s) b1"
    and "filesystemReadLunStatus l (fs s)" "readable (sd e, l, v) (fs s)"
    and "k = unat (lba21 [0x08, b1, b2, b3, b4, b5])" "n = unat (block_count [0x08, b1, b2, b3, b4, b5])"
  shows "\<exists>s'. (scsiProcessEmulation e ^^ 4) s = s' \<and> scsiState s' = SCSI_BUSFREE \<and> ready x True (host s') \<and>
    sent x (host s') = sent x (host s) @ concat (map (sector (fv_data v (card (fs s)))) [k..<k + n]) @ [SCSI_STATUS_OK, 0] \<and>
    feed x (host s') = r \<and> fv_data v (card (fs s')) = fv_data v (card (fs s))"
proof (rule transaction [OF assms(1-3), where taken = "[]" and c = SCSI_READ6])
  show "feed x (host s) = [0x08, b1, b2, b3, b4, b5] @ [] @ r" using assms(4) by simp
  show "cdb_length 0x08 = 6" "decode_command (scsiHostID s) 0x08 = Some SCSI_READ6"
    by (simp_all add: cdb_length_def decode_command_def group0_def)
  fix t :: "('h, 'a) scsi"
  assume t: "scsiState t = SCSI_READ6" "ready x False (host t)" "feed x (host t) = [] @ r" "fs t = fs s"
    "cdb t = [0x08, ucast (scsiTransformLUNid (scsiHostID s) b1), b2, b3, b4, b5] @ drop 6 (cdb s)"
    "targetLUN t = ucast (drop_bit 5 (scsiTransformLUNid (scsiHostID s) b1 AND 0x1E0))"
  have "lun t = l" by (simp only: lun_def assms(5) t(6) addressed_unit_word)
  with read6_command [OF assms(1) t(2), of v] assms(6,7) t(1,4) cdb_fields [OF t(5)] assms(8,9)
  show "\<exists>t' dir. scsi_dispatch e t = (SCSI_STATUS, t') \<and> status t' = SCSI_STATUS_OK \<and>
      moves x dir [] (concat (map (sector (fv_data v (card (fs s)))) [k..<k + n])) t t' \<and>
      fv_data v (card (fs t')) = fv_data v (card (fs s))"
    by (auto simp: scsi_dispatch_def)
qed

lemma write6_transaction:
  assumes "ha e = adapter x" "ready x d (host s)" "scsiState s = SCSI_COMMAND"
    and "feed x (host s) = [0x0A, b1, b2, b3, b4, b5] @ concat bs @ r"
    and "l = addressed_unit (scsiHostID s) b1"
    and "filesystemReadLunStatus l (fs s)" "l < 8"
    and "write_laws (sd e) (LunFil l) v" "fv_ok v (card (fs s))" "length (sectorBuffer (fs s)) = 16384"
    and "k = unat (lba21 [0x0A, b1, b2, b3, b4, b5])" "length bs = unat (block_count [0x0A, b1, b2, b3, b4, b5])"
    and "256 * (k + length bs) \<le> fv_room v (card (fs s))" "\<forall>b \<in> set bs. length b = 256"
  shows "\<exists>s'. (scsiProcessEmulation e ^^ 4) s = s' \<and> scsiState s' = SCSI_BUSFREE \<and> ready x True (host s') \<and>
    sent x (host s') = sent x (host s) @ [] @ [SCSI_STATUS_OK, 0] \<and> feed x (host s') = r \<and>
    (\<exists>base. length base = max (length (fv_data v (card (fs s)))) (256 * k) \<and>
       take (length (fv_data v (card (fs s)))) base = fv_data v (card (fs s)) \<and>
       fv_data v (card (fs s')) = poke_at (256 * k) (concat bs) base)"
proof (rule transaction [OF assms(1-3), where taken = "concat bs" and c = SCSI_WRITE6])
  show "feed x (host s) = [0x0A, b1, b2, b3, b4, b5] @ concat bs @ r" using assms(4) by simp
  show "cdb_length 0x0A = 6" "decode_command (scsiHostID s) 0x0A = Some SCSI_WRITE6"
    by (simp_all add: cdb_length_def decode_command_def group0_def)
  fix t :: "('h, 'a) scsi"
  assume t: "scsiState t = SCSI_WRITE6" "ready x False (host t)" "feed x (host t) = concat bs @ r" "fs t = fs s"
    "cdb t = [0x0A, ucast (scsiTransformLUNid (scsiHostID s) b1), b2, b3, b4, b5] @ drop 6 (cdb s)"
    "targetLUN t = ucast (drop_bit 5 (scsiTransformLUNid (scsiHostID s) b1 AND 0x1E0))"
  have l: "lun t = l" by (simp only: lun_def assms(5) t(6) addressed_unit_word)
  have "\<exists>s' base. scsiCommandWrite6 e t = (SCSI_STATUS, s') \<and> status s' = SCSI_STATUS_OK \<and>
      moves x False (concat bs) [] t s' \<and>
      length base = max (length (fv_data v (card (fs t)))) (256 * unat (lba21 (cdb t))) \<and>
      take (length (fv_data v (card (fs t)))) base = fv_data v (card (fs t)) \<and>
      fv_data v (card (fs s')) = poke_at (256 * unat (lba21 (cdb t))) (concat bs) base"
    using assms l t(2-4) cdb_fields [OF t(5)] by (intro write6_command) simp_all
  then show "\<exists>t' dir. scsi_dispatch e t = (SCSI_STATUS, t') \<and> status t' = SCSI_STATUS_OK \<and>
      moves x dir (concat bs) [] t t' \<and>
      (\<exists>base. length base = max (length (fv_data v (card (fs s)))) (256 * k) \<and>
         take (length (fv_data v (card (fs s)))) base = fv_data v (card (fs s)) \<and>
         fv_data v (card (fs t')) = poke_at (256 * k) (concat bs) base)"
    using t(1,4) cdb_fields [OF t(5)] assms(11) by (fastforce simp: scsi_dispatch_def)
qed

end

end
