(* ===== verification/HostAdapter.thy ===== *)
theory HostAdapter
  imports Bus ScsiTransfer
begin

text \<open>
  The host adapter of \<open>harddisc_emulator.c\<close>: the registers that the Beeb reads and writes, the
  REQ/ACK handshake with its time-out, and the operations that \<open>scsi.c\<close> calls, built from them.
\<close>

section \<open>State\<close>

text \<open>
  The Beeb's accesses to the registers run callbacks in the fast interrupt, between the statements
  of the main program.  The model lets them in where the main program looks at the variables they
  change: \<open>beeb\<close> gives the accesses up to that moment, and may depend on what the Beeb can see
  on the bus.  Reset, clock and the Beeb are the outside world \<open>'w\<close>.  \<open>spins\<close> bounds the
  rounds of the busy wait that are followed.
\<close>

datatype hd_access = WriteData u8 | ReadData | WriteSel u8 | WriteIRQ u8

record 'w hd_env =
  Pi1MHz_is_rst_active :: "'w \<Rightarrow> bool \<times> 'w"
  RPI_GetSystemTime :: "'w \<Rightarrow> u32 \<times> 'w"
  beeb :: "bus \<Rightarrow> 'w \<Rightarrow> hd_access list \<times> 'w"
  stack :: "'w \<Rightarrow> u8 list"
  spins :: nat

record 'w hd =
  HD_ADDR :: u8
  IRQ_NUM :: u8
  HD_ACK :: bool
  HD_DATA :: u8
  HD_SEL :: bool
  HD_IRQ_ENABLE :: bool
  HD_status :: u8
  HD_IRQ :: u8
  hd_bus :: bus
  world :: 'w

definition STATUS_CND :: u8 where "STATUS_CND = 128"
definition STATUS_INO :: u8 where "STATUS_INO = 64"
definition STATUS_REQ :: u8 where "STATUS_REQ = 32"
definition STATUS_IRQ :: u8 where "STATUS_IRQ = 16"
definition STATUS_BSY :: u8 where "STATUS_BSY = 2"
definition STATUS_MSG :: u8 where "STATUS_MSG = 1"

definition HD_ACK_TIMEOUT_US :: u32 where "HD_ACK_TIMEOUT_US = 100000"

section \<open>Registers\<close>

definition on_bus :: "(bus \<Rightarrow> bus) \<Rightarrow> 'w hd \<Rightarrow> 'w hd" where
  "on_bus f s = s\<lparr>hd_bus := f (hd_bus s)\<rparr>"

definition status_reg :: "'w hd \<Rightarrow> nat" where
  "status_reg s = unat (HD_ADDR s) + 1"

definition HD_STATUS_Write :: "u8 \<Rightarrow> 'w hd \<Rightarrow> 'w hd" where
  "HD_STATUS_Write data s =
     on_bus (Pi1MHz_MemoryWrite (status_reg s) (data OR HD_IRQ s)) (s\<lparr>HD_status := data\<rparr>)"

definition hd_emulator_write_data :: "u8 \<Rightarrow> 'w hd \<Rightarrow> 'w hd" where
  "hd_emulator_write_data data s =
     (on_bus (Pi1MHz_MemoryWrite (unat (HD_ADDR s)) data) (s\<lparr>HD_DATA := data\<rparr>))\<lparr>HD_ACK := True\<rparr>"

definition hd_emulator_read_data :: "'w hd \<Rightarrow> 'w hd" where
  "hd_emulator_read_data s = s\<lparr>HD_ACK := True\<rparr>"

definition hd_emulator_nSEL :: "u8 \<Rightarrow> 'w hd \<Rightarrow> 'w hd" where
  "hd_emulator_nSEL data s = s\<lparr>HD_DATA := data, HD_SEL := True\<rparr>"

definition hd_emulator_status :: "u8 \<Rightarrow> bool \<Rightarrow> 'w hd \<Rightarrow> 'w hd" where
  "hd_emulator_status b state s =
     (if \<not> state then HD_STATUS_Write (HD_status s AND NOT b) s else HD_STATUS_Write (HD_status s OR b) s)"

definition hd_emulator_set_IRQ :: "'w hd \<Rightarrow> 'w hd" where
  "hd_emulator_set_IRQ s =
     on_bus (Pi1MHz_MemoryWrite (status_reg s) (HD_status s OR STATUS_IRQ)) (s\<lparr>HD_IRQ := STATUS_IRQ\<rparr>)"

definition hd_emulator_clear_IRQ :: "'w hd \<Rightarrow> 'w hd" where
  "hd_emulator_clear_IRQ s = on_bus (Pi1MHz_MemoryWrite (status_reg s) (HD_status s)) (s\<lparr>HD_IRQ := 0\<rparr>)"

definition hd_emulator_IRQ :: "u8 \<Rightarrow> 'w hd \<Rightarrow> 'w hd" where
  "hd_emulator_IRQ data s =
     (if data AND 1 = 0 then
        hd_emulator_clear_IRQ (on_bus (Pi1MHz_nIRQ_CLEAR (IRQ_NUM s)) (s\<lparr>HD_IRQ_ENABLE := False\<rparr>))
      else
        let s = s\<lparr>HD_IRQ_ENABLE := True\<rparr> in
        if HD_status s AND STATUS_REQ \<noteq> 0
        then hd_emulator_set_IRQ (on_bus (Pi1MHz_nIRQ_ASSERT (IRQ_NUM s)) s) else s)"

fun hd_serve :: "hd_access \<Rightarrow> 'w hd \<Rightarrow> 'w hd" where
  "hd_serve (WriteData d) s = hd_emulator_write_data d s"
| "hd_serve ReadData s = hd_emulator_read_data s"
| "hd_serve (WriteSel d) s = hd_emulator_nSEL d s"
| "hd_serve (WriteIRQ d) s = hd_emulator_IRQ d s"

definition hd_fiq :: "'w hd_env \<Rightarrow> 'w hd \<Rightarrow> 'w hd" where
  "hd_fiq env s = (let (as, w) = beeb env (hd_bus s) (world s) in fold hd_serve as (s\<lparr>world := w\<rparr>))"

definition hd_init :: "u8 \<Rightarrow> u8 \<Rightarrow> 'w hd \<Rightarrow> 'w hd" where
  "hd_init instance address s =
     (let s = s\<lparr>HD_ADDR := address, IRQ_NUM := instance\<rparr>;
          s = hd_emulator_status 0xFF False s;
          s = hd_emulator_clear_IRQ s in
      s\<lparr>HD_ACK := False, HD_SEL := False, HD_IRQ_ENABLE := False\<rparr>)"

section \<open>Handshake\<close>

definition on_world :: "('w \<Rightarrow> 'a \<times> 'w) \<Rightarrow> 'w hd \<Rightarrow> 'a \<times> 'w hd" where
  "on_world f s = (case f (world s) of (a, w) \<Rightarrow> (a, s\<lparr>world := w\<rparr>))"

fun hd_spin :: "'w hd_env \<Rightarrow> nat \<Rightarrow> u32 \<Rightarrow> u32 \<Rightarrow> 'w hd \<Rightarrow> bool \<times> 'w hd" where
  "hd_spin env 0 counter start s = (False, s)"
| "hd_spin env (Suc n) counter start s =
     (let s = hd_fiq env s in
      if HD_ACK s then (True, s) else
      let (rst, s) = on_world (Pi1MHz_is_rst_active env) s in
      if rst then (True, s) else
      let counter = counter + 1 in
      if counter AND 0xFF = 0 then
        (let (t, s) = on_world (RPI_GetSystemTime env) s in
         if HD_ACK_TIMEOUT_US \<le> t - start then (False, s) else hd_spin env n counter start s)
      else hd_spin env n counter start s)"

definition hd_wait_ack :: "'w hd_env \<Rightarrow> 'w hd \<Rightarrow> bool \<times> 'w hd" where
  "hd_wait_ack env s = (let (start, s) = on_world (RPI_GetSystemTime env) s in hd_spin env (spins env) 0 start s)"

definition hd_WriteRequestFlag :: "bool \<Rightarrow> 'w hd \<Rightarrow> 'w hd" where
  "hd_WriteRequestFlag flagState s =
     (if \<not> flagState then hd_emulator_status STATUS_REQ False s else
      let s = hd_emulator_status STATUS_REQ True (s\<lparr>HD_ACK := False\<rparr>) in
      if HD_IRQ_ENABLE s then hd_emulator_set_IRQ (on_bus (Pi1MHz_nIRQ_ASSERT (IRQ_NUM s)) s) else s)"

definition hd_ReadByte :: "'w hd_env \<Rightarrow> 'w hd \<Rightarrow> u8 \<times> 'w hd" where
  "hd_ReadByte env s =
     (let s = hd_WriteRequestFlag False (snd (hd_wait_ack env (hd_WriteRequestFlag True s))) in (HD_DATA s, s))"

definition hd_WriteByte :: "'w hd_env \<Rightarrow> u8 \<Rightarrow> 'w hd \<Rightarrow> 'w hd" where
  "hd_WriteByte env v s =
     hd_WriteRequestFlag False (snd (hd_wait_ack env (hd_WriteRequestFlag True
       (on_bus (Pi1MHz_MemoryWrite (unat (HD_ADDR s)) v) s))))"

section \<open>Block transfers\<close>

text \<open>The loops run over the 256 bytes of the buffer; \<open>k\<close> counts the bytes transferred.\<close>

fun read_dma :: "'w hd_env \<Rightarrow> u8 list \<Rightarrow> nat \<Rightarrow> 'w hd \<Rightarrow> nat \<times> 'w hd" where
  "read_dma env [] k s = (k, s)"
| "read_dma env (b # bs) k s =
     (let s = hd_WriteRequestFlag True (on_bus (Pi1MHz_MemoryWrite (unat (HD_ADDR s)) b) s);
          (ok, s) = hd_wait_ack env s in
      if \<not> ok then (k, s) else read_dma env bs (k + 1) (hd_WriteRequestFlag False s))"

fun write_dma :: "'w hd_env \<Rightarrow> nat \<Rightarrow> nat \<Rightarrow> u8 list \<Rightarrow> 'w hd \<Rightarrow> (nat \<times> u8 list) \<times> 'w hd" where
  "write_dma env 0 k buf s = ((k, buf), s)"
| "write_dma env (Suc n) k buf s =
     (let (ok, s) = hd_wait_ack env (hd_WriteRequestFlag True s) in
      if \<not> ok then ((k, buf), s)
      else write_dma env n (k + 1) (buf[k := HD_DATA s]) (hd_WriteRequestFlag False s))"

definition hd_PerformReadDMA :: "'w hd_env \<Rightarrow> u8 list \<Rightarrow> 'w hd \<Rightarrow> u32 \<times> 'w hd" where
  "hd_PerformReadDMA env buf s = (let (k, s) = read_dma env (take 256 buf) 0 s in (of_nat k, s))"

definition hd_PerformWriteDMA :: "'w hd_env \<Rightarrow> u8 list \<Rightarrow> 'w hd \<Rightarrow> (u32 \<times> u8 list) \<times> 'w hd" where
  "hd_PerformWriteDMA env buf s = (let ((k, b), s) = write_dma env 256 0 buf s in ((of_nat k, b), s))"

definition hd_WriteDataPhaseFlags :: "bool \<Rightarrow> bool \<Rightarrow> bool \<Rightarrow> 'w hd \<Rightarrow> 'w hd" where
  "hd_WriteDataPhaseFlags message commandNotData inputNotOutput s =
     hd_emulator_status STATUS_INO inputNotOutput
       (hd_emulator_status STATUS_CND commandNotData (hd_emulator_status STATUS_MSG message s))"

definition hd_WriteBusyFlag :: "bool \<Rightarrow> 'w hd \<Rightarrow> 'w hd" where
  "hd_WriteBusyFlag flagState s =
     (let s = hd_emulator_status STATUS_BSY flagState s in if flagState then s\<lparr>HD_SEL := False\<rparr> else s)"

definition hd_ReadSelectFlag :: "'w hd_env \<Rightarrow> 'w hd \<Rightarrow> bool \<times> 'w hd" where
  "hd_ReadSelectFlag env s = (let s = hd_fiq env s in (HD_SEL s, s))"

definition hd_ReadDatabus :: "'w hd \<Rightarrow> u8 \<times> 'w hd" where
  "hd_ReadDatabus s = (HD_DATA s, s)"

definition hd_ReadResetFlag :: "'w hd_env \<Rightarrow> 'w hd \<Rightarrow> bool \<times> 'w hd" where
  "hd_ReadResetFlag env s = on_world (Pi1MHz_is_rst_active env) s"

text \<open>The host adapter that the SCSI target runs on; the activity LED is left out.\<close>

definition hd_hostadapter :: "'w hd_env \<Rightarrow> 'w hd hostadapter" where
  "hd_hostadapter env = \<lparr>
     hostadapterReadDatabus = hd_ReadDatabus, hostadapterReadByte = hd_ReadByte env,
     hostadapterWriteByte = hd_WriteByte env, hostadapterPerformReadDMA = hd_PerformReadDMA env,
     hostadapterPerformWriteDMA = hd_PerformWriteDMA env, hostadapterWriteResetFlag = (\<lambda>_ s. s),
     hostadapterReadResetFlag = hd_ReadResetFlag env,
     hostadapterWriteDataPhaseFlags = hd_WriteDataPhaseFlags, hostadapterWriteBusyFlag = hd_WriteBusyFlag,
     hostadapterWriteRequestFlag = hd_WriteRequestFlag, hostadapterReadSelectFlag = hd_ReadSelectFlag env,
     statusledActivity = (\<lambda>_ s. s), indeterminate = (\<lambda>s. stack env (world s))\<rparr>"

text \<open>The jukebox register resets the file system and then selects the directory.\<close>

definition hd_emulator_write_scsijuke :: "('h, 'f) scsi_env \<Rightarrow> u8 \<Rightarrow> ('h, 'f) scsi \<Rightarrow> ('h, 'f) scsi" where
  "hd_emulator_write_scsijuke e data s = snd (scsiJukebox data (do_fs (filesystemReset (sd e)) s))"

section \<open>The status register\<close>

text \<open>
  The invariant: the two memories of the bus agree, and the Beeb reads the bus phase and the
  interrupt flag in the status register.
\<close>

definition hd_wf :: "'w hd \<Rightarrow> bool" where
  "hd_wf s \<longleftrightarrow> mem_wf (hd_bus s) \<and> (HD_IRQ s = 0 \<or> HD_IRQ s = STATUS_IRQ) \<and>
     bus_read (hd_bus s) (status_reg s) = HD_status s OR HD_IRQ s"

lemma reg_bounds: "unat (HD_ADDR s) < 512" "status_reg s < 512" "status_reg s \<noteq> unat (HD_ADDR s)"
  using unat_u8_less [of "HD_ADDR s"] by (simp_all add: status_reg_def del: unat_u8_less)

lemma MemoryWrite_bus_read:
  assumes "mem_wf s" "a < 512" "b < 512"
  shows "bus_read (Pi1MHz_MemoryWrite a d s) b = (if b = a then d else bus_read s b)"
  using MemoryWrite_wf [OF assms(1,2), of d] assms by (auto simp: mem_wf_def nth_list_update)

lemma bus_read_SetnIRQ [simp]: "bus_read (Pi1MHz_SetnIRQ_src i b s) a = bus_read s a"
  by (simp add: bus_read_def Pi1MHz_SetnIRQ_src_def Let_def)

lemmas hd_defs = HD_STATUS_Write_def hd_emulator_write_data_def hd_emulator_read_data_def hd_emulator_nSEL_def
  hd_emulator_status_def hd_emulator_set_IRQ_def hd_emulator_clear_IRQ_def hd_emulator_IRQ_def on_bus_def
  Pi1MHz_nIRQ_CLEAR_def Pi1MHz_nIRQ_ASSERT_def

lemmas hd_mem = MemoryWrite_wf MemoryWrite_bus_read

lemma status_reg_cong [simp]: "status_reg (s\<lparr>HD_status := a\<rparr>) = status_reg s" "status_reg (s\<lparr>HD_IRQ := a\<rparr>) = status_reg s"
  "status_reg (s\<lparr>HD_ACK := b\<rparr>) = status_reg s" "status_reg (s\<lparr>HD_SEL := b\<rparr>) = status_reg s"
  "status_reg (s\<lparr>HD_DATA := a\<rparr>) = status_reg s" "status_reg (s\<lparr>HD_IRQ_ENABLE := b\<rparr>) = status_reg s"
  "status_reg (s\<lparr>hd_bus := u\<rparr>) = status_reg s" "status_reg (s\<lparr>world := w\<rparr>) = status_reg s"
  by (simp_all add: status_reg_def)

lemma hd_status_wf: "hd_wf s \<Longrightarrow> hd_wf (hd_emulator_status b st s)"
  by (auto simp: hd_wf_def hd_defs hd_mem reg_bounds)

lemma hd_serve_wf: "hd_wf s \<Longrightarrow> hd_wf (hd_serve a s)"
  using reg_bounds [of s]
  by (cases a) (auto simp: hd_wf_def hd_defs hd_mem Let_def)

lemma hd_fold_wf: "hd_wf s \<Longrightarrow> hd_wf (fold hd_serve as s)"
  by (induction as arbitrary: s) (auto simp: hd_serve_wf)

lemma hd_world_wf [simp]: "hd_wf (s\<lparr>world := w\<rparr>) = hd_wf s" "hd_wf (s\<lparr>HD_ACK := b\<rparr>) = hd_wf s"
  "hd_wf (s\<lparr>HD_SEL := b\<rparr>) = hd_wf s"
  by (simp_all add: hd_wf_def)

lemma hd_fiq_wf: "hd_wf s \<Longrightarrow> hd_wf (hd_fiq env s)"
  by (simp add: hd_fiq_def case_prod_beta Let_def hd_fold_wf)

lemma on_world_wf [simp]: "hd_wf (snd (on_world f s)) = hd_wf s"
  by (simp add: on_world_def case_prod_beta)

lemma hd_spin_wf: "hd_wf s \<Longrightarrow> hd_wf (snd (hd_spin env n c t s))"
  by (induction n arbitrary: c s) (simp_all add: Let_def case_prod_beta hd_fiq_wf)

lemma hd_request_wf: "hd_wf s \<Longrightarrow> hd_wf (hd_WriteRequestFlag b s)"
  using reg_bounds [of s] by (auto simp: hd_WriteRequestFlag_def hd_wf_def hd_defs hd_mem Let_def)

lemma hd_wait_wf: "hd_wf s \<Longrightarrow> hd_wf (snd (hd_wait_ack env s))"
  by (simp add: hd_wait_ack_def case_prod_beta hd_spin_wf)

lemma hd_data_wf: "hd_wf s \<Longrightarrow> hd_wf (on_bus (Pi1MHz_MemoryWrite (unat (HD_ADDR s)) d) s)"
  using reg_bounds [of s] by (auto simp: hd_wf_def hd_defs hd_mem)

lemma hd_ops_wf:
  assumes "hd_wf s"
  shows "hd_wf (snd (hd_ReadByte env s))" "hd_wf (hd_WriteByte env b s)"
    "hd_wf (hd_WriteDataPhaseFlags m c i s)" "hd_wf (hd_WriteBusyFlag f s)" "hd_wf (snd (hd_ReadSelectFlag env s))"
    "hd_wf (snd (hd_ReadResetFlag env s))" "hd_wf (snd (hd_PerformReadDMA env buf s))"
    "hd_wf (snd (hd_PerformWriteDMA env buf s))"
proof -
  show "hd_wf (snd (hd_PerformReadDMA env buf s))"
  proof -
    have "hd_wf (snd (read_dma env bs k s))" if "hd_wf s" for bs k s
      using that by (induction bs arbitrary: k s)
        (simp_all add: Let_def case_prod_beta hd_wait_wf hd_request_wf hd_data_wf)
    with assms show ?thesis by (simp add: hd_PerformReadDMA_def case_prod_beta)
  qed
  show "hd_wf (snd (hd_PerformWriteDMA env buf s))"
  proof -
    have "hd_wf (snd (write_dma env n k b s))" if "hd_wf s" for n k b s
      using that by (induction n arbitrary: k b s)
        (simp_all add: Let_def case_prod_beta hd_wait_wf hd_request_wf)
    with assms show ?thesis by (simp add: hd_PerformWriteDMA_def case_prod_beta)
  qed
qed (use assms in \<open>simp_all add: hd_ReadByte_def hd_WriteByte_def hd_WriteDataPhaseFlags_def hd_WriteBusyFlag_def
    hd_ReadSelectFlag_def hd_ReadResetFlag_def Let_def hd_wait_wf hd_request_wf hd_data_wf hd_status_wf hd_fiq_wf\<close>)

section \<open>Transfers with a Beeb that follows the handshake\<close>

text \<open>
  A view of the outside world as a Beeb that answers requests: whether it does, after how many
  looks at the bus, the bytes it has to send and the bytes it has read.
\<close>

record 'w beeb_view =
  bv_ok :: "'w \<Rightarrow> bool"
  bv_delay :: "'w \<Rightarrow> nat"
  bv_feed :: "'w \<Rightarrow> u8 list"
  bv_seen :: "'w \<Rightarrow> u8 list"

definition same_view :: "'w beeb_view \<Rightarrow> 'w \<Rightarrow> 'w \<Rightarrow> bool" where
  "same_view v w w' \<longleftrightarrow> bv_ok v w' \<and> bv_feed v w' = bv_feed v w \<and> bv_seen v w' = bv_seen v w"

text \<open>
  While REQ is up, such a Beeb waits for less than 255 looks and then reads the data register, or
  writes it, according to the direction in the status register; the machine is not reset.
\<close>

definition obliging :: "'w hd_env \<Rightarrow> nat \<Rightarrow> 'w beeb_view \<Rightarrow> bool" where
  "obliging env addr v \<longleftrightarrow> 256 \<le> spins env \<and> (\<forall>w. length (stack env w) = 256) \<and> (\<forall>w. bv_ok v w \<longrightarrow>
     fst (Pi1MHz_is_rst_active env w) = False \<and>
     same_view v w (snd (Pi1MHz_is_rst_active env w)) \<and> bv_delay v (snd (Pi1MHz_is_rst_active env w)) = bv_delay v w \<and>
     same_view v w (snd (RPI_GetSystemTime env w)) \<and> bv_delay v (snd (RPI_GetSystemTime env w)) = bv_delay v w \<and>
     bv_delay v w < 255 \<and>
     (\<forall>b. bit (bus_read b (addr + 1)) 5 \<longrightarrow> (\<exists>as w'. beeb env b w = (as, w') \<and>
        (if 0 < bv_delay v w then as = [] \<and> same_view v w w' \<and> bv_delay v w' = bv_delay v w - 1
         else if bit (bus_read b (addr + 1)) 6
         then as = [ReadData] \<and> bv_ok v w' \<and> bv_feed v w' = bv_feed v w \<and> bv_seen v w' = bv_seen v w @ [bus_read b addr]
         else \<forall>d ds. bv_feed v w = d # ds \<longrightarrow>
           as = [WriteData d] \<and> bv_ok v w' \<and> bv_feed v w' = ds \<and> bv_seen v w' = bv_seen v w))))"

lemma hd_wf_status:
  assumes "hd_wf s"
  shows "bit (bus_read (hd_bus s) (unat (HD_ADDR s) + 1)) 5 = bit (HD_status s) 5"
    "bit (bus_read (hd_bus s) (unat (HD_ADDR s) + 1)) 6 = bit (HD_status s) 6"
  using assms by (auto simp: hd_wf_def status_reg_def bit_or_iff STATUS_IRQ_def)

lemma obliging_waits:
  assumes "obliging env addr v" "bv_ok v w" "bit (bus_read b (addr + 1)) 5" "0 < bv_delay v w"
  shows "\<exists>w'. beeb env b w = ([], w') \<and> same_view v w w' \<and> bv_delay v w' = bv_delay v w - 1"
  using assms unfolding obliging_def by (metis (no_types, lifting))

lemma obliging_reads:
  assumes "obliging env addr v" "bv_ok v w" "bit (bus_read b (addr + 1)) 5" "bv_delay v w = 0"
    "bit (bus_read b (addr + 1)) 6"
  shows "\<exists>w'. beeb env b w = ([ReadData], w') \<and> bv_ok v w' \<and> bv_feed v w' = bv_feed v w \<and>
    bv_seen v w' = bv_seen v w @ [bus_read b addr]"
  using assms unfolding obliging_def by (metis (no_types, lifting) less_numeral_extra(3))

lemma obliging_writes:
  assumes "obliging env addr v" "bv_ok v w" "bit (bus_read b (addr + 1)) 5" "bv_delay v w = 0"
    "\<not> bit (bus_read b (addr + 1)) 6" "bv_feed v w = d # ds"
  shows "\<exists>w'. beeb env b w = ([WriteData d], w') \<and> bv_ok v w' \<and> bv_feed v w' = ds \<and> bv_seen v w' = bv_seen v w"
  using assms unfolding obliging_def by (metis (no_types, lifting) less_numeral_extra(3))

lemma obliging_looks:
  assumes "obliging env addr v" "bv_ok v w"
  shows "Pi1MHz_is_rst_active env w = (False, snd (Pi1MHz_is_rst_active env w))"
    "same_view v w (snd (Pi1MHz_is_rst_active env w))" "bv_delay v (snd (Pi1MHz_is_rst_active env w)) = bv_delay v w"
    "same_view v w (snd (RPI_GetSystemTime env w))" "bv_delay v (snd (RPI_GetSystemTime env w)) = bv_delay v w"
    "bv_delay v w < 255" "256 \<le> spins env"
  using assms unfolding obliging_def by (auto simp: prod_eq_iff)

text \<open>What a request that is answered changes.\<close>

definition answered_in :: "'w beeb_view \<Rightarrow> 'w hd \<Rightarrow> 'w hd \<Rightarrow> bool" where
  "answered_in v s s' \<longleftrightarrow> hd_wf s' \<and> HD_status s' = HD_status s \<and> HD_ADDR s' = HD_ADDR s \<and> bv_ok v (world s') \<and>
     bv_feed v (world s') = bv_feed v (world s) \<and>
     bv_seen v (world s') = bv_seen v (world s) @ [bus_read (hd_bus s) (unat (HD_ADDR s))]"

definition answered_out :: "'w beeb_view \<Rightarrow> 'w hd \<Rightarrow> 'w hd \<Rightarrow> bool" where
  "answered_out v s s' \<longleftrightarrow> hd_wf s' \<and> HD_status s' = HD_status s \<and> HD_ADDR s' = HD_ADDR s \<and> bv_ok v (world s') \<and>
     bv_feed v (world s) = HD_DATA s' # bv_feed v (world s') \<and> bv_seen v (world s') = bv_seen v (world s)"

lemma and_255_small: "unat (w :: u32) < 256 \<Longrightarrow> w AND 0xFF = w"
proof -
  assume "unat w < 256"
  then have "take_bit 8 w = w" by (simp add: word_unat_eq_iff unsigned_take_bit_eq take_bit_nat_eq_self)
  then show ?thesis by (simp add: take_bit_eq_mask mask_numeral)
qed

lemma spin_idle:
  assumes ob: "obliging env (unat (HD_ADDR s)) v" and wf: "hd_wf s" and ok: "bv_ok v (world s)" and "\<not> HD_ACK s"
    and "bit (HD_status s) 5" and m: "bv_delay v (world s) = Suc m" and "unat c + Suc m < 256"
  shows "\<exists>u. hd_spin env (Suc n) c t s = hd_spin env n (c + 1) t (s\<lparr>world := u\<rparr>) \<and>
    same_view v (world s) u \<and> bv_delay v u = m \<and> unat (c + 1) = unat c + 1"
proof -
  obtain w where w: "beeb env (hd_bus s) (world s) = ([], w)" "same_view v (world s) w" "bv_delay v w = m"
    using obliging_waits [OF ob ok, of "hd_bus s"] hd_wf_status [OF wf] assms(5) m by auto
  have f: "hd_fiq env s = s\<lparr>world := w\<rparr>" by (simp add: hd_fiq_def w(1))
  define u where "u = snd (Pi1MHz_is_rst_active env w)"
  have "bv_ok v w" using w(2) by (simp add: same_view_def)
  then have r: "Pi1MHz_is_rst_active env w = (False, u)" "same_view v w u" "bv_delay v u = m"
    using obliging_looks [OF ob, of w] w(3) by (auto simp: u_def)
  have c: "unat (c + 1) = unat c + 1" using assms(7) by (auto simp: unat_plus_if')
  then have "(c + 1) AND 0xFF \<noteq> 0"
    using assms(7) and_255_small [of "c + 1"] by (auto simp: word_unat_eq_iff)
  then show ?thesis
    using assms(4) f r w(2) c by (intro exI [of _ u]) (auto simp: Let_def on_world_def same_view_def)
qed

lemma spin_in:
  assumes "obliging env (unat (HD_ADDR s)) v" "hd_wf s" "bv_ok v (world s)" "\<not> HD_ACK s"
    "bit (HD_status s) 5" "bit (HD_status s) 6" "bv_delay v (world s) < n" "unat c + bv_delay v (world s) < 256"
  shows "\<exists>s'. hd_spin env n c t s = (True, s') \<and> answered_in v s s'"
  using assms
proof (induction n arbitrary: c s)
  case (Suc n)
  note ob = Suc.prems(1) and wf = Suc.prems(2) and ok = Suc.prems(3)
  show ?case
  proof (cases "bv_delay v (world s)")
    case 0
    obtain w where w: "beeb env (hd_bus s) (world s) = ([ReadData], w)" "bv_ok v w" "bv_feed v w = bv_feed v (world s)"
      "bv_seen v w = bv_seen v (world s) @ [bus_read (hd_bus s) (unat (HD_ADDR s))]"
      using obliging_reads [OF ob ok _ 0, of "hd_bus s"] hd_wf_status [OF wf] Suc.prems(5,6) by auto
    have "hd_fiq env s = s\<lparr>world := w, HD_ACK := True\<rparr>"
      by (simp add: hd_fiq_def w(1) hd_emulator_read_data_def)
    with w(2-) wf show ?thesis by (simp add: answered_in_def hd_wf_def)
  next
    case (Suc m)
    with Suc.prems obtain u where u: "hd_spin env (Suc n) c t s = hd_spin env n (c + 1) t (s\<lparr>world := u\<rparr>)"
      "same_view v (world s) u" "bv_delay v u = m" "unat (c + 1) = unat c + 1"
      using spin_idle [OF ob wf ok, of m c n t] by auto
    have "\<exists>s'. hd_spin env n (c + 1) t (s\<lparr>world := u\<rparr>) = (True, s') \<and> answered_in v (s\<lparr>world := u\<rparr>) s'"
      using Suc.prems u(2-) Suc by (intro Suc.IH) (auto simp: same_view_def)
    with u show ?thesis by (auto simp: answered_in_def same_view_def simp del: hd_spin.simps)
  qed
qed simp

lemma spin_out:
  assumes "obliging env (unat (HD_ADDR s)) v" "hd_wf s" "bv_ok v (world s)" "\<not> HD_ACK s"
    "bit (HD_status s) 5" "\<not> bit (HD_status s) 6" "bv_feed v (world s) \<noteq> []"
    "bv_delay v (world s) < n" "unat c + bv_delay v (world s) < 256"
  shows "\<exists>s'. hd_spin env n c t s = (True, s') \<and> answered_out v s s'"
  using assms
proof (induction n arbitrary: c s)
  case (Suc n)
  note ob = Suc.prems(1) and wf = Suc.prems(2) and ok = Suc.prems(3)
  obtain d ds where d: "bv_feed v (world s) = d # ds" using Suc.prems(7) by (cases "bv_feed v (world s)") auto
  show ?case
  proof (cases "bv_delay v (world s)")
    case 0
    obtain w where w: "beeb env (hd_bus s) (world s) = ([WriteData d], w)" "bv_ok v w" "bv_feed v w = ds"
      "bv_seen v w = bv_seen v (world s)"
      using obliging_writes [OF ob ok _ 0 _ d, of "hd_bus s"] hd_wf_status [OF wf] Suc.prems(5,6) by auto
    have f: "hd_fiq env s = hd_serve (WriteData d) (s\<lparr>world := w\<rparr>)" by (simp add: hd_fiq_def w(1))
    have "hd_wf (hd_serve (WriteData d) (s\<lparr>world := w\<rparr>))" using wf by (intro hd_serve_wf) simp
    with w(2-) d show ?thesis by (simp add: f answered_out_def) (simp add: hd_defs)
  next
    case (Suc m)
    with Suc.prems obtain u where u: "hd_spin env (Suc n) c t s = hd_spin env n (c + 1) t (s\<lparr>world := u\<rparr>)"
      "same_view v (world s) u" "bv_delay v u = m" "unat (c + 1) = unat c + 1"
      using spin_idle [OF ob wf ok, of m c n t] by auto
    have "\<exists>s'. hd_spin env n (c + 1) t (s\<lparr>world := u\<rparr>) = (True, s') \<and> answered_out v (s\<lparr>world := u\<rparr>) s'"
      using Suc.prems u(2-) Suc by (intro Suc.IH) (auto simp: same_view_def)
    with u show ?thesis by (auto simp: answered_out_def same_view_def simp del: hd_spin.simps)
  qed
qed simp

text \<open>The adapter is ready for transfers in one direction, with such a Beeb on the bus.\<close>

definition hd_ready :: "'w hd_env \<times> 'w beeb_view \<Rightarrow> bool \<Rightarrow> 'w hd \<Rightarrow> bool" where
  "hd_ready = (\<lambda>(env, v) inp s. obliging env (unat (HD_ADDR s)) v \<and> hd_wf s \<and> bv_ok v (world s) \<and>
     bit (HD_status s) 6 = inp)"

definition hd_sent :: "'w hd_env \<times> 'w beeb_view \<Rightarrow> 'w hd \<Rightarrow> u8 list" where
  "hd_sent = (\<lambda>(env, v) s. bv_seen v (world s))"

definition hd_feed :: "'w hd_env \<times> 'w beeb_view \<Rightarrow> 'w hd \<Rightarrow> u8 list" where
  "hd_feed = (\<lambda>(env, v) s. bv_feed v (world s))"

lemma bit_req: "bit (32 :: u8) n \<longleftrightarrow> n = 5" "bit (64 :: u8) n \<longleftrightarrow> n = 6"
  "bit (1 :: u8) n \<longleftrightarrow> n = 0" "bit (128 :: u8) n \<longleftrightarrow> n = 7"
proof -
  have "bit (2 ^ k :: u8) n \<longleftrightarrow> k < 8 \<and> n = k" for k by (auto simp: bit_exp_iff)
  from this [of 5] this [of 6] this [of 0] this [of 7] show "bit (32 :: u8) n \<longleftrightarrow> n = 5" "bit (64 :: u8) n \<longleftrightarrow> n = 6"
    "bit (1 :: u8) n \<longleftrightarrow> n = 0" "bit (128 :: u8) n \<longleftrightarrow> n = 7" by simp_all
qed

lemma request_fields:
  "world (hd_WriteRequestFlag b s) = world s" "HD_ADDR (hd_WriteRequestFlag b s) = HD_ADDR s"
  "bit (HD_status (hd_WriteRequestFlag b s)) 5 = b" "bit (HD_status (hd_WriteRequestFlag b s)) 6 = bit (HD_status s) 6"
  "b \<Longrightarrow> \<not> HD_ACK (hd_WriteRequestFlag b s)" "HD_DATA (hd_WriteRequestFlag b s) = HD_DATA s"
  by (auto simp: hd_WriteRequestFlag_def hd_defs Let_def STATUS_REQ_def bit_or_iff bit_and_iff bit_not_iff bit_req)

lemma request_data_reg:
  assumes "hd_wf s"
  shows "bus_read (hd_bus (hd_WriteRequestFlag b s)) (unat (HD_ADDR s)) = bus_read (hd_bus s) (unat (HD_ADDR s))"
  using assms reg_bounds [of s]
  by (auto simp: hd_WriteRequestFlag_def hd_defs Let_def hd_wf_def hd_mem)

lemma wait_start:
  assumes "hd_ready (env, v) inp s"
  shows "\<exists>u start. hd_wait_ack env (hd_WriteRequestFlag True s) = hd_spin env (spins env) 0 start (hd_WriteRequestFlag True s\<lparr>world := u\<rparr>) \<and>
    same_view v (world s) u \<and> bv_delay v u < 255"
proof -
  have ob: "obliging env (unat (HD_ADDR s)) v" and ok: "bv_ok v (world s)" using assms by (auto simp: hd_ready_def)
  obtain start u where "RPI_GetSystemTime env (world s) = (start, u)" by fastforce
  with obliging_looks [OF ob ok] show ?thesis
    by (intro exI [of _ u] exI [of _ start]) (auto simp: hd_wait_ack_def on_world_def request_fields)
qed

lemma handshake_in:
  assumes "hd_ready (env, v) True s"
  shows "\<exists>s'. hd_wait_ack env (hd_WriteRequestFlag True s) = (True, s') \<and>
    hd_ready (env, v) True (hd_WriteRequestFlag False s') \<and> HD_ADDR (hd_WriteRequestFlag False s') = HD_ADDR s \<and>
    bv_feed v (world (hd_WriteRequestFlag False s')) = bv_feed v (world s) \<and>
    bv_seen v (world (hd_WriteRequestFlag False s')) = bv_seen v (world s) @ [bus_read (hd_bus s) (unat (HD_ADDR s))]"
proof -
  have r: "obliging env (unat (HD_ADDR s)) v" "hd_wf s" "bv_ok v (world s)" "bit (HD_status s) 6"
    using assms by (auto simp: hd_ready_def)
  obtain u t where u: "hd_wait_ack env (hd_WriteRequestFlag True s) =
      hd_spin env (spins env) 0 t (hd_WriteRequestFlag True s\<lparr>world := u\<rparr>)" "same_view v (world s) u" "bv_delay v u < 255"
    using wait_start [OF assms] by blast
  have "256 \<le> spins env" using obliging_looks [OF r(1,3)] by simp
  then have "\<exists>s'. hd_spin env (spins env) 0 t (hd_WriteRequestFlag True s\<lparr>world := u\<rparr>) = (True, s') \<and>
      answered_in v (hd_WriteRequestFlag True s\<lparr>world := u\<rparr>) s'"
    using r u by (intro spin_in) (auto simp: request_fields hd_request_wf same_view_def)
  with u(1,2) r show ?thesis
    by (auto simp: answered_in_def hd_ready_def request_fields hd_request_wf request_data_reg same_view_def)
qed

lemma handshake_out:
  assumes "hd_ready (env, v) False s" "bv_feed v (world s) = d # ds"
  shows "\<exists>s'. hd_wait_ack env (hd_WriteRequestFlag True s) = (True, s') \<and> HD_DATA s' = d \<and>
    hd_ready (env, v) False (hd_WriteRequestFlag False s') \<and> HD_ADDR (hd_WriteRequestFlag False s') = HD_ADDR s \<and>
    bv_feed v (world (hd_WriteRequestFlag False s')) = ds \<and>
    bv_seen v (world (hd_WriteRequestFlag False s')) = bv_seen v (world s)"
proof -
  have r: "obliging env (unat (HD_ADDR s)) v" "hd_wf s" "bv_ok v (world s)" "\<not> bit (HD_status s) 6"
    using assms by (auto simp: hd_ready_def)
  obtain u t where u: "hd_wait_ack env (hd_WriteRequestFlag True s) =
      hd_spin env (spins env) 0 t (hd_WriteRequestFlag True s\<lparr>world := u\<rparr>)" "same_view v (world s) u" "bv_delay v u < 255"
    using wait_start [OF assms(1)] by blast
  have "256 \<le> spins env" using obliging_looks [OF r(1,3)] by simp
  then have "\<exists>s'. hd_spin env (spins env) 0 t (hd_WriteRequestFlag True s\<lparr>world := u\<rparr>) = (True, s') \<and>
      answered_out v (hd_WriteRequestFlag True s\<lparr>world := u\<rparr>) s'"
    using r u assms(2) by (intro spin_out) (auto simp: request_fields hd_request_wf same_view_def)
  with u(1,2) r assms(2) show ?thesis
    by (auto simp: answered_out_def hd_ready_def request_fields hd_request_wf same_view_def)
qed

section \<open>The adapter implements its contract\<close>

lemma ready_data:
  assumes "hd_ready x d s"
  shows "hd_ready x d (on_bus (Pi1MHz_MemoryWrite (unat (HD_ADDR s)) b) s)"
    "bus_read (hd_bus (on_bus (Pi1MHz_MemoryWrite (unat (HD_ADDR s)) b) s)) (unat (HD_ADDR s)) = b"
  using assms reg_bounds [of s] hd_data_wf [of s b]
  by (auto simp: hd_ready_def on_bus_def hd_wf_def [of s] hd_mem split: prod.splits)

lemma on_bus_fields [simp]: "world (on_bus f s) = world s" "HD_ADDR (on_bus f s) = HD_ADDR s"
  by (simp_all add: on_bus_def)

lemma read_dma_sends:
  assumes "hd_ready (env, v) True s"
  shows "\<exists>k' s'. read_dma env bs k s = (k', s') \<and> hd_ready (env, v) True s' \<and>
    bv_seen v (world s') = bv_seen v (world s) @ bs \<and> bv_feed v (world s') = bv_feed v (world s)"
  using assms
proof (induction bs arbitrary: k s)
  case (Cons b bs)
  let ?s1 = "on_bus (Pi1MHz_MemoryWrite (unat (HD_ADDR s)) b) s"
  obtain s2 where s2: "hd_wait_ack env (hd_WriteRequestFlag True ?s1) = (True, s2)"
    "hd_ready (env, v) True (hd_WriteRequestFlag False s2)"
    "bv_feed v (world (hd_WriteRequestFlag False s2)) = bv_feed v (world s)"
    "bv_seen v (world (hd_WriteRequestFlag False s2)) = bv_seen v (world s) @ [b]"
    using handshake_in [OF ready_data(1) [OF Cons.prems, of b]] ready_data(2) [OF Cons.prems, of b] by auto
  from Cons.IH [OF s2(2), of "k + 1"] s2 show ?case by auto
qed simp

lemma write_dma_takes:
  assumes "hd_ready (env, v) False s" "bv_feed v (world s) = bs @ r" "k + length bs = length buf"
  shows "\<exists>k' s'. write_dma env (length bs) k buf s = ((k', take k buf @ bs), s') \<and> hd_ready (env, v) False s' \<and>
    bv_seen v (world s') = bv_seen v (world s) \<and> bv_feed v (world s') = r"
  using assms
proof (induction bs arbitrary: k buf s)
  case (Cons b bs)
  obtain s2 where s2: "hd_wait_ack env (hd_WriteRequestFlag True s) = (True, s2)" "HD_DATA s2 = b"
    "hd_ready (env, v) False (hd_WriteRequestFlag False s2)"
    "bv_feed v (world (hd_WriteRequestFlag False s2)) = bs @ r"
    "bv_seen v (world (hd_WriteRequestFlag False s2)) = bv_seen v (world s)"
    using handshake_out [OF Cons.prems(1), of b "bs @ r"] Cons.prems(2) by auto
  have len: "k + 1 + length bs = length (buf[k := b])" using Cons.prems(3) by simp
  have "take (k + 1) (buf[k := b]) = take k buf @ [b]"
    using Cons.prems(3) by (simp add: take_Suc_conv_app_nth)
  with Cons.IH [OF s2(3,4) len] s2 show ?case by auto
qed simp

lemma ready_status:
  assumes "hd_ready (env, v) d s" "b \<noteq> STATUS_INO" "b \<in> {STATUS_MSG, STATUS_CND}"
  shows "hd_ready (env, v) d (hd_emulator_status b st s)"
  using assms hd_status_wf [of s b st]
  by (auto simp: hd_ready_def hd_defs STATUS_MSG_def STATUS_CND_def bit_or_iff bit_and_iff bit_not_iff bit_req)

lemma ready_direction:
  assumes "hd_ready (env, v) d s"
  shows "hd_ready (env, v) i (hd_emulator_status STATUS_INO i s)"
  using assms hd_status_wf [of s STATUS_INO i]
  by (auto simp: hd_ready_def hd_defs STATUS_INO_def bit_or_iff bit_and_iff bit_not_iff bit_req)

lemma status_world [simp]: "world (hd_emulator_status b st s) = world s"
  by (simp add: hd_defs)

lemma ready_phase: "hd_ready (env, v) d s \<Longrightarrow> hd_ready (env, v) i (hd_WriteDataPhaseFlags m c i s)"
  unfolding hd_WriteDataPhaseFlags_def
  by (rule ready_direction, rule ready_status, rule ready_status)
     (auto simp: STATUS_INO_def STATUS_MSG_def STATUS_CND_def)

interpretation hdbus: bus_host "\<lambda>(env, v). hd_hostadapter env" hd_ready hd_sent hd_feed
proof unfold_locales
  fix x :: "'a hd_env \<times> 'a beeb_view" and d h h' m c i
  assume "hd_ready x d h" "h' = hostadapterWriteDataPhaseFlags (case x of (env, v) \<Rightarrow> hd_hostadapter env) m c i h"
  then show "hd_ready x i h' \<and> hd_sent x h' = hd_sent x h \<and> hd_feed x h' = hd_feed x h"
    using ready_phase [of "fst x" "snd x" d h i m c]
    by (cases x) (auto simp: hd_hostadapter_def hd_sent_def hd_feed_def hd_WriteDataPhaseFlags_def)
next
  fix x :: "'a hd_env \<times> 'a beeb_view" and d h h' b
  assume "hd_ready x d h" "h' = statusledActivity (case x of (env, v) \<Rightarrow> hd_hostadapter env) b h"
  then show "hd_ready x d h' \<and> hd_sent x h' = hd_sent x h \<and> hd_feed x h' = hd_feed x h"
    by (cases x) (auto simp: hd_hostadapter_def)
next
  fix x :: "'a hd_env \<times> 'a beeb_view" and d h
  assume "hd_ready x d h"
  then show "\<exists>h'. hostadapterReadResetFlag (case x of (env, v) \<Rightarrow> hd_hostadapter env) h = (False, h') \<and>
      hd_ready x d h' \<and> hd_sent x h' = hd_sent x h \<and> hd_feed x h' = hd_feed x h"
    using obliging_looks [of "fst x" "unat (HD_ADDR h)" "snd x" "world h"]
    by (cases x) (auto simp: hd_hostadapter_def hd_ReadResetFlag_def on_world_def hd_ready_def hd_sent_def hd_feed_def
        same_view_def split: prod.splits)
next
  fix x :: "'a hd_env \<times> 'a beeb_view" and h h' b
  assume r: "hd_ready x True h" "h' = hostadapterWriteByte (case x of (env, v) \<Rightarrow> hd_hostadapter env) b h"
  obtain env v where x: "x = (env, v)" by fastforce
  from r(1) handshake_in [OF ready_data(1), of env v h b] ready_data(2) [of x True h b]
  show "hd_ready x True h' \<and> hd_sent x h' = hd_sent x h @ [b] \<and> hd_feed x h' = hd_feed x h"
    unfolding r(2) by (auto simp: x hd_hostadapter_def hd_WriteByte_def hd_sent_def hd_feed_def)
next
  fix x :: "'a hd_env \<times> 'a beeb_view" and h b r
  assume r: "hd_ready x False h" "hd_feed x h = b # r"
  obtain env v where x: "x = (env, v)" by fastforce
  from r handshake_out [of env v h b r]
  show "\<exists>h'. hostadapterReadByte (case x of (env, v) \<Rightarrow> hd_hostadapter env) h = (b, h') \<and>
      hd_ready x False h' \<and> hd_sent x h' = hd_sent x h \<and> hd_feed x h' = r"
    by (auto simp: x hd_hostadapter_def hd_ReadByte_def hd_sent_def hd_feed_def Let_def request_fields)
next
  fix x :: "'a hd_env \<times> 'a beeb_view" and h bs
  assume r: "hd_ready x True h" "length (bs :: u8 list) = 256"
  obtain env v where x: "x = (env, v)" by fastforce
  from r read_dma_sends [of env v h bs 0]
  show "\<exists>k h'. hostadapterPerformReadDMA (case x of (env, v) \<Rightarrow> hd_hostadapter env) bs h = (k, h') \<and>
      hd_ready x True h' \<and> hd_sent x h' = hd_sent x h @ bs \<and> hd_feed x h' = hd_feed x h"
    by (auto simp: x hd_hostadapter_def hd_PerformReadDMA_def hd_sent_def hd_feed_def)
next
  fix x :: "'a hd_env \<times> 'a beeb_view" and h bs r buf
  assume r: "hd_ready x False h" "length (buf :: u8 list) = 256" "hd_feed x h = bs @ r" "length bs = 256"
  obtain env v where x: "x = (env, v)" by fastforce
  from r write_dma_takes [of env v h bs r 0 buf]
  show "\<exists>k h'. hostadapterPerformWriteDMA (case x of (env, v) \<Rightarrow> hd_hostadapter env) buf h = ((k, bs), h') \<and>
      hd_ready x False h' \<and> hd_sent x h' = hd_sent x h \<and> hd_feed x h' = r"
    by (auto simp: x hd_hostadapter_def hd_PerformWriteDMA_def hd_sent_def hd_feed_def)
next
  fix x :: "'a hd_env \<times> 'a beeb_view" and d h
  assume "hd_ready x d h"
  then show "length (indeterminate (case x of (env, v) \<Rightarrow> hd_hostadapter env) h) = 256"
    by (cases x) (auto simp: hd_hostadapter_def hd_ready_def obliging_def)
qed

end
