(* ===== verification/ScsiEndToEnd.thy ===== *)
theory ScsiEndToEnd
  imports HostAdapter
begin



text \<open>C9. Four polls of the emulation serve a whole READ(6): with a Beeb that follows the handshake,
  the target takes the six command bytes, sends exactly the addressed sectors of the unit's
  image, GOOD status and the message byte, and is bus free again; the image is unchanged and no
  other byte is taken from the Beeb.\<close>

theorem read6_over_bus:
  assumes "ha e = hd_hostadapter env" "hd_ready (env, bv) d (host s)" "scsiState s = SCSI_COMMAND"
    and "bv_feed bv (world (host s)) = [0x08, b1, b2, b3, b4, b5] @ r"
    and "l = addressed_unit (scsiHostID s) b1" "filesystemReadLunStatus l (fs s)" "readable (sd e, l, v) (fs s)"
    and "k = unat (lba21 [0x08, b1, b2, b3, b4, b5])" "n = unat (block_count [0x08, b1, b2, b3, b4, b5])"
  shows "\<exists>s'. (scsiProcessEmulation e ^^ 4) s = s' \<and> scsiState s' = SCSI_BUSFREE \<and>
    bv_seen bv (world (host s')) = bv_seen bv (world (host s)) @
      concat (map (sector (fv_data v (card (fs s)))) [k..<k + n]) @ [SCSI_STATUS_OK, 0] \<and>
    bv_feed bv (world (host s')) = r \<and> fv_data v (card (fs s')) = fv_data v (card (fs s))"
  using hdbus.read6_transaction [of e "(env, bv)" d s b1 b2 b3 b4 b5 r l v k n] assms
  by (simp add: hd_feed_def hd_sent_def)





text \<open>
  What was written is read back: a READ transaction with the same block address and count, on any
  later state in which the image is still the one that the WRITE transaction left.
\<close>


text \<open>
  The jukebox register: it stops every unit and then selects the directory, which the command of
  the same purpose refuses while a unit is started.
\<close>

text \<open>A write to the jukebox register stops all units and then selects the directory written,
  for the SCSI or for the VFS half according to the id of the host that last selected the target.\<close>

theorem scsijuke_register:
  assumes "fsMountState (fs s)" "length (fsLunStatus (fs s)) = MAX_LUNS"
  shows "(\<forall>l < MAX_LUNS. \<not> filesystemReadLunStatus l (fs (hd_emulator_write_scsijuke e n s))) \<and>
    (if scsiHostID s < 16 then lunDirectory (fs (hd_emulator_write_scsijuke e n s)) = n
     else lunDirectoryVFS (fs (hd_emulator_write_scsijuke e n s)) = n)"
proof -
  let ?t = "do_fs (filesystemReset (sd e)) s"
  have stop: "\<forall>l < MAX_LUNS. \<not> filesystemReadLunStatus l (fs ?t)"
    using assms reset_stops_all [of "fs s" _ "sd e"] by (simp add: do_fs_def)
  then have "scsiJukebox n ?t = (True, do_fs (filesystemSetLunDirectory (scsiHostID ?t) n) ?t)"
    by (auto simp: scsiJukebox_def list_ex_iff)
  with stop show ?thesis
    by (auto simp: hd_emulator_write_scsijuke_def do_fs_def filesystemSetLunDirectory_def filesystemReadLunStatus_def)
qed

end
