(* ===== verification/HdWait.thy ===== *)
theory HdWait
  imports HostAdapter
begin

text \<open>
  The wait for the host's acknowledge ends, and in bounded time: with a clock that advances, the
  bound on the rounds of the model's busy wait is never what ends it.
\<close>

definition small_step :: "nat \<Rightarrow> nat \<Rightarrow> nat \<Rightarrow> bool" where
  "small_step g a b \<longleftrightarrow> a \<le> b \<and> b \<le> a + g"

definition clock_law :: "'w hd_env \<Rightarrow> ('w \<Rightarrow> nat) \<Rightarrow> nat \<Rightarrow> bool" where
  "clock_law env clk g \<longleftrightarrow> g \<le> 65536 \<and> (\<forall>w. fst (RPI_GetSystemTime env w) = of_nat (clk w) \<and>
     clk w < clk (snd (RPI_GetSystemTime env w)) \<and> small_step g (clk w) (clk (snd (RPI_GetSystemTime env w))) \<and>
     small_step g (clk w) (clk (snd (Pi1MHz_is_rst_active env w))) \<and>
     (\<forall>b. small_step g (clk w) (clk (snd (beeb env b w)))))"

lemma world_serve [simp]: "world (fold hd_serve as s) = world s"
proof (induction as arbitrary: s)
  case (Cons a as)
  have "world (hd_serve a s) = world s" by (cases a) (simp_all add: hd_defs Let_def)
  with Cons show ?case by simp
qed simp

lemma spin_looks:
  assumes "clock_law env clk g"
  shows "small_step g (clk (world s)) (clk (world (hd_fiq env s)))"
    "small_step g (clk (world s)) (clk (world (snd (on_world (Pi1MHz_is_rst_active env) s))))"
    "clk (world s) < clk (world (snd (on_world (RPI_GetSystemTime env) s)))"
    "small_step g (clk (world s)) (clk (world (snd (on_world (RPI_GetSystemTime env) s))))"
    "fst (on_world (RPI_GetSystemTime env) s) = of_nat (clk (world s))"
  using assms by (simp_all add: clock_law_def hd_fiq_def on_world_def case_prod_beta Let_def)

definition waiting_since :: "nat \<Rightarrow> nat \<Rightarrow> nat \<Rightarrow> u32 \<Rightarrow> bool" where
  "waiting_since g T0 now c \<longleftrightarrow> T0 \<le> now \<and> now < T0 + 100000 + 2 * g * (unat c mod 256) + 2 * g + 1"

lemma counter_step: "(c + 1) AND 0xFF = 0 \<longleftrightarrow> unat (c :: u32) mod 256 = 255"
  "unat c mod 256 \<noteq> 255 \<Longrightarrow> unat (c + 1) mod 256 = unat c mod 256 + 1"
  "unat c mod 256 = 255 \<Longrightarrow> unat (c + 1) mod 256 = 0"
proof -
  have a: "unat ((c + 1) AND 0xFF) = unat (c + 1) mod 256"
  proof -
    have "(c + 1) AND 0xFF = take_bit 8 (c + 1)" by (simp add: take_bit_eq_mask mask_numeral)
    then show ?thesis by (simp only: unsigned_take_bit_eq) (simp add: take_bit_eq_mod)
  qed
  have b: "unat (c + 1) mod 256 = (unat c + 1) mod 256"
  proof (cases "unat c + 1 = 4294967296")
    case True
    then have "unat (c + 1) = 0" by (simp add: unat_plus_if')
    then show ?thesis unfolding True by simp
  next
    case False
    with u32_less [of c] have "unat (c + 1) = unat c + 1" by (simp add: unat_plus_if')
    then show ?thesis by simp
  qed
  show "(c + 1) AND 0xFF = 0 \<longleftrightarrow> unat c mod 256 = 255"
    using a b by (auto simp: unat_eq_0 [symmetric] mod_Suc split: if_splits)
  show "unat c mod 256 \<noteq> 255 \<Longrightarrow> unat (c + 1) mod 256 = unat c mod 256 + 1"
    "unat c mod 256 = 255 \<Longrightarrow> unat (c + 1) mod 256 = 0"
    using b by (simp_all add: mod_Suc)
qed

lemma elapsed:
  assumes "T0 \<le> now" "now - T0 < 4294967296"
  shows "HD_ACK_TIMEOUT_US \<le> of_nat now - of_nat T0 \<longleftrightarrow> 100000 \<le> now - T0"
proof -
  have "(of_nat now - of_nat T0 :: u32) = of_nat (now - T0)" using assms(1) by (simp add: of_nat_diff)
  moreover have "unat (of_nat (now - T0) :: u32) = now - T0"
    using assms(2) by (simp add: unat_of_nat take_bit_nat_eq_self)
  ultimately show ?thesis by (simp add: word_le_nat_alt HD_ACK_TIMEOUT_US_def)
qed

lemma spin_ends:
  assumes "clock_law env clk g" "waiting_since g T0 (clk (world s)) c"
    and "256 * (T0 + 100000 - clk (world s)) + (256 - unat c mod 256) \<le> N" "N \<le> n"
  shows "hd_spin env n c (of_nat T0) s = hd_spin env N c (of_nat T0) s \<and>
    clk (world (snd (hd_spin env N c (of_nat T0) s))) \<le> T0 + 100000 + 520 * g"
  using assms(2-)
proof (induction N arbitrary: n c s)
  case 0
  have "unat c mod 256 < 256" by simp
  with 0 show ?case by simp
next
  case (Suc N)
  then obtain m where m: "n = Suc m" "N \<le> m" by (cases n) auto
  define s1 where "s1 = hd_fiq env s"
  define s2 where "s2 = snd (on_world (Pi1MHz_is_rst_active env) s1)"
  define s3 where "s3 = snd (on_world (RPI_GetSystemTime env) s2)"
  note looks = spin_looks [OF assms(1), of s, folded s1_def] spin_looks [OF assms(1), of s1, folded s2_def]
    spin_looks [OF assms(1), of s2, folded s3_def]
  have 12: "clk (world s) \<le> clk (world s1)" "clk (world s1) \<le> clk (world s2)" "clk (world s2) \<le> clk (world s) + 2 * g"
    "clk (world s1) \<le> clk (world s) + g"
    using looks by (auto simp: small_step_def)
  have w: "T0 \<le> clk (world s)" "clk (world s) < T0 + 100000 + 2 * g * (unat c mod 256) + 2 * g + 1"
    using Suc.prems(1) by (auto simp: waiting_since_def algebra_simps)
  have g: "g \<le> 65536" using assms(1) by (simp add: clock_law_def)
  have c256: "unat c mod 256 < 256" by simp
  have "2 * g * (unat c mod 256) \<le> 2 * g * 255" by (rule mult_le_mono2) (use c256 in linarith)
  then have bound: "clk (world s1) \<le> T0 + 100000 + 520 * g" "clk (world s2) + g \<le> T0 + 100000 + 520 * g"
    using 12 w by linarith+
  have time: "fst (on_world (RPI_GetSystemTime env) s2) = of_nat (clk (world s2))"
    "clk (world s2) < clk (world s3)" "clk (world s3) \<le> clk (world s2) + g"
    using looks by (auto simp: small_step_def)
  show ?case
  proof (cases "HD_ACK s1 \<or> fst (on_world (Pi1MHz_is_rst_active env) s1)")
    case True
    then show ?thesis
      using bound by (auto simp: m Let_def case_prod_beta simp flip: s1_def s2_def)
  next
    case run: False
    show ?thesis
    proof (cases "unat c mod 256 = 255")
      case True
      have el: "HD_ACK_TIMEOUT_US \<le> of_nat (clk (world s2)) - of_nat T0 \<longleftrightarrow> 100000 \<le> clk (world s2) - T0"
        using 12 w g True by (intro elapsed) auto
      show ?thesis
      proof (cases "100000 \<le> clk (world s2) - T0")
        case True
        have "clk (world s3) \<le> T0 + 100000 + 520 * g" using time bound by linarith
        with el run True time(1) \<open>unat c mod 256 = 255\<close> show ?thesis
          by (simp add: m Let_def case_prod_beta counter_step flip: s1_def s2_def s3_def)
      next
        case False
        have "hd_spin env m (c + 1) (of_nat T0) s3 = hd_spin env N (c + 1) (of_nat T0) s3 \<and>
            clk (world (snd (hd_spin env N (c + 1) (of_nat T0) s3))) \<le> T0 + 100000 + 520 * g"
          using False 12 w time True Suc.prems(2) m(2) counter_step(3) [OF True]
          by (intro Suc.IH) (auto simp: waiting_since_def algebra_simps)
        with el run False time \<open>unat c mod 256 = 255\<close> show ?thesis
          by (simp add: m Let_def case_prod_beta counter_step flip: s1_def s2_def s3_def)
      qed
    next
      case False
      have "hd_spin env m (c + 1) (of_nat T0) s2 = hd_spin env N (c + 1) (of_nat T0) s2 \<and>
          clk (world (snd (hd_spin env N (c + 1) (of_nat T0) s2))) \<le> T0 + 100000 + 520 * g"
        using 12 w Suc.prems(2) m(2) counter_step(2) [OF False] c256
        by (intro Suc.IH) (auto simp: waiting_since_def algebra_simps)
      with run False show ?thesis
        by (simp add: m Let_def case_prod_beta counter_step flip: s1_def s2_def)
    qed
  qed
qed

lemma hd_spin_bound_irrelevant: "hd_spin (env\<lparr>spins := k\<rparr>) n c t s = hd_spin env n c t s"
  by (induction n arbitrary: c s) (simp_all add: hd_fiq_def Let_def case_prod_beta)

text \<open>C25. A wait for the host's ACK always ends: with a clock that advances on every reading, the
  loop leaves within 100 ms plus 520 clock steps, and no larger bound on its iterations changes
  the result.\<close>

theorem hd_wait_ack_ends:
  assumes "clock_law env clk g" "25600256 \<le> spins env" "spins env \<le> n"
  shows "hd_wait_ack (env\<lparr>spins := n\<rparr>) s = hd_wait_ack env s \<and>
    clk (world (snd (hd_wait_ack env s))) \<le> clk (world s) + 100000 + 520 * g"
proof -
  define s1 where "s1 = snd (on_world (RPI_GetSystemTime env) s)"
  have t: "on_world (RPI_GetSystemTime env) s = (of_nat (clk (world s)), s1)"
    "clk (world s) < clk (world s1)" "clk (world s1) \<le> clk (world s) + g"
    using spin_looks [OF assms(1), of s] by (auto simp: s1_def prod_eq_iff small_step_def)
  have "waiting_since g (clk (world s)) (clk (world s1)) 0"
    using t by (auto simp: waiting_since_def)
  moreover have "256 * (clk (world s) + 100000 - clk (world s1)) + (256 - unat (0 :: u32) mod 256) \<le> spins env"
    using t(2) assms(2) by simp
  ultimately have "hd_spin env n 0 (of_nat (clk (world s))) s1 = hd_spin env (spins env) 0 (of_nat (clk (world s))) s1 \<and>
      clk (world (snd (hd_spin env (spins env) 0 (of_nat (clk (world s))) s1))) \<le> clk (world s) + 100000 + 520 * g"
    by (rule spin_ends [OF assms(1)]) (rule assms(3))
  moreover have "hd_wait_ack env s = hd_spin env (spins env) 0 (of_nat (clk (world s))) s1"
    by (simp only: hd_wait_ack_def t(1) Let_def prod.case)
  moreover have "hd_wait_ack (env\<lparr>spins := n\<rparr>) s = hd_spin env n 0 (of_nat (clk (world s))) s1"
    using t(1) by (simp add: hd_wait_ack_def hd_spin_bound_irrelevant)
  ultimately show ?thesis by simp
qed

end
