(* ===== verification/ScsiDemo.thy ===== *)
theory ScsiDemo
  imports ScsiEndToEnd HdWait
begin

text \<open>
  Concrete instances: a card in memory that holds one image, a Beeb that follows the handshake, and
  a target with unit 0 started, to show that the hypotheses of the disc theorems can hold.
\<close>

section \<open>A card in memory\<close>

record ram =
  rdata :: "u8 list"
  rpos :: nat
  rlink :: bool

definition ram_room :: nat where "ram_room = 65536"

definition ram_ops :: "ram sdcard" where
  "ram_ops = \<lparr>f_mount = (\<lambda>n c. (FR_OK, c)), f_open = (\<lambda>fp n m c. (FR_OK, c)), f_close = (\<lambda>fp c. (FR_OK, c)),
     f_size = (\<lambda>fp c. of_nat (length (rdata c))), f_tell = (\<lambda>fp c. of_nat (rpos c)),
     f_lseek = (\<lambda>fp p c. (FR_OK, c\<lparr>rdata := rdata c @ replicate (unat p - length (rdata c)) 0, rpos := unat p\<rparr>)),
     f_linkmap = (\<lambda>fp c. (FR_OK, c)), cltbl = (\<lambda>fp c. rlink c), set_cltbl = (\<lambda>fp b c. c\<lparr>rlink := b\<rparr>),
     f_read = (\<lambda>fp n c. ((FR_OK, take n (drop (rpos c) (rdata c))),
        c\<lparr>rpos := min (rpos c + n) (length (rdata c))\<rparr>)),
     f_write = (\<lambda>fp bs c. let m = (if rlink c then min (length bs) (length (rdata c) - rpos c) else length bs) in
        ((FR_OK, m), c\<lparr>rdata := poke_at (rpos c) (take m bs) (rdata c), rpos := rpos c + m\<rparr>)),
     f_sync = (\<lambda>fp c. (FR_OK, c)), f_expand = (\<lambda>fp n c. (FR_OK, c)), f_opendir = (\<lambda>n c. (FR_OK, c)),
     f_readdir = (\<lambda>c. ((FR_OK, \<lparr>fname = [], fsize = 0, fattrib = 0\<rparr>), c)), f_closedir = (\<lambda>c. (FR_OK, c)),
     f_mkdir = (\<lambda>n c. (FR_OK, c)), malloc = (\<lambda>n c. (True, c)), config_beeb_write_protected = (\<lambda>c. False)\<rparr>"

definition ram_view :: "ram file_view" where
  "ram_view = \<lparr>fv_ok = (\<lambda>c. rpos c \<le> length (rdata c) \<and> length (rdata c) \<le> ram_room), fv_data = rdata,
     fv_pos = rpos, fv_cap = (\<lambda>c. length (rdata c)), fv_room = (\<lambda>c. ram_room)\<rparr>"

lemma ram_shape: "file_shape ram_ops fp ram_view"
  by (simp add: file_shape_def ram_ops_def ram_view_def ram_room_def)

lemma ram_seek: "seek_law ram_ops fp ram_view"
  by (auto simp: seek_law_def ram_ops_def ram_view_def)

lemma ram_read: "read_law ram_ops fp ram_view"
  by (auto simp: read_law_def ram_ops_def ram_view_def)




section \<open>A Beeb\<close>

record beeb_world =
  to_send :: "u8 list"
  received :: "u8 list"
  now :: nat

definition beeb_env :: "beeb_world hd_env" where
  "beeb_env = \<lparr>Pi1MHz_is_rst_active = (\<lambda>w. (False, w)),
     RPI_GetSystemTime = (\<lambda>w. (of_nat (now w), w\<lparr>now := now w + 1\<rparr>)),
     beeb = (\<lambda>b w. if bit (bus_read b 0x41) 5 then
        (if bit (bus_read b 0x41) 6 then ([ReadData], w\<lparr>received := received w @ [bus_read b 0x40]\<rparr>)
         else case to_send w of d # ds \<Rightarrow> ([WriteData d], w\<lparr>to_send := ds\<rparr>) | [] \<Rightarrow> ([], w))
        else ([], w)),
     stack = (\<lambda>w. replicate 256 0), spins = 25600256\<rparr>"

definition beeb_view :: "beeb_world beeb_view" where
  "beeb_view = \<lparr>bv_ok = (\<lambda>w. True), bv_delay = (\<lambda>w. 0), bv_feed = to_send, bv_seen = received\<rparr>"

lemma beeb_obliging: "obliging beeb_env 0x40 beeb_view"
  by (auto simp: obliging_def beeb_env_def beeb_view_def same_view_def split: list.split)

lemma beeb_clock: "clock_law beeb_env now 1"
  by (auto simp: clock_law_def beeb_env_def small_step_def split: list.splits)

section \<open>A target with unit 0 started\<close>

definition demo_bus :: bus where
  "demo_bus = bus_reset 1 2 3 \<lparr>Memory = [], Memory_VPU = [], nirq_mask = 0, nirq_output = False, nnmi_output = False,
     status_addr = 0, fx_register = replicate 256 0, callback_table = (\<lambda>_. 0), poll_table = []\<rparr>"

definition demo_hd :: "u8 list \<Rightarrow> beeb_world hd" where
  "demo_hd bytes = hd_init 3 0x40 \<lparr>HD_ADDR = 0, IRQ_NUM = 0, HD_ACK = False, HD_DATA = 0, HD_SEL = False,
     HD_IRQ_ENABLE = False, HD_status = 0, HD_IRQ = 0, hd_bus = demo_bus,
     world = \<lparr>to_send = bytes, received = [], now = 0\<rparr>\<rparr>"

lemma hd_init_wf: "mem_wf (hd_bus s) \<Longrightarrow> hd_wf (hd_init i a s)"
  using reg_bounds [of "s\<lparr>HD_ADDR := a\<rparr>"]
  by (auto simp: hd_init_def Let_def hd_defs hd_wf_def hd_mem status_reg_def)

lemma demo_hd_ready: "hd_ready (beeb_env, beeb_view) False (demo_hd bytes)"
proof -
  have "HD_ADDR (demo_hd bytes) = 0x40" "HD_status (demo_hd bytes) = 0"
    by (simp_all add: demo_hd_def hd_init_def Let_def hd_defs)
  then show ?thesis
    using beeb_obliging by (auto simp: hd_ready_def demo_hd_def demo_bus_def beeb_view_def hd_init_wf bus_reset_wf)
qed

definition demo_fs :: "u8 list \<Rightarrow> ram filesystem" where
  "demo_fs img = lun_status_set 0 True
     ((filesystem_power_on (replicate 16384 0) [] \<lparr>rdata = img, rpos = 0, rlink = False\<rparr>)\<lparr>fsMountState := True\<rparr>)"

definition demo_env :: "(beeb_world hd, ram) scsi_env" where
  "demo_env = \<lparr>ha = hd_hostadapter beeb_env, sd = ram_ops, fcodeWriteBuffer = (\<lambda>l f tx rx h. ((tx, rx), h))\<rparr>"

definition demo_target :: "u8 list \<Rightarrow> u8 list \<Rightarrow> (beeb_world hd, ram) scsi" where
  "demo_target bytes img = (scsi_power_on (demo_fs img) (demo_hd bytes))\<lparr>scsiState := SCSI_COMMAND\<rparr>"

lemma demo_target_fields [simp]:
  "host (demo_target bytes img) = demo_hd bytes" "scsiState (demo_target bytes img) = SCSI_COMMAND"
  "scsiHostID (demo_target bytes img) = 0" "fs (demo_target bytes img) = demo_fs img"
  "world (demo_hd bytes) = \<lparr>to_send = bytes, received = [], now = 0\<rparr>"
  "card (demo_fs img) = \<lparr>rdata = img, rpos = 0, rlink = False\<rparr>"
  "filesystemReadLunStatus 0 (demo_fs img)" "length (sectorBuffer (demo_fs img)) = 16384"
  by (simp_all add: demo_target_def scsi_power_on_def demo_hd_def hd_init_def Let_def hd_defs demo_fs_def
      filesystem_power_on_def lun_status_set_def filesystemReadLunStatus_def MAX_LUNS_def)

lemma demo_readable: "length img \<le> ram_room \<Longrightarrow> readable (ram_ops, 0, ram_view) (demo_fs img)"
  using ram_shape ram_seek ram_read by (simp add: readable_def) (simp add: ram_view_def)

lemma demo_env_fields [simp]: "ha demo_env = hd_hostadapter beeb_env" "sd demo_env = ram_ops"
  by (simp_all add: demo_env_def)

definition demo_image :: "u8 list" where "demo_image = replicate 512 7"
definition read_block_1 :: "u8 list" where "read_block_1 = [0x08, 0, 0, 1, 1, 0]"

theorem read6_over_bus_witness:
  "bv_seen beeb_view (world (host ((scsiProcessEmulation demo_env ^^ 4) (demo_target read_block_1 demo_image)))) =
   sector demo_image 1 @ [0, 0]"
proof -
  have c: "unat (lba21 [8, 0, 0, 1, 1, 0]) = 1" "unat (block_count [8, 0, 0, 1, 1, 0]) = 1"
    by (simp_all add: lba21_def block_count_def)
  show ?thesis
    using read6_over_bus [of demo_env beeb_env beeb_view False "demo_target read_block_1 demo_image" 0 0 1 1 0 "[]" 0
        ram_view 1 1] demo_hd_ready [of read_block_1] demo_readable [of demo_image]
    by (simp add: c addressed_unit_def read_block_1_def demo_image_def beeb_view_def ram_view_def ram_room_def
        SCSI_STATUS_OK_def del: funpow.simps)
qed





section \<open>Further witnesses\<close>

lemma demo_env_laws: "env_laws demo_env"
proof -
  have "length (snd (fst (write_dma env n k b s))) = length b" for env :: "beeb_world hd_env" and n k b s
    by (induction n arbitrary: k b s) (simp_all add: Let_def case_prod_beta)
  then show ?thesis
    by (auto simp: env_laws_def demo_env_def hd_hostadapter_def hd_PerformWriteDMA_def read_bound_def ram_ops_def
        case_prod_beta)
qed

definition demo_power_on :: "(beeb_world hd, ram) scsi" where
  "demo_power_on = scsi_power_on (filesystemInitialise 0 0 (filesystem_power_on (replicate 16384 0) []
     \<lparr>rdata = [], rpos = 0, rlink = False\<rparr>)) (demo_hd [])"

theorem scsi_reachable_wf_witness: "scsi_wf (scsiProcessEmulation demo_env demo_power_on)"
proof -
  have "scsi_reachable demo_env demo_power_on"
    unfolding demo_power_on_def by (rule scsi_reachable.power_on) simp
  then have "scsi_reachable demo_env (scsiProcessEmulation demo_env demo_power_on)"
    by (rule scsi_reachable.step) (rule scsi_step.emulate)
  then show ?thesis by (rule scsi_reachable_wf) (rule demo_env_laws)
qed

definition demo_verify :: "(beeb_world hd, ram) scsi" where
  "demo_verify = (demo_target [] demo_image)\<lparr>scsiState := SCSI_VERIFY, cdb := [0x2F, 0, 0, 1, 2, 3, 0, 0, 0, 0],
     fs := geo_set 0 \<lparr>BlockSize = 256, Cylinders = 4, Heads = 2, SectorsPerTrack = 33, Interleave = 0\<rparr> (demo_fs demo_image)\<rparr>"

lemma demo_verify_fields [simp]:
  "lun demo_verify = 0" "scsiState demo_verify = SCSI_VERIFY" "cdb demo_verify = [0x2F, 0, 0, 1, 2, 3, 0, 0, 0, 0]"
  "filesystemReadLunStatus 0 (fs demo_verify)" "filesystemGetLunTotalSectors 0 (fs demo_verify) = 264"
  "filesystemGetheadspercylinder 0 (fs demo_verify) = 2" "filesystemGetLunSPTSize 0 (fs demo_verify) = 33"
  "filesystemGetLunBlockSize 0 (fs demo_verify) = 256" "requestSenseData demo_verify = replicate MAX_LUNS 0"
  by (simp_all add: demo_verify_def demo_target_def scsi_power_on_def lun_def geo_set_def demo_fs_def lun_status_set_def
      filesystem_power_on_def filesystemReadLunStatus_def filesystemGetLunTotalSectors_def geo_get_def MAX_LUNS_def
      filesystemGetheadspercylinder_def filesystemGetLunSPTSize_def filesystemGetLunBlockSize_def)

theorem sense_confined_witness:
  "requestSenseData (scsiProcessEmulation demo_env demo_verify) ! 3 = requestSenseData demo_verify ! 3"
  by (rule sense_confined) simp

theorem command_outcome_witness:
  "is_command (scsiState demo_verify) \<and> (fst (scsi_dispatch demo_env demo_verify) = SCSI_BUSFREE \<or>
    fst (scsi_dispatch demo_env demo_verify) = SCSI_STATUS \<and>
      status (snd (scsi_dispatch demo_env demo_verify)) \<in> {SCSI_STATUS_OK, SCSI_STATUS_CHECK_COND})"
proof -
  have "is_command (scsiState demo_verify)" by (simp add: is_command_def)
  with command_outcome [of demo_verify demo_env] show ?thesis by blast
qed

theorem bad_address_reported_witness:
  "host (snd (scsiCommandRequestSense demo_env (snd (scsiCommandVerify demo_env demo_verify)))) =
   bus_bytes demo_env [0xA1, 1, 2, 3] (hostadapterWriteDataPhaseFlags (ha demo_env) False False True (host demo_verify))"
proof -
  have c: "lba32 [0x2F, 0, 0, 1, 2, 3, 0, 0, 0, 0] = 0x10203" by (simp add: lba32_def)
  have n: "(258 :: u8) = 2" "(66051 :: u8) = 3" by code_simp+
  let ?t = "snd (scsiCommandVerify demo_env demo_verify)"
  have v: "?t = check_cond (ILLEGAL_ADDR OR 0x10203) demo_verify" by (simp add: scsiCommandVerify_def c)
  have l: "lun ?t = 0" "host ?t = host demo_verify"
    unfolding v by (simp_all add: scsi_frame) (simp add: check_cond_def set_sense_def bad_def)
  show ?thesis
    using bad_address_reported [of demo_verify ?t demo_env] l by (simp add: c MAX_LUNS_def n)
qed

definition demo_vfs :: "(beeb_world hd, ram) scsi" where
  "demo_vfs = (demo_target [] demo_image)\<lparr>scsiState := SCSI_WRITE6, targetLUN := 9\<rparr>"

theorem vfs_read_only_witness:
  "fst (scsi_dispatch demo_env demo_vfs) = SCSI_STATUS \<and> status (snd (scsi_dispatch demo_env demo_vfs)) = SCSI_STATUS_CHECK_COND"
  by (rule vfs_read_only) (simp_all add: demo_vfs_def lun_def ram_ops_def)

definition demo_protected :: "(beeb_world hd, ram) scsi_env" where
  "demo_protected = demo_env\<lparr>sd := ram_ops\<lparr>config_beeb_write_protected := (\<lambda>c. True)\<rparr>\<rparr>"

theorem write6_loop_protected_witness:
  "fst (write6_loop demo_protected 2 (demo_target [] demo_image)) = SCSI_STATUS \<and>
   status (snd (write6_loop demo_protected 2 (demo_target [] demo_image))) = SCSI_STATUS_OK \<and>
   fs (snd (write6_loop demo_protected 2 (demo_target [] demo_image))) = demo_fs demo_image"
  using write6_loop_protected [of demo_protected 2 "demo_target [] demo_image"]
  by (simp add: demo_protected_def hd_hostadapter_def hd_ReadResetFlag_def on_world_def beeb_env_def numeral_2_eq_2
      del: write6_loop.simps)

theorem verify_accepts_witness:
  "status (snd (scsiCommandVerify demo_env demo_verify)) = SCSI_STATUS_OK \<longleftrightarrow>
   lba32 (cdb demo_verify) \<le> filesystemGetLunTotalSectors (lun demo_verify) (fs demo_verify) - 1"
  by (rule verify_accepts) simp_all

definition hdr_value :: "u8 list \<times> nat" where "hdr_value = ([0, 0, 0, 8], 4)"

theorem length_mode_sense_bytes_witness:
  "length (mode_sense_bytes 4 22 hdr_value (replicate 8 0, 8) (replicate 6 4, 6)) = 18"
  using length_mode_sense_bytes [of 22 hdr_value 4 "(replicate 8 0, 8)" "(replicate 6 4, 6)"]
  by (simp add: hdr_value_def)

theorem hd_wait_ack_ends_witness:
  "hd_wait_ack (beeb_env\<lparr>spins := 30000000\<rparr>) (demo_hd []) = hd_wait_ack beeb_env (demo_hd []) \<and>
   now (world (snd (hd_wait_ack beeb_env (demo_hd [])))) \<le> 100520"
  using hd_wait_ack_ends [OF beeb_clock, of 30000000 "demo_hd []"] by (simp add: beeb_env_def)

theorem scsijuke_register_witness:
  "\<not> filesystemReadLunStatus 0 (fs (hd_emulator_write_scsijuke demo_env 5 (demo_target [] demo_image))) \<and>
   lunDirectory (fs (hd_emulator_write_scsijuke demo_env 5 (demo_target [] demo_image))) = 5"
proof -
  have "fsMountState (demo_fs demo_image)" "length (fsLunStatus (demo_fs demo_image)) = MAX_LUNS"
    by (simp_all add: demo_fs_def filesystem_power_on_def lun_status_set_def)
  with scsijuke_register [of "demo_target [] demo_image" demo_env 5] show ?thesis
    by (simp add: MAX_LUNS_def)
qed

theorem lun_after_command_witness:
  "lun (snd (scsiEmulationCommand demo_env (demo_target [0x08, 0x40, 0, 1, 1, 0] demo_image))) = 2"
proof -
  let ?s = "demo_target [0x08, 0x40, 0, 1, 1, 0] demo_image"
  let ?u = "scsiInformationTransferPhase demo_env ITPHASE_COMMAND ?s"
  have "hd_ready (beeb_env, beeb_view) False (host ?s)" by (simp add: demo_hd_ready)
  then have "hdbus.moves (beeb_env, beeb_view) False [] [] ?s ?u"
    using hdbus.moves_phase(1) [where p = ITPHASE_COMMAND and e = demo_env] by fastforce
  then have m: "hd_ready (beeb_env, beeb_view) False (host ?u)"
    "bv_feed beeb_view (world (host ?u)) = [0x08, 0x40, 0, 1, 1, 0]"
    unfolding hdbus.moves_def by (auto simp: hd_feed_def) (simp add: beeb_view_def)
  obtain h1 where h1: "hostadapterReadByte (ha demo_env) (host ?u) = (0x08, h1)" "hd_ready (beeb_env, beeb_view) False h1"
    "bv_feed beeb_view (world h1) = [0x40, 0, 1, 1, 0]"
    using hdbus.read_byte [of "(beeb_env, beeb_view)" "host ?u" "0x08" "[0x40, 0, 1, 1, 0]"] m by (auto simp: hd_feed_def)
  obtain h2 where h2: "hostadapterReadByte (ha demo_env) h1 = (0x40, h2)"
    using hdbus.read_byte [of "(beeb_env, beeb_view)" h1 "0x40" "[0, 1, 1, 0]"] h1 by (auto simp: hd_feed_def)
  show ?thesis
    using lun_after_command [of demo_env ?s "0x08" "?u\<lparr>host := h1\<rparr>" "0x40" "?u\<lparr>host := h2\<rparr>"] h1(1) h2
    by (simp add: on_host_def addressed_unit_def)
qed

text \<open>A card that holds only a \<open>.dsc\<close> descriptor, on a machine whose heap is full.\<close>

definition dsc_env :: "(beeb_world hd, ram) scsi_env" where
  "dsc_env = demo_env\<lparr>sd := ram_ops\<lparr>f_open := (\<lambda>fp n m c. (if last n = CHR ''c'' then FR_OK else FR_NO_FILE, c)),
     malloc := (\<lambda>n c. (False, c))\<rparr>\<rparr>"

definition dsc_image :: "u8 list" where
  "dsc_image = [0, 0, 0, 8, 0, 0, 0, 0, 0, 0, 1, 0, 1, 0, 4, 2, 0, 0x80, 0, 0x80, 0, 1]"

definition dsc_target :: "(beeb_world hd, ram) scsi" where
  "dsc_target = (demo_target [] dsc_image)\<lparr>cdb := [0x0F, 0, 0, 1, 1, 0]\<rparr>"

lemma dsc_descriptor:
  "\<exists>f. filesystemReadLunDescriptor (sd dsc_env) 0 (demo_fs dsc_image) = (True, f) \<and>
    geo_get 0 f = \<lparr>BlockSize = 256, Cylinders = 4, Heads = 2, SectorsPerTrack = 33, Interleave = 0\<rparr>"
proof -
  have k: "kv_string (parse_releasekeyvalues (keyvalues (demo_fs dsc_image) ! 0) ! MODEPARAMHEADER) = None"
    "kv_string (parse_releasekeyvalues (keyvalues (demo_fs dsc_image) ! 0) ! MODEPAGE0) = None"
    by (simp_all add: parse_releasekeyvalues_def demo_fs_def filesystem_power_on_def lun_status_set_def MODEPARAMHEADER_def
        MODEPAGE0_def NUM_KEYS_def MAX_LUNS_def kv_empty_def)
  have g: "length (fsLunGeometry (demo_fs dsc_image)) = MAX_LUNS" "length (keyvalues (demo_fs dsc_image)) = MAX_LUNS"
    "Interleave (fsLunGeometry (demo_fs dsc_image) ! 0) = 0"
    by (simp_all add: demo_fs_def filesystem_power_on_def lun_status_set_def MAX_LUNS_def geometry_zero_def)
  show ?thesis
    using k g by (simp add: filesystemReadLunDescriptor_def filesystemCheckExtAttributes_def read_keys_def parse_readfile_def
        filesystemReadFile_def release_keys_def filesystemConfigToLunGeometry_def config_header_def kv_alloc_def kv_get_def
        filesystemLunToconfigGeometry_def dsc_env_def ram_ops_def geo_get_def geo_set_def MAX_LUNS_def dsc_image_def Let_def be24_def be16_def
        DEFAULT_SECTORS_PER_TRACK_def)
qed

theorem translate_started_witness:
  "\<exists>r s'. scsiCommandTranslate dsc_env dsc_target = (SCSI_STATUS, s') \<and> status s' = SCSI_STATUS_OK \<and>
    chs_lba 2 33 256 r = 1"
proof -
  obtain f where f: "filesystemReadLunDescriptor (sd dsc_env) 0 (demo_fs dsc_image) = (True, f)"
    "geo_get 0 f = \<lparr>BlockSize = 256, Cylinders = 4, Heads = 2, SectorsPerTrack = 33, Interleave = 0\<rparr>"
    using dsc_descriptor by blast
  have t: "lun dsc_target = 0" "fs dsc_target = demo_fs dsc_image" "unat (lba21 (cdb dsc_target)) = 1"
    by (simp_all add: dsc_target_def lun_def demo_target_def scsi_power_on_def lba21_def)
  show ?thesis
    using translate_started [of dsc_target dsc_env f] f
    by (auto simp: t filesystemGetheadspercylinder_def filesystemGetLunSPTSize_def filesystemGetLunBlockSize_def)
qed

section \<open>The bus, the settings file and the descriptor file\<close>

lemma demo_bus_wf: "mem_wf demo_bus" by (simp add: demo_bus_def bus_reset_wf)

theorem MemoryWrite_refines_witness: "bus_view (Pi1MHz_MemoryWrite 5 7 demo_bus) = (bus_view demo_bus)[5 := 7]"
  by (rule MemoryWrite_refines [OF demo_bus_wf]) simp

theorem nirq_shared_witness:
  "nirq_output (fold (\<lambda>(src, b). Pi1MHz_SetnIRQ_src src b) [(0, True), (1, True), (0, False)]
     (demo_bus\<lparr>nirq_mask := 0, nirq_output := False\<rparr>)) \<longleftrightarrow>
   (\<exists>src. unat src < 32 \<and> irq_requests [(0, True), (1, True), (0, False)] (\<lambda>_. False) src)"
  by (rule nirq_shared) (simp_all add: irq_wf_def)

theorem register_all_pollers_witness:
  "poll_table (fold Pi1MHz_Register_Poll [11, 12, 11] (demo_bus\<lparr>poll_table := []\<rparr>)) = [11, 12]"
  using register_all_pollers [of "[11, 12, 11]" "demo_bus\<lparr>poll_table := []\<rparr>"] by (simp add: NUM_EMULATORS_def)

theorem fx_register_roundtrip_witness:
  "bus_read (Pi1MHzBus_addr_Status 0x328007 (Pi1MHzBus_write_Status 0x32C063 (Pi1MHzBus_addr_Status 0x328007 demo_bus))) 0xCB =
   0x63"
proof -
  have "GET_ADDR 0x328007 = 0xCA" "GET_ADDR 0x32C063 = 0xCB" "GET_DATA 0x32C063 = 0x63" by code_simp+
  with fx_register_roundtrip [where s = demo_bus and sel = "0x328007" and wr = "0x32C063"] demo_bus_wf show ?thesis
    by (simp add: demo_bus_def bus_reset_def Let_def Pi1MHz_Register_Memory_def Pi1MHz_SetnNMI_def)
qed

theorem config_roundtrip_witness:
  "config_get (config_parse (config_text [(''Jim'', ''on''), (''SCSIID'', ''3'')]) []) ''scsiid'' = Some ''3''"
proof -
  let ?es = "[(''Jim'', ''on''), (''SCSIID'', ''3'')]"
  have "\<forall>kv \<in> set ?es. key_ok (fst kv) \<and> value_ok (snd kv)" "length ?es \<le> CONFIG_MAX_KEYS"
    "distinct (map (map lower \<circ> fst) ?es)" "ci_equal ''SCSIID'' ''scsiid''" by code_simp+
  then show ?thesis by (intro config_roundtrip [where k = "''SCSIID''"]) simp_all
qed

text \<open>The line \<open>ModePage4 = 00\<close> of a descriptor file, rewritten with the bytes 4 and 7 and read back.\<close>

definition demo_name :: "u8 list" where "demo_name = [77, 111, 100, 101, 80, 97, 103, 101, 52]"

definition demo_values :: "keyvalue list" where
  "demo_values = (replicate NUM_KEYS kv_empty)[9 := \<lparr>kv_length = 2, kv_string = Some [4, 7, 0, 0, 0, 0]\<rparr>]"

theorem config_rewrite_reads_back_witness:
  "parse_key ram_ops True 100 scsiattributes 9 (demo_name @ [32, 61, 32] @ [48, 48] @ [10]) demo_values [] (card (demo_fs [])) =
     (([10], demo_values, demo_name @ [32, 61, 32] @ [48, 52, 48, 55]), card (demo_fs [])) \<and>
   fst (snd (fst (parse_key ram_ops False 100 scsiattributes 9 (demo_name @ [32, 61, 32] @ [48, 52, 48, 55] @ [10])
     (replicate NUM_KEYS kv_empty) [] (card (demo_fs []))))) = demo_values"
proof -
  let ?k = "scsiattributes ! 9"
  have k: "?k = \<lparr>key = ''ModePage4'', key_min = 0, key_max = 6, key_type = NUMSTRING\<rparr>"
    by (simp add: scsiattributes_def pkey_def)
  have v: "value_line ?k demo_name [32, 61, 32] [48, 48] [10]" unfolding k by code_simp
  have d: "demo_values ! 9 = \<lparr>kv_length = 2, kv_string = Some [4, 7, 0, 0, 0, 0]\<rparr>"
    by (simp add: demo_values_def NUM_KEYS_def)
  have h: "hex_text [4, 7] = [48, 52, 48, 55]" "to_eol [10] = []" "length demo_name = 9" by code_simp+
  have m: "fst (malloc ram_ops n c)" for n c by (simp add: ram_ops_def)
  show ?thesis
    using config_rewrite_reads_back [OF v, of demo_values "[4, 7, 0, 0, 0, 0]" "[4, 7]" ram_ops "card (demo_fs [])" 100
        "replicate NUM_KEYS kv_empty"] m
    by (simp add: k d h) (simp add: demo_values_def numeral_eq_Suc)
qed

end
