(* ===== verification/Ram.thy ===== *)
theory Ram
  imports Bus
begin

text \<open>
  The memory expansions of \<open>ram_emulator.c\<close>: a byte wide port and a page wide window onto the JIM
  RAM, which lies in steps of 16 Mbyte.  The RAM is a function of the offset; its size bounds
  the offsets that the code may use, and \<open>ram_wf\<close> states that it keeps to them.
\<close>

section \<open>Address bytes\<close>

definition byte_of :: "nat \<Rightarrow> u32 \<Rightarrow> u8" where
  "byte_of k w = ucast (drop_bit (8 * k) w)"

lemma bit_byte_of: "bit (byte_of k w) n \<longleftrightarrow> n < 8 \<and> bit w (8 * k + n)"
  by (auto simp: byte_of_def word_bits)

lemma bytes_eqI:
  assumes "byte_of 0 v = byte_of 0 w" "byte_of 1 v = byte_of 1 w" "byte_of 2 v = byte_of 2 w" "byte_of 3 v = byte_of 3 w"
  shows "v = w"
proof (rule bit_word_eqI)
  fix n assume "n < LENGTH(32)"
  then have "n div 8 \<in> {0, 1, 2, 3}" by auto
  then have "bit (byte_of (n div 8) v) (n mod 8) = bit (byte_of (n div 8) w) (n mod 8)" using assms by auto
  then show "bit v n = bit w n" by (simp add: bit_byte_of)
qed

lemma clear_mask_bits:
  "bit (0xFFFFFF00 :: u32) n \<longleftrightarrow> 8 \<le> n \<and> n < 32"
  "bit (0xFFFF00FF :: u32) n \<longleftrightarrow> n < 8 \<or> 16 \<le> n \<and> n < 32"
  "bit (0xFF00FFFF :: u32) n \<longleftrightarrow> n < 16 \<or> 24 \<le> n \<and> n < 32"
  "bit (0x00FFFFFF :: u32) n \<longleftrightarrow> n < 24"
proof -
  have 1: "(0xFFFFFF00 :: u32) = NOT (mask 8)" "(0xFFFF00FF :: u32) = NOT (push_bit 8 (mask 8))"
    "(0xFF00FFFF :: u32) = NOT (push_bit 16 (mask 8))" "(0x00FFFFFF :: u32) = mask 24"
    by (simp_all add: mask_numeral)
  show "bit (0xFFFFFF00 :: u32) n \<longleftrightarrow> 8 \<le> n \<and> n < 32"
    unfolding 1 by (auto simp: bit_not_iff bit_push_bit_iff bit_mask_iff)
  show "bit (0xFFFF00FF :: u32) n \<longleftrightarrow> n < 8 \<or> 16 \<le> n \<and> n < 32"
    unfolding 1 by (auto simp: bit_not_iff bit_push_bit_iff bit_mask_iff)
  show "bit (0xFF00FFFF :: u32) n \<longleftrightarrow> n < 16 \<or> 24 \<le> n \<and> n < 32"
    unfolding 1 by (auto simp: bit_not_iff bit_push_bit_iff bit_mask_iff)
  show "bit (0x00FFFFFF :: u32) n \<longleftrightarrow> n < 24" unfolding 1 by (auto simp: bit_mask_iff)
qed

text \<open>Replacing one byte of an address, as the address registers do.\<close>

definition with_byte :: "nat \<Rightarrow> u8 \<Rightarrow> u32 \<Rightarrow> u32" where
  "with_byte k d a =
     (if k = 0 then (a AND 0xFFFFFF00) OR ucast d
      else if k = 1 then (a AND 0xFFFF00FF) OR push_bit 8 (ucast d)
      else if k = 2 then (a AND 0xFF00FFFF) OR push_bit 16 (ucast d)
      else (a AND 0x00FFFFFF) OR push_bit 24 (ucast d))"

lemma bit_with_byte:
  assumes "k < 4"
  shows "bit (with_byte k d a) n \<longleftrightarrow> (if 8 * k \<le> n \<and> n < 8 * k + 8 then bit d (n - 8 * k) else bit a n)"
proof -
  have a: "bit a n \<Longrightarrow> n < 32" and d: "\<And>m. bit d m \<Longrightarrow> m < 8" by (auto dest: bit_imp_le_length)
  have 0: "bit ((a AND 0xFFFFFF00) OR ucast d) n \<longleftrightarrow> (if n < 8 then bit d n else bit a n)"
    by (simp only: word_bits clear_mask_bits) (use a d in auto)
  have 1: "bit ((a AND 0xFFFF00FF) OR push_bit 8 (ucast d)) n \<longleftrightarrow> (if 8 \<le> n \<and> n < 16 then bit d (n - 8) else bit a n)"
    by (simp only: word_bits clear_mask_bits) (use a d [of "n - 8"] in auto)
  have 2: "bit ((a AND 0xFF00FFFF) OR push_bit 16 (ucast d)) n \<longleftrightarrow> (if 16 \<le> n \<and> n < 24 then bit d (n - 16) else bit a n)"
    by (simp only: word_bits clear_mask_bits) (use a d [of "n - 16"] in auto)
  have 3: "bit ((a AND 0x00FFFFFF) OR push_bit 24 (ucast d)) n \<longleftrightarrow> (if 24 \<le> n \<and> n < 32 then bit d (n - 24) else bit a n)"
    by (simp only: word_bits clear_mask_bits) (use a d [of "n - 24"] in auto)
  have "k = 0 \<or> k = 1 \<or> k = 2 \<or> k = 3" using assms by auto
  then show ?thesis
    using 0 1 2 3 by (elim disjE) (simp_all add: with_byte_def)
qed

lemma byte_with_byte:
  assumes "j < 4" "k < 4"
  shows "byte_of j (with_byte k d a) = (if j = k then d else byte_of j a)"
proof (rule bit_word_eqI)
  fix n assume "n < LENGTH(8)"
  then have "n < 8" by simp
  then show "bit (byte_of j (with_byte k d a)) n = bit (if j = k then d else byte_of j a) n"
    by (auto simp: bit_byte_of bit_with_byte [OF assms(2)])
qed

lemma unat_bytes: "unat w = unat (byte_of 3 w) * 2 ^ 24 + unat w mod 2 ^ 24"
proof -
  have "unat (byte_of 3 w) = unat w div 16777216"
    using unat_byte [of 24 w] u32_less [of w] by (simp add: byte_of_def less_mult_imp_div_less)
  then show ?thesis by simp
qed

lemma addr_less_iff: "unat w < n * 2 ^ 24 \<longleftrightarrow> unat (byte_of 3 w) < n"
proof -
  have "unat (byte_of 3 w) = unat w div 2 ^ 24"
    using unat_byte [of 24 w] u32_less [of w] by (simp add: byte_of_def less_mult_imp_div_less)
  then show ?thesis by (simp add: div_less_iff_less_mult)
qed

definition le32 :: "u8 \<Rightarrow> u8 \<Rightarrow> u8 \<Rightarrow> u8 \<Rightarrow> u32" where
  "le32 a b c d = ucast a OR push_bit 8 (ucast b) OR push_bit 16 (ucast c) OR push_bit 24 (ucast d)"

lemma byte_le32:
  "byte_of 0 (le32 a b c d) = a" "byte_of 1 (le32 a b c d) = b" "byte_of 2 (le32 a b c d) = c" "byte_of 3 (le32 a b c d) = d"
  by (intro bit_word_eqI; simp only: bit_byte_of le32_def word_bits; auto dest: bit_imp_le_length)+

lemma le32_bytes: "le32 (byte_of 0 w) (byte_of 1 w) (byte_of 2 w) (byte_of 3 w) = w"
  by (rule bytes_eqI) (simp_all only: byte_le32)

section \<open>State\<close>

text \<open>
  The part of \<open>Pi1MHz_t\<close> that holds the JIM RAM, with the bus and the static variables of the file.
  \<open>JIM_null\<close> says that the allocation of the RAM failed.
\<close>

record jim =
  fred :: bus
  JIM_ram :: mem
  JIM_null :: bool
  JIM_ram_size :: u8
  page_ram_addr :: u32
  byte_ram_addr :: u32
  rambyte_address :: u8
  rampage_init :: bool

definition on_fred :: "(bus \<Rightarrow> bus) \<Rightarrow> ('z) jim_scheme \<Rightarrow> 'z jim_scheme" where
  "on_fred f s = s\<lparr>fred := f (fred s)\<rparr>"

definition Pi1MHz_MEM_PAGE :: nat where "Pi1MHz_MEM_PAGE = 256"

text \<open>
  The assembler routine that copies a page, 64 words of four bytes, into the byte array and the words
  of the video processor.
\<close>

definition page_word :: "u8 list \<Rightarrow> nat \<Rightarrow> u32" where
  "page_word data i = le32 (data ! (4 * i)) (data ! (4 * i + 1)) (data ! (4 * i + 2)) (data ! (4 * i + 3))"

definition Pi1MHz_MemoryWritePage :: "nat \<Rightarrow> u8 list \<Rightarrow> bus \<Rightarrow> bus" where
  "Pi1MHz_MemoryWritePage addr data s = fold (\<lambda>i. Pi1MHz_MemoryWrite32 (addr + 4 * i) (page_word data i)) [0..<64] s"

section \<open>Byte wide port\<close>

definition ram_emulator_byte_addr :: "u32 \<Rightarrow> jim \<Rightarrow> jim" where
  "ram_emulator_byte_addr gpio s =
     (let data = GET_DATA gpio; addr = GET_ADDR gpio;
          k = (if addr = unat (rambyte_address s) then 0 else if addr = unat (rambyte_address s) + 1 then 1 else 2);
          s = s\<lparr>byte_ram_addr := with_byte k data (byte_ram_addr s)\<rparr>;
          s = on_fred (Pi1MHz_MemoryWrite (unat (rambyte_address s) + 3) (JIM_ram s (unat (byte_ram_addr s)))) s in
      on_fred (Pi1MHz_MemoryWrite addr data) s)"

definition ram_emulator_byte_write :: "u32 \<Rightarrow> jim \<Rightarrow> jim" where
  "ram_emulator_byte_write gpio s =
     (let data = GET_DATA gpio; addr = GET_ADDR gpio;
          s = s\<lparr>JIM_ram := (JIM_ram s)(unat (byte_ram_addr s) := data)\<rparr> in
      on_fred (Pi1MHz_MemoryWrite addr data) s)"

section \<open>Page wide window\<close>

definition page_bytes :: "'z jim_scheme \<Rightarrow> u8 list" where
  "page_bytes s = mem_read (JIM_ram s) (unat (page_ram_addr s)) 256"

definition ram_emulator_page_restore :: "'z jim_scheme \<Rightarrow> 'z jim_scheme" where
  "ram_emulator_page_restore s = on_fred (Pi1MHz_MemoryWritePage Pi1MHz_MEM_PAGE (page_bytes s)) s"

definition ram_emulator_page_addr_high :: "u32 \<Rightarrow> jim \<Rightarrow> jim" where
  "ram_emulator_page_addr_high gpio s =
     (let data = GET_DATA gpio; addr = GET_ADDR gpio;
          data = (if JIM_ram_size s \<le> data then JIM_ram_size s - 1 else data);
          s = s\<lparr>page_ram_addr := with_byte 3 data (page_ram_addr s)\<rparr>;
          s = on_fred (Pi1MHz_MemoryWritePage Pi1MHz_MEM_PAGE (page_bytes s)) s in
      on_fred (Pi1MHz_MemoryWrite addr data) s)"

definition ram_emulator_page_addr_mid :: "u32 \<Rightarrow> jim \<Rightarrow> jim" where
  "ram_emulator_page_addr_mid gpio s =
     (let data = GET_DATA gpio; addr = GET_ADDR gpio;
          s = s\<lparr>page_ram_addr := with_byte 2 data (page_ram_addr s)\<rparr>;
          s = on_fred (Pi1MHz_MemoryWritePage Pi1MHz_MEM_PAGE (page_bytes s)) s in
      on_fred (Pi1MHz_MemoryWrite addr data) s)"

definition ram_emulator_page_addr_low :: "u32 \<Rightarrow> jim \<Rightarrow> jim" where
  "ram_emulator_page_addr_low gpio s =
     (let data = GET_DATA gpio; addr = GET_ADDR gpio;
          s = s\<lparr>page_ram_addr := with_byte 1 data (page_ram_addr s)\<rparr>;
          s = on_fred (Pi1MHz_MemoryWritePage Pi1MHz_MEM_PAGE (page_bytes s)) s in
      on_fred (Pi1MHz_MemoryWrite addr data) s)"

definition ram_emulator_page_write :: "u32 \<Rightarrow> jim \<Rightarrow> jim" where
  "ram_emulator_page_write gpio s =
     (let data = GET_DATA gpio; addr = GET_ADDR gpio;
          s = s\<lparr>JIM_ram := (JIM_ram s)(unat (page_ram_addr s + of_nat addr) := data)\<rparr> in
      on_fred (Pi1MHz_MemoryWrite (Pi1MHz_MEM_PAGE + addr) data) s)"

section \<open>Start up\<close>

text \<open>
  \<open>putstring\<close> copies a string with its terminator, at most 254 characters of it, and returns the
  position behind it.
\<close>

definition putstring :: "mem \<Rightarrow> nat \<Rightarrow> char option \<Rightarrow> string \<Rightarrow> mem \<times> nat" where
  "putstring m ram term str =
     (let n = length str; m = mem_write m ram (map of_char (take 254 str) @ [0]); ram = ram + n;
          (m, ram) = (if term = Some (CHR 0x0A) then (mem_write m ram (10 # replicate n 8), ram + 1 + n) else (m, ram)) in
      if term = Some (CHR 0x0D) then (mem_write m ram [10, 13], ram + 2) else (m, ram))"

definition hex_upper :: "u8 \<Rightarrow> string" where
  "hex_upper b =
     (let digit = (\<lambda>n. ''0123456789ABCDEF'' ! n); h = unat b div 16; l = unat b mod 16 in
      if h = 0 then [digit l] else [digit h, digit l])"

definition WRITE_JIM :: nat where "WRITE_JIM = Pi1MHz_MEM_PAGE"

text \<open>
  \<open>fn\<close> gives the addresses of the callbacks, \<open>ram_top\<close> is the size of the RAM that the firmware reports, \<open>prog_end\<close>
  the end of the program, \<open>helper\<close> the address of the helper page.  The bytes of the allocation are
  whatever \<open>JIM_ram\<close> holds before.
\<close>

definition rampage_size :: "u32 \<Rightarrow> u32 \<Rightarrow> u8" where
  "rampage_size ram_top prog_end = ucast (drop_bit 24 ((ram_top - prog_end - 4 * 1024 * 1024) AND 0xFF000000))"

definition rampage_registers :: "(string \<Rightarrow> nat) \<Rightarrow> nat \<Rightarrow> bus \<Rightarrow> bus" where
  "rampage_registers fn address b =
     (let b = Pi1MHz_Register_Memory WRITE_FRED address (fn ''ram_emulator_page_addr_high'') b;
          b = Pi1MHz_Register_Memory WRITE_FRED (address + 1) (fn ''ram_emulator_page_addr_mid'') b;
          b = Pi1MHz_Register_Memory WRITE_FRED (address + 2) (fn ''ram_emulator_page_addr_low'') b in
      fold (\<lambda>i. Pi1MHz_Register_Memory WRITE_JIM i (fn ''ram_emulator_page_write'')) [0..<256] b)"

definition set_fx :: "u8 \<Rightarrow> u8 \<Rightarrow> bus \<Rightarrow> bus" where
  "set_fx i v b = b\<lparr>fx_register := (fx_register b)[unat i := v]\<rparr>"

definition rampage_contents :: "u8 \<Rightarrow> u8 list option \<Rightarrow> mem \<Rightarrow> mem" where
  "rampage_contents helper f m = (case f of
     Some (b # bs) \<Rightarrow> mem_write m 0 (b # bs)
   | _ \<Rightarrow> (let (m, ram) = putstring m 0 None '' Use CALL &FC'' in
          fst (putstring m ram (Some (CHR 0x0D)) (hex_upper helper))))"

definition rampage_emulator_init ::
  "'f sdcard \<Rightarrow> (string \<Rightarrow> nat) \<Rightarrow> u32 \<Rightarrow> u32 \<Rightarrow> u8 \<Rightarrow> bool \<Rightarrow> u8 \<Rightarrow> u8 \<Rightarrow> jim \<Rightarrow> 'f \<Rightarrow> jim \<times> 'f" where
  "rampage_emulator_init ops fn ram_top prog_end helper mounted instance address s c =
     (let s = on_fred (rampage_registers fn (unat address)) s;
          size = rampage_size ram_top prog_end;
          s = s\<lparr>JIM_ram_size := size, byte_ram_addr := push_bit 24 (ucast size - 1), page_ram_addr := 0\<rparr>;
          s = on_fred (set_fx instance size) s;
          (s, c) = (if rampage_init s then (s, c) else
             let (ok, c) = malloc ops (unat size * 2 ^ 24) c in (s\<lparr>rampage_init := True, JIM_null := \<not> ok\<rparr>, c)) in
      if JIM_null s then (on_fred (set_fx instance 0) (s\<lparr>JIM_ram_size := 0\<rparr>), c) else
      let (f, c) = filesystemReadFile ops mounted ''JIM_Init.bin'' (Some (unat size * 2 ^ 24)) c;
          s = s\<lparr>JIM_ram := rampage_contents helper f (JIM_ram s)\<rparr> in
      (on_fred (Pi1MHz_MemoryWritePage Pi1MHz_MEM_PAGE (mem_read (JIM_ram s) 0 256)) s, c))"

definition rambyte_emulator_init :: "(string \<Rightarrow> nat) \<Rightarrow> u8 \<Rightarrow> jim \<Rightarrow> jim" where
  "rambyte_emulator_init fn address s =
     (let a = unat address; s = s\<lparr>rambyte_address := address\<rparr>;
          s = on_fred (Pi1MHz_Register_Memory WRITE_FRED a (fn ''ram_emulator_byte_addr'')) s;
          s = on_fred (Pi1MHz_Register_Memory WRITE_FRED (a + 1) (fn ''ram_emulator_byte_addr'')) s;
          s = on_fred (Pi1MHz_Register_Memory WRITE_FRED (a + 2) (fn ''ram_emulator_byte_addr'')) s in
      on_fred (Pi1MHz_Register_Memory WRITE_FRED (a + 3) (fn ''ram_emulator_byte_write'')) s)"

end
