(* ===== verification/Services.thy ===== *)
theory Services
  imports Ram
begin

text \<open>
  The services port of \<open>services_emulator.c\<close>: an address register of three bytes and an auto-incrementing
  data register onto the last 32 Mbyte of the JIM RAM, and a command register that dispatches the
  command block it points to.  Services claim ranges of command bytes; a handler is its address,
  and its effect an argument of the dispatcher.  \<open>'w\<close> is the state of the services themselves.
\<close>

section \<open>State\<close>

record service_range =
  sr_first :: u8
  sr_last :: u8
  sr_handler :: nat

record 'w services = jim +
  disc_ram_addr :: u32
  disc_ram_max :: u32
  disc_ram_addr_hi :: int
  ram_address :: u8
  s_services :: "service_range list"
  svc :: 'w

definition SERVICES_MAX :: nat where "SERVICES_MAX = 4"

definition JIM_RAM_STEP :: u32 where "JIM_RAM_STEP = 16 * 1024 * 1024"

definition DISC_RAM_SIZE :: u32 where "DISC_RAM_SIZE = 2 * JIM_RAM_STEP"

definition DISC_RAM_BASE :: "'z jim_scheme \<Rightarrow> u32" where
  "DISC_RAM_BASE s = ucast (JIM_ram_size s) * JIM_RAM_STEP - DISC_RAM_SIZE"

definition SERVICE_CMD_FAT_FIRST :: u8 where "SERVICE_CMD_FAT_FIRST = 0"
definition SERVICE_CMD_FAT_LAST :: u8 where "SERVICE_CMD_FAT_LAST = 29"
definition SERVICE_CMD_AUN_FIRST :: u8 where "SERVICE_CMD_AUN_FIRST = 30"
definition SERVICE_CMD_AUN_LAST :: u8 where "SERVICE_CMD_AUN_LAST = 44"
definition SERVICE_CMD_NET_FIRST :: u8 where "SERVICE_CMD_NET_FIRST = 45"
definition SERVICE_CMD_NET_LAST :: u8 where "SERVICE_CMD_NET_LAST = 79"

section \<open>Registration\<close>

definition services_register :: "u8 \<Rightarrow> u8 \<Rightarrow> nat \<Rightarrow> 'w services \<Rightarrow> bool \<times> 'w services" where
  "services_register first lst handler s =
     (if handler = 0 \<or> lst < first \<or> SERVICES_MAX \<le> length (s_services s) then (False, s)
      else if list_ex (\<lambda>r. first \<le> sr_last r \<and> sr_first r \<le> lst) (s_services s) then (False, s)
      else (True, s\<lparr>s_services := s_services s @ [\<lparr>sr_first = first, sr_last = lst, sr_handler = handler\<rparr>]\<rparr>))"

section \<open>Interrupts\<close>

definition services_irq_set :: "u8 \<Rightarrow> bool \<Rightarrow> 'w services \<Rightarrow> 'w services" where
  "services_irq_set source asserted s =
     on_fred (if asserted then Pi1MHz_nIRQ_ASSERT source else Pi1MHz_nIRQ_CLEAR source) s"

definition services_irq :: "u8 \<Rightarrow> u8 \<Rightarrow> 'w services \<Rightarrow> 'w services" where
  "services_irq source status s =
     (let s = on_fred (Pi1MHz_MemoryWrite (unat (ram_address s) + 5) status) s in
      on_fred (if status \<noteq> 0 then Pi1MHz_nIRQ_ASSERT source else Pi1MHz_nIRQ_CLEAR source) s)"

section \<open>Address and data registers\<close>

definition services_emulator_update_address :: "'w services \<Rightarrow> 'w services" where
  "services_emulator_update_address s =
     (let hi = uint (drop_bit 16 (disc_ram_addr s) AND 0xFF);
          s = on_fred (Pi1MHz_MemoryWrite16 (unat (ram_address s)) (disc_ram_addr s)) s in
      if hi \<noteq> disc_ram_addr_hi s
      then on_fred (Pi1MHz_MemoryWrite (unat (ram_address s) + 2) (of_int hi)) (s\<lparr>disc_ram_addr_hi := hi\<rparr>)
      else s)"

definition show_data :: "'w services \<Rightarrow> 'w services" where
  "show_data s = on_fred (Pi1MHz_MemoryWrite (unat (ram_address s) + 3) (JIM_ram s (unat (disc_ram_addr s)))) s"

definition services_emulator_byte_addr :: "u32 \<Rightarrow> 'w services \<Rightarrow> 'w services" where
  "services_emulator_byte_addr gpio s =
     (let data = GET_DATA gpio; addr = GET_ADDR gpio;
          k = (if addr = unat (ram_address s) then 0 else if addr = unat (ram_address s) + 1 then 1 else 2);
          s = s\<lparr>disc_ram_addr := with_byte k data (disc_ram_addr s)\<rparr> in
      services_emulator_update_address (show_data s))"

definition disc_ram_next :: "'w services \<Rightarrow> 'w services" where
  "disc_ram_next s =
     (let a = disc_ram_addr s + 1 in
      s\<lparr>disc_ram_addr := if disc_ram_max s \<le> a then DISC_RAM_BASE s else a\<rparr>)"

definition services_emulator_byte_write_inc :: "u32 \<Rightarrow> 'w services \<Rightarrow> 'w services" where
  "services_emulator_byte_write_inc gpio s =
     (let data = GET_DATA gpio; s = s\<lparr>JIM_ram := (JIM_ram s)(unat (disc_ram_addr s) := data)\<rparr> in
      services_emulator_update_address (show_data (disc_ram_next s)))"

definition services_emulator_byte_read_inc :: "u32 \<Rightarrow> 'w services \<Rightarrow> 'w services" where
  "services_emulator_byte_read_inc gpio s = services_emulator_update_address (show_data (disc_ram_next s))"

section \<open>Commands\<close>

definition services_emulator_command ::
  "(nat \<Rightarrow> u32 \<Rightarrow> nat \<Rightarrow> u8 \<Rightarrow> 'w services \<Rightarrow> 'w services) \<Rightarrow> u32 \<Rightarrow> 'w services \<Rightarrow> 'w services" where
  "services_emulator_command run gpio s =
     (let data = GET_DATA gpio; addr = GET_ADDR gpio;
          s = on_fred (Pi1MHz_MemoryWrite addr data) s;
          command_pointer = DISC_RAM_BASE s OR 0xFF0000 OR push_bit 8 (ucast data);
          command = JIM_ram s (unat command_pointer) in
      case find (\<lambda>r. sr_first r \<le> command \<and> command \<le> sr_last r) (s_services s) of
        Some r \<Rightarrow> run (sr_handler r) command_pointer addr data s
      | None \<Rightarrow> s)"

definition services_emulator_init ::
  "('w services \<Rightarrow> 'w services) \<Rightarrow> (string \<Rightarrow> nat) \<Rightarrow> u8 \<Rightarrow> 'w services \<Rightarrow> 'w services" where
  "services_emulator_init fat_init fn address s =
     (let s = s\<lparr>disc_ram_addr := DISC_RAM_BASE s, disc_ram_max := DISC_RAM_BASE s + DISC_RAM_SIZE,
            disc_ram_addr_hi := -1, ram_address := address\<rparr>;
          s = fat_init s; a = unat (ram_address s);
          s = on_fred (Pi1MHz_Register_Memory WRITE_FRED a (fn ''services_emulator_byte_addr'')) s;
          s = on_fred (Pi1MHz_Register_Memory WRITE_FRED (a + 1) (fn ''services_emulator_byte_addr'')) s;
          s = on_fred (Pi1MHz_Register_Memory WRITE_FRED (a + 2) (fn ''services_emulator_byte_addr'')) s;
          s = on_fred (Pi1MHz_Register_Memory WRITE_FRED (a + 3) (fn ''services_emulator_byte_write_inc'')) s;
          s = on_fred (Pi1MHz_Register_Memory READ_FRED (a + 3) (fn ''services_emulator_byte_read_inc'')) s;
          s = on_fred (Pi1MHz_Register_Memory WRITE_FRED (a + 4) (fn ''services_emulator_command'')) s;
          s = on_fred (Pi1MHz_MemoryWrite (a + 4) 0) s in
      on_fred (Pi1MHz_MemoryWrite (a + 5) 0) s)"

end
