(* ===== verification/FatService.thy ===== *)
theory FatService
  imports Services Filesystem
begin

text \<open>
  The FAT service of \<open>fat_service.c\<close>: commands 0 to 20 of the services port give the Beeb the SD card.  The
  command block and the buffers lie in the last 32 Mbyte of the JIM RAM; every offset and length
  in it comes from the Beeb.
\<close>

section \<open>FatFs as the service calls it\<close>

text \<open>
  The file and directory objects are numbered 0 to 15.  Results are the bytes that the Beeb reads.  A
  read returns the bytes it stored; \<open>fat_getcwd\<close> what it left in its buffer.
\<close>

record 'f fat_ops =
  disk_read :: "u8 \<Rightarrow> u32 \<Rightarrow> u32 \<Rightarrow> 'f \<Rightarrow> (u8 \<times> u8 list) \<times> 'f"
  disk_write :: "u8 \<Rightarrow> u8 list \<Rightarrow> u32 \<Rightarrow> u32 \<Rightarrow> 'f \<Rightarrow> u8 \<times> 'f"
  disk_type :: "'f \<Rightarrow> u8"
  fat_open :: "nat \<Rightarrow> string \<Rightarrow> u8 \<Rightarrow> 'f \<Rightarrow> u8 \<times> 'f"
  fat_close :: "nat \<Rightarrow> 'f \<Rightarrow> u8 \<times> 'f"
  fat_lseek :: "nat \<Rightarrow> u32 \<Rightarrow> 'f \<Rightarrow> u8 \<times> 'f"
  fat_read :: "nat \<Rightarrow> nat \<Rightarrow> 'f \<Rightarrow> (u8 \<times> u8 list) \<times> 'f"
  fat_write :: "nat \<Rightarrow> u8 list \<Rightarrow> 'f \<Rightarrow> (u8 \<times> nat) \<times> 'f"
  fat_size :: "nat \<Rightarrow> 'f \<Rightarrow> u32"
  fat_opendir :: "nat \<Rightarrow> string \<Rightarrow> 'f \<Rightarrow> u8 \<times> 'f"
  fat_closedir :: "nat \<Rightarrow> 'f \<Rightarrow> u8 \<times> 'f"
  fat_readdir :: "nat \<Rightarrow> 'f \<Rightarrow> (u8 \<times> string) \<times> 'f"
  fat_mkdir :: "string \<Rightarrow> 'f \<Rightarrow> u8 \<times> 'f"
  fat_chdir :: "string \<Rightarrow> 'f \<Rightarrow> u8 \<times> 'f"
  fat_getcwd :: "nat \<Rightarrow> 'f \<Rightarrow> (u8 \<times> string) \<times> 'f"
  fat_rename :: "string \<Rightarrow> string \<Rightarrow> 'f \<Rightarrow> u8 \<times> 'f"
  fat_unlink :: "string \<Rightarrow> 'f \<Rightarrow> u8 \<times> 'f"
  fat_getfree :: "'f \<Rightarrow> (u8 \<times> u32 \<times> u32) \<times> 'f"

definition code_OK :: u8 where "code_OK = 0"
definition code_DISK_ERR :: u8 where "code_DISK_ERR = 1"
definition code_INVALID_PARAMETER :: u8 where "code_INVALID_PARAMETER = 19"
definition code_PARERR :: u8 where "code_PARERR = 4"
definition code_SHORT :: u8 where "code_SHORT = 20"
definition mode_READ :: u8 where "mode_READ = 1"

section \<open>State\<close>

record 'f fat_state =
  fat_fs :: "'f filesystem"
  fat_open_valid :: "bool list"
  fat_open_path :: "string list"
  fat_cwd :: string
  fat_cwd_known :: bool
  fat_raw_sector_seen :: bool

type_synonym ('f, 'z) fat_services = "('f, 'z) fat_state_scheme services"

definition on_svc :: "('w \<Rightarrow> 'w) \<Rightarrow> 'w services \<Rightarrow> 'w services" where
  "on_svc f s = s\<lparr>svc := f (svc s)\<rparr>"

definition on_card :: "('f \<Rightarrow> 'a \<times> 'f) \<Rightarrow> ('f, 'z) fat_services \<Rightarrow> 'a \<times> ('f, 'z) fat_services" where
  "on_card f s = (let (r, c) = f (card (fat_fs (svc s))) in
     (r, on_svc (\<lambda>w. w\<lparr>fat_fs := (fat_fs w)\<lparr>card := c\<rparr>\<rparr>) s))"

definition fat_protected :: "'f sdcard \<Rightarrow> ('f, 'z) fat_services \<Rightarrow> bool" where
  "fat_protected ops s = config_beeb_write_protected ops (card (fat_fs (svc s)))"

section \<open>Command blocks\<close>

definition jim_read32 :: "mem \<Rightarrow> u32 \<Rightarrow> u32" where
  "jim_read32 m off = le32 (m (unat off)) (m (unat off + 1)) (m (unat off + 2)) (m (unat off + 3))"

definition jim_write32 :: "mem \<Rightarrow> u32 \<Rightarrow> u32 \<Rightarrow> mem" where
  "jim_write32 m off v = mem_write m (unat off) [byte_of 0 v, byte_of 1 v, byte_of 2 v, byte_of 3 v]"

definition set_mem :: "mem \<Rightarrow> 'w services \<Rightarrow> 'w services" where
  "set_mem m s = s\<lparr>JIM_ram := m\<rparr>"

definition reply :: "nat \<Rightarrow> u8 \<Rightarrow> 'w services \<Rightarrow> 'w services" where
  "reply addr r s = on_fred (Pi1MHz_MemoryWrite addr r) s"

definition DISC_SECTOR_SIZE :: u32 where "DISC_SECTOR_SIZE = 512"
definition DISC_MAX_PATH :: u32 where "DISC_MAX_PATH = 1024"

definition discaccess_buffer_ok :: "u32 \<Rightarrow> u32 \<Rightarrow> bool" where
  "discaccess_buffer_ok offset n = (if DISC_RAM_SIZE < offset then False else n \<le> DISC_RAM_SIZE - offset)"

definition discaccess_string_ok :: "u32 \<Rightarrow> 'z jim_scheme \<Rightarrow> bool" where
  "discaccess_string_ok start s =
     (let limit = start + DISC_MAX_PATH; region_end = DISC_RAM_BASE s + DISC_RAM_SIZE;
          limit = (if region_end < limit then region_end else limit) in
      list_ex (\<lambda>i. JIM_ram s i = 0) [unat start..<unat limit])"

text \<open>The C string at an offset, which \<open>discaccess_string_ok\<close> has found to end within \<open>DISC_MAX_PATH\<close> bytes.\<close>

definition jim_string :: "mem \<Rightarrow> u32 \<Rightarrow> string" where
  "jim_string m start = map (\<lambda>b. char_of (unat b)) (takeWhile (\<lambda>b. b \<noteq> 0) (mem_read m (unat start) (unat DISC_MAX_PATH)))"

section \<open>Files in use\<close>

definition FAT_OPEN_PATH_MAX :: nat where "FAT_OPEN_PATH_MAX = 130"

definition fat_open_record :: "nat \<Rightarrow> string \<Rightarrow> ('f, 'z) fat_state_scheme \<Rightarrow> ('f, 'z) fat_state_scheme" where
  "fat_open_record handle name w =
     (let w = w\<lparr>fat_open_valid := (fat_open_valid w)[handle := False]\<rparr>;
          record_path = (\<lambda>path.
            if FAT_OPEN_PATH_MAX \<le> length path then w
            else w\<lparr>fat_open_path := (fat_open_path w)[handle := path], fat_open_valid := (fat_open_valid w)[handle := True]\<rparr>) in
      if name \<noteq> [] \<and> hd name = CHR ''/'' then record_path name
      else if \<not> fat_cwd_known w then w
      else let joined = (if fat_cwd w = ''/'' then [] else fat_cwd w) @ ''/'' @ name in
        if FAT_OPEN_PATH_MAX \<le> length joined then w else record_path joined)"

definition fat_open_clear_all :: "('f, 'z) fat_state_scheme \<Rightarrow> ('f, 'z) fat_state_scheme" where
  "fat_open_clear_all w = w\<lparr>fat_open_valid := map (\<lambda>_. False) (fat_open_valid w), fat_cwd := ''/'',
     fat_cwd_known := True, fat_raw_sector_seen := False\<rparr>"

definition upper :: "char \<Rightarrow> char" where
  "upper c = (let n = of_char c :: nat in if 97 \<le> n \<and> n \<le> 122 then char_of (n - 32) else c)"

definition fat_path_norm :: "string \<Rightarrow> string" where
  "fat_path_norm p = dropWhile (\<lambda>c. c = CHR ''/'') (if take 2 p = ''0:'' then drop 2 p else p)"

text \<open>The last component of a path, and the comparison of an open file with a path or a directory above it.\<close>

definition basename :: "string \<Rightarrow> string" where
  "basename q = rev (takeWhile (\<lambda>c. c \<noteq> CHR ''/'') (rev q))"

definition path_covers :: "string \<Rightarrow> string \<Rightarrow> bool" where
  "path_covers q p \<longleftrightarrow> take (length q) (map upper p) = map upper q \<and>
     (length p = length q \<or> length q < length p \<and> p ! length q = CHR ''/'' \<or> q = [])"

definition fat_service_file_in_use :: "string \<Rightarrow> ('f, 'z) fat_state_scheme \<Rightarrow> bool" where
  "fat_service_file_in_use host_path w =
     (let q = fat_path_norm host_path in
      if fat_raw_sector_seen w \<and> (q = [] \<or> map upper (basename q) = ''BEEB.MMB'') then True
      else list_ex (\<lambda>i. fat_open_valid w ! i \<and> path_covers q (fat_path_norm (fat_open_path w ! i))) [0..<16])"

section \<open>Commands\<close>

definition buffer_at :: "'w services \<Rightarrow> u32 \<Rightarrow> nat" where
  "buffer_at s off = unat (off + DISC_RAM_BASE s)"

definition fat_disk_read :: "'f fat_ops \<Rightarrow> u32 \<Rightarrow> nat \<Rightarrow> ('f, 'z) fat_services \<Rightarrow> ('f, 'z) fat_services" where
  "fat_disk_read fat cp addr s =
     (let buf_off = jim_read32 (JIM_ram s) (cp + 4); sectors = jim_read32 (JIM_ram s) (cp + 12);
          s = on_svc (\<lambda>w. w\<lparr>fat_raw_sector_seen := True\<rparr>) s in
      if DISC_RAM_SIZE div DISC_SECTOR_SIZE < sectors \<or> \<not> discaccess_buffer_ok buf_off (sectors * DISC_SECTOR_SIZE)
      then reply addr code_PARERR s
      else let ((r, b), s) = on_card (disk_read fat (JIM_ram s (unat (cp + 1))) (jim_read32 (JIM_ram s) (cp + 8)) sectors) s in
        reply addr r (set_mem (mem_write (JIM_ram s) (buffer_at s buf_off) b) s))"

definition fat_disk_write :: "'f sdcard \<Rightarrow> 'f fat_ops \<Rightarrow> u32 \<Rightarrow> nat \<Rightarrow> ('f, 'z) fat_services \<Rightarrow> ('f, 'z) fat_services" where
  "fat_disk_write ops fat cp addr s =
     (let buf_off = jim_read32 (JIM_ram s) (cp + 4); sectors = jim_read32 (JIM_ram s) (cp + 12);
          s = on_svc (\<lambda>w. w\<lparr>fat_raw_sector_seen := True\<rparr>) s in
      if fat_protected ops s then reply addr code_OK s
      else if DISC_RAM_SIZE div DISC_SECTOR_SIZE < sectors \<or> \<not> discaccess_buffer_ok buf_off (sectors * DISC_SECTOR_SIZE)
      then reply addr code_PARERR s
      else let (r, s) = on_card (disk_write fat (JIM_ram s (unat (cp + 1)))
             (mem_read (JIM_ram s) (buffer_at s buf_off) (unat (sectors * DISC_SECTOR_SIZE)))
             (jim_read32 (JIM_ram s) (cp + 8)) sectors) s in
        reply addr r s)"

definition fat_cmd_open :: "'f sdcard \<Rightarrow> 'f fat_ops \<Rightarrow> u32 \<Rightarrow> nat \<Rightarrow> nat \<Rightarrow> ('f, 'z) fat_services \<Rightarrow> ('f, 'z) fat_services" where
  "fat_cmd_open ops fat cp addr h s =
     (if \<not> discaccess_string_ok (cp + 3) s then reply addr code_INVALID_PARAMETER s
      else let s = on_svc (\<lambda>w. w\<lparr>fat_open_valid := (fat_open_valid w)[h := False]\<rparr>) s;
               mode = (if fat_protected ops s then mode_READ else JIM_ram s (unat (cp + 2)));
               name = jim_string (JIM_ram s) (cp + 3);
               (r, s) = on_card (fat_open fat h name mode) s;
               s = (if r = code_OK then on_svc (fat_open_record h name) s else s) in
        reply addr r s)"

definition fat_cmd_close :: "'f fat_ops \<Rightarrow> nat \<Rightarrow> nat \<Rightarrow> ('f, 'z) fat_services \<Rightarrow> ('f, 'z) fat_services" where
  "fat_cmd_close fat addr h s =
     (let s = on_svc (\<lambda>w. w\<lparr>fat_open_valid := (fat_open_valid w)[h := False]\<rparr>) s;
          (r, s) = on_card (fat_close fat h) s in reply addr r s)"

text \<open>The end of a transfer: the count goes into the command block above the command byte.\<close>

definition fat_transferred :: "u32 \<Rightarrow> nat \<Rightarrow> u8 \<Rightarrow> nat \<Rightarrow> nat \<Rightarrow> ('f, 'z) fat_services \<Rightarrow> ('f, 'z) fat_services" where
  "fat_transferred cp addr r n len s =
     (let s = set_mem (jim_write32 (JIM_ram s) cp (push_bit 8 (of_nat n) OR ucast (JIM_ram s (unat cp)))) s in
      reply addr (if r \<noteq> code_OK then r else if n < len then code_SHORT else code_OK) s)"

definition fat_cmd_read :: "'f fat_ops \<Rightarrow> u32 \<Rightarrow> nat \<Rightarrow> nat \<Rightarrow> ('f, 'z) fat_services \<Rightarrow> ('f, 'z) fat_services" where
  "fat_cmd_read fat cp addr h s =
     (let buf_off = jim_read32 (JIM_ram s) (cp + 4); buf_len = drop_bit 8 (jim_read32 (JIM_ram s) cp) in
      if \<not> discaccess_buffer_ok buf_off buf_len then reply addr code_INVALID_PARAMETER s
      else let (r, s) = on_card (fat_lseek fat h (jim_read32 (JIM_ram s) (cp + 8))) s in
        if r \<noteq> code_OK then reply addr r s
        else let ((r, b), s) = on_card (fat_read fat h (unat buf_len)) s;
                 s = set_mem (mem_write (JIM_ram s) (buffer_at s buf_off) b) s in
          fat_transferred cp addr r (length b) (unat buf_len) s)"

definition fat_cmd_write :: "'f sdcard \<Rightarrow> 'f fat_ops \<Rightarrow> u32 \<Rightarrow> nat \<Rightarrow> nat \<Rightarrow> ('f, 'z) fat_services \<Rightarrow> ('f, 'z) fat_services" where
  "fat_cmd_write ops fat cp addr h s =
     (let buf_off = jim_read32 (JIM_ram s) (cp + 4); buf_len = drop_bit 8 (jim_read32 (JIM_ram s) cp) in
      if \<not> discaccess_buffer_ok buf_off buf_len then reply addr code_INVALID_PARAMETER s
      else if fat_protected ops s then fat_transferred cp addr code_OK (unat buf_len) (unat buf_len) s
      else let (r, s) = on_card (fat_lseek fat h (jim_read32 (JIM_ram s) (cp + 8))) s in
        if r \<noteq> code_OK then reply addr r s
        else let ((r, n), s) = on_card (fat_write fat h (mem_read (JIM_ram s) (buffer_at s buf_off) (unat buf_len))) s in
          fat_transferred cp addr r n (unat buf_len) s)"

definition fat_cmd_size :: "'f fat_ops \<Rightarrow> u32 \<Rightarrow> nat \<Rightarrow> nat \<Rightarrow> ('f, 'z) fat_services \<Rightarrow> ('f, 'z) fat_services" where
  "fat_cmd_size fat cp addr h s =
     reply addr code_OK (set_mem (jim_write32 (JIM_ram s) (cp + 8) (fat_size fat h (card (fat_fs (svc s))))) s)"

definition fat_cmd_opendir :: "'f fat_ops \<Rightarrow> u32 \<Rightarrow> nat \<Rightarrow> nat \<Rightarrow> ('f, 'z) fat_services \<Rightarrow> ('f, 'z) fat_services" where
  "fat_cmd_opendir fat cp addr h s =
     (if \<not> discaccess_string_ok (cp + 1) s then reply addr code_INVALID_PARAMETER s
      else let (r, s) = on_card (fat_opendir fat h (jim_string (JIM_ram s) (cp + 1))) s in reply addr r s)"

definition fat_cmd_closedir :: "'f fat_ops \<Rightarrow> nat \<Rightarrow> nat \<Rightarrow> ('f, 'z) fat_services \<Rightarrow> ('f, 'z) fat_services" where
  "fat_cmd_closedir fat addr h s = (let (r, s) = on_card (fat_closedir fat h) s in reply addr r s)"

definition fat_cmd_readdir :: "'f fat_ops \<Rightarrow> u32 \<Rightarrow> nat \<Rightarrow> nat \<Rightarrow> ('f, 'z) fat_services \<Rightarrow> ('f, 'z) fat_services" where
  "fat_cmd_readdir fat cp addr h s =
     (let ((r, name), s) = on_card (fat_readdir fat h) s in
      if r \<noteq> code_OK then reply addr r s
      else if name = [] then reply addr code_SHORT s
      else reply addr code_OK (set_mem (mem_write (JIM_ram s) (unat (cp + 4)) (map of_char name @ [0])) s))"

definition fat_cmd_mkdir :: "'f sdcard \<Rightarrow> 'f fat_ops \<Rightarrow> u32 \<Rightarrow> nat \<Rightarrow> ('f, 'z) fat_services \<Rightarrow> ('f, 'z) fat_services" where
  "fat_cmd_mkdir ops fat cp addr s =
     (if \<not> discaccess_string_ok (cp + 1) s then reply addr code_INVALID_PARAMETER s
      else if fat_protected ops s then reply addr code_OK s
      else let (r, s) = on_card (fat_mkdir fat (jim_string (JIM_ram s) (cp + 1))) s in reply addr r s)"

definition fat_cmd_chdir :: "'f fat_ops \<Rightarrow> u32 \<Rightarrow> nat \<Rightarrow> ('f, 'z) fat_services \<Rightarrow> ('f, 'z) fat_services" where
  "fat_cmd_chdir fat cp addr s =
     (if \<not> discaccess_string_ok (cp + 1) s then reply addr code_INVALID_PARAMETER s
      else let (r, s) = on_card (fat_chdir fat (jim_string (JIM_ram s) (cp + 1))) s;
               s = (if r = code_OK then
                      (let ((q, d), s) = on_card (fat_getcwd fat FAT_OPEN_PATH_MAX) s in
                       on_svc (\<lambda>w. w\<lparr>fat_cwd := d, fat_cwd_known := q = code_OK\<rparr>) s)
                    else s) in
        reply addr r s)"

definition fat_cmd_rename :: "'f sdcard \<Rightarrow> 'f fat_ops \<Rightarrow> u32 \<Rightarrow> nat \<Rightarrow> ('f, 'z) fat_services \<Rightarrow> ('f, 'z) fat_services" where
  "fat_cmd_rename ops fat cp addr s =
     (let name1 = cp + 1 in
      if \<not> discaccess_string_ok name1 s then reply addr code_INVALID_PARAMETER s
      else let name2 = name1 + of_nat (length (jim_string (JIM_ram s) name1)) + 1 in
        if \<not> discaccess_string_ok name2 s then reply addr code_INVALID_PARAMETER s
        else if fat_protected ops s then reply addr code_OK s
        else let (r, s) = on_card (fat_rename fat (jim_string (JIM_ram s) name1) (jim_string (JIM_ram s) name2)) s in
          reply addr r s)"

definition fat_cmd_getfree :: "'f fat_ops \<Rightarrow> u32 \<Rightarrow> nat \<Rightarrow> ('f, 'z) fat_services \<Rightarrow> ('f, 'z) fat_services" where
  "fat_cmd_getfree fat cp addr s =
     (let ((r, csize, fre_clust), s) = on_card (fat_getfree fat) s in
      if r \<noteq> code_OK then reply addr r s
      else reply addr code_OK (set_mem (jim_write32 (JIM_ram s) (cp + 8) (csize * fre_clust * 2)) s))"

definition fat_cmd_mount :: "'f sdcard \<Rightarrow> nat \<Rightarrow> ('f, 'z) fat_services \<Rightarrow> ('f, 'z) fat_services" where
  "fat_cmd_mount ops addr s =
     (let s = on_svc fat_open_clear_all s; (ok, f) = filesystemMount ops (fat_fs (svc s)) in
      reply addr (if ok then code_OK else code_DISK_ERR) (on_svc (\<lambda>w. w\<lparr>fat_fs := f\<rparr>) s))"

definition fat_cmd_unmount :: "'f sdcard \<Rightarrow> nat \<Rightarrow> ('f, 'z) fat_services \<Rightarrow> ('f, 'z) fat_services" where
  "fat_cmd_unmount ops addr s =
     (let s = on_svc fat_open_clear_all s; (ok, f) = filesystemDismount ops (fat_fs (svc s)) in
      reply addr (if ok then code_OK else code_DISK_ERR) (on_svc (\<lambda>w. w\<lparr>fat_fs := f\<rparr>) s))"

definition fat_cmd_unlink :: "'f sdcard \<Rightarrow> 'f fat_ops \<Rightarrow> u32 \<Rightarrow> nat \<Rightarrow> ('f, 'z) fat_services \<Rightarrow> ('f, 'z) fat_services" where
  "fat_cmd_unlink ops fat cp addr s =
     (if \<not> discaccess_string_ok (cp + 1) s then reply addr code_INVALID_PARAMETER s
      else if fat_protected ops s then reply addr code_OK s
      else let (r, s) = on_card (fat_unlink fat (jim_string (JIM_ram s) (cp + 1))) s in reply addr r s)"

definition fat_service_command ::
  "'f sdcard \<Rightarrow> 'f fat_ops \<Rightarrow> u32 \<Rightarrow> nat \<Rightarrow> u8 \<Rightarrow> ('f, 'z) fat_services \<Rightarrow> ('f, 'z) fat_services" where
  "fat_service_command ops fat cp addr data s =
     (let c = JIM_ram s (unat cp); h = unat (data AND 15) in
      if c = 0 then fat_disk_read fat cp addr s
      else if c = 1 then fat_disk_write ops fat cp addr s
      else if c = 2 then fat_cmd_open ops fat cp addr h s
      else if c = 3 then fat_cmd_close fat addr h s
      else if c = 4 then fat_cmd_read fat cp addr h s
      else if c = 5 then fat_cmd_write ops fat cp addr h s
      else if c = 6 then fat_cmd_size fat cp addr h s
      else if c = 7 then fat_cmd_opendir fat cp addr h s
      else if c = 8 then fat_cmd_closedir fat addr h s
      else if c = 9 then fat_cmd_readdir fat cp addr h s
      else if c = 10 then fat_cmd_mkdir ops fat cp addr s
      else if c = 11 then fat_cmd_chdir fat cp addr s
      else if c = 12 then fat_cmd_rename ops fat cp addr s
      else if c = 13 then fat_cmd_getfree fat cp addr s
      else if c = 14 then fat_cmd_mount ops addr s
      else if c = 15 then fat_cmd_unmount ops addr s
      else if c = 16 then fat_cmd_unlink ops fat cp addr s
      else if c = 20 then reply addr (disk_type fat (card (fat_fs (svc s)))) s
      else s)"

definition fat_service_init :: "(string \<Rightarrow> nat) \<Rightarrow> ('f, 'z) fat_services \<Rightarrow> ('f, 'z) fat_services" where
  "fat_service_init fn s = snd (services_register SERVICE_CMD_FAT_FIRST SERVICE_CMD_FAT_LAST (fn ''fat_service_command'')
     (on_svc fat_open_clear_all s))"

end
