(* ===== verification/RamProps.thy ===== *)
theory RamProps
  imports Ram
begin

text \<open>
  What the Beeb sees of the memory expansions.  The page window refines a paged memory: an abstract
  machine with the contents of the RAM and three page registers, whose window always shows the
  selected page.
\<close>

section \<open>Copying a page\<close>

lemma MemoryWrite32_page_word:
  assumes "mem_wf b" "4 dvd a" "a < 512" "4 * i + 3 < length d"
  shows "Memory (Pi1MHz_MemoryWrite32 a (page_word d i) b) = (Memory b)[a := d ! (4 * i), a + 1 := d ! (4 * i + 1),
    a + 2 := d ! (4 * i + 2), a + 3 := d ! (4 * i + 3)]"
  using byte_le32 [of "d ! (4 * i)" "d ! (4 * i + 1)" "d ! (4 * i + 2)" "d ! (4 * i + 3)"]
  by (simp add: Pi1MHz_MemoryWrite32_def page_word_def byte_of_def)

lemma nth_page_copy:
  assumes "mem_wf b" "length d = 256" "n \<le> 64"
  shows "mem_wf (fold (\<lambda>i. Pi1MHz_MemoryWrite32 (256 + 4 * i) (page_word d i)) [0..<n] b) \<and>
    (\<forall>a < 512. Memory (fold (\<lambda>i. Pi1MHz_MemoryWrite32 (256 + 4 * i) (page_word d i)) [0..<n] b) ! a =
      (if 256 \<le> a \<and> a < 256 + 4 * n then d ! (a - 256) else Memory b ! a))"
  using assms(3)
proof (induction n)
  case (Suc n)
  let ?b = "fold (\<lambda>i. Pi1MHz_MemoryWrite32 (256 + 4 * i) (page_word d i)) [0..<n] b"
  have b: "mem_wf ?b" and v: "\<And>a. a < 512 \<Longrightarrow> Memory ?b ! a = (if 256 \<le> a \<and> a < 256 + 4 * n then d ! (a - 256) else Memory b ! a)"
    using Suc by auto
  have n: "n < 64" using Suc.prems by simp
  have dv: "4 dvd 256 + 4 * n" by (simp add: dvd_add_right_iff)
  have wf: "mem_wf (Pi1MHz_MemoryWrite32 (256 + 4 * n) (page_word d n) ?b)"
    by (rule MemoryWrite32_wf [OF b dv]) (use n in simp)
  have m: "Memory (Pi1MHz_MemoryWrite32 (256 + 4 * n) (page_word d n) ?b) = (Memory ?b)[256 + 4 * n := d ! (4 * n),
      256 + 4 * n + 1 := d ! (4 * n + 1), 256 + 4 * n + 2 := d ! (4 * n + 2), 256 + 4 * n + 3 := d ! (4 * n + 3)]"
    by (rule MemoryWrite32_page_word [OF b dv]) (use n assms(2) in simp_all)
  have l: "length (Memory ?b) = 512" using b by (simp add: mem_wf_def)
  have "Memory (Pi1MHz_MemoryWrite32 (256 + 4 * n) (page_word d n) ?b) ! a =
      (if 256 \<le> a \<and> a < 256 + 4 * Suc n then d ! (a - 256) else Memory b ! a)" if "a < 512" for a
  proof -
    consider "a < 256 + 4 * n" | "a = 256 + 4 * n" | "a = 256 + 4 * n + 1" | "a = 256 + 4 * n + 2"
      | "a = 256 + 4 * n + 3" | "256 + 4 * n + 3 < a" by linarith
    then show ?thesis
      using that l n by cases (simp_all add: m v nth_list_update add.commute [of 3 "4 * n"] add.commute [of 2 "4 * n"])
  qed
  with wf show ?case by simp
qed (use assms(1) in auto)

lemma MemoryWritePage_wf:
  assumes "mem_wf b" "length d = 256"
  shows "mem_wf (Pi1MHz_MemoryWritePage Pi1MHz_MEM_PAGE d b)"
  using nth_page_copy [OF assms, of 64] by (simp add: Pi1MHz_MemoryWritePage_def Pi1MHz_MEM_PAGE_def)

lemma MemoryWritePage_read:
  assumes "mem_wf b" "length d = 256" "a < 512"
  shows "bus_read (Pi1MHz_MemoryWritePage Pi1MHz_MEM_PAGE d b) a = (if 256 \<le> a then d ! (a - 256) else bus_read b a)"
  using nth_page_copy [OF assms(1,2), of 64] assms MemoryWritePage_wf [OF assms(1,2)]
  by (simp add: Pi1MHz_MemoryWritePage_def Pi1MHz_MEM_PAGE_def mem_wf_def)

lemma MemoryWrite_read:
  assumes "mem_wf b" "k < 512" "a < 512"
  shows "bus_read (Pi1MHz_MemoryWrite k d b) a = (if a = k then d else bus_read b a)"
  using MemoryWrite_wf [OF assms(1,2), of d] assms by (simp add: mem_wf_def nth_list_update)

section \<open>Addresses as numbers\<close>

lemma unat_byte_of: "unat (byte_of k w) = unat w div 2 ^ (8 * k) mod 256"
  by (simp add: byte_of_def unat_byte)

lemma unat_four_bytes:
  "unat w = ((unat (byte_of 3 w) * 256 + unat (byte_of 2 w)) * 256 + unat (byte_of 1 w)) * 256 + unat (byte_of 0 w)"
proof -
  have "unat (byte_of 3 w) = unat w div 16777216 mod 256" "unat (byte_of 2 w) = unat w div 65536 mod 256"
    "unat (byte_of 1 w) = unat w div 256 mod 256" "unat (byte_of 0 w) = unat w mod 256"
    using unat_byte_of [of 3 w] unat_byte_of [of 2 w] unat_byte_of [of 1 w] unat_byte_of [of 0 w] by simp_all
  then show ?thesis using split4 [OF u32_less [of w]] by (simp only:)
qed

lemma page_of_bytes: "unat w div 256 = (unat (byte_of 3 w) * 256 + unat (byte_of 2 w)) * 256 + unat (byte_of 1 w)"
proof -
  have "unat (byte_of 0 w) < 256" using unsigned_less [of "byte_of 0 w", where 'a = nat] by simp
  then have "(x * 256 + unat (byte_of 0 w)) div 256 = x" for x by simp
  then show ?thesis by (subst unat_four_bytes) (simp only:)
qed

definition gpio_word :: "nat \<Rightarrow> u8 \<Rightarrow> u32" where
  "gpio_word addr data = push_bit 14 (of_nat addr) OR ucast data"

lemma gpio_fields:
  assumes "a < 256"
  shows "GET_DATA (gpio_word a d) = d" "GET_ADDR (gpio_word a d) = a"
proof -
  have m: "bit (0x3FC000 :: u32) n \<longleftrightarrow> 14 \<le> n \<and> n < 22" for n
  proof -
    have *: "(0x3FC000 :: u32) = push_bit 14 (mask 8)" by (simp add: mask_numeral)
    show ?thesis unfolding * by (auto simp: bit_push_bit_iff bit_mask_iff)
  qed
  show "GET_DATA (gpio_word a d) = d"
    unfolding GET_DATA_def gpio_word_def
    by (rule bit_word_eqI) (simp only: word_bits byte_mask_bits, auto)
  have x: "a = unat (of_nat a :: u8)" using assms by (simp add: unat_of_nat take_bit_nat_eq_self)
  have "(of_nat a :: u32) = ucast (of_nat a :: u8)" by (subst x) (simp only: of_nat_unat)
  then have a: "bit (of_nat a :: u32) n \<Longrightarrow> n < 8" for n by (auto simp: word_bits dest: bit_imp_le_length)
  have "drop_bit 14 (gpio_word a d AND 0x3FC000) = (of_nat a :: u32)"
    unfolding gpio_word_def by (rule bit_word_eqI) (simp only: word_bits m, auto dest: a bit_imp_le_length)
  then show "GET_ADDR (gpio_word a d) = a" using assms by (simp add: GET_ADDR_def unat_of_nat)
qed

section \<open>Invariant\<close>

definition ram_wf :: "jim \<Rightarrow> bool" where
  "ram_wf s \<longleftrightarrow> mem_wf (fred s) \<and> \<not> JIM_null s \<and> 0 < JIM_ram_size s \<and> byte_of 3 (byte_ram_addr s) < JIM_ram_size s \<and>
     byte_of 3 (page_ram_addr s) < JIM_ram_size s \<and> byte_of 0 (page_ram_addr s) = 0 \<and> rambyte_address s \<le> 252"

definition shown :: "jim \<Rightarrow> bool" where
  "shown s \<longleftrightarrow> (\<forall>i < 256. bus_read (fred s) (256 + i) = JIM_ram s (unat (page_ram_addr s) + i))"

definition select_page :: "u32 \<Rightarrow> nat \<Rightarrow> u8 \<Rightarrow> jim \<Rightarrow> jim" where
  "select_page w addr data s =
     on_fred (Pi1MHz_MemoryWrite addr data) (ram_emulator_page_restore (s\<lparr>page_ram_addr := w\<rparr>))"

lemma page_addr_select:
  "ram_emulator_page_addr_high g s =
     (let data = (if JIM_ram_size s \<le> GET_DATA g then JIM_ram_size s - 1 else GET_DATA g) in
      select_page (with_byte 3 data (page_ram_addr s)) (GET_ADDR g) data s)"
  "ram_emulator_page_addr_mid g s = select_page (with_byte 2 (GET_DATA g) (page_ram_addr s)) (GET_ADDR g) (GET_DATA g) s"
  "ram_emulator_page_addr_low g s = select_page (with_byte 1 (GET_DATA g) (page_ram_addr s)) (GET_ADDR g) (GET_DATA g) s"
  by (simp_all add: ram_emulator_page_addr_high_def ram_emulator_page_addr_mid_def ram_emulator_page_addr_low_def
      select_page_def ram_emulator_page_restore_def Let_def)

lemma select_page_shows:
  assumes "mem_wf (fred s)" "a < 256"
  shows "mem_wf (fred (select_page w a d s))" "shown (select_page w a d s)" "JIM_ram (select_page w a d s) = JIM_ram s"
    "page_ram_addr (select_page w a d s) = w" "byte_ram_addr (select_page w a d s) = byte_ram_addr s"
    "JIM_null (select_page w a d s) = JIM_null s" "JIM_ram_size (select_page w a d s) = JIM_ram_size s"
    "rambyte_address (select_page w a d s) = rambyte_address s"
proof -
  let ?p = "mem_read (JIM_ram s) (unat w) 256"
  let ?b = "Pi1MHz_MemoryWritePage Pi1MHz_MEM_PAGE ?p (fred s)"
  have b: "mem_wf ?b" by (rule MemoryWritePage_wf [OF assms(1)]) simp
  have f: "fred (select_page w a d s) = Pi1MHz_MemoryWrite a d ?b"
    by (simp add: select_page_def ram_emulator_page_restore_def on_fred_def page_bytes_def)
  show "mem_wf (fred (select_page w a d s))" unfolding f by (rule MemoryWrite_wf [OF b]) (use assms(2) in simp)
  have "bus_read (Pi1MHz_MemoryWrite a d ?b) (256 + i) = JIM_ram s (unat w + i)" if "i < 256" for i
  proof -
    have "bus_read (Pi1MHz_MemoryWrite a d ?b) (256 + i) = bus_read ?b (256 + i)"
      using that assms(2) by (subst MemoryWrite_read [OF b]) auto
    also have "\<dots> = ?p ! i" using that by (subst MemoryWritePage_read [OF assms(1)]) auto
    finally show ?thesis using that by (simp add: mem_read_def)
  qed
  then show "shown (select_page w a d s)"
    unfolding shown_def f by (simp add: select_page_def ram_emulator_page_restore_def on_fred_def)
qed (simp_all add: select_page_def ram_emulator_page_restore_def on_fred_def)

text \<open>The page registers, the window and the byte port, at their addresses.\<close>

datatype ram_access = PageHigh u8 | PageMid u8 | PageLow u8 | PageStore u8 u8 | ByteAddr u8 u8 | ByteStore u8

fun ram_serve :: "u8 \<Rightarrow> ram_access \<Rightarrow> jim \<Rightarrow> jim" where
  "ram_serve base (PageHigh d) s = ram_emulator_page_addr_high (gpio_word (unat base) d) s"
| "ram_serve base (PageMid d) s = ram_emulator_page_addr_mid (gpio_word (unat base + 1) d) s"
| "ram_serve base (PageLow d) s = ram_emulator_page_addr_low (gpio_word (unat base + 2) d) s"
| "ram_serve base (PageStore i d) s = ram_emulator_page_write (gpio_word (unat i) d) s"
| "ram_serve base (ByteAddr k d) s = ram_emulator_byte_addr (gpio_word (unat (rambyte_address s) + unat k mod 3) d) s"
| "ram_serve base (ByteStore d) s = ram_emulator_byte_write (gpio_word (unat (rambyte_address s) + 3) d) s"

lemma page_offset:
  assumes "byte_of 0 w = 0" "i < 256"
  shows "unat (w + of_nat i) = unat w + i"
proof -
  have "unat w = 256 * (unat w div 256)"
    using unat_byte_of [of 0 w] assms(1) by auto
  moreover have "unat w div 256 < 16777216" using u32_less [of w] by (simp add: less_mult_imp_div_less)
  ultimately have "unat w + i < 2 ^ 32" using assms(2) by simp
  then show ?thesis using assms(2) by (simp add: unat_word_ariths unat_of_nat take_bit_nat_eq_self)
qed

lemma clip_less: "0 < n \<Longrightarrow> (if n \<le> d then n - 1 else d) < (n :: u8)"
  by (auto simp: word_less_nat_alt word_le_nat_alt unat_sub not_le)

lemma base_bounds: "(base :: u8) \<le> 253 \<Longrightarrow> unat base + 2 < 256" "(base :: u8) \<le> 252 \<Longrightarrow> unat base + 3 < 256"
  by (simp_all add: word_le_nat_alt)

lemma ram_serve_wf:
  assumes "ram_wf s" "base \<le> 253"
  shows "ram_wf (ram_serve base a s)"
proof -
  have w: "mem_wf (fred s)" "0 < JIM_ram_size s" "unat (rambyte_address s) + 3 < 256"
    and b: "unat base + 2 < 256" "unat base + 1 < 256" "unat base < 256"
    using assms base_bounds(1) [OF assms(2)] base_bounds(2) [of "rambyte_address s"] by (auto simp: ram_wf_def)
  have i: "unat k mod 3 \<le> 2" for k :: u8 by simp
  show ?thesis
  proof (cases a)
    case (PageHigh d)
    show ?thesis using assms(1) b w clip_less [of "JIM_ram_size s" d]
      by (simp add: PageHigh page_addr_select gpio_fields Let_def ram_wf_def select_page_shows byte_with_byte split: if_splits)
  next
    case (PageMid d)
    show ?thesis using assms(1) b w
      by (simp add: PageMid page_addr_select gpio_fields ram_wf_def select_page_shows byte_with_byte)
  next
    case (PageLow d)
    show ?thesis using assms(1) b w
      by (simp add: PageLow page_addr_select gpio_fields ram_wf_def select_page_shows byte_with_byte)
  next
    case (PageStore i d)
    have "unat i < 256" using unsigned_less [of i, where 'a = nat] by simp
    then show ?thesis using assms(1) w
      by (simp add: PageStore ram_emulator_page_write_def gpio_fields Let_def on_fred_def ram_wf_def MemoryWrite_wf Pi1MHz_MEM_PAGE_def)
  next
    case (ByteAddr k d)
    have "unat (rambyte_address s) + unat k mod 3 < 256" using w(3) i [of k] by linarith
    then show ?thesis using assms(1) w
      by (simp add: ByteAddr ram_emulator_byte_addr_def gpio_fields Let_def on_fred_def ram_wf_def MemoryWrite_wf byte_with_byte)
  next
    case (ByteStore d)
    show ?thesis using assms(1) w
      by (simp add: ByteStore ram_emulator_byte_write_def gpio_fields Let_def on_fred_def ram_wf_def MemoryWrite_wf)
  qed
qed

section \<open>Refinement of a paged memory\<close>

record paged =
  contents :: mem
  page :: nat

definition paged_of :: "jim \<Rightarrow> paged" where
  "paged_of s = \<lparr>contents = JIM_ram s, page = unat (page_ram_addr s) div 256\<rparr>"

definition paged_window :: "paged \<Rightarrow> nat \<Rightarrow> u8" where
  "paged_window p i = contents p (256 * page p + i)"

fun paged_step :: "nat \<Rightarrow> ram_access \<Rightarrow> paged \<Rightarrow> paged" where
  "paged_step steps (PageHigh d) p = p\<lparr>page := min (unat d) (steps - 1) * 65536 + page p mod 65536\<rparr>"
| "paged_step steps (PageMid d) p = p\<lparr>page := page p div 65536 * 65536 + unat d * 256 + page p mod 256\<rparr>"
| "paged_step steps (PageLow d) p = p\<lparr>page := page p div 256 * 256 + unat d\<rparr>"
| "paged_step steps (PageStore i d) p = p\<lparr>contents := (contents p)(256 * page p + unat i := d)\<rparr>"
| "paged_step steps (ByteAddr k d) p = p"
| "paged_step steps (ByteStore d) p = p"

definition page_access :: "ram_access \<Rightarrow> bool" where
  "page_access a \<longleftrightarrow> (\<forall>d. a \<noteq> ByteStore d)"

lemma page_digits:
  assumes "b2 < 256" "b1 < 256"
  shows "((b3 * 256 + b2) * 256 + b1) div 65536 = (b3 :: nat)" "((b3 * 256 + b2) * 256 + b1) mod 65536 = b2 * 256 + b1"
    "((b3 * 256 + b2) * 256 + b1) mod 256 = b1" "((b3 * 256 + b2) * 256 + b1) div 256 = b3 * 256 + b2"
proof -
  have e: "(b3 * 256 + b2) * 256 + b1 = b3 * 65536 + (b2 * 256 + b1)" and "b2 * 256 + b1 < 65536" using assms by simp_all
  then show "((b3 * 256 + b2) * 256 + b1) div 65536 = b3" "((b3 * 256 + b2) * 256 + b1) mod 65536 = b2 * 256 + b1"
    unfolding e by simp_all
  have "(x * 256 + b1) mod 256 = b1" "(x * 256 + b1) div 256 = x" for x using assms(2) by simp_all
  then show "((b3 * 256 + b2) * 256 + b1) mod 256 = b1" "((b3 * 256 + b2) * 256 + b1) div 256 = b3 * 256 + b2" by blast+
qed

lemma unat_u8: "unat (x :: u8) < 256"
  using unsigned_less [of x, where 'a = nat] by simp

lemma page_with_byte:
  "unat (with_byte 3 d w) div 256 = unat d * 65536 + unat w div 256 mod 65536"
  "unat (with_byte 2 d w) div 256 = unat w div 256 div 65536 * 65536 + unat d * 256 + unat w div 256 mod 256"
  "unat (with_byte 1 d w) div 256 = unat w div 256 div 256 * 256 + unat d"
  by (simp_all only: page_of_bytes page_digits unat_u8 byte_with_byte) simp_all

lemma ram_serve_refines:
  assumes "ram_wf s" "base \<le> 253" "shown s" "page_access a"
  shows "shown (ram_serve base a s) \<and> paged_of (ram_serve base a s) = paged_step (unat (JIM_ram_size s)) a (paged_of s) \<and>
    JIM_ram_size (ram_serve base a s) = JIM_ram_size s"
proof -
  have w: "mem_wf (fred s)" "0 < JIM_ram_size s" "unat (rambyte_address s) + 3 < 256" "byte_of 0 (page_ram_addr s) = 0"
    and b: "unat base + 2 < 256" "unat base + 1 < 256" "unat base < 256"
    using assms(1) base_bounds(1) [OF assms(2)] base_bounds(2) [of "rambyte_address s"] by (auto simp: ram_wf_def)
  have p: "256 * (unat (page_ram_addr s) div 256) = unat (page_ram_addr s)"
    using unat_byte_of [of 0 "page_ram_addr s"] w(4) by auto
  show ?thesis
  proof (cases a)
    case (PageHigh d)
    have "unat (if JIM_ram_size s \<le> d then JIM_ram_size s - 1 else d) = min (unat d) (unat (JIM_ram_size s) - 1)"
      using w(2) by (auto simp: word_le_nat_alt word_less_nat_alt unat_sub min_def)
    then show ?thesis using b w(1)
      by (simp add: PageHigh page_addr_select gpio_fields Let_def select_page_shows paged_of_def page_with_byte split: if_splits)
  next
    case (PageMid d)
    show ?thesis using b w(1)
      by (simp add: PageMid page_addr_select gpio_fields select_page_shows paged_of_def page_with_byte)
  next
    case (PageLow d)
    show ?thesis using b w(1)
      by (simp add: PageLow page_addr_select gpio_fields select_page_shows paged_of_def page_with_byte(3) [simplified])
  next
    case (PageStore i d)
    have i: "unat i < 256" by (rule unat_u8)
    have u: "unat (page_ram_addr s + of_nat (unat i)) = unat (page_ram_addr s) + unat i"
      by (rule page_offset [OF w(4) i])
    show ?thesis using assms(3) i w(1)
      by (auto simp: PageStore ram_emulator_page_write_def gpio_fields Let_def on_fred_def paged_of_def p u shown_def
          Pi1MHz_MEM_PAGE_def MemoryWrite_read simp del: of_nat_unat)
  next
    case (ByteAddr k d)
    have "unat k mod 3 < 3" by simp
    then have "unat (rambyte_address s) + unat k mod 3 < 256" using w(3) by linarith
    then show ?thesis using assms(3) w
      by (auto simp: ByteAddr ram_emulator_byte_addr_def gpio_fields Let_def on_fred_def paged_of_def shown_def
          MemoryWrite_read MemoryWrite_wf)
  next
    case (ByteStore d)
    with assms(4) show ?thesis by (simp add: page_access_def)
  qed
qed

text \<open>C20. The page wide RAM refines an array with a page number: after any sequence of page register
  writes, byte port address writes and stores through the window, the Beeb reads in the window
  exactly the selected page of the array, the page number being clipped to the RAM that exists.\<close>

theorem ram_window_refines:
  assumes "ram_wf s" "shown s" "base \<le> 253" "\<forall>a \<in> set as. page_access a" "i < 256"
  shows "bus_read (fred (fold (ram_serve base) as s)) (256 + i) =
    paged_window (fold (paged_step (unat (JIM_ram_size s))) as (paged_of s)) i"
  using assms(1,2,4)
proof (induction as arbitrary: s)
  case Nil
  then have "256 * (unat (page_ram_addr s) div 256) = unat (page_ram_addr s)"
    using unat_byte_of [of 0 "page_ram_addr s"] by (auto simp: ram_wf_def)
  with Nil assms(5) show ?case by (simp add: paged_window_def paged_of_def shown_def)
next
  case (Cons a as)
  have "ram_wf (ram_serve base a s)" using Cons.prems(1) assms(3) by (rule ram_serve_wf)
  with Cons.IH [of "ram_serve base a s"] ram_serve_refines [OF Cons.prems(1) assms(3) Cons.prems(2), of a] Cons.prems(3)
  show ?case by simp
qed

section \<open>The byte port\<close>

text \<open>
  Three writes set the address registers, in any order the Beeb likes; the byte stored through the data
  register is the byte shown there when the address is set again later, whatever is stored at
  other addresses in between.
\<close>

definition set_byte_addr :: "u8 \<Rightarrow> u8 \<Rightarrow> u8 \<Rightarrow> jim \<Rightarrow> jim" where
  "set_byte_addr hi mid lo s = ram_serve 0 (ByteAddr 2 hi) (ram_serve 0 (ByteAddr 1 mid) (ram_serve 0 (ByteAddr 0 lo) s))"

lemma byte_addr_step:
  assumes "ram_wf s" "unat k < 3"
  shows "ram_wf (ram_serve 0 (ByteAddr k d) s)" "JIM_ram (ram_serve 0 (ByteAddr k d) s) = JIM_ram s"
    "byte_ram_addr (ram_serve 0 (ByteAddr k d) s) = with_byte (unat k) d (byte_ram_addr s)"
    "rambyte_address (ram_serve 0 (ByteAddr k d) s) = rambyte_address s"
    "bus_read (fred (ram_serve 0 (ByteAddr k d) s)) (unat (rambyte_address s) + 3) =
       JIM_ram s (unat (with_byte (unat k) d (byte_ram_addr s)))"
proof -
  have r: "unat (rambyte_address s) + 3 < 256" "mem_wf (fred s)"
    using assms(1) base_bounds(2) [of "rambyte_address s"] by (auto simp: ram_wf_def)
  have k: "unat k = 0 \<or> unat k = 1 \<or> unat k = 2" using assms(2) by auto
  have a: "unat (rambyte_address s) + unat k mod 3 < 256" using r assms(2) by simp
  show "ram_wf (ram_serve 0 (ByteAddr k d) s)" by (rule ram_serve_wf [OF assms(1)]) simp
  show "JIM_ram (ram_serve 0 (ByteAddr k d) s) = JIM_ram s"
    "rambyte_address (ram_serve 0 (ByteAddr k d) s) = rambyte_address s"
    by (simp_all add: ram_emulator_byte_addr_def Let_def on_fred_def)
  show w: "byte_ram_addr (ram_serve 0 (ByteAddr k d) s) = with_byte (unat k) d (byte_ram_addr s)"
    using k a by (auto simp: ram_emulator_byte_addr_def Let_def on_fred_def gpio_fields)
  have "unat k mod 3 < 3" by simp
  then have "unat (rambyte_address s) + 3 \<noteq> unat (rambyte_address s) + unat k mod 3" by linarith
  then show "bus_read (fred (ram_serve 0 (ByteAddr k d) s)) (unat (rambyte_address s) + 3) =
      JIM_ram s (unat (with_byte (unat k) d (byte_ram_addr s)))"
    using k a r w by (auto simp: ram_emulator_byte_addr_def Let_def on_fred_def gpio_fields MemoryWrite_read MemoryWrite_wf)
qed

lemma set_byte_addr_effect:
  assumes "ram_wf s"
  shows "ram_wf (set_byte_addr hi mid lo s)" "JIM_ram (set_byte_addr hi mid lo s) = JIM_ram s"
    "rambyte_address (set_byte_addr hi mid lo s) = rambyte_address s"
    "byte_ram_addr (set_byte_addr hi mid lo s) = le32 lo mid hi (byte_of 3 (byte_ram_addr s))"
    "bus_read (fred (set_byte_addr hi mid lo s)) (unat (rambyte_address s) + 3) =
       JIM_ram s (unat (le32 lo mid hi (byte_of 3 (byte_ram_addr s))))"
proof -
  let ?s0 = "ram_serve 0 (ByteAddr 0 lo) s"
  let ?s1 = "ram_serve 0 (ByteAddr 1 mid) ?s0"
  note 0 = byte_addr_step [OF assms, of 0 lo, simplified]
  note 1 = byte_addr_step [OF 0(1), of 1 mid, simplified]
  note 2 = byte_addr_step [OF 1(1), of 2 hi, simplified]
  have w: "with_byte 2 hi (with_byte (Suc 0) mid (with_byte 0 lo a)) = le32 lo mid hi (byte_of 3 a)" for a
    by (rule bytes_eqI) (simp_all add: byte_with_byte byte_le32 [simplified])
  show "ram_wf (set_byte_addr hi mid lo s)" "JIM_ram (set_byte_addr hi mid lo s) = JIM_ram s"
    "rambyte_address (set_byte_addr hi mid lo s) = rambyte_address s"
    "byte_ram_addr (set_byte_addr hi mid lo s) = le32 lo mid hi (byte_of 3 (byte_ram_addr s))"
    "bus_read (fred (set_byte_addr hi mid lo s)) (unat (rambyte_address s) + 3) =
       JIM_ram s (unat (le32 lo mid hi (byte_of 3 (byte_ram_addr s))))"
    using 0 1 2 by (simp_all add: set_byte_addr_def w)
qed

lemma byte_store_effect:
  assumes "ram_wf s"
  shows "ram_wf (ram_serve 0 (ByteStore d) s)" "JIM_ram (ram_serve 0 (ByteStore d) s) = (JIM_ram s)(unat (byte_ram_addr s) := d)"
    "rambyte_address (ram_serve 0 (ByteStore d) s) = rambyte_address s"
    "byte_ram_addr (ram_serve 0 (ByteStore d) s) = byte_ram_addr s"
proof -
  have "unat (rambyte_address s) + 3 < 256" using assms base_bounds(2) [of "rambyte_address s"] by (auto simp: ram_wf_def)
  then show "JIM_ram (ram_serve 0 (ByteStore d) s) = (JIM_ram s)(unat (byte_ram_addr s) := d)"
    by (simp add: ram_emulator_byte_write_def Let_def on_fred_def gpio_fields)
  show "ram_wf (ram_serve 0 (ByteStore d) s)" by (rule ram_serve_wf [OF assms]) simp
qed (simp_all add: ram_emulator_byte_write_def Let_def on_fred_def)

lemma le32_eq_iff: "le32 a b c d = le32 a' b' c' d' \<longleftrightarrow> a = a' \<and> b = b' \<and> c = c' \<and> d = d'"
  by (metis byte_le32)

theorem ram_byte_roundtrip:
  assumes "ram_wf s" "(hi, mid, lo) \<noteq> (hi', mid', lo')"
    and "t = ram_serve 0 (ByteStore d) (set_byte_addr hi mid lo s)"
    and "u = ram_serve 0 (ByteStore d') (set_byte_addr hi' mid' lo' t)"
  shows "bus_read (fred (set_byte_addr hi mid lo u)) (unat (rambyte_address s) + 3) = d"
proof -
  have "unat (le32 lo mid hi b) \<noteq> unat (le32 lo' mid' hi' b)" for b
    using assms(2) by (metis le32_eq_iff unsigned_word_eqI)
  moreover note 1 = set_byte_addr_effect [OF assms(1), of hi mid lo]
  moreover note 2 = byte_store_effect [OF 1(1), of d, folded assms(3)]
  moreover note 3 = set_byte_addr_effect [OF 2(1), of hi' mid' lo']
  moreover note 4 = byte_store_effect [OF 3(1), of d', folded assms(4)]
  moreover note set_byte_addr_effect [OF 4(1), of hi mid lo]
  ultimately show ?thesis by (simp add: byte_le32)
qed

text \<open>
  The window is a copy: a byte stored through the byte port into the page that the window shows
  is not seen there until the page is selected again.
\<close>

lemma byte_store_stale:
  assumes "ram_wf s" "shown s" "unat (byte_ram_addr s) = unat (page_ram_addr s) + i" "i < 256"
    and "d \<noteq> JIM_ram s (unat (byte_ram_addr s))"
  shows "bus_read (fred (ram_serve base (ByteStore d) s)) (256 + i) \<noteq> JIM_ram (ram_serve base (ByteStore d) s) (unat (page_ram_addr s) + i)"
proof -
  have r: "unat (rambyte_address s) + 3 < 256" "mem_wf (fred s)"
    using assms(1) base_bounds(2) [of "rambyte_address s"] by (auto simp: ram_wf_def)
  have "bus_read (fred s) (256 + i) = JIM_ram s (unat (page_ram_addr s) + i)" using assms(2,4) by (simp add: shown_def)
  then show ?thesis
    using assms(3,4,5) r by (simp add: ram_emulator_byte_write_def Let_def on_fred_def gpio_fields MemoryWrite_read)
qed

section \<open>Start up\<close>

lemma registers_keep [simp]:
  "mem_wf (rampage_registers fn a b) = mem_wf b" "mem_wf (set_fx i v b) = mem_wf b"
proof -
  have r: "mem_wf (Pi1MHz_Register_Memory x y f c) = mem_wf c" for x y f c
    by (simp add: Pi1MHz_Register_Memory_def mem_wf_def bus_read_def)
  have "mem_wf (fold (\<lambda>i. Pi1MHz_Register_Memory WRITE_JIM i f) xs c) = mem_wf c" for f xs c
    by (induction xs arbitrary: c) (simp_all add: r)
  then show "mem_wf (rampage_registers fn a b) = mem_wf b" by (simp add: rampage_registers_def Let_def r)
qed (simp add: set_fx_def)

lemma top_step:
  assumes "0 < (n :: u8)"
  shows "byte_of 3 (push_bit 24 (ucast n - 1 :: u32)) = n - 1"
proof -
  have n: "unat (ucast n :: u32) = unat n" by (rule unat_u8_u32)
  have "byte_of 3 (push_bit 24 x) = ucast x" for x
    by (rule bit_word_eqI) (auto simp: bit_byte_of word_bits dest: bit_imp_le_length)
  moreover have "unat (ucast n - 1 :: u32) = unat n - 1"
    using assms n by (subst unat_sub) (auto simp: word_le_nat_alt word_less_nat_alt)
  moreover have "unat n - 1 < 256" using unat_u8 [of n] by linarith
  ultimately have "unat (ucast (ucast n - 1 :: u32) :: u8) = unat (n - 1)"
    using assms by (simp add: unat_byte0 unat_sub word_le_nat_alt word_less_nat_alt del: One_nat_def)
  with \<open>\<And>x. byte_of 3 (push_bit 24 x) = ucast x\<close> show ?thesis by (metis unsigned_word_eqI)
qed

text \<open>Start up of the page wide RAM with a successful allocation establishes the state the other
  operations rely on: addresses within the allocation, a page aligned window, and the window
  showing the first page.\<close>

theorem rampage_init_wf:
  assumes "mem_wf (fred s)" "rambyte_address s \<le> 252" "0 < rampage_size ram_top prog_end"
    and "\<not> rampage_init s" "fst (malloc ops (unat (rampage_size ram_top prog_end) * 2 ^ 24) c)"
    and "rampage_emulator_init ops fn ram_top prog_end helper mounted instance address s c = (t, c')"
  shows "ram_wf t \<and> shown t \<and> JIM_ram_size t = rampage_size ram_top prog_end"
proof -
  define n where "n = rampage_size ram_top prog_end"
  obtain c1 where m: "malloc ops (unat n * 2 ^ 24) c = (True, c1)"
    using assms(5) by (metis n_def prod.collapse)
  obtain f c2 where f: "filesystemReadFile ops mounted ''JIM_Init.bin'' (Some (unat n * 2 ^ 24)) c1 = (f, c2)" by fastforce
  define m2 where "m2 = rampage_contents helper f (JIM_ram s)"
  define b where "b = set_fx instance n (rampage_registers fn (unat address) (fred s))"
  have b: "mem_wf b" using assms(1) by (simp add: b_def)
  have t: "fred t = Pi1MHz_MemoryWritePage Pi1MHz_MEM_PAGE (mem_read m2 0 256) b" "JIM_ram t = m2" "\<not> JIM_null t"
    "JIM_ram_size t = n" "page_ram_addr t = 0" "byte_ram_addr t = push_bit 24 (ucast n - 1)"
    "rambyte_address t = rambyte_address s"
    using assms(4,6) m f by (auto simp: rampage_emulator_init_def Let_def n_def [symmetric] on_fred_def m2_def b_def)
  have wf: "mem_wf (fred t)" unfolding t using MemoryWritePage_wf [OF b, of "mem_read m2 0 256"] by simp
  have "bus_read (fred t) (256 + i) = JIM_ram t i" if "i < 256" for i
    using that MemoryWritePage_read [OF b, of "mem_read m2 0 256" "256 + i"] by (simp add: t mem_read_def)
  then have sh: "shown t" by (simp add: shown_def t)
  have "byte_of 3 (push_bit 24 (ucast n - 1 :: u32)) = n - 1" using assms(3) by (simp add: top_step n_def)
  moreover have "n - 1 < n" using assms(3) clip_less [of n n] by (simp add: n_def)
  moreover have "byte_of k 0 = 0" for k by (simp add: byte_of_def)
  ultimately show ?thesis using wf sh assms(2,3) by (simp add: ram_wf_def t n_def [symmetric])
qed

end
