(* ===== verification/ServicesProps.thy ===== *)
theory ServicesProps
  imports Services RamProps
begin

text \<open>
  The services port as the Beeb sees it: the address registers always read back the position in the
  buffer, the data register always shows the byte there, and the port refines a stream over the last
  32 Mbyte of the RAM.  A command reaches the one service that claimed it.
\<close>

section \<open>The buffer\<close>

definition region :: "'z jim_scheme \<Rightarrow> nat \<Rightarrow> bool" where
  "region s a \<longleftrightarrow> unat (DISC_RAM_BASE s) \<le> a \<and> a < unat (DISC_RAM_BASE s) + 2 ^ 25"

lemma unat_mult_step: "unat (ucast (n :: u8) * JIM_RAM_STEP) = unat n * 2 ^ 24"
proof -
  have "unat n * 16777216 < 4294967296" using unat_u8 [of n] by linarith
  then show ?thesis by (simp add: JIM_RAM_STEP_def unat_word_ariths)
qed

lemma base_nat:
  assumes "2 \<le> unat (JIM_ram_size s)"
  shows "unat (DISC_RAM_BASE s) = (unat (JIM_ram_size s) - 2) * 2 ^ 24"
    and "unat (DISC_RAM_BASE s + DISC_RAM_SIZE) = unat (JIM_ram_size s) * 2 ^ 24"
    and "unat (DISC_RAM_BASE s) + 2 ^ 25 = unat (JIM_ram_size s) * 2 ^ 24"
proof -
  have d: "unat DISC_RAM_SIZE = 2 ^ 25" by (simp add: DISC_RAM_SIZE_def JIM_RAM_STEP_def)
  have m: "DISC_RAM_SIZE \<le> ucast (JIM_ram_size s) * JIM_RAM_STEP"
    using assms by (simp add: word_le_nat_alt unat_mult_step d)
  show 1: "unat (DISC_RAM_BASE s) = (unat (JIM_ram_size s) - 2) * 2 ^ 24"
    unfolding DISC_RAM_BASE_def unat_sub [OF m] unat_mult_step d by (simp add: diff_mult_distrib)
  show "unat (DISC_RAM_BASE s + DISC_RAM_SIZE) = unat (JIM_ram_size s) * 2 ^ 24"
    by (simp add: DISC_RAM_BASE_def unat_mult_step)
  show "unat (DISC_RAM_BASE s) + 2 ^ 25 = unat (JIM_ram_size s) * 2 ^ 24"
    using assms unfolding 1 by (simp add: diff_mult_distrib)
qed

lemma region_iff:
  assumes "2 \<le> unat (JIM_ram_size s)"
  shows "region s (unat w) \<longleftrightarrow> unat (JIM_ram_size s) - 2 \<le> unat (byte_of 3 w) \<and> unat (byte_of 3 w) < unat (JIM_ram_size s)"
  unfolding region_def base_nat(3) [OF assms] unfolding base_nat(1) [OF assms]
  using addr_less_iff [of w "unat (JIM_ram_size s)"] addr_less_iff [of w "unat (JIM_ram_size s) - 2"]
  by (auto simp: not_less [symmetric] simp del: not_less)

section \<open>Invariant\<close>

definition hi_ok :: "'w services \<Rightarrow> bool" where
  "hi_ok s \<longleftrightarrow> disc_ram_addr_hi s = -1 \<or> disc_ram_addr_hi s = uint (bus_read (fred s) (unat (ram_address s) + 2))"

definition svc_wf :: "'w services \<Rightarrow> bool" where
  "svc_wf s \<longleftrightarrow> mem_wf (fred s) \<and> even (unat (ram_address s)) \<and> unat (ram_address s) \<le> 250 \<and> 2 \<le> unat (JIM_ram_size s) \<and>
     disc_ram_max s = DISC_RAM_BASE s + DISC_RAM_SIZE \<and> region s (unat (disc_ram_addr s)) \<and> hi_ok s"

text \<open>What the registers show.\<close>

definition regs_show :: "'w services \<Rightarrow> bool" where
  "regs_show s \<longleftrightarrow> (\<forall>k < 3. bus_read (fred s) (unat (ram_address s) + k) = byte_of k (disc_ram_addr s)) \<and>
     bus_read (fred s) (unat (ram_address s) + 3) = JIM_ram s (unat (disc_ram_addr s))"

lemma MemoryWrite16_read:
  assumes "mem_wf b" "even k" "k < 511" "a < 512"
  shows "bus_read (Pi1MHz_MemoryWrite16 k d b) a = (if a = k then byte_of 0 d else if a = k + 1 then byte_of 1 d else bus_read b a)"
  using MemoryWrite16_wf [of b k d] assms
  by (auto simp: mem_wf_def Pi1MHz_MemoryWrite16_def nth_list_update byte_of_def)

lemma uint_byte: "uint (drop_bit 16 w AND 0xFF :: u32) = uint (byte_of 2 w)"
proof -
  have "drop_bit 16 w AND 0xFF = (ucast (byte_of 2 w) :: u32)"
    by (rule bit_word_eqI) (simp only: word_bits byte_mask_bits bit_byte_of, auto)
  moreover have "uint (ucast x :: u32) = uint (x :: u8)" for x
    using unsigned_less [of x, where 'a = int] by (simp add: unsigned_ucast_eq take_bit_int_eq_self)
  ultimately show ?thesis by simp
qed

definition publish :: "'w services \<Rightarrow> 'w services" where
  "publish s = services_emulator_update_address (show_data s)"

lemma publish_effect:
  assumes "mem_wf (fred s)" "even (unat (ram_address s))" "unat (ram_address s) \<le> 250" "hi_ok s"
  shows "mem_wf (fred (publish s))" "hi_ok (publish s)" "regs_show (publish s)" "JIM_ram (publish s) = JIM_ram s"
    "disc_ram_addr (publish s) = disc_ram_addr s" "disc_ram_max (publish s) = disc_ram_max s"
    "ram_address (publish s) = ram_address s" "JIM_ram_size (publish s) = JIM_ram_size s"
    "s_services (publish s) = s_services s" "svc (publish s) = svc s" "JIM_null (publish s) = JIM_null s"
proof -
  show f: "JIM_ram (publish s) = JIM_ram s"
    "disc_ram_addr (publish s) = disc_ram_addr s" "disc_ram_max (publish s) = disc_ram_max s"
    "ram_address (publish s) = ram_address s" "JIM_ram_size (publish s) = JIM_ram_size s"
    "s_services (publish s) = s_services s" "svc (publish s) = svc s" "JIM_null (publish s) = JIM_null s"
    by (simp_all add: publish_def services_emulator_update_address_def show_data_def on_fred_def Let_def)
  let ?a = "unat (ram_address s)" and ?h = "uint (byte_of 2 (disc_ram_addr s))"
  define b where "b = Pi1MHz_MemoryWrite16 ?a (disc_ram_addr s) (Pi1MHz_MemoryWrite (?a + 3) (JIM_ram s (unat (disc_ram_addr s))) (fred s))"
  have b0: "mem_wf (Pi1MHz_MemoryWrite (?a + 3) (JIM_ram s (unat (disc_ram_addr s))) (fred s))"
    by (rule MemoryWrite_wf [OF assms(1)]) (use assms(3) in simp)
  have b: "mem_wf b" unfolding b_def by (rule MemoryWrite16_wf [OF b0 assms(2)]) (use assms(3) in simp)
  have r: "bus_read b ?a = byte_of 0 (disc_ram_addr s)" "bus_read b (?a + 1) = byte_of 1 (disc_ram_addr s)"
    "bus_read b (?a + 2) = bus_read (fred s) (?a + 2)" "bus_read b (?a + 3) = JIM_ram s (unat (disc_ram_addr s))"
    unfolding b_def using assms b0 by (simp_all add: MemoryWrite16_read MemoryWrite_read)
  have p: "fred (publish s) = (if ?h \<noteq> disc_ram_addr_hi s then Pi1MHz_MemoryWrite (?a + 2) (byte_of 2 (disc_ram_addr s)) b else b)"
    "disc_ram_addr_hi (publish s) = ?h"
    by (simp_all add: publish_def services_emulator_update_address_def show_data_def on_fred_def Let_def uint_byte b_def)
  show "mem_wf (fred (publish s))" using b assms(3) by (simp add: p MemoryWrite_wf)
  have h: "bus_read (fred (publish s)) (?a + 2) = byte_of 2 (disc_ram_addr s)"
  proof (cases "?h = disc_ram_addr_hi s")
    case True
    moreover have "0 \<le> ?h" by simp
    ultimately have "?h = uint (bus_read (fred s) (?a + 2))" using assms(4) unfolding hi_ok_def by linarith
    then have "byte_of 2 (disc_ram_addr s) = bus_read (fred s) (?a + 2)" by (rule unsigned_word_eqI)
    with True r(3) show ?thesis by (simp add: p)
  qed (use assms(3) b in \<open>simp add: p MemoryWrite_read\<close>)
  then show "hi_ok (publish s)" by (simp add: hi_ok_def p f)
  have o: "bus_read (fred (publish s)) (?a + k) = bus_read b (?a + k)" if "k \<noteq> 2" "k < 4" for k
    using that assms(3) b by (simp add: p MemoryWrite_read)
  have "bus_read (fred (publish s)) (?a + k) = byte_of k (disc_ram_addr s)" if "k < 3" for k
  proof -
    consider "k = 0" | "k = 1" | "k = 2" using \<open>k < 3\<close> by linarith
    then show ?thesis using o [of 0] o [of 1] r h by cases simp_all
  qed
  with r(4) o [of 3] show "regs_show (publish s)" by (simp add: regs_show_def f)
qed

section \<open>Port accesses\<close>

datatype port_access = SetAddr nat u8 | WriteByte u8 | ReadByte

fun port_serve :: "port_access \<Rightarrow> 'w services \<Rightarrow> 'w services" where
  "port_serve (SetAddr k d) s = services_emulator_byte_addr (gpio_word (unat (ram_address s) + k mod 3) d) s"
| "port_serve (WriteByte d) s = services_emulator_byte_write_inc (gpio_word (unat (ram_address s) + 3) d) s"
| "port_serve ReadByte s = services_emulator_byte_read_inc (gpio_word (unat (ram_address s) + 3) 0) s"

text \<open>The abstract stream: the contents of the RAM and a position that wraps at the end of the buffer.\<close>

record stream_port =
  sp_mem :: mem
  sp_pos :: u32

definition port_of :: "'w services \<Rightarrow> stream_port" where
  "port_of s = \<lparr>sp_mem = JIM_ram s, sp_pos = disc_ram_addr s\<rparr>"

definition sp_next :: "u32 \<Rightarrow> u32 \<Rightarrow> u32" where
  "sp_next base p = (if unat base + 2 ^ 25 \<le> unat p + 1 then base else p + 1)"

fun sp_step :: "u32 \<Rightarrow> port_access \<Rightarrow> stream_port \<Rightarrow> stream_port" where
  "sp_step base (SetAddr k d) p = p\<lparr>sp_pos := with_byte (k mod 3) d (sp_pos p)\<rparr>"
| "sp_step base (WriteByte d) p = p\<lparr>sp_mem := (sp_mem p)(unat (sp_pos p) := d), sp_pos := sp_next base (sp_pos p)\<rparr>"
| "sp_step base ReadByte p = p\<lparr>sp_pos := sp_next base (sp_pos p)\<rparr>"

lemma port_serve_publish:
  assumes "unat (ram_address s) \<le> 250"
  shows "port_serve (SetAddr k d) s = publish (s\<lparr>disc_ram_addr := with_byte (k mod 3) d (disc_ram_addr s)\<rparr>)"
    "port_serve (WriteByte d) s = publish (disc_ram_next (s\<lparr>JIM_ram := (JIM_ram s)(unat (disc_ram_addr s) := d)\<rparr>))"
    "port_serve ReadByte s = publish (disc_ram_next s)"
proof -
  have "k mod 3 < 3" by simp
  then have k: "k mod 3 = 0 \<or> k mod 3 = 1 \<or> k mod 3 = 2" by linarith
  have "unat (ram_address s) + k mod 3 < 256" using assms \<open>k mod 3 < 3\<close> by linarith
  then show "port_serve (SetAddr k d) s = publish (s\<lparr>disc_ram_addr := with_byte (k mod 3) d (disc_ram_addr s)\<rparr>)"
    using k by (auto simp: services_emulator_byte_addr_def Let_def gpio_fields publish_def)
  show "port_serve (WriteByte d) s = publish (disc_ram_next (s\<lparr>JIM_ram := (JIM_ram s)(unat (disc_ram_addr s) := d)\<rparr>))"
    using assms by (simp add: services_emulator_byte_write_inc_def Let_def gpio_fields publish_def)
  show "port_serve ReadByte s = publish (disc_ram_next s)"
    by (simp add: services_emulator_byte_read_inc_def publish_def)
qed

lemma next_pos:
  assumes "2 \<le> unat (JIM_ram_size s)" "disc_ram_max s = DISC_RAM_BASE s + DISC_RAM_SIZE" "region s (unat (disc_ram_addr s))"
  shows "disc_ram_next s = s\<lparr>disc_ram_addr := sp_next (DISC_RAM_BASE s) (disc_ram_addr s)\<rparr>"
    and "region s (unat (sp_next (DISC_RAM_BASE s) (disc_ram_addr s)))"
proof -
  let ?n = "unat (JIM_ram_size s)"
  have l: "unat (disc_ram_addr s) < ?n * 2 ^ 24" using assms(3) unfolding region_def base_nat(3) [OF assms(1)] by simp
  moreover have "?n * 2 ^ 24 \<le> 255 * 2 ^ 24" using unat_u8 [of "JIM_ram_size s"] by (intro mult_right_mono) linarith+
  ultimately have "unat (disc_ram_addr s) + 1 < 2 ^ 32" by simp
  then have u: "unat (disc_ram_addr s + 1) = unat (disc_ram_addr s) + 1" by (simp add: unat_word_ariths)
  have "disc_ram_max s \<le> disc_ram_addr s + 1 \<longleftrightarrow> unat (DISC_RAM_BASE s) + 2 ^ 25 \<le> unat (disc_ram_addr s) + 1"
    by (simp only: word_le_nat_alt u assms(2) base_nat(2) [OF assms(1)] base_nat(3) [OF assms(1)])
  then show "disc_ram_next s = s\<lparr>disc_ram_addr := sp_next (DISC_RAM_BASE s) (disc_ram_addr s)\<rparr>"
    by (simp add: disc_ram_next_def Let_def sp_next_def)
  show "region s (unat (sp_next (DISC_RAM_BASE s) (disc_ram_addr s)))"
    using assms(3) u by (auto simp: region_def sp_next_def)
qed

lemma svc_wf_publish:
  assumes "svc_wf s" "region s (unat w)"
  shows "svc_wf (publish (s\<lparr>disc_ram_addr := w, JIM_ram := m\<rparr>)) \<and> regs_show (publish (s\<lparr>disc_ram_addr := w, JIM_ram := m\<rparr>)) \<and>
    port_of (publish (s\<lparr>disc_ram_addr := w, JIM_ram := m\<rparr>)) = \<lparr>sp_mem = m, sp_pos = w\<rparr> \<and>
    DISC_RAM_BASE (publish (s\<lparr>disc_ram_addr := w, JIM_ram := m\<rparr>)) = DISC_RAM_BASE s \<and>
    ram_address (publish (s\<lparr>disc_ram_addr := w, JIM_ram := m\<rparr>)) = ram_address s"
proof -
  let ?t = "s\<lparr>disc_ram_addr := w, JIM_ram := m\<rparr>"
  have "mem_wf (fred ?t)" "even (unat (ram_address ?t))" "unat (ram_address ?t) \<le> 250" "hi_ok ?t"
    using assms(1) by (simp_all add: svc_wf_def hi_ok_def)
  note e = publish_effect [OF this]
  then show ?thesis
    using assms by (simp add: svc_wf_def port_of_def region_def DISC_RAM_BASE_def)
qed

lemma port_serve_refines:
  assumes "svc_wf s"
  shows "svc_wf (port_serve a s) \<and> regs_show (port_serve a s) \<and>
    port_of (port_serve a s) = sp_step (DISC_RAM_BASE s) a (port_of s) \<and>
    DISC_RAM_BASE (port_serve a s) = DISC_RAM_BASE s \<and> ram_address (port_serve a s) = ram_address s"
proof -
  have a: "unat (ram_address s) \<le> 250" "2 \<le> unat (JIM_ram_size s)" "disc_ram_max s = DISC_RAM_BASE s + DISC_RAM_SIZE"
    "region s (unat (disc_ram_addr s))" using assms by (simp_all add: svc_wf_def)
  have n: "disc_ram_next (s\<lparr>JIM_ram := m\<rparr>) = s\<lparr>disc_ram_addr := sp_next (DISC_RAM_BASE s) (disc_ram_addr s), JIM_ram := m\<rparr>" for m
    using next_pos [of "s\<lparr>JIM_ram := m\<rparr>"] a by (simp add: region_def DISC_RAM_BASE_def)
  have p: "port_of s = \<lparr>sp_mem = JIM_ram s, sp_pos = disc_ram_addr s\<rparr>" by (simp add: port_of_def)
  show ?thesis
  proof (cases a)
    case (SetAddr k d)
    have "k mod 3 < 3" by simp
    then have "k mod 3 < 4" "k mod 3 \<noteq> 3" by linarith+
    then have "region s (unat (with_byte (k mod 3) d (disc_ram_addr s)))"
      using a(4) by (simp add: region_iff [OF a(2)] byte_with_byte)
    then show ?thesis
      using svc_wf_publish [OF assms, of "with_byte (k mod 3) d (disc_ram_addr s)" "JIM_ram s"]
      by (simp add: SetAddr port_serve_publish [OF a(1)] p del: port_serve.simps)
  next
    case (WriteByte d)
    then show ?thesis
      using svc_wf_publish [OF assms next_pos(2) [OF a(2-4)], of "(JIM_ram s)(unat (disc_ram_addr s) := d)"]
      by (simp add: port_serve_publish(2) [OF a(1)] p n del: port_serve.simps)
  next
    case ReadByte
    then show ?thesis
      using svc_wf_publish [OF assms next_pos(2) [OF a(2-4)], of "JIM_ram s"] n [of "JIM_ram s"]
      by (simp add: port_serve_publish(3) [OF a(1)] p del: port_serve.simps)
  qed
qed

lemma port_refines:
  assumes "svc_wf s" "as \<noteq> []"
  shows "svc_wf (fold port_serve as s) \<and> regs_show (fold port_serve as s) \<and>
    port_of (fold port_serve as s) = fold (sp_step (DISC_RAM_BASE s)) as (port_of s) \<and>
    DISC_RAM_BASE (fold port_serve as s) = DISC_RAM_BASE s \<and> ram_address (fold port_serve as s) = ram_address s"
  using assms(2,1)
proof (induction as arbitrary: s rule: list_nonempty_induct)
  case (single a)
  then show ?case using port_serve_refines [of s a] by simp
next
  case (cons a as)
  then show ?case using port_serve_refines [of s a] by fastforce
qed

theorem port_shows_position:
  assumes "svc_wf s" "as \<noteq> []" "t = fold port_serve as s"
    and "p = fold (sp_step (DISC_RAM_BASE s)) as (port_of s)"
  shows "svc_wf t \<and> region s (unat (sp_pos p)) \<and>
    (\<forall>k < 3. bus_read (fred t) (unat (ram_address s) + k) = byte_of k (sp_pos p)) \<and>
    bus_read (fred t) (unat (ram_address s) + 3) = sp_mem p (unat (sp_pos p))"
  using port_refines [OF assms(1,2)] unfolding assms(3,4) [symmetric]
  by (auto simp: svc_wf_def regs_show_def region_def port_of_def)

section \<open>Streams of bytes\<close>

fun port_read_bytes :: "nat \<Rightarrow> 'w services \<Rightarrow> u8 list" where
  "port_read_bytes 0 s = []"
| "port_read_bytes (Suc n) s = bus_read (fred s) (unat (ram_address s) + 3) # port_read_bytes n (port_serve ReadByte s)"

definition seek :: "u8 \<Rightarrow> u8 \<Rightarrow> u8 \<Rightarrow> port_access list" where
  "seek hi mid lo = [SetAddr 0 lo, SetAddr 1 mid, SetAddr 2 hi]"

lemma sp_seek: "fold (sp_step base) (seek hi mid lo) p = p\<lparr>sp_pos := le32 lo mid hi (byte_of 3 (sp_pos p))\<rparr>"
proof -
  have "with_byte 2 hi (with_byte 1 mid (with_byte 0 lo a)) = le32 lo mid hi (byte_of 3 a)" for a
    by (rule bytes_eqI) (simp_all only: byte_le32, simp_all add: byte_with_byte)
  then show ?thesis by (simp add: seek_def)
qed

lemma sp_next_plain: "unat p + 1 < unat base + 2 ^ 25 \<Longrightarrow> sp_next base p = p + 1"
  by (simp add: sp_next_def)

lemma unat_Suc_pos: "unat p + 1 < 2 ^ 32 \<Longrightarrow> unat (p + 1 :: u32) = unat p + 1"
  by (simp add: unat_word_ariths)

lemma mem_write_Cons: "mem_write m a (b # bs) = mem_write (m(a := b)) (Suc a) bs"
  by (rule ext) (auto simp: mem_write_def nth_Cons' Suc_le_eq)

lemma sp_writes:
  assumes "unat p + length xs < unat base + 2 ^ 25" "unat base + 2 ^ 25 \<le> 2 ^ 32"
  shows "fold (sp_step base) (map WriteByte xs) \<lparr>sp_mem = m, sp_pos = p\<rparr> =
    \<lparr>sp_mem = mem_write m (unat p) xs, sp_pos = p + of_nat (length xs)\<rparr>"
  using assms(1)
proof (induction xs arbitrary: m p)
  case (Cons x xs)
  have n: "sp_next base p = p + 1" "unat (p + 1) = unat p + 1"
    using Cons.prems assms(2) by (intro sp_next_plain unat_Suc_pos; simp)+
  with Cons show ?case by (simp add: mem_write_Cons fun_upd_def ac_simps)
qed simp

lemma mem_read_Suc: "mem_read m a (Suc n) = m a # mem_read m (Suc a) n"
  by (simp add: mem_read_def upt_conv_Cons del: upt_Suc)

lemma read_bytes_at:
  assumes "svc_wf s" "regs_show s" "unat (disc_ram_addr s) + n < unat (DISC_RAM_BASE s) + 2 ^ 25"
  shows "port_read_bytes n s = mem_read (JIM_ram s) (unat (disc_ram_addr s)) n"
  using assms
proof (induction n arbitrary: s)
  case (Suc n)
  let ?t = "port_serve ReadByte s"
  have b: "unat (DISC_RAM_BASE s) + 2 ^ 25 \<le> 2 ^ 32"
  proof -
    have "unat (JIM_ram_size s) * 2 ^ 24 \<le> 256 * 2 ^ 24" using unat_u8 [of "JIM_ram_size s"] by (intro mult_right_mono) linarith+
    then show ?thesis using base_nat(3) [of s] Suc.prems(1) by (simp add: svc_wf_def)
  qed
  have n: "sp_next (DISC_RAM_BASE s) (disc_ram_addr s) = disc_ram_addr s + 1"
    "unat (disc_ram_addr s + 1) = unat (disc_ram_addr s) + 1"
    using Suc.prems(3) b by (intro sp_next_plain unat_Suc_pos; simp)+
  have r: "svc_wf ?t" "regs_show ?t" "port_of ?t = sp_step (DISC_RAM_BASE s) ReadByte (port_of s)"
    "DISC_RAM_BASE ?t = DISC_RAM_BASE s"
    using port_serve_refines [OF Suc.prems(1), of ReadByte] by blast+
  then have t: "JIM_ram ?t = JIM_ram s" "disc_ram_addr ?t = disc_ram_addr s + 1" by (simp_all add: port_of_def n)
  have "port_read_bytes n ?t = mem_read (JIM_ram s) (unat (disc_ram_addr s) + 1) n"
    using Suc.IH [OF r(1,2)] Suc.prems(3) r(4) t n(2) by simp
  then show ?case using Suc.prems(2)
    by (simp add: regs_show_def mem_read_Suc del: port_serve.simps)
qed (simp add: mem_read_def)

lemma seek_stays:
  assumes "unat (le32 lo mid hi 0) + n < 2 ^ 24"
  shows "unat (le32 lo mid hi b) + n < (unat b + 1) * 2 ^ 24" "byte_of 3 (le32 lo mid hi b + of_nat n) = b"
proof -
  define q where "q = unat (le32 lo mid hi 0)"
  have u: "unat (le32 lo mid hi b) = unat b * 2 ^ 24 + q" for b
    unfolding q_def unat_four_bytes [of "le32 lo mid hi b"] unat_four_bytes [of "le32 lo mid hi 0"] byte_le32 by simp
  show l: "unat (le32 lo mid hi b) + n < (unat b + 1) * 2 ^ 24"
    using assms unfolding u q_def [symmetric] by simp
  have n: "unat (of_nat n :: u32) = n" using assms by (simp add: unat_of_nat take_bit_nat_eq_self)
  have "(unat b + 1) * 2 ^ 24 \<le> 256 * 2 ^ 24" using unat_u8 [of b] by (intro mult_right_mono) linarith+
  then have "unat (le32 lo mid hi b + of_nat n) = unat b * 2 ^ 24 + (q + n)"
    using l n by (simp add: unat_word_ariths u)
  then have "unat (byte_of 3 (le32 lo mid hi b + of_nat n)) = unat b"
    using assms unat_u8 [of b] unfolding unat_byte_of by (simp add: q_def)
  then show "byte_of 3 (le32 lo mid hi b + of_nat n) = b" by (rule unsigned_word_eqI)
qed

text \<open>C21. A stream of bytes written through the auto-incrementing data register of the services port
  is read back unchanged through the same register after setting the same address again.\<close>

theorem port_stream_roundtrip:
  assumes "svc_wf s" "unat (le32 lo mid hi 0) + length xs < 2 ^ 24"
    and "t = fold port_serve (seek hi mid lo @ map WriteByte xs) s" "u = fold port_serve (seek hi mid lo) t"
  shows "port_read_bytes (length xs) u = xs"
proof -
  define b where "b = byte_of 3 (disc_ram_addr s)"
  define p where "p = le32 lo mid hi b"
  have z: "2 \<le> unat (JIM_ram_size s)" "unat b + 1 \<le> unat (JIM_ram_size s)"
    using assms(1) region_iff [of s "disc_ram_addr s"] by (auto simp: svc_wf_def b_def)
  then have "(unat b + 1) * 2 ^ 24 \<le> unat (JIM_ram_size s) * 2 ^ 24" by (intro mult_right_mono) simp_all
  moreover have "unat (JIM_ram_size s) * 2 ^ 24 \<le> 256 * 2 ^ 24" using unat_u8 [of "JIM_ram_size s"] by (intro mult_right_mono) linarith+
  ultimately have r: "unat p + length xs < unat (DISC_RAM_BASE s) + 2 ^ 25" "unat (DISC_RAM_BASE s) + 2 ^ 25 \<le> 2 ^ 32"
    using seek_stays(1) [OF assms(2), of b] base_nat(3) [OF z(1)] by (simp_all add: p_def)
  have ne: "seek hi mid lo @ map WriteByte xs \<noteq> []" "seek hi mid lo \<noteq> []" by (simp_all add: seek_def)
  note T = port_refines [OF assms(1) ne(1), folded assms(3)]
  then have "port_of t = \<lparr>sp_mem = mem_write (JIM_ram s) (unat p) xs, sp_pos = p + of_nat (length xs)\<rparr>"
    using sp_writes [OF r, of "JIM_ram s"] by (simp add: sp_seek port_of_def p_def b_def)
  then have U: "port_of u = \<lparr>sp_mem = mem_write (JIM_ram s) (unat p) xs, sp_pos = p\<rparr>" "svc_wf u" "regs_show u"
      "DISC_RAM_BASE u = DISC_RAM_BASE s"
    using T port_refines [of t, OF _ ne(2), folded assms(4)] seek_stays(2) [OF assms(2), of b] by (auto simp: sp_seek p_def)
  then have "port_read_bytes (length xs) u = mem_read (mem_write (JIM_ram s) (unat p) xs) (unat p) (length xs)"
    using read_bytes_at [OF U(2,3), of "length xs"] r(1) by (auto simp: port_of_def)
  then show ?thesis by (simp add: mem_simps)
qed

section \<open>Dispatch\<close>

definition claims :: "service_range \<Rightarrow> u8 \<Rightarrow> bool" where
  "claims r c \<longleftrightarrow> sr_first r \<le> c \<and> c \<le> sr_last r"

definition table_wf :: "service_range list \<Rightarrow> bool" where
  "table_wf rs \<longleftrightarrow> length rs \<le> SERVICES_MAX \<and> (\<forall>r \<in> set rs. sr_first r \<le> sr_last r \<and> sr_handler r \<noteq> 0) \<and>
     (\<forall>i < length rs. \<forall>j < length rs. \<forall>c. claims (rs ! i) c \<and> claims (rs ! j) c \<longrightarrow> i = j)"

lemma register_wf:
  assumes "table_wf (s_services s)"
  shows "table_wf (s_services (snd (services_register a b h s)))"
  using assms
  by (auto simp: services_register_def table_wf_def claims_def nth_append less_Suc_eq list_ex_iff in_set_conv_nth)
    (metis nth_mem order.trans)+

definition register_all :: "(u8 \<times> u8 \<times> nat) list \<Rightarrow> 'w services \<Rightarrow> 'w services" where
  "register_all regs s = fold (\<lambda>(a, b, h) s. snd (services_register a b h s)) regs s"

lemma register_all_table:
  assumes "table_wf (s_services s)"
  shows "table_wf (s_services (register_all regs s)) \<and> set (s_services s) \<subseteq> set (s_services (register_all regs s)) \<and>
    register_all regs s = s\<lparr>s_services := s_services (register_all regs s)\<rparr>"
  using assms
proof (induction regs arbitrary: s)
  case (Cons x regs)
  obtain a b h where x: "x = (a, b, h)" by (cases x)
  let ?t = "snd (services_register a b h s)"
  have "set (s_services s) \<subseteq> set (s_services ?t)" "?t = s\<lparr>s_services := s_services ?t\<rparr>"
    by (auto simp: services_register_def)
  moreover note Cons.IH [OF register_wf [OF Cons.prems, of a b h]]
  ultimately show ?case by (simp add: x register_all_def) (metis (no_types, lifting) services.fold_congs(5) services.surjective services.update_convs(5) subset_trans)
qed (simp add: register_all_def)

definition command_block :: "'w services \<Rightarrow> u8 \<Rightarrow> u32" where
  "command_block s d = DISC_RAM_BASE s OR 0xFF0000 OR push_bit 8 (ucast d)"

lemma dispatch_to:
  assumes "table_wf (s_services s)" "r \<in> set (s_services s)" "a < 256" "claims r (JIM_ram s (unat (command_block s d)))"
  shows "services_emulator_command run (gpio_word a d) s =
    run (sr_handler r) (command_block s d) a d (on_fred (Pi1MHz_MemoryWrite a d) s)"
proof -
  let ?c = "JIM_ram s (unat (command_block s d))"
  have "find (\<lambda>r. claims r ?c) (s_services s) = Some r"
  proof -
    obtain j where j: "j < length (s_services s)" "s_services s ! j = r" using assms(2) by (auto simp: in_set_conv_nth)
    moreover have "\<not> claims (s_services s ! i) ?c" if "i < j" for i
      using that j assms(4) assms(1) unfolding table_wf_def by (metis less_trans less_irrefl)
    ultimately show ?thesis using assms(4) by (auto simp: find_Some_iff)
  qed
  then show ?thesis
    using assms(3) by (simp add: services_emulator_command_def Let_def gpio_fields claims_def [abs_def]
        command_block_def on_fred_def DISC_RAM_BASE_def)
qed

text \<open>A command reaches the service that claimed it, with the command block's address, whatever
  other services try to register afterwards: overlapping claims are refused.\<close>

theorem services_dispatch:
  assumes "table_wf (s_services s)" "r \<in> set (s_services s)" "a < 256"
    and "claims r (JIM_ram s (unat (command_block s d)))" "t = register_all regs s"
  shows "services_emulator_command run (gpio_word a d) t =
    run (sr_handler r) (command_block s d) a d (on_fred (Pi1MHz_MemoryWrite a d) t)"
proof -
  have t: "table_wf (s_services t)" "r \<in> set (s_services t)" "t = s\<lparr>s_services := s_services t\<rparr>"
    using register_all_table [OF assms(1), of regs] assms(2,5) by auto
  have "JIM_ram t = JIM_ram s" "command_block t d = command_block s d"
    by (subst t(3), simp add: DISC_RAM_BASE_def command_block_def)+
  then show ?thesis using dispatch_to [OF t(1,2) assms(3), of d run] assms(4) by simp
qed

theorem services_unclaimed:
  assumes "a < 256" "\<forall>r \<in> set (s_services s). \<not> claims r (JIM_ram s (unat (command_block s d)))"
  shows "services_emulator_command run (gpio_word a d) s = on_fred (Pi1MHz_MemoryWrite a d) s"
proof -
  have "find (\<lambda>r. claims r (JIM_ram s (unat (command_block s d)))) (s_services s) = None"
    using assms(2) by (auto simp: find_None_iff)
  then show ?thesis
    using assms(1) by (simp add: services_emulator_command_def Let_def gpio_fields claims_def [abs_def]
        command_block_def on_fred_def DISC_RAM_BASE_def)
qed

end
