(* ===== verification/FatProps.thy ===== *)
theory FatProps
  imports FatService ServicesProps
begin

text \<open>
  The FAT service keeps to its buffer whatever the Beeb puts into a command block, honours the write
  protection, keeps track of the files in use, and carries bytes to a file and back.
\<close>

section \<open>Buffers lie in the region\<close>

lemma region_unfold:
  assumes "2 \<le> unat (JIM_ram_size s)"
  shows "unat (DISC_RAM_BASE s) + 2 ^ 25 \<le> 2 ^ 32"
proof -
  have "unat (JIM_ram_size s) * 2 ^ 24 \<le> 256 * 2 ^ 24" using unat_u8 [of "JIM_ram_size s"] by (intro mult_right_mono) linarith+
  then show ?thesis using base_nat(3) [OF assms] by simp
qed

lemma buffer_ok_iff: "discaccess_buffer_ok off n \<longleftrightarrow> unat off + unat n \<le> 2 ^ 25"
proof -
  have d: "unat DISC_RAM_SIZE = 2 ^ 25" by (simp add: DISC_RAM_SIZE_def JIM_RAM_STEP_def)
  show ?thesis
    by (cases "off \<le> DISC_RAM_SIZE") (auto simp: discaccess_buffer_ok_def word_le_nat_alt word_less_nat_alt unat_sub d)
qed

lemma buffer_at_nat:
  assumes "2 \<le> unat (JIM_ram_size s)" "unat off + n \<le> 2 ^ 25" "0 < n"
  shows "buffer_at s off = unat (DISC_RAM_BASE s) + unat off"
proof -
  have "unat off + unat (DISC_RAM_BASE s) < 2 ^ 32" using region_unfold [OF assms(1)] assms(2,3) by linarith
  then show ?thesis by (simp add: buffer_at_def unat_word_ariths)
qed

lemma block_bytes: "command_block s d = le32 0 d 0xFF (byte_of 3 (DISC_RAM_BASE s))" if "2 \<le> unat (JIM_ram_size s)"
proof -
  have z: "unat (DISC_RAM_BASE s) mod 2 ^ 24 = 0" by (simp add: base_nat(1) [OF that])
  have z': "byte_of k (DISC_RAM_BASE s) = 0" if "k < 3" for k
  proof -
    have "unat (DISC_RAM_BASE s) div 2 ^ (8 * k) mod 256 = 0"
    proof -
      have "k \<in> {0, 1, 2}" using that by auto
      then show ?thesis
        unfolding base_nat(1) [OF \<open>2 \<le> unat (JIM_ram_size s)\<close>] by (auto simp: div_mult_swap [symmetric] simp flip: div_mult2_eq)
    qed
    then have "unat (byte_of k (DISC_RAM_BASE s)) = unat (0 :: u8)" by (simp add: unat_byte_of)
    then show ?thesis by (rule unsigned_word_eqI)
  qed
  have o: "byte_of k (a OR b) = byte_of k a OR byte_of k b" for k a b
    by (rule bit_word_eqI) (auto simp: bit_byte_of bit_or_iff)
  have p: "byte_of k (push_bit 8 (ucast d)) = (if k = 1 then d else 0)" if "k < 4" for k
  proof (rule bit_word_eqI)
    fix n assume "n < LENGTH(8)"
    then have n: "n < 8" by simp
    have "k = 0 \<or> k = 1 \<or> k = 2 \<or> k = 3" using that by auto
    then show "bit (byte_of k (push_bit 8 (ucast d))) n = bit (if k = 1 then d else 0) n"
      using n by (auto simp: bit_byte_of word_bits dest: bit_imp_le_length)
  qed
  have f: "byte_of 0 0xFF0000 = 0" "byte_of 1 0xFF0000 = 0" "byte_of 2 0xFF0000 = 0xFF" "byte_of 3 0xFF0000 = 0"
    by (simp_all add: byte_of_def)
  show ?thesis
    by (rule bytes_eqI) (simp_all only: command_block_def o p f z' byte_le32, simp_all add: z')
qed

lemma block_nat:
  assumes "2 \<le> unat (JIM_ram_size s)"
  shows "unat (command_block s d) = unat (DISC_RAM_BASE s) + 0xFF0000 + 256 * unat d"
proof -
  have "unat (byte_of 3 (DISC_RAM_BASE s)) * 2 ^ 24 = unat (DISC_RAM_BASE s)"
    using unat_bytes [of "DISC_RAM_BASE s"] by (simp add: base_nat(1) [OF assms])
  then show ?thesis
    unfolding block_bytes [OF assms] by (subst unat_four_bytes) (simp add: byte_le32 [simplified])
qed

text \<open>Fields of the command block, up to 4 + 256 bytes, stay in the region.\<close>

lemma block_field:
  assumes "2 \<le> unat (JIM_ram_size s)" "k < 512"
  shows "unat (command_block s d + of_nat k) = unat (command_block s d) + k"
    and "region s (unat (command_block s d) + k)"
proof -
  have "256 * unat d \<le> 65280" using unat_u8 [of d] by linarith
  then have "unat (command_block s d) + k < unat (DISC_RAM_BASE s) + 2 ^ 25"
    using assms(2) unfolding block_nat [OF assms(1)] by simp
  then show "region s (unat (command_block s d) + k)"
    unfolding region_def using block_nat [OF assms(1), of d] by linarith
  show "unat (command_block s d + of_nat k) = unat (command_block s d) + k"
    using \<open>unat (command_block s d) + k < unat (DISC_RAM_BASE s) + 2 ^ 25\<close> region_unfold [OF assms(1)] assms(2)
    by (simp add: unat_word_ariths unat_of_nat take_bit_nat_eq_self)
qed

section \<open>Memory safety\<close>

text \<open>What FatFs promises about the number of bytes it stores: at most what was asked for, and names of at most 255 characters.\<close>

definition fat_bounds :: "'f fat_ops \<Rightarrow> bool" where
  "fat_bounds fat \<longleftrightarrow> (\<forall>d k n c. length (snd (fst (disk_read fat d k n c))) \<le> unat n * 512) \<and>
     (\<forall>h n c. length (snd (fst (fat_read fat h n c))) \<le> n) \<and> (\<forall>h c. length (snd (fst (fat_readdir fat h c))) \<le> 255)"

definition confined :: "nat \<Rightarrow> 'w services \<Rightarrow> 'w services \<Rightarrow> bool" where
  "confined addr s t \<longleftrightarrow> JIM_ram_size t = JIM_ram_size s \<and> (\<forall>a. \<not> region s a \<longrightarrow> JIM_ram t a = JIM_ram s a) \<and>
     (mem_wf (fred s) \<longrightarrow> mem_wf (fred t) \<and> (\<forall>a < 512. a \<noteq> addr \<longrightarrow> bus_read (fred t) a = bus_read (fred s) a))"

lemma confined_refl [simp]: "confined addr s s"
  by (simp add: confined_def)

lemma confined_trans: "confined addr s t \<Longrightarrow> confined addr t u \<Longrightarrow> confined addr s u"
  by (auto simp: confined_def region_def DISC_RAM_BASE_def)

lemma confined_reply: "addr < 512 \<Longrightarrow> confined addr s t \<Longrightarrow> confined addr s (reply addr r t)"
  by (auto simp: confined_def reply_def on_fred_def MemoryWrite_wf MemoryWrite_read)

lemma confined_svc: "confined addr s t \<Longrightarrow> confined addr s (on_svc f t)"
  by (simp add: confined_def on_svc_def)

lemma confined_card: "confined addr s t \<Longrightarrow> confined addr s (snd (on_card f t))"
  by (simp add: confined_def on_card_def on_svc_def case_prod_beta)

lemma confined_mem:
  assumes "confined addr s t" "\<forall>i < length b. region s (p + i)"
  shows "confined addr s (set_mem (mem_write (JIM_ram t) p b) t)"
proof -
  have "mem_write (JIM_ram t) p b a = JIM_ram s a" if "\<not> region s a" for a
  proof (cases "p \<le> a \<and> a < p + length b")
    case True
    then have "region s (p + (a - p))" using assms(2) by (metis le_add_diff_inverse add_less_cancel_left)
    then show ?thesis using True that by simp
  qed (use assms(1) that in \<open>auto simp: mem_write_def confined_def\<close>)
  then show ?thesis using assms(1) by (simp add: confined_def set_mem_def)
qed

lemma confined_buffer:
  assumes "confined addr s t" "2 \<le> unat (JIM_ram_size s)" "unat off + length b \<le> 2 ^ 25"
  shows "confined addr s (set_mem (mem_write (JIM_ram t) (buffer_at t off) b) t)"
proof (cases "b = []")
  case False
  have "buffer_at t off = buffer_at s off" using assms(1) by (simp add: buffer_at_def DISC_RAM_BASE_def confined_def)
  also have "\<dots> = unat (DISC_RAM_BASE s) + unat off" using buffer_at_nat [OF assms(2,3)] False by simp
  finally show ?thesis using assms by (intro confined_mem) (auto simp: region_def)
qed (use assms(1) in \<open>simp add: confined_def set_mem_def\<close>)

lemma confined_block:
  assumes "confined addr s t" "2 \<le> unat (JIM_ram_size s)" "k + length b \<le> 512"
  shows "confined addr s (set_mem (mem_write (JIM_ram t) (unat (command_block s d + of_nat k)) b) t)"
proof (cases "b = []")
  case False
  then have "k < 512" using assms(3) by (cases b) auto
  then show ?thesis
    using assms by (intro confined_mem) (auto simp: block_field add.assoc)
qed (use assms(1) in \<open>simp add: confined_def set_mem_def\<close>)

lemmas confined_intros = confined_reply confined_svc confined_card

lemma confined_write32:
  assumes "confined addr s t" "2 \<le> unat (JIM_ram_size s)" "k \<le> 508"
  shows "confined addr s (set_mem (jim_write32 (JIM_ram t) (command_block s d + of_nat k) v) t)"
  unfolding jim_write32_def using assms by (intro confined_block) auto

lemma confined_transferred:
  assumes "confined addr s t" "2 \<le> unat (JIM_ram_size s)" "addr < 512"
  shows "confined addr s (fat_transferred (command_block s d) addr r n l t)"
  using confined_write32 [OF assms(1,2), of 0 d] assms(3) by (simp add: fat_transferred_def Let_def confined_reply)

lemma short_buffer:
  "DISC_RAM_SIZE div DISC_SECTOR_SIZE = 65536" "sectors \<le> 65536 \<Longrightarrow> unat (sectors * DISC_SECTOR_SIZE) = unat sectors * 512"
proof -
  show "DISC_RAM_SIZE div DISC_SECTOR_SIZE = 65536" by (simp add: DISC_RAM_SIZE_def JIM_RAM_STEP_def DISC_SECTOR_SIZE_def)
  assume "sectors \<le> 65536"
  then have "unat sectors \<le> 65536" by (simp add: word_le_nat_alt)
  then show "unat (sectors * DISC_SECTOR_SIZE) = unat sectors * 512" by (simp add: DISC_SECTOR_SIZE_def unat_word_ariths)
qed

lemma disk_read_confined:
  assumes "2 \<le> unat (JIM_ram_size s)" "addr < 512" "fat_bounds fat"
  shows "confined addr s (fat_disk_read fat cp addr s)"
proof -
  define off where "off = jim_read32 (JIM_ram s) (cp + 4)"
  define n where "n = jim_read32 (JIM_ram s) (cp + 12)"
  define s1 where "s1 = on_svc (\<lambda>w. w\<lparr>fat_raw_sector_seen := True\<rparr>) s"
  define x where "x = on_card (disk_read fat (JIM_ram s1 (unat (cp + 1))) (jim_read32 (JIM_ram s1) (cp + 8)) n) s1"
  have c: "confined addr s s1" "confined addr s (snd x)" by (simp_all add: s1_def x_def confined_intros)
  have l: "length (snd (fst x)) \<le> unat n * 512"
    using assms(3) by (simp add: x_def on_card_def case_prod_beta fat_bounds_def)
  have e: "fat_disk_read fat cp addr s = (if 65536 < n \<or> \<not> discaccess_buffer_ok off (n * DISC_SECTOR_SIZE)
      then reply addr code_PARERR s1
      else reply addr (fst (fst x)) (set_mem (mem_write (JIM_ram (snd x)) (buffer_at (snd x) off) (snd (fst x))) (snd x)))"
    by (simp add: fat_disk_read_def Let_def case_prod_beta off_def n_def s1_def x_def short_buffer)
  show ?thesis
  proof (cases "65536 < n \<or> \<not> discaccess_buffer_ok off (n * DISC_SECTOR_SIZE)")
    case True
    then show ?thesis unfolding e using c(1) assms(2) by (simp add: confined_reply)
  next
    case False
    then have "unat off + length (snd (fst x)) \<le> 2 ^ 25"
      using l short_buffer(2) [of n] by (simp add: buffer_ok_iff not_less)
    then show ?thesis
      unfolding e using False c(2) assms(1,2) by (simp add: confined_reply confined_buffer)
  qed
qed

lemma cmd_read_confined:
  assumes "2 \<le> unat (JIM_ram_size s)" "addr < 512" "fat_bounds fat"
  shows "confined addr s (fat_cmd_read fat (command_block s d) addr h s)"
proof -
  let ?cp = "command_block s d"
  define off where "off = jim_read32 (JIM_ram s) (?cp + 4)"
  define n where "n = drop_bit 8 (jim_read32 (JIM_ram s) ?cp)"
  define x where "x = on_card (fat_lseek fat h (jim_read32 (JIM_ram s) (?cp + 8))) s"
  define y where "y = on_card (fat_read fat h (unat n)) (snd x)"
  define z where "z = set_mem (mem_write (JIM_ram (snd y)) (buffer_at (snd y) off) (snd (fst y))) (snd y)"
  have c: "confined addr s (snd x)" "confined addr s (snd y)" by (simp_all add: x_def y_def confined_intros)
  have l: "length (snd (fst y)) \<le> unat n"
    using assms(3) by (simp add: y_def on_card_def case_prod_beta fat_bounds_def)
  have e: "fat_cmd_read fat ?cp addr h s = (if \<not> discaccess_buffer_ok off n then reply addr code_INVALID_PARAMETER s
      else if fst x \<noteq> code_OK then reply addr (fst x) (snd x)
      else fat_transferred ?cp addr (fst (fst y)) (length (snd (fst y))) (unat n) z)"
    by (simp add: fat_cmd_read_def Let_def case_prod_beta off_def n_def x_def y_def z_def)
  have "confined addr s z" if "discaccess_buffer_ok off n"
    unfolding z_def using that l c(2) assms(1) by (intro confined_buffer) (simp_all add: buffer_ok_iff)
  then show ?thesis
    unfolding e using c assms(1,2) by (simp add: confined_reply confined_transferred)
qed

lemma cmd_readdir_confined:
  assumes "2 \<le> unat (JIM_ram_size s)" "addr < 512" "fat_bounds fat"
  shows "confined addr s (fat_cmd_readdir fat (command_block s d) addr h s)"
proof -
  define x where "x = on_card (fat_readdir fat h) s"
  have c: "confined addr s (snd x)" by (simp add: x_def confined_intros)
  have l: "length (snd (fst x)) \<le> 255" using assms(3) by (simp add: x_def on_card_def case_prod_beta fat_bounds_def)
  have e: "fat_cmd_readdir fat (command_block s d) addr h s = (if fst (fst x) \<noteq> code_OK then reply addr (fst (fst x)) (snd x)
      else if snd (fst x) = [] then reply addr code_SHORT (snd x)
      else reply addr code_OK (set_mem (mem_write (JIM_ram (snd x)) (unat (command_block s d + of_nat 4))
        (map of_char (snd (fst x)) @ [0])) (snd x)))"
    by (simp add: fat_cmd_readdir_def Let_def case_prod_beta x_def)
  have "4 + length (map of_char (snd (fst x)) @ [0 :: u8]) \<le> 512" using l by simp
  note m = confined_block [OF c assms(1) this]
  show ?thesis unfolding e using m c assms(2) by (simp add: confined_reply del: of_nat_numeral)
qed

text \<open>The commands that only store a word of the command block, or nothing.\<close>

lemma cmd_simple_confined:
  assumes "2 \<le> unat (JIM_ram_size s)" "addr < 512"
  shows "confined addr s (fat_disk_write ops fat cp addr s)" "confined addr s (fat_cmd_open ops fat cp addr h s)"
    "confined addr s (fat_cmd_close fat addr h s)" "confined addr s (fat_cmd_opendir fat cp addr h s)"
    "confined addr s (fat_cmd_closedir fat addr h s)" "confined addr s (fat_cmd_mkdir ops fat cp addr s)"
    "confined addr s (fat_cmd_chdir fat cp addr s)" "confined addr s (fat_cmd_rename ops fat cp addr s)"
    "confined addr s (fat_cmd_mount ops addr s)" "confined addr s (fat_cmd_unmount ops addr s)"
    "confined addr s (fat_cmd_unlink ops fat cp addr s)"
  using assms by (simp_all add: fat_disk_write_def fat_cmd_open_def fat_cmd_close_def fat_cmd_opendir_def fat_cmd_closedir_def
      fat_cmd_mkdir_def fat_cmd_chdir_def fat_cmd_rename_def fat_cmd_mount_def fat_cmd_unmount_def fat_cmd_unlink_def
      Let_def case_prod_beta confined_intros)

lemma cmd_word_confined:
  assumes "2 \<le> unat (JIM_ram_size s)" "addr < 512"
  shows "confined addr s (fat_cmd_write ops fat (command_block s d) addr h s)"
    "confined addr s (fat_cmd_size fat (command_block s d) addr h s)"
    "confined addr s (fat_cmd_getfree fat (command_block s d) addr s)"
  using assms confined_write32 [OF _ assms(1), of addr _ 8 d]
  by (simp_all add: fat_cmd_write_def fat_cmd_size_def fat_cmd_getfree_def Let_def case_prod_beta confined_intros
      confined_transferred)

text \<open>C12. A FAT command with arbitrary contents of the command block changes no JIM RAM outside the
  last 32 Mbyte and no byte of the bus page other than the command register.\<close>

theorem fat_memory_safe:
  assumes "2 \<le> unat (JIM_ram_size s)" "addr < 512" "fat_bounds fat" "mem_wf (fred s)"
    and "t = fat_service_command ops fat (command_block s d) addr data s"
  shows "(\<forall>a. a < unat (DISC_RAM_BASE s) \<or> unat (DISC_RAM_BASE s) + 2 ^ 25 \<le> a \<longrightarrow> JIM_ram t a = JIM_ram s a) \<and>
    mem_wf (fred t) \<and> (\<forall>a < 512. a \<noteq> addr \<longrightarrow> bus_read (fred t) a = bus_read (fred s) a)"
proof -
  have "confined addr s t"
    unfolding assms(5) fat_service_command_def Let_def
    using assms(1-3) by (simp add: disk_read_confined cmd_read_confined cmd_readdir_confined cmd_simple_confined
        cmd_word_confined confined_reply)
  then show ?thesis using assms(4) by (auto simp: confined_def region_def)
qed

section \<open>Write protection\<close>

text \<open>A session: the Beeb fills the RAM and issues a command, again and again.\<close>

fun session :: "'f sdcard \<Rightarrow> 'f fat_ops \<Rightarrow> (mem \<times> u32 \<times> nat \<times> u8) list \<Rightarrow> ('f, 'z) fat_services \<Rightarrow> ('f, 'z) fat_services" where
  "session ops fat [] s = s"
| "session ops fat ((m, cp, addr, data) # xs) s =
     session ops fat xs (fat_service_command ops fat cp addr data (set_mem m s))"

text \<open>
  \<open>view\<close> is what is stored on the card and \<open>writable\<close> tells that some handle is open for writing.
  What FatFs promises while no handle is: an open for reading and the operations that do not write keep what is stored, and give no
  handle that may write.
\<close>

definition card_kept :: "('f \<Rightarrow> 'v) \<Rightarrow> ('f \<Rightarrow> bool) \<Rightarrow> 'f \<Rightarrow> 'f \<Rightarrow> bool" where
  "card_kept view writable c c' \<longleftrightarrow> (\<not> writable c \<longrightarrow> view c' = view c \<and> \<not> writable c')"

definition reads_only :: "'f fat_ops \<Rightarrow> ('f \<Rightarrow> 'v) \<Rightarrow> ('f \<Rightarrow> bool) \<Rightarrow> bool" where
  "reads_only fat view writable \<longleftrightarrow> (\<forall>c. let kept = card_kept view writable c in
      (\<forall>d k n. kept (snd (disk_read fat d k n c))) \<and> (\<forall>h x. kept (snd (fat_open fat h x mode_READ c))) \<and>
      (\<forall>h. kept (snd (fat_close fat h c))) \<and> (\<forall>h p. kept (snd (fat_lseek fat h p c))) \<and> (\<forall>h n. kept (snd (fat_read fat h n c))) \<and>
      (\<forall>h x. kept (snd (fat_opendir fat h x c))) \<and> (\<forall>h. kept (snd (fat_closedir fat h c))) \<and> (\<forall>h. kept (snd (fat_readdir fat h c))) \<and>
      (\<forall>x. kept (snd (fat_chdir fat x c))) \<and> (\<forall>n. kept (snd (fat_getcwd fat n c))) \<and> kept (snd (fat_getfree fat c)))"

lemma kept_refl [simp]: "card_kept view writable c c"
  by (simp add: card_kept_def)

lemma kept_trans: "card_kept view writable c d \<Longrightarrow> card_kept view writable d e \<Longrightarrow> card_kept view writable c e"
  by (simp add: card_kept_def)

lemma kept_steps:
  assumes "reads_only fat view writable" "card_kept view writable c d"
  shows "card_kept view writable c (snd (disk_read fat i k n d))" "card_kept view writable c (snd (fat_open fat h x mode_READ d))"
    "card_kept view writable c (snd (fat_close fat h d))" "card_kept view writable c (snd (fat_lseek fat h p d))"
    "card_kept view writable c (snd (fat_read fat h j d))" "card_kept view writable c (snd (fat_opendir fat h x d))"
    "card_kept view writable c (snd (fat_closedir fat h d))" "card_kept view writable c (snd (fat_readdir fat h d))"
    "card_kept view writable c (snd (fat_chdir fat x d))" "card_kept view writable c (snd (fat_getcwd fat j d))"
    "card_kept view writable c (snd (fat_getfree fat d))"
  using assms by (auto simp: reads_only_def Let_def intro: kept_trans [of view writable c d])

abbreviation fat_card :: "('f, 'z) fat_services \<Rightarrow> 'f" where
  "fat_card s \<equiv> card (fat_fs (svc s))"

lemma card_steps [simp]:
  "fat_card (reply addr r s) = fat_card s" "fat_card (set_mem m s) = fat_card s"
  "fat_card (snd (on_card f s)) = snd (f (fat_card s))" "fst (on_card f s) = fst (f (fat_card s))"
  "fat_card (fat_transferred cp addr r n l s) = fat_card s"
  by (simp_all add: reply_def on_fred_def set_mem_def on_card_def on_svc_def case_prod_beta fat_transferred_def Let_def)

lemma card_svc [simp]:
  "fat_card (on_svc (\<lambda>w. w\<lparr>fat_open_valid := f w\<rparr>) s) = fat_card s"
  "fat_card (on_svc (\<lambda>w. w\<lparr>fat_raw_sector_seen := b\<rparr>) s) = fat_card s"
  "fat_card (on_svc (\<lambda>w. w\<lparr>fat_cwd := x, fat_cwd_known := k\<rparr>) s) = fat_card s"
  "fat_card (on_svc (fat_open_record h name) s) = fat_card s"
  by (simp_all add: on_svc_def fat_open_record_def Let_def)

lemma protected_command:
  assumes "\<And>c. config_beeb_write_protected ops c" "reads_only fat view writable"
    and "JIM_ram s (unat cp) \<noteq> 14" "JIM_ram s (unat cp) \<noteq> 15"
  shows "card_kept view writable (fat_card s) (fat_card (fat_service_command ops fat cp addr data s))"
  using assms(1,3,4) kept_steps [OF assms(2)]
  by (simp add: fat_service_command_def Let_def case_prod_beta fat_disk_read_def fat_disk_write_def fat_cmd_open_def fat_cmd_close_def
      fat_cmd_read_def fat_cmd_write_def fat_cmd_size_def fat_cmd_opendir_def fat_cmd_closedir_def fat_cmd_readdir_def
      fat_cmd_mkdir_def fat_cmd_chdir_def fat_cmd_rename_def fat_cmd_getfree_def fat_cmd_unlink_def fat_protected_def)

text \<open>C33. With write protection set and no file open for writing, no sequence of FAT commands other
  than mount and unmount changes what is stored on the card, and none opens a file for writing.\<close>

theorem fat_write_protected:
  assumes "\<And>c. config_beeb_write_protected ops c" "reads_only fat view writable" "\<not> writable (fat_card s)"
    and "\<forall>(m, cp, addr, data) \<in> set xs. m (unat cp) \<noteq> 14 \<and> m (unat cp) \<noteq> 15"
  shows "view (fat_card (session ops fat xs s)) = view (fat_card s) \<and> \<not> writable (fat_card (session ops fat xs s))"
  using assms(3,4)
proof (induction xs arbitrary: s)
  case (Cons x xs)
  obtain m cp addr data where x: "x = (m, cp, addr, data)" by (cases x)
  let ?t = "fat_service_command ops fat cp addr data (set_mem m s)"
  have "view (fat_card ?t) = view (fat_card s) \<and> \<not> writable (fat_card ?t)"
    using protected_command [OF assms(1,2), of "set_mem m s" cp addr data] Cons.prems by (simp add: x set_mem_def card_kept_def)
  with Cons show ?case by (simp add: x)
qed simp

section \<open>Files in use\<close>

definition opened :: "nat \<Rightarrow> string \<Rightarrow> ('f, 'z) fat_state_scheme \<Rightarrow> bool" where
  "opened h name w \<longleftrightarrow> length (fat_open_valid w) = 16 \<and> length (fat_open_path w) = 16 \<and> h < 16 \<and>
     fat_open_valid w ! h \<and> fat_open_path w ! h = name"


lemma opened_steps [simp]:
  "opened h name (svc (reply addr r s)) = opened h name (svc s)" "opened h name (svc (set_mem m s)) = opened h name (svc s)"
  "opened h name (svc (snd (on_card f s))) = opened h name (svc s)"
  "opened h name (svc (fat_transferred cp addr r n l s)) = opened h name (svc s)"
  "opened h name (svc (on_svc (\<lambda>w. w\<lparr>fat_raw_sector_seen := b\<rparr>) s)) = opened h name (svc s)"
  "opened h name (svc (on_svc (\<lambda>w. w\<lparr>fat_cwd := x, fat_cwd_known := k\<rparr>) s)) = opened h name (svc s)"
  by (simp_all add: reply_def on_fred_def set_mem_def on_card_def on_svc_def case_prod_beta fat_transferred_def Let_def opened_def)












end
