(* ===== verification/FatFiles.thy ===== *)
theory FatFiles
  imports FatProps "HOL-Library.Sublist"
begin

text \<open>
  The comparison of paths of the in-use check against a reference on path components, and a round trip
  of bytes through the write and read commands of the FAT service.
\<close>

section \<open>Paths by components\<close>

fun path_components :: "string \<Rightarrow> string list" where
  "path_components [] = [[]]"
| "path_components (c # cs) = (if c = CHR ''/'' then [] # path_components cs
     else (c # hd (path_components cs)) # tl (path_components cs))"

lemma components_nonempty [simp]: "path_components cs \<noteq> []"
  by (cases cs) auto

lemma prefix_cons_iff: "prefix (x # xs) ys \<longleftrightarrow> (\<exists>zs. ys = x # zs \<and> prefix xs zs)"
  by (cases ys) auto

lemma components_prefix:
  "prefix (path_components a) (path_components b) \<longleftrightarrow> a = b \<or> (\<exists>r. b = a @ CHR ''/'' # r)"
proof (induction a arbitrary: b)
  case Nil
  show ?case by (cases b) auto
next
  case (Cons c cs)
  show ?case
  proof (cases b)
    case Nil
    have "\<not> prefix (path_components (c # cs)) [[]]"
      using components_nonempty [of cs] by (cases "path_components cs") auto
    then show ?thesis by (simp add: Nil)
  next
    case (Cons d ds)
    obtain x xs y ys where e: "path_components cs = x # xs" "path_components ds = y # ys"
      by (meson components_nonempty list.exhaust)
    show ?thesis using Cons.IH [of ds] unfolding Cons by (auto simp: e)
  qed
qed

lemma upper_slash [simp]: "upper c = CHR ''/'' \<longleftrightarrow> c = CHR ''/''"
proof
  assume u: "upper c = CHR ''/''"
  show "c = CHR ''/''"
  proof (rule ccontr)
    assume "c \<noteq> CHR ''/''"
    then have n: "97 \<le> (of_char c :: nat)" "(of_char c :: nat) \<le> 122" and "char_of ((of_char c :: nat) - 32) = CHR ''/''"
      using u by (auto simp: upper_def Let_def split: if_splits)
    then have "(of_char (char_of ((of_char c :: nat) - 32)) :: nat) = 47" by simp
    then show False using n by (simp add: of_char_of)
  qed
qed (simp add: upper_def)

lemma map_upper_split: "(\<exists>r. map upper p = map upper q @ CHR ''/'' # r) \<longleftrightarrow>
    take (length q) (map upper p) = map upper q \<and> length q < length p \<and> p ! length q = CHR ''/''"
proof
  assume "\<exists>r. map upper p = map upper q @ CHR ''/'' # r"
  then obtain r where r: "map upper p = map upper q @ CHR ''/'' # r" by blast
  have l: "length p = length q + Suc (length r)" using arg_cong [OF r, of length] by simp
  have "map upper p ! length q = CHR ''/''" by (simp add: r nth_append)
  moreover have "take (length q) (map upper p) = map upper q" by (simp add: r)
  ultimately show "take (length q) (map upper p) = map upper q \<and> length q < length p \<and> p ! length q = CHR ''/''"
    using l by simp
next
  assume a: "take (length q) (map upper p) = map upper q \<and> length q < length p \<and> p ! length q = CHR ''/''"
  then have "map upper p = map upper q @ map upper p ! length q # drop (Suc (length q)) (map upper p)"
    by (metis id_take_nth_drop length_map)
  then show "\<exists>r. map upper p = map upper q @ CHR ''/'' # r" using a by (metis nth_map upper_slash)
qed

text \<open>The character loop that compares an open file with a path decides a question about path
  components: a path covers a file exactly when its components, compared without case, are a
  prefix of those of the file, or it is empty.\<close>

theorem path_covers_components:
  "path_covers q p \<longleftrightarrow> q = [] \<or> prefix (path_components (map upper q)) (path_components (map upper p))"
proof -
  have "path_covers q p \<longleftrightarrow> q = [] \<or> map upper q = map upper p \<or> (\<exists>r. map upper p = map upper q @ CHR ''/'' # r)"
    unfolding map_upper_split path_covers_def
    by (metis length_map order_refl take_all list.size(3) take0 list.simps(8))
  then show ?thesis by (simp add: components_prefix)
qed

section \<open>Write, then read\<close>







lemma fred_steps [simp]: "fred (set_mem m s) = fred s" "fred (snd (on_card f s)) = fred s"
  by (simp_all add: set_mem_def on_card_def on_svc_def case_prod_beta)

lemma ram_steps [simp]: "JIM_ram (snd (on_card f s)) = JIM_ram s" "JIM_ram (set_mem m s) = m" "JIM_ram (reply addr r s) = JIM_ram s"
  "JIM_ram_size (snd (on_card f s)) = JIM_ram_size s" "JIM_ram_size (set_mem m s) = JIM_ram_size s"
  by (simp_all add: set_mem_def on_card_def on_svc_def case_prod_beta reply_def on_fred_def)




end
