(* ===== verification/AunService.thy ===== *)
theory AunService
  imports FatService AunEngine AunConfig Config
begin

text \<open>
  The AUN service of \<open>AUN/aun_emulator.c\<close>: commands 30 to 44 of the services port drive the AUN engine,
  and lwIP's UDP carries its datagrams.  The command register's callback only fills a mailbox; the poll
  hook of the main loop executes the command and writes the result.
\<close>

section \<open>The transport\<close>

text \<open>
  lwIP, the WiFi context and the system timer, as the service calls them.  Control blocks and packet
  buffers are numbered; \<open>'l\<close> is the state of the stack.
\<close>

record 'l lwip =
  pbuf_alloc :: "u16 \<Rightarrow> 'l \<Rightarrow> nat option \<times> 'l"
  pbuf_take :: "nat \<Rightarrow> u8 list \<Rightarrow> 'l \<Rightarrow> bool \<times> 'l"
  pbuf_free :: "nat \<Rightarrow> 'l \<Rightarrow> 'l"
  udp_sendto :: "nat \<Rightarrow> nat \<Rightarrow> u32 \<Rightarrow> u16 \<Rightarrow> 'l \<Rightarrow> bool \<times> 'l"
  udp_new :: "'l \<Rightarrow> nat option \<times> 'l"
  udp_bind :: "nat \<Rightarrow> u16 \<Rightarrow> 'l \<Rightarrow> bool \<times> 'l"
  udp_recv :: "nat \<Rightarrow> 'l \<Rightarrow> 'l"
  udp_remove :: "nat \<Rightarrow> 'l \<Rightarrow> 'l"
  wifi_lwip_rx_kick :: "'l \<Rightarrow> 'l"
  address_ready :: "'l \<Rightarrow> bool"
  netif_added :: "'l \<Rightarrow> bool"
  netif_ip :: "'l \<Rightarrow> u32"
  netif_mask :: "'l \<Rightarrow> u32"
  RPI_GetSystemTime64 :: "'l \<Rightarrow> 64 word"

record 'l aun_world =
  aun_pcb :: "nat option"
  stack :: 'l

definition on_stack :: "('l \<Rightarrow> 'a \<times> 'l) \<Rightarrow> 'l aun_world \<Rightarrow> 'a \<times> 'l aun_world" where
  "on_stack f w = (let (r, l) = f (stack w) in (r, w\<lparr>stack := l\<rparr>))"

definition aun_udp_send :: "'l lwip \<Rightarrow> 'l aun_world \<Rightarrow> u32 \<Rightarrow> u16 \<Rightarrow> u8 list \<Rightarrow> bool \<times> 'l aun_world" where
  "aun_udp_send lw w ip port buf =
     (case aun_pcb w of None \<Rightarrow> (False, w)
      | Some pcb \<Rightarrow>
          (case on_stack (pbuf_alloc lw (of_nat (length buf))) w of
             (None, w) \<Rightarrow> (False, w)
           | (Some p, w) \<Rightarrow>
               (let (ok, w) = on_stack (pbuf_take lw p buf) w in
                if \<not> ok then (False, w\<lparr>stack := pbuf_free lw p (stack w)\<rparr>)
                else let (r, w) = on_stack (udp_sendto lw pcb p ip port) w;
                         w = w\<lparr>stack := pbuf_free lw p (stack w)\<rparr> in
                  if r then (True, w\<lparr>stack := wifi_lwip_rx_kick lw (stack w)\<rparr>) else (False, w))))"

definition aun_now_ms :: "'l lwip \<Rightarrow> 'l aun_world \<Rightarrow> u32" where
  "aun_now_ms lw w = ucast (RPI_GetSystemTime64 lw (stack w) div 1000)"

definition udp_transport :: "'l lwip \<Rightarrow> 'l aun_world \<Rightarrow> 'l aun_world aun_transport_t" where
  "udp_transport lw w = \<lparr>tr_udp_send = aun_udp_send lw, tr_now_ms = aun_now_ms lw, tr_user = w\<rparr>"

section \<open>State\<close>

text \<open>The static variables, after those of the FAT service.  The control block is in the engine's outside world.\<close>

record ('f, 'l) aun_state = "'f fat_state" +
  aun :: "'l aun_world aun_engine_t"
  aun_pending :: bool
  aun_pending_cp :: u32
  aun_pending_addr :: nat
  aun_irq_enabled :: bool
  aun_irq_state :: u8
  IRQ_NUM :: u8
  aun_debug :: bool

type_synonym ('f, 'l, 'z) aun_services = "('f, 'l, 'z) aun_state_scheme services"

definition engine :: "('f, 'l, 'z) aun_services \<Rightarrow> 'l aun_world aun_engine_t" where
  "engine s = aun (svc s)"

definition set_engine :: "'l aun_world aun_engine_t \<Rightarrow> ('f, 'l, 'z) aun_services \<Rightarrow> ('f, 'l, 'z) aun_services" where
  "set_engine e s = on_svc (\<lambda>w. w\<lparr>aun := e\<rparr>) s"

definition aun_world_of :: "('f, 'l, 'z) aun_services \<Rightarrow> 'l aun_world" where
  "aun_world_of s = tr_user (transport (engine s))"

definition set_world :: "'l aun_world \<Rightarrow> ('f, 'l, 'z) aun_services \<Rightarrow> ('f, 'l, 'z) aun_services" where
  "set_world w s = set_engine ((engine s)\<lparr>transport := (transport (engine s))\<lparr>tr_user := w\<rparr>\<rparr>) s"

definition AUN_DEFAULT_STATION :: u8 where "AUN_DEFAULT_STATION = 32"
definition AUN_DEFAULT_NET :: u8 where "AUN_DEFAULT_NET = 0"

section \<open>Interrupts\<close>

definition aun_irq_update :: "('f, 'l, 'z) aun_services \<Rightarrow> ('f, 'l, 'z) aun_services" where
  "aun_irq_update s =
     (let (ready, e) = (if aun_irq_enabled (svc s) then aun_rx_ready (engine s) 0 else (0, engine s));
          s = set_engine e s;
          st = (if ready \<noteq> 0 then 0x80 OR (if 0x3F < ready then 0x3F else of_nat ready) else 0);
          st = (if aun_irq_enabled (svc s) \<and> h_active (himm e) then st OR 0x40 else st) in
      if st \<noteq> aun_irq_state (svc s)
      then services_irq (IRQ_NUM (svc s)) st (on_svc (\<lambda>w. w\<lparr>aun_irq_state := st\<rparr>) s)
      else s)"

section \<open>Commands\<close>

definition aun_buffer_ok :: "u32 \<Rightarrow> u32 \<Rightarrow> bool" where
  "aun_buffer_ok offset n = (if DISC_RAM_SIZE < offset then False else n \<le> DISC_RAM_SIZE - offset)"

text \<open>A byte and a word of the command block, and the buffer at an offset.\<close>

definition block_byte :: "u32 \<Rightarrow> u32 \<Rightarrow> 'w services \<Rightarrow> u8" where
  "block_byte cp k s = JIM_ram s (unat (cp + k))"

definition block_word :: "u32 \<Rightarrow> u32 \<Rightarrow> 'w services \<Rightarrow> u32" where
  "block_word cp k s = jim_read32 (JIM_ram s) (cp + k)"

definition put_bytes :: "u32 \<Rightarrow> u8 list \<Rightarrow> 'w services \<Rightarrow> 'w services" where
  "put_bytes a b s = set_mem (mem_write (JIM_ram s) (unat a) b) s"

definition put_word :: "u32 \<Rightarrow> u32 \<Rightarrow> 'w services \<Rightarrow> 'w services" where
  "put_word a v s = set_mem (jim_write32 (JIM_ram s) a v) s"

definition host_bytes :: "'w services \<Rightarrow> u32 \<Rightarrow> u32 \<Rightarrow> cbuf" where
  "host_bytes s off len = Bytes (mem_read (JIM_ram s) (unat (DISC_RAM_BASE s + off)) (unat len))"

definition host_buffer :: "'w services \<Rightarrow> u32 \<Rightarrow> nat option" where
  "host_buffer s off = Some (unat (DISC_RAM_BASE s + off))"

text \<open>Opening the listening port: the old control block goes first.\<close>

definition aun_listen :: "'l lwip \<Rightarrow> u16 \<Rightarrow> 'l aun_world \<Rightarrow> bool \<times> 'l aun_world" where
  "aun_listen lw port w =
     (let w = (case aun_pcb w of None \<Rightarrow> w | Some p \<Rightarrow> w\<lparr>aun_pcb := None, stack := udp_remove lw p (stack w)\<rparr>) in
      case on_stack (udp_new lw) w of
        (None, w) \<Rightarrow> (False, w\<lparr>aun_pcb := None\<rparr>)
      | (Some p, w) \<Rightarrow>
          (let (ok, w) = on_stack (udp_bind lw p port) w in
           if \<not> ok then (False, w\<lparr>aun_pcb := None, stack := udp_remove lw p (stack w)\<rparr>)
           else (True, w\<lparr>aun_pcb := Some p, stack := udp_recv lw p (stack w)\<rparr>)))"

text \<open>The station and network of the block, or of the settings when the block has station 0.\<close>

definition aun_identity :: "(string \<times> string) list \<Rightarrow> u32 \<Rightarrow> u8 \<Rightarrow> u8 \<Rightarrow> u8 \<times> u8" where
  "aun_identity cfg ip stn n =
     (if stn \<noteq> 0 then (stn, n)
      else let stn_cfg = config_get cfg ''aun_station'';
               (stn, n) =
                 (case aun_station_is_ip stn_cfg of
                    Some (cfg_net, net_from_ip) \<Rightarrow>
                      (ucast (drop_bit 24 ip), if net_from_ip then ucast (drop_bit 16 ip) else cfg_net)
                  | None \<Rightarrow>
                      (case aun_parse_station stn_cfg of
                         Some (n, stn) \<Rightarrow> (stn, n)
                       | None \<Rightarrow> (AUN_DEFAULT_STATION, AUN_DEFAULT_NET))) in
        if stn = 0 \<or> stn = 0xFF then (AUN_DEFAULT_STATION, AUN_DEFAULT_NET) else (stn, n))"

text \<open>The engine after INIT: the settings of the card and the addresses of the interface applied to a fresh engine.\<close>

definition aun_setup :: "'l lwip \<Rightarrow> (string \<times> string) list \<Rightarrow> 'l aun_world \<Rightarrow> u8 \<Rightarrow> u8 \<Rightarrow> bool \<Rightarrow> 'l aun_world aun_engine_t" where
  "aun_setup lw cfg w stn n host_imm =
     (let e = aun_init (udp_transport lw w) stn n;
          e = aun_set_host_imm e host_imm;
          e = aun_set_trace e None;
          e = (case aun_parse_machine (config_get cfg ''aun_machine'') of Some mid \<Rightarrow> aun_set_machine_id e mid | None \<Rightarrow> e);
          e = snd (aun_parse_map (config_get cfg ''aun_map'') aun_map_add e) in
      if netif_added lw (stack w) then
        (let ip = netif_ip lw (stack w); msk = netif_mask lw (stack w) in
         if ip \<noteq> 0 \<and> msk \<noteq> 0
         then aun_set_addressing e ((ip AND msk) OR NOT msk) ip msk
                (case aun_parse_net (config_get cfg ''aun_learn'') of Some lnet \<Rightarrow> lnet | None \<Rightarrow> 0xFF)
         else e)
      else e)"

definition aun_cmd_init :: "'l lwip \<Rightarrow> (string \<times> string) list \<Rightarrow> u32 \<Rightarrow> ('f, 'l, 'z) aun_services \<Rightarrow> u8 \<times> ('f, 'l, 'z) aun_services" where
  "aun_cmd_init lw cfg cp s =
     (if \<not> address_ready lw (stack (aun_world_of s)) then (AUN_ERR_NOT_READY, s)
      else let port = ucast (block_word cp 4 s) :: u16;
               port = (if port = 0 then case aun_parse_port (config_get cfg ''aun_port'') of Some p \<Rightarrow> p | None \<Rightarrow> AUN_DEFAULT_UDP_PORT
                       else port);
               (ok, w) = aun_listen lw port (aun_world_of s) in
        if \<not> ok then (AUN_TX_NET_ERROR, set_world w s)
        else let (stn, n) = aun_identity cfg (netif_ip lw (stack w)) (block_byte cp 1 s) (block_byte cp 2 s);
                 flags = block_byte cp 8 s in
          (AUN_OK, set_engine (aun_setup lw cfg w stn n (flags AND 2 \<noteq> 0))
            (on_svc (\<lambda>v. v\<lparr>aun_irq_enabled := flags AND 1 \<noteq> 0, aun_debug := config_get cfg ''aun_debug'' \<noteq> None\<rparr>) s)))"

definition aun_cmd_status :: "'l lwip \<Rightarrow> u32 \<Rightarrow> ('f, 'l, 'z) aun_services \<Rightarrow> u8 \<times> ('f, 'l, 'z) aun_services" where
  "aun_cmd_status lw cp s =
     (let e = engine s; l = stack (aun_world_of s); k = counters e;
          s = put_bytes (cp + 4) [station e, net e,
                (if address_ready lw l then 1 else 0) OR (if initialised e then 2 else 0)] s;
          s = put_word (cp + 8) (if netif_added lw l then netif_ip lw l else 0) s;
          c = [k_tx_ok k, k_tx_fail k, k_rx_data k, k_rx_broadcast k, k_rx_imm k, k_rx_dup k, k_rx_no_block k,
               k_rx_unknown_source k, k_rx_too_big k, k_ack_sent k, k_nak_sent k] in
      (AUN_OK, fold (\<lambda>i. put_word (cp + 12 + of_nat i * 4) (c ! i)) [0..<11] s))"

definition aun_cmd_tx :: "u32 \<Rightarrow> ('f, 'l, 'z) aun_services \<Rightarrow> u8 \<times> ('f, 'l, 'z) aun_services" where
  "aun_cmd_tx cp s =
     (let off = block_word cp 8 s; len = block_word cp 12 s in
      if \<not> aun_buffer_ok off len then (AUN_ERR_PARAM, s)
      else let (r, e, m) = aun_tx_start (engine s) (JIM_ram s) (block_byte cp 5 s) (block_byte cp 4 s) (block_byte cp 2 s)
             (block_byte cp 3 s) (host_bytes s off len) in
        (r, set_engine e (set_mem m s)))"

definition aun_cmd_tx_poll :: "u32 \<Rightarrow> ('f, 'l, 'z) aun_services \<Rightarrow> u8 \<times> ('f, 'l, 'z) aun_services" where
  "aun_cmd_tx_poll cp s =
     (let r = aun_tx_status (engine s) in
      (r, if r = AUN_OK then put_word (cp + 8) (of_nat (aun_tx_reply_len (engine s))) s else s))"

definition aun_cmd_rx_open :: "u32 \<Rightarrow> ('f, 'l, 'z) aun_services \<Rightarrow> u8 \<times> ('f, 'l, 'z) aun_services" where
  "aun_cmd_rx_open cp s =
     (let off = block_word cp 8 s; sz = block_word cp 12 s in
      if \<not> aun_buffer_ok off sz then (AUN_ERR_PARAM, s)
      else let (r, e) = aun_rx_open (engine s) (unat (block_byte cp 1 s)) (block_byte cp 2 s) (block_byte cp 4 s)
             (block_byte cp 5 s) (host_buffer s off) (unat sz) in
        (r, set_engine e s))"

definition aun_cmd_rx_poll :: "u32 \<Rightarrow> ('f, 'l, 'z) aun_services \<Rightarrow> u8 \<times> ('f, 'l, 'z) aun_services" where
  "aun_cmd_rx_poll cp s =
     (let (r, info, e, m) = aun_rx_poll (engine s) (JIM_ram s) (unat (block_byte cp 1 s)); s = set_engine e (set_mem m s) in
      case info of
        Some i \<Rightarrow> (r, put_word (cp + 12) (of_nat (i_len i)) (put_bytes (cp + 2) [i_ctrl i, i_port i, i_src_stn i, i_src_net i] s))
      | None \<Rightarrow> (r, s))"

definition aun_cmd_rx_close :: "u32 \<Rightarrow> ('f, 'l, 'z) aun_services \<Rightarrow> u8 \<times> ('f, 'l, 'z) aun_services" where
  "aun_cmd_rx_close cp s = (let (r, e) = aun_rx_close (engine s) (unat (block_byte cp 1 s)) in (r, set_engine e s))"

definition aun_cmd_imm_poll :: "u32 \<Rightarrow> ('f, 'l, 'z) aun_services \<Rightarrow> u8 \<times> ('f, 'l, 'z) aun_services" where
  "aun_cmd_imm_poll cp s =
     (let h = himm (engine s) in
      if \<not> h_active h then (AUN_STATUS_PENDING, s)
      else let s = put_word (cp + 12) (of_nat (h_len h)) (put_bytes (cp + 2) [h_ctrl h] s);
               s = (if h_len h \<noteq> 0 then put_bytes (DISC_RAM_BASE s + 0xFEA000) (take (h_len h) (h_data h)) s else s) in
        (AUN_OK, set_engine ((engine s)\<lparr>himm := h\<lparr>h_polled_gen := h_gen h\<rparr>\<rparr>) s))"

definition aun_cmd_imm_reply :: "u32 \<Rightarrow> ('f, 'l, 'z) aun_services \<Rightarrow> u8 \<times> ('f, 'l, 'z) aun_services" where
  "aun_cmd_imm_reply cp s =
     (let off = block_word cp 8 s; len = block_word cp 12 s; h = himm (engine s) in
      if \<not> aun_buffer_ok off len \<or> AUN_HIMM_MAX < unat len then (AUN_ERR_PARAM, s)
      else (AUN_OK, if h_active h \<and> h_gen h = h_polled_gen h
                    then set_engine (aun_himm_reply (engine s) (buf_bytes (host_bytes s off len))) s else s))"

definition aun_cmd_rx_done :: "u32 \<Rightarrow> ('f, 'l, 'z) aun_services \<Rightarrow> u8 \<times> ('f, 'l, 'z) aun_services" where
  "aun_cmd_rx_done cp s =
     (let (r, e) = aun_rx_collect (engine s) (unat (block_byte cp 1 s)) (block_byte cp 2 s = 0) in (r, set_engine e s))"

definition aun_cmd_bcast :: "u32 \<Rightarrow> ('f, 'l, 'z) aun_services \<Rightarrow> u8 \<times> ('f, 'l, 'z) aun_services" where
  "aun_cmd_bcast cp s =
     (let off = block_word cp 8 s; len = block_word cp 12 s in
      if \<not> aun_buffer_ok off len then (AUN_ERR_PARAM, s)
      else let (r, e) = aun_broadcast (engine s) (block_byte cp 2 s) (block_byte cp 3 s) (host_bytes s off len) in
        (r, set_engine e s))"

definition aun_cmd_immediate :: "u32 \<Rightarrow> ('f, 'l, 'z) aun_services \<Rightarrow> u8 \<times> ('f, 'l, 'z) aun_services" where
  "aun_cmd_immediate cp s =
     (let off = block_word cp 8 s; len = block_word cp 12 s; reply_off = block_word cp 16 s; reply_max = block_word cp 20 s in
      if \<not> aun_buffer_ok off len \<or> \<not> aun_buffer_ok reply_off reply_max then (AUN_ERR_PARAM, s)
      else let (r, e, m) = aun_immediate (engine s) (JIM_ram s) (block_byte cp 5 s) (block_byte cp 4 s) (block_byte cp 2 s)
             (host_bytes s off len) (host_buffer s reply_off) (unat reply_max) in
        (r, set_engine e (set_mem m s)))"

definition aun_cmd_map_add :: "u32 \<Rightarrow> ('f, 'l, 'z) aun_services \<Rightarrow> u8 \<times> ('f, 'l, 'z) aun_services" where
  "aun_cmd_map_add cp s =
     (let (ok, e) = aun_map_add (engine s) (block_byte cp 2 s) (block_byte cp 1 s) (block_word cp 4 s) (ucast (block_word cp 8 s)) in
      (if ok then AUN_OK else AUN_ERR_PARAM, set_engine e s))"

definition aun_cmd_test :: "u32 \<Rightarrow> ('f, 'l, 'z) aun_services \<Rightarrow> u8 \<times> ('f, 'l, 'z) aun_services" where
  "aun_cmd_test cp s =
     (AUN_OK, set_engine (aun_test_responder (engine s) (block_byte cp 1 s \<noteq> 0) (block_byte cp 2 s) (block_byte cp 3 s)) s)"

definition aun_cmd_set_machine :: "u32 \<Rightarrow> ('f, 'l, 'z) aun_services \<Rightarrow> u8 \<times> ('f, 'l, 'z) aun_services" where
  "aun_cmd_set_machine cp s =
     (AUN_OK, set_engine (aun_set_machine_id (engine s) (mem_read (JIM_ram s) (unat (cp + 4)) 4)) s)"

definition aun_run :: "'l lwip \<Rightarrow> (string \<times> string) list \<Rightarrow> u32 \<Rightarrow> ('f, 'l, 'z) aun_services \<Rightarrow> u8 \<times> ('f, 'l, 'z) aun_services" where
  "aun_run lw cfg cp s =
     (let c = JIM_ram s (unat cp) in
      if c = 30 then aun_cmd_init lw cfg cp s
      else if c = 31 then aun_cmd_status lw cp s
      else if c = 32 then aun_cmd_tx cp s
      else if c = 33 then aun_cmd_tx_poll cp s
      else if c = 34 then aun_cmd_rx_open cp s
      else if c = 35 then aun_cmd_rx_poll cp s
      else if c = 36 then aun_cmd_rx_close cp s
      else if c = 43 then aun_cmd_imm_poll cp s
      else if c = 44 then aun_cmd_imm_reply cp s
      else if c = 42 then aun_cmd_rx_done cp s
      else if c = 37 then aun_cmd_bcast cp s
      else if c = 38 then aun_cmd_immediate cp s
      else if c = 39 then aun_cmd_map_add cp s
      else if c = 40 then aun_cmd_test cp s
      else if c = 41 then aun_cmd_set_machine cp s
      else (AUN_ERR_PARAM, s))"

definition aun_execute :: "'l lwip \<Rightarrow> (string \<times> string) list \<Rightarrow> u32 \<Rightarrow> nat \<Rightarrow> ('f, 'l, 'z) aun_services \<Rightarrow> ('f, 'l, 'z) aun_services" where
  "aun_execute lw cfg cp addr s = (let (r, s) = aun_run lw cfg cp s in reply addr r s)"

section \<open>The mailbox\<close>

definition aun_emulator_command :: "u32 \<Rightarrow> nat \<Rightarrow> u8 \<Rightarrow> ('f, 'l, 'z) aun_services \<Rightarrow> ('f, 'l, 'z) aun_services" where
  "aun_emulator_command cp addr data s =
     on_svc (\<lambda>w. w\<lparr>aun_pending_cp := cp, aun_pending_addr := addr, aun_pending := True\<rparr>) s"

definition aun_emulator_poll :: "'l lwip \<Rightarrow> (string \<times> string) list \<Rightarrow> ('f, 'l, 'z) aun_services \<Rightarrow> ('f, 'l, 'z) aun_services" where
  "aun_emulator_poll lw cfg s =
     (let s = (if aun_pending (svc s)
               then aun_execute lw cfg (aun_pending_cp (svc s)) (aun_pending_addr (svc s)) (on_svc (\<lambda>w. w\<lparr>aun_pending := False\<rparr>) s)
               else s);
          s = set_engine (aun_poll (engine s)) s in
      aun_irq_update s)"

definition aun_udp_recv :: "u32 \<Rightarrow> u16 \<Rightarrow> u8 list \<Rightarrow> ('f, 'l, 'z) aun_services \<Rightarrow> ('f, 'l, 'z) aun_services" where
  "aun_udp_recv ip port p s =
     (if length p \<le> AUN_HDR_SIZE + AUN_MAX_DATA
      then let (e, m) = aun_udp_input (engine s) (JIM_ram s) ip port p in set_engine e (set_mem m s)
      else s)"

definition aun_emulator_init :: "(string \<Rightarrow> nat) \<Rightarrow> u8 \<Rightarrow> u8 \<Rightarrow> ('f, 'l, 'z) aun_services \<Rightarrow> ('f, 'l, 'z) aun_services" where
  "aun_emulator_init fn instance address s =
     (let s = on_svc (\<lambda>w. w\<lparr>IRQ_NUM := instance, aun_pending := False, aun_irq_enabled := False, aun_irq_state := 0\<rparr>) s;
          s = snd (services_register SERVICE_CMD_AUN_FIRST SERVICE_CMD_AUN_LAST (fn ''aun_emulator_command'') s) in
      on_fred (Pi1MHz_Register_Poll (fn ''aun_emulator_poll'')) s)"

end
