(* ===== verification/AunBuffers.thy ===== *)
theory AunBuffers
  imports AunEngine
begin

text \<open>
  The host buffers that the AUN engine holds on to, and its transmission status: what each public
  operation keeps of them, and where in the host memory it stores.
\<close>

section \<open>Buffers and status\<close>

definition buf_shape :: "'u aun_engine_t \<Rightarrow> (nat option \<times> nat) list" where
  "buf_shape e = map (\<lambda>b. (b_buf b, b_buf_size b)) (e_rx e)"

definition reply_shape :: "'u aun_engine_t \<Rightarrow> (nat \<times> nat) option" where
  "reply_shape e = map_option (\<lambda>a. (a, t_reply_max (tx e))) (t_reply_buf (tx e))"

text \<open>The buffers lie in the memory from \<open>lo\<close> up to \<open>hi\<close>, and the status is one of the result codes.\<close>

definition within :: "nat \<Rightarrow> nat \<Rightarrow> nat option \<Rightarrow> nat \<Rightarrow> bool" where
  "within lo hi b n \<longleftrightarrow> (\<forall>a. b = Some a \<longrightarrow> lo \<le> a \<and> a + n \<le> hi)"

definition bufs_in :: "nat \<Rightarrow> nat \<Rightarrow> 'u aun_engine_t \<Rightarrow> bool" where
  "bufs_in lo hi e \<longleftrightarrow> (\<forall>(b, n) \<in> set (buf_shape e). within lo hi b n) \<and> within lo hi (t_reply_buf (tx e)) (t_reply_max (tx e)) \<and>
     t_state (tx e) \<le> 0x80"

text \<open>An operation that adds no buffer.\<close>

definition keeps :: "'u aun_engine_t \<Rightarrow> 'u aun_engine_t \<Rightarrow> bool" where
  "keeps e e1 \<longleftrightarrow> buf_shape e1 = buf_shape e \<and> (reply_shape e1 = None \<or> reply_shape e1 = reply_shape e) \<and>
     (t_state (tx e) \<le> 0x80 \<longrightarrow> t_state (tx e1) \<le> 0x80)"

lemma keeps_bufs: "keeps e e1 \<Longrightarrow> bufs_in lo hi e \<Longrightarrow> bufs_in lo hi e1"
  by (cases "t_reply_buf (tx e)"; cases "t_reply_buf (tx e1)") (auto simp: keeps_def bufs_in_def reply_shape_def within_def)

lemma keeps_refl [simp]: "keeps e e"
  by (simp add: keeps_def)

lemma keeps_trans: "keeps e e1 \<Longrightarrow> keeps e1 e2 \<Longrightarrow> keeps e e2"
  by (auto simp: keeps_def)

lemma keeps_same: "e_rx e1 = e_rx e \<Longrightarrow> tx e1 = tx e \<Longrightarrow> keeps e e1"
  by (simp add: keeps_def buf_shape_def reply_shape_def)

lemma keeps_set_rx:
  assumes "b_buf b = b_buf (e_rx e ! h)" "b_buf_size b = b_buf_size (e_rx e ! h)"
  shows "keeps e (set_rx e h b)"
proof -
  have "map (\<lambda>b. (b_buf b, b_buf_size b)) ((e_rx e)[h := b]) = map (\<lambda>b. (b_buf b, b_buf_size b)) (e_rx e)"
    using assms by (cases "h < length (e_rx e)") (simp_all add: map_update list_update_same_conv list_update_beyond)
  then show ?thesis by (simp add: keeps_def buf_shape_def reply_shape_def)
qed

lemma keeps_set_rx_of:
  assumes "e_rx e1 = e_rx e" "tx e1 = tx e" "b_buf b = b_buf (e_rx e ! h)" "b_buf_size b = b_buf_size (e_rx e ! h)"
  shows "keeps e (set_rx e1 h b)"
  using keeps_trans [OF keeps_same [OF assms(1,2)] keeps_set_rx [of b e1 h]] assms by simp

lemma keeps_counters [simp]: "keeps e (e1\<lparr>counters := k\<rparr>) = keeps e e1"
  by (simp add: keeps_def buf_shape_def reply_shape_def)

section \<open>The receive side\<close>

lemma eligible_bufs [simp]:
  "b_buf (snd (rx_frame_eligible now b f)) = b_buf b" "b_buf_size (snd (rx_frame_eligible now b f)) = b_buf_size b"
  by (simp_all add: rx_frame_eligible_def Let_def case_prod_beta)

lemma first_eligible_bufs:
  "b_buf (snd (rx_first_eligible_loop now b is)) = b_buf b \<and> b_buf_size (snd (rx_first_eligible_loop now b is)) = b_buf_size b"
  by (induction "is" arbitrary: b) (simp_all add: Let_def case_prod_beta)

lemma ready_bufs:
  "b_buf (snd (rx_ready_loop now b is n)) = b_buf b \<and> b_buf_size (snd (rx_ready_loop now b is n)) = b_buf_size b"
  by (induction "is" arbitrary: b n) (simp_all add: Let_def case_prod_beta)

lemma current_bufs [simp]:
  "b_buf (snd (rx_current now b)) = b_buf b" "b_buf_size (snd (rx_current now b)) = b_buf_size b"
  by (simp_all add: rx_current_def rx_first_eligible_def first_eligible_bufs)

lemma rx_ready_keeps: "keeps e (snd (aun_rx_ready e h))"
  by (simp add: aun_rx_ready_def Let_def case_prod_beta ready_bufs keeps_set_rx)

lemma rx_poll_keeps: "keeps e (fst (snd (snd (aun_rx_poll e m h))))"
proof -
  have "b_buf b1 = b_buf (e_rx e ! h) \<and> b_buf_size b1 = b_buf_size (e_rx e ! h)"
    if "rx_first_eligible (now_ms e) (e_rx e ! h) = (r, b1)" for r b1
    using first_eligible_bufs [of "now_ms e" "e_rx e ! h"] that by (metis rx_first_eligible_def snd_conv)
  then show ?thesis
    by (auto simp: aun_rx_poll_def Let_def intro!: keeps_set_rx split: prod.split option.split)
qed

lemma rx_answer_keeps:
  assumes "b_buf b = b_buf (e_rx e ! h)" "b_buf_size b = b_buf_size (e_rx e ! h)"
  shows "keeps e (rx_answer e h b k accept)"
  using assms by (auto simp: rx_answer_def rx_reject_def Let_def case_prod_beta intro!: keeps_set_rx_of)

lemma rx_collect_keeps: "keeps e (snd (aun_rx_collect e h accept))"
proof -
  have "b_buf b1 = b_buf (e_rx e ! h) \<and> b_buf_size b1 = b_buf_size (e_rx e ! h)"
    if "rx_current (now_ms e) (e_rx e ! h) = (r, b1)" for r b1
    using current_bufs [of "now_ms e" "e_rx e ! h"] that by simp
  then show ?thesis
    by (auto simp: aun_rx_collect_def intro!: keeps_set_rx rx_answer_keeps split: prod.split option.split)
qed

lemma rx_close_bufs: "bufs_in lo hi e \<Longrightarrow> bufs_in lo hi (snd (aun_rx_close e h))"
  by (auto simp: aun_rx_close_def bufs_in_def buf_shape_def rx_block_zero_def within_def map_update dest!: set_update_subset_insert [THEN subsetD])

lemma rx_open_bufs:
  "bufs_in lo hi e \<Longrightarrow> within lo hi buf sz \<Longrightarrow> bufs_in lo hi (snd (aun_rx_open e h port s n buf sz))"
  by (auto simp: aun_rx_open_def bufs_in_def buf_shape_def map_update dest!: set_update_subset_insert [THEN subsetD])

lemma rx_deliver_keeps: "keeps e (snd (snd (rx_deliver e port ctrl s n data)))"
  by (auto simp: rx_deliver_def Let_def intro!: keeps_set_rx split: prod.split option.split)

section \<open>Inbound\<close>

lemma rx_data_verdict_keeps: "keeps e (snd (rx_data_verdict e ip sp port ctrl s data))"
proof -
  let ?e = "snd (rx_data_source e ip sp)"
  have s: "e_rx ?e = e_rx e" "tx ?e = tx e" by (auto simp: rx_data_source_def Let_def split: option.split)
  let ?d = "\<lambda>sn n. snd (snd (rx_deliver ?e port ctrl sn n data))"
  have d: "keeps e (?d sn n)" for sn n
    by (rule keeps_trans [OF keeps_same [OF s] rx_deliver_keeps])
  have q: "keeps e (set_rx (?d sn n) bi ((e_rx (?d sn n) ! bi)\<lparr>b_q := q\<rparr>))" for sn n bi q
    by (rule keeps_trans [OF d keeps_set_rx]) simp_all
  have a: "keeps e (send_ack_nak (?d sn n) ip sp ty port ctrl s)" for sn n ty
    by (rule keeps_trans [OF d keeps_same]) simp_all
  have k: "keeps e (send_ack_nak (?e\<lparr>counters := k\<rparr>) ip sp ty port ctrl s)" for k ty
    by (rule keeps_same) (simp_all add: s)
  show ?thesis
    unfolding rx_data_verdict_def Let_def case_prod_beta
    using d q a k keeps_same [OF s] by (auto split: option.split)
qed

lemma rx_data_keeps: "keeps e (rx_data e ip sp port ctrl s data)"
  unfolding rx_data_def Let_def case_prod_beta
  by (rule keeps_trans [OF rx_data_verdict_keeps keeps_same]) (auto simp: rx_trace_def Let_def split: option.split prod.split)

lemma rx_broadcast_keeps: "keeps e (rx_broadcast e ip sp port ctrl data)"
proof -
  have "keeps e e2" if "rx_deliver e port ctrl s n data = (r, why, e2)" for s n r why e2
    using rx_deliver_keeps [of e port ctrl s n data] that by simp
  then show ?thesis by (auto simp: rx_broadcast_def split: option.split prod.split)
qed

lemma rx_imm_keeps: "keeps e (rx_imm4_data e ip sp ctrl s data)" "keeps e (rx_immediate e ip sp port ctrl s data)"
  by (rule keeps_same; simp add: rx_imm4_data_def rx_immediate_def Let_def count_rx_imm_def count_replay_def himm_hold_def
      send_imm_reply_eq)+

lemma rx_ack_keeps: "keeps e (rx_ack_nak e ip sp ty s)" "keeps e (fst (rx_imm_reply e m ip sp s data))"
  by (simp_all add: keeps_def rx_ack_nak_def rx_imm_reply_def Let_def buf_shape_def reply_shape_def)

lemma udp_input_keeps: "keeps e (fst (aun_udp_input e m ip sp buf))"
  by (simp add: aun_udp_input_def Let_def rx_data_keeps rx_broadcast_keeps rx_imm_keeps rx_ack_keeps count_rx_bad_def)

section \<open>Polling and transmitting\<close>

lemma himm_reply_keeps: "keeps e (aun_himm_reply e data)"
  by (rule keeps_same) (simp_all add: aun_himm_reply_def Let_def himm_cache_store_def send_imm_reply_eq)

lemma tx_resend_keeps: "keeps e (tx_resend e)"
  by (simp add: tx_resend_def tx_fail_def Let_def case_prod_beta snd_udp_send keeps_def buf_shape_def reply_shape_def)

lemma poll_keeps: "keeps e (aun_poll e)"
proof -
  have h: "keeps e (poll_himm e)"
    by (rule keeps_same) (simp_all add: poll_himm_def Let_def himm_cache_store_def)
  have r: "keeps e (tx_resend (e1\<lparr>tx := (tx e1)\<lparr>t_reject_pending := x\<rparr>\<rparr>))"
    "keeps e (tx_resend (e1\<lparr>tx := (tx e1)\<lparr>t_noresp_left := y\<rparr>\<rparr>))" if "keeps e e1" for e1 x y
    by (rule keeps_trans [OF keeps_trans [OF that] tx_resend_keeps], simp add: keeps_def buf_shape_def reply_shape_def)+
  show ?thesis
    using h r [OF h] by (auto simp: aun_poll_def Let_def tx_fail_def keeps_def buf_shape_def reply_shape_def)
qed

lemma loopback_keeps: "keeps e (fst (tx_loopback e m ty ctrl port data rb rm))"
proof -
  let ?e1 = "e\<lparr>tx := (tx e)\<lparr>t_state := AUN_OK, t_reply_buf := None, t_reply_len := 0\<rparr>\<rparr>"
  have 1: "keeps e (e\<lparr>tx := (tx e)\<lparr>t_state := AUN_OK, t_reply_buf := None, t_reply_len := n\<rparr>\<rparr>)" for n
    by (simp add: keeps_def buf_shape_def reply_shape_def)
  have d: "keeps e e2" if "rx_deliver ?e1 port ctrl s n d = (r, why, e2)" for r why s n d e2
    using keeps_trans [OF 1 [of 0] rx_deliver_keeps [of ?e1 port ctrl s n d]] that by simp
  have "keeps e (e2\<lparr>tx := (tx e2)\<lparr>t_state := AUN_TX_NOT_LISTENING\<rparr>\<rparr>)"
    if "rx_deliver ?e1 port ctrl s n d = (r, why, e2)" for r why s n d e2
    by (rule keeps_trans [OF d [OF that]]) (simp add: keeps_def buf_shape_def reply_shape_def)
  with d 1 show ?thesis
    by (auto simp: tx_loopback_def Let_def split: prod.split option.split)
qed

lemma tx_begin_bufs:
  assumes "bufs_in lo hi e" "within lo hi rb rm"
  shows "bufs_in lo hi (fst (snd (tx_begin e m ty dn ds ctrl port data rb rm)))"
proof -
  note l = keeps_bufs [OF loopback_keeps assms(1)]
  show ?thesis
    using assms l by (auto simp: tx_begin_def Let_def case_prod_beta snd_udp_send split: option.split)
      (auto simp: bufs_in_def buf_shape_def)
qed

lemma tx_begin_code: "fst (tx_begin e m ty dn ds ctrl port data rb rm) \<le> 0x80"
  by (simp add: tx_begin_def Let_def case_prod_beta split: option.split)

lemma tx_ops_code:
  "fst (aun_tx_start e m dn ds ctrl port data) \<le> 0x80" "fst (aun_immediate e m dn ds ctrl data rb rm) \<le> 0x80"
  by (simp_all add: aun_tx_start_def aun_immediate_def Let_def tx_begin_code)

lemma tx_ops_bufs:
  assumes "bufs_in lo hi e"
  shows "bufs_in lo hi (fst (snd (aun_tx_start e m dn ds ctrl port data)))"
    "within lo hi rb rm \<Longrightarrow> bufs_in lo hi (fst (snd (aun_immediate e m dn ds ctrl data rb rm)))"
  using assms tx_begin_bufs [OF assms, of None 0]
  by (auto simp: aun_tx_start_def aun_immediate_def Let_def tx_begin_bufs within_def)

lemma broadcast_keeps: "keeps e (snd (aun_broadcast e ctrl port data))"
proof -
  have "keeps e (fold (\<lambda>p e'. snd (udp_send e' (m_ip_be p) (m_udp_port p) dgram)) ms (e\<lparr>next_seq := x\<rparr>))"
    for dgram x and ms :: "aun_map_entry_t list"
    using udp_send_fold [of dgram ms "e\<lparr>next_seq := x\<rparr>"] by (auto intro!: keeps_same)
  from this [unfolded snd_udp_send] show ?thesis
    by (simp add: aun_broadcast_def Let_def snd_udp_send) (simp add: keeps_def buf_shape_def reply_shape_def)
qed

lemma init_bufs: "bufs_in lo hi (aun_init tr s n)"
  by (simp add: bufs_in_def buf_shape_def aun_init_def rx_block_zero_def tx_zero_def within_def)

lemma settings_keep:
  "keeps e (snd (aun_map_add e n s ip port))" "keeps e (aun_set_addressing e bcast base msk ln)"
  "keeps e (aun_test_responder e enable s n)" "keeps e (aun_set_machine_id e ident)" "keeps e (aun_set_trace e fn)"
  "keeps e (aun_set_host_imm e enable)"
  by (rule keeps_same; simp add: aun_set_addressing_def aun_test_responder_def aun_set_machine_id_def aun_set_trace_def
      aun_set_host_imm_def)+

section \<open>Where the engine stores\<close>

lemma copy_to_host_outside:
  "within lo hi buf (length bs) \<Longrightarrow> x < lo \<or> hi \<le> x \<Longrightarrow> copy_to_host m buf bs x = m x"
  by (auto simp: copy_to_host_def within_def mem_write_def split: option.split)

lemma rx_poll_stores:
  assumes "aun_wf e" "bufs_in lo hi e" "x < lo \<or> hi \<le> x"
  shows "snd (snd (snd (aun_rx_poll e m h))) x = m x"
proof (cases "rx_is_open e h \<and> \<not> b_presented (e_rx e ! h)")
  case True
  have h: "h < length (e_rx e)" and b: "block_wf (e_rx e ! h)"
    using True aun_wfD(1) [OF assms(1)] by (auto simp: rx_wf_def rx_is_open_def list_all_length)
  obtain b1 where p: "aun_rx_poll e m h = rx_poll_result e m h b1"
    using aun_rx_poll_choice [of e h m] True b by blast
  have "within lo hi (b_buf (e_rx e ! h)) (b_buf_size (e_rx e ! h))"
    using assms(2) h by (auto simp: bufs_in_def buf_shape_def dest!: bspec [OF _ nth_mem])
  moreover have "length (f_data (q_at (e_rx e ! h) k)) \<le> b_buf_size (e_rx e ! h)" if "rx_choice (now_ms e) (e_rx e ! h) = Some k" for k
  proof -
    have "k < b_count (e_rx e ! h)" using rx_choice_SomeD(1) [OF b that] .
    then have "q_at (e_rx e ! h) k \<in> set (rx_queue (e_rx e ! h))" by (metis length_rx_queue nth_mem nth_rx_queue)
    then show ?thesis using b by (auto simp: block_wf_def list_all_iff frame_wf_def)
  qed
  ultimately show ?thesis
    using assms(3) by (auto simp: p within_def copy_to_host_def mem_write_def split: option.split)
qed (auto simp: aun_rx_poll_def Let_def)

lemma tx_begin_stores:
  assumes "within lo hi rb rm" "x < lo \<or> hi \<le> x"
  shows "snd (snd (tx_begin e m ty dn ds ctrl port data rb rm)) x = m x"
proof -
  have "copy_to_host m rb (take (min rm 4) bs) x = m x" for bs
    using assms by (intro copy_to_host_outside) (auto simp: within_def)
  then have "snd (tx_loopback e m ty ctrl port data rb rm) x = m x"
    by (auto simp: tx_loopback_def Let_def split: prod.split option.split)
  then show ?thesis
    by (auto simp: tx_begin_def Let_def case_prod_beta split: option.split)
qed

lemma tx_ops_store:
  "snd (snd (aun_tx_start e m dn ds ctrl port data)) x = m x"
  "within lo hi rb rm \<Longrightarrow> x < lo \<or> hi \<le> x \<Longrightarrow> snd (snd (aun_immediate e m dn ds ctrl data rb rm)) x = m x"
  using tx_begin_stores [of "Suc x" 0 None 0 x] tx_begin_stores [of lo hi rb rm x]
  by (auto simp: aun_tx_start_def aun_immediate_def Let_def within_def)

end
