(* ===== verification/AunServiceProps.thy ===== *)
theory AunServiceProps
  imports AunService AunBuffers FatProps
begin

text \<open>
  The AUN service keeps the engine's invariant and stores only in the buffer region, whatever the Beeb puts
  into a command block; every command gets a result that the Beeb can tell from the echoed page number.
\<close>

section \<open>The invariant of the service\<close>

definition aun_ready :: "('f, 'l, 'z) aun_services \<Rightarrow> bool" where
  "aun_ready s \<longleftrightarrow> 2 \<le> unat (JIM_ram_size s) \<and> aun_wf (engine s) \<and>
     bufs_in (unat (DISC_RAM_BASE s)) (unat (DISC_RAM_BASE s) + 2 ^ 25) (engine s)"

definition kept :: "nat \<Rightarrow> ('f, 'l, 'z) aun_services \<Rightarrow> ('f, 'l, 'z) aun_services \<Rightarrow> bool" where
  "kept addr s t \<longleftrightarrow> confined addr s t \<and> aun_ready t"

text \<open>What a command does besides: the result is one of the codes, and the bus is left to the caller.\<close>

definition answers :: "('f, 'l, 'z) aun_services \<Rightarrow> u8 \<times> ('f, 'l, 'z) aun_services \<Rightarrow> bool" where
  "answers s x \<longleftrightarrow> fst x \<le> 0x80 \<and> (\<forall>addr. kept addr s (snd x))"

lemma engine_steps [simp]:
  "engine (set_engine e s) = e" "engine (set_mem m s) = engine s" "engine (put_bytes a b s) = engine s"
  "engine (put_word a v s) = engine s" "engine (reply addr r s) = engine s" "engine (on_fred f s) = engine s"
  by (simp_all add: engine_def set_engine_def on_svc_def set_mem_def put_bytes_def put_word_def reply_def on_fred_def)

lemma set_mem_jim [simp]: "JIM_ram_size (set_mem m s) = JIM_ram_size s" "fred (set_mem m s) = fred s"
  by (simp_all add: set_mem_def)

lemma set_engine_jim [simp]: "JIM_ram (set_engine e s) = JIM_ram s" "JIM_ram_size (set_engine e s) = JIM_ram_size s"
  "fred (set_engine e s) = fred s"
  by (simp_all add: set_engine_def on_svc_def)

lemma base_confined: "confined addr s t \<Longrightarrow> DISC_RAM_BASE t = DISC_RAM_BASE s"
  by (simp add: confined_def DISC_RAM_BASE_def)

lemma kept_same: "confined addr s t \<Longrightarrow> aun_ready s \<Longrightarrow> engine t = engine s \<Longrightarrow> kept addr s t"
  by (auto simp: kept_def aun_ready_def base_confined) (simp add: confined_def)

lemma kept_engine:
  assumes "confined addr s t" "aun_ready s" "aun_wf e"
    and "bufs_in (unat (DISC_RAM_BASE s)) (unat (DISC_RAM_BASE s) + 2 ^ 25) e"
  shows "kept addr s (set_engine e t)"
proof -
  have "confined addr s (set_engine e t)" unfolding set_engine_def by (rule confined_svc [OF assms(1)])
  then show ?thesis using assms by (auto simp: kept_def aun_ready_def base_confined) (simp add: confined_def)
qed

lemma kept_keeps:
  assumes "confined addr s t" "aun_ready s" "aun_wf e" "keeps (engine s) e"
  shows "kept addr s (set_engine e t)"
  using assms keeps_bufs [OF assms(4)] by (intro kept_engine) (auto simp: aun_ready_def)

lemma confined_all_mem:
  assumes "\<And>x. \<not> region s x \<Longrightarrow> m x = JIM_ram s x"
  shows "confined addr s (set_mem m s)"
  using assms by (simp add: confined_def set_mem_def)

lemma buffer_within:
  assumes "aun_ready s" "aun_buffer_ok off n"
  shows "within (unat (DISC_RAM_BASE s)) (unat (DISC_RAM_BASE s) + 2 ^ 25) (host_buffer s off) (unat n)"
proof -
  have ok: "unat off + unat n \<le> 2 ^ 25" using assms(2) buffer_ok_iff [of off n] by (simp add: aun_buffer_ok_def discaccess_buffer_ok_def)
  have "unat (JIM_ram_size s) \<le> 255" using unat_u8 [of "JIM_ram_size s"] by linarith
  then have "unat (JIM_ram_size s) * 2 ^ 24 \<le> 255 * 2 ^ 24" by (intro mult_right_mono) auto
  then have "unat (DISC_RAM_BASE s) + unat off < 2 ^ 32"
    using base_nat(3) [of s] assms(1) ok by (simp add: aun_ready_def)
  then show ?thesis using ok by (simp add: host_buffer_def within_def unat_word_ariths)
qed

section \<open>Settings\<close>

lemma parse_map_loop_inv:
  assumes "\<And>x n sn ip port. P x \<Longrightarrow> P (snd (add x n sn ip port))" "P st"
  shows "P (snd (parse_map_loop add s st count))"
  using assms
proof (induction add s st count rule: parse_map_loop.induct)
  case (1 add s st count)
  have p: "P (snd (add st n sn ip port))" for n sn ip port using "1.prems" by blast
  have i: "P (snd (parse_map_loop add r1 (snd (add st n sn ip port)) (count + 1)))"
    if "s \<noteq> []" "parse_map_entry s = Some ((n, sn, ip, port), CHR '','' # r1)" "r1 \<noteq> []" "fst (add st n sn ip port)" for n sn ip port r1
    using "1.IH" [OF that(1) that(2) refl refl refl refl refl _ _ refl] that p [of n sn ip port] "1.prems"(1)
    by (cases "add st n sn ip port") auto
  show ?case
    using p i "1.prems"(2) by (subst parse_map_loop.simps) (auto simp: Let_def case_prod_beta split: option.split list.split)
qed

lemma parse_machine_length: "parse_machine_loop k s ident = Some mid \<Longrightarrow> length mid = length ident + k"
  by (induction k s ident rule: parse_machine_loop.induct) (auto split: if_splits option.splits)

definition engine_ok :: "nat \<Rightarrow> nat \<Rightarrow> 'u aun_engine_t \<Rightarrow> bool" where
  "engine_ok lo hi e \<longleftrightarrow> aun_wf e \<and> bufs_in lo hi e"

lemma engine_ok_keeps: "engine_ok lo hi e \<Longrightarrow> aun_wf e1 \<Longrightarrow> keeps e e1 \<Longrightarrow> engine_ok lo hi e1"
  by (auto simp: engine_ok_def keeps_bufs)

lemma setup_ok: "engine_ok lo hi (aun_setup lw cfg w stn n host_imm)"
proof -
  let ?e1 = "aun_set_trace (aun_set_host_imm (aun_init (udp_transport lw w) stn n) host_imm) None"
  let ?e2 = "case aun_parse_machine (config_get cfg ''aun_machine'') of Some mid \<Rightarrow> aun_set_machine_id ?e1 mid | None \<Rightarrow> ?e1"
  let ?e3 = "snd (aun_parse_map (config_get cfg ''aun_map'') aun_map_add ?e2)"
  have "engine_ok lo hi (aun_init (udp_transport lw w) stn n)" by (simp add: engine_ok_def aun_wf_init init_bufs)
  then have "engine_ok lo hi (aun_set_host_imm (aun_init (udp_transport lw w) stn n) host_imm)"
    by (rule engine_ok_keeps) (simp_all add: aun_wf_set_host_imm aun_wf_init settings_keep)
  then have 1: "engine_ok lo hi ?e1"
    by (rule engine_ok_keeps) (simp_all add: aun_wf_set_host_imm aun_wf_init settings_keep aun_wf_settings)
  have 2: "engine_ok lo hi ?e2"
  proof (cases "aun_parse_machine (config_get cfg ''aun_machine'')")
    case (Some mid)
    then have "length mid = 4" by (auto simp: aun_parse_machine_def split: option.splits dest!: parse_machine_length)
    then show ?thesis using engine_ok_keeps [OF 1 aun_wf_set_machine_id settings_keep(4)] 1 Some by (simp add: engine_ok_def)
  qed (use 1 in simp)
  have 3: "engine_ok lo hi ?e3"
  proof -
    have "engine_ok lo hi (snd (aun_map_add e n s ip port))" if "engine_ok lo hi e" for e :: "'a aun_world aun_engine_t" and n s ip port
      using that by (rule engine_ok_keeps) (use that in \<open>simp_all add: engine_ok_def aun_wf_map_add settings_keep\<close>)
    then show ?thesis using 2 by (auto simp: aun_parse_map_def intro: parse_map_loop_inv split: option.split)
  qed
  have "engine_ok lo hi (aun_set_addressing ?e3 a b c d)" for a b c d
    using 3 by (rule engine_ok_keeps) (use 3 in \<open>simp_all add: engine_ok_def aun_wf_settings settings_keep\<close>)
  with 3 show ?thesis by (simp only: aun_setup_def Let_def) auto
qed


section \<open>Commands\<close>

lemma kept_put:
  assumes "confined addr s t" "2 \<le> unat (JIM_ram_size s)" "k + length b \<le> 512"
  shows "confined addr s (put_bytes (command_block s d + of_nat k) b t)"
  unfolding put_bytes_def by (rule confined_block [OF assms])

lemma kept_word:
  assumes "confined addr s t" "2 \<le> unat (JIM_ram_size s)" "k \<le> 508"
  shows "confined addr s (put_word (command_block s d + of_nat k) v t)"
  unfolding put_word_def by (rule confined_write32 [OF assms])

lemma answers_error: "aun_ready s \<Longrightarrow> r \<le> 0x80 \<Longrightarrow> answers s (r, s)"
  by (simp add: answers_def kept_same)

lemma answers_engine:
  assumes "aun_ready s" "r \<le> 0x80" "aun_wf e" "keeps (engine s) e"
  shows "answers s (r, set_engine e s)"
  using assms by (simp add: answers_def kept_keeps)

lemma init_answers: "aun_ready s \<Longrightarrow> answers s (aun_cmd_init lw cfg cp s)"
proof -
  assume s: "aun_ready s"
  have w: "answers s (AUN_TX_NET_ERROR, set_world w s)" for w
    unfolding set_world_def using s by (intro answers_engine keeps_same) (simp_all add: aun_ready_def)
  have e: "kept addr s (set_engine (aun_setup lw cfg w stn n hi) (on_svc f s))" for addr w stn n hi f
    using s setup_ok [of "unat (DISC_RAM_BASE s)" "unat (DISC_RAM_BASE s) + 2 ^ 25" lw cfg w stn n hi]
    by (intro kept_engine confined_svc) (simp_all add: engine_ok_def)
  show ?thesis
    unfolding aun_cmd_init_def Let_def case_prod_beta using s w e by (simp add: answers_error) (simp add: answers_def)
qed

lemma status_fold:
  assumes "confined addr s t" "2 \<le> unat (JIM_ram_size s)" "\<forall>i \<in> set is. i < 11"
  shows "confined addr s (fold (\<lambda>i. put_word (command_block s d + 12 + of_nat i * 4) (c ! i)) is t) \<and>
    engine (fold (\<lambda>i. put_word (command_block s d + 12 + of_nat i * 4) (c ! i)) is t) = engine t"
  using assms(1,3)
proof (induction "is" arbitrary: t)
  case (Cons i "is")
  have "confined addr s (put_word (command_block s d + of_nat (12 + i * 4)) (c ! i) t)"
    using Cons.prems by (intro kept_word [OF _ assms(2)]) auto
  with Cons show ?case by (simp add: add.assoc)
qed simp

lemma status_answers: "aun_ready s \<Longrightarrow> answers s (aun_cmd_status lw (command_block s d) s)"
proof -
  assume s: "aun_ready s"
  then have j: "2 \<le> unat (JIM_ram_size s)" by (simp add: aun_ready_def)
  have 1: "confined addr s (put_bytes (command_block s d + 4) [x, y, z] s)" for addr x y z
    using kept_put [OF confined_refl j, of 4 "[x, y, z]"] by simp
  have 2: "confined addr s (put_word (command_block s d + 8) v (put_bytes (command_block s d + 4) [x, y, z] s))" for addr x y z v
    using kept_word [OF 1 j, of 8] by simp
  show ?thesis
    unfolding aun_cmd_status_def Let_def answers_def
    using status_fold [OF 2 j, of "[0..<11]"] s by (auto intro!: kept_same simp del: upt_rec_numeral)
qed

lemma tx_answers: "aun_ready s \<Longrightarrow> answers s (aun_cmd_tx cp s)"
proof -
  assume s: "aun_ready s"
  let ?x = "\<lambda>d. aun_tx_start (engine s) (JIM_ram s) (block_byte cp 5 s) (block_byte cp 4 s) (block_byte cp 2 s) (block_byte cp 3 s) d"
  have c: "confined addr s (set_mem (snd (snd (?x d))) s)" for addr d by (rule confined_all_mem) (simp add: tx_ops_store)
  have r: "fst (?x d) \<le> 0x80" for d by (rule tx_ops_code)
  have "kept addr s (set_engine (fst (snd (?x d))) (set_mem (snd (snd (?x d))) s))" for addr d
    using s by (intro kept_engine c) (auto simp: aun_ready_def aun_wf_tx_ops tx_ops_bufs)
  then show ?thesis
    unfolding aun_cmd_tx_def Let_def case_prod_beta using s r by (simp add: answers_error) (simp add: answers_def)
qed

lemma immediate_answers: "aun_ready s \<Longrightarrow> answers s (aun_cmd_immediate cp s)"
proof -
  assume s: "aun_ready s"
  let ?off = "block_word cp 16 s" and ?n = "block_word cp 20 s"
  let ?x = "\<lambda>d. aun_immediate (engine s) (JIM_ram s) (block_byte cp 5 s) (block_byte cp 4 s) (block_byte cp 2 s) d (host_buffer s ?off) (unat ?n)"
  have r: "fst (?x d) \<le> 0x80" for d by (rule tx_ops_code)
  have "kept addr s (set_engine (fst (snd (?x d))) (set_mem (snd (snd (?x d))) s))" if "aun_buffer_ok ?off ?n" for addr d
  proof -
    note w = buffer_within [OF s that]
    have "confined addr s (set_mem (snd (snd (?x d))) s)"
      by (rule confined_all_mem, rule tx_ops_store(2) [OF w]) (auto simp: region_def)
    then show ?thesis using s w by (intro kept_engine) (auto simp: aun_ready_def aun_wf_tx_ops tx_ops_bufs)
  qed
  then show ?thesis
    unfolding aun_cmd_immediate_def Let_def case_prod_beta using s r by (simp add: answers_error) (simp add: answers_def)
qed

lemma tx_poll_answers: "aun_ready s \<Longrightarrow> answers s (aun_cmd_tx_poll (command_block s d) s)"
proof -
  assume s: "aun_ready s"
  have "confined addr s (put_word (command_block s d + 8) v s)" for addr v
    using kept_word [of addr s s 8 d v] s by (simp add: aun_ready_def)
  then have "kept addr s (put_word (command_block s d + 8) v s)" for addr v using s by (intro kept_same) simp_all
  moreover have "aun_tx_status (engine s) \<le> 0x80" using s by (simp add: aun_ready_def bufs_in_def aun_tx_status_def)
  ultimately show ?thesis
    unfolding aun_cmd_tx_poll_def Let_def using s by (auto simp: answers_def kept_same)
qed

lemma rx_open_answers: "aun_ready s \<Longrightarrow> answers s (aun_cmd_rx_open cp s)"
proof -
  assume s: "aun_ready s"
  let ?off = "block_word cp 8 s" and ?n = "block_word cp 12 s"
  let ?x = "\<lambda>h p st n. aun_rx_open (engine s) h p st n (host_buffer s ?off) (unat ?n)"
  have r: "fst (?x h p st n) \<le> 0x80" for h p st n by (auto simp: aun_rx_open_def)
  have "kept addr s (set_engine (snd (?x h p st n)) s)" if "aun_buffer_ok ?off ?n" for addr h p st n
    using s buffer_within [OF s that] by (intro kept_engine) (auto simp: aun_ready_def aun_wf_open rx_open_bufs)
  then show ?thesis
    unfolding aun_cmd_rx_open_def Let_def case_prod_beta using s r by (simp add: answers_error) (simp add: answers_def)
qed

lemma rx_poll_answers: "aun_ready s \<Longrightarrow> answers s (aun_cmd_rx_poll (command_block s d) s)"
proof -
  assume s: "aun_ready s"
  then have j: "2 \<le> unat (JIM_ram_size s)" by (simp add: aun_ready_def)
  let ?h = "unat (block_byte (command_block s d) 1 s)"
  let ?x = "aun_rx_poll (engine s) (JIM_ram s) ?h"
  let ?t = "set_engine (fst (snd (snd ?x))) (set_mem (snd (snd (snd ?x))) s)"
  have r: "fst ?x \<le> 0x80" by (auto simp: aun_rx_poll_def Let_def split: option.split prod.split)
  have m: "confined addr s (set_mem (snd (snd (snd ?x))) s)" for addr
    by (rule confined_all_mem, rule rx_poll_stores) (use s in \<open>auto simp: aun_ready_def region_def\<close>)
  have t: "kept addr s ?t" for addr
    using s by (intro kept_keeps m) (simp_all add: aun_ready_def aun_wf_poll_rx rx_poll_keeps)
  have "kept addr s (put_word (command_block s d + 12) v (put_bytes (command_block s d + 2) [a, b, c, e] ?t))" for addr v a b c e
  proof -
    have "confined addr s ?t" using t [of addr] by (simp add: kept_def)
    then have "confined addr s (put_bytes (command_block s d + of_nat 2) [a, b, c, e] ?t)" by (intro kept_put j) simp_all
    then have "confined addr s (put_word (command_block s d + of_nat 12) v (put_bytes (command_block s d + of_nat 2) [a, b, c, e] ?t))"
      by (intro kept_word j) simp_all
    then show ?thesis using t [of addr] by (auto simp: kept_def aun_ready_def base_confined) (simp add: confined_def)
  qed
  with t r show ?thesis
    unfolding aun_cmd_rx_poll_def Let_def case_prod_beta by (auto simp: answers_def split: option.split)
qed

lemma rx_end_answers: "aun_ready s \<Longrightarrow> answers s (aun_cmd_rx_close cp s)" "aun_ready s \<Longrightarrow> answers s (aun_cmd_rx_done cp s)"
proof -
  assume s: "aun_ready s"
  have r: "fst (aun_rx_close e h) \<le> 0x80" "fst (aun_rx_collect e h a) \<le> 0x80" for e :: "'b aun_world aun_engine_t" and h a
    by (simp_all add: aun_rx_close_def aun_rx_collect_def)
  have "kept addr s (set_engine (snd (aun_rx_close (engine s) h)) s)" for addr h
    using s by (intro kept_engine) (auto simp: aun_ready_def aun_wf_close rx_close_bufs)
  with r show "answers s (aun_cmd_rx_close cp s)" by (simp add: aun_cmd_rx_close_def Let_def case_prod_beta answers_def)
  show "answers s (aun_cmd_rx_done cp s)"
    unfolding aun_cmd_rx_done_def Let_def case_prod_beta
    using s r by (intro answers_engine) (auto simp: aun_ready_def aun_wf_collect rx_collect_keeps)
qed

lemma imm_poll_answers: "aun_ready s \<Longrightarrow> answers s (aun_cmd_imm_poll (command_block s d) s)"
proof -
  assume s: "aun_ready s"
  then have j: "2 \<le> unat (JIM_ram_size s)" by (simp add: aun_ready_def)
  let ?h = "himm (engine s)" and ?cp = "command_block s d"
  let ?t = "put_word (?cp + 12) (of_nat (h_len ?h)) (put_bytes (?cp + 2) [h_ctrl ?h] s)"
  have t: "confined addr s ?t" for addr
    using kept_word [OF kept_put [OF confined_refl j, of 2 "[h_ctrl ?h]"] j, of 12] by simp
  have l: "length (take (h_len ?h) (h_data ?h)) \<le> 2048" using s aun_wfD(4) [of "engine s"] by (simp add: aun_ready_def himm_wf_def)
  have u: "confined addr s (put_bytes (DISC_RAM_BASE v + 0xFEA000) (take (h_len ?h) (h_data ?h)) v)" if "confined addr s v" for addr v
  proof -
    have "unat (DISC_RAM_BASE v + 0xFEA000) = unat (DISC_RAM_BASE s) + 0xFEA000"
      using region_unfold [OF j] base_confined [OF that] by (simp add: unat_word_ariths)
    then show ?thesis unfolding put_bytes_def using l by (intro confined_mem that) (auto simp: region_def)
  qed
  have e: "kept addr s (set_engine ((engine s)\<lparr>himm := ?h\<lparr>h_polled_gen := h_gen ?h\<rparr>\<rparr>) v)" if "confined addr s v" for addr v
    using s by (intro kept_keeps that keeps_same) (auto simp: aun_ready_def himm_wf_def intro!: aun_wf_part dest: aun_wfD(4))
  show ?thesis
    unfolding aun_cmd_imm_poll_def Let_def using s e [OF t] e [OF u [OF t]] by (auto simp: answers_def kept_same)
qed

lemma imm_reply_answers: "aun_ready s \<Longrightarrow> answers s (aun_cmd_imm_reply cp s)"
  unfolding aun_cmd_imm_reply_def Let_def
  by (auto simp: answers_error intro!: answers_engine himm_reply_keeps) (auto simp: aun_ready_def aun_wf_himm_reply)

lemma settings_answers:
  assumes "aun_ready s"
  shows "answers s (aun_cmd_bcast cp s)" "answers s (aun_cmd_map_add cp s)" "answers s (aun_cmd_test cp s)"
    "answers s (aun_cmd_set_machine cp s)"
proof -
  have w: "aun_wf (engine s)" using assms by (simp add: aun_ready_def)
  have r: "fst (aun_broadcast e c p d) \<le> 0x80" for e :: "'b aun_world aun_engine_t" and c p d
    by (simp add: aun_broadcast_def Let_def)
  show "answers s (aun_cmd_bcast cp s)" unfolding aun_cmd_bcast_def Let_def case_prod_beta
    using assms r by (auto intro!: answers_error answers_engine simp: w aun_wf_broadcast broadcast_keeps)
  show "answers s (aun_cmd_map_add cp s)" unfolding aun_cmd_map_add_def Let_def case_prod_beta
    using assms by (intro answers_engine) (auto simp: w aun_wf_map_add settings_keep)
  show "answers s (aun_cmd_test cp s)" unfolding aun_cmd_test_def
    using assms by (intro answers_engine) (auto simp: w aun_wf_settings settings_keep)
  show "answers s (aun_cmd_set_machine cp s)" unfolding aun_cmd_set_machine_def
    using assms by (intro answers_engine) (auto simp: w aun_wf_set_machine_id settings_keep)
qed

lemma run_answers: "aun_ready s \<Longrightarrow> answers s (aun_run lw cfg (command_block s d) s)"
  unfolding aun_run_def Let_def
  by (simp add: init_answers status_answers tx_answers tx_poll_answers rx_open_answers rx_poll_answers rx_end_answers
      imm_poll_answers imm_reply_answers settings_answers immediate_answers answers_error)


section \<open>The mailbox\<close>

text \<open>What waits in the mailbox is a command block of the port.\<close>

definition mailbox_ok :: "('f, 'l, 'z) aun_services \<Rightarrow> bool" where
  "mailbox_ok s \<longleftrightarrow> aun_pending (svc s) \<longrightarrow> (\<exists>d. aun_pending_cp (svc s) = command_block s d) \<and> aun_pending_addr (svc s) < 256"

definition aun_service_ok :: "('f, 'l, 'z) aun_services \<Rightarrow> bool" where
  "aun_service_ok s \<longleftrightarrow> aun_ready s \<and> mem_wf (fred s) \<and> mailbox_ok s \<and> unat (ram_address s) + 5 < 256 \<and>
     unat (IRQ_NUM (svc s)) < 32"

text \<open>The fields that commands leave to the main loop.\<close>

definition same_mailbox :: "('f, 'l, 'z) aun_services \<Rightarrow> ('f, 'l, 'z) aun_services \<Rightarrow> bool" where
  "same_mailbox s t \<longleftrightarrow> aun_pending (svc t) = aun_pending (svc s) \<and> aun_pending_cp (svc t) = aun_pending_cp (svc s) \<and>
     aun_pending_addr (svc t) = aun_pending_addr (svc s) \<and> ram_address t = ram_address s \<and>
     aun_irq_state (svc t) = aun_irq_state (svc s) \<and> IRQ_NUM (svc t) = IRQ_NUM (svc s)"

lemma same_mailbox_steps [simp]:
  "same_mailbox s s" "same_mailbox s (set_engine e t) = same_mailbox s t" "same_mailbox s (set_mem m t) = same_mailbox s t"
  "same_mailbox s (put_bytes a b t) = same_mailbox s t" "same_mailbox s (put_word a v t) = same_mailbox s t"
  "same_mailbox s (reply ad r t) = same_mailbox s t" "same_mailbox s (set_world w t) = same_mailbox s t"
  "same_mailbox s (on_svc (\<lambda>v. v\<lparr>aun_irq_enabled := x, aun_debug := y\<rparr>) t) = same_mailbox s t"
  by (simp_all add: same_mailbox_def set_engine_def on_svc_def set_mem_def put_bytes_def put_word_def reply_def on_fred_def set_world_def)

lemma cmd_mailbox:
  "same_mailbox s (snd (aun_cmd_init lw cfg cp s))" "same_mailbox s (snd (aun_cmd_tx cp s))"
  "same_mailbox s (snd (aun_cmd_tx_poll cp s))" "same_mailbox s (snd (aun_cmd_rx_open cp s))"
  "same_mailbox s (snd (aun_cmd_rx_poll cp s))" "same_mailbox s (snd (aun_cmd_rx_close cp s))"
  "same_mailbox s (snd (aun_cmd_imm_poll cp s))" "same_mailbox s (snd (aun_cmd_imm_reply cp s))"
  "same_mailbox s (snd (aun_cmd_rx_done cp s))" "same_mailbox s (snd (aun_cmd_bcast cp s))"
  "same_mailbox s (snd (aun_cmd_immediate cp s))" "same_mailbox s (snd (aun_cmd_map_add cp s))"
  "same_mailbox s (snd (aun_cmd_test cp s))" "same_mailbox s (snd (aun_cmd_set_machine cp s))"
  by (simp_all add: Let_def case_prod_beta aun_cmd_init_def aun_cmd_tx_def aun_cmd_tx_poll_def
      aun_cmd_rx_open_def aun_cmd_rx_poll_def aun_cmd_rx_close_def aun_cmd_imm_poll_def aun_cmd_imm_reply_def aun_cmd_rx_done_def
      aun_cmd_bcast_def aun_cmd_immediate_def aun_cmd_map_add_def aun_cmd_test_def aun_cmd_set_machine_def split: option.split)

lemma run_mailbox: "same_mailbox s (snd (aun_run lw cfg cp s))"
proof -
  have "same_mailbox s (fold (\<lambda>i. put_word (f i) (g i)) is t) = same_mailbox s t"
    for f g :: "nat \<Rightarrow> u32" and "is" t
    by (induction "is" arbitrary: t) simp_all
  then have "same_mailbox s (snd (aun_cmd_status lw cp s))"
    by (simp add: aun_cmd_status_def Let_def del: upt_rec_numeral)
  then show ?thesis by (simp add: aun_run_def Let_def cmd_mailbox)
qed


section \<open>The interrupt status\<close>

text \<open>The port's status register shows what the service last published, and the service's source of nIRQ follows it.\<close>

definition irq_shown :: "('f, 'l, 'z) aun_services \<Rightarrow> bool" where
  "irq_shown s \<longleftrightarrow> unat (ram_address s) + 5 < 256 \<and> unat (IRQ_NUM (svc s)) < 32 \<and>
     bus_read (fred s) (unat (ram_address s) + 5) = aun_irq_state (svc s) \<and>
     (bit (nirq_mask (fred s)) (unat (IRQ_NUM (svc s))) \<longleftrightarrow> aun_irq_state (svc s) \<noteq> 0)"

lemma irq_read [simp]: "bus_read (Pi1MHz_SetnIRQ_src i x b) a = bus_read b a"
  by (simp add: bus_read_def Pi1MHz_SetnIRQ_src_def Let_def)

lemma services_irq_effect:
  assumes "mem_wf (fred s)" "unat (ram_address s) + 5 < 256" "unat src < 32"
  shows "mem_wf (fred (services_irq src v s))"
    "a < 512 \<Longrightarrow> bus_read (fred (services_irq src v s)) a = (if a = unat (ram_address s) + 5 then v else bus_read (fred s) a)"
    "bit (nirq_mask (fred (services_irq src v s))) (unat src) \<longleftrightarrow> v \<noteq> 0"
    "JIM_ram (services_irq src v s) = JIM_ram s" "JIM_ram_size (services_irq src v s) = JIM_ram_size s"
    "svc (services_irq src v s) = svc s" "ram_address (services_irq src v s) = ram_address s"
  using assms by (simp_all add: services_irq_def Let_def on_fred_def Pi1MHz_nIRQ_ASSERT_def Pi1MHz_nIRQ_CLEAR_def SetnIRQ_mask
      MemoryWrite_wf MemoryWrite_read)

lemma ready_bound: "aun_wf e \<Longrightarrow> fst (aun_rx_ready e h) \<le> 8"
proof (cases "rx_is_open e h")
  case True
  assume "aun_wf e"
  then have b: "block_wf (e_rx e ! h)" using True aun_wfD(1) [of e] by (auto simp: rx_wf_def rx_is_open_def list_all_length)
  have "fst (rx_ready_loop now b is n) \<le> n + length is" for now b "is" n
  proof (induction "is" arbitrary: b n)
    case (Cons i "is")
    show ?case
      using Cons.IH [of "snd (rx_frame_eligible now b (q_at b i))" n] Cons.IH [of "snd (rx_frame_eligible now b (q_at b i))" "n + 1"]
      by (simp add: Let_def case_prod_beta)
  qed simp
  from this [of "now_ms e" "e_rx e ! h" "[0..<b_count (e_rx e ! h)]" 0]
  have "fst (aun_rx_ready e h) \<le> 0 + length [0..<b_count (e_rx e ! h)]"
    using True by (simp add: aun_rx_ready_def Let_def case_prod_beta)
  also have "\<dots> \<le> 8" using b by (simp add: block_wf_def ring_wf_def)
  finally show ?thesis .
qed (simp add: aun_rx_ready_def)

text \<open>The status byte for \<open>n\<close> frames that may be presented and an immediate that may be held.\<close>

definition irq_status :: "nat \<Rightarrow> bool \<Rightarrow> u8" where
  "irq_status n imm = (if n \<noteq> 0 then 0x80 OR of_nat n else 0) OR (if imm then 0x40 else 0)"

lemma irq_status_fields:
  assumes "n \<le> 8"
  shows "bit (irq_status n imm) 7 \<longleftrightarrow> 0 < n" "bit (irq_status n imm) 6 \<longleftrightarrow> imm" "irq_status n imm AND 0x3F = of_nat n"
proof -
  have "n \<in> {0, 1, 2, 3, 4, 5, 6, 7, 8}" using assms by auto
  then show "bit (irq_status n imm) 7 \<longleftrightarrow> 0 < n" "bit (irq_status n imm) 6 \<longleftrightarrow> imm" "irq_status n imm AND 0x3F = of_nat n"
    by (cases imm; auto simp: irq_status_def)+
qed

lemma irq_update_form:
  assumes "aun_wf (engine s)"
  shows "aun_irq_update s =
    (let n = (if aun_irq_enabled (svc s) then fst (aun_rx_ready (engine s) 0) else 0);
         e = (if aun_irq_enabled (svc s) then snd (aun_rx_ready (engine s) 0) else engine s);
         st = irq_status n (aun_irq_enabled (svc s) \<and> h_active (himm (engine s))); s1 = set_engine e s in
     if st \<noteq> aun_irq_state (svc s) then services_irq (IRQ_NUM (svc s)) st (on_svc (\<lambda>w. w\<lparr>aun_irq_state := st\<rparr>) s1) else s1)"
proof -
  have h: "himm (snd (aun_rx_ready (engine s) 0)) = himm (engine s)"
    by (simp add: aun_rx_ready_def Let_def case_prod_beta)
  have v: "aun_irq_enabled (svc (set_engine e s)) = aun_irq_enabled (svc s)" "aun_irq_state (svc (set_engine e s)) = aun_irq_state (svc s)"
    "IRQ_NUM (svc (set_engine e s)) = IRQ_NUM (svc s)" for e by (simp_all add: set_engine_def on_svc_def)
  show ?thesis
    using ready_bound [OF assms, of 0]
    by (simp add: aun_irq_update_def Let_def case_prod_beta irq_status_def h v)
qed

lemma irq_update_effect:
  assumes "aun_wf (engine s)" "mem_wf (fred s)" "unat (ram_address s) + 5 < 256" "unat (IRQ_NUM (svc s)) < 32" "t = aun_irq_update s"
  shows "mem_wf (fred t)" "JIM_ram t = JIM_ram s" "JIM_ram_size t = JIM_ram_size s" "ram_address t = ram_address s"
    "a < 512 \<Longrightarrow> a \<noteq> unat (ram_address s) + 5 \<Longrightarrow> bus_read (fred t) a = bus_read (fred s) a"
    "aun_wf (engine t)" "keeps (engine s) (engine t)" "IRQ_NUM (svc t) = IRQ_NUM (svc s)"
    "aun_pending (svc t) = aun_pending (svc s)" "aun_pending_cp (svc t) = aun_pending_cp (svc s)"
    "aun_pending_addr (svc t) = aun_pending_addr (svc s)"
proof -
  define e where "e = (if aun_irq_enabled (svc s) then snd (aun_rx_ready (engine s) 0) else engine s)"
  define st where "st = irq_status (if aun_irq_enabled (svc s) then fst (aun_rx_ready (engine s) 0) else 0)
    (aun_irq_enabled (svc s) \<and> h_active (himm (engine s)))"
  have e: "aun_wf e" "keeps (engine s) e"
    using aun_wf_ready [OF assms(1), of 0] rx_ready_keeps [of "engine s" 0] assms(1) by (simp_all add: e_def)
  have t: "t = set_engine e s \<or> t = services_irq (IRQ_NUM (svc s)) st (on_svc (\<lambda>w. w\<lparr>aun_irq_state := st\<rparr>) (set_engine e s))"
    unfolding assms(5) irq_update_form [OF assms(1)] Let_def e_def [symmetric] st_def [symmetric] by simp
  define v where "v = on_svc (\<lambda>w. w\<lparr>aun_irq_state := st\<rparr>) (set_engine e s)"
  have v: "fred v = fred s" "ram_address v = ram_address s" "JIM_ram v = JIM_ram s" "JIM_ram_size v = JIM_ram_size s"
    "aun (svc v) = e" "IRQ_NUM (svc v) = IRQ_NUM (svc s)" "aun_pending (svc v) = aun_pending (svc s)"
    "aun_pending_cp (svc v) = aun_pending_cp (svc s)" "aun_pending_addr (svc v) = aun_pending_addr (svc s)"
    "aun_pending (svc (set_engine e s)) = aun_pending (svc s)" "IRQ_NUM (svc (set_engine e s)) = IRQ_NUM (svc s)"
    "aun_pending_cp (svc (set_engine e s)) = aun_pending_cp (svc s)" "aun_pending_addr (svc (set_engine e s)) = aun_pending_addr (svc s)"
    "ram_address (set_engine e s) = ram_address s" "aun (svc (set_engine e s)) = e"
    by (simp_all add: v_def on_svc_def set_engine_def)
  have i: "mem_wf (fred v)" "unat (ram_address v) + 5 < 256" using assms(2,3) v by simp_all
  note w = services_irq_effect [OF i assms(4)]
  show "mem_wf (fred t)" "JIM_ram t = JIM_ram s" "JIM_ram_size t = JIM_ram_size s" "ram_address t = ram_address s"
    "a < 512 \<Longrightarrow> a \<noteq> unat (ram_address s) + 5 \<Longrightarrow> bus_read (fred t) a = bus_read (fred s) a"
    "aun_wf (engine t)" "keeps (engine s) (engine t)" "IRQ_NUM (svc t) = IRQ_NUM (svc s)"
    "aun_pending (svc t) = aun_pending (svc s)" "aun_pending_cp (svc t) = aun_pending_cp (svc s)"
    "aun_pending_addr (svc t) = aun_pending_addr (svc s)"
    using t e assms(2) unfolding v_def [symmetric] by (auto simp: w v engine_def)
qed

theorem aun_irq_status:
  assumes "aun_service_ok s" "irq_shown s" "t = aun_irq_update s"
    and "n = (if aun_irq_enabled (svc s) then fst (aun_rx_ready (engine s) 0) else 0)"
    and "imm = (aun_irq_enabled (svc s) \<and> h_active (himm (engine s)))"
    and "v = bus_read (fred t) (unat (ram_address s) + 5)"
  shows "(bit v 7 \<longleftrightarrow> 0 < n) \<and> (bit v 6 \<longleftrightarrow> imm) \<and> v AND 0x3F = of_nat n \<and>
    (bit (nirq_mask (fred t)) (unat (IRQ_NUM (svc s))) \<longleftrightarrow> 0 < n \<or> imm) \<and> irq_shown t"
proof -
  have w: "aun_wf (engine s)" "mem_wf (fred s)" "unat (ram_address s) + 5 < 256" "unat (IRQ_NUM (svc s)) < 32"
    using assms(1) by (auto simp: aun_service_ok_def aun_ready_def)
  have n: "n \<le> 8" using ready_bound [OF w(1), of 0] by (simp add: assms(4))
  let ?v = "irq_status n imm"
  obtain e where t: "t = (if ?v \<noteq> aun_irq_state (svc s)
      then services_irq (IRQ_NUM (svc s)) ?v (on_svc (\<lambda>w. w\<lparr>aun_irq_state := ?v\<rparr>) (set_engine e s)) else set_engine e s)"
    unfolding assms(3) irq_update_form [OF w(1)] Let_def assms(4,5) by metis
  define u where "u = on_svc (\<lambda>w. w\<lparr>aun_irq_state := ?v\<rparr>) (set_engine e s)"
  have u: "fred u = fred s" "ram_address u = ram_address s" "aun_irq_state (svc u) = ?v" "IRQ_NUM (svc u) = IRQ_NUM (svc s)"
    "ram_address (set_engine e s) = ram_address s" "aun_irq_state (svc (set_engine e s)) = aun_irq_state (svc s)"
    "IRQ_NUM (svc (set_engine e s)) = IRQ_NUM (svc s)"
    by (simp_all add: u_def on_svc_def set_engine_def)
  have i: "mem_wf (fred u)" "unat (ram_address u) + 5 < 256" using w(2,3) u by simp_all
  note x = services_irq_effect [OF i w(4)]
  have r: "v = ?v" "bit (nirq_mask (fred t)) (unat (IRQ_NUM (svc s))) \<longleftrightarrow> ?v \<noteq> 0" "irq_shown t"
    using t assms(2) w(3,4) unfolding u_def [symmetric] by (auto simp: assms(6) irq_shown_def x u)
  have "?v \<noteq> 0 \<longleftrightarrow> 0 < n \<or> imm"
    using irq_status_fields(1,2) [OF n, of imm] by (auto simp: irq_status_def)
  with r irq_status_fields [OF n, of imm] show ?thesis by simp
qed

section \<open>Executing a command\<close>

lemma execute_effect:
  assumes "aun_ready s" "mem_wf (fred s)" "addr < 512" "t = aun_execute lw cfg (command_block s d) addr s"
  shows "confined addr s t" "aun_ready t" "mem_wf (fred t)" "bus_read (fred t) addr \<le> 0x80" "same_mailbox s t"
proof -
  let ?x = "aun_run lw cfg (command_block s d) s"
  have a: "answers s ?x" by (rule run_answers [OF assms(1)])
  have t: "t = reply addr (fst ?x) (snd ?x)" by (simp add: assms(4) aun_execute_def Let_def case_prod_beta)
  have c: "confined addr s (snd ?x)" "aun_ready (snd ?x)" using a by (auto simp: answers_def kept_def)
  then have w: "mem_wf (fred (snd ?x))" using assms(2) by (simp add: confined_def)
  show "confined addr s t" unfolding t by (rule confined_reply [OF assms(3) c(1)])
  show "aun_ready t" using c(2) by (simp add: t aun_ready_def DISC_RAM_BASE_def reply_def on_fred_def engine_def)
  show "mem_wf (fred t)" "bus_read (fred t) addr \<le> 0x80"
    using w assms(3) a by (simp_all add: t reply_def on_fred_def MemoryWrite_wf MemoryWrite_read answers_def)
  show "same_mailbox s t" by (simp add: t run_mailbox)
qed

lemma unpend:
  "engine (on_svc (\<lambda>w. w\<lparr>aun_pending := x\<rparr>) s) = engine s" "aun_ready (on_svc (\<lambda>w. w\<lparr>aun_pending := x\<rparr>) s) = aun_ready s"
  "command_block (on_svc (\<lambda>w. w\<lparr>aun_pending := x\<rparr>) s) d = command_block s d"
  "region (on_svc (\<lambda>w. w\<lparr>aun_pending := x\<rparr>) s) a = region s a"
  by (simp_all add: aun_ready_def engine_def on_svc_def DISC_RAM_BASE_def command_block_def region_def)

text \<open>The state in which the poll hook reaches the engine's own poll.\<close>

lemma mailbox_step:
  assumes "aun_service_ok s"
    and "t = (if aun_pending (svc s) then aun_execute lw cfg (aun_pending_cp (svc s)) (aun_pending_addr (svc s))
         (on_svc (\<lambda>w. w\<lparr>aun_pending := False\<rparr>) s) else s)"
  shows "aun_ready t" "mem_wf (fred t)" "\<not> aun_pending (svc t)" "\<forall>a. \<not> region s a \<longrightarrow> JIM_ram t a = JIM_ram s a"
    "JIM_ram_size t = JIM_ram_size s" "ram_address t = ram_address s" "IRQ_NUM (svc t) = IRQ_NUM (svc s)"
    "aun_pending (svc s) \<Longrightarrow> bus_read (fred t) (aun_pending_addr (svc s)) \<le> 0x80"
    "\<And>a. a < 512 \<Longrightarrow> a \<noteq> aun_pending_addr (svc s) \<Longrightarrow> bus_read (fred t) a = bus_read (fred s) a"
proof -
  define u where "u = on_svc (\<lambda>w. w\<lparr>aun_pending := False\<rparr>) s"
  have u: "aun_ready u" "mem_wf (fred u)" "JIM_ram u = JIM_ram s" "JIM_ram_size u = JIM_ram_size s" "ram_address u = ram_address s"
    "IRQ_NUM (svc u) = IRQ_NUM (svc s)" "\<not> aun_pending (svc u)" "\<And>a. region u a = region s a" "\<And>d. command_block u d = command_block s d"
    "fred u = fred s"
    using assms(1) by (simp_all add: u_def unpend aun_service_ok_def) (simp_all add: on_svc_def)
  have *: "aun_ready t \<and> mem_wf (fred t) \<and> \<not> aun_pending (svc t) \<and> (\<forall>a. \<not> region s a \<longrightarrow> JIM_ram t a = JIM_ram s a) \<and>
    JIM_ram_size t = JIM_ram_size s \<and> ram_address t = ram_address s \<and> IRQ_NUM (svc t) = IRQ_NUM (svc s) \<and>
    (aun_pending (svc s) \<longrightarrow> bus_read (fred t) (aun_pending_addr (svc s)) \<le> 0x80) \<and>
    (\<forall>a < 512. a \<noteq> aun_pending_addr (svc s) \<longrightarrow> bus_read (fred t) a = bus_read (fred s) a)"
  proof (cases "aun_pending (svc s)")
    case True
    then obtain d where d: "aun_pending_cp (svc s) = command_block u d" "aun_pending_addr (svc s) < 512"
      using assms(1) u(9) by (auto simp: aun_service_ok_def mailbox_ok_def)
    have "t = aun_execute lw cfg (command_block u d) (aun_pending_addr (svc s)) u"
      using True by (simp add: assms(2) u_def [symmetric] d)
    from execute_effect [OF u(1,2) d(2) this] u show ?thesis by (auto simp: confined_def same_mailbox_def)
  qed (use assms u in \<open>auto simp: aun_service_ok_def\<close>)
  then show "aun_ready t" "mem_wf (fred t)" "\<not> aun_pending (svc t)" "\<forall>a. \<not> region s a \<longrightarrow> JIM_ram t a = JIM_ram s a"
    "JIM_ram_size t = JIM_ram_size s" "ram_address t = ram_address s" "IRQ_NUM (svc t) = IRQ_NUM (svc s)"
    "aun_pending (svc s) \<Longrightarrow> bus_read (fred t) (aun_pending_addr (svc s)) \<le> 0x80"
    "\<And>a. a < 512 \<Longrightarrow> a \<noteq> aun_pending_addr (svc s) \<Longrightarrow> bus_read (fred t) a = bus_read (fred s) a"
    by blast+
qed


lemma poll_effect:
  assumes "aun_service_ok s" "t = aun_emulator_poll lw cfg s"
  shows "aun_service_ok t" "\<not> aun_pending (svc t)" "\<forall>a. \<not> region s a \<longrightarrow> JIM_ram t a = JIM_ram s a"
    "aun_pending (svc s) \<Longrightarrow> aun_pending_addr (svc s) \<noteq> unat (ram_address s) + 5 \<Longrightarrow>
     bus_read (fred t) (aun_pending_addr (svc s)) \<le> 0x80"
proof -
  define u where "u = (if aun_pending (svc s) then aun_execute lw cfg (aun_pending_cp (svc s)) (aun_pending_addr (svc s))
    (on_svc (\<lambda>w. w\<lparr>aun_pending := False\<rparr>) s) else s)"
  define v where "v = set_engine (aun_poll (engine u)) u"
  note u = mailbox_step [OF assms(1) u_def]
  have t: "t = aun_irq_update v" by (simp add: assms(2) aun_emulator_poll_def Let_def u_def v_def)
  have v: "aun_ready v" "mem_wf (fred v)" "unat (ram_address v) + 5 < 256" "unat (IRQ_NUM (svc v)) < 32" "\<not> aun_pending (svc v)"
    "fred v = fred u" "JIM_ram v = JIM_ram u" "JIM_ram_size v = JIM_ram_size s" "ram_address v = ram_address s"
    using u(1,2,3,5,6,7) assms(1) kept_keeps [OF confined_refl u(1) aun_wf_poll poll_keeps]
    by (simp_all add: v_def aun_service_ok_def kept_def aun_ready_def) (simp_all add: set_engine_def on_svc_def)
  have w: "aun_wf (engine v)" using v(1) by (simp add: aun_ready_def)
  note i = irq_update_effect [OF w v(2,3,4) t]
  show "\<not> aun_pending (svc t)" using i(9) v(5) by simp
  show "\<forall>a. \<not> region s a \<longrightarrow> JIM_ram t a = JIM_ram s a" using i(2) v(7) u(4) by simp
  have "aun_ready t"
    using v(1) i(3,6) keeps_bufs [OF i(7)] by (simp add: aun_ready_def DISC_RAM_BASE_def)
  then show "aun_service_ok t"
    using i(1,4,8) v(3,4) \<open>\<not> aun_pending (svc t)\<close> by (simp add: aun_service_ok_def mailbox_ok_def)
  assume "aun_pending (svc s)" "aun_pending_addr (svc s) \<noteq> unat (ram_address s) + 5"
  moreover have "aun_pending_addr (svc s) < 256"
    using assms(1) \<open>aun_pending (svc s)\<close> by (auto simp: aun_service_ok_def mailbox_ok_def)
  ultimately show "bus_read (fred t) (aun_pending_addr (svc s)) \<le> 0x80"
    using u(8) i(5) v(6,9) by simp
qed

section \<open>The service as a state machine\<close>

text \<open>
  Between the steps of the service the Beeb and the other emulators write the RAM and the bus, and the
  network stack moves on; a reset runs the init function again.
\<close>

inductive aun_service_step :: "'l lwip \<Rightarrow> (string \<times> string) list \<Rightarrow> ('f, 'l, 'z) aun_services \<Rightarrow> ('f, 'l, 'z) aun_services \<Rightarrow> bool"
  for lw cfg where
  ram: "aun_service_step lw cfg s (set_mem m s)"
| bus: "mem_wf (f (fred s)) \<Longrightarrow> aun_service_step lw cfg s (on_fred f s)"
| network: "aun_service_step lw cfg s (set_world w s)"
| reset: "unat i < 32 \<Longrightarrow> aun_service_step lw cfg s (aun_emulator_init fn i a s)"
| command: "addr < 256 \<Longrightarrow> aun_service_step lw cfg s (aun_emulator_command (command_block s d) addr d s)"
| poll: "aun_service_step lw cfg s (aun_emulator_poll lw cfg s)"
| receive: "aun_service_step lw cfg s (aun_udp_recv ip port p s)"

lemma ready_cong: "JIM_ram_size t = JIM_ram_size s \<Longrightarrow> engine t = engine s \<Longrightarrow> aun_ready s \<Longrightarrow> aun_ready t"
  by (simp add: aun_ready_def DISC_RAM_BASE_def)

lemma udp_recv_effect:
  assumes "aun_ready s"
  shows "kept addr s (aun_udp_recv ip port p s)"
proof (cases "length p \<le> AUN_HDR_SIZE + AUN_MAX_DATA")
  case True
  let ?x = "aun_udp_input (engine s) (JIM_ram s) ip port p"
  have "snd ?x x = JIM_ram s x" if "\<not> region s x" for x
  proof -
    have "within (unat (DISC_RAM_BASE s)) (unat (DISC_RAM_BASE s) + 2 ^ 25) (t_reply_buf (tx (engine s))) (t_reply_max (tx (engine s)))"
      using assms by (simp add: aun_ready_def bufs_in_def)
    then have "copy_to_host m (t_reply_buf (tx (engine s))) (take (min k (t_reply_max (tx (engine s)))) d) x = m x" for m d k
      using that by (intro copy_to_host_outside [of "unat (DISC_RAM_BASE s)" "unat (DISC_RAM_BASE s) + 2 ^ 25"])
        (auto simp: within_def region_def)
    then show ?thesis by (simp add: aun_udp_input_def Let_def rx_imm_reply_def)
  qed
  then have c: "confined addr s (set_mem (snd ?x) s)" by (rule confined_all_mem)
  have "aun_wf (fst ?x)" using assms True by (intro aun_wf_udp_input) (simp_all add: aun_ready_def)
  then have "kept addr s (set_engine (fst ?x) (set_mem (snd ?x) s))"
    by (rule kept_keeps [OF c assms _ udp_input_keeps])
  then show ?thesis using True by (simp add: aun_udp_recv_def case_prod_beta)
qed (use assms in \<open>simp add: aun_udp_recv_def kept_same\<close>)

lemma udp_recv_mailbox: "same_mailbox s (aun_udp_recv ip port p s)"
  by (simp add: aun_udp_recv_def case_prod_beta)

lemma service_ok_step:
  assumes "aun_service_ok s" "aun_ready t" "mem_wf (fred t)" "JIM_ram_size t = JIM_ram_size s" "same_mailbox s t"
  shows "aun_service_ok t"
  using assms by (simp add: aun_service_ok_def mailbox_ok_def same_mailbox_def command_block_def DISC_RAM_BASE_def)

lemma service_init_ok:
  assumes "aun_service_ok s" "unat i < 32"
  shows "aun_service_ok (aun_emulator_init fn i a s)"
proof -
  let ?s = "on_svc (\<lambda>w. w\<lparr>IRQ_NUM := i, aun_pending := False, aun_irq_enabled := False, aun_irq_state := 0\<rparr>) s"
  have r: "\<exists>l. snd (services_register x y h u) = u\<lparr>s_services := l\<rparr>" for x y h and u :: "('a, 'b, 'c) aun_services"
    by (auto simp: services_register_def intro: exI [of _ "s_services u"])
  then obtain l where l: "snd (services_register SERVICE_CMD_AUN_FIRST SERVICE_CMD_AUN_LAST (fn ''aun_emulator_command'') ?s) =
      ?s\<lparr>s_services := l\<rparr>" by metis
  have p: "mem_wf (Pi1MHz_Register_Poll f b) = mem_wf b" for f b
    by (simp add: Pi1MHz_Register_Poll_def mem_wf_def bus_read_def [abs_def] Let_def)
  have "aun_ready (aun_emulator_init fn i a s)"
  proof (rule ready_cong)
    show "JIM_ram_size (aun_emulator_init fn i a s) = JIM_ram_size s" "engine (aun_emulator_init fn i a s) = engine s"
      by (simp_all add: aun_emulator_init_def Let_def l on_fred_def engine_def) (simp_all add: on_svc_def)
  qed (use assms(1) in \<open>simp add: aun_service_ok_def\<close>)
  then show ?thesis
    using assms by (simp add: aun_service_ok_def mailbox_ok_def aun_emulator_init_def Let_def l)
      (simp add: on_svc_def on_fred_def p)
qed

lemma service_step_ok:
  assumes "aun_service_step lw cfg s t" "aun_service_ok s"
  shows "aun_service_ok t"
  using assms
proof (induction rule: aun_service_step.induct)
  case (ram s m)
  have "aun_ready (set_mem m s)" by (rule ready_cong [of _ s]) (use ram in \<open>simp_all add: aun_service_ok_def\<close>)
  with ram show ?case by (intro service_ok_step [OF ram]) (simp_all add: aun_service_ok_def)
next
  case (bus f s)
  have "aun_ready (on_fred f s)" by (rule ready_cong [of _ s]) (use bus in \<open>simp_all add: aun_service_ok_def on_fred_def engine_def\<close>)
  with bus show ?case by (intro service_ok_step [OF bus(2)]) (simp_all add: on_fred_def same_mailbox_def)
next
  case (network s w)
  have "aun_ready (set_world w s)"
    using network kept_keeps [OF confined_refl _ _ keeps_same, of s "(engine s)\<lparr>transport := (transport (engine s))\<lparr>tr_user := w\<rparr>\<rparr>" 0]
    by (simp add: aun_service_ok_def set_world_def kept_def aun_ready_def)
  then show ?case
    using network by (intro service_ok_step [OF network]) (auto simp: aun_service_ok_def set_world_def)
next
  case (reset i s fn a)
  then show ?case by (intro service_init_ok)
next
  case (command addr s d)
  have "aun_ready (aun_emulator_command (command_block s d) addr d s)"
    by (rule ready_cong [of _ s]) (use command in \<open>simp_all add: aun_service_ok_def aun_emulator_command_def on_svc_def engine_def\<close>)
  then show ?case
    using command unfolding aun_service_ok_def mailbox_ok_def
    by (simp add: aun_emulator_command_def on_svc_def) (auto simp: command_block_def DISC_RAM_BASE_def)
next
  case (poll s)
  show ?case by (rule poll_effect(1) [OF poll refl])
next
  case (receive s ip port p)
  have "kept 0 s (aun_udp_recv ip port p s)" using receive by (intro udp_recv_effect) (simp add: aun_service_ok_def)
  then show ?case
    using receive by (intro service_ok_step [OF receive]) (auto simp: aun_service_ok_def kept_def confined_def udp_recv_mailbox)
qed


text \<open>Power on: the engine is static storage, all zero, and nothing is pending.\<close>

definition aun_static :: "'l lwip \<Rightarrow> 'l aun_world \<Rightarrow> 'l aun_world aun_engine_t" where
  "aun_static lw w = (aun_init (udp_transport lw w) 0 0)\<lparr>initialised := False, next_seq := 0, learn_net := 0, machine_id := [0, 0, 0, 0]\<rparr>"

definition aun_boot :: "'l lwip \<Rightarrow> ('f, 'l, 'z) aun_services \<Rightarrow> bool" where
  "aun_boot lw s \<longleftrightarrow> (\<exists>w. engine s = aun_static lw w) \<and> 2 \<le> unat (JIM_ram_size s) \<and> mem_wf (fred s) \<and>
     \<not> aun_pending (svc s) \<and> unat (ram_address s) + 5 < 256 \<and> unat (IRQ_NUM (svc s)) < 32"

inductive aun_service_reachable :: "'l lwip \<Rightarrow> (string \<times> string) list \<Rightarrow> ('f, 'l, 'z) aun_services \<Rightarrow> bool" for lw cfg where
  boot: "aun_boot lw s \<Longrightarrow> aun_service_reachable lw cfg s"
| step: "aun_service_reachable lw cfg s \<Longrightarrow> aun_service_step lw cfg s t \<Longrightarrow> aun_service_reachable lw cfg t"

lemma static_ok: "aun_wf (aun_static lw w)" "bufs_in lo hi (aun_static lw w)"
proof -
  let ?e = "(aun_init (udp_transport lw w) 0 0)\<lparr>next_seq := 0, learn_net := 0\<rparr>"
  have "aun_wf ?e" by (simp add: aun_wf_init)
  then have "aun_wf (aun_set_machine_id ?e [0, 0, 0, 0])" by (rule aun_wf_set_machine_id) simp
  moreover have "aun_wf (e\<lparr>initialised := False\<rparr>) = aun_wf e" for e :: "'a aun_world aun_engine_t"
    by (simp add: aun_wf_def rx_wf_def queued_ids_def)
  moreover have "aun_static lw w = (aun_set_machine_id ?e [0, 0, 0, 0])\<lparr>initialised := False\<rparr>"
    by (simp add: aun_static_def aun_set_machine_id_def)
  ultimately show "aun_wf (aun_static lw w)" by simp
  show "bufs_in lo hi (aun_static lw w)"
    using init_bufs [of lo hi "udp_transport lw w" 0 0] by (simp add: aun_static_def bufs_in_def buf_shape_def)
qed

lemma reachable_ok: "aun_service_reachable lw cfg s \<Longrightarrow> aun_service_ok s"
proof (induction rule: aun_service_reachable.induct)
  case (boot s)
  then show ?case by (auto simp: aun_boot_def aun_service_ok_def aun_ready_def mailbox_ok_def static_ok)
qed (rule service_step_ok)

text \<open>C11. Whatever the Beeb puts into command blocks and the network into datagrams, the AUN service
  stores only in the last 32 Mbyte of the JIM RAM: in every reachable state neither a poll of the
  main loop nor a received datagram changes a byte outside.\<close>

theorem aun_service_memory:
  assumes "aun_service_reachable lw cfg s" "a < unat (DISC_RAM_BASE s) \<or> unat (DISC_RAM_BASE s) + 2 ^ 25 \<le> a"
  shows "JIM_ram (aun_emulator_poll lw cfg s) a = JIM_ram s a \<and> JIM_ram (aun_udp_recv ip port p s) a = JIM_ram s a"
proof -
  have s: "aun_service_ok s" by (rule reachable_ok [OF assms(1)])
  then have "kept 0 s (aun_udp_recv ip port p s)" by (intro udp_recv_effect) (simp add: aun_service_ok_def)
  with poll_effect(3) [OF s refl, of lw cfg] show ?thesis using assms(2) by (auto simp: kept_def confined_def region_def)
qed

text \<open>C29. In every state that resets, commands, polls, datagrams and writes of the Beeb can reach
  from power on, the engine behind the AUN service is well formed, its transmit status is a code
  of at most 0x80, and every buffer it holds for the host lies within the service RAM.\<close>

theorem aun_service_invariant:
  assumes "aun_service_reachable lw cfg s"
  shows "aun_wf (engine s) \<and> t_state (tx (engine s)) \<le> 0x80 \<and>
    (\<forall>b \<in> set (e_rx (engine s)). within (unat (DISC_RAM_BASE s)) (unat (DISC_RAM_BASE s) + 2 ^ 25) (b_buf b) (b_buf_size b)) \<and>
    within (unat (DISC_RAM_BASE s)) (unat (DISC_RAM_BASE s) + 2 ^ 25) (t_reply_buf (tx (engine s))) (t_reply_max (tx (engine s)))"
  using reachable_ok [OF assms] by (auto simp: aun_service_ok_def aun_ready_def bufs_in_def buf_shape_def)

section \<open>The handshake with the Beeb\<close>

definition aun_range :: "nat \<Rightarrow> service_range" where
  "aun_range h = \<lparr>sr_first = SERVICE_CMD_AUN_FIRST, sr_last = SERVICE_CMD_AUN_LAST, sr_handler = h\<rparr>"

text \<open>C3. The handshake of the AUN service with the Beeb: a command of its range written to the
  command register with a page of at least 0xE0 leaves that page in the register, and the next
  poll of the main loop replaces it by a result below 0xE0 and empties the mailbox, so the Beeb
  can wait for the register to drop and always sees an answer.\<close>

theorem aun_command_handshake:
  assumes "aun_service_reachable lw cfg s" "table_wf (s_services s)" "aun_range h \<in> set (s_services s)" "run h = aun_emulator_command"
    and "a < 256" "a \<noteq> unat (ram_address s) + 5" "0xE0 \<le> d"
    and "30 \<le> JIM_ram s (unat (command_block s d))" "JIM_ram s (unat (command_block s d)) \<le> 44"
    and "t = services_emulator_command run (gpio_word a d) s" "u = aun_emulator_poll lw cfg t"
  shows "0xE0 \<le> bus_read (fred t) a \<and> bus_read (fred u) a < 0xE0 \<and> \<not> aun_pending (svc u)"
proof -
  have s: "aun_service_ok s" by (rule reachable_ok [OF assms(1)])
  have c: "claims (aun_range h) (JIM_ram s (unat (command_block s d)))"
    using assms(8,9) by (simp add: claims_def aun_range_def SERVICE_CMD_AUN_FIRST_def SERVICE_CMD_AUN_LAST_def)
  let ?v = "on_fred (Pi1MHz_MemoryWrite a d) s"
  have t: "t = aun_emulator_command (command_block s d) a d ?v"
    using dispatch_to [OF assms(2,3,5) c, of run] assms(4) by (simp add: assms(10) aun_range_def)
  have w: "mem_wf (fred s)" using s by (simp add: aun_service_ok_def)
  have v: "aun_service_ok ?v"
    by (rule service_step_ok [OF aun_service_step.bus s]) (use w assms(5) in \<open>simp add: MemoryWrite_wf\<close>)
  have b: "command_block ?v d = command_block s d" by (simp add: command_block_def DISC_RAM_BASE_def on_fred_def)
  have "aun_service_ok t"
    using service_step_ok [OF aun_service_step.command v, of a d] assms(5) by (simp add: t b)
  moreover have "aun_pending (svc t)" "aun_pending_addr (svc t) = a" "ram_address t = ram_address s" "fred t = Pi1MHz_MemoryWrite a d (fred s)"
    by (simp_all add: t aun_emulator_command_def on_svc_def on_fred_def)
  ultimately have "bus_read (fred u) a \<le> 0x80" "\<not> aun_pending (svc u)" "bus_read (fred t) a = d"
    using poll_effect [OF _ assms(11)] assms(5,6) w by (auto simp: MemoryWrite_read)
  moreover have "x \<le> 0x80 \<Longrightarrow> x < 0xE0" for x :: u8 by (simp add: word_le_nat_alt word_less_nat_alt)
  ultimately show ?thesis using assms(7) by simp
qed

end
