(* ===== verification/AunFresh.thy ===== *)
theory AunFresh
  imports AunServiceProps
begin

text \<open>
  An IMM_REPLY command answers only the immediate operation that the host took with IMM_POLL: the slot's
  generation count tells a refilled slot apart.
\<close>

datatype imm_event = Datagram u32 u16 "u8 list" | Tick

text \<open>What may happen to the engine between the two commands; \<open>mem\<close> is the host memory at that moment.\<close>

fun aun_event :: "mem \<times> imm_event \<Rightarrow> 'u aun_engine_t \<Rightarrow> 'u aun_engine_t" where
  "aun_event (m, Datagram ip sp buf) e = fst (aun_udp_input e m ip sp buf)"
| "aun_event (m, Tick) e = aun_poll e"

definition himm_slot :: "aun_host_imm_t \<Rightarrow> u32 \<times> u16 \<times> u32 \<times> u8 \<times> bool \<times> u8 list" where
  "himm_slot h = (h_ip_be h, h_port h, h_seq h, h_ctrl h, h_from_data h, h_data h)"

text \<open>The slot is refilled \<open>j\<close> times.\<close>

definition refills :: "nat \<Rightarrow> aun_host_imm_t \<Rightarrow> aun_host_imm_t \<Rightarrow> bool" where
  "refills j h h1 \<longleftrightarrow> h_gen h1 = h_gen h + of_nat j \<and> h_polled_gen h1 = h_polled_gen h \<and> (j = 0 \<longrightarrow> himm_slot h1 = himm_slot h)"

lemma refills_trans: "refills j h h1 \<Longrightarrow> refills k h1 h2 \<Longrightarrow> refills (j + k) h h2"
  by (auto simp: refills_def)

lemma refills_refl [simp]: "refills 0 h h"
  by (simp add: refills_def)

lemma imm_himm:
  "himm (rx_imm4_data e ip sp ctrl s data) = himm e \<or> refills 1 (himm e) (himm (rx_imm4_data e ip sp ctrl s data))"
  "himm (rx_immediate e ip sp port ctrl s data) = himm e \<or> refills 1 (himm e) (himm (rx_immediate e ip sp port ctrl s data))"
  by (simp_all add: rx_imm4_data_def rx_immediate_def Let_def himm_hold_def refills_def send_imm_reply_eq)

lemma tx_himm [simp]: "himm (tx_fail e c) = himm e" "himm (tx_resend e) = himm e"
  by (simp_all add: tx_fail_def tx_resend_def Let_def case_prod_beta snd_udp_send)

lemma poll_himm_cases: "himm (aun_poll e) = himm e \<or> himm (aun_poll e) = (himm e)\<lparr>h_active := False\<rparr>"
proof -
  have "himm (poll_himm e) = himm e \<or> himm (poll_himm e) = (himm e)\<lparr>h_active := False\<rparr>"
    by (simp add: poll_himm_def Let_def)
  moreover have "himm (aun_poll e) = himm e \<or> himm (aun_poll e) = himm (poll_himm e)"
    by (simp add: aun_poll_def Let_def)
  ultimately show ?thesis by metis
qed

lemma event_refills: "\<exists>j \<le> 1. refills j (himm e) (himm (aun_event x e))"
proof -
  obtain m v where x: "x = (m, v)" by (cases x)
  have 0: "\<exists>j \<le> 1. refills j h h" "refills 1 h h1 \<Longrightarrow> \<exists>j \<le> 1. refills j h h1" for h h1
    by (auto intro: exI [of _ "0 :: nat"] exI [of _ "1 :: nat"])
  show ?thesis
  proof (cases v)
    case (Datagram ip sp buf)
    have "himm (aun_event x e) = himm e \<or> refills 1 (himm e) (himm (aun_event x e))"
      unfolding x Datagram by (simp add: aun_udp_input_def Let_def imm_himm [simplified])
    then show ?thesis using 0 by auto
  next
    case Tick
    have "himm (aun_event x e) = himm e \<or> himm (aun_event x e) = (himm e)\<lparr>h_active := False\<rparr>"
      unfolding x Tick by (simp add: poll_himm_cases)
    then have "refills 0 (himm e) (himm (aun_event x e))" by (auto simp: refills_def himm_slot_def)
    then show ?thesis by blast
  qed
qed

lemma events_refill: "\<exists>j \<le> length xs. refills j (himm e) (himm (fold aun_event xs e))"
proof (induction xs arbitrary: e)
  case (Cons x xs)
  obtain j k where "j \<le> 1" "refills j (himm e) (himm (aun_event x e))"
      "k \<le> length xs" "refills k (himm (aun_event x e)) (himm (fold aun_event xs (aun_event x e)))"
    using event_refills [of e x] Cons.IH [of "aun_event x e"] by blast
  then show ?case using refills_trans by (intro exI [of _ "j + k"]) auto
qed (auto intro: exI [of _ "0 :: nat"])

text \<open>C28. A host reply to an immediate operation never answers another one: whatever datagrams and
  ticks come between IMM_POLL and IMM_REPLY (fewer than 2^32), an IMM_REPLY that has an effect
  answers the very request that was polled.\<close>

theorem aun_imm_reply_matches:
  assumes "aun_cmd_imm_poll cp s = (AUN_OK, s1)" "length xs < 2 ^ 32"
    and "engine s2 = fold aun_event xs (engine s1)" "aun_cmd_imm_reply cq s2 = (r, t)" "engine t \<noteq> engine s2"
  shows "himm_slot (himm (engine s2)) = himm_slot (himm (engine s))"
proof -
  have "h_active (himm (engine s))" using assms(1) by (auto simp: aun_cmd_imm_poll_def Let_def split: if_splits)
  then have "engine s1 = (engine s)\<lparr>himm := (himm (engine s))\<lparr>h_polled_gen := h_gen (himm (engine s))\<rparr>\<rparr>"
    using assms(1) by (auto simp: aun_cmd_imm_poll_def Let_def)
  then have 1: "h_polled_gen (himm (engine s1)) = h_gen (himm (engine s1))" "himm_slot (himm (engine s1)) = himm_slot (himm (engine s))"
    by (simp_all add: himm_slot_def)
  obtain j where j: "j \<le> length xs" "refills j (himm (engine s1)) (himm (engine s2))"
    using events_refill [of xs "engine s1"] assms(3) by auto
  have "h_gen (himm (engine s2)) = h_polled_gen (himm (engine s2))"
    using assms(4,5) by (auto simp: aun_cmd_imm_reply_def Let_def split: if_splits)
  then have "h_gen (himm (engine s1)) + of_nat j = h_gen (himm (engine s1))" using j(2) 1(1) unfolding refills_def by metis
  then have "(of_nat j :: u32) = 0" by (metis add_cancel_right_right)
  then have "j mod 2 ^ 32 = 0" using unat_of_nat [of j, where 'a = 32] by simp
  then have "j = 0" using j(1) assms(2) by simp
  then show ?thesis using j(2) 1(2) by (simp add: refills_def)
qed

end
