(* ===== verification/Settings.thy ===== *)
theory Settings
  imports Config
begin

text \<open>Numbers in the settings file: \<open>strtol\<close> with base 10 and \<open>atoi\<close> on the 32-bit target.\<close>

definition strtol10 :: "u8 list \<Rightarrow> int" where
  "strtol10 bs =
     (let bs = dropWhile (\<lambda>b. b = 32 \<or> (9 \<le> b \<and> b \<le> 13)) bs;
          neg = (bs \<noteq> [] \<and> hd bs = 45);
          bs = (if bs \<noteq> [] \<and> (hd bs = 45 \<or> hd bs = 43) then tl bs else bs);
          n = digits_value 10 bs in
      if neg then max (- (2 ^ 31)) (- int n) else min (2 ^ 31 - 1) (int n))"

definition atoi :: "string \<Rightarrow> int" where
  "atoi s = strtol10 (string_bytes s)"

definition setting_byte :: "(string \<times> string) list \<Rightarrow> string \<Rightarrow> u8 \<Rightarrow> u8" where
  "setting_byte cfg k d = (case config_get cfg k of Some v \<Rightarrow> word_of_int (atoi v) | None \<Rightarrow> d)"

lemma digit_of_char: "k < 10 \<Longrightarrow> digit_of (of_nat (of_char (char_of (k + 48 :: nat)))) = k"
proof -
  assume "k < 10"
  then have "k \<in> {0, 1, 2, 3, 4, 5, 6, 7, 8, 9}" by auto
  then show ?thesis by (auto simp: digit_of_def)
qed

lemma dec_digits: "b \<in> set (string_bytes (dec n)) \<Longrightarrow> digit_of b < 10 \<and> 48 \<le> b \<and> b \<le> 57"
proof (induction n rule: dec.induct)
  case (1 n)
  have d: "digit_of (of_nat (of_char (char_of (k + 48 :: nat)))) < 10 \<and> 48 \<le> (of_nat (of_char (char_of (k + 48 :: nat))) :: u8) \<and>
    (of_nat (of_char (char_of (k + 48 :: nat))) :: u8) \<le> 57" if "k < 10" for k
  proof -
    have "k \<in> {0, 1, 2, 3, 4, 5, 6, 7, 8, 9}" using that by auto
    then show ?thesis by (auto simp: digit_of_def)
  qed
  show ?case
  proof (cases "n < 10")
    case True
    then have "string_bytes (dec n) = [of_nat (of_char (char_of (n + 48 :: nat)))]" by (subst dec.simps) (simp add: string_bytes_def)
    then show ?thesis using "1.prems" d [OF True] by simp
  next
    case False
    then have "string_bytes (dec n) = string_bytes (dec (n div 10)) @ [of_nat (of_char (char_of (n mod 10 + 48 :: nat)))]"
      by (subst dec.simps) (simp add: string_bytes_def)
    then show ?thesis using 1 False d [of "n mod 10"] by auto
  qed
qed

lemma digits_value_dec: "fold (\<lambda>b v. v * 10 + digit_of b) (string_bytes (dec n)) 0 = n"
proof (induction n rule: dec.induct)
  case (1 n)
  show ?case
  proof (cases "n < 10")
    case True
    then show ?thesis using digit_of_char [OF True] by (subst dec.simps) (simp add: string_bytes_def)
  next
    case False
    then have "string_bytes (dec n) = string_bytes (dec (n div 10)) @ [of_nat (of_char (char_of (n mod 10 + 48 :: nat)))]"
      by (subst dec.simps) (simp add: string_bytes_def)
    then show ?thesis using 1 False digit_of_char [of "n mod 10"] by simp
  qed
qed

lemma atoi_dec: "n < 2 ^ 31 \<Longrightarrow> atoi (dec n) = int n"
proof -
  assume n: "n < 2 ^ 31"
  let ?b = "string_bytes (dec n)"
  have w: "takeWhile (\<lambda>b. digit_of b < 10) ?b = ?b" using dec_digits [of _ n] by (simp add: takeWhile_eq_all_conv)
  obtain b bs where b: "?b = b # bs" by (cases ?b) (auto simp: string_bytes_def)
  have "48 \<le> b" "b \<le> 57" using dec_digits [of b n] by (auto simp: b)
  then have c: "\<not> (b = 32 \<or> (9 \<le> b \<and> b \<le> 13))" "b \<noteq> 45" "b \<noteq> 43" by (auto simp: word_le_nat_alt)
  then have "dropWhile (\<lambda>b. b = 32 \<or> (9 \<le> b \<and> b \<le> 13)) ?b = b # bs" unfolding b by (simp only: dropWhile.simps if_False)
  then have "strtol10 ?b = min (2 ^ 31 - 1) (int (digits_value 10 ?b))" using c(2,3) by (simp only: strtol10_def Let_def b) simp
  moreover have "digits_value 10 ?b = n" by (simp add: digits_value_def w digits_value_dec)
  ultimately show ?thesis using n by (simp add: atoi_def)
qed

end
