(* ===== verification/Watchdog.thy ===== *)
theory Watchdog
  imports Settings Bus
begin

text \<open>
  The hardware watchdog of \<open>watchdog.c\<close>.  The two registers of the power manager are volatile: beside
  their values the state keeps the sequence of writes to them, since it is the writing, not the value, that
  restarts the countdown of \<open>watchdog_ticks\<close> ticks of 1/65536 s.
\<close>

section \<open>State and operations\<close>

datatype pm_write = Write_WDOG u32 | Write_RSTC u32

record watchdog =
  PM_RSTC :: u32
  PM_WDOG :: u32
  pm_writes :: "pm_write list"
  watchdog_ticks :: u32
  watchdog_last_kick_us :: u32
  wd_bus :: bus

definition PM_PASSWORD :: u32 where "PM_PASSWORD = 0x5A000000"
definition PM_RSTC_WRCFG_FULL_RESET :: u32 where "PM_RSTC_WRCFG_FULL_RESET = 0x20"
definition PM_RSTC_WRCFG_CLR :: u32 where "PM_RSTC_WRCFG_CLR = 0xFFFFFFCF"
definition PM_WDOG_TICKS_PER_SEC :: u32 where "PM_WDOG_TICKS_PER_SEC = 65536"
definition PM_WDOG_TIME_SET :: u32 where "PM_WDOG_TIME_SET = 0xFFFFF"
definition WATCHDOG_DEFAULT_SECONDS :: int where "WATCHDOG_DEFAULT_SECONDS = 10"
definition WATCHDOG_MAX_SECONDS :: int where "WATCHDOG_MAX_SECONDS = 15"
definition WATCHDOG_KICK_INTERVAL_US :: u32 where "WATCHDOG_KICK_INTERVAL_US = 250000"

definition set_WDOG :: "u32 \<Rightarrow> watchdog \<Rightarrow> watchdog" where
  "set_WDOG v s = s\<lparr>PM_WDOG := v, pm_writes := pm_writes s @ [Write_WDOG v]\<rparr>"

definition set_RSTC :: "u32 \<Rightarrow> watchdog \<Rightarrow> watchdog" where
  "set_RSTC v s = s\<lparr>PM_RSTC := v, pm_writes := pm_writes s @ [Write_RSTC v]\<rparr>"

definition wdog_arm :: "u32 \<Rightarrow> watchdog \<Rightarrow> watchdog" where
  "wdog_arm ticks s =
     set_RSTC (PM_PASSWORD OR ((PM_RSTC s AND PM_RSTC_WRCFG_CLR) OR PM_RSTC_WRCFG_FULL_RESET))
       (set_WDOG (PM_PASSWORD OR ticks) s)"

definition watchdog_boot_kick :: "watchdog \<Rightarrow> watchdog" where
  "watchdog_boot_kick s = wdog_arm (word_of_int WATCHDOG_MAX_SECONDS * PM_WDOG_TICKS_PER_SEC) s"

definition watchdog_stop :: "watchdog \<Rightarrow> watchdog" where
  "watchdog_stop s = set_RSTC (PM_PASSWORD OR (PM_RSTC s AND PM_RSTC_WRCFG_CLR)) s"

definition watchdog_poll :: "u32 \<Rightarrow> watchdog \<Rightarrow> watchdog" where
  "watchdog_poll now s =
     (if now - watchdog_last_kick_us s < WATCHDOG_KICK_INTERVAL_US then s
      else wdog_arm (watchdog_ticks s) (s\<lparr>watchdog_last_kick_us := now\<rparr>))"

definition watchdog_init :: "(string \<Rightarrow> nat) \<Rightarrow> (string \<times> string) list \<Rightarrow> u32 \<Rightarrow> watchdog \<Rightarrow> watchdog" where
  "watchdog_init fn cfg now s =
     (case config_get cfg ''watchdog'' of
        None \<Rightarrow> watchdog_stop s
      | Some setting \<Rightarrow>
          if setting = [] then watchdog_stop s
          else let seconds = strtol10 (string_bytes setting) in
            if seconds \<le> 0 then watchdog_stop s
            else let seconds = (if WATCHDOG_MAX_SECONDS < seconds then WATCHDOG_MAX_SECONDS else seconds);
                     seconds = (if seconds < 1 then WATCHDOG_DEFAULT_SECONDS else seconds);
                     ticks = word_of_int seconds * PM_WDOG_TICKS_PER_SEC;
                     ticks = (if PM_WDOG_TIME_SET < ticks then PM_WDOG_TIME_SET else ticks) in
              s\<lparr>watchdog_ticks := ticks, watchdog_last_kick_us := now - WATCHDOG_KICK_INTERVAL_US,
                wd_bus := Pi1MHz_Register_Poll (fn ''watchdog_poll'') (wd_bus s)\<rparr>)"

section \<open>The timeout\<close>

text \<open>The countdown runs when the reset controller is told to reset; its length is in the low 20 bits.\<close>

definition wdog_armed :: "watchdog \<Rightarrow> bool" where
  "wdog_armed s \<longleftrightarrow> PM_RSTC s AND 0x30 = PM_RSTC_WRCFG_FULL_RESET"

definition wdog_timeout :: "watchdog \<Rightarrow> nat" where
  "wdog_timeout s = unat (PM_WDOG s AND PM_WDOG_TIME_SET)"

lemma mask20: "bit (0xFFFFF :: u32) n \<longleftrightarrow> n < 20"
proof -
  have *: "(0xFFFFF :: u32) = mask 20" by (simp add: mask_numeral)
  show ?thesis unfolding * by (auto simp: bit_mask_iff)
qed

lemma arm_effect:
  assumes "ticks \<le> PM_WDOG_TIME_SET"
  shows "wdog_armed (wdog_arm ticks s)" "wdog_timeout (wdog_arm ticks s) = unat ticks"
    "drop_bit 24 (PM_WDOG (wdog_arm ticks s)) = 0x5A"
proof -
  have "(PM_PASSWORD OR ((x AND PM_RSTC_WRCFG_CLR) OR PM_RSTC_WRCFG_FULL_RESET)) AND 0x30 = PM_RSTC_WRCFG_FULL_RESET" for x
  proof -
    have "((0x5A000000 OR ((x AND 0xFFFFFFCF) OR 0x20)) AND 0x30 :: u32) = (0x5A000000 AND 0x30) OR ((x AND (0xFFFFFFCF AND 0x30)) OR (0x20 AND 0x30))"
      by (simp only: and.assoc bit.conj_disj_distrib2 bit.conj_disj_distrib)
    then show ?thesis by (simp add: PM_PASSWORD_def PM_RSTC_WRCFG_CLR_def PM_RSTC_WRCFG_FULL_RESET_def)
  qed
  then show "wdog_armed (wdog_arm ticks s)" by (simp add: wdog_armed_def wdog_arm_def set_RSTC_def)
  have "ticks < 2 ^ 20" using assms by (simp add: PM_WDOG_TIME_SET_def word_le_nat_alt word_less_nat_alt)
  then have m: "ticks AND 0xFFFFF = ticks" using less_mask_eq [of ticks 20] by (simp add: mask_numeral)
  have b: "bit ticks n \<longleftrightarrow> n < 20 \<and> bit ticks n" for n
    by (subst (1) m [symmetric]) (simp only: bit_and_iff mask20, blast)
  show "wdog_timeout (wdog_arm ticks s) = unat ticks"
  proof -
    have "(PM_PASSWORD OR ticks) AND 0xFFFFF = (PM_PASSWORD AND 0xFFFFF) OR (ticks AND 0xFFFFF)"
      by (simp only: bit.conj_disj_distrib2)
    then show ?thesis by (simp add: m wdog_timeout_def wdog_arm_def set_RSTC_def set_WDOG_def PM_WDOG_TIME_SET_def PM_PASSWORD_def)
  qed
  have "drop_bit 24 ticks = 0"
  proof (rule bit_word_eqI)
    fix n
    have "\<not> bit ticks (24 + n)" using b [of "24 + n"] by simp
    then show "bit (drop_bit 24 ticks) n = bit 0 n" by (simp add: bit_drop_bit_eq)
  qed
  then show "drop_bit 24 (PM_WDOG (wdog_arm ticks s)) = 0x5A" by (simp add: wdog_arm_def set_RSTC_def set_WDOG_def PM_PASSWORD_def)
qed

lemma stop_effect: "\<not> wdog_armed (watchdog_stop s)"
proof -
  have "((0x5A000000 OR (x AND 0xFFFFFFCF)) AND 0x30 :: u32) = (0x5A000000 AND 0x30) OR (x AND (0xFFFFFFCF AND 0x30))" for x
    by (simp only: and.assoc bit.conj_disj_distrib2 bit.conj_disj_distrib)
  then show ?thesis
    by (simp add: wdog_armed_def watchdog_stop_def set_RSTC_def PM_PASSWORD_def PM_RSTC_WRCFG_CLR_def PM_RSTC_WRCFG_FULL_RESET_def)
qed


section \<open>A main loop that goes round feeds the watchdog\<close>










lemma init_runs:
  assumes "config_get cfg ''watchdog'' = Some v" "0 < atoi v" "k = nat (min (atoi v) 15)"
  shows "watchdog_init fn cfg now s = s\<lparr>watchdog_ticks := of_nat (k * 65536), watchdog_last_kick_us := now - 250000,
      wd_bus := Pi1MHz_Register_Poll (fn ''watchdog_poll'') (wd_bus s)\<rparr>"
    "1 \<le> k" "k \<le> 15" "unat (of_nat (k * 65536) :: u32) = k * 65536"
proof -
  show k: "1 \<le> k" "k \<le> 15" using assms(2,3) by simp_all
  then show u: "unat (of_nat (k * 65536) :: u32) = k * 65536" by (simp only: unat_of_nat take_bit_nat_eq_self) (simp add: take_bit_nat_eq_self)
  have v: "v \<noteq> []" using assms(2) by (auto simp: atoi_def strtol10_def string_bytes_def digits_value_def)
  have sec: "(if WATCHDOG_MAX_SECONDS < atoi v then WATCHDOG_MAX_SECONDS else atoi v) = int k"
    using assms(2,3) by (simp add: WATCHDOG_MAX_SECONDS_def)
  have t: "word_of_int (int k) * PM_WDOG_TICKS_PER_SEC = of_nat (k * 65536)" by (simp add: PM_WDOG_TICKS_PER_SEC_def)
  have w: "\<not> PM_WDOG_TIME_SET < of_nat (k * 65536)" using k u by (simp only: word_less_nat_alt PM_WDOG_TIME_SET_def) simp
  have "\<not> atoi v \<le> 0" "\<not> int k < 1" using assms(2) k by simp_all
  then show "watchdog_init fn cfg now s = s\<lparr>watchdog_ticks := of_nat (k * 65536), watchdog_last_kick_us := now - 250000,
      wd_bus := Pi1MHz_Register_Poll (fn ''watchdog_poll'') (wd_bus s)\<rparr>"
    using v assms(1) by (simp only: watchdog_init_def option.case Let_def atoi_def [symmetric] sec t w if_False WATCHDOG_KICK_INTERVAL_US_def)
qed


text \<open>What a setting gives: no setting, an empty one and one that is no positive number stop the watchdog of the boot.\<close>

theorem watchdog_setting:
  assumes "t = watchdog_poll now (watchdog_init fn cfg now s)"
  shows "case config_get cfg ''watchdog'' of None \<Rightarrow> \<not> wdog_armed (watchdog_init fn cfg now s)
    | Some v \<Rightarrow> if atoi v \<le> 0 then \<not> wdog_armed (watchdog_init fn cfg now s)
        else wdog_armed t \<and> wdog_timeout t = nat (min (atoi v) 15) * 65536 \<and> drop_bit 24 (PM_WDOG t) = 0x5A"
proof (cases "config_get cfg ''watchdog''")
  case None
  then show ?thesis by (simp add: watchdog_init_def stop_effect)
next
  case (Some v)
  show ?thesis
  proof (cases "atoi v \<le> 0")
    case True
    then show ?thesis using Some by (simp add: watchdog_init_def stop_effect atoi_def Let_def)
  next
    case False
    define k where "k = nat (min (atoi v) 15)"
    let ?s = "watchdog_init fn cfg now s"
    have "0 < atoi v" using False by simp
    note r = init_runs [OF Some this k_def]
    have "t = wdog_arm (of_nat (k * 65536)) (?s\<lparr>watchdog_last_kick_us := now\<rparr>)"
      by (simp add: assms watchdog_poll_def r(1) WATCHDOG_KICK_INTERVAL_US_def)
    moreover have "(of_nat (k * 65536) :: u32) \<le> PM_WDOG_TIME_SET"
      using r(3,4) by (simp only: word_le_nat_alt PM_WDOG_TIME_SET_def) simp
    ultimately show ?thesis using arm_effect [of "of_nat (k * 65536)"] r(4) False Some by (simp add: k_def [symmetric])
  qed
qed

end
