(* ===== verification/ServiceDemo.thy ===== *)
theory ServiceDemo
  imports ScsiDemo FatFiles AunFresh AunDemo Watchdog
begin

text \<open>
  Concrete instances for the services port and the services behind it: a card with one file, a network stack that
  accepts everything, and a port with 32 Mbyte of RAM.
\<close>

section \<open>The parts\<close>

definition demo_fat :: "ram fat_ops" where
  "demo_fat = \<lparr>disk_read = (\<lambda>d k n c. ((0, replicate (unat n * 512) 0), c)), disk_write = (\<lambda>d b k n c. (0, c)), disk_type = (\<lambda>c. 1),
     fat_open = (\<lambda>h x m c. (0, c)), fat_close = (\<lambda>h c. (0, c)), fat_lseek = (\<lambda>h p c. (0, c\<lparr>rpos := unat p\<rparr>)),
     fat_read = (\<lambda>h n c. ((0, take n (drop (rpos c) (rdata c))), c)),
     fat_write = (\<lambda>h b c. ((0, length b),
        c\<lparr>rdata := poke_at (rpos c) b (rdata c)\<rparr>)),
     fat_size = (\<lambda>h c. 0), fat_opendir = (\<lambda>h x c. (0, c)), fat_closedir = (\<lambda>h c. (0, c)), fat_readdir = (\<lambda>h c. ((0, []), c)),
     fat_mkdir = (\<lambda>x c. (0, c)), fat_chdir = (\<lambda>x c. (0, c)), fat_getcwd = (\<lambda>n c. ((0, ''/''), c)), fat_rename = (\<lambda>x y c. (0, c)),
     fat_unlink = (\<lambda>x c. (0, c)), fat_getfree = (\<lambda>c. ((0, 0, 0), c))\<rparr>"

definition demo_lwip :: "unit lwip" where
  "demo_lwip = \<lparr>pbuf_alloc = (\<lambda>n l. (Some 1, l)), pbuf_take = (\<lambda>p b l. (True, l)), pbuf_free = (\<lambda>p l. l),
     udp_sendto = (\<lambda>u p i n l. (True, l)), udp_new = (\<lambda>l. (Some 1, l)), udp_bind = (\<lambda>p n l. (True, l)), udp_recv = (\<lambda>p l. l),
     udp_remove = (\<lambda>p l. l), wifi_lwip_rx_kick = (\<lambda>l. l), address_ready = (\<lambda>l. True), netif_added = (\<lambda>l. True),
     netif_ip = (\<lambda>l. 0x0100000A), netif_mask = (\<lambda>l. 0xFFFFFF), RPI_GetSystemTime64 = (\<lambda>l. 0)\<rparr>"

definition demo_state :: "(ram, unit) aun_state" where
  "demo_state = \<lparr>fat_fs = demo_fs [], fat_open_valid = replicate 16 False, fat_open_path = replicate 16 [], fat_cwd = ''/'',
     fat_cwd_known = True, fat_raw_sector_seen = False, aun = aun_static demo_lwip \<lparr>aun_pcb = None, stack = ()\<rparr>,
     aun_pending = False, aun_pending_cp = 0, aun_pending_addr = 0, aun_irq_enabled = False, aun_irq_state = 0, IRQ_NUM = 5, aun_debug = False\<rparr>"

definition demo_jim :: jim where
  "demo_jim = \<lparr>fred = demo_bus, JIM_ram = (\<lambda>a. bus_read demo_bus (256 + a)), JIM_null = False, JIM_ram_size = 2, page_ram_addr = 0,
     byte_ram_addr = 0, rambyte_address = 0, rampage_init = False\<rparr>"

definition demo_port :: "mem \<Rightarrow> (ram, unit) aun_state services" where
  "demo_port m = \<lparr>fred = demo_bus, JIM_ram = m, JIM_null = False, JIM_ram_size = 2, page_ram_addr = 0, byte_ram_addr = 0,
     rambyte_address = 0, rampage_init = True, disc_ram_addr = 0, disc_ram_max = 0x2000000, disc_ram_addr_hi = -1, ram_address = 0xA6,
     s_services = [aun_range 7], svc = demo_state\<rparr>"

lemma demo_port_fields [simp]:
  "fred (demo_port m) = demo_bus" "JIM_ram (demo_port m) = m" "JIM_ram_size (demo_port m) = 2" "ram_address (demo_port m) = 0xA6"
  "s_services (demo_port m) = [aun_range 7]" "svc (demo_port m) = demo_state" "disc_ram_addr (demo_port m) = 0"
  "disc_ram_max (demo_port m) = 0x2000000" "disc_ram_addr_hi (demo_port m) = -1"
  "set_mem n (demo_port m) = demo_port n" "DISC_RAM_BASE (demo_port m) = 0"
  by (simp_all add: demo_port_def set_mem_def DISC_RAM_BASE_def JIM_RAM_STEP_def DISC_RAM_SIZE_def)

lemma demo_block: "command_block (demo_port m) 0xE0 = 0xFFE000"
  by (simp add: command_block_def)

section \<open>Memory expansion\<close>

theorem ram_window_refines_witness:
  "bus_read (fred (fold (ram_serve 0) [PageLow 3, PageStore 2 9] demo_jim)) (256 + 2) = 9"
proof -
  have "ram_wf demo_jim" "shown demo_jim"
    by (simp_all add: demo_jim_def ram_wf_def shown_def demo_bus_wf byte_of_def)
  then show ?thesis
    using ram_window_refines [of demo_jim 0 "[PageLow 3, PageStore 2 9]" 2] by (simp add: page_access_def paged_window_def)
qed

theorem rampage_init_wf_witness:
  "ram_wf (fst (rampage_emulator_init ram_ops (\<lambda>_. 1) 0x10000000 0x100000 0x90 False 8 0xFC demo_jim \<lparr>rdata = [], rpos = 0, rlink = False\<rparr>))"
proof -
  let ?x = "rampage_emulator_init ram_ops (\<lambda>_. 1) 0x10000000 0x100000 0x90 False 8 0xFC demo_jim \<lparr>rdata = [], rpos = 0, rlink = False\<rparr>"
  have "mem_wf (fred demo_jim)" "rambyte_address demo_jim \<le> 252" "\<not> rampage_init demo_jim"
    by (simp_all add: demo_jim_def demo_bus_wf)
  moreover have "0 < rampage_size 0x10000000 0x100000" by code_simp
  moreover have "fst (malloc ram_ops n c)" for n c by (simp add: ram_ops_def)
  moreover have "?x = (fst ?x, snd ?x)" by simp
  ultimately show ?thesis using rampage_init_wf by metis
qed

section \<open>Port and dispatch\<close>

lemma demo_port_wf: "svc_wf (demo_port m)"
  by (simp add: svc_wf_def region_def hi_ok_def demo_bus_wf DISC_RAM_SIZE_def JIM_RAM_STEP_def)

theorem port_stream_roundtrip_witness:
  "port_read_bytes 3 (fold port_serve (seek 0 1 2) (fold port_serve (seek 0 1 2 @ map WriteByte [5, 6, 7]) (demo_port (\<lambda>_. 0)))) = [5, 6, 7]"
proof -
  have "unat (le32 2 1 0 0) + length [5 :: u8, 6, 7] < 2 ^ 24" by (simp add: le32_def)
  moreover have "length [5 :: u8, 6, 7] = 3" by simp
  ultimately show ?thesis using port_stream_roundtrip [OF demo_port_wf [of "\<lambda>_. 0"] _ refl refl, of 2 1 0 "[5, 6, 7]"] by metis
qed

lemma demo_table: "table_wf [aun_range 7]"
  by (simp add: table_wf_def aun_range_def SERVICES_MAX_def SERVICE_CMD_AUN_FIRST_def SERVICE_CMD_AUN_LAST_def)

theorem services_dispatch_witness:
  "services_emulator_command (\<lambda>h cp a d s. on_fred (Pi1MHz_MemoryWrite 0 (of_nat h)) s) (gpio_word 0xAA 0xE0)
     (register_all [(40, 50, 9)] (demo_port (\<lambda>_. 31))) =
   on_fred (Pi1MHz_MemoryWrite 0 7) (on_fred (Pi1MHz_MemoryWrite 0xAA 0xE0) (register_all [(40, 50, 9)] (demo_port (\<lambda>_. 31))))"
proof -
  have "claims (aun_range 7) 31" by (simp add: claims_def aun_range_def SERVICE_CMD_AUN_FIRST_def SERVICE_CMD_AUN_LAST_def)
  then show ?thesis
    using services_dispatch [of "demo_port (\<lambda>_. 31)" "aun_range 7" "0xAA" "0xE0" _ "[(40, 50, 9)]",
        where run = "\<lambda>h cp a d s. on_fred (Pi1MHz_MemoryWrite 0 (of_nat h)) s"] demo_table
    by (simp add: aun_range_def)
qed

section \<open>The FAT service\<close>

lemma demo_fat_bounds: "fat_bounds demo_fat"
  by (simp add: fat_bounds_def demo_fat_def)


theorem fat_memory_safe_witness:
  "JIM_ram (fat_service_command ram_ops demo_fat (command_block (demo_port (\<lambda>_. 4)) 0xE0) 0xAA 0xE0 (demo_port (\<lambda>_. 4))) (2 ^ 25 + 5) = 4"
  using fat_memory_safe [of "demo_port (\<lambda>_. 4)" "0xAA" demo_fat _ ram_ops "0xE0" "0xE0"] demo_fat_bounds demo_bus_wf by simp

theorem fat_write_protected_witness:
  "rdata (fat_card (session (ram_ops\<lparr>config_beeb_write_protected := \<lambda>_. True\<rparr>) demo_fat
     [(\<lambda>_. 2, 0xFFE000, 0xAA, 0xE0), (\<lambda>_. 5, 0xFFE000, 0xAA, 0xE0), (\<lambda>_. 16, 0xFFE000, 0xAA, 0xE0)] (demo_port (\<lambda>_. 0)))) = []"
proof -
  have "reads_only demo_fat rdata (\<lambda>_. False)" by (simp add: reads_only_def card_kept_def demo_fat_def)
  then show ?thesis
    using fat_write_protected [of "ram_ops\<lparr>config_beeb_write_protected := \<lambda>_. True\<rparr>" demo_fat rdata "\<lambda>_. False" "demo_port (\<lambda>_. 0)"
        "[(\<lambda>_. 2, 0xFFE000, 0xAA, 0xE0), (\<lambda>_. 5, 0xFFE000, 0xAA, 0xE0), (\<lambda>_. 16, 0xFFE000, 0xAA, 0xE0)]"]
    by (simp add: demo_state_def demo_fs_def lun_status_set_def filesystem_power_on_def)
qed





lemma demo_calls [simp]:
  "fat_lseek demo_fat h p c = (0, c\<lparr>rpos := unat p\<rparr>)" "fst (fat_write demo_fat h b c) = (0, length b)" "\<not> config_beeb_write_protected ram_ops c"
  by (simp_all add: demo_fat_def ram_ops_def)



section \<open>The AUN service\<close>

lemma demo_reachable: "aun_service_reachable demo_lwip cfg (demo_port m)"
  by (rule aun_service_reachable.boot) (auto simp: aun_boot_def engine_def demo_state_def demo_bus_wf)

theorem aun_command_handshake_witness:
  "bus_read (fred (aun_emulator_poll demo_lwip [] (services_emulator_command (\<lambda>h. aun_emulator_command) (gpio_word 0xAA 0xE0) (demo_port (\<lambda>_. 31))))) 0xAA < 0xE0"
  using aun_command_handshake [OF demo_reachable [of "[]" "\<lambda>_. 31"] _ _ refl _ _ _ _ _ refl refl, of 7 "0xAA" "0xE0"] demo_table
  by simp

theorem aun_service_memory_witness:
  "JIM_ram (aun_emulator_poll demo_lwip [] (demo_port (\<lambda>_. 31))) (2 ^ 25) = 31"
  using aun_service_memory [OF demo_reachable [of "[]" "\<lambda>_. 31"], of "2 ^ 25"] by simp

theorem aun_service_invariant_witness: "aun_wf (engine (aun_emulator_poll demo_lwip [] (demo_port (\<lambda>_. 31))))"
  using aun_service_invariant [OF aun_service_reachable.step [OF demo_reachable aun_service_step.poll], of "[]" "\<lambda>_. 31"] by simp

text \<open>A Peek held for the host, taken by IMM_POLL and answered by IMM_REPLY, with a datagram of no bytes between.\<close>

definition demo_peeked :: "(ram, unit) aun_state services" where
  "demo_peeked = set_engine ((aun_static demo_lwip \<lparr>aun_pcb = None, stack = ()\<rparr>)\<lparr>himm := himm_zero\<lparr>h_active := True, h_ctrl := 1, h_gen := 4\<rparr>\<rparr>)
     (demo_port (\<lambda>_. 0))"

theorem aun_imm_reply_matches_witness:
  "himm_slot (himm (count_rx_bad (engine (snd (aun_cmd_imm_poll 0xFFE000 demo_peeked))))) = himm_slot (himm (engine demo_peeked))"
proof -
  let ?s1 = "snd (aun_cmd_imm_poll 0xFFE000 demo_peeked)"
  let ?s2 = "set_engine (count_rx_bad (engine ?s1)) ?s1"
  let ?x = "aun_cmd_imm_reply 0xFFE000 ?s2"
  have h: "himm (engine demo_peeked) = himm_zero\<lparr>h_active := True, h_ctrl := 1, h_gen := 4\<rparr>" by (simp add: demo_peeked_def)
  have p: "aun_cmd_imm_poll 0xFFE000 demo_peeked = (AUN_OK, ?s1)" by (simp add: aun_cmd_imm_poll_def h Let_def)
  have e: "JIM_ram (set_engine e s) = JIM_ram s" for e and s :: "(ram, unit) aun_state services" by (simp add: set_engine_def on_svc_def)
  have "JIM_ram ?s1 = jim_write32 (mem_write (\<lambda>_. 0) 0xFFE002 [1]) 0xFFE00C 0"
    unfolding aun_cmd_imm_poll_def h Let_def
    by (simp add: e himm_zero_def put_word_def put_bytes_def) (simp add: e set_mem_def demo_peeked_def)
  then have m: "block_word 0xFFE000 8 ?s2 = 0" "block_word 0xFFE000 12 ?s2 = 0"
    by (simp_all add: e block_word_def jim_read32_def jim_write32_def mem_write_def le32_def byte_of_def)
  have h2: "himm (engine ?s1) = himm_zero\<lparr>h_active := True, h_ctrl := 1, h_gen := 4, h_polled_gen := 4\<rparr>"
    by (simp add: aun_cmd_imm_poll_def h Let_def himm_zero_def count_rx_bad_def)
  have "engine (snd ?x) \<noteq> engine ?s2"
  proof
    assume "engine (snd ?x) = engine ?s2"
    then have "h_active (himm (engine (snd ?x)))" by (simp add: h2)
    then show False
      by (simp add: aun_cmd_imm_reply_def Let_def m h2 himm_zero_def aun_buffer_ok_def aun_himm_reply_def case_prod_beta)
  qed
  moreover have "engine ?s2 = fold aun_event [(\<lambda>_. 0, Datagram 0 0 [])] (engine ?s1)"
    by (simp add: aun_udp_input_def)
  moreover have "?x = (fst ?x, snd ?x)" by simp
  moreover have "length [(\<lambda>_. 0 :: u8, Datagram 0 0 [])] < 2 ^ 32" by simp
  ultimately have "himm_slot (himm (engine ?s2)) = himm_slot (himm (engine demo_peeked))"
    using aun_imm_reply_matches [OF p] by metis
  then show ?thesis by simp
qed

section \<open>The watchdog\<close>


end
