(* ===== verification/NetRing.thy ===== *)
theory NetRing
  imports Prelude
begin

text \<open>
  The receive rings of \<open>net_service.c\<close>: 8192 bytes each with 16-bit head, tail and count.  A TCP handle keeps a
  byte stream in its ring, a UDP handle records of eight header bytes and a payload.
\<close>

section \<open>Operations\<close>

definition NET_RX_RING_SIZE :: u16 where "NET_RX_RING_SIZE = 8192"

record rx_ring =
  rx_head :: u16
  rx_tail :: u16
  rx_count :: u16
  ring_data :: mem

definition ring_free :: "rx_ring \<Rightarrow> u16" where
  "ring_free r = NET_RX_RING_SIZE - rx_count r"

definition ring_step :: "u16 \<Rightarrow> u16" where
  "ring_step p = (p + 1) AND (NET_RX_RING_SIZE - 1)"

definition ring_store :: "u8 \<Rightarrow> rx_ring \<Rightarrow> rx_ring" where
  "ring_store b r = r\<lparr>ring_data := (ring_data r)(unat (rx_head r) := b), rx_head := ring_step (rx_head r)\<rparr>"

definition ring_put_mem :: "u8 list \<Rightarrow> rx_ring \<Rightarrow> rx_ring" where
  "ring_put_mem src r = (let r = fold ring_store src r in r\<lparr>rx_count := rx_count r + of_nat (length src)\<rparr>)"

text \<open>A chain of packet buffers is the list of their payloads.\<close>

definition ring_put_pbuf :: "u8 list list \<Rightarrow> rx_ring \<Rightarrow> rx_ring" where
  "ring_put_pbuf p r = fold ring_put_mem p r"

fun ring_fetch :: "nat \<Rightarrow> rx_ring \<Rightarrow> u8 list \<times> rx_ring" where
  "ring_fetch 0 r = ([], r)"
| "ring_fetch (Suc n) r =
     (let (bs, t) = ring_fetch n (r\<lparr>rx_tail := ring_step (rx_tail r)\<rparr>) in (ring_data r (unat (rx_tail r)) # bs, t))"

definition ring_get_mem :: "nat \<Rightarrow> rx_ring \<Rightarrow> u8 list \<times> rx_ring" where
  "ring_get_mem len r = (let (bs, r) = ring_fetch len r in (bs, r\<lparr>rx_count := rx_count r - of_nat len\<rparr>))"

text \<open>At most \<open>mx\<close> bytes for the host; the caller copies them.\<close>

definition ring_get :: "nat \<Rightarrow> rx_ring \<Rightarrow> u8 list \<times> rx_ring" where
  "ring_get mx r = ring_get_mem (if mx < unat (rx_count r) then mx else unat (rx_count r)) r"

text \<open>Dropping the tail of a datagram through a buffer of 64 bytes.\<close>

function ring_skip :: "nat \<Rightarrow> rx_ring \<Rightarrow> rx_ring" where
  "ring_skip left r =
     (if left = 0 then r else let n = (if left < 64 then left else 64) in ring_skip (left - n) (snd (ring_get_mem n r)))"
  by auto
termination by (relation "measure fst") auto

declare ring_skip.simps [simp del]

section \<open>The contract of a byte ring\<close>

locale byte_ring =
  fixes view :: "'q \<Rightarrow> u8 list"
    and put :: "u8 list \<Rightarrow> 'q \<Rightarrow> 'q"
    and get :: "nat \<Rightarrow> 'q \<Rightarrow> u8 list \<times> 'q"
    and invar :: "'q \<Rightarrow> bool"
    and cap :: nat
  assumes view_bound: "invar q \<Longrightarrow> length (view q) \<le> cap"
    and view_put: "invar q \<Longrightarrow> length (view q) + length bs \<le> cap \<Longrightarrow> view (put bs q) = view q @ bs"
    and invar_put: "invar q \<Longrightarrow> length (view q) + length bs \<le> cap \<Longrightarrow> invar (put bs q)"
    and get_bytes: "invar q \<Longrightarrow> n \<le> length (view q) \<Longrightarrow> fst (get n q) = take n (view q)"
    and view_get: "invar q \<Longrightarrow> n \<le> length (view q) \<Longrightarrow> view (snd (get n q)) = drop n (view q)"
    and invar_get: "invar q \<Longrightarrow> n \<le> length (view q) \<Longrightarrow> invar (snd (get n q))"
begin

lemma put_chain:
  assumes "invar q" "length (view q) + length (concat p) \<le> cap"
  shows "view (fold put p q) = view q @ concat p \<and> invar (fold put p q)"
  using assms
proof (induction p arbitrary: q)
  case (Cons bs p)
  then have "invar (put bs q)" "view (put bs q) = view q @ bs" by (simp_all add: invar_put view_put)
  with Cons.IH [of "put bs q"] Cons.prems show ?case by simp
qed simp

text \<open>What was put first is got first, whatever the sizes.\<close>

lemma get_after_put:
  assumes "invar q" "view q = []" "length bs \<le> cap" "n \<le> length bs"
  shows "fst (get n (put bs q)) = take n bs"
  using assms by (simp add: get_bytes view_put invar_put)

end

section \<open>The ring keeps the contract\<close>

definition ring_view :: "rx_ring \<Rightarrow> u8 list" where
  "ring_view r = map (\<lambda>k. ring_data r ((unat (rx_tail r) + k) mod 8192)) [0..<unat (rx_count r)]"

definition rxr_wf :: "rx_ring \<Rightarrow> bool" where
  "rxr_wf r \<longleftrightarrow> unat (rx_tail r) < 8192 \<and> unat (rx_count r) \<le> 8192 \<and>
     unat (rx_head r) = (unat (rx_tail r) + unat (rx_count r)) mod 8192"

lemma unat_ring_step: "unat (ring_step p) = (unat p + 1) mod 8192"
proof -
  have "ring_step p = take_bit 13 (p + 1)"
    by (simp add: ring_step_def NET_RX_RING_SIZE_def take_bit_eq_mask mask_numeral)
  then have "unat (ring_step p) = unat (p + 1) mod 8192" by (simp add: unsigned_take_bit_eq) (simp add: take_bit_eq_mod)
  also have "\<dots> = (unat p + 1) mod 65536 mod 8192" by (simp add: unat_word_ariths)
  also have "\<dots> = (unat p + 1) mod 8192" by (rule mod_mod_cancel) (simp add: dvd_def)
  finally show ?thesis .
qed

lemma length_ring_view [simp]: "length (ring_view r) = unat (rx_count r)"
  by (simp add: ring_view_def)

lemma fetch_bytes:
  "fst (ring_fetch n r) = map (\<lambda>k. ring_data r ((unat (rx_tail r) + k) mod 8192)) [0..<n] \<and>
   unat (rx_tail (snd (ring_fetch n r))) = (unat (rx_tail r) + n) mod 8192 \<and>
   ring_data (snd (ring_fetch n r)) = ring_data r \<and> rx_count (snd (ring_fetch n r)) = rx_count r \<and> rx_head (snd (ring_fetch n r)) = rx_head r"
  if "unat (rx_tail r) < 8192"
  using that
proof (induction n arbitrary: r)
  case (Suc n)
  let ?r = "r\<lparr>rx_tail := ring_step (rx_tail r)\<rparr>"
  have t: "unat (rx_tail ?r) = (unat (rx_tail r) + 1) mod 8192" by (simp add: unat_ring_step)
  have "[0..<Suc n] = 0 # map Suc [0..<n]" by (simp add: upt_conv_Cons map_Suc_upt del: upt_Suc)
  moreover have "((unat (rx_tail r) + 1) mod 8192 + k) mod 8192 = (unat (rx_tail r) + Suc k) mod 8192" for k
    by (simp add: mod_add_left_eq)
  ultimately show ?case using Suc.IH [of ?r] Suc.prems t by (simp add: case_prod_beta Let_def del: upt_Suc)
qed simp

lemma get_mem_effect:
  assumes "rxr_wf r" "n \<le> unat (rx_count r)"
  shows "fst (ring_get_mem n r) = take n (ring_view r)" "ring_view (snd (ring_get_mem n r)) = drop n (ring_view r)"
    "rxr_wf (snd (ring_get_mem n r))"
proof -
  have f: "unat (rx_tail r) < 8192" using assms by (simp add: rxr_wf_def)
  note e = fetch_bytes [OF f, of n]
  have n: "unat (of_nat n :: u16) = n" using order_le_less_trans [OF assms(2) unat_u16_less] by (simp add: unat_of_nat take_bit_nat_eq_self)
  then have "of_nat n \<le> rx_count r" using assms(2) by (simp add: word_le_nat_alt)
  then have c: "unat (rx_count r - of_nat n) = unat (rx_count r) - n" by (simp add: unat_sub n)
  show "fst (ring_get_mem n r) = take n (ring_view r)"
    using e assms(2) by (simp add: ring_get_mem_def case_prod_beta ring_view_def take_map min_def)
  show "ring_view (snd (ring_get_mem n r)) = drop n (ring_view r)"
    using e c assms(2)
    by (intro nth_equalityI) (auto simp: ring_get_mem_def case_prod_beta ring_view_def mod_add_left_eq mod_add_right_eq ac_simps)
  show "rxr_wf (snd (ring_get_mem n r))"
  proof -
    have "((unat (rx_tail r) + n) mod 8192 + (unat (rx_count r) - n)) mod 8192 = (unat (rx_tail r) + unat (rx_count r)) mod 8192"
      unfolding mod_add_left_eq using assms(2) by simp
    then show ?thesis using e c assms by (auto simp: ring_get_mem_def case_prod_beta rxr_wf_def)
  qed
qed

lemma store_effect:
  "rx_tail (fold ring_store bs r) = rx_tail r \<and> rx_count (fold ring_store bs r) = rx_count r \<and>
   unat (rx_head (fold ring_store bs r)) = (unat (rx_head r) + length bs) mod 8192 \<and>
   (\<forall>k < length bs. length bs \<le> 8192 \<longrightarrow> ring_data (fold ring_store bs r) ((unat (rx_head r) + k) mod 8192) = bs ! k) \<and>
   (\<forall>a. (\<forall>k < length bs. a \<noteq> (unat (rx_head r) + k) mod 8192) \<longrightarrow> ring_data (fold ring_store bs r) a = ring_data r a)"
  if "unat (rx_head r) < 8192"
  using that
proof (induction bs arbitrary: r)
  case (Cons b bs)
  let ?r = "ring_store b r"
  have h: "unat (rx_head ?r) = (unat (rx_head r) + 1) mod 8192" "rx_tail ?r = rx_tail r" "rx_count ?r = rx_count r"
    "ring_data ?r = (ring_data r)(unat (rx_head r) := b)"
    by (simp_all add: ring_store_def unat_ring_step)
  have s: "((unat (rx_head r) + 1) mod 8192 + k) mod 8192 = (unat (rx_head r) + Suc k) mod 8192" for k by (simp add: mod_add_left_eq)
  have IH: "rx_tail (fold ring_store bs ?r) = rx_tail r" "rx_count (fold ring_store bs ?r) = rx_count r"
    "unat (rx_head (fold ring_store bs ?r)) = (unat (rx_head r) + Suc (length bs)) mod 8192"
    "\<And>k. k < length bs \<Longrightarrow> length bs \<le> 8192 \<Longrightarrow> ring_data (fold ring_store bs ?r) ((unat (rx_head r) + Suc k) mod 8192) = bs ! k"
    "\<And>a. (\<forall>k < length bs. a \<noteq> (unat (rx_head r) + Suc k) mod 8192) \<Longrightarrow>
        ring_data (fold ring_store bs ?r) a = ((ring_data r)(unat (rx_head r) := b)) a"
    using Cons.IH [of ?r] h s by auto
  have "ring_data (fold ring_store bs ?r) ((unat (rx_head r) + k) mod 8192) = (b # bs) ! k"
    if "k < Suc (length bs)" "Suc (length bs) \<le> 8192" for k
  proof (cases k)
    case 0
    have "unat (rx_head r) \<noteq> (unat (rx_head r) + Suc j) mod 8192" if "j < length bs" for j
      using \<open>Suc (length bs) \<le> 8192\<close> that Cons.prems by (auto simp: mod_if)
    then show ?thesis using IH(5) [of "unat (rx_head r)"] Cons.prems by (simp add: 0)
  next
    case (Suc j)
    then show ?thesis using IH(4) [of j] that by simp
  qed
  moreover have "ring_data (fold ring_store bs ?r) a = ring_data r a" if "\<forall>k < Suc (length bs). a \<noteq> (unat (rx_head r) + k) mod 8192" for a
  proof -
    have "a \<noteq> unat (rx_head r)" using that [rule_format, of 0] Cons.prems by simp
    moreover have "a \<noteq> (unat (rx_head r) + Suc k) mod 8192" if "k < length bs" for k
      using \<open>\<forall>k < Suc (length bs). a \<noteq> (unat (rx_head r) + k) mod 8192\<close> that by (metis Suc_less_eq)
    ultimately show ?thesis using IH(5) [of a] by simp
  qed
  ultimately show ?case using IH(1-3) by simp
qed simp

lemma put_mem_effect:
  assumes "rxr_wf r" "unat (rx_count r) + length bs \<le> 8192"
  shows "ring_view (ring_put_mem bs r) = ring_view r @ bs" "rxr_wf (ring_put_mem bs r)"
proof -
  let ?s = "fold ring_store bs r" and ?t = "unat (rx_tail r)" and ?n = "unat (rx_count r)"
  have h: "unat (rx_head r) < 8192" "unat (rx_head r) = (?t + ?n) mod 8192" "?t < 8192" using assms(1) by (simp_all add: rxr_wf_def)
  note e = store_effect [OF h(1), of bs]
  have c: "unat (rx_count r + of_nat (length bs)) = ?n + length bs" using assms(2) by (simp add: unat_word_ariths unat_of_nat)
  have p: "(unat (rx_head r) + k) mod 8192 = (?t + (?n + k)) mod 8192" for k unfolding h(2) by (simp add: mod_add_left_eq add.assoc)
  show "rxr_wf (ring_put_mem bs r)"
    using e c p [of "length bs"] assms by (simp add: ring_put_mem_def rxr_wf_def Let_def)
  have old: "ring_data ?s ((?t + k) mod 8192) = ring_data r ((?t + k) mod 8192)" if "k < ?n" for k
  proof -
    have "(?t + k) mod 8192 \<noteq> (?t + (?n + j)) mod 8192" if "j < length bs" for j
    proof
      assume "(?t + k) mod 8192 = (?t + (?n + j)) mod 8192"
      then show False using \<open>k < ?n\<close> that assms(2) h(3) by (auto simp: mod_if split: if_splits)
    qed
    then show ?thesis using e p by auto
  qed
  have new: "ring_data ?s ((?t + (?n + k)) mod 8192) = bs ! k" if "k < length bs" for k
    using e p that assms(2) by (metis add_leE)
  show "ring_view (ring_put_mem bs r) = ring_view r @ bs"
  proof (rule nth_equalityI)
    fix i assume "i < length (ring_view (ring_put_mem bs r))"
    then have i: "i < ?n + length bs" using e c by (simp add: ring_put_mem_def Let_def)
    then show "ring_view (ring_put_mem bs r) ! i = (ring_view r @ bs) ! i"
      using e c old [of i] new [of "i - ?n"] by (auto simp: ring_put_mem_def Let_def ring_view_def nth_append)
  qed (use e c in \<open>simp add: ring_put_mem_def Let_def\<close>)
qed

interpretation rx: byte_ring ring_view ring_put_mem ring_get_mem rxr_wf 8192
  by unfold_locales (simp_all add: put_mem_effect get_mem_effect, simp add: rxr_wf_def)

end
