(* ===== verification/NetTnfs.thy ===== *)
theory NetTnfs
  imports Prelude "HOL-Library.Monad_Syntax"
begin

text \<open>
  The TNFS codec of \<open>net_tnfs.c\<close>.  A request under construction is the list of its bytes, \<^const>\<open>None\<close> when it would
  exceed the capacity; a reply's body is the rest of the datagram.
\<close>

section \<open>Requests\<close>

definition TNFS_HDR_LEN :: nat where "TNFS_HDR_LEN = 4"
definition TNFS_VERSION :: u16 where "TNFS_VERSION = 0x0102"
definition TNFS_CMD_MOUNT :: u8 where "TNFS_CMD_MOUNT = 0x00"
definition TNFS_CMD_UMOUNT :: u8 where "TNFS_CMD_UMOUNT = 0x01"
definition TNFS_CMD_OPENDIR :: u8 where "TNFS_CMD_OPENDIR = 0x10"
definition TNFS_CMD_READDIR :: u8 where "TNFS_CMD_READDIR = 0x11"
definition TNFS_CMD_CLOSEDIR :: u8 where "TNFS_CMD_CLOSEDIR = 0x12"
definition TNFS_CMD_READ :: u8 where "TNFS_CMD_READ = 0x21"
definition TNFS_CMD_WRITE :: u8 where "TNFS_CMD_WRITE = 0x22"
definition TNFS_CMD_CLOSE :: u8 where "TNFS_CMD_CLOSE = 0x23"
definition TNFS_CMD_STAT :: u8 where "TNFS_CMD_STAT = 0x24"
definition TNFS_CMD_OPEN :: u8 where "TNFS_CMD_OPEN = 0x29"
definition TNFS_OK :: u8 where "TNFS_OK = 0x00"
definition TNFS_EAGAIN :: u8 where "TNFS_EAGAIN = 0x07"
definition TNFS_EOF :: u8 where "TNFS_EOF = 0x21"
definition TNFS_O_RDONLY :: u16 where "TNFS_O_RDONLY = 0x0001"
definition TNFS_O_WRONLY :: u16 where "TNFS_O_WRONLY = 0x0002"
definition TNFS_O_RDWR :: u16 where "TNFS_O_RDWR = 0x0003"
definition TNFS_O_CREAT :: u16 where "TNFS_O_CREAT = 0x0100"
definition TNFS_O_TRUNC :: u16 where "TNFS_O_TRUNC = 0x0200"

definition u16_bytes :: "u16 \<Rightarrow> u8 list" where
  "u16_bytes v = [ucast v, ucast (drop_bit 8 v)]"

definition put_hdr :: "nat \<Rightarrow> u16 \<Rightarrow> u8 \<Rightarrow> u8 \<Rightarrow> u8 list option" where
  "put_hdr cap connid seq cmd = (if cap < TNFS_HDR_LEN then None else Some (u16_bytes connid @ [seq, cmd]))"

definition put_u8 :: "nat \<Rightarrow> u8 \<Rightarrow> u8 list \<Rightarrow> u8 list option" where
  "put_u8 cap v b = (if cap < length b + 1 then None else Some (b @ [v]))"

definition put_u16 :: "nat \<Rightarrow> u16 \<Rightarrow> u8 list \<Rightarrow> u8 list option" where
  "put_u16 cap v b = (if cap < length b + 2 then None else Some (b @ u16_bytes v))"

text \<open>A null pointer is sent as the empty string.\<close>

definition put_str :: "nat \<Rightarrow> string option \<Rightarrow> u8 list \<Rightarrow> u8 list option" where
  "put_str cap s b =
     (let body = (case s of Some s \<Rightarrow> map of_char s | None \<Rightarrow> []) in
      if cap < length b + length body + 1 then None else Some (b @ body @ [0]))"

definition tnfs_build_mount :: "nat \<Rightarrow> u8 \<Rightarrow> string option \<Rightarrow> string option \<Rightarrow> string option \<Rightarrow> u8 list option" where
  "tnfs_build_mount cap seq mountpoint user pass = do {
     b \<leftarrow> put_hdr cap 0 seq TNFS_CMD_MOUNT;
     b \<leftarrow> put_u16 cap TNFS_VERSION b;
     b \<leftarrow> put_str cap (case mountpoint of Some m \<Rightarrow> Some m | None \<Rightarrow> Some ''/'') b;
     b \<leftarrow> put_str cap user b;
     put_str cap pass b }"

definition tnfs_build_umount :: "nat \<Rightarrow> u16 \<Rightarrow> u8 \<Rightarrow> u8 list option" where
  "tnfs_build_umount cap connid seq = put_hdr cap connid seq TNFS_CMD_UMOUNT"

definition tnfs_build_open :: "nat \<Rightarrow> u16 \<Rightarrow> u8 \<Rightarrow> u16 \<Rightarrow> u16 \<Rightarrow> string \<Rightarrow> u8 list option" where
  "tnfs_build_open cap connid seq flags mode path = do {
     b \<leftarrow> put_hdr cap connid seq TNFS_CMD_OPEN;
     b \<leftarrow> put_u16 cap flags b;
     b \<leftarrow> put_u16 cap mode b;
     put_str cap (Some path) b }"

definition tnfs_build_read :: "nat \<Rightarrow> u16 \<Rightarrow> u8 \<Rightarrow> u8 \<Rightarrow> u16 \<Rightarrow> u8 list option" where
  "tnfs_build_read cap connid seq fd sz = do {
     b \<leftarrow> put_hdr cap connid seq TNFS_CMD_READ;
     b \<leftarrow> put_u8 cap fd b;
     put_u16 cap sz b }"

definition tnfs_build_write :: "nat \<Rightarrow> u16 \<Rightarrow> u8 \<Rightarrow> u8 \<Rightarrow> u8 list \<Rightarrow> u8 list option" where
  "tnfs_build_write cap connid seq fd data = do {
     b \<leftarrow> put_hdr cap connid seq TNFS_CMD_WRITE;
     b \<leftarrow> put_u8 cap fd b;
     b \<leftarrow> put_u16 cap (of_nat (length data)) b;
     if cap < length b + length data then None else Some (b @ data) }"

definition tnfs_build_byte :: "u8 \<Rightarrow> nat \<Rightarrow> u16 \<Rightarrow> u8 \<Rightarrow> u8 \<Rightarrow> u8 list option" where
  "tnfs_build_byte cmd cap connid seq fd = do { b \<leftarrow> put_hdr cap connid seq cmd; put_u8 cap fd b }"

definition tnfs_build_close :: "nat \<Rightarrow> u16 \<Rightarrow> u8 \<Rightarrow> u8 \<Rightarrow> u8 list option" where
  "tnfs_build_close = tnfs_build_byte TNFS_CMD_CLOSE"

definition tnfs_build_readdir :: "nat \<Rightarrow> u16 \<Rightarrow> u8 \<Rightarrow> u8 \<Rightarrow> u8 list option" where
  "tnfs_build_readdir = tnfs_build_byte TNFS_CMD_READDIR"

definition tnfs_build_closedir :: "nat \<Rightarrow> u16 \<Rightarrow> u8 \<Rightarrow> u8 \<Rightarrow> u8 list option" where
  "tnfs_build_closedir = tnfs_build_byte TNFS_CMD_CLOSEDIR"

definition tnfs_build_path :: "u8 \<Rightarrow> nat \<Rightarrow> u16 \<Rightarrow> u8 \<Rightarrow> string \<Rightarrow> u8 list option" where
  "tnfs_build_path cmd cap connid seq path = do { b \<leftarrow> put_hdr cap connid seq cmd; put_str cap (Some path) b }"

definition tnfs_build_opendir :: "nat \<Rightarrow> u16 \<Rightarrow> u8 \<Rightarrow> string \<Rightarrow> u8 list option" where
  "tnfs_build_opendir = tnfs_build_path TNFS_CMD_OPENDIR"

definition tnfs_build_stat :: "nat \<Rightarrow> u16 \<Rightarrow> u8 \<Rightarrow> string \<Rightarrow> u8 list option" where
  "tnfs_build_stat = tnfs_build_path TNFS_CMD_STAT"

section \<open>Replies\<close>

record tnfs_reply =
  t_connid :: u16
  t_seq :: u8
  t_cmd :: u8
  t_status :: u8
  t_backoff :: u16
  t_body :: "u8 list"

definition rd_u16 :: "u8 list \<Rightarrow> u16" where
  "rd_u16 p = ucast (p ! 0) OR push_bit 8 (ucast (p ! 1))"

definition tnfs_parse_reply :: "u8 list \<Rightarrow> u8 \<Rightarrow> u8 \<Rightarrow> tnfs_reply option" where
  "tnfs_parse_reply pkt want_seq want_cmd =
     (if length pkt < TNFS_HDR_LEN + 1 then None
      else if pkt ! 2 \<noteq> want_seq \<or> pkt ! 3 \<noteq> want_cmd then None
      else let body = drop 5 pkt; status = pkt ! 4 in
        Some \<lparr>t_connid = rd_u16 pkt, t_seq = pkt ! 2, t_cmd = pkt ! 3, t_status = status,
          t_backoff = if status = TNFS_EAGAIN \<and> 2 \<le> length body then rd_u16 body else 0, t_body = body\<rparr>)"

text \<open>The typed extractors; a reply exists only when the header was well formed.\<close>

definition tnfs_reply_mount :: "tnfs_reply \<Rightarrow> (u16 \<times> u16) option" where
  "tnfs_reply_mount r =
     (if t_status r \<noteq> TNFS_OK \<or> length (t_body r) < 4 then None else Some (rd_u16 (t_body r), rd_u16 (drop 2 (t_body r))))"

definition tnfs_reply_open :: "tnfs_reply \<Rightarrow> u8 option" where
  "tnfs_reply_open r = (if t_status r \<noteq> TNFS_OK \<or> length (t_body r) < 1 then None else Some (t_body r ! 0))"

definition tnfs_reply_write :: "tnfs_reply \<Rightarrow> u16 option" where
  "tnfs_reply_write r = (if t_status r \<noteq> TNFS_OK \<or> length (t_body r) < 2 then None else Some (rd_u16 (t_body r)))"

definition tnfs_reply_opendir :: "tnfs_reply \<Rightarrow> u8 option" where
  "tnfs_reply_opendir r = (if t_status r \<noteq> TNFS_OK \<or> length (t_body r) < 1 then None else Some (t_body r ! 0))"

definition tnfs_reply_read :: "tnfs_reply \<Rightarrow> u8 list option" where
  "tnfs_reply_read r =
     (if t_status r \<noteq> TNFS_OK \<or> length (t_body r) < 2 then None
      else let n = unat (rd_u16 (t_body r)) in
        if length (t_body r) < n + 2 then None else Some (take n (drop 2 (t_body r))))"

text \<open>The name's bytes before the terminator, which must be there.\<close>

definition tnfs_reply_readdir :: "tnfs_reply \<Rightarrow> u8 list option" where
  "tnfs_reply_readdir r =
     (if t_status r \<noteq> TNFS_OK \<or> length (t_body r) < 1 then None
      else if 0 \<notin> set (t_body r) then None else Some (takeWhile (\<lambda>b. b \<noteq> 0) (t_body r)))"

definition tnfs_reply_stat_size :: "tnfs_reply \<Rightarrow> u32 option" where
  "tnfs_reply_stat_size r =
     (if t_status r \<noteq> TNFS_OK \<or> length (t_body r) < 10 then None
      else Some (ucast (t_body r ! 6) OR push_bit 8 (ucast (t_body r ! 7)) OR push_bit 16 (ucast (t_body r ! 8)) OR
        push_bit 24 (ucast (t_body r ! 9))))"

section \<open>Properties\<close>

lemma length_u16_bytes [simp]: "length (u16_bytes v) = 2"
  by (simp add: u16_bytes_def)

lemma rd_u16_bytes [wire]: "rd_u16 (u16_bytes v @ r) = v"
  by (rule bit_word_eqI) (auto simp: rd_u16_def u16_bytes_def bit_simps)

text \<open>A request never exceeds the buffer, and carries its sequence number and command.\<close>

definition request_ok :: "nat \<Rightarrow> u16 \<Rightarrow> u8 \<Rightarrow> u8 \<Rightarrow> u8 list \<Rightarrow> bool" where
  "request_ok cap connid seq cmd b \<longleftrightarrow> length b \<le> cap \<and> (\<exists>r. b = u16_bytes connid @ [seq, cmd] @ r)"

lemma put_ok:
  "put_hdr cap c s k = Some b \<Longrightarrow> request_ok cap c s k b"
  "request_ok cap c s k b \<Longrightarrow> put_u8 cap v b = Some b' \<Longrightarrow> request_ok cap c s k b'"
  "request_ok cap c s k b \<Longrightarrow> put_u16 cap w b = Some b' \<Longrightarrow> request_ok cap c s k b'"
  "request_ok cap c s k b \<Longrightarrow> put_str cap str b = Some b' \<Longrightarrow> request_ok cap c s k b'"
  by (auto simp: put_hdr_def put_u8_def put_u16_def put_str_def request_ok_def Let_def TNFS_HDR_LEN_def split: if_splits)

lemma build_mount_ok: "tnfs_build_mount cap s m u p = Some b \<Longrightarrow> request_ok cap 0 s TNFS_CMD_MOUNT b"
  unfolding tnfs_build_mount_def bind_eq_Some_conv
  by (elim exE conjE) (drule put_ok(1), drule (1) put_ok(3), drule (1) put_ok(4), drule (1) put_ok(4), erule (1) put_ok(4))

lemma build_open_ok: "tnfs_build_open cap c s fl md path = Some b \<Longrightarrow> request_ok cap c s TNFS_CMD_OPEN b"
  unfolding tnfs_build_open_def bind_eq_Some_conv
  by (elim exE conjE) (drule put_ok(1), drule (1) put_ok(3), drule (1) put_ok(3), erule (1) put_ok(4))

lemma build_read_ok: "tnfs_build_read cap c s fd n = Some b \<Longrightarrow> request_ok cap c s TNFS_CMD_READ b"
  unfolding tnfs_build_read_def bind_eq_Some_conv
  by (elim exE conjE) (drule put_ok(1), drule (1) put_ok(2), erule (1) put_ok(3))

lemma build_write_ok: "tnfs_build_write cap c s fd data = Some b \<Longrightarrow> request_ok cap c s TNFS_CMD_WRITE b"
  unfolding tnfs_build_write_def bind_eq_Some_conv
  by (elim exE conjE) (drule put_ok(1), drule (1) put_ok(2), drule (1) put_ok(3), auto simp: request_ok_def split: if_splits)

lemma build_short_ok:
  "tnfs_build_umount cap c s = Some b \<Longrightarrow> request_ok cap c s TNFS_CMD_UMOUNT b"
  "tnfs_build_byte k cap c s fd = Some b \<Longrightarrow> request_ok cap c s k b"
  "tnfs_build_path k cap c s path = Some b \<Longrightarrow> request_ok cap c s k b"
  unfolding tnfs_build_umount_def tnfs_build_byte_def tnfs_build_path_def bind_eq_Some_conv
  by (rule put_ok(1), assumption) (elim exE conjE, drule put_ok(1), (erule (1) put_ok(2) | erule (1) put_ok(4)))+

lemmas build_ok = build_mount_ok build_open_ok build_read_ok build_write_ok build_short_ok

text \<open>A server that answers by the header's rules is understood, whatever the rest of the body.\<close>

definition server_reply :: "u16 \<Rightarrow> u8 \<Rightarrow> u8 \<Rightarrow> u8 \<Rightarrow> u8 list \<Rightarrow> u8 list" where
  "server_reply connid seq cmd status body = u16_bytes connid @ [seq, cmd, status] @ body"

lemma parse_server_reply:
  "tnfs_parse_reply (server_reply c s k st body) s' k' =
     (if s' = s \<and> k' = k
      then Some \<lparr>t_connid = c, t_seq = s, t_cmd = k, t_status = st,
        t_backoff = if st = TNFS_EAGAIN \<and> 2 \<le> length body then rd_u16 body else 0, t_body = body\<rparr>
      else None)"
  using rd_u16_bytes [of c "[s, k, st] @ body"]
  by (auto simp: tnfs_parse_reply_def server_reply_def TNFS_HDR_LEN_def Let_def nth_append u16_bytes_def)

theorem tnfs_read_roundtrip:
  assumes "length data < 65536" "pkt = server_reply c s TNFS_CMD_READ TNFS_OK (u16_bytes (of_nat (length data)) @ data @ junk)"
  shows "\<exists>r. tnfs_parse_reply pkt s TNFS_CMD_READ = Some r \<and> t_connid r = c \<and> tnfs_reply_read r = Some data"
  using assms(1) rd_u16_bytes [of "of_nat (length data)" "data @ junk"]
  by (simp add: assms(2) parse_server_reply tnfs_reply_read_def TNFS_OK_def unat_of_nat)

lemma reply_within:
  assumes "tnfs_parse_reply pkt s k = Some r"
  shows "tnfs_reply_read r = Some data \<Longrightarrow> length data + 7 \<le> length pkt"
    "tnfs_reply_readdir r = Some name \<Longrightarrow> length name + 6 \<le> length pkt"
proof -
  have b: "t_body r = drop 5 pkt" "5 \<le> length pkt"
    using assms by (auto simp: tnfs_parse_reply_def Let_def TNFS_HDR_LEN_def split: if_splits)
  show "tnfs_reply_read r = Some data \<Longrightarrow> length data + 7 \<le> length pkt"
    using b by (auto simp: tnfs_reply_read_def Let_def split: if_splits)
  assume "tnfs_reply_readdir r = Some name"
  then have "0 \<in> set (drop 5 pkt)" "name = takeWhile (\<lambda>x. x \<noteq> 0) (drop 5 pkt)"
    using b by (auto simp: tnfs_reply_readdir_def split: if_splits)
  then have "length name < length (drop 5 pkt)"
    by (metis (mono_tags, lifting) length_takeWhile_le order_le_imp_less_or_eq takeWhile_eq_all_conv takeWhile_eq_take take_all_iff)
  then show "length name + 6 \<le> length pkt" by simp
qed

end
