(* ===== verification/NetTelnet.thy ===== *)
theory NetTelnet
  imports Prelude
begin

text \<open>
  The TELNET filter of \<open>net_telnet.c\<close>: commands and negotiations are taken out of the stream from the server,
  and literal 255 bytes are doubled on the way to it.  Output buffers are lists with a capacity.
\<close>

section \<open>State and operations\<close>

datatype telnet_state = S_DATA | S_IAC | S_OPT | S_SB | S_SB_IAC | S_CR

record telnet_ctx =
  tn_state :: telnet_state
  tn_cmd :: u8
  tn_seen :: "u8 list"

definition TN_IAC :: u8 where "TN_IAC = 255"
definition TN_DONT :: u8 where "TN_DONT = 254"
definition TN_DO :: u8 where "TN_DO = 253"
definition TN_WONT :: u8 where "TN_WONT = 252"
definition TN_WILL :: u8 where "TN_WILL = 251"
definition TN_SB :: u8 where "TN_SB = 250"
definition TN_SE :: u8 where "TN_SE = 240"
definition TN_OPT_ECHO :: u8 where "TN_OPT_ECHO = 1"
definition TN_OPT_SGA :: u8 where "TN_OPT_SGA = 3"

definition telnet_reset :: telnet_ctx where
  "telnet_reset = \<lparr>tn_state = S_DATA, tn_cmd = 0, tn_seen = replicate 32 0\<rparr>"

definition emit :: "nat \<Rightarrow> u8 list \<Rightarrow> u8 \<Rightarrow> u8 list" where
  "emit cap buf b = (if length buf < cap then buf @ [b] else buf)"

text \<open>The filter's context, clean text and replies.\<close>

record telnet_run =
  tr_ctx :: telnet_ctx
  tr_out :: "u8 list"
  tr_rep :: "u8 list"

definition tn_reply :: "nat \<Rightarrow> u8 \<Rightarrow> u8 \<Rightarrow> telnet_run \<Rightarrow> telnet_run" where
  "tn_reply cap cmd opt r =
     (let i = unat (drop_bit 3 opt); mask = push_bit (unat (opt AND 7)) 1; seen = tn_seen (tr_ctx r) in
      if seen ! i AND mask \<noteq> 0 then r
      else if cap < length (tr_rep r) + 3 then r
      else r\<lparr>tr_ctx := (tr_ctx r)\<lparr>tn_seen := seen[i := seen ! i OR mask]\<rparr>,
             tr_rep := emit cap (emit cap (emit cap (tr_rep r) TN_IAC) cmd) opt\<rparr>)"

definition tn_goto :: "telnet_state \<Rightarrow> telnet_run \<Rightarrow> telnet_run" where
  "tn_goto st r = r\<lparr>tr_ctx := (tr_ctx r)\<lparr>tn_state := st\<rparr>\<rparr>"

definition tn_emit :: "nat \<Rightarrow> u8 \<Rightarrow> telnet_run \<Rightarrow> telnet_run" where
  "tn_emit cap b r = r\<lparr>tr_out := emit cap (tr_out r) b\<rparr>"

definition telnet_byte :: "nat \<Rightarrow> nat \<Rightarrow> u8 \<Rightarrow> telnet_run \<Rightarrow> telnet_run" where
  "telnet_byte out_cap rep_cap b r =
     (case tn_state (tr_ctx r) of
        S_DATA \<Rightarrow> if b = TN_IAC then tn_goto S_IAC r
                  else if b = 0x0D then tn_goto S_CR (tn_emit out_cap 0x0D r)
                  else tn_emit out_cap b r
      | S_CR \<Rightarrow> if b = 0 then tn_goto S_DATA r
                else if b = TN_IAC then tn_goto S_IAC r
                else if b = 0x0D then tn_emit out_cap 0x0D r
                else tn_goto S_DATA (tn_emit out_cap b r)
      | S_IAC \<Rightarrow> if b = TN_IAC then tn_goto S_DATA (tn_emit out_cap 0xFF r)
                 else if b = TN_WILL \<or> b = TN_WONT \<or> b = TN_DO \<or> b = TN_DONT
                 then r\<lparr>tr_ctx := (tr_ctx r)\<lparr>tn_cmd := b, tn_state := S_OPT\<rparr>\<rparr>
                 else if b = TN_SB then tn_goto S_SB r
                 else tn_goto S_DATA r
      | S_OPT \<Rightarrow> tn_goto S_DATA
                  (if tn_cmd (tr_ctx r) = TN_WILL
                   then tn_reply rep_cap (if b = TN_OPT_ECHO \<or> b = TN_OPT_SGA then TN_DO else TN_DONT) b r
                   else if tn_cmd (tr_ctx r) = TN_DO then tn_reply rep_cap TN_WONT b r
                   else r)
      | S_SB \<Rightarrow> if b = TN_IAC then tn_goto S_SB_IAC r else r
      | S_SB_IAC \<Rightarrow> if b = TN_SE then tn_goto S_DATA r else tn_goto S_SB r)"

definition telnet_filter :: "telnet_ctx \<Rightarrow> u8 list \<Rightarrow> nat \<Rightarrow> nat \<Rightarrow> telnet_run" where
  "telnet_filter ctx xs out_cap rep_cap = fold (telnet_byte out_cap rep_cap) xs \<lparr>tr_ctx = ctx, tr_out = [], tr_rep = []\<rparr>"

fun escape_loop :: "nat \<Rightarrow> u8 list \<Rightarrow> u8 list \<Rightarrow> nat \<Rightarrow> u8 list \<times> nat" where
  "escape_loop cap [] out i = (out, i)"
| "escape_loop cap (b # bs) out i =
     (if b = TN_IAC then if cap < length out + 2 then (out, i) else escape_loop cap bs (out @ [TN_IAC, TN_IAC]) (i + 1)
      else if cap < length out + 1 then (out, i) else escape_loop cap bs (out @ [b]) (i + 1))"

text \<open>The escaped bytes and the number of bytes consumed.\<close>

definition telnet_escape :: "u8 list \<Rightarrow> nat \<Rightarrow> u8 list \<times> nat" where
  "telnet_escape xs cap = escape_loop cap xs [] 0"

lemmas tn_codes = TN_IAC_def TN_DONT_def TN_DO_def TN_WONT_def TN_WILL_def TN_SB_def TN_SE_def TN_OPT_ECHO_def TN_OPT_SGA_def

section \<open>What one byte does\<close>

lemma goto_fields [simp]:
  "tr_out (tn_goto st r) = tr_out r" "tr_rep (tn_goto st r) = tr_rep r" "tr_ctx (tn_goto st r) = (tr_ctx r)\<lparr>tn_state := st\<rparr>"
  by (simp_all add: tn_goto_def)

lemma emit_fields [simp]:
  "tr_out (tn_emit cap b r) = emit cap (tr_out r) b" "tr_rep (tn_emit cap b r) = tr_rep r" "tr_ctx (tn_emit cap b r) = tr_ctx r"
  by (simp_all add: tn_emit_def)

lemma reply_fields [simp]:
  "tr_out (tn_reply cap c opt r) = tr_out r" "tn_state (tr_ctx (tn_reply cap c opt r)) = tn_state (tr_ctx r)"
  "tn_cmd (tr_ctx (tn_reply cap c opt r)) = tn_cmd (tr_ctx r)"
  by (simp_all add: tn_reply_def Let_def)

section \<open>Options that were answered\<close>

text \<open>An option is answered once: the bitmap records it.\<close>

definition tn_answered :: "telnet_ctx \<Rightarrow> u8 \<Rightarrow> bool" where
  "tn_answered ctx opt \<longleftrightarrow> bit (tn_seen ctx ! (unat opt div 8)) (unat opt mod 8)"

lemma opt_index: "unat (drop_bit 3 (opt :: u8)) = unat opt div 8" "unat (opt AND 7) = unat opt mod 8" "unat opt div 8 < 32"
proof -
  show "unat (drop_bit 3 opt) = unat opt div 8" by (simp add: unat_drop_bit_eq drop_bit_eq_div [where n = 3 and 'a = nat])
  have "opt AND 7 = take_bit 3 opt" by (simp add: take_bit_eq_mask mask_numeral)
  then show "unat (opt AND 7) = unat opt mod 8" by (simp add: unsigned_take_bit_eq) (simp add: take_bit_eq_mod)
  have "unat opt < 2 ^ 8" using unsigned_less [of opt, where 'a = nat] by simp
  then show "unat opt div 8 < 32" by (intro less_mult_imp_div_less) simp
qed

lemma and_bit_mask: "(w :: u8) AND 2 ^ k = 0 \<longleftrightarrow> \<not> bit w k"
proof -
  have "w AND 2 ^ k = (if bit w k then 2 ^ k else 0)"
    by (rule bit_word_eqI) (auto simp: bit_and_iff bit_exp_iff)
  moreover have "bit w k \<Longrightarrow> (2 :: u8) ^ k \<noteq> 0" using bit_imp_le_length [of w k] by simp
  ultimately show ?thesis by auto
qed

lemma reply_eq:
  assumes "length (tn_seen (tr_ctx r)) = 32" "length (tr_rep r) + 3 \<le> cap"
  shows "tr_rep (tn_reply cap c opt r) = tr_rep r @ (if tn_answered (tr_ctx r) opt then [] else [TN_IAC, c, opt])"
    and "tn_answered (tr_ctx (tn_reply cap c opt r)) x \<longleftrightarrow> tn_answered (tr_ctx r) x \<or> x = opt"
proof -
  let ?s = "tn_seen (tr_ctx r)" and ?i = "unat opt div 8" and ?k = "unat opt mod 8"
  have r: "tn_reply cap c opt r = (if tn_answered (tr_ctx r) opt then r
      else r\<lparr>tr_ctx := (tr_ctx r)\<lparr>tn_seen := ?s[?i := ?s ! ?i OR push_bit ?k 1]\<rparr>, tr_rep := tr_rep r @ [TN_IAC, c, opt]\<rparr>)"
    using assms(2) by (simp add: tn_reply_def Let_def opt_index tn_answered_def and_bit_mask emit_def)
  then show "tr_rep (tn_reply cap c opt r) = tr_rep r @ (if tn_answered (tr_ctx r) opt then [] else [TN_IAC, c, opt])" by simp
  show "tn_answered (tr_ctx (tn_reply cap c opt r)) x \<longleftrightarrow> tn_answered (tr_ctx r) x \<or> x = opt"
  proof (cases "unat x div 8 = ?i")
    case True
    have k: "unat x mod 8 = ?k \<longleftrightarrow> x = opt"
      by (metis True div_mult_mod_eq word_unat_eq_iff)
    have "bit (?s ! ?i OR push_bit ?k 1) (unat x mod 8) \<longleftrightarrow> bit (?s ! ?i) (unat x mod 8) \<or> x = opt"
      by (auto simp: bit_or_iff bit_exp_iff k [symmetric])
    then show ?thesis using True opt_index(3) [of opt] assms(1) by (auto simp: tn_answered_def r)
  next
    case False
    then show ?thesis by (auto simp: tn_answered_def r)
  qed
qed

lemma byte_seen: "length (tn_seen (tr_ctx (telnet_byte oc rc b r))) = length (tn_seen (tr_ctx r))"
  by (cases "tn_state (tr_ctx r)") (simp_all add: telnet_byte_def tn_reply_def Let_def)

lemma run_seen: "length (tn_seen (tr_ctx (fold (telnet_byte oc rc) xs r))) = length (tn_seen (tr_ctx r))"
  by (induction xs arbitrary: r) (simp_all add: byte_seen)

section \<open>The protocol\<close>

text \<open>
  What a stream of bytes from a server means, read from RFC 854 and the policy of \<open>net_telnet.h\<close> element by
  element: plain bytes, a carriage return with the NUL that may follow it, 255 255 for a literal 255, the
  negotiations 251 to 254 with their option, and 250 (subnegotiation) up to the pair 255 240; every other
  command is ignored, and an element that is cut off at the end of the stream has no effect.
\<close>

datatype tn_element = Text u8 | Negotiation u8 u8

fun tn_after_sub :: "u8 list \<Rightarrow> u8 list" where
  "tn_after_sub (x # y # zs) = (if x \<noteq> 255 then tn_after_sub (y # zs) else if y = 240 then zs else tn_after_sub zs)"
| "tn_after_sub _ = []"

lemma length_after_sub: "length (tn_after_sub xs) \<le> length xs"
  by (induction xs rule: tn_after_sub.induct) (auto simp: le_SucI)

function tn_read :: "u8 list \<Rightarrow> tn_element list" where
  "tn_read [] = []"
| "tn_read (b # xs) =
     (if b = 13 then Text 13 # tn_read (if take 1 xs = [0] then drop 1 xs else xs)
      else if b \<noteq> 255 then Text b # tn_read xs
      else case xs of
        [] \<Rightarrow> []
      | c # ys \<Rightarrow>
          if c = 255 then Text 255 # tn_read ys
          else if c = 250 then tn_read (tn_after_sub ys)
          else if c = 251 \<or> c = 252 \<or> c = 253 \<or> c = 254 then
            (case ys of [] \<Rightarrow> [] | opt # zs \<Rightarrow> Negotiation c opt # tn_read zs)
          else tn_read ys)"
  by pat_completeness auto
termination
  by (relation "measure length") (auto simp: le_imp_less_Suc length_after_sub le_SucI)

text \<open>The clean text, and the answers of the policy: only the first request for an option is answered.\<close>

fun tn_texts :: "tn_element list \<Rightarrow> u8 list" where
  "tn_texts [] = []"
| "tn_texts (Text b # es) = b # tn_texts es"
| "tn_texts (Negotiation c opt # es) = tn_texts es"

definition tn_policy :: "u8 \<Rightarrow> u8 \<Rightarrow> u8 list" where
  "tn_policy c opt =
     (if c = 251 then if opt = 1 \<or> opt = 3 then [255, 253, opt] else [255, 254, opt]
      else if c = 253 then [255, 252, opt] else [])"

fun tn_answers :: "u8 set \<Rightarrow> tn_element list \<Rightarrow> u8 list" where
  "tn_answers known [] = []"
| "tn_answers known (Text b # es) = tn_answers known es"
| "tn_answers known (Negotiation c opt # es) =
     (if opt \<in> known \<or> tn_policy c opt = [] then tn_answers known es
      else tn_policy c opt @ tn_answers (insert opt known) es)"

lemma answers_bound: "length (tn_answers known es) \<le> 3 * card (- known)"
proof (induction es arbitrary: known)
  case (Cons x es)
  show ?case
  proof (cases x)
    case (Negotiation c opt)
    have "card (- insert opt known) < card (- known)" if "opt \<notin> known"
      using that by (intro psubset_card_mono) auto
    moreover have "length (tn_policy c opt) \<le> 3" by (simp add: tn_policy_def)
    ultimately show ?thesis using Cons [of known] Cons [of "insert opt known"] Negotiation by fastforce
  qed (use Cons in simp)
qed simp

section \<open>Sessions\<close>

text \<open>The stream from the server comes in chunks; the context is kept between them.\<close>

fun telnet_chunks :: "nat \<Rightarrow> nat \<Rightarrow> telnet_ctx \<Rightarrow> u8 list list \<Rightarrow> telnet_run" where
  "telnet_chunks oc rc ctx [] = \<lparr>tr_ctx = ctx, tr_out = [], tr_rep = []\<rparr>"
| "telnet_chunks oc rc ctx (c # cs) =
     (let r = telnet_filter ctx c oc rc; t = telnet_chunks oc rc (tr_ctx r) cs in
      t\<lparr>tr_out := tr_out r @ tr_out t, tr_rep := tr_rep r @ tr_rep t\<rparr>)"

text \<open>
  A reply takes three bytes of input, but for the first, which may have begun in the chunk before.
\<close>

definition tn_begun :: "telnet_state \<Rightarrow> nat" where
  "tn_begun st = (case st of S_IAC \<Rightarrow> 1 | S_OPT \<Rightarrow> 2 | _ \<Rightarrow> 0)"

lemma reply_length: "length (tr_rep (tn_reply rc c b r)) \<le> Suc (Suc (Suc (length (tr_rep r))))"
  by (simp add: tn_reply_def Let_def emit_def)

lemma byte_begun:
  "length (tr_rep (telnet_byte oc rc b r)) + tn_begun (tn_state (tr_ctx (telnet_byte oc rc b r))) \<le>
     Suc (length (tr_rep r) + tn_begun (tn_state (tr_ctx r)))"
  by (cases "tn_state (tr_ctx r)") (simp_all add: telnet_byte_def tn_begun_def reply_length)

text \<open>What the rest of the stream means to a filter that is in the middle of an element.\<close>

definition tn_rest :: "telnet_ctx \<Rightarrow> u8 list \<Rightarrow> tn_element list" where
  "tn_rest ctx xs = (case tn_state ctx of
       S_DATA \<Rightarrow> tn_read xs
     | S_CR \<Rightarrow> tn_read (if take 1 xs = [0] then drop 1 xs else xs)
     | S_IAC \<Rightarrow> tn_read (255 # xs)
     | S_OPT \<Rightarrow> tn_read (255 # tn_cmd ctx # xs)
     | S_SB \<Rightarrow> tn_read (tn_after_sub xs)
     | S_SB_IAC \<Rightarrow> tn_read (tn_after_sub (255 # xs)))"

definition tn_wf :: "telnet_ctx \<Rightarrow> bool" where
  "tn_wf ctx \<longleftrightarrow> length (tn_seen ctx) = 32 \<and> (tn_state ctx = S_OPT \<longrightarrow> tn_cmd ctx \<in> {251, 252, 253, 254})"

definition tn_known :: "telnet_ctx \<Rightarrow> u8 set" where
  "tn_known ctx = {opt. tn_answered ctx opt}"

text \<open>A filter agrees with the protocol on the bytes it has taken when what it added, followed by the meaning of the rest, is the meaning of all.\<close>

definition tn_agrees :: "telnet_run \<Rightarrow> u8 list \<Rightarrow> telnet_run \<Rightarrow> u8 list \<Rightarrow> bool" where
  "tn_agrees r xs r' ys \<longleftrightarrow> tn_wf (tr_ctx r') \<and> (\<exists>ts answers. tr_out r' = tr_out r @ ts \<and> tr_rep r' = tr_rep r @ answers \<and>
     tn_texts (tn_rest (tr_ctx r) (xs @ ys)) = ts @ tn_texts (tn_rest (tr_ctx r') ys) \<and>
     tn_answers (tn_known (tr_ctx r)) (tn_rest (tr_ctx r) (xs @ ys)) = answers @ tn_answers (tn_known (tr_ctx r')) (tn_rest (tr_ctx r') ys))"

lemma agrees_trans: "tn_agrees r xs r' (ys @ zs) \<Longrightarrow> tn_agrees r' ys r'' zs \<Longrightarrow> tn_agrees r (xs @ ys) r'' zs"
  unfolding tn_agrees_def by (metis append.assoc)

text \<open>A byte that asks for no answer.\<close>

lemma agrees_text:
  assumes "tn_wf (tr_ctx r)" "tr_rep r' = tr_rep r" "tn_seen (tr_ctx r') = tn_seen (tr_ctx r)" "tr_out r' = tr_out r @ ts"
    and "tn_state (tr_ctx r') = S_OPT \<longrightarrow> tn_cmd (tr_ctx r') \<in> {251, 252, 253, 254}"
    and "tn_rest (tr_ctx r) (xs @ ys) = map Text ts @ tn_rest (tr_ctx r') ys"
  shows "tn_agrees r xs r' ys"
proof -
  have t: "tn_texts (map Text ts @ es) = ts @ tn_texts es" "tn_answers k (map Text ts @ es) = tn_answers k es" for k es
    by (induction ts) simp_all
  have "tn_known (tr_ctx r') = tn_known (tr_ctx r)" using assms(3) by (simp add: tn_known_def tn_answered_def)
  then show ?thesis using assms unfolding tn_agrees_def tn_wf_def by (simp add: t)
qed

text \<open>The option byte of a negotiation.\<close>

lemma agrees_option:
  assumes "tn_wf (tr_ctx r)" "tn_state (tr_ctx r) = S_OPT" "length (tr_rep r) + 3 \<le> rc"
  shows "tn_agrees r [b] (telnet_byte oc rc b r) ys"
proof -
  let ?c = "tn_cmd (tr_ctx r)" and ?r = "telnet_byte oc rc b r"
  have w: "length (tn_seen (tr_ctx r)) = 32" "?c \<in> {251, 252, 253, 254}" using assms(1,2) by (simp_all add: tn_wf_def)
  have rest: "tn_rest (tr_ctx r) ([b] @ ys) = Negotiation ?c b # tn_read ys" "tn_rest (tr_ctx ?r) ys = tn_read ys"
    using assms(2) w(2) by (auto simp: tn_rest_def telnet_byte_def tn_goto_def)
  consider (quiet) "?c \<noteq> 251" "?c \<noteq> 253" | (asks) "?c = 251 \<or> ?c = 253" by blast
  then show ?thesis
  proof cases
    case quiet
    then have "?r = tn_goto S_DATA r" using assms(2) by (simp add: telnet_byte_def tn_codes)
    then show ?thesis using quiet rest w by (simp add: tn_agrees_def tn_wf_def tn_known_def tn_answered_def tn_policy_def)
  next
    case asks
    define a where "a = (if ?c = 251 then if b = 1 \<or> b = 3 then 253 else 254 else 252 :: u8)"
    have r: "?r = tn_goto S_DATA (tn_reply rc a b r)" using asks assms(2) by (auto simp: telnet_byte_def tn_codes a_def)
    have p: "tn_policy ?c b = [255, a, b]" using asks by (auto simp: tn_policy_def a_def)
    note q = reply_eq [OF w(1) assms(3), of a b]
    have "tn_known (tr_ctx ?r) = insert b (tn_known (tr_ctx r))"
      using q(2) by (auto simp: r tn_known_def tn_answered_def)
    moreover have "tr_rep ?r = tr_rep r @ (if b \<in> tn_known (tr_ctx r) then [] else [255, a, b])"
      using q(1) by (simp add: r tn_known_def TN_IAC_def)
    moreover have "tr_out ?r = tr_out r" "tn_wf (tr_ctx ?r)" using w(1) by (simp_all add: r tn_wf_def tn_reply_def Let_def)
    moreover have "b \<in> tn_known (tr_ctx r) \<Longrightarrow> insert b (tn_known (tr_ctx r)) = tn_known (tr_ctx r)" by blast
    ultimately show ?thesis using rest p by (auto simp: tn_agrees_def)
  qed
qed

lemma sub_step: "tn_after_sub (b # ys) = (if b = 255 then tn_after_sub (255 # ys) else tn_after_sub ys)"
  by (cases ys) simp_all

lemma agrees_byte:
  assumes "tn_wf (tr_ctx r)" "length (tr_out r) < oc" "length (tr_rep r) + tn_begun (tn_state (tr_ctx r)) < rc"
  shows "tn_agrees r [b] (telnet_byte oc rc b r) ys"
proof (cases "tn_state (tr_ctx r)")
  case S_OPT
  then show ?thesis using assms by (intro agrees_option) (simp_all add: tn_begun_def)
next
  case S_DATA
  consider "b = 255" | "b = 13" | "b \<noteq> 255" "b \<noteq> 13" by blast
  then show ?thesis
    by cases (use S_DATA assms in \<open>auto simp: telnet_byte_def tn_codes emit_def tn_rest_def intro!: agrees_text\<close>)
next
  case S_CR
  consider "b = 0" | "b = 255" | "b = 13" | "b \<noteq> 0" "b \<noteq> 255" "b \<noteq> 13" by blast
  then show ?thesis
    by cases (use S_CR assms in \<open>auto simp: telnet_byte_def tn_codes emit_def tn_rest_def intro!: agrees_text\<close>)
next
  case S_IAC
  consider "b = 255" | "b = 250" | "b \<in> {251, 252, 253, 254}" | "b \<notin> {250, 251, 252, 253, 254, 255}" by blast
  then show ?thesis
    by cases (use S_IAC assms in \<open>auto simp: telnet_byte_def tn_codes emit_def tn_rest_def intro!: agrees_text\<close>)
next
  case S_SB
  then show ?thesis
    using assms sub_step [of b ys] by (auto simp: telnet_byte_def tn_codes tn_rest_def intro!: agrees_text)
next
  case S_SB_IAC
  then show ?thesis
    using assms by (auto simp: telnet_byte_def tn_codes tn_rest_def intro!: agrees_text)
qed

lemma byte_out: "length (tr_out (telnet_byte oc rc b r)) \<le> Suc (length (tr_out r))"
  by (cases "tn_state (tr_ctx r)") (simp_all add: telnet_byte_def emit_def)

lemma agrees_run:
  assumes "tn_wf (tr_ctx r)" "length (tr_out r) + length xs \<le> oc" "length (tr_rep r) + tn_begun (tn_state (tr_ctx r)) + length xs \<le> rc"
  shows "tn_agrees r xs (fold (telnet_byte oc rc) xs r) ys"
  using assms
proof (induction xs arbitrary: r)
  case Nil
  then show ?case by (intro agrees_text [where ts = "[]"]) (simp_all add: tn_wf_def)
next
  case (Cons b bs)
  let ?r = "telnet_byte oc rc b r"
  have b: "tn_agrees r [b] ?r (bs @ ys)" using Cons.prems by (intro agrees_byte) simp_all
  then have "tn_agrees ?r bs (fold (telnet_byte oc rc) bs ?r) ys"
    using Cons.prems byte_out [of oc rc b r] byte_begun [of oc rc b r] by (intro Cons.IH) (simp_all add: tn_agrees_def)
  with b show ?case using agrees_trans [of r "[b]" ?r bs ys] by simp
qed

lemma begun_le: "tn_begun st \<le> 2"
  by (simp add: tn_begun_def split: telnet_state.split)

lemma agrees_chunks:
  assumes "tn_wf ctx" "\<forall>c \<in> set cs. length c \<le> oc \<and> length c + 2 \<le> rc"
  shows "tr_out (telnet_chunks oc rc ctx cs) = tn_texts (tn_rest ctx (concat cs)) \<and>
    tr_rep (telnet_chunks oc rc ctx cs) = tn_answers (tn_known ctx) (tn_rest ctx (concat cs))"
  using assms
proof (induction cs arbitrary: ctx)
  case Nil
  then show ?case by (auto simp: tn_rest_def tn_wf_def split: telnet_state.split)
next
  case (Cons c cs)
  let ?r = "telnet_filter ctx c oc rc"
  have "tn_agrees \<lparr>tr_ctx = ctx, tr_out = [], tr_rep = []\<rparr> c ?r (concat cs)"
    unfolding telnet_filter_def using Cons.prems begun_le [of "tn_state ctx"] by (intro agrees_run) auto
  then show ?case using Cons.IH [of "tr_ctx ?r"] Cons.prems(2) by (auto simp: tn_agrees_def Let_def)
qed

lemma reset_wf: "tn_wf telnet_reset" "tn_known telnet_reset = {}" "tn_rest telnet_reset xs = tn_read xs"
  using opt_index(3) by (auto simp: tn_wf_def tn_known_def tn_answered_def tn_rest_def telnet_reset_def)

text \<open>C23. The TELNET filter with its state kept across segments reads the stream as the protocol
  defines it, however the stream is cut into segments whose buffers are large enough: what comes
  out is the text of an independent reader of the whole stream, which takes it apart into text,
  escaped IACs, negotiations, subnegotiations and other commands; the answers are those of a
  fixed policy (WILL ECHO and WILL SGA accepted, any other WILL and every DO refused, WONT and
  DONT unanswered), at most one for each option, at most 768 bytes in a session, so two peers
  cannot loop.\<close>

theorem telnet_session:
  assumes "\<forall>c \<in> set cs. length c \<le> oc \<and> length c + 2 \<le> rc" "r = telnet_chunks oc rc telnet_reset cs"
  shows "tr_out r = tn_texts (tn_read (concat cs)) \<and> tr_rep r = tn_answers {} (tn_read (concat cs)) \<and> length (tr_rep r) \<le> 3 * 256"
proof -
  have "length (tn_answers {} es) \<le> 3 * 256" for es
    using answers_bound [of "{}" es] by (simp add: card_word)
  then show ?thesis using agrees_chunks [OF reset_wf(1) assms(1)] by (simp add: assms(2) reset_wf)
qed

section \<open>Round trip\<close>

definition tn_esc :: "u8 \<Rightarrow> u8 list" where
  "tn_esc b = (if b = TN_IAC then [TN_IAC, TN_IAC] else [b])"

lemma escape_loop_form:
  assumes "escape_loop cap xs out i = (e, k)" "length out \<le> cap"
  shows "\<exists>n \<le> length xs. k = i + n \<and> e = out @ concat (map tn_esc (take n xs)) \<and> length e \<le> cap \<and>
     (n < length xs \<longrightarrow> cap < length e + length (tn_esc (xs ! n)))"
  using assms
proof (induction xs arbitrary: out i)
  case (Cons b bs)
  show ?case
  proof (cases "cap < length out + length (tn_esc b)")
    case True
    then have "e = out" "k = i" using Cons.prems(1) by (auto simp: tn_esc_def split: if_splits)
    then show ?thesis using True Cons.prems(2) by (intro exI [of _ 0]) simp
  next
    case False
    then have "escape_loop cap bs (out @ tn_esc b) (i + 1) = (e, k)" using Cons.prems(1) by (auto simp: tn_esc_def split: if_splits)
    moreover have "length (out @ tn_esc b) \<le> cap" using False by simp
    ultimately obtain n where "n \<le> length bs" "k = i + 1 + n" "e = (out @ tn_esc b) @ concat (map tn_esc (take n bs))" "length e \<le> cap"
        "n < length bs \<longrightarrow> cap < length e + length (tn_esc (bs ! n))"
      using Cons.IH by blast
    then show ?thesis by (intro exI [of _ "Suc n"]) simp
  qed
qed simp

text \<open>What the filter makes of plain data: a NUL behind a CR is dropped.\<close>

fun cr_text :: "bool \<Rightarrow> u8 list \<Rightarrow> u8 list" where
  "cr_text c [] = []"
| "cr_text c (b # bs) = (if c \<and> b = 0 then cr_text False bs else b # cr_text (b = 0x0D) bs)"

lemma read_escaped:
  "tn_read (concat (map tn_esc xs)) = map Text (cr_text False xs) \<and>
   tn_read (let es = concat (map tn_esc xs) in if take 1 es = [0] then drop 1 es else es) = map Text (cr_text True xs)"
proof (induction xs)
  case (Cons b bs)
  consider "b = 255" | "b = 13" | "b = 0" | "b \<noteq> 255" "b \<noteq> 13" "b \<noteq> 0" by blast
  then show ?case by cases (use Cons in \<open>simp_all add: tn_esc_def TN_IAC_def Let_def\<close>)
qed simp

lemma cr_text_plain: "successively (\<lambda>a b. \<not> (a = 0x0D \<and> b = 0)) xs \<Longrightarrow> cr_text False xs = xs"
proof (induction xs)
  case (Cons b bs)
  then have "cr_text False bs = bs" by (cases "bs = []") (auto simp: successively_Cons)
  moreover have "b = 0x0D \<Longrightarrow> cr_text True bs = cr_text False bs"
    using Cons.prems by (cases bs) (auto simp: successively_Cons)
  ultimately show ?case by (cases "b = 0x0D") auto
qed simp

text \<open>C37. What is escaped for a TELNET peer is read back by the filter: the bytes reported as
  consumed come out unchanged but for the NUL of each CR NUL, which the filter drops, and cause
  no answer; the escaped text fits the space given, and with two bytes of space progress is made.\<close>

theorem telnet_escape_filter:
  assumes "telnet_escape xs cap = (e, n)" "length e \<le> oc" "length e + 2 \<le> rc" "r = telnet_filter telnet_reset e oc rc"
  shows "tr_out r = cr_text False (take n xs) \<and> (successively (\<lambda>a b. \<not> (a = 0x0D \<and> b = 0)) xs \<longrightarrow> tr_out r = take n xs) \<and>
    tr_rep r = [] \<and> n \<le> length xs \<and> length e \<le> cap \<and> (xs \<noteq> [] \<and> 2 \<le> cap \<longrightarrow> 0 < n)"
proof -
  have e: "n \<le> length xs" "e = concat (map tn_esc (take n xs))" "length e \<le> cap" "n < length xs \<longrightarrow> cap < length e + length (tn_esc (xs ! n))"
    using escape_loop_form [of cap xs "[]" 0 e n] assms(1) by (auto simp: telnet_escape_def)
  have plain: "tn_texts (map Text ts) = ts" "tn_answers k (map Text ts) = []" for ts k by (induction ts) simp_all
  have "telnet_chunks oc rc telnet_reset [e] = r" by (simp add: assms(4) Let_def)
  then have "tr_out r = cr_text False (take n xs)" "tr_rep r = []"
    using agrees_chunks [of telnet_reset "[e]" oc rc] assms(2,3) read_escaped [of "take n xs"] by (simp_all add: reset_wf e(2) plain)
  moreover have "cr_text False (take n xs) = take n xs" if "successively (\<lambda>a b. \<not> (a = 0x0D \<and> b = 0)) xs"
    using that by (intro cr_text_plain) (metis append_take_drop_id successively_append_iff)
  moreover have "0 < n" if "xs \<noteq> []" "2 \<le> cap"
  proof (rule ccontr)
    assume "\<not> 0 < n"
    then have "cap < length (tn_esc (xs ! n))" using e that by simp
    moreover have "length (tn_esc (xs ! n)) \<le> 2" by (simp add: tn_esc_def)
    ultimately show False using that by simp
  qed
  ultimately show ?thesis using e(1,3) by simp
qed

end
