(* ===== verification/NetUrl.thy ===== *)
theory NetUrl
  imports AunConfig FatService
begin

text \<open>
  The URLs of the network service (\<open>net_service.c\<close>): the scheme selects an adapter and a default port, host
  and path are copied into buffers of fixed size, and control characters are refused.
\<close>

section \<open>Operations\<close>

definition NET_URL_TCP :: u8 where "NET_URL_TCP = 0"
definition NET_URL_UDP :: u8 where "NET_URL_UDP = 1"
definition NET_URL_HTTP :: u8 where "NET_URL_HTTP = 2"
definition NET_URL_TNFS :: u8 where "NET_URL_TNFS = 3"
definition NET_URL_TELNET :: u8 where "NET_URL_TELNET = 4"
definition TNFS_PORT :: nat where "TNFS_PORT = 16384"
definition TELNET_PORT :: nat where "TELNET_PORT = 23"

fun net_ci_eq :: "string \<Rightarrow> string \<Rightarrow> bool" where
  "net_ci_eq [] lit = (lit = [])"
| "net_ci_eq (c # cs) [] = False"
| "net_ci_eq (c # cs) (l # ls) = (upper c = l \<and> net_ci_eq cs ls)"

fun dotted_loop :: "string \<Rightarrow> nat list \<Rightarrow> nat \<Rightarrow> nat \<Rightarrow> nat list option" where
  "dotted_loop [] octs v digits =
     (if digits = 0 \<or> 4 \<le> length octs then None
      else if length (octs @ [v]) \<noteq> 4 then None else Some (octs @ [v]))"
| "dotted_loop (c # cs) octs v digits =
     (if is_digit c
      then let v = v * 10 + digit_val c in if 255 < v \<or> 3 < digits + 1 then None else dotted_loop cs octs v (digits + 1)
      else if c = CHR ''.''
      then if digits = 0 \<or> 4 \<le> length octs then None else dotted_loop cs (octs @ [v]) 0 0
      else None)"

text \<open>An address is a word in network byte order, the first octet in the low byte.\<close>

definition net_parse_dotted :: "string \<Rightarrow> u32 option" where
  "net_parse_dotted s = map_option (\<lambda>o4. le32 (of_nat (o4 ! 0)) (of_nat (o4 ! 1)) (of_nat (o4 ! 2)) (of_nat (o4 ! 3)))
     (dotted_loop s [] 0 0)"

fun url_split :: "string \<Rightarrow> (string \<times> string) option" where
  "url_split s =
     (if take 3 s = ''://'' then Some ([], drop 3 s)
      else case s of [] \<Rightarrow> None | c # cs \<Rightarrow> map_option (\<lambda>(a, b). (c # a, b)) (url_split cs))"

declare url_split.simps [simp del]

definition url_scheme :: "string \<Rightarrow> (u8 \<times> nat) option" where
  "url_scheme s =
     (if net_ci_eq s ''HTTP'' then Some (NET_URL_HTTP, 80)
      else if net_ci_eq s ''TCP'' then Some (NET_URL_TCP, 0)
      else if net_ci_eq s ''UDP'' then Some (NET_URL_UDP, 0)
      else if net_ci_eq s ''TNFS'' then Some (NET_URL_TNFS, TNFS_PORT)
      else if net_ci_eq s ''TELNET'' then Some (NET_URL_TELNET, TELNET_PORT)
      else None)"

definition is_control :: "char \<Rightarrow> bool" where
  "is_control c \<longleftrightarrow> (of_char c :: nat) < 0x20 \<or> (of_char c :: nat) = 0x7F"

fun url_port :: "string \<Rightarrow> nat \<Rightarrow> (nat \<times> string) option" where
  "url_port [] port = Some (port, [])"
| "url_port (c # cs) port =
     (if is_digit c then let port = port * 10 + digit_val c in if 65535 < port then None else url_port cs port
      else Some (port, c # cs))"

definition url_path :: "nat \<Rightarrow> string \<Rightarrow> string option" where
  "url_path path_sz e =
     (case e of
        [] \<Rightarrow> if path_sz < 2 then None else Some ''/''
      | c # cs \<Rightarrow> if c = CHR ''/'' then if path_sz \<le> length e then None else if list_ex is_control e then None else Some e
                 else None)"

text \<open>The port behind the host, or the default.\<close>

definition url_host_port :: "nat \<Rightarrow> string \<Rightarrow> (nat \<times> string) option" where
  "url_host_port port e =
     (if e \<noteq> [] \<and> hd e = CHR '':''
      then case url_port (tl e) 0 of None \<Rightarrow> None | Some (p, e) \<Rightarrow> if p = 0 then None else Some (p, e)
      else Some (port, e))"

text \<open>The adapter, the port, the host and the path.\<close>

definition net_url_parse :: "string \<Rightarrow> nat \<Rightarrow> nat \<Rightarrow> (u8 \<times> u16 \<times> string \<times> string) option" where
  "net_url_parse url host_sz path_sz =
     (case url_split url of None \<Rightarrow> None
      | Some (scheme, rest) \<Rightarrow>
        (case url_scheme scheme of None \<Rightarrow> None
         | Some (adapter, port) \<Rightarrow>
           (let host = takeWhile (\<lambda>c. c \<noteq> CHR '':'' \<and> c \<noteq> CHR ''/'') rest; e = drop (length host) rest in
            if host = [] \<or> host_sz \<le> length host then None
            else if list_ex is_control host then None
            else case url_host_port port e of
                None \<Rightarrow> None
              | Some (port, e) \<Rightarrow>
                  if port = 0 then None
                  else map_option (\<lambda>path. (adapter, of_nat port, host, path)) (url_path path_sz e))))"

section \<open>Round trips\<close>

lemma dotted_digits:
  assumes "v * 10 ^ length (dec n) + n \<le> 255" "digits + length (dec n) \<le> 3"
  shows "dotted_loop (dec n @ r) octs v digits = dotted_loop r octs (v * 10 ^ length (dec n) + n) (digits + length (dec n))"
  using assms
proof (induction n arbitrary: r v digits rule: dec.induct)
  case (1 n)
  show ?case
  proof (cases "n < 10")
    case True
    with 1(2,3) digit_char [of n] show ?thesis by (simp add: dec.simps [of n] Let_def)
  next
    case False
    have d: "dec n = dec (n div 10) @ [char_of (n mod 10 + 48)]" using False by (simp add: dec.simps [of n])
    let ?w = "v * 10 ^ length (dec (n div 10)) + n div 10"
    have w: "?w * 10 + n mod 10 = v * 10 ^ length (dec n) + n" using d by (simp add: algebra_simps)
    have "?w \<le> 255" "digits + length (dec (n div 10)) \<le> 3" using 1(2,3) w d by auto
    then have "dotted_loop (dec n @ r) octs v digits =
        dotted_loop (char_of (n mod 10 + 48) # r) octs ?w (digits + length (dec (n div 10)))"
      using 1(1) [OF False, of v digits "char_of (n mod 10 + 48) # r"] d by simp
    also have "\<dots> = dotted_loop r octs (?w * 10 + n mod 10) (Suc (digits + length (dec (n div 10))))"
      using 1(2,3) w d digit_char [of "n mod 10"] by (simp only: dotted_loop.simps Let_def) (simp add: ac_simps)
    finally show ?thesis unfolding w using d by simp
  qed
qed

lemma length_dec: "n \<le> 255 \<Longrightarrow> length (dec n) \<le> 3"
  by (simp add: dec.simps [of n] dec.simps [of "n div 10"] dec.simps [of "n div 10 div 10"])

lemma dotted_octet:
  assumes "n \<le> 255" "length octs < 4"
  shows "dotted_loop (dec n @ CHR ''.'' # r) octs 0 0 = dotted_loop r (octs @ [n]) 0 0"
    and "dotted_loop (dec n) octs 0 0 = (if length octs = 3 then Some (octs @ [n]) else None)"
proof -
  have "\<not> is_digit (CHR ''.'')" by (simp add: is_digit_def)
  then show "dotted_loop (dec n @ CHR ''.'' # r) octs 0 0 = dotted_loop r (octs @ [n]) 0 0"
    using dotted_digits [of 0 n 0 "CHR ''.'' # r" octs] length_dec [OF assms(1)] assms by simp
  show "dotted_loop (dec n) octs 0 0 = (if length octs = 3 then Some (octs @ [n]) else None)"
    using dotted_digits [of 0 n 0 "[]" octs] length_dec [OF assms(1)] assms by simp
qed

lemma le32_octets: "le32 (of_nat (octet ip 0)) (of_nat (octet ip 1)) (of_nat (octet ip 2)) (of_nat (octet ip 3)) = ip"
proof -
  have "ucast (of_nat (octet ip k) :: u8) = (of_nat (octet ip k) :: u32)" for k
    by (rule word_unat_eq_iff [THEN iffD2]) (use octet_less [of ip k] in \<open>simp add: unat_of_nat\<close>)
  then show ?thesis unfolding le32_def by (simp only: octets_join)
qed

lemma parse_dotted_text: "net_parse_dotted (ip_text ip) = Some ip"
  using octet_less [of ip] le32_octets [of ip] by (simp add: net_parse_dotted_def ip_text_def dotted_octet)

lemma url_split_at:
  assumes "CHR '':'' \<notin> set scheme"
  shows "url_split (scheme @ ''://'' @ rest) = Some (scheme, rest)"
  using assms
proof (induction scheme)
  case (Cons c cs)
  then have "take 3 ((c # cs) @ ''://'' @ rest) \<noteq> ''://''" by (auto simp: numeral_3_eq_3)
  with Cons show ?case by (subst url_split.simps) simp
qed (subst url_split.simps, simp)

lemma ci_eq_upper: "net_ci_eq s lit \<longleftrightarrow> map upper s = lit"
  by (induction s lit rule: net_ci_eq.induct) auto

lemma scheme_letters: "url_scheme s = Some x \<Longrightarrow> CHR '':'' \<notin> set s"
proof
  assume u: "url_scheme s = Some x" and c: "CHR '':'' \<in> set s"
  have "upper (CHR '':'') = CHR '':''" by (simp add: upper_def Let_def)
  then have "CHR '':'' \<in> set (map upper s)" using c by (metis image_eqI list.set_map)
  then show False using u by (auto simp: url_scheme_def ci_eq_upper split: if_splits)
qed

lemma port_digits:
  assumes "v * 10 ^ length (dec n) + n \<le> 65535"
  shows "url_port (dec n @ r) v = url_port r (v * 10 ^ length (dec n) + n)"
  using assms
proof (induction n arbitrary: r v rule: dec.induct)
  case (1 n)
  show ?case
  proof (cases "n < 10")
    case True
    with 1(2) digit_char [of n] show ?thesis by (simp add: dec.simps [of n] Let_def)
  next
    case False
    have d: "dec n = dec (n div 10) @ [char_of (n mod 10 + 48)]" using False by (simp add: dec.simps [of n])
    let ?w = "v * 10 ^ length (dec (n div 10)) + n div 10"
    have w: "?w * 10 + n mod 10 = v * 10 ^ length (dec n) + n" using d by (simp add: algebra_simps)
    have "a \<le> a * 10 + m" for a m :: nat by simp
    from this [of ?w "n mod 10", unfolded w] 1(2) have "?w \<le> 65535" by (rule order_trans)
    then have "url_port (dec n @ r) v = url_port (char_of (n mod 10 + 48) # r) ?w"
      using 1(1) [OF False, of v "char_of (n mod 10 + 48) # r"] d by simp
    also have "\<dots> = url_port r (?w * 10 + n mod 10)"
      using 1(2) w digit_char [of "n mod 10"] by (simp only: url_port.simps Let_def) simp
    finally show ?thesis unfolding w .
  qed
qed

text \<open>The text of a URL.\<close>

definition url_text :: "string \<Rightarrow> string \<Rightarrow> u16 option \<Rightarrow> string \<Rightarrow> string" where
  "url_text scheme host port path =
     scheme @ ''://'' @ host @ (case port of None \<Rightarrow> [] | Some p \<Rightarrow> CHR '':'' # dec (unat p)) @ path"

definition host_ok :: "nat \<Rightarrow> string \<Rightarrow> bool" where
  "host_ok sz host \<longleftrightarrow> host \<noteq> [] \<and> length host < sz \<and> (\<forall>c \<in> set host. c \<noteq> CHR '':'' \<and> c \<noteq> CHR ''/'' \<and> \<not> is_control c)"

definition path_ok :: "nat \<Rightarrow> string \<Rightarrow> bool" where
  "path_ok sz path \<longleftrightarrow> path \<noteq> [] \<and> hd path = CHR ''/'' \<and> length path < sz \<and> (\<forall>c \<in> set path. \<not> is_control c)"

lemma slash_not_control: "\<not> is_control (CHR ''/'')" by (simp add: is_control_def)

lemma url_path_ok: "path_ok sz path \<Longrightarrow> url_path sz path = Some path"
  by (cases path) (auto simp: path_ok_def url_path_def list_ex_iff)

lemma url_path_sound: "url_path sz e = Some path \<Longrightarrow> path_ok sz path"
  by (auto simp: url_path_def path_ok_def list_ex_iff slash_not_control split: list.splits if_splits)

text \<open>The schemes with their adapters and default ports, and the characters a host or a path may have.\<close>

definition url_schemes :: "(string \<times> u8 \<times> u16 option) set" where
  "url_schemes = {(''HTTP'', 2, Some 80), (''TCP'', 0, None), (''UDP'', 1, None), (''TNFS'', 3, Some 16384), (''TELNET'', 4, Some 23)}"

definition url_chars :: "string \<Rightarrow> bool" where
  "url_chars s \<longleftrightarrow> (\<forall>c \<in> set s. 32 \<le> (of_char c :: nat) \<and> of_char c \<noteq> (127 :: nat))"

lemma chars_control: "url_chars s \<longleftrightarrow> \<not> list_ex is_control s"
  by (auto simp: url_chars_def is_control_def list_ex_iff)

lemma scheme_table:
  assumes "(map upper scheme, adapter, dflt) \<in> url_schemes"
  obtains d where "url_scheme scheme = Some (adapter, d)" "d = (case dflt of None \<Rightarrow> 0 | Some p \<Rightarrow> unat p)"
  using assms by (auto simp: url_schemes_def url_scheme_def ci_eq_upper NET_URL_TCP_def NET_URL_UDP_def NET_URL_HTTP_def
    NET_URL_TNFS_def NET_URL_TELNET_def TNFS_PORT_def TELNET_PORT_def)

lemma scheme_default: "(s, adapter, dflt) \<in> url_schemes \<Longrightarrow> dflt \<noteq> Some 0"
  by (auto simp: url_schemes_def)

lemma host_port_text:
  fixes port :: "u16 option"
  assumes "path = [] \<or> hd path = CHR ''/''"
  shows "url_host_port d ((case port of None \<Rightarrow> [] | Some p \<Rightarrow> CHR '':'' # dec (unat p)) @ path) =
    (case port of None \<Rightarrow> Some (d, path) | Some p \<Rightarrow> if p = 0 then None else Some (unat p, path))"
proof (cases port)
  case (Some p)
  have "url_port path n = Some (n, path)" for n using assms by (cases path) (simp_all add: is_digit_def)
  then have "url_port (dec (unat p) @ path) 0 = Some (unat p, path)"
    using port_digits [of 0 "unat p" path] unat_u16_less [of p] by simp
  then show ?thesis using Some by (simp add: url_host_port_def unat_eq_zero)
qed (use assms in \<open>auto simp: url_host_port_def\<close>)

lemma url_path_text:
  assumes "path = [] \<or> hd path = CHR ''/''" "full = (if path = [] then ''/'' else path)"
  shows "url_path sz path = (if length full < sz \<and> url_chars full then Some full else None)"
proof (cases path)
  case Nil
  then show ?thesis using assms(2) by (auto simp: url_path_def url_chars_def)
next
  case (Cons c cs)
  then show ?thesis using assms by (auto simp: url_path_def chars_control)
qed

text \<open>C38. A URL made of a scheme of the table (TCP and UDP without a default port, HTTP with 80,
  TNFS with 16384, TELNET with 23, in any case), a host, an optional port and an optional path is
  parsed into exactly these parts, with the scheme's default port when none is given and / for an
  empty path, provided there is a port, it is not 0, host and path fit their buffers and contain
  no control character; in every other case it is refused.\<close>

theorem net_url_roundtrip:
  assumes "(map upper scheme, adapter, default_port) \<in> url_schemes"
    and "host \<noteq> []" "CHR '':'' \<notin> set host" "CHR ''/'' \<notin> set host" "path = [] \<or> hd path = CHR ''/''"
    and "full = (if path = [] then ''/'' else path)"
  shows "net_url_parse (url_text scheme host port path) host_sz path_sz =
    (case (if port = None then default_port else port) of
       None \<Rightarrow> None
     | Some p \<Rightarrow> if p \<noteq> 0 \<and> length host < host_sz \<and> url_chars host \<and> length full < path_sz \<and> url_chars full
                 then Some (adapter, p, host, full) else None)"
proof -
  obtain d where d: "url_scheme scheme = Some (adapter, d)" "d = (case default_port of None \<Rightarrow> 0 | Some p \<Rightarrow> unat p)"
    using scheme_table [OF assms(1)] by blast
  define e where "e = (case port of None \<Rightarrow> [] | Some p \<Rightarrow> CHR '':'' # dec (unat p)) @ path"
  have sp: "url_split (url_text scheme host port path) = Some (scheme, host @ e)"
    unfolding url_text_def e_def by (rule url_split_at) (rule scheme_letters [OF d(1)])
  have h: "takeWhile (\<lambda>c. c \<noteq> CHR '':'' \<and> c \<noteq> CHR ''/'') (host @ e) = host"
    using assms(3-5) by (cases path; cases port) (auto simp: e_def takeWhile_append)
  have hp: "url_host_port d e = (case port of None \<Rightarrow> Some (d, path) | Some p \<Rightarrow> if p = 0 then None else Some (unat p, path))"
    unfolding e_def by (rule host_port_text [OF assms(5)])
  have r: "net_url_parse (url_text scheme host port path) host_sz path_sz =
      (if host_sz \<le> length host \<or> \<not> url_chars host then None
       else case url_host_port d e of None \<Rightarrow> None
         | Some (p, e) \<Rightarrow> if p = 0 then None else map_option (\<lambda>path. (adapter, of_nat p, host, path)) (url_path path_sz e))"
    using assms(2) by (simp only: net_url_parse_def sp d(1) h Let_def chars_control option.case prod.case append_eq_conv_conj) simp
  note path = url_path_text [OF assms(5,6)]
  show ?thesis
  proof (cases port)
    case None
    then show ?thesis unfolding r hp using d(2) scheme_default [OF assms(1)]
      by (cases default_port) (auto simp: path unat_eq_zero)
  next
    case (Some p)
    then show ?thesis unfolding r hp by (auto simp: path unat_eq_zero)
  qed
qed

lemma url_port_bound: "url_port s v = Some (p, r) \<Longrightarrow> v \<le> 65535 \<Longrightarrow> p \<le> 65535"
  by (induction s v rule: url_port.induct) (auto simp: Let_def split: if_splits)

lemma scheme_port: "url_scheme s = Some (a, p) \<Longrightarrow> p \<le> 65535"
  by (auto simp: url_scheme_def TNFS_PORT_def TELNET_PORT_def split: if_splits)

lemma host_port_bound: "url_host_port port e = Some (p, r) \<Longrightarrow> port \<le> 65535 \<Longrightarrow> p \<le> 65535"
  by (auto simp: url_host_port_def dest: url_port_bound split: option.splits if_splits)

lemma net_url_sound:
  assumes "net_url_parse url host_sz path_sz = Some (adapter, port, host, path)"
  shows "host_ok host_sz host \<and> path_ok path_sz path \<and> port \<noteq> 0"
proof -
  obtain scheme rest dp where s: "url_split url = Some (scheme, rest)" "url_scheme scheme = Some (adapter, dp)"
    using assms by (auto simp: net_url_parse_def Let_def split: option.splits if_splits)
  define h where "h = takeWhile (\<lambda>c. c \<noteq> CHR '':'' \<and> c \<noteq> CHR ''/'') rest"
  have u: "net_url_parse url host_sz path_sz = (if h = [] \<or> host_sz \<le> length h then None else if list_ex is_control h then None
      else case url_host_port dp (drop (length h) rest) of None \<Rightarrow> None
        | Some (port, e) \<Rightarrow> if port = 0 then None else map_option (\<lambda>path. (adapter, of_nat port, h, path)) (url_path path_sz e))"
    unfolding h_def by (simp add: net_url_parse_def s Let_def)
  then have h: "h \<noteq> []" "length h < host_sz" "\<not> list_ex is_control h" using assms by (auto split: if_splits)
  obtain p e where hp: "url_host_port dp (drop (length h) rest) = Some (p, e)" using u h assms by (auto split: option.splits)
  then have q: "p \<noteq> 0" using u h assms by (cases "p = 0") simp_all
  then have "map_option (\<lambda>path. (adapter, of_nat p, h, path)) (url_path path_sz e) = Some (adapter, port, host, path)"
    using u h hp unfolding assms by simp
  then have q2: "port = of_nat p" "url_path path_sz e = Some path" "host = h" by auto
  have p: "p \<le> 65535" by (rule host_port_bound [OF hp scheme_port [OF s(2)]])
  have "host_ok host_sz host"
    unfolding q2(3) host_ok_def
  proof (intro conjI ballI)
    fix c assume c: "c \<in> set h"
    then have "c \<noteq> CHR '':'' \<and> c \<noteq> CHR ''/''" unfolding h_def by (rule set_takeWhileD [THEN conjunct2])
    then show "c \<noteq> CHR '':''" "c \<noteq> CHR ''/''" by blast+
    show "\<not> is_control c" using h(3) c unfolding list_ex_iff by blast
  qed (use h(1,2) in blast)+
  moreover have "port \<noteq> 0"
  proof
    assume "port = 0"
    then have "unat (of_nat p :: u16) = 0" using q2(1) by simp
    then show False using p q by (simp add: unat_of_nat)
  qed
  ultimately show ?thesis using url_path_sound [OF q2(2)] by simp
qed

end
