(* ===== verification/NetStack.thy ===== *)
theory NetStack
  imports AunService NetRing NetTnfs NetTelnet NetUrl
begin

text \<open>
  Sockets of the network service (\<open>net_service.c\<close>): the table of eight handles, the callbacks that lwIP makes on
  them and the commands 45 to 57 of the services port.  A callback's argument is the number of its handle.
\<close>

section \<open>Constants\<close>

definition NET_TYPE_TCP :: u8 where "NET_TYPE_TCP = 0"
definition NET_TYPE_UDP :: u8 where "NET_TYPE_UDP = 1"
definition NET_OK :: u8 where "NET_OK = 0x00"
definition NET_EOF :: u8 where "NET_EOF = 0x20"
definition NET_ERR_INUSE :: u8 where "NET_ERR_INUSE = 0x21"
definition NET_ERR_NOTOPEN :: u8 where "NET_ERR_NOTOPEN = 0x22"
definition NET_ERR_PARAM :: u8 where "NET_ERR_PARAM = 0x23"
definition NET_ERR_DNS :: u8 where "NET_ERR_DNS = 0x24"
definition NET_ERR_CONN :: u8 where "NET_ERR_CONN = 0x25"
definition NET_ERR_NOMEM :: u8 where "NET_ERR_NOMEM = 0x26"
definition NET_ERR_UNSUPPORTED :: u8 where "NET_ERR_UNSUPPORTED = 0x27"
definition NET_ERR_DISABLED :: u8 where "NET_ERR_DISABLED = 0x28"
definition NET_PENDING :: u8 where "NET_PENDING = 0x01"
definition NET_BUSY :: u8 where "NET_BUSY = 0x80"
definition NET_ST_FREE :: u8 where "NET_ST_FREE = 0"
definition NET_ST_IDLE :: u8 where "NET_ST_IDLE = 1"
definition NET_ST_RESOLVING :: u8 where "NET_ST_RESOLVING = 2"
definition NET_ST_CONNECTING :: u8 where "NET_ST_CONNECTING = 3"
definition NET_ST_CONNECTED :: u8 where "NET_ST_CONNECTED = 4"
definition NET_ST_LISTENING :: u8 where "NET_ST_LISTENING = 5"
definition NET_ST_ERROR :: u8 where "NET_ST_ERROR = 7"
definition NET_FLAG_CONNECTED :: u8 where "NET_FLAG_CONNECTED = 0x01"
definition NET_FLAG_RX_EOF :: u8 where "NET_FLAG_RX_EOF = 0x02"
definition NET_FLAG_ERROR :: u8 where "NET_FLAG_ERROR = 0x04"
definition NET_FLAG_RX_READY :: u8 where "NET_FLAG_RX_READY = 0x08"
definition NET_MAX_HANDLES :: nat where "NET_MAX_HANDLES = 8"
definition NET_MAX_HOSTNAME :: u32 where "NET_MAX_HOSTNAME = 256"
definition URL_START :: u8 where "URL_START = 0"
definition URL_RESOLVING :: u8 where "URL_RESOLVING = 1"
definition URL_CONNECTING :: u8 where "URL_CONNECTING = 2"
definition URL_READY :: u8 where "URL_READY = 3"
definition URL_FAIL :: u8 where "URL_FAIL = 4"
definition TNFS_PH_IDLE :: u8 where "TNFS_PH_IDLE = 0"
definition TNFS_PH_MOUNT :: u8 where "TNFS_PH_MOUNT = 1"
definition TNFS_PH_OPEN :: u8 where "TNFS_PH_OPEN = 2"
definition TNFS_PH_READY :: u8 where "TNFS_PH_READY = 3"
definition TNFS_PH_READING :: u8 where "TNFS_PH_READING = 4"
definition TNFS_PH_WRITING :: u8 where "TNFS_PH_WRITING = 5"

lemmas net_results = NET_OK_def NET_EOF_def NET_ERR_INUSE_def NET_ERR_NOTOPEN_def NET_ERR_PARAM_def NET_ERR_DNS_def
  NET_ERR_CONN_def NET_ERR_NOMEM_def NET_ERR_UNSUPPORTED_def NET_ERR_DISABLED_def NET_PENDING_def

lemmas net_states = NET_ST_FREE_def NET_ST_IDLE_def NET_ST_RESOLVING_def NET_ST_CONNECTING_def NET_ST_CONNECTED_def
  NET_ST_LISTENING_def NET_ST_ERROR_def

lemmas url_phases = URL_START_def URL_RESOLVING_def URL_CONNECTING_def URL_READY_def URL_FAIL_def

lemmas tnfs_phases = TNFS_PH_IDLE_def TNFS_PH_MOUNT_def TNFS_PH_OPEN_def TNFS_PH_READY_def TNFS_PH_READING_def TNFS_PH_WRITING_def

section \<open>State\<close>

text \<open>
  The outstanding TNFS request is the list of its bytes, the first \<open>tnfs_req_len\<close> of the buffer.
\<close>

record tnfs_session =
  tnfs_phase :: u8
  tnfs_seq :: u8
  tnfs_fd :: u8
  tnfs_is_dir :: bool
  tnfs_wr :: bool
  tnfs_retries :: u8
  tnfs_eagain :: u8
  tnfs_connid :: u16
  tnfs_retry_ms :: u16
  tnfs_deadline :: u32
  tnfs_req :: "u8 list"

record net_handle =
  hstate :: u8
  htype :: u8
  last_err :: u8
  rx_eof :: bool
  rx_parked :: bool
  dns_done :: bool
  dns_ok :: bool
  is_url :: bool
  url_adapter :: u8
  url_phase :: u8
  http_hdr_done :: bool
  http_code :: u16
  tpcb :: "nat option"
  upcb :: "nat option"
  remote_ip :: u32
  remote_port :: u16
  bind_port :: u16
  accept_ready :: bool
  accept_h :: nat
  dns_ip :: u32
  rx :: rx_ring
  tnfs :: tnfs_session
  telnet :: telnet_ctx

record 'n net_state =
  net_h :: "nat \<Rightarrow> net_handle"
  net_stack :: 'n
  net_source :: u8
  net_enabled :: bool
  net_irq_armed :: bool
  net_irq_state :: bool
  net_pending :: bool
  net_pending_cp :: u32
  net_pending_addr :: nat
  net_pending_data :: u8
  net_reset_pending :: bool

type_synonym ('n, 'z) net_services = "('n, 'z) net_state_scheme services"

text \<open>
  lwIP's TCP and DNS beside the UDP of the AUN service.  A callback is installed with the number of its handle, or
  removed with \<^const>\<open>None\<close>; \<open>udp_recv_on\<close> is \<open>udp_recv\<close> with the callback of this service.  None of these calls makes a
  callback before it returns.
\<close>

datatype err_t = ERR_OK | ERR_MEM | ERR_INPROGRESS | ERR_VAL | ERR_ABRT | ERR_OTHER

record 'n net_lwip = "'n lwip" +
  udp_recv_on :: "nat \<Rightarrow> nat \<Rightarrow> 'n \<Rightarrow> 'n"
  udp_connect :: "nat \<Rightarrow> u32 \<Rightarrow> u16 \<Rightarrow> 'n \<Rightarrow> bool \<times> 'n"
  altcp_new_ip_type :: "'n \<Rightarrow> nat option \<times> 'n"
  altcp_bind :: "nat \<Rightarrow> u16 \<Rightarrow> 'n \<Rightarrow> bool \<times> 'n"
  altcp_listen :: "nat \<Rightarrow> 'n \<Rightarrow> nat option \<times> 'n"
  altcp_arg :: "nat \<Rightarrow> nat option \<Rightarrow> 'n \<Rightarrow> 'n"
  altcp_recv :: "nat \<Rightarrow> bool \<Rightarrow> 'n \<Rightarrow> 'n"
  altcp_sent :: "nat \<Rightarrow> bool \<Rightarrow> 'n \<Rightarrow> 'n"
  altcp_poll :: "nat \<Rightarrow> bool \<Rightarrow> u8 \<Rightarrow> 'n \<Rightarrow> 'n"
  altcp_err :: "nat \<Rightarrow> bool \<Rightarrow> 'n \<Rightarrow> 'n"
  altcp_accept :: "nat \<Rightarrow> bool \<Rightarrow> 'n \<Rightarrow> 'n"
  altcp_connect :: "nat \<Rightarrow> u32 \<Rightarrow> u16 \<Rightarrow> 'n \<Rightarrow> bool \<times> 'n"
  altcp_abort :: "nat \<Rightarrow> 'n \<Rightarrow> 'n"
  altcp_close :: "nat \<Rightarrow> 'n \<Rightarrow> bool \<times> 'n"
  altcp_sndbuf :: "nat \<Rightarrow> 'n \<Rightarrow> u16"
  altcp_write :: "nat \<Rightarrow> u8 list \<Rightarrow> 'n \<Rightarrow> err_t \<times> 'n"
  altcp_output :: "nat \<Rightarrow> 'n \<Rightarrow> 'n"
  altcp_recved :: "nat \<Rightarrow> nat \<Rightarrow> 'n \<Rightarrow> 'n"
  dns_gethostbyname :: "string \<Rightarrow> nat \<Rightarrow> 'n \<Rightarrow> (err_t \<times> u32) \<times> 'n"

text \<open>A handle, a change of one, and calls of the stack with and without a result.\<close>

definition hnd :: "('n, 'z) net_services \<Rightarrow> nat \<Rightarrow> net_handle" where
  "hnd s i = net_h (svc s) i"

definition on_h :: "nat \<Rightarrow> (net_handle \<Rightarrow> net_handle) \<Rightarrow> ('n, 'z) net_services \<Rightarrow> ('n, 'z) net_services" where
  "on_h i f s = on_svc (\<lambda>w. w\<lparr>net_h := (net_h w)(i := f (net_h w i))\<rparr>) s"

definition run_net :: "('n \<Rightarrow> 'n) \<Rightarrow> ('n, 'z) net_services \<Rightarrow> ('n, 'z) net_services" where
  "run_net f s = on_svc (\<lambda>w. w\<lparr>net_stack := f (net_stack w)\<rparr>) s"

definition on_net :: "('n \<Rightarrow> 'a \<times> 'n) \<Rightarrow> ('n, 'z) net_services \<Rightarrow> 'a \<times> ('n, 'z) net_services" where
  "on_net f s = (fst (f (net_stack (svc s))), run_net (\<lambda>l. snd (f l)) s)"

section \<open>The command block\<close>

definition jim_rd24 :: "u32 \<Rightarrow> u32 \<Rightarrow> 'w services \<Rightarrow> u32" where
  "jim_rd24 cp k s =
     (let a = unat (cp + k) in le32 (JIM_ram s a) (JIM_ram s (a + 1)) (JIM_ram s (a + 2)) 0)"

definition jim_wr24 :: "u32 \<Rightarrow> u32 \<Rightarrow> u32 \<Rightarrow> 'w services \<Rightarrow> 'w services" where
  "jim_wr24 cp k v s = put_bytes (cp + k) [byte_of 0 v, byte_of 1 v, byte_of 2 v] s"

definition block_u16 :: "u32 \<Rightarrow> u32 \<Rightarrow> 'w services \<Rightarrow> u16" where
  "block_u16 cp k s = ucast (block_byte cp k s) OR push_bit 8 (ucast (block_byte cp (k + 1) s))"

definition net_buffer_ok :: "u32 \<Rightarrow> u32 \<Rightarrow> bool" where
  "net_buffer_ok offset n = (if DISC_RAM_SIZE < offset then False else n \<le> DISC_RAM_SIZE - offset)"

definition net_string_ok :: "u32 \<Rightarrow> 'z jim_scheme \<Rightarrow> bool" where
  "net_string_ok start s =
     (let limit = start + NET_MAX_HOSTNAME; region_end = DISC_RAM_BASE s + DISC_RAM_SIZE;
          limit = (if region_end < limit then region_end else limit) in
      list_ex (\<lambda>i. JIM_ram s i = 0) [unat start..<unat limit])"

definition net_ip_from_wire :: "u32 \<Rightarrow> u32 \<Rightarrow> 'w services \<Rightarrow> u32" where
  "net_ip_from_wire cp k s = block_word cp k s"

definition ip_octets :: "u32 \<Rightarrow> u8 list" where
  "ip_octets u = [byte_of 0 u, byte_of 1 u, byte_of 2 u, byte_of 3 u]"

definition net_ip_to_wire :: "u32 \<Rightarrow> u32 \<Rightarrow> u32 \<Rightarrow> 'w services \<Rightarrow> 'w services" where
  "net_ip_to_wire ip cp k s = put_bytes (cp + k) (ip_octets ip) s"

text \<open>The bytes of the Beeb's buffer, and bytes stored into it.\<close>

definition net_source_bytes :: "'w services \<Rightarrow> u32 \<Rightarrow> nat \<Rightarrow> u8 list" where
  "net_source_bytes s off n = mem_read (JIM_ram s) (buffer_at s off) n"

definition net_deliver :: "u32 \<Rightarrow> u8 list \<Rightarrow> 'w services \<Rightarrow> 'w services" where
  "net_deliver off b s = set_mem (mem_write (JIM_ram s) (buffer_at s off) b) s"

text \<open>Draining a handle's ring into the buffer, with the number of bytes.\<close>

definition ring_to_jim :: "nat \<Rightarrow> u32 \<Rightarrow> u32 \<Rightarrow> ('n, 'z) net_services \<Rightarrow> u32 \<times> ('n, 'z) net_services" where
  "ring_to_jim i off mx s =
     (let (b, r) = ring_get (unat mx) (rx (hnd s i)) in
      (of_nat (length b), on_h i (\<lambda>h. h\<lparr>rx := r\<rparr>) (net_deliver off b s)))"

section \<open>Handles\<close>

definition tnfs_none :: tnfs_session where
  "tnfs_none = \<lparr>tnfs_phase = 0, tnfs_seq = 0, tnfs_fd = 0, tnfs_is_dir = False, tnfs_wr = False, tnfs_retries = 0,
     tnfs_eagain = 0, tnfs_connid = 0, tnfs_retry_ms = 0, tnfs_deadline = 0, tnfs_req = []\<rparr>"

text \<open>The ring's bytes are outside the structure that is cleared.\<close>

definition net_handle_reset :: "net_handle \<Rightarrow> net_handle" where
  "net_handle_reset h =
     \<lparr>hstate = NET_ST_FREE, htype = 0, last_err = 0, rx_eof = False, rx_parked = False, dns_done = False, dns_ok = False,
      is_url = False, url_adapter = 0, url_phase = 0, http_hdr_done = False, http_code = 0, tpcb = None, upcb = None,
      remote_ip = 0, remote_port = 0, bind_port = 0, accept_ready = False, accept_h = 0, dns_ip = 0,
      rx = \<lparr>rx_head = 0, rx_tail = 0, rx_count = 0, ring_data = ring_data (rx h)\<rparr>, tnfs = tnfs_none, telnet = telnet_reset\<rparr>"

definition net_fail :: "u8 \<Rightarrow> net_handle \<Rightarrow> net_handle" where
  "net_fail e h = h\<lparr>hstate := NET_ST_ERROR, last_err := e\<rparr>"

definition detach_pcb :: "('n, 'y) net_lwip_scheme \<Rightarrow> nat \<Rightarrow> 'n \<Rightarrow> 'n" where
  "detach_pcb lw p l =
     altcp_accept lw p False (altcp_err lw p False (altcp_poll lw p False 0 (altcp_sent lw p False
       (altcp_recv lw p False (altcp_arg lw p None l)))))"

definition net_pcb_release :: "('n, 'y) net_lwip_scheme \<Rightarrow> nat \<Rightarrow> bool \<Rightarrow> ('n, 'z) net_services \<Rightarrow> ('n, 'z) net_services" where
  "net_pcb_release lw i abort_pcb s =
     (let s = (case tpcb (hnd s i) of None \<Rightarrow> s
               | Some p \<Rightarrow>
                   (let s = run_net (detach_pcb lw p) (on_h i (\<lambda>h. h\<lparr>tpcb := None\<rparr>) s) in
                    if abort_pcb then run_net (altcp_abort lw p) s
                    else let (ok, s) = on_net (altcp_close lw p) s in if ok then s else run_net (altcp_abort lw p) s)) in
      case upcb (hnd s i) of None \<Rightarrow> s | Some u \<Rightarrow> on_h i (\<lambda>h. h\<lparr>upcb := None\<rparr>) (run_net (udp_remove lw u) s))"

section \<open>Callbacks\<close>

text \<open>A packet buffer is the list of the payloads of its chain.\<close>

definition udp_header :: "u32 \<Rightarrow> u16 \<Rightarrow> nat \<Rightarrow> u8 list" where
  "udp_header ip port n = ip_octets ip @ u16_bytes port @ u16_bytes (of_nat n)"

definition net_udp_recv :: "nat \<Rightarrow> u8 list list \<Rightarrow> u32 \<Rightarrow> u16 \<Rightarrow> ('n, 'z) net_services \<Rightarrow> ('n, 'z) net_services" where
  "net_udp_recv i p ip port s =
     (let n = length (concat p) in
      if n + 8 \<le> unat (ring_free (rx (hnd s i)))
      then on_h i (\<lambda>h. h\<lparr>rx := ring_put_pbuf p (ring_put_mem (udp_header ip port n) (rx h))\<rparr>) s
      else s)"

text \<open>The TELNET filter over a segment, 256 bytes at a time.\<close>

function telnet_segment :: "('n, 'y) net_lwip_scheme \<Rightarrow> nat \<Rightarrow> u8 list \<Rightarrow> ('n, 'z) net_services \<Rightarrow> ('n, 'z) net_services" where
  "telnet_segment lw i bs s =
     (if bs = [] then s
      else let r = telnet_filter (telnet (hnd s i)) (take 256 bs) 256 300;
               s = on_h i (\<lambda>h. h\<lparr>telnet := tr_ctx r, rx := if tr_out r \<noteq> [] then ring_put_mem (tr_out r) (rx h) else rx h\<rparr>) s;
               s = (if tr_rep r \<noteq> []
                    then case tpcb (hnd s i) of None \<Rightarrow> s
                      | Some p \<Rightarrow> (let (e, s) = on_net (altcp_write lw p (tr_rep r)) s in
                                   if e = ERR_OK then run_net (altcp_output lw p) s else s)
                    else s) in
        telnet_segment lw i (drop 256 bs) s)"
  by auto
termination by (relation "measure (\<lambda>(lw, i, bs, s). length bs)") auto

declare telnet_segment.simps [simp del]

definition net_tcp_recv ::
  "('n, 'y) net_lwip_scheme \<Rightarrow> nat \<Rightarrow> nat \<Rightarrow> u8 list list option \<Rightarrow> bool \<Rightarrow> ('n, 'z) net_services \<Rightarrow> err_t \<times> ('n, 'z) net_services"
where
  "net_tcp_recv lw i pcb p ok s =
     (if \<not> ok then (ERR_OK, on_h i (net_fail NET_ERR_CONN) s)
      else case p of
        None \<Rightarrow> (ERR_OK, on_h i (\<lambda>h. h\<lparr>rx_eof := True\<rparr>) s)
      | Some p \<Rightarrow>
          let n = length (concat p) in
          if unat (ring_free (rx (hnd s i))) < n then (ERR_MEM, on_h i (\<lambda>h. h\<lparr>rx_parked := True\<rparr>) s)
          else let s = (if is_url (hnd s i) \<and> url_adapter (hnd s i) = NET_URL_TELNET then telnet_segment lw i (concat p) s
                        else on_h i (\<lambda>h. h\<lparr>rx := ring_put_pbuf p (rx h)\<rparr>) s);
                   s = on_h i (\<lambda>h. h\<lparr>rx_parked := False\<rparr>) s in
            (ERR_OK, run_net (altcp_recved lw pcb n) s))"

definition net_tcp_err :: "nat \<Rightarrow> ('n, 'z) net_services \<Rightarrow> ('n, 'z) net_services" where
  "net_tcp_err i s = on_h i (\<lambda>h. net_fail NET_ERR_CONN (h\<lparr>tpcb := None\<rparr>)) s"

definition net_tcp_bind_callbacks :: "('n, 'y) net_lwip_scheme \<Rightarrow> nat \<Rightarrow> nat \<Rightarrow> ('n, 'z) net_services \<Rightarrow> ('n, 'z) net_services" where
  "net_tcp_bind_callbacks lw i p s =
     run_net (\<lambda>l. altcp_err lw p True (altcp_poll lw p True 4 (altcp_sent lw p True (altcp_recv lw p True (altcp_arg lw p (Some i) l))))) s"

text \<open>An inbound connection with its peer takes the first free handle.\<close>

definition net_tcp_accept ::
  "('n, 'y) net_lwip_scheme \<Rightarrow> nat \<Rightarrow> nat option \<Rightarrow> u32 \<Rightarrow> u16 \<Rightarrow> bool \<Rightarrow> ('n, 'z) net_services \<Rightarrow> err_t \<times> ('n, 'z) net_services"
where
  "net_tcp_accept lw i newpcb ip port ok s =
     (case newpcb of None \<Rightarrow> (ERR_VAL, s)
      | Some p \<Rightarrow>
          if \<not> ok then (ERR_VAL, s)
          else if accept_ready (hnd s i) then (ERR_ABRT, run_net (altcp_abort lw p) s)
          else case find (\<lambda>j. hstate (hnd s j) = NET_ST_FREE) [0..<NET_MAX_HANDLES] of
              None \<Rightarrow> (ERR_ABRT, run_net (altcp_abort lw p) s)
            | Some j \<Rightarrow>
                (let s = on_h j (\<lambda>h. (net_handle_reset h)\<lparr>htype := NET_TYPE_TCP, tpcb := Some p, hstate := NET_ST_CONNECTED,
                           remote_ip := ip, remote_port := port\<rparr>) s;
                     s = net_tcp_bind_callbacks lw j p s in
                 (ERR_OK, on_h i (\<lambda>h. h\<lparr>accept_ready := True, accept_h := j\<rparr>) s)))"

definition net_tcp_connected :: "nat \<Rightarrow> bool \<Rightarrow> ('n, 'z) net_services \<Rightarrow> ('n, 'z) net_services" where
  "net_tcp_connected i ok s =
     on_h i (\<lambda>h. if ok then h\<lparr>hstate := NET_ST_CONNECTED\<rparr> else net_fail NET_ERR_CONN (h\<lparr>tpcb := None\<rparr>)) s"

definition net_dns_found :: "nat \<Rightarrow> u32 option \<Rightarrow> ('n, 'z) net_services \<Rightarrow> ('n, 'z) net_services" where
  "net_dns_found i ipaddr s =
     on_h i (\<lambda>h.
       let h = h\<lparr>dns_done := True\<rparr>;
           h = (case ipaddr of Some ip \<Rightarrow> h\<lparr>dns_ip := ip, dns_ok := True\<rparr> | None \<Rightarrow> h\<lparr>dns_ok := False\<rparr>) in
       if hstate h = NET_ST_RESOLVING then h\<lparr>hstate := NET_ST_IDLE\<rparr> else h) s"

end
