(* ===== verification/NetService.thy ===== *)
theory NetService
  imports NetStack
begin

text \<open>
  The commands of the network service (\<open>net_service.c\<close>): raw sockets, the N: device with its TCP, UDP, HTTP, TNFS and
  TELNET adapters, and the mailbox between the command register and the main loop.  A command on handle \<open>i\<close> returns
  the result byte and the new state.
\<close>

section \<open>Sockets\<close>

definition do_open :: "('n, 'y) net_lwip_scheme \<Rightarrow> nat \<Rightarrow> u32 \<Rightarrow> ('n, 'z) net_services \<Rightarrow> u8 \<times> ('n, 'z) net_services" where
  "do_open lw i cp s =
     (let type = block_byte cp 1 s in
      if hstate (hnd s i) \<noteq> NET_ST_FREE then (NET_ERR_INUSE, s)
      else if type \<noteq> NET_TYPE_TCP \<and> type \<noteq> NET_TYPE_UDP then (NET_ERR_PARAM, s)
      else let s = on_h i (\<lambda>h. (net_handle_reset h)\<lparr>htype := type, hstate := NET_ST_IDLE\<rparr>) s in
        if type = NET_TYPE_UDP
        then case on_net (udp_new lw) s of
            (None, s) \<Rightarrow> (NET_ERR_NOMEM, on_h i net_handle_reset s)
          | (Some u, s) \<Rightarrow> (NET_OK, run_net (udp_recv_on lw u i) (on_h i (\<lambda>h. h\<lparr>upcb := Some u\<rparr>) s))
        else (NET_OK, s))"

definition do_bind :: "('n, 'y) net_lwip_scheme \<Rightarrow> nat \<Rightarrow> u32 \<Rightarrow> ('n, 'z) net_services \<Rightarrow> u8 \<times> ('n, 'z) net_services" where
  "do_bind lw i cp s =
     (let port = block_u16 cp 1 s in
      if hstate (hnd s i) = NET_ST_FREE then (NET_ERR_NOTOPEN, s)
      else let s = on_h i (\<lambda>h. h\<lparr>bind_port := port\<rparr>) s in
        if htype (hnd s i) = NET_TYPE_UDP
        then case upcb (hnd s i) of None \<Rightarrow> (NET_ERR_CONN, s)
          | Some u \<Rightarrow> (let (ok, s) = on_net (udp_bind lw u port) s in (if ok then NET_OK else NET_ERR_CONN, s))
        else (NET_OK, s))"

definition do_listen :: "('n, 'y) net_lwip_scheme \<Rightarrow> nat \<Rightarrow> u32 \<Rightarrow> ('n, 'z) net_services \<Rightarrow> u8 \<times> ('n, 'z) net_services" where
  "do_listen lw i cp s =
     (if htype (hnd s i) \<noteq> NET_TYPE_TCP \<or> hstate (hnd s i) = NET_ST_FREE then (NET_ERR_NOTOPEN, s)
      else if hstate (hnd s i) = NET_ST_IDLE
      then case on_net (altcp_new_ip_type lw) s of
          (None, s) \<Rightarrow> (NET_ERR_NOMEM, s)
        | (Some lp, s) \<Rightarrow>
            (let (ok, s) = on_net (altcp_bind lw lp (bind_port (hnd s i))) s in
             if \<not> ok then (NET_ERR_CONN, snd (on_net (altcp_close lw lp) s))
             else let (tp, s) = on_net (altcp_listen lw lp) s; s = on_h i (\<lambda>h. h\<lparr>tpcb := tp\<rparr>) s in
               case tp of
                 None \<Rightarrow> (NET_ERR_NOMEM, snd (on_net (altcp_close lw lp) s))
               | Some p \<Rightarrow>
                   (NET_PENDING, on_h i (\<lambda>h. h\<lparr>hstate := NET_ST_LISTENING\<rparr>)
                      (run_net (\<lambda>l. altcp_accept lw p True (altcp_arg lw p (Some i) l)) s)))
      else if hstate (hnd s i) = NET_ST_LISTENING
      then if accept_ready (hnd s i)
           then (NET_OK, put_bytes (cp + 1) [of_nat (accept_h (hnd s i))] (on_h i (\<lambda>h. h\<lparr>accept_ready := False\<rparr>) s))
           else (NET_PENDING, s)
      else (NET_ERR_NOTOPEN, s))"

text \<open>A datagram in a packet buffer of its own: \<^const>\<open>None\<close> when there is no memory, else whether it was sent.\<close>

definition net_udp_send ::
  "('n, 'y) net_lwip_scheme \<Rightarrow> nat \<Rightarrow> u8 list \<Rightarrow> u32 \<Rightarrow> u16 \<Rightarrow> ('n, 'z) net_services \<Rightarrow> bool option \<times> ('n, 'z) net_services"
where
  "net_udp_send lw u data ip port s =
     (case on_net (pbuf_alloc lw (of_nat (length data))) s of
        (None, s) \<Rightarrow> (None, s)
      | (Some p, s) \<Rightarrow>
          (let (taken, s) = on_net (pbuf_take lw p data) s; (ok, s) = on_net (udp_sendto lw u p ip port) s in
           (Some ok, run_net (pbuf_free lw p) s)))"

definition do_udp_sendto :: "('n, 'y) net_lwip_scheme \<Rightarrow> nat \<Rightarrow> u32 \<Rightarrow> ('n, 'z) net_services \<Rightarrow> u8 \<times> ('n, 'z) net_services" where
  "do_udp_sendto lw i cp s =
     (let port = block_u16 cp 5 s; len = jim_rd24 cp 7 s; jimoff = block_word cp 10 s in
      case (if htype (hnd s i) \<noteq> NET_TYPE_UDP then None else upcb (hnd s i)) of
        None \<Rightarrow> (NET_ERR_NOTOPEN, s)
      | Some u \<Rightarrow>
          if 0xFFFF < len \<or> \<not> net_buffer_ok jimoff len then (NET_ERR_PARAM, s)
          else if \<not> address_ready lw (net_stack (svc s)) then (NET_PENDING, s)
          else case net_udp_send lw u (net_source_bytes s jimoff (unat len)) (net_ip_from_wire cp 1 s) port s of
              (None, s) \<Rightarrow> (NET_ERR_NOMEM, s)
            | (Some ok, s) \<Rightarrow>
                if \<not> ok then (NET_ERR_CONN, s)
                else (NET_OK, jim_wr24 cp 7 len (run_net (wifi_lwip_rx_kick lw) s)))"

text \<open>The header of a record: the peer and the length of its payload.\<close>

definition ring_header :: "rx_ring \<Rightarrow> u8 list \<times> nat \<times> rx_ring" where
  "ring_header r = (let (hdr, r) = ring_get_mem 8 r in (take 6 hdr, unat (rd_u16 (drop 6 hdr)), r))"

text \<open>One datagram into the buffer; what does not fit is dropped.\<close>

definition datagram_to_jim :: "nat \<Rightarrow> u32 \<Rightarrow> u32 \<Rightarrow> ('n, 'z) net_services \<Rightarrow> u8 list \<times> u32 \<times> ('n, 'z) net_services" where
  "datagram_to_jim i off mx s =
     (let (peer, dglen, r) = ring_header (rx (hnd s i)); copy = (if dglen < unat mx then dglen else unat mx);
          s = on_h i (\<lambda>h. h\<lparr>rx := r\<rparr>) s; (n, s) = ring_to_jim i off (of_nat copy) s;
          s = (if copy < dglen then on_h i (\<lambda>h. h\<lparr>rx := ring_skip (dglen - copy) (rx h)\<rparr>) s else s) in
      (peer, of_nat copy, s))"

definition do_udp_recvfrom :: "nat \<Rightarrow> u32 \<Rightarrow> ('n, 'z) net_services \<Rightarrow> u8 \<times> ('n, 'z) net_services" where
  "do_udp_recvfrom i cp s =
     (let jimoff = block_word cp 10 s; maxlen = jim_rd24 cp 7 s in
      if htype (hnd s i) \<noteq> NET_TYPE_UDP then (NET_ERR_NOTOPEN, s)
      else if \<not> net_buffer_ok jimoff maxlen then (NET_ERR_PARAM, s)
      else if rx_count (rx (hnd s i)) < 8 then (NET_OK, jim_wr24 cp 7 0 s)
      else let peer = fst (ring_header (rx (hnd s i)));
               (p, copy, s) = datagram_to_jim i jimoff maxlen (put_bytes (cp + 1) peer s) in
        (NET_OK, jim_wr24 cp 7 copy s))"

definition do_dns :: "('n, 'y) net_lwip_scheme \<Rightarrow> nat \<Rightarrow> u32 \<Rightarrow> ('n, 'z) net_services \<Rightarrow> u8 \<times> ('n, 'z) net_services" where
  "do_dns lw i cp s =
     (if hstate (hnd s i) = NET_ST_FREE then (NET_ERR_NOTOPEN, s)
      else if hstate (hnd s i) = NET_ST_RESOLVING then (NET_PENDING, s)
      else if dns_done (hnd s i)
      then let s = on_h i (\<lambda>h. h\<lparr>dns_done := False\<rparr>) s in
        if \<not> dns_ok (hnd s i) then (NET_ERR_DNS, s) else (NET_OK, net_ip_to_wire (dns_ip (hnd s i)) cp 4 s)
      else if \<not> net_string_ok (cp + 1) s then (NET_ERR_PARAM, s)
      else let ((e, ip), s) = on_net (dns_gethostbyname lw (jim_string (JIM_ram s) (cp + 1)) i) s in
        if e = ERR_OK then (NET_OK, net_ip_to_wire ip cp 4 (on_h i (\<lambda>h. h\<lparr>dns_ip := ip\<rparr>) s))
        else if e = ERR_INPROGRESS then (NET_PENDING, on_h i (\<lambda>h. h\<lparr>hstate := NET_ST_RESOLVING\<rparr>) s)
        else (NET_ERR_DNS, s))"

definition net_start_connect :: "('n, 'y) net_lwip_scheme \<Rightarrow> nat \<Rightarrow> ('n, 'z) net_services \<Rightarrow> u8 \<times> ('n, 'z) net_services" where
  "net_start_connect lw i s =
     (let (tp, s) = on_net (altcp_new_ip_type lw) s; s = on_h i (\<lambda>h. h\<lparr>tpcb := tp\<rparr>) s in
      case tp of
        None \<Rightarrow> (NET_ERR_NOMEM, s)
      | Some p \<Rightarrow>
          (let s = net_tcp_bind_callbacks lw i p s;
               (ok, s) = on_net (altcp_connect lw p (remote_ip (hnd s i)) (remote_port (hnd s i))) s in
           if \<not> ok then (NET_ERR_CONN, on_h i (net_fail NET_ERR_CONN) (net_pcb_release lw i True s))
           else (NET_PENDING, on_h i (\<lambda>h. h\<lparr>hstate := NET_ST_CONNECTING\<rparr>) s)))"

definition do_connect :: "('n, 'y) net_lwip_scheme \<Rightarrow> nat \<Rightarrow> u32 \<Rightarrow> ('n, 'z) net_services \<Rightarrow> u8 \<times> ('n, 'z) net_services" where
  "do_connect lw i cp s =
     (let st = hstate (hnd s i) in
      if htype (hnd s i) \<noteq> NET_TYPE_TCP \<or> st = NET_ST_FREE then (NET_ERR_NOTOPEN, s)
      else if st = NET_ST_CONNECTED then (NET_OK, s)
      else if st = NET_ST_ERROR then (NET_ERR_CONN, s)
      else if st = NET_ST_CONNECTING then (NET_PENDING, s)
      else if st \<noteq> NET_ST_IDLE then (NET_ERR_NOTOPEN, s)
      else if \<not> address_ready lw (net_stack (svc s)) then (NET_PENDING, s)
      else let ip = net_ip_from_wire cp 1 s; port = block_u16 cp 5 s in
        net_start_connect lw i (on_h i (\<lambda>h. h\<lparr>remote_ip := ip, remote_port := port\<rparr>) s))"

definition do_send :: "('n, 'y) net_lwip_scheme \<Rightarrow> nat \<Rightarrow> u32 \<Rightarrow> ('n, 'z) net_services \<Rightarrow> u8 \<times> ('n, 'z) net_services" where
  "do_send lw i cp s =
     (let len = jim_rd24 cp 1 s; jimoff = block_word cp 4 s in
      case (if htype (hnd s i) \<noteq> NET_TYPE_TCP \<or> hstate (hnd s i) \<noteq> NET_ST_CONNECTED then None else tpcb (hnd s i)) of
        None \<Rightarrow> (NET_ERR_NOTOPEN, s)
      | Some p \<Rightarrow>
          if \<not> net_buffer_ok jimoff len then (NET_ERR_PARAM, s)
          else let avail = altcp_sndbuf lw p (net_stack (svc s)); want = (if ucast avail < len then ucast avail else len) in
            if want = 0 then (NET_OK, jim_wr24 cp 1 0 s)
            else let (e, s) = on_net (altcp_write lw p (net_source_bytes s jimoff (unat want))) s in
              if e = ERR_MEM then (NET_OK, jim_wr24 cp 1 0 s)
              else if e \<noteq> ERR_OK then (NET_ERR_CONN, s)
              else (NET_OK, jim_wr24 cp 1 want (run_net (wifi_lwip_rx_kick lw) (run_net (altcp_output lw p) s))))"

text \<open>The stream's end, once nothing is left to read.\<close>

definition sticky_err :: "net_handle \<Rightarrow> u8" where
  "sticky_err h = (if last_err h \<noteq> 0 then last_err h else NET_ERR_CONN)"

definition stream_read :: "nat \<Rightarrow> u32 \<Rightarrow> u32 \<Rightarrow> u32 \<Rightarrow> ('n, 'z) net_services \<Rightarrow> u8 \<times> ('n, 'z) net_services" where
  "stream_read i cp jimoff mx s =
     (let (got, s) = ring_to_jim i jimoff mx s; s = jim_wr24 cp 1 got s; h = hnd s i in
      if got = 0 \<and> rx_count (rx h) = 0
      then if rx_eof h then (NET_EOF, s) else if hstate h = NET_ST_ERROR then (sticky_err h, s) else (NET_OK, s)
      else (NET_OK, s))"

definition do_recv :: "nat \<Rightarrow> u32 \<Rightarrow> ('n, 'z) net_services \<Rightarrow> u8 \<times> ('n, 'z) net_services" where
  "do_recv i cp s =
     (let mx = jim_rd24 cp 1 s; jimoff = block_word cp 4 s in
      if hstate (hnd s i) = NET_ST_FREE then (NET_ERR_NOTOPEN, s)
      else if \<not> net_buffer_ok jimoff mx then (NET_ERR_PARAM, s)
      else stream_read i cp jimoff mx s)"

definition do_recv_avail :: "nat \<Rightarrow> u32 \<Rightarrow> ('n, 'z) net_services \<Rightarrow> u8 \<times> ('n, 'z) net_services" where
  "do_recv_avail i cp s =
     (if hstate (hnd s i) = NET_ST_FREE then (NET_ERR_NOTOPEN, s)
      else (NET_OK, jim_wr24 cp 1 (ucast (rx_count (rx (hnd s i)))) s))"

definition do_status :: "nat \<Rightarrow> u32 \<Rightarrow> ('n, 'z) net_services \<Rightarrow> u8 \<times> ('n, 'z) net_services" where
  "do_status i cp s =
     (let h = hnd s i;
          flags = (if hstate h = NET_ST_CONNECTED then NET_FLAG_CONNECTED else 0) OR (if rx_eof h then NET_FLAG_RX_EOF else 0) OR
            (if hstate h = NET_ST_ERROR then NET_FLAG_ERROR else 0) OR (if rx_count (rx h) \<noteq> 0 then NET_FLAG_RX_READY else 0);
          s = put_bytes (cp + 1) [hstate h, flags] s;
          s = (if NET_ST_CONNECTING \<le> hstate h then net_ip_to_wire (remote_ip h) cp 3 s else put_bytes (cp + 3) [0, 0, 0, 0] s);
          s = put_bytes (cp + 7) (u16_bytes (remote_port h)) s in
      (NET_OK, jim_wr24 cp 9 (ucast (rx_count (rx h))) s))"

section \<open>HTTP\<close>

definition http_request :: "string \<Rightarrow> string \<Rightarrow> u8 list" where
  "http_request host path =
     map of_char (''GET '' @ path @ '' HTTP/1.0'') @ [13, 10] @ map of_char (''Host: '' @ host) @ [13, 10] @
     map of_char ''Connection: close'' @ [13, 10, 13, 10]"

definition net_http_send_request ::
  "('n, 'y) net_lwip_scheme \<Rightarrow> nat \<Rightarrow> string \<Rightarrow> string \<Rightarrow> ('n, 'z) net_services \<Rightarrow> u8 \<times> ('n, 'z) net_services"
where
  "net_http_send_request lw i host path s =
     (let req = http_request host path in
      if unat NET_MAX_HOSTNAME + 256 \<le> length req then (NET_ERR_PARAM, s)
      else case tpcb (hnd s i) of
          None \<Rightarrow> (NET_ERR_CONN, s)
        | Some p \<Rightarrow>
            (let (e, s) = on_net (altcp_write lw p req) s in
             if e \<noteq> ERR_OK then (NET_ERR_NOMEM, s)
             else (NET_OK, run_net (wifi_lwip_rx_kick lw) (run_net (altcp_output lw p) s))))"

text \<open>The byte of the ring at a distance from its tail.\<close>

definition ring_peek :: "rx_ring \<Rightarrow> nat \<Rightarrow> u8" where
  "ring_peek r k = ring_data r (unat ((rx_tail r + of_nat k) AND (NET_RX_RING_SIZE - 1)))"

definition net_http_find_headers :: "rx_ring \<Rightarrow> nat" where
  "net_http_find_headers r =
     (case find (\<lambda>k. ring_peek r k = 13 \<and> ring_peek r (k + 1) = 10 \<and> ring_peek r (k + 2) = 13 \<and> ring_peek r (k + 3) = 10)
             [0..<unat (rx_count r) - 3] of
        Some k \<Rightarrow> k + 4
      | None \<Rightarrow> 0)"

fun http_status_loop :: "u8 list \<Rightarrow> bool \<Rightarrow> u16 \<Rightarrow> u16" where
  "http_status_loop [] after_space code = code"
| "http_status_loop (c # cs) after_space code =
     (if \<not> after_space then http_status_loop cs (c = 0x20) code
      else if 0x30 \<le> c \<and> c \<le> 0x39 then http_status_loop cs True (code * 10 + ucast (c - 0x30))
      else code)"

definition net_http_parse_status :: "rx_ring \<Rightarrow> u16" where
  "net_http_parse_status r = http_status_loop (map (ring_peek r) [0..<min (unat (rx_count r)) 64]) False 0"

section \<open>The N: device\<close>

definition url_fail :: "u8 \<Rightarrow> net_handle \<Rightarrow> net_handle" where
  "url_fail e h = h\<lparr>url_phase := URL_FAIL, last_err := e\<rparr>"

definition url_failed :: "nat \<Rightarrow> u8 \<Rightarrow> ('n, 'z) net_services \<Rightarrow> u8 \<times> ('n, 'z) net_services" where
  "url_failed i e s = (e, on_h i (url_fail e) s)"

definition url_begin_connect :: "('n, 'y) net_lwip_scheme \<Rightarrow> nat \<Rightarrow> ('n, 'z) net_services \<Rightarrow> u8 \<times> ('n, 'z) net_services" where
  "url_begin_connect lw i s =
     (let (r, s) = net_start_connect lw i s in
      if r = NET_PENDING then (r, on_h i (\<lambda>h. h\<lparr>url_phase := URL_CONNECTING\<rparr>) s) else url_failed i r s)"

text \<open>A socket with a local port of its own; on failure the handle's URL has failed.\<close>

definition url_udp_socket :: "('n, 'y) net_lwip_scheme \<Rightarrow> nat \<Rightarrow> ('n, 'z) net_services \<Rightarrow> (u8 + nat) \<times> ('n, 'z) net_services" where
  "url_udp_socket lw i s =
     (case on_net (udp_new lw) s of
        (None, s) \<Rightarrow> (Inl NET_ERR_NOMEM, on_h i (\<lambda>h. url_fail NET_ERR_NOMEM (h\<lparr>upcb := None\<rparr>)) s)
      | (Some u, s) \<Rightarrow>
          (let s = run_net (udp_recv_on lw u i) (on_h i (\<lambda>h. h\<lparr>upcb := Some u\<rparr>) s); (ok, s) = on_net (udp_bind lw u 0) s in
           if \<not> ok then (Inl NET_ERR_CONN, on_h i (\<lambda>h. url_fail NET_ERR_CONN (h\<lparr>upcb := None\<rparr>)) (run_net (udp_remove lw u) s))
           else (Inr u, s)))"

definition net_udp_url_ready :: "('n, 'y) net_lwip_scheme \<Rightarrow> nat \<Rightarrow> ('n, 'z) net_services \<Rightarrow> u8 \<times> ('n, 'z) net_services" where
  "net_udp_url_ready lw i s =
     (case url_udp_socket lw i s of
        (Inl e, s) \<Rightarrow> (e, s)
      | (Inr u, s) \<Rightarrow>
          (let (ok, s) = on_net (udp_connect lw u (remote_ip (hnd s i)) (remote_port (hnd s i))) s in
           if \<not> ok then (NET_ERR_CONN, on_h i (\<lambda>h. url_fail NET_ERR_CONN (h\<lparr>upcb := None\<rparr>)) (run_net (udp_remove lw u) s))
           else (NET_OK, on_h i (\<lambda>h. h\<lparr>hstate := NET_ST_CONNECTED, url_phase := URL_READY\<rparr>) s)))"

section \<open>TNFS transactions\<close>

definition TNFS_REQ_MAX :: nat where "TNFS_REQ_MAX = 256"
definition TNFS_PKT_MAX :: nat where "TNFS_PKT_MAX = 600"
definition TNFS_RETRIES :: u8 where "TNFS_RETRIES = 4"
definition TNFS_EAGAIN_MAX :: u8 where "TNFS_EAGAIN_MAX = 8"
definition TNFS_TIMEOUT_MS :: u16 where "TNFS_TIMEOUT_MS = 800"
definition TNFS_READ_CHUNK :: u32 where "TNFS_READ_CHUNK = 512"
definition TNFS_WRITE_CHUNK :: u32 where "TNFS_WRITE_CHUNK = 240"

definition net_now_ms :: "('n, 'y) net_lwip_scheme \<Rightarrow> ('n, 'z) net_services \<Rightarrow> u32" where
  "net_now_ms lw s = ucast (RPI_GetSystemTime64 lw (net_stack (svc s)) div 1000)"

definition on_tnfs :: "nat \<Rightarrow> (tnfs_session \<Rightarrow> tnfs_session) \<Rightarrow> ('n, 'z) net_services \<Rightarrow> ('n, 'z) net_services" where
  "on_tnfs i f s = on_h i (\<lambda>h. h\<lparr>tnfs := f (tnfs h)\<rparr>) s"

text \<open>The payload of the oldest datagram, cut to the capacity.\<close>

definition net_udp_pop :: "nat \<Rightarrow> rx_ring \<Rightarrow> u8 list \<times> rx_ring" where
  "net_udp_pop cap r =
     (if rx_count r < 8 then ([], r)
      else let (peer, dglen, r) = ring_header r; copy = (if dglen < cap then dglen else cap); (b, r) = ring_get_mem copy r in
        (b, if copy < dglen then ring_skip (dglen - copy) r else r))"

definition net_tnfs_send_raw :: "('n, 'y) net_lwip_scheme \<Rightarrow> nat \<Rightarrow> u8 list \<Rightarrow> ('n, 'z) net_services \<Rightarrow> ('n, 'z) net_services" where
  "net_tnfs_send_raw lw i req s =
     (case upcb (hnd s i) of None \<Rightarrow> s
      | Some u \<Rightarrow>
          if req = [] then s
          else case net_udp_send lw u req (remote_ip (hnd s i)) (remote_port (hnd s i)) s of
              (None, s) \<Rightarrow> s
            | (Some ok, s) \<Rightarrow> run_net (wifi_lwip_rx_kick lw) s)"

definition net_tnfs_fire :: "('n, 'y) net_lwip_scheme \<Rightarrow> nat \<Rightarrow> ('n, 'z) net_services \<Rightarrow> ('n, 'z) net_services" where
  "net_tnfs_fire lw i s =
     (let s = net_tnfs_send_raw lw i (tnfs_req (tnfs (hnd s i))) s; t = net_now_ms lw s;
          ms = tnfs_retry_ms (tnfs (hnd s i)) in
      on_tnfs i (\<lambda>x. x\<lparr>tnfs_deadline := t + ucast (if ms \<noteq> 0 then ms else TNFS_TIMEOUT_MS)\<rparr>) s)"

text \<open>A request that could not be built has length 0.\<close>

definition net_tnfs_start ::
  "('n, 'y) net_lwip_scheme \<Rightarrow> nat \<Rightarrow> u8 \<Rightarrow> u8 list option \<Rightarrow> ('n, 'z) net_services \<Rightarrow> u8 \<times> ('n, 'z) net_services"
where
  "net_tnfs_start lw i phase req s =
     (case req of None \<Rightarrow> (NET_ERR_PARAM, s)
      | Some req \<Rightarrow>
          if req = [] \<or> TNFS_REQ_MAX < length req then (NET_ERR_PARAM, s)
          else (NET_PENDING, net_tnfs_fire lw i (on_tnfs i (\<lambda>x. x\<lparr>tnfs_phase := phase, tnfs_req := req,
                  tnfs_retries := TNFS_RETRIES, tnfs_eagain := TNFS_EAGAIN_MAX\<rparr>) s)))"

text \<open>The datagram waiting, if it answers the outstanding request.\<close>

definition tnfs_next_reply :: "nat \<Rightarrow> ('n, 'z) net_services \<Rightarrow> tnfs_reply option \<times> ('n, 'z) net_services" where
  "tnfs_next_reply i s =
     (let x = tnfs (hnd s i); cmd = (if 3 < length (tnfs_req x) then tnfs_req x ! 3 else 0) in
      if rx_count (rx (hnd s i)) < 8 then (None, s)
      else let (pkt, r) = net_udp_pop TNFS_PKT_MAX (rx (hnd s i)); s = on_h i (\<lambda>h. h\<lparr>rx := r\<rparr>) s in
        case (if pkt = [] then None else tnfs_parse_reply pkt (tnfs_seq x) cmd) of
          None \<Rightarrow> (None, s)
        | Some rep \<Rightarrow> (if tnfs_connid x = 0 \<or> t_connid rep = tnfs_connid x then Some rep else None, s))"

definition net_tnfs_poll :: "('n, 'y) net_lwip_scheme \<Rightarrow> nat \<Rightarrow> ('n, 'z) net_services \<Rightarrow> (u8 + tnfs_reply) \<times> ('n, 'z) net_services" where
  "net_tnfs_poll lw i s =
     (let (rep, s) = tnfs_next_reply i s; x = tnfs (hnd s i) in
      case rep of
        Some rep \<Rightarrow>
          if t_status rep = TNFS_EAGAIN
          then let back = (if t_backoff rep \<noteq> 0 then t_backoff rep else tnfs_retry_ms x) in
            if tnfs_eagain x = 0 then (Inl NET_ERR_CONN, s)
            else let t = net_now_ms lw s in
              (Inl NET_PENDING, on_tnfs i (\<lambda>x. x\<lparr>tnfs_eagain := tnfs_eagain x - 1, tnfs_retries := TNFS_RETRIES,
                 tnfs_deadline := t + ucast (if back \<noteq> 0 then back else TNFS_TIMEOUT_MS)\<rparr>) s)
          else (Inr rep, s)
      | None \<Rightarrow>
          if ms_reached (net_now_ms lw s) (tnfs_deadline x)
          then if tnfs_retries x = 0 then (Inl NET_ERR_CONN, s)
               else (Inl NET_PENDING, net_tnfs_fire lw i (on_tnfs i (\<lambda>x. x\<lparr>tnfs_retries := tnfs_retries x - 1\<rparr>) s))
          else (Inl NET_PENDING, s))"

definition net_tnfs_status :: "u8 \<Rightarrow> u8" where
  "net_tnfs_status status = (if status = TNFS_OK then NET_OK else if status = TNFS_EOF then NET_EOF else NET_ERR_CONN)"

definition net_tnfs_begin :: "('n, 'y) net_lwip_scheme \<Rightarrow> nat \<Rightarrow> ('n, 'z) net_services \<Rightarrow> u8 \<times> ('n, 'z) net_services" where
  "net_tnfs_begin lw i s =
     (case url_udp_socket lw i s of
        (Inl e, s) \<Rightarrow> (e, s)
      | (Inr u, s) \<Rightarrow>
          (let s = snd (on_net (udp_connect lw u (remote_ip (hnd s i)) (remote_port (hnd s i))) s);
               s = on_h i (\<lambda>h. h\<lparr>htype := NET_TYPE_UDP, hstate := NET_ST_CONNECTED\<rparr>) s;
               s = on_tnfs i (\<lambda>x. x\<lparr>tnfs_retry_ms := TNFS_TIMEOUT_MS, tnfs_seq := 1\<rparr>) s;
               n = tnfs_build_mount TNFS_REQ_MAX 1 (Some ''/'') None None in
           if n = None then url_failed i NET_ERR_PARAM s
           else net_tnfs_start lw i TNFS_PH_MOUNT n (on_h i (\<lambda>h. h\<lparr>url_phase := URL_CONNECTING\<rparr>) s)))"

definition url_after_resolve :: "('n, 'y) net_lwip_scheme \<Rightarrow> nat \<Rightarrow> ('n, 'z) net_services \<Rightarrow> u8 \<times> ('n, 'z) net_services" where
  "url_after_resolve lw i s =
     (if url_adapter (hnd s i) = NET_URL_UDP then net_udp_url_ready lw i s
      else if url_adapter (hnd s i) = NET_URL_TNFS then net_tnfs_begin lw i s
      else url_begin_connect lw i s)"

end
