(* ===== verification/NetDevice.thy ===== *)
theory NetDevice
  imports NetService
begin

text \<open>
  The commands 60 to 64 of the network service, which treat a URL as a file, and its hooks into the command register
  and the main loop (\<open>net_service.c\<close>).
\<close>

section \<open>Closing\<close>

definition tnfs_next_seq :: "nat \<Rightarrow> ('n, 'z) net_services \<Rightarrow> ('n, 'z) net_services" where
  "tnfs_next_seq i s = on_tnfs i (\<lambda>x. x\<lparr>tnfs_seq := tnfs_seq x + 1\<rparr>) s"

definition tnfs_teardown :: "('n, 'y) net_lwip_scheme \<Rightarrow> nat \<Rightarrow> ('n, 'z) net_services \<Rightarrow> ('n, 'z) net_services" where
  "tnfs_teardown lw i s =
     (let x = tnfs (hnd s i);
          s = (if tnfs_phase x = TNFS_PH_READY \<or> tnfs_phase x = TNFS_PH_READING
               then let s = tnfs_next_seq i s; q = tnfs_seq (tnfs (hnd s i));
                        req = (if tnfs_is_dir x then tnfs_build_closedir 16 (tnfs_connid x) q (tnfs_fd x)
                               else tnfs_build_close 16 (tnfs_connid x) q (tnfs_fd x)) in
                 net_tnfs_send_raw lw i (case req of Some r \<Rightarrow> r | None \<Rightarrow> []) s
               else s);
          s = tnfs_next_seq i s; req = tnfs_build_umount 16 (tnfs_connid x) (tnfs_seq (tnfs (hnd s i))) in
      net_tnfs_send_raw lw i (case req of Some r \<Rightarrow> r | None \<Rightarrow> []) s)"

definition do_close :: "('n, 'y) net_lwip_scheme \<Rightarrow> nat \<Rightarrow> ('n, 'z) net_services \<Rightarrow> u8 \<times> ('n, 'z) net_services" where
  "do_close lw i s =
     (let h = hnd s i in
      if hstate h = NET_ST_FREE then (NET_OK, on_h i (\<lambda>h. h\<lparr>url_phase := URL_START, last_err := NET_OK\<rparr>) s)
      else let s = (if is_url h \<and> url_adapter h = NET_URL_TNFS \<and> upcb h \<noteq> None \<and> tnfs_connid (tnfs h) \<noteq> 0
                    then tnfs_teardown lw i s else s) in
        (NET_OK, on_h i net_handle_reset (net_pcb_release lw i False s)))"

section \<open>Opening a URL\<close>

definition NET_OPEN_WRITE :: u8 where "NET_OPEN_WRITE = 8"
definition NET_OPEN_RW :: u8 where "NET_OPEN_RW = 12"
definition NET_OPEN_DIR :: u8 where "NET_OPEN_DIR = 13"

definition url_open_start ::
  "('n, 'y) net_lwip_scheme \<Rightarrow> nat \<Rightarrow> u8 \<Rightarrow> u8 \<Rightarrow> u16 \<Rightarrow> string \<Rightarrow> ('n, 'z) net_services \<Rightarrow> u8 \<times> ('n, 'z) net_services"
where
  "url_open_start lw i m adapter port host s =
     (if hstate (hnd s i) \<noteq> NET_ST_FREE then (NET_ERR_INUSE, s)
      else if \<not> address_ready lw (net_stack (svc s)) then (NET_PENDING, s)
      else let s = on_h i (\<lambda>h. (net_handle_reset h)\<lparr>is_url := True, url_adapter := adapter,
                 tnfs := tnfs_none\<lparr>tnfs_wr := m = NET_OPEN_WRITE \<or> m = NET_OPEN_RW\<rparr>,
                 htype := if adapter = NET_URL_UDP then NET_TYPE_UDP else NET_TYPE_TCP,
                 hstate := NET_ST_IDLE, remote_port := port\<rparr>) s in
        case net_parse_dotted host of
          Some ip \<Rightarrow> url_after_resolve lw i (on_h i (\<lambda>h. h\<lparr>remote_ip := ip\<rparr>) s)
        | None \<Rightarrow>
            (let ((e, ip), s) = on_net (dns_gethostbyname lw host i) s in
             if e = ERR_OK then url_after_resolve lw i (on_h i (\<lambda>h. h\<lparr>dns_ip := ip, remote_ip := ip\<rparr>) s)
             else if e = ERR_INPROGRESS
             then (NET_PENDING, on_h i (\<lambda>h. h\<lparr>url_phase := URL_RESOLVING, hstate := NET_ST_RESOLVING\<rparr>) s)
             else url_failed i NET_ERR_DNS s))"

definition url_open_resolving :: "('n, 'y) net_lwip_scheme \<Rightarrow> nat \<Rightarrow> ('n, 'z) net_services \<Rightarrow> u8 \<times> ('n, 'z) net_services" where
  "url_open_resolving lw i s =
     (if \<not> dns_done (hnd s i) then (NET_PENDING, s)
      else let s = on_h i (\<lambda>h. h\<lparr>dns_done := False\<rparr>) s in
        if \<not> dns_ok (hnd s i) then url_failed i NET_ERR_DNS s
        else url_after_resolve lw i (on_h i (\<lambda>h. h\<lparr>remote_ip := dns_ip h, hstate := NET_ST_IDLE\<rparr>) s))"

text \<open>The server has mounted: the session's number, its retry time, and the request for the file or directory.\<close>

definition tnfs_mounted ::
  "('n, 'y) net_lwip_scheme \<Rightarrow> nat \<Rightarrow> u8 \<Rightarrow> string \<Rightarrow> tnfs_reply \<Rightarrow> ('n, 'z) net_services \<Rightarrow> u8 \<times> ('n, 'z) net_services"
where
  "tnfs_mounted lw i m path rep s =
     (let rms = (case tnfs_reply_mount rep of Some (v, rms) \<Rightarrow> rms | None \<Rightarrow> 0);
          dir = (path \<noteq> [] \<and> last path = CHR ''/'' \<or> m = NET_OPEN_DIR);
          s = on_tnfs i (\<lambda>x. x\<lparr>tnfs_connid := t_connid rep,
                tnfs_retry_ms := if 100 \<le> rms \<and> rms \<le> 5000 then rms else tnfs_retry_ms x,
                tnfs_is_dir := dir, tnfs_seq := tnfs_seq x + 1\<rparr>) s;
          x = tnfs (hnd s i);
          oflags = (if m = NET_OPEN_RW then TNFS_O_RDWR OR TNFS_O_CREAT
                    else if tnfs_wr x then TNFS_O_WRONLY OR TNFS_O_CREAT OR TNFS_O_TRUNC else TNFS_O_RDONLY);
          n = (if dir then tnfs_build_opendir TNFS_REQ_MAX (tnfs_connid x) (tnfs_seq x) path
               else tnfs_build_open TNFS_REQ_MAX (tnfs_connid x) (tnfs_seq x) oflags (if tnfs_wr x then 0x01A4 else 0) path) in
      if n = None then url_failed i NET_ERR_PARAM s else net_tnfs_start lw i TNFS_PH_OPEN n s)"

definition url_open_tnfs ::
  "('n, 'y) net_lwip_scheme \<Rightarrow> nat \<Rightarrow> u8 \<Rightarrow> string \<Rightarrow> ('n, 'z) net_services \<Rightarrow> u8 \<times> ('n, 'z) net_services"
where
  "url_open_tnfs lw i m path s =
     (case net_tnfs_poll lw i s of
        (Inl r, s) \<Rightarrow> if r = NET_PENDING then (r, s) else url_failed i r s
      | (Inr rep, s) \<Rightarrow>
          if t_status rep \<noteq> TNFS_OK then url_failed i (net_tnfs_status (t_status rep)) s
          else if tnfs_phase (tnfs (hnd s i)) = TNFS_PH_MOUNT then tnfs_mounted lw i m path rep s
          else let fd = (if tnfs_is_dir (tnfs (hnd s i)) then tnfs_reply_opendir rep else tnfs_reply_open rep);
                   s = on_tnfs i (\<lambda>x. x\<lparr>tnfs_fd := case fd of Some f \<Rightarrow> f | None \<Rightarrow> tnfs_fd x, tnfs_phase := TNFS_PH_READY\<rparr>) s in
            (NET_OK, on_h i (\<lambda>h. h\<lparr>url_phase := URL_READY\<rparr>) s))"

definition url_open_connecting ::
  "('n, 'y) net_lwip_scheme \<Rightarrow> nat \<Rightarrow> string \<Rightarrow> string \<Rightarrow> ('n, 'z) net_services \<Rightarrow> u8 \<times> ('n, 'z) net_services"
where
  "url_open_connecting lw i host path s =
     (if hstate (hnd s i) = NET_ST_CONNECTING then (NET_PENDING, s)
      else if hstate (hnd s i) = NET_ST_ERROR then url_failed i NET_ERR_CONN s
      else if hstate (hnd s i) = NET_ST_CONNECTED
      then let (r, s) = (if url_adapter (hnd s i) = NET_URL_HTTP then net_http_send_request lw i host path s else (NET_OK, s)) in
        if r \<noteq> NET_OK then url_failed i r s else (NET_OK, on_h i (\<lambda>h. h\<lparr>url_phase := URL_READY\<rparr>) s)
      else (NET_PENDING, s))"

definition do_url_open :: "('n, 'y) net_lwip_scheme \<Rightarrow> nat \<Rightarrow> u32 \<Rightarrow> ('n, 'z) net_services \<Rightarrow> u8 \<times> ('n, 'z) net_services" where
  "do_url_open lw i cp s =
     (let h = hnd s i in
      if url_phase h = URL_READY then (NET_OK, s)
      else if url_phase h = URL_FAIL then (sticky_err h, s)
      else if \<not> net_string_ok (cp + 2) s then (NET_ERR_PARAM, s)
      else case net_url_parse (jim_string (JIM_ram s) (cp + 2)) (unat NET_MAX_HOSTNAME) 192 of
          None \<Rightarrow> (NET_ERR_PARAM, if hstate h \<noteq> NET_ST_FREE then on_h i (url_fail NET_ERR_PARAM) s else s)
        | Some (adapter, port, host, path) \<Rightarrow>
            if url_phase h = URL_START then url_open_start lw i (block_byte cp 1 s) adapter port host s
            else if url_phase h = URL_RESOLVING then url_open_resolving lw i s
            else if url_phase h = URL_CONNECTING
            then if url_adapter h = NET_URL_TNFS then url_open_tnfs lw i (block_byte cp 1 s) path s
                 else url_open_connecting lw i host path s
            else (NET_PENDING, s))"

section \<open>Reading\<close>

definition tnfs_read_start :: "('n, 'y) net_lwip_scheme \<Rightarrow> nat \<Rightarrow> u32 \<Rightarrow> ('n, 'z) net_services \<Rightarrow> u8 \<times> ('n, 'z) net_services" where
  "tnfs_read_start lw i mx s =
     (if mx = 0 then (NET_OK, s)
      else let s = tnfs_next_seq i s; x = tnfs (hnd s i); want = (if TNFS_READ_CHUNK < mx then ucast TNFS_READ_CHUNK else ucast mx);
               n = (if tnfs_is_dir x then tnfs_build_readdir TNFS_REQ_MAX (tnfs_connid x) (tnfs_seq x) (tnfs_fd x)
                    else tnfs_build_read TNFS_REQ_MAX (tnfs_connid x) (tnfs_seq x) (tnfs_fd x) want) in
        net_tnfs_start lw i TNFS_PH_READING n s)"

definition url_read_tnfs ::
  "('n, 'y) net_lwip_scheme \<Rightarrow> nat \<Rightarrow> u32 \<Rightarrow> u32 \<Rightarrow> u32 \<Rightarrow> ('n, 'z) net_services \<Rightarrow> u8 \<times> ('n, 'z) net_services"
where
  "url_read_tnfs lw i cp mx jimoff s =
     (let s = jim_wr24 cp 1 0 s; ph = tnfs_phase (tnfs (hnd s i)) in
      if ph = TNFS_PH_READY then tnfs_read_start lw i mx s
      else if ph \<noteq> TNFS_PH_READING then (NET_ERR_NOTOPEN, s)
      else case net_tnfs_poll lw i s of
          (Inl r, s) \<Rightarrow> (r, if r = NET_PENDING then s else on_tnfs i (\<lambda>x. x\<lparr>tnfs_phase := TNFS_PH_READY\<rparr>) s)
        | (Inr rep, s) \<Rightarrow>
            (let s = on_tnfs i (\<lambda>x. x\<lparr>tnfs_phase := TNFS_PH_READY\<rparr>) s in
             if t_status rep = TNFS_EOF then (NET_EOF, s)
             else if t_status rep \<noteq> TNFS_OK then (net_tnfs_status (t_status rep), s)
             else case (if tnfs_is_dir (tnfs (hnd s i)) then tnfs_reply_readdir rep else tnfs_reply_read rep) of
                 None \<Rightarrow> (NET_ERR_CONN, s)
               | Some data \<Rightarrow>
                   (let b = take (unat mx) data in (NET_OK, jim_wr24 cp 1 (of_nat (length b)) (net_deliver jimoff b s)))))"

text \<open>The response's headers are consumed before its body is delivered: a result while they are incomplete.\<close>

definition url_read_headers :: "nat \<Rightarrow> u32 \<Rightarrow> ('n, 'z) net_services \<Rightarrow> u8 option \<times> ('n, 'z) net_services" where
  "url_read_headers i cp s =
     (let hdr = net_http_find_headers (rx (hnd s i)) in
      if hdr = 0
      then let s = jim_wr24 cp 1 0 s; h = hnd s i in
        if rx_parked h \<or> NET_RX_RING_SIZE - 1 \<le> rx_count (rx h) then (Some NET_ERR_CONN, on_h i (\<lambda>h. h\<lparr>last_err := NET_ERR_CONN\<rparr>) s)
        else if rx_eof h then (Some NET_EOF, s)
        else if hstate h = NET_ST_ERROR then (Some (sticky_err h), s)
        else (Some NET_OK, s)
      else (None, on_h i (\<lambda>h. h\<lparr>http_code := net_http_parse_status (rx h), rx := ring_skip hdr (rx h), http_hdr_done := True\<rparr>) s))"

definition do_url_read :: "('n, 'y) net_lwip_scheme \<Rightarrow> nat \<Rightarrow> u32 \<Rightarrow> ('n, 'z) net_services \<Rightarrow> u8 \<times> ('n, 'z) net_services" where
  "do_url_read lw i cp s =
     (let mx = jim_rd24 cp 1 s; jimoff = block_word cp 4 s; h = hnd s i in
      if hstate h = NET_ST_FREE then (NET_ERR_NOTOPEN, s)
      else if \<not> net_buffer_ok jimoff mx then (NET_ERR_PARAM, s)
      else if url_adapter h = NET_URL_TNFS then url_read_tnfs lw i cp mx jimoff s
      else if url_adapter h = NET_URL_UDP
      then if rx_count (rx h) < 8 then (NET_OK, jim_wr24 cp 1 0 s)
           else let (peer, copy, s) = datagram_to_jim i jimoff mx s in (NET_OK, jim_wr24 cp 1 copy s)
      else let (r, s) = (if url_adapter h = NET_URL_HTTP \<and> \<not> http_hdr_done h then url_read_headers i cp s else (None, s)) in
        case r of Some r \<Rightarrow> (r, s) | None \<Rightarrow> stream_read i cp jimoff mx s)"

section \<open>Writing\<close>

definition url_write_tnfs :: "('n, 'y) net_lwip_scheme \<Rightarrow> nat \<Rightarrow> u32 \<Rightarrow> ('n, 'z) net_services \<Rightarrow> u8 \<times> ('n, 'z) net_services" where
  "url_write_tnfs lw i cp s =
     (let len = jim_rd24 cp 1 s; jimoff = block_word cp 4 s; x = tnfs (hnd s i) in
      if \<not> tnfs_wr x then (NET_ERR_NOTOPEN, s)
      else if \<not> net_buffer_ok jimoff len then (NET_ERR_PARAM, s)
      else if tnfs_phase x = TNFS_PH_READY
      then let want = (if TNFS_WRITE_CHUNK < len then TNFS_WRITE_CHUNK else len); s = jim_wr24 cp 1 0 s in
        if want = 0 then (NET_OK, s)
        else let s = tnfs_next_seq i s; x = tnfs (hnd s i) in
          net_tnfs_start lw i TNFS_PH_WRITING
            (tnfs_build_write TNFS_REQ_MAX (tnfs_connid x) (tnfs_seq x) (tnfs_fd x) (net_source_bytes s jimoff (unat want))) s
      else if tnfs_phase x \<noteq> TNFS_PH_WRITING then (NET_ERR_NOTOPEN, jim_wr24 cp 1 0 s)
      else case net_tnfs_poll lw i s of
          (Inl r, s) \<Rightarrow> (r, jim_wr24 cp 1 0 (if r = NET_PENDING then s else on_tnfs i (\<lambda>x. x\<lparr>tnfs_phase := TNFS_PH_READY\<rparr>) s))
        | (Inr rep, s) \<Rightarrow>
            (let s = on_tnfs i (\<lambda>x. x\<lparr>tnfs_phase := TNFS_PH_READY\<rparr>) s in
             if t_status rep \<noteq> TNFS_OK then (net_tnfs_status (t_status rep), jim_wr24 cp 1 0 s)
             else let wrote = (case tnfs_reply_write rep of Some w \<Rightarrow> ucast w | None \<Rightarrow> 0);
                      wrote = (if TNFS_WRITE_CHUNK < wrote then TNFS_WRITE_CHUNK else wrote) in
               (NET_OK, jim_wr24 cp 1 wrote s)))"

definition url_write_telnet :: "('n, 'y) net_lwip_scheme \<Rightarrow> nat \<Rightarrow> u32 \<Rightarrow> ('n, 'z) net_services \<Rightarrow> u8 \<times> ('n, 'z) net_services" where
  "url_write_telnet lw i cp s =
     (let len = jim_rd24 cp 1 s; jimoff = block_word cp 4 s in
      case (if htype (hnd s i) \<noteq> NET_TYPE_TCP \<or> hstate (hnd s i) \<noteq> NET_ST_CONNECTED then None else tpcb (hnd s i)) of
        None \<Rightarrow> (NET_ERR_NOTOPEN, s)
      | Some p \<Rightarrow>
          if \<not> net_buffer_ok jimoff len then (NET_ERR_PARAM, s)
          else let avail = altcp_sndbuf lw p (net_stack (svc s)); oc = (if avail < 512 then unat avail else 512) in
            if oc = 0 then (NET_OK, jim_wr24 cp 1 0 s)
            else let (esc, consumed) = telnet_escape (net_source_bytes s jimoff (unat len)) oc in
              if esc = [] then (NET_OK, jim_wr24 cp 1 (of_nat consumed) s)
              else let (e, s) = on_net (altcp_write lw p esc) s in
                if e = ERR_MEM then (NET_OK, jim_wr24 cp 1 0 s)
                else if e \<noteq> ERR_OK then (NET_ERR_CONN, s)
                else (NET_OK, jim_wr24 cp 1 (of_nat consumed) (run_net (wifi_lwip_rx_kick lw) (run_net (altcp_output lw p) s))))"

definition do_url_write :: "('n, 'y) net_lwip_scheme \<Rightarrow> nat \<Rightarrow> u32 \<Rightarrow> ('n, 'z) net_services \<Rightarrow> u8 \<times> ('n, 'z) net_services" where
  "do_url_write lw i cp s =
     (let h = hnd s i; len = jim_rd24 cp 1 s; jimoff = block_word cp 4 s in
      if url_adapter h = NET_URL_TNFS then url_write_tnfs lw i cp s
      else if url_adapter h = NET_URL_TELNET then url_write_telnet lw i cp s
      else if htype h \<noteq> NET_TYPE_UDP then do_send lw i cp s
      else case upcb h of
          None \<Rightarrow> (NET_ERR_NOTOPEN, s)
        | Some u \<Rightarrow>
            if 0xFFFF < len \<or> \<not> net_buffer_ok jimoff len then (NET_ERR_PARAM, s)
            else case net_udp_send lw u (net_source_bytes s jimoff (unat len)) (remote_ip h) (remote_port h) s of
                (None, s) \<Rightarrow> (NET_ERR_NOMEM, s)
              | (Some ok, s) \<Rightarrow>
                  if \<not> ok then (NET_ERR_CONN, s) else (NET_OK, jim_wr24 cp 1 len (run_net (wifi_lwip_rx_kick lw) s)))"

definition do_url_status :: "nat \<Rightarrow> u32 \<Rightarrow> ('n, 'z) net_services \<Rightarrow> u8 \<times> ('n, 'z) net_services" where
  "do_url_status i cp s =
     (let h = hnd s i; ready = url_phase h = URL_READY; failed = (url_phase h = URL_FAIL \<or> hstate h = NET_ST_ERROR);
          flags = (if ready then NET_FLAG_CONNECTED else 0) OR (if rx_eof h then NET_FLAG_RX_EOF else 0) OR
            (if failed then NET_FLAG_ERROR else 0) OR (if rx_count (rx h) \<noteq> 0 then NET_FLAG_RX_READY else 0) in
      (NET_OK, put_bytes (cp + 1) (u16_bytes (rx_count (rx h)) @
         [if ready then 1 else 0, if failed then sticky_err h else 0, hstate h, flags] @ u16_bytes (http_code h)) s))"

section \<open>Dispatch\<close>

definition NET_CMD_OPEN :: u8 where "NET_CMD_OPEN = 45"
definition NET_CMD_DNS :: u8 where "NET_CMD_DNS = 46"
definition NET_CMD_CONNECT :: u8 where "NET_CMD_CONNECT = 47"
definition NET_CMD_BIND :: u8 where "NET_CMD_BIND = 48"
definition NET_CMD_LISTEN :: u8 where "NET_CMD_LISTEN = 49"
definition NET_CMD_SEND :: u8 where "NET_CMD_SEND = 50"
definition NET_CMD_RECV :: u8 where "NET_CMD_RECV = 51"
definition NET_CMD_RECV_AVAIL :: u8 where "NET_CMD_RECV_AVAIL = 52"
definition NET_CMD_CLOSE :: u8 where "NET_CMD_CLOSE = 53"
definition NET_CMD_STATUS :: u8 where "NET_CMD_STATUS = 54"
definition NET_CMD_UDP_SENDTO :: u8 where "NET_CMD_UDP_SENDTO = 55"
definition NET_CMD_UDP_RECVFROM :: u8 where "NET_CMD_UDP_RECVFROM = 56"
definition NET_CMD_IRQ :: u8 where "NET_CMD_IRQ = 57"
definition NET_CMD_URL_OPEN :: u8 where "NET_CMD_URL_OPEN = 60"
definition NET_CMD_URL_READ :: u8 where "NET_CMD_URL_READ = 61"
definition NET_CMD_URL_WRITE :: u8 where "NET_CMD_URL_WRITE = 62"
definition NET_CMD_URL_CLOSE :: u8 where "NET_CMD_URL_CLOSE = 63"
definition NET_CMD_URL_STATUS :: u8 where "NET_CMD_URL_STATUS = 64"

lemmas net_commands = NET_CMD_OPEN_def NET_CMD_DNS_def NET_CMD_CONNECT_def NET_CMD_BIND_def NET_CMD_LISTEN_def NET_CMD_SEND_def NET_CMD_RECV_def NET_CMD_RECV_AVAIL_def NET_CMD_CLOSE_def
  NET_CMD_STATUS_def NET_CMD_UDP_SENDTO_def NET_CMD_UDP_RECVFROM_def NET_CMD_IRQ_def NET_CMD_URL_OPEN_def NET_CMD_URL_READ_def NET_CMD_URL_WRITE_def NET_CMD_URL_CLOSE_def NET_CMD_URL_STATUS_def

definition net_dispatch :: "('n, 'y) net_lwip_scheme \<Rightarrow> u32 \<Rightarrow> u8 \<Rightarrow> ('n, 'z) net_services \<Rightarrow> u8 \<times> ('n, 'z) net_services" where
  "net_dispatch lw cp data s =
     (let cmd = block_byte cp 0 s; i = unat (data AND 0x0F) in
      if \<not> net_enabled (svc s) then (NET_ERR_DISABLED, s)
      else if NET_MAX_HANDLES \<le> i then (NET_ERR_PARAM, s)
      else if cmd = NET_CMD_OPEN then do_open lw i cp s
      else if cmd = NET_CMD_DNS then do_dns lw i cp s
      else if cmd = NET_CMD_CONNECT then do_connect lw i cp s
      else if cmd = NET_CMD_BIND then do_bind lw i cp s
      else if cmd = NET_CMD_LISTEN then do_listen lw i cp s
      else if cmd = NET_CMD_SEND then do_send lw i cp s
      else if cmd = NET_CMD_RECV then do_recv i cp s
      else if cmd = NET_CMD_RECV_AVAIL then do_recv_avail i cp s
      else if cmd = NET_CMD_CLOSE then do_close lw i s
      else if cmd = NET_CMD_STATUS then do_status i cp s
      else if cmd = NET_CMD_UDP_SENDTO then do_udp_sendto lw i cp s
      else if cmd = NET_CMD_UDP_RECVFROM then do_udp_recvfrom i cp s
      else if cmd = NET_CMD_IRQ then (NET_OK, on_svc (\<lambda>w. w\<lparr>net_irq_armed := block_byte cp 1 s \<noteq> 0\<rparr>) s)
      else if cmd = NET_CMD_URL_OPEN then do_url_open lw i cp s
      else if cmd = NET_CMD_URL_READ then do_url_read lw i cp s
      else if cmd = NET_CMD_URL_WRITE then do_url_write lw i cp s
      else if cmd = NET_CMD_URL_CLOSE then do_close lw i s
      else if cmd = NET_CMD_URL_STATUS then do_url_status i cp s
      else (NET_ERR_UNSUPPORTED, s))"

section \<open>The mailbox\<close>

definition net_update_irq :: "('n, 'z) net_services \<Rightarrow> ('n, 'z) net_services" where
  "net_update_irq s =
     (let any = (net_irq_armed (svc s) \<and> list_ex (\<lambda>i. rx_count (rx (hnd s i)) \<noteq> 0) [0..<NET_MAX_HANDLES]) in
      if any \<noteq> net_irq_state (svc s)
      then on_svc (\<lambda>w. w\<lparr>net_irq_state := any\<rparr>) (services_irq_set (net_source (svc s)) any s)
      else s)"

definition net_service_command :: "u32 \<Rightarrow> nat \<Rightarrow> u8 \<Rightarrow> ('n, 'z) net_services \<Rightarrow> ('n, 'z) net_services" where
  "net_service_command cp addr data s =
     reply addr NET_BUSY (on_svc (\<lambda>w. w\<lparr>net_pending_cp := cp, net_pending_addr := addr, net_pending_data := data, net_pending := True\<rparr>) s)"

definition net_teardown :: "('n, 'y) net_lwip_scheme \<Rightarrow> ('n, 'z) net_services \<Rightarrow> ('n, 'z) net_services" where
  "net_teardown lw s =
     on_svc (\<lambda>w. w\<lparr>net_irq_armed := False, net_reset_pending := False\<rparr>)
       (fold (\<lambda>i s. on_h i net_handle_reset (net_pcb_release lw i True s)) [0..<NET_MAX_HANDLES] s)"

definition net_execute :: "('n, 'y) net_lwip_scheme \<Rightarrow> ('n, 'z) net_services \<Rightarrow> ('n, 'z) net_services" where
  "net_execute lw s =
     (let cp = net_pending_cp (svc s); addr = net_pending_addr (svc s); data = net_pending_data (svc s);
          (r, s) = net_dispatch lw cp data (on_svc (\<lambda>w. w\<lparr>net_pending := False\<rparr>) s) in
      reply addr r s)"

definition net_service_poll :: "('n, 'y) net_lwip_scheme \<Rightarrow> ('n, 'z) net_services \<Rightarrow> ('n, 'z) net_services" where
  "net_service_poll lw s =
     (let s = (if net_reset_pending (svc s) then net_teardown lw s else s);
          s = (if net_pending (svc s) then net_execute lw s else s) in
      net_update_irq s)"

definition net_service_init ::
  "(string \<Rightarrow> nat) \<Rightarrow> (string \<times> string) list \<Rightarrow> u8 \<Rightarrow> u8 \<Rightarrow> ('n, 'z) net_services \<Rightarrow> ('n, 'z) net_services"
where
  "net_service_init fn cfg instance address s =
     (let s = on_svc (\<lambda>w. w\<lparr>net_source := instance, net_enabled := config_get_bool cfg ''net_enable'', net_reset_pending := True\<rparr>) s;
          s = snd (services_register SERVICE_CMD_NET_FIRST SERVICE_CMD_NET_LAST (fn ''net_service_command'') s);
          s = on_fred (Pi1MHz_Register_Poll (fn ''net_service_poll'')) s in
      services_irq_set (net_source (svc s)) False s)"

end
