(* ===== verification/NetSafe.thy ===== *)
theory NetSafe
  imports NetDevice AunServiceProps
begin

text \<open>
  Whatever the Beeb puts into a command block and whatever the network delivers, the network service indexes its
  tables within their bounds, stores only in the buffer region, and answers every command with bit 7 clear.
\<close>

section \<open>The invariant\<close>

definition handle_ok :: "net_handle \<Rightarrow> bool" where
  "handle_ok h \<longleftrightarrow> last_err h < 0x80 \<and> unat (rx_head (rx h)) < 8192 \<and> unat (rx_tail (rx h)) < 8192 \<and>
     length (tn_seen (telnet h)) = 32 \<and> accept_h h < NET_MAX_HANDLES \<and> length (tnfs_req (tnfs h)) \<le> TNFS_REQ_MAX"

definition net_ok :: "('n, 'z) net_services \<Rightarrow> bool" where
  "net_ok s \<longleftrightarrow> 2 \<le> unat (JIM_ram_size s) \<and> (\<forall>i. handle_ok (hnd s i))"

text \<open>The fields that commands and callbacks leave to the main loop.\<close>

definition same_box :: "('n, 'z) net_services \<Rightarrow> ('n, 'z) net_services \<Rightarrow> bool" where
  "same_box s t \<longleftrightarrow> net_pending (svc t) = net_pending (svc s) \<and> net_pending_cp (svc t) = net_pending_cp (svc s) \<and>
     net_pending_addr (svc t) = net_pending_addr (svc s) \<and> net_pending_data (svc t) = net_pending_data (svc s) \<and>
     net_reset_pending (svc t) = net_reset_pending (svc s) \<and> net_source (svc t) = net_source (svc s) \<and>
     net_irq_state (svc t) = net_irq_state (svc s) \<and> net_enabled (svc t) = net_enabled (svc s) \<and>
     ram_address t = ram_address s \<and> nirq_mask (fred t) = nirq_mask (fred s)"

definition safe :: "('n, 'z) net_services \<Rightarrow> ('n, 'z) net_services \<Rightarrow> bool" where
  "safe s t \<longleftrightarrow> (\<forall>addr. confined addr s t) \<and> net_ok t \<and> same_box s t"

definition net_answers :: "('n, 'z) net_services \<Rightarrow> u8 \<times> ('n, 'z) net_services \<Rightarrow> bool" where
  "net_answers s x \<longleftrightarrow> fst x < 0x80 \<and> safe s (snd x)"

section \<open>Steps\<close>

lemma on_net_parts [simp]: "fst (on_net f s) = fst (f (net_stack (svc s)))" "snd (on_net f s) = run_net (\<lambda>l. snd (f l)) s"
  by (simp_all add: on_net_def)

lemma net_jim [simp]:
  "JIM_ram (on_h i f s) = JIM_ram s" "JIM_ram (run_net g s) = JIM_ram s"
  "JIM_ram_size (on_h i f s) = JIM_ram_size s" "JIM_ram_size (run_net g s) = JIM_ram_size s"
  "JIM_ram_size (put_bytes a b s) = JIM_ram_size s" "JIM_ram_size (net_deliver off b s) = JIM_ram_size s"
  by (simp_all add: on_h_def run_net_def on_svc_def put_bytes_def net_deliver_def set_mem_def)

lemma hnd_steps [simp]:
  "hnd (on_h i f s) j = (if j = i then f (hnd s i) else hnd s j)" "hnd (run_net g s) j = hnd s j"
  "hnd (put_bytes a b s) j = hnd s j" "hnd (jim_wr24 cp k v s) j = hnd s j" "hnd (net_deliver off b s) j = hnd s j"
  "hnd (net_ip_to_wire ip cp k s) j = hnd s j"
  by (simp_all add: hnd_def on_h_def run_net_def on_svc_def put_bytes_def net_deliver_def set_mem_def jim_wr24_def net_ip_to_wire_def)

lemma box_steps [simp]:
  "same_box s s" "same_box s (on_h i f t) = same_box s t" "same_box s (run_net g t) = same_box s t"
  "same_box s (put_bytes a b t) = same_box s t" "same_box s (net_deliver off b t) = same_box s t"
  by (simp_all add: same_box_def on_h_def run_net_def on_svc_def put_bytes_def net_deliver_def set_mem_def)

lemma safe_refl [intro]: "net_ok s \<Longrightarrow> safe s s"
  by (simp add: safe_def)

lemma safe_ok: "safe s t \<Longrightarrow> handle_ok (hnd t i)"
  by (simp add: safe_def net_ok_def)

lemma safe_on_h: "safe s t \<Longrightarrow> (handle_ok (hnd t i) \<Longrightarrow> handle_ok (f (hnd t i))) \<Longrightarrow> safe s (on_h i f t)"
  by (auto simp: safe_def net_ok_def) (simp add: on_h_def confined_svc)

lemma safe_run_net: "safe s t \<Longrightarrow> safe s (run_net f t)"
  by (auto simp: safe_def net_ok_def) (simp add: run_net_def confined_svc)

lemma safe_block:
  assumes "safe s t" "net_ok s" "cp = command_block s d" "unat k + length b \<le> 512"
  shows "safe s (put_bytes (cp + k) b t)"
proof -
  have "confined addr s (put_bytes (command_block s d + of_nat (unat k)) b t)" for addr
    using assms by (intro kept_put) (simp_all add: safe_def net_ok_def)
  then show ?thesis using assms by (simp add: safe_def net_ok_def)
qed

lemma net_buffer_iff: "net_buffer_ok off n \<longleftrightarrow> unat off + unat n \<le> 2 ^ 25"
  using buffer_ok_iff [of off n] by (simp add: net_buffer_ok_def discaccess_buffer_ok_def)

lemma safe_deliver:
  assumes "safe s t" "net_ok s" "net_buffer_ok off n" "length b \<le> unat n"
  shows "safe s (net_deliver off b t)"
proof -
  have "confined addr s (net_deliver off b t)" for addr
    unfolding net_deliver_def using assms by (intro confined_buffer) (auto simp: safe_def net_ok_def net_buffer_iff)
  then show ?thesis using assms(1) by (simp add: safe_def net_ok_def)
qed

lemma safe_wr24:
  "safe s t \<Longrightarrow> net_ok s \<Longrightarrow> cp = command_block s d \<Longrightarrow> unat k \<le> 500 \<Longrightarrow> safe s (jim_wr24 cp k v t)"
  unfolding jim_wr24_def by (rule safe_block) simp_all

lemma safe_to_wire:
  "safe s t \<Longrightarrow> net_ok s \<Longrightarrow> cp = command_block s d \<Longrightarrow> unat k \<le> 500 \<Longrightarrow> safe s (net_ip_to_wire ip cp k t)"
  unfolding net_ip_to_wire_def by (rule safe_block) (simp_all add: ip_octets_def)

lemmas safe_intros = safe_refl safe_on_h safe_run_net safe_wr24 safe_to_wire

section \<open>Rings\<close>

lemma ring_step_bound: "unat (ring_step p) < 8192"
  by (simp add: unat_ring_step)

lemma fold_store_bounds:
  "unat (rx_head r) < 8192 \<Longrightarrow> unat (rx_head (fold ring_store bs r)) < 8192" "rx_tail (fold ring_store bs r) = rx_tail r"
  by (induction bs arbitrary: r) (simp_all add: ring_store_def ring_step_bound)

definition idx_ok :: "rx_ring \<Rightarrow> bool" where
  "idx_ok r \<longleftrightarrow> unat (rx_head r) < 8192 \<and> unat (rx_tail r) < 8192"

lemma idx_put_mem: "idx_ok r \<Longrightarrow> idx_ok (ring_put_mem bs r)"
  by (simp add: idx_ok_def ring_put_mem_def Let_def fold_store_bounds)

lemma idx_put_pbuf: "idx_ok r \<Longrightarrow> idx_ok (ring_put_pbuf p r)"
  unfolding ring_put_pbuf_def by (induction p arbitrary: r) (simp_all add: idx_put_mem)

lemma fetch_fields: "rx_head (snd (ring_fetch n r)) = rx_head r" "length (fst (ring_fetch n r)) = n"
  "unat (rx_tail r) < 8192 \<Longrightarrow> unat (rx_tail (snd (ring_fetch n r))) < 8192"
  by (induction n arbitrary: r) (simp_all add: case_prod_beta Let_def ring_step_bound)

lemma idx_get_mem: "idx_ok r \<Longrightarrow> idx_ok (snd (ring_get_mem n r))"
  by (simp add: idx_ok_def ring_get_mem_def case_prod_beta Let_def fetch_fields)

lemma length_get_mem: "length (fst (ring_get_mem n r)) = n"
  by (simp add: ring_get_mem_def case_prod_beta Let_def fetch_fields)

lemma idx_get: "idx_ok r \<Longrightarrow> idx_ok (snd (ring_get n r))" and length_get: "length (fst (ring_get n r)) \<le> n"
  by (simp_all add: ring_get_def idx_get_mem length_get_mem)

lemma idx_skip: "idx_ok r \<Longrightarrow> idx_ok (ring_skip n r)"
  by (induction n r rule: ring_skip.induct) (subst ring_skip.simps, simp add: Let_def idx_get_mem)

lemma idx_header: "idx_ok r \<Longrightarrow> idx_ok (snd (snd (ring_header r)))" and length_peer: "length (fst (ring_header r)) = 6"
  by (simp_all add: ring_header_def case_prod_beta Let_def idx_get_mem length_get_mem)

lemma idx_pop: "idx_ok r \<Longrightarrow> idx_ok (snd (net_udp_pop cap r))"
  by (simp add: net_udp_pop_def case_prod_beta Let_def idx_get_mem idx_header idx_skip)

lemmas idx_intros = idx_put_mem idx_put_pbuf idx_get_mem idx_get idx_skip idx_header idx_pop

lemma handle_ok_parts:
  "handle_ok h \<longleftrightarrow> last_err h < 0x80 \<and> idx_ok (rx h) \<and> length (tn_seen (telnet h)) = 32 \<and> accept_h h < NET_MAX_HANDLES \<and>
     length (tnfs_req (tnfs h)) \<le> TNFS_REQ_MAX"
  by (auto simp: handle_ok_def idx_ok_def)

lemma handle_reset_ok [simp]: "handle_ok (net_handle_reset h)"
  by (simp add: handle_ok_def net_handle_reset_def tnfs_none_def telnet_reset_def NET_MAX_HANDLES_def)

lemmas handle_reset_parts [simp] = handle_reset_ok [unfolded handle_ok_parts]

section \<open>Callbacks\<close>

lemma filter_seen: "length (tn_seen ctx) = 32 \<Longrightarrow> length (tn_seen (tr_ctx (telnet_filter ctx xs oc rc))) = 32"
  by (simp add: telnet_filter_def run_seen)

lemma safe_telnet: "safe s t \<Longrightarrow> safe s (telnet_segment lw i bs t)"
proof (induction lw i bs t rule: telnet_segment.induct)
  case (1 lw i bs t)
  show ?case
  proof (cases "bs = []")
    case False
    define r where "r = telnet_filter (telnet (hnd t i)) (take 256 bs) 256 300"
    define t1 where "t1 = on_h i (\<lambda>h. h\<lparr>telnet := tr_ctx r, rx := if tr_out r \<noteq> [] then ring_put_mem (tr_out r) (rx h) else rx h\<rparr>) t"
    have "safe s t1"
      unfolding t1_def using 1(2) by (rule safe_on_h) (auto simp: handle_ok_parts r_def filter_seen idx_put_mem)
    define t2 where "t2 = (if tr_rep r \<noteq> [] then case tpcb (hnd t1 i) of None \<Rightarrow> t1 | Some p \<Rightarrow>
        (let (e, t) = on_net (altcp_write lw p (tr_rep r)) t1 in if e = ERR_OK then run_net (altcp_output lw p) t else t) else t1)"
    have "safe s t2"
      unfolding t2_def using \<open>safe s t1\<close> by (auto simp: case_prod_beta Let_def safe_run_net split: option.split)
    moreover have "telnet_segment lw i bs t = telnet_segment lw i (drop 256 bs) t2"
      using False by (subst telnet_segment.simps) (simp only: Let_def t2_def t1_def r_def if_False simp_thms)
    ultimately show ?thesis using 1(1) [OF False r_def t1_def t2_def] by simp
  qed (use 1(2) in \<open>simp add: telnet_segment.simps\<close>)
qed

lemma conn_code [simp]: "NET_ERR_CONN < 0x80"
  by (simp add: NET_ERR_CONN_def)

lemma udp_recv_safe: "net_ok s \<Longrightarrow> safe s (net_udp_recv i p ip port s)"
  by (auto simp: net_udp_recv_def Let_def handle_ok_parts idx_intros intro!: safe_intros)

lemma tcp_recv_safe: "net_ok s \<Longrightarrow> safe s (snd (net_tcp_recv lw i pcb p ok s))"
  by (auto simp: net_tcp_recv_def Let_def handle_ok_parts net_fail_def idx_intros intro!: safe_intros safe_telnet split: option.split)

lemma tcp_err_safe: "net_ok s \<Longrightarrow> safe s (net_tcp_err i s)"
  by (auto simp: net_tcp_err_def handle_ok_parts net_fail_def intro!: safe_intros)

lemma tcp_connected_safe: "net_ok s \<Longrightarrow> safe s (net_tcp_connected i ok s)"
  by (auto simp: net_tcp_connected_def handle_ok_parts net_fail_def intro!: safe_intros)

lemma dns_found_safe: "net_ok s \<Longrightarrow> safe s (net_dns_found i ip s)"
  by (auto simp: net_dns_found_def Let_def handle_ok_parts intro!: safe_intros split: option.split)

lemma free_handle_bound: "find P [0..<n] = Some j \<Longrightarrow> j < n"
  by (auto simp: find_Some_iff)

lemma tcp_accept_safe: "net_ok s \<Longrightarrow> safe s (snd (net_tcp_accept lw i newpcb ip port ok s))"
  unfolding net_tcp_accept_def net_tcp_bind_callbacks_def Let_def
  by (auto simp: handle_ok_parts intro!: safe_intros split: option.split dest: free_handle_bound)

section \<open>Sockets\<close>

lemma net_answers_pair [simp]: "net_answers s (r, t) \<longleftrightarrow> r < 0x80 \<and> safe s t"
  by (simp add: net_answers_def)

lemma open_safe: "net_ok s \<Longrightarrow> net_answers s (do_open lw i cp s)"
  by (auto simp: do_open_def Let_def case_prod_beta handle_ok_parts net_results intro!: safe_intros split: option.split)

lemma bind_safe: "net_ok s \<Longrightarrow> net_answers s (do_bind lw i cp s)"
  by (auto simp: do_bind_def Let_def case_prod_beta handle_ok_parts net_results intro!: safe_intros split: option.split)

lemma listen_safe: "net_ok s \<Longrightarrow> cp = command_block s d \<Longrightarrow> net_answers s (do_listen lw i cp s)"
  by (auto simp: do_listen_def Let_def case_prod_beta handle_ok_parts net_results intro!: safe_intros safe_block split: option.split)

lemma udp_send_safe: "safe s t \<Longrightarrow> safe s (snd (net_udp_send lw u data ip port t))"
  by (auto simp: net_udp_send_def Let_def case_prod_beta intro!: safe_intros split: option.split)

lemma sendto_safe: "net_ok s \<Longrightarrow> cp = command_block s d \<Longrightarrow> net_answers s (do_udp_sendto lw i cp s)"
  by (auto simp: do_udp_sendto_def Let_def case_prod_beta net_results intro!: safe_intros udp_send_safe split: option.split)

lemma ring_to_jim_safe:
  assumes "safe s t" "net_ok s" "net_buffer_ok off n" "unat mx \<le> unat n"
  shows "safe s (snd (ring_to_jim i off mx t))"
  using assms(1) safe_deliver [OF assms(1-3), of "fst (ring_get (unat mx) (rx (hnd t i)))"] length_get [of "unat mx" "rx (hnd t i)"] assms(4)
  by (auto simp: ring_to_jim_def case_prod_beta handle_ok_parts idx_intros intro!: safe_intros)

lemma copy_bound: "unat (of_nat (if dglen < unat mx then dglen else unat mx) :: u32) \<le> unat (mx :: u32)"
  by (auto simp: unat_of_nat intro: order_trans [OF mod_less_eq_dividend])

lemma datagram_safe:
  assumes "safe s t" "net_ok s" "net_buffer_ok off mx"
  shows "safe s (snd (snd (datagram_to_jim i off mx t)))"
proof -
  define r where "r = ring_header (rx (hnd t i))"
  define n :: u32 where "n = of_nat (if fst (snd r) < unat mx then fst (snd r) else unat mx)"
  have "safe s (on_h i (\<lambda>h. h\<lparr>rx := snd (snd r)\<rparr>) t)"
    using assms(1) by (rule safe_on_h) (auto simp: handle_ok_parts idx_header r_def)
  then have "safe s (snd (ring_to_jim i off n (on_h i (\<lambda>h. h\<lparr>rx := snd (snd r)\<rparr>) t)))"
    by (rule ring_to_jim_safe [OF _ assms(2,3)]) (simp only: n_def copy_bound)
  then show ?thesis
    by (simp only: datagram_to_jim_def case_prod_beta Let_def snd_conv flip: r_def n_def)
       (auto simp: handle_ok_parts idx_skip intro!: safe_on_h)
qed

lemma recvfrom_safe: "net_ok s \<Longrightarrow> cp = command_block s d \<Longrightarrow> net_answers s (do_udp_recvfrom i cp s)"
  by (auto simp: do_udp_recvfrom_def Let_def case_prod_beta net_results length_peer
      intro!: safe_intros datagram_safe safe_block)

lemma dns_safe: "net_ok s \<Longrightarrow> cp = command_block s d \<Longrightarrow> net_answers s (do_dns lw i cp s)"
  by (auto simp: do_dns_def Let_def case_prod_beta handle_ok_parts net_results intro!: safe_intros)

lemma release_safe: "safe s t \<Longrightarrow> safe s (net_pcb_release lw i ab t)"
  by (auto simp: net_pcb_release_def Let_def case_prod_beta handle_ok_parts intro!: safe_intros split: option.split)

lemma start_connect_safe: "safe s t \<Longrightarrow> net_answers s (net_start_connect lw i t)"
  by (auto simp: net_start_connect_def net_tcp_bind_callbacks_def Let_def case_prod_beta handle_ok_parts net_fail_def net_results
      intro!: safe_intros release_safe split: option.split)

lemma connect_safe: "net_ok s \<Longrightarrow> net_answers s (do_connect lw i cp s)"
  by (auto simp: do_connect_def Let_def handle_ok_parts net_results intro!: safe_intros start_connect_safe)

lemma send_safe: "net_ok s \<Longrightarrow> cp = command_block s d \<Longrightarrow> net_answers s (do_send lw i cp s)"
  by (auto simp: do_send_def Let_def case_prod_beta net_results intro!: safe_intros split: option.split)

lemma sticky_code: "handle_ok h \<Longrightarrow> sticky_err h < 0x80"
  by (simp add: sticky_err_def handle_ok_def)

lemma stream_read_safe:
  assumes "safe s t" "net_ok s" "cp = command_block s d" "net_buffer_ok off mx"
  shows "net_answers s (stream_read i cp off mx t)"
proof -
  have r: "safe s (snd (ring_to_jim i off mx t))" by (rule ring_to_jim_safe [OF assms(1,2,4)]) simp
  then have "safe s (jim_wr24 cp 1 v (snd (ring_to_jim i off mx t)))" for v
    by (rule safe_wr24) (use assms(2,3) in simp_all)
  with sticky_code [OF safe_ok [OF r, of i]] show ?thesis by (auto simp: stream_read_def Let_def case_prod_beta net_results)
qed

lemma recv_safe: "net_ok s \<Longrightarrow> cp = command_block s d \<Longrightarrow> net_answers s (do_recv i cp s)"
  by (auto simp: do_recv_def Let_def net_results intro!: safe_intros stream_read_safe)

lemma avail_safe: "net_ok s \<Longrightarrow> cp = command_block s d \<Longrightarrow> net_answers s (do_recv_avail i cp s)"
  by (auto simp: do_recv_avail_def net_results intro!: safe_intros)

lemma status_safe: "net_ok s \<Longrightarrow> cp = command_block s d \<Longrightarrow> net_answers s (do_status i cp s)"
  by (auto simp: do_status_def Let_def net_results intro!: safe_intros safe_block)

lemmas socket_safe = open_safe bind_safe listen_safe sendto_safe recvfrom_safe dns_safe connect_safe send_safe recv_safe
  avail_safe status_safe

section \<open>The N: device\<close>

lemma on_tnfs_handle [simp]: "hnd (on_tnfs i f s) j = (if j = i then (hnd s i)\<lparr>tnfs := f (tnfs (hnd s i))\<rparr> else hnd s j)"
  by (simp add: on_tnfs_def)

lemma safe_on_tnfs:
  "safe s t \<Longrightarrow> (length (tnfs_req (tnfs (hnd t i))) \<le> TNFS_REQ_MAX \<Longrightarrow> length (tnfs_req (f (tnfs (hnd t i)))) \<le> TNFS_REQ_MAX) \<Longrightarrow>
   safe s (on_tnfs i f t)"
  unfolding on_tnfs_def by (rule safe_on_h) (auto simp: handle_ok_parts)

lemma url_failed_safe: "safe s t \<Longrightarrow> e < 0x80 \<Longrightarrow> net_answers s (url_failed i e t)"
  by (auto simp: url_failed_def url_fail_def handle_ok_parts intro!: safe_on_h)

lemma begin_connect_safe: "safe s t \<Longrightarrow> net_answers s (url_begin_connect lw i t)"
  using start_connect_safe [of s t lw i]
  by (auto simp: url_begin_connect_def case_prod_beta net_answers_def handle_ok_parts url_failed_def url_fail_def intro!: safe_on_h)

lemma udp_socket_safe:
  assumes "safe s t"
  shows "safe s (snd (url_udp_socket lw i t))" "fst (url_udp_socket lw i t) = Inl e \<Longrightarrow> e < 0x80"
  using assms
  by (auto simp: url_udp_socket_def Let_def case_prod_beta url_fail_def handle_ok_parts net_results intro!: safe_intros
      split: option.splits if_splits)

lemma udp_ready_safe: "safe s t \<Longrightarrow> net_answers s (net_udp_url_ready lw i t)"
  using udp_socket_safe [of s t lw i]
  by (auto simp: net_udp_url_ready_def Let_def case_prod_beta url_fail_def handle_ok_parts net_results intro!: safe_intros
      split: sum.split)

lemma send_raw_safe: "safe s t \<Longrightarrow> safe s (net_tnfs_send_raw lw i req t)"
  using udp_send_safe [of s t]
  by (auto simp: net_tnfs_send_raw_def case_prod_beta intro!: safe_intros split: option.split)

lemma fire_safe: "safe s t \<Longrightarrow> safe s (net_tnfs_fire lw i t)"
  by (auto simp: net_tnfs_fire_def Let_def intro!: safe_on_tnfs send_raw_safe)

lemma start_safe: "safe s t \<Longrightarrow> net_answers s (net_tnfs_start lw i ph req t)"
  by (auto simp: net_tnfs_start_def net_results intro!: fire_safe safe_on_tnfs split: option.split)

lemma next_reply_safe: "safe s t \<Longrightarrow> safe s (snd (tnfs_next_reply i t))"
  by (auto simp: tnfs_next_reply_def Let_def case_prod_beta handle_ok_parts idx_pop intro!: safe_on_h split: option.split)

lemma poll_safe:
  assumes "safe s t"
  shows "safe s (snd (net_tnfs_poll lw i t))" "fst (net_tnfs_poll lw i t) = Inl e \<Longrightarrow> e < 0x80"
  using next_reply_safe [OF assms(1), of i]
  by (auto simp: net_tnfs_poll_def Let_def case_prod_beta net_results intro!: safe_on_tnfs fire_safe split: option.splits if_splits)

lemma tnfs_begin_safe: "safe s t \<Longrightarrow> net_answers s (net_tnfs_begin lw i t)"
  using udp_socket_safe [of s t lw i]
  by (auto simp: net_tnfs_begin_def Let_def case_prod_beta handle_ok_parts net_results
      intro!: safe_intros safe_on_tnfs url_failed_safe start_safe split: sum.split)

lemma after_resolve_safe: "safe s t \<Longrightarrow> net_answers s (url_after_resolve lw i t)"
  by (simp add: url_after_resolve_def udp_ready_safe tnfs_begin_safe begin_connect_safe)

lemma teardown_safe: "safe s t \<Longrightarrow> safe s (tnfs_teardown lw i t)"
  by (auto simp: tnfs_teardown_def Let_def tnfs_next_seq_def intro!: send_raw_safe safe_on_tnfs)

lemma close_safe: "net_ok s \<Longrightarrow> net_answers s (do_close lw i s)"
  by (auto simp: do_close_def Let_def handle_ok_parts net_results intro!: safe_intros release_safe teardown_safe)

lemma status_code: "net_tnfs_status st < 0x80"
  by (simp add: net_tnfs_status_def net_results)

lemma open_start_safe: "net_ok s \<Longrightarrow> net_answers s (url_open_start lw i m adapter port host s)"
  by (auto simp: url_open_start_def Let_def case_prod_beta handle_ok_parts net_results tnfs_none_def
      intro!: safe_intros after_resolve_safe url_failed_safe split: option.split)

lemma open_resolving_safe: "net_ok s \<Longrightarrow> net_answers s (url_open_resolving lw i s)"
  by (auto simp: url_open_resolving_def Let_def handle_ok_parts net_results intro!: safe_intros after_resolve_safe url_failed_safe)

lemma mounted_safe: "safe s t \<Longrightarrow> net_answers s (tnfs_mounted lw i m path rep t)"
  unfolding tnfs_mounted_def Let_def
  by (auto simp: NET_ERR_PARAM_def intro!: safe_on_tnfs url_failed_safe start_safe simp del: on_tnfs_handle)

lemma open_tnfs_safe: "net_ok s \<Longrightarrow> net_answers s (url_open_tnfs lw i m path s)"
  using poll_safe [of s s lw i]
  by (auto simp: url_open_tnfs_def Let_def case_prod_beta handle_ok_parts status_code NET_OK_def
      intro!: safe_intros safe_on_tnfs url_failed_safe mounted_safe split: sum.split)

lemma http_send_safe: "safe s t \<Longrightarrow> net_answers s (net_http_send_request lw i host path t)"
  by (auto simp: net_http_send_request_def Let_def case_prod_beta net_results intro!: safe_intros split: option.split)

lemma open_connecting_safe: "net_ok s \<Longrightarrow> net_answers s (url_open_connecting lw i host path s)"
  using http_send_safe [OF safe_refl, of s lw i host path]
  by (auto simp: url_open_connecting_def case_prod_beta handle_ok_parts net_answers_def net_results url_failed_def url_fail_def
      intro!: safe_intros)

lemma url_open_safe: "net_ok s \<Longrightarrow> net_answers s (do_url_open lw i cp s)"
  using sticky_code [OF safe_ok [OF safe_refl], of s i]
  by (auto simp: do_url_open_def Let_def url_fail_def handle_ok_parts net_results
      intro!: safe_intros open_start_safe open_resolving_safe open_tnfs_safe open_connecting_safe split: option.split)

lemma next_seq_safe: "safe s t \<Longrightarrow> safe s (tnfs_next_seq i t)"
  by (auto simp: tnfs_next_seq_def intro!: safe_on_tnfs)

lemma read_start_safe: "safe s t \<Longrightarrow> net_answers s (tnfs_read_start lw i mx t)"
  unfolding tnfs_read_start_def Let_def by (auto simp: NET_OK_def intro!: start_safe next_seq_safe)

lemma read_tnfs_safe:
  assumes "net_ok s" "cp = command_block s d" "net_buffer_ok off mx"
  shows "net_answers s (url_read_tnfs lw i cp mx off s)"
proof -
  have w: "safe s (jim_wr24 cp 1 0 s)" using assms by (auto intro!: safe_intros)
  note p = poll_safe [OF w, of lw i]
  have "safe s (on_tnfs i (\<lambda>x. x\<lparr>tnfs_phase := TNFS_PH_READY\<rparr>) (snd (net_tnfs_poll lw i (jim_wr24 cp 1 0 s))))" (is "safe s ?t")
    using p(1) by (rule safe_on_tnfs) simp
  moreover from this have "safe s (jim_wr24 cp 1 v (net_deliver off b ?t))" if "length b \<le> unat mx" for b v
    using assms that by (auto intro!: safe_wr24 safe_deliver)
  ultimately show ?thesis
    using w p assms(1)
    by (auto simp: url_read_tnfs_def Let_def case_prod_beta net_results status_code [unfolded net_results] intro!: read_start_safe
        simp del: on_tnfs_handle split: sum.split option.split)
qed

lemma read_headers_safe:
  assumes "net_ok s" "cp = command_block s d"
  shows "safe s (snd (url_read_headers i cp s))" "fst (url_read_headers i cp s) = Some r \<Longrightarrow> r < 0x80"
proof -
  have w: "safe s (jim_wr24 cp 1 0 s)" using assms by (auto intro!: safe_intros)
  show "safe s (snd (url_read_headers i cp s))"
    using w assms(1) by (auto simp: url_read_headers_def Let_def handle_ok_parts idx_skip intro!: safe_intros)
  show "fst (url_read_headers i cp s) = Some r \<Longrightarrow> r < 0x80"
    using sticky_code [OF safe_ok [OF w]]
    by (auto simp: url_read_headers_def Let_def net_results split: if_splits)
qed

lemma url_read_safe:
  assumes "net_ok s" "cp = command_block s d"
  shows "net_answers s (do_url_read lw i cp s)"
proof -
  have w: "safe s (jim_wr24 cp 1 0 s)" using assms by (auto intro!: safe_intros)
  show ?thesis
    using assms w safe_refl [OF assms(1)] read_tnfs_safe [OF assms, of _ _ lw i] read_headers_safe [OF assms, of i]
      stream_read_safe [OF _ assms, of _ "block_word cp 4 s" "jim_rd24 cp 1 s" i]
    by (auto simp: do_url_read_def Let_def case_prod_beta NET_OK_def NET_ERR_NOTOPEN_def NET_ERR_PARAM_def
        intro!: datagram_safe safe_intros split: option.split)
qed

lemma write_tnfs_safe:
  assumes "net_ok s" "cp = command_block s d"
  shows "net_answers s (url_write_tnfs lw i cp s)"
proof -
  have w: "safe s t \<Longrightarrow> safe s (jim_wr24 cp 1 v t)" for t v by (rule safe_wr24) (use assms in simp_all)
  note p = poll_safe [OF safe_refl [OF assms(1)], of lw i]
  have "safe s (on_tnfs i (\<lambda>x. x\<lparr>tnfs_phase := TNFS_PH_READY\<rparr>) (snd (net_tnfs_poll lw i s)))" using p(1) by (rule safe_on_tnfs) simp
  moreover have "safe s (tnfs_next_seq i (jim_wr24 cp 1 0 s))" using assms(1) by (auto intro!: next_seq_safe w)
  ultimately show ?thesis
    unfolding url_write_tnfs_def Let_def case_prod_beta
    using p assms(1)
    by (auto simp: net_results status_code [unfolded net_results] intro!: w start_safe simp del: on_tnfs_handle split: sum.split option.split)
qed

lemma write_telnet_safe: "net_ok s \<Longrightarrow> cp = command_block s d \<Longrightarrow> net_answers s (url_write_telnet lw i cp s)"
  by (auto simp: url_write_telnet_def Let_def case_prod_beta net_results intro!: safe_intros split: option.split)

lemma url_write_safe: "net_ok s \<Longrightarrow> cp = command_block s d \<Longrightarrow> net_answers s (do_url_write lw i cp s)"
  using udp_send_safe [OF safe_refl, of s lw]
  by (auto simp: do_url_write_def Let_def case_prod_beta write_tnfs_safe write_telnet_safe send_safe net_results
      intro!: safe_intros split: option.split)

lemma url_status_safe: "net_ok s \<Longrightarrow> cp = command_block s d \<Longrightarrow> net_answers s (do_url_status i cp s)"
  by (auto simp: do_url_status_def Let_def NET_OK_def intro!: safe_block safe_intros)

section \<open>Dispatch\<close>

lemma safe_svc:
  assumes "safe s t" "\<And>w. net_h (f w) = net_h w" "same_box t (on_svc f t)"
  shows "safe s (on_svc f t)"
proof -
  have "hnd (on_svc f t) i = hnd t i" "JIM_ram_size (on_svc f t) = JIM_ram_size t" for i
    using assms(2) by (simp_all add: hnd_def on_svc_def)
  then show ?thesis using assms(1,3) by (simp add: safe_def net_ok_def confined_svc) (simp add: same_box_def)
qed

lemma dispatch_safe:
  assumes "net_ok s" "cp = command_block s d"
  shows "net_answers s (net_dispatch lw cp data s)"
proof -
  have irq: "net_answers s (NET_OK, on_svc (\<lambda>w. w\<lparr>net_irq_armed := b\<rparr>) s)" for b
    unfolding net_answers_pair using assms(1) by (auto intro!: safe_svc simp: NET_OK_def) (simp add: same_box_def on_svc_def)
  have err: "net_answers s (r, s)" if "r \<in> {NET_ERR_DISABLED, NET_ERR_PARAM, NET_ERR_UNSUPPORTED}" for r
    using that assms(1) by (auto simp: net_results intro!: safe_refl)
  show ?thesis
    unfolding net_dispatch_def Let_def
    by (simp only: socket_safe [OF assms(1)] socket_safe(3-6,8-11) [OF assms] close_safe [OF assms(1)] url_open_safe [OF assms(1)]
        url_read_safe [OF assms] url_write_safe [OF assms] url_status_safe [OF assms] irq err insert_iff simp_thms split: if_split)
qed

end
