(* ===== verification/NetInvariant.thy ===== *)
theory NetInvariant
  imports NetSafe
begin

text \<open>
  The states that the network service can reach, the invariant that they have, and the handshake of its command
  register and its interrupt with the Beeb, across resets too.
\<close>

section \<open>Polls\<close>

definition net_service_ok :: "('n, 'z) net_services \<Rightarrow> bool" where
  "net_service_ok s \<longleftrightarrow> net_ok s \<and> mem_wf (fred s) \<and> unat (net_source (svc s)) < 32 \<and>
     (net_pending (svc s) \<longrightarrow> (\<exists>d. net_pending_cp (svc s) = command_block s d) \<and> net_pending_addr (svc s) < 256)"

lemma command_block_cong: "JIM_ram_size t = JIM_ram_size s \<Longrightarrow> command_block t d = command_block s d"
  by (simp add: command_block_def DISC_RAM_BASE_def)

lemma region_cong: "JIM_ram_size t = JIM_ram_size s \<Longrightarrow> region t a = region s a"
  by (simp add: region_def DISC_RAM_BASE_def)

lemma safe_trans:
  assumes "safe s t" "safe t u"
  shows "safe s u"
proof -
  have "confined addr s u" for addr using assms confined_trans [of addr s t u] by (simp add: safe_def)
  then show ?thesis using assms by (simp add: safe_def same_box_def)
qed

lemma safe_service:
  assumes "safe s t" "net_service_ok s"
  shows "net_service_ok t"
  using assms command_block_cong [of t s] by (auto simp: net_service_ok_def safe_def same_box_def confined_def)

text \<open>The teardown of a reset: every handle ends as the cleared handle.\<close>

definition teardown_one :: "('n, 'y) net_lwip_scheme \<Rightarrow> nat \<Rightarrow> ('n, 'z) net_services \<Rightarrow> ('n, 'z) net_services" where
  "teardown_one lw i s = on_h i net_handle_reset (net_pcb_release lw i True s)"

lemma teardown_one_safe: "safe s t \<Longrightarrow> safe s (teardown_one lw i t)"
  unfolding teardown_one_def by (rule safe_on_h) (auto intro: release_safe)

lemma release_frame: "j \<noteq> i \<Longrightarrow> hnd (net_pcb_release lw i ab s) j = hnd s j"
  "rx (hnd (net_pcb_release lw i ab s) i) = rx (hnd s i)"
  "tpcb (hnd (net_pcb_release lw i ab s) i) = None" "upcb (hnd (net_pcb_release lw i ab s) i) = None"
  by (auto simp: net_pcb_release_def Let_def case_prod_beta split: option.split)

definition cleared :: "net_handle \<Rightarrow> bool" where
  "cleared h \<longleftrightarrow> h = net_handle_reset h"

lemma cleared_reset [simp]: "cleared (net_handle_reset h)"
  by (simp add: cleared_def net_handle_reset_def)

lemma teardown_all_safe: "safe s t \<Longrightarrow> safe s (fold (teardown_one lw) is t)"
  by (induction "is" arbitrary: t) (simp_all add: teardown_one_safe)

lemma teardown_all_cleared: "i \<in> set is \<or> cleared (hnd t i) \<Longrightarrow> cleared (hnd (fold (teardown_one lw) is t) i)"
proof (induction "is" arbitrary: t)
  case (Cons j js)
  have "cleared (hnd (teardown_one lw j t) i)" if "i = j \<or> cleared (hnd t i)"
    using that by (cases "i = j") (auto simp: teardown_one_def release_frame)
  then show ?case using Cons.IH [of "teardown_one lw j t"] Cons.prems by auto
qed simp

lemma teardown_effect:
  assumes "net_service_ok s" "t = net_teardown lw s"
  shows "net_service_ok t" "confined addr s t" "i < 8 \<Longrightarrow> cleared (hnd t i)" "\<not> net_reset_pending (svc t)" "\<not> net_irq_armed (svc t)"
    "net_pending (svc t) = net_pending (svc s)" "net_pending_cp (svc t) = net_pending_cp (svc s)"
    "net_pending_addr (svc t) = net_pending_addr (svc s)" "net_pending_data (svc t) = net_pending_data (svc s)"
    "net_enabled (svc t) = net_enabled (svc s)" "net_irq_state (svc t) = net_irq_state (svc s)"
    "net_source (svc t) = net_source (svc s)" "nirq_mask (fred t) = nirq_mask (fred s)"
proof -
  define u where "u = fold (teardown_one lw) [0..<8] s"
  have t: "t = on_svc (\<lambda>w. w\<lparr>net_irq_armed := False, net_reset_pending := False\<rparr>) u"
    by (simp add: assms(2) net_teardown_def u_def NET_MAX_HANDLES_def teardown_one_def [abs_def] del: upt_rec_numeral)
  have "safe s s" using assms(1) by (auto simp: net_service_ok_def)
  from teardown_all_safe [OF this] have a: "safe s u" by (simp add: u_def)
  have h: "hnd t i = hnd u i" "JIM_ram_size t = JIM_ram_size u" "fred t = fred u" for i
    by (simp_all add: t hnd_def on_svc_def)
  show "confined addr s t" using a by (simp add: t confined_svc safe_def)
  show "cleared (hnd t i)" if "i < 8" using teardown_all_cleared [of i "[0..<8]"] that by (simp add: h u_def del: upt_rec_numeral)
  show "\<not> net_reset_pending (svc t)" "\<not> net_irq_armed (svc t)" by (simp_all add: t on_svc_def)
  show b: "net_pending (svc t) = net_pending (svc s)" "net_pending_cp (svc t) = net_pending_cp (svc s)"
    "net_pending_addr (svc t) = net_pending_addr (svc s)" "net_pending_data (svc t) = net_pending_data (svc s)"
    "net_enabled (svc t) = net_enabled (svc s)" "net_irq_state (svc t) = net_irq_state (svc s)"
    "net_source (svc t) = net_source (svc s)" "nirq_mask (fred t) = nirq_mask (fred s)"
    using a by (simp_all add: t on_svc_def safe_def same_box_def)
  have "net_source (svc t) = net_source (svc u)" "net_pending (svc t) = net_pending (svc u)" "net_pending_cp (svc t) = net_pending_cp (svc u)"
    "net_pending_addr (svc t) = net_pending_addr (svc u)" by (simp_all add: t on_svc_def)
  with safe_service [OF a assms(1)] show "net_service_ok t"
    unfolding net_service_ok_def net_ok_def h command_block_cong [OF h(2)] by simp
qed

lemma net_execute_effect:
  assumes "net_service_ok s" "net_pending (svc s)" "t = net_execute lw s"
  shows "net_service_ok t" "confined (net_pending_addr (svc s)) s t" "bus_read (fred t) (net_pending_addr (svc s)) < 0x80"
    "\<not> net_pending (svc t)" "net_reset_pending (svc t) = net_reset_pending (svc s)" "net_irq_state (svc t) = net_irq_state (svc s)"
    "net_source (svc t) = net_source (svc s)" "nirq_mask (fred t) = nirq_mask (fred s)"
proof -
  let ?a = "net_pending_addr (svc s)"
  define u where "u = on_svc (\<lambda>w. w\<lparr>net_pending := False\<rparr>) s"
  obtain d where d: "net_pending_cp (svc s) = command_block s d" "?a < 256" using assms(1,2) by (auto simp: net_service_ok_def)
  have u: "net_ok u" "fred u = fred s" "\<not> net_pending (svc u)" "command_block u d = command_block s d"
      "net_reset_pending (svc u) = net_reset_pending (svc s)" "net_source (svc u) = net_source (svc s)"
      "net_irq_state (svc u) = net_irq_state (svc s)"
    using assms(1) by (simp_all add: net_service_ok_def net_ok_def u_def on_svc_def hnd_def command_block_def DISC_RAM_BASE_def)
  define x where "x = net_dispatch lw (command_block s d) (net_pending_data (svc s)) u"
  have x: "net_answers u x" unfolding x_def by (rule dispatch_safe [OF u(1) u(4) [symmetric]])
  have t: "t = reply ?a (fst x) (snd x)" by (simp add: assms(3) net_execute_def Let_def case_prod_beta x_def u_def d(1))
  have c: "confined ?a s u" unfolding u_def by (rule confined_svc) simp
  moreover have "confined ?a u (snd x)" using x by (simp add: net_answers_def safe_def)
  ultimately have "confined ?a s (snd x)" by (rule confined_trans)
  then show "confined ?a s t" unfolding t using d(2) by (intro confined_reply) simp_all
  have w: "mem_wf (fred (snd x))" using \<open>confined ?a s (snd x)\<close> assms(1) by (simp add: confined_def net_service_ok_def)
  then show "bus_read (fred t) ?a < 0x80" using x d(2) by (simp add: t reply_def on_fred_def MemoryWrite_read net_answers_def)
  have s: "svc t = svc (snd x)" "JIM_ram_size t = JIM_ram_size (snd x)" by (simp_all add: t reply_def on_fred_def)
  then show "\<not> net_pending (svc t)" "net_reset_pending (svc t) = net_reset_pending (svc s)" "net_irq_state (svc t) = net_irq_state (svc s)"
    "net_source (svc t) = net_source (svc s)"
    using x u by (simp_all add: net_answers_def safe_def same_box_def)
  have "nirq_mask (Pi1MHz_MemoryWrite ad r b) = nirq_mask b" for ad r b by (simp add: Pi1MHz_MemoryWrite_def Let_def)
  then show "nirq_mask (fred t) = nirq_mask (fred s)"
    using x u(2) by (simp add: t reply_def on_fred_def net_answers_def safe_def same_box_def)
  have "mem_wf (fred t)" using w d(2) by (simp add: t reply_def on_fred_def MemoryWrite_wf)
  then show "net_service_ok t"
    using x u s assms(1) by (auto simp: net_service_ok_def net_answers_def safe_def same_box_def net_ok_def hnd_def)
qed

text \<open>
  A command that finds every handle cleared, as after the teardown, puts nothing into a ring: only opening does
  anything then, and it leaves the rings alone.
\<close>

lemma release_rings: "rx (hnd (net_pcb_release lw i ab s) j) = rx (hnd s j)"
  by (cases "j = i") (simp_all add: release_frame)

lemma udp_send_rings: "rx (hnd (snd (net_udp_send lw u data ip port s)) j) = rx (hnd s j)"
  by (simp add: net_udp_send_def Let_def case_prod_beta split: option.split)

lemma connect_rings: "rx (hnd (snd (net_start_connect lw i s)) j) = rx (hnd s j)"
  by (simp add: net_start_connect_def Let_def case_prod_beta release_rings net_fail_def net_tcp_bind_callbacks_def split: option.split)

lemma socket_rings: "rx (hnd (snd (url_udp_socket lw i s)) j) = rx (hnd s j)"
  by (simp add: url_udp_socket_def Let_def case_prod_beta url_fail_def split: option.split)

lemma on_tnfs_rings: "rx (hnd (on_tnfs i g s) j) = rx (hnd s j)"
  by (simp add: on_tnfs_def)

lemma send_raw_rings: "rx (hnd (net_tnfs_send_raw lw i req s) j) = rx (hnd s j)"
  by (simp add: net_tnfs_send_raw_def case_prod_beta udp_send_rings split: option.split)

lemma tnfs_start_rings: "rx (hnd (snd (net_tnfs_start lw i ph n s)) j) = rx (hnd s j)"
  by (simp add: net_tnfs_start_def net_tnfs_fire_def Let_def on_tnfs_rings send_raw_rings split: option.split)

lemma resolve_rings: "rx (hnd (snd (url_after_resolve lw i s)) j) = rx (hnd s j)"
proof -
  have f: "rx (hnd (snd (url_failed i e s)) j) = rx (hnd s j)" for e s by (simp add: url_failed_def url_fail_def)
  have "rx (hnd (snd (url_begin_connect lw i s)) j) = rx (hnd s j)"
    by (simp add: url_begin_connect_def Let_def case_prod_beta f connect_rings)
  moreover have "rx (hnd (snd (net_udp_url_ready lw i s)) j) = rx (hnd s j)"
    using socket_rings [of lw i s j]
    by (auto simp: net_udp_url_ready_def Let_def case_prod_beta url_fail_def split: sum.split prod.split)
  moreover have "rx (hnd (snd (net_tnfs_begin lw i s)) j) = rx (hnd s j)"
    using socket_rings [of lw i s j]
    by (auto simp: net_tnfs_begin_def Let_def case_prod_beta f on_tnfs_rings tnfs_start_rings split: sum.split prod.split)
  ultimately show ?thesis by (simp add: url_after_resolve_def)
qed

lemma open_start_rings:
  assumes "\<forall>j < 8. rx_count (rx (hnd s j)) = 0" "j < 8"
  shows "rx_count (rx (hnd (snd (url_open_start lw i m adapter port host s)) j)) = 0"
  using assms by (auto simp: url_open_start_def Let_def case_prod_beta resolve_rings url_failed_def url_fail_def net_handle_reset_def split: option.split)

lemma dispatch_quiet:
  assumes "\<forall>j < 8. cleared (hnd s j)" "j < 8"
  shows "rx_count (rx (hnd (snd (net_dispatch lw cp data s)) j)) = 0"
proof -
  let ?i = "unat (data AND 0x0F)"
  have c: "hstate (hnd s k) = NET_ST_FREE \<and> htype (hnd s k) = 0 \<and> url_adapter (hnd s k) = 0 \<and> url_phase (hnd s k) = 0 \<and>
      upcb (hnd s k) = None \<and> tpcb (hnd s k) = None \<and> rx_count (rx (hnd s k)) = 0" if "k < 8" for k
  proof -
    have "hnd s k = net_handle_reset (hnd s k)" using assms(1) that by (simp add: cleared_def)
    moreover have "hstate (net_handle_reset h) = NET_ST_FREE \<and> htype (net_handle_reset h) = 0 \<and> url_adapter (net_handle_reset h) = 0 \<and>
        url_phase (net_handle_reset h) = 0 \<and> upcb (net_handle_reset h) = None \<and> tpcb (net_handle_reset h) = None \<and>
        rx_count (rx (net_handle_reset h)) = 0" for h by (simp add: net_handle_reset_def)
    ultimately show ?thesis by metis
  qed
  show ?thesis
  proof (cases "?i < 8")
    case True
    note i = c [OF True]
    have e: "\<forall>k < 8. rx_count (rx (hnd s k)) = 0" using c by blast
    have "rx_count (rx (hnd (snd (do_open lw ?i cp s)) j)) = 0"
      using e assms(2) by (auto simp: do_open_def Let_def case_prod_beta net_handle_reset_def split: option.split)
    moreover have "rx_count (rx (hnd (snd (do_url_open lw ?i cp s)) j)) = 0"
      using i e assms(2) open_start_rings [OF e assms(2)] by (auto simp: do_url_open_def Let_def URL_START_def URL_READY_def URL_FAIL_def split: option.split prod.split)
    moreover have "rx_count (rx (hnd (snd (do_close lw ?i s)) j)) = 0"
      using i e assms(2) by (simp add: do_close_def)
    moreover have "snd (do_dns lw ?i cp s) = s" "snd (do_connect lw ?i cp s) = s" "snd (do_bind lw ?i cp s) = s" "snd (do_listen lw ?i cp s) = s"
      "snd (do_send lw ?i cp s) = s" "snd (do_recv ?i cp s) = s" "snd (do_recv_avail ?i cp s) = s" "snd (do_udp_sendto lw ?i cp s) = s"
      "snd (do_url_read lw ?i cp s) = s" "snd (do_url_write lw ?i cp s) = s"
      using i by (simp_all add: do_dns_def do_connect_def do_bind_def do_listen_def do_send_def do_recv_def do_recv_avail_def do_udp_sendto_def
          do_url_read_def do_url_write_def Let_def net_states NET_URL_TNFS_def NET_URL_TELNET_def NET_TYPE_UDP_def)
    moreover have "hnd (snd (do_udp_recvfrom ?i cp s)) j = hnd s j"
      using i by (simp add: do_udp_recvfrom_def NET_TYPE_UDP_def)
    moreover have "hnd (snd (do_status ?i cp s)) j = hnd s j" "hnd (snd (do_url_status ?i cp s)) j = hnd s j"
      by (simp_all add: do_status_def do_url_status_def Let_def)
    ultimately show ?thesis using e assms(2) by (simp add: net_dispatch_def Let_def NET_MAX_HANDLES_def hnd_def on_svc_def)
  next
    case False
    then show ?thesis using c assms(2) by (simp add: net_dispatch_def Let_def NET_MAX_HANDLES_def)
  qed
qed

text \<open>The nIRQ line of the service.\<close>

definition net_irq_shown :: "('n, 'z) net_services \<Rightarrow> bool" where
  "net_irq_shown s \<longleftrightarrow> (bit (nirq_mask (fred s)) (unat (net_source (svc s))) \<longleftrightarrow> net_irq_state (svc s))"

text \<open>A reset releases the line and leaves the flag to the next poll.\<close>

definition net_line_ok :: "('n, 'z) net_services \<Rightarrow> bool" where
  "net_line_ok s \<longleftrightarrow> net_irq_shown s \<or> net_reset_pending (svc s) \<and> \<not> bit (nirq_mask (fred s)) (unat (net_source (svc s)))"

lemma cleared_count: "cleared h \<Longrightarrow> rx_count (rx h) = 0"
  by (metis cleared_def net_handle_reset_def net_handle.select_convs(21) rx_ring.select_convs(3))

lemma update_irq_effect:
  assumes "net_service_ok s" "t = net_update_irq s"
  shows "net_service_ok t" "JIM_ram t = JIM_ram s" "JIM_ram_size t = JIM_ram_size s" "bus_read (fred t) a = bus_read (fred s) a"
    "hnd t i = hnd s i" "net_pending (svc t) = net_pending (svc s)" "net_reset_pending (svc t) = net_reset_pending (svc s)"
    "net_irq_shown s \<Longrightarrow> bit (nirq_mask (fred t)) (unat (net_source (svc t))) \<longleftrightarrow>
       net_irq_armed (svc s) \<and> (\<exists>i < 8. rx_count (rx (hnd s i)) \<noteq> 0)"
    "net_irq_shown s \<Longrightarrow> net_irq_shown t" "net_irq_armed (svc t) = net_irq_armed (svc s)"
    "net_irq_shown s \<or> \<not> bit (nirq_mask (fred s)) (unat (net_source (svc s))) \<Longrightarrow> \<forall>i < 8. rx_count (rx (hnd s i)) = 0 \<Longrightarrow>
       net_irq_shown t \<and> \<not> bit (nirq_mask (fred t)) (unat (net_source (svc t)))"
proof -
  define any where "any = (net_irq_armed (svc s) \<and> list_ex (\<lambda>i. rx_count (rx (hnd s i)) \<noteq> 0) [0..<8])"
  have any: "any \<longleftrightarrow> net_irq_armed (svc s) \<and> (\<exists>i < 8. rx_count (rx (hnd s i)) \<noteq> 0)" by (auto simp: any_def list_ex_iff Bex_def simp del: upt_rec_numeral)
  have t: "t = (if any \<noteq> net_irq_state (svc s)
      then on_svc (\<lambda>w. w\<lparr>net_irq_state := any\<rparr>) (services_irq_set (net_source (svc s)) any s) else s)"
    unfolding assms(2) net_update_irq_def NET_MAX_HANDLES_def any_def [symmetric] Let_def by (rule refl)
  have irq: "svc (services_irq_set i b s) = svc s" "JIM_ram (services_irq_set i b s) = JIM_ram s"
      "JIM_ram_size (services_irq_set i b s) = JIM_ram_size s"
      "fred (services_irq_set i b s) = Pi1MHz_SetnIRQ_src i b (fred s)" for i b
    by (simp_all add: services_irq_set_def on_fred_def Pi1MHz_nIRQ_ASSERT_def Pi1MHz_nIRQ_CLEAR_def)
  have wf: "mem_wf (Pi1MHz_SetnIRQ_src i b (fred s)) = mem_wf (fred s)" for i b
    by (simp add: mem_wf_def irq_read [THEN ext]) (simp add: Pi1MHz_SetnIRQ_src_def Let_def)
  show "JIM_ram t = JIM_ram s" and sz: "JIM_ram_size t = JIM_ram_size s" and "bus_read (fred t) a = bus_read (fred s) a"
    and hnd: "\<And>i. hnd t i = hnd s i" and p: "net_pending (svc t) = net_pending (svc s)"
    and "net_reset_pending (svc t) = net_reset_pending (svc s)" "net_irq_armed (svc t) = net_irq_armed (svc s)"
    by (simp_all add: t on_svc_def irq hnd_def)
  have u: "unat (net_source (svc s)) < 32" using assms(1) by (simp add: net_service_ok_def)
  show "net_service_ok t"
    using assms(1) sz hnd p command_block_cong [OF sz] by (auto simp: net_service_ok_def net_ok_def t on_svc_def irq wf)
  show m: "bit (nirq_mask (fred t)) (unat (net_source (svc t))) \<longleftrightarrow>
      net_irq_armed (svc s) \<and> (\<exists>i < 8. rx_count (rx (hnd s i)) \<noteq> 0)" if "net_irq_shown s"
    using that u unfolding any [symmetric] net_irq_shown_def by (auto simp: t on_svc_def irq SetnIRQ_mask)
  show "net_irq_shown t" if "net_irq_shown s"
    using that u unfolding net_irq_shown_def by (auto simp: t on_svc_def irq SetnIRQ_mask)
  show "net_irq_shown t \<and> \<not> bit (nirq_mask (fred t)) (unat (net_source (svc t)))"
    if "net_irq_shown s \<or> \<not> bit (nirq_mask (fred s)) (unat (net_source (svc s)))" "\<forall>i < 8. rx_count (rx (hnd s i)) = 0"
  proof -
    have "\<not> any" using that(2) any by auto
    then show ?thesis using that(1) u unfolding net_irq_shown_def by (auto simp: t on_svc_def irq SetnIRQ_mask)
  qed
qed

lemma net_poll_effect:
  assumes "net_service_ok s" "t = net_service_poll lw s"
  shows "net_service_ok t" "\<not> region s a \<Longrightarrow> JIM_ram t a = JIM_ram s a" "\<not> net_pending (svc t)" "\<not> net_reset_pending (svc t)"
    "net_pending (svc s) \<Longrightarrow> bus_read (fred t) (net_pending_addr (svc s)) < 0x80"
    "a < 512 \<Longrightarrow> \<not> net_pending (svc s) \<or> a \<noteq> net_pending_addr (svc s) \<Longrightarrow> bus_read (fred t) a = bus_read (fred s) a"
    "net_reset_pending (svc s) \<Longrightarrow> \<not> net_pending (svc s) \<Longrightarrow> i < 8 \<Longrightarrow> cleared (hnd t i)"
    "net_line_ok s \<Longrightarrow> net_irq_shown t \<and> (bit (nirq_mask (fred t)) (unat (net_source (svc t))) \<longleftrightarrow>
       net_irq_armed (svc t) \<and> (\<exists>i < 8. rx_count (rx (hnd t i)) \<noteq> 0))"
proof -
  define u where "u = (if net_reset_pending (svc s) then net_teardown lw s else s)"
  define v where "v = (if net_pending (svc u) then net_execute lw u else u)"
  have t: "t = net_update_irq v" by (simp add: assms(2) net_service_poll_def u_def v_def Let_def)
  note r = teardown_effect [OF assms(1) refl, where lw = lw]
  have u: "net_service_ok u" "\<not> net_reset_pending (svc u)" "net_pending (svc u) = net_pending (svc s)"
    "net_pending_addr (svc u) = net_pending_addr (svc s)" "confined ad s u" for ad
    using r assms(1) by (simp_all add: u_def)
  note e = net_execute_effect [OF u(1) _ refl, where lw = lw]
  have v: "net_service_ok v" "\<not> net_pending (svc v)" "\<not> net_reset_pending (svc v)" "confined (net_pending_addr (svc s)) s v"
    using u e confined_trans [of "net_pending_addr (svc s)" s u "net_execute lw u"] by (simp_all add: v_def)
  note f = update_irq_effect [OF v(1) t]
  show "net_service_ok t" "\<not> net_pending (svc t)" "\<not> net_reset_pending (svc t)" using f v by simp_all
  show "\<not> region s a \<Longrightarrow> JIM_ram t a = JIM_ram s a" using f(2) v(4) by (simp add: confined_def)
  show "net_pending (svc s) \<Longrightarrow> bus_read (fred t) (net_pending_addr (svc s)) < 0x80" using f(4) e(3) u by (simp add: v_def)
  have w: "mem_wf (fred s)" using assms(1) by (simp add: net_service_ok_def)
  show "bus_read (fred t) a = bus_read (fred s) a" if "a < 512" "\<not> net_pending (svc s) \<or> a \<noteq> net_pending_addr (svc s)"
  proof (cases "net_pending (svc s)")
    case True
    then show ?thesis using f(4) v(4) that w by (simp add: confined_def)
  next
    case False
    then have "confined (Suc a) s v" using u by (simp add: v_def)
    then show ?thesis using f(4) that w by (simp add: confined_def)
  qed
  show "cleared (hnd t i)" if "net_reset_pending (svc s)" "\<not> net_pending (svc s)" "i < 8"
    using f(5) r(3) that u(3) by (simp add: v_def u_def)
  show "net_irq_shown t \<and> (bit (nirq_mask (fred t)) (unat (net_source (svc t))) \<longleftrightarrow>
      net_irq_armed (svc t) \<and> (\<exists>i < 8. rx_count (rx (hnd t i)) \<noteq> 0))" if "net_line_ok s"
  proof (cases "net_reset_pending (svc s)")
    case False
    then have "net_irq_shown v" using that e(6-8) by (simp add: v_def u_def net_irq_shown_def net_line_ok_def)
    with f(5,8,9,10) show ?thesis by simp
  next
    case True
    then have u2: "u = net_teardown lw s" by (simp add: u_def)
    have quiet: "\<forall>i < 8. rx_count (rx (hnd v i)) = 0"
      using r(3) dispatch_quiet [of "on_svc (\<lambda>w. w\<lparr>net_pending := False\<rparr>) u"]
      by (auto simp: v_def u2 net_execute_def Let_def case_prod_beta reply_def on_fred_def hnd_def on_svc_def cleared_count)
    have "net_irq_shown v \<or> \<not> bit (nirq_mask (fred v)) (unat (net_source (svc v)))"
      using that True e(6-8) r(11-13) by (auto simp: v_def u2 net_line_ok_def net_irq_shown_def)
    with f(11) quiet show ?thesis by (simp add: f(5,10))
  qed
qed

section \<open>Reachable states\<close>

text \<open>The callbacks of the stack.\<close>

inductive net_callback :: "('n, 'y) net_lwip_scheme \<Rightarrow> ('n, 'z) net_services \<Rightarrow> ('n, 'z) net_services \<Rightarrow> bool" for lw where
  udp: "net_callback lw s (net_udp_recv i p ip port s)"
| tcp: "net_callback lw s (snd (net_tcp_recv lw i pcb q ok s))"
| err: "net_callback lw s (net_tcp_err i s)"
| accept: "net_callback lw s (snd (net_tcp_accept lw i newpcb ip port ok s))"
| connected: "net_callback lw s (net_tcp_connected i ok s)"
| resolved: "net_callback lw s (net_dns_found i ipaddr s)"

text \<open>What the service does: resets, commands latched from the port, polls of the main loop and callbacks.\<close>

inductive net_event :: "('n, 'y) net_lwip_scheme \<Rightarrow> ('n, 'z) net_services \<Rightarrow> ('n, 'z) net_services \<Rightarrow> bool" for lw where
  reset: "unat i < 32 \<Longrightarrow> net_event lw s (net_service_init fn cfg i a s)"
| command: "addr < 256 \<Longrightarrow> net_event lw s (net_service_command (command_block s d) addr d s)"
| poll: "net_event lw s (net_service_poll lw s)"
| callback: "net_callback lw s t \<Longrightarrow> net_event lw s t"

lemma callback_safe: "net_callback lw s t \<Longrightarrow> net_ok s \<Longrightarrow> safe s t"
  by (cases rule: net_callback.cases) (auto intro: udp_recv_safe tcp_recv_safe tcp_err_safe tcp_accept_safe tcp_connected_safe dns_found_safe)

lemma callbacks_safe: "(net_callback lw)\<^sup>*\<^sup>* s t \<Longrightarrow> net_ok s \<Longrightarrow> safe s t"
proof (induction rule: rtranclp_induct)
  case (step t u)
  then show ?case using callback_safe [of lw t u] safe_trans by (metis safe_def)
qed auto

text \<open>Power on finds the table of handles zero.\<close>

definition net_boot :: "('n, 'z) net_services \<Rightarrow> bool" where
  "net_boot s \<longleftrightarrow> 2 \<le> unat (JIM_ram_size s) \<and> mem_wf (fred s) \<and> (\<forall>i. cleared (hnd s i)) \<and> \<not> net_pending (svc s) \<and>
     unat (net_source (svc s)) < 32"

inductive net_reachable :: "('n, 'y) net_lwip_scheme \<Rightarrow> ('n, 'z) net_services \<Rightarrow> bool" for lw where
  boot: "net_boot s \<Longrightarrow> net_reachable lw s"
| event: "net_reachable lw s \<Longrightarrow> net_event lw s t \<Longrightarrow> net_reachable lw t"
| ram: "net_reachable lw s \<Longrightarrow> net_reachable lw (set_mem m s)"
| bus: "net_reachable lw s \<Longrightarrow> mem_wf (f (fred s)) \<Longrightarrow> net_reachable lw (on_fred f s)"
| network: "net_reachable lw s \<Longrightarrow> net_reachable lw (run_net g s)"

lemma cleared_ok: "cleared h \<Longrightarrow> handle_ok h"
  by (metis cleared_def handle_reset_ok)

lemma init_effect:
  assumes "net_service_ok s" "unat i < 32" "t = net_service_init fn cfg i a s"
  shows "net_service_ok t" "JIM_ram t = JIM_ram s" "net_reset_pending (svc t)" "net_pending (svc t) = net_pending (svc s)"
    "net_pending_addr (svc t) = net_pending_addr (svc s)" "bus_read (fred t) x = bus_read (fred s) x" "net_line_ok t"
proof -
  let ?s = "on_svc (\<lambda>w. w\<lparr>net_source := i, net_enabled := config_get_bool cfg ''net_enable'', net_reset_pending := True\<rparr>) s"
  have "\<exists>l. snd (services_register b c h u) = u\<lparr>s_services := l\<rparr>" for b c h and u :: "('a, 'b) net_services"
    by (auto simp: services_register_def intro: exI [of _ "s_services u"])
  then obtain l where l: "snd (services_register SERVICE_CMD_NET_FIRST SERVICE_CMD_NET_LAST (fn ''net_service_command'') ?s) =
      ?s\<lparr>s_services := l\<rparr>" by metis
  have p: "mem_wf (Pi1MHz_Register_Poll f b) = mem_wf b" "bus_read (Pi1MHz_Register_Poll f b) x = bus_read b x"
      "mem_wf (Pi1MHz_SetnIRQ_src j c b) = mem_wf b" for f b j c
    by (simp_all add: Pi1MHz_Register_Poll_def Pi1MHz_SetnIRQ_src_def mem_wf_def bus_read_def [abs_def] Let_def)
  have t: "svc t = svc ?s" "fred t = Pi1MHz_SetnIRQ_src i False (Pi1MHz_Register_Poll (fn ''net_service_poll'') (fred s))"
      "JIM_ram t = JIM_ram s" "JIM_ram_size t = JIM_ram_size s"
    unfolding assms(3) net_service_init_def Let_def l
    by (simp_all add: services_irq_set_def on_fred_def on_svc_def Pi1MHz_nIRQ_CLEAR_def)
  show "JIM_ram t = JIM_ram s" "net_reset_pending (svc t)" "net_pending (svc t) = net_pending (svc s)"
    "net_pending_addr (svc t) = net_pending_addr (svc s)" "bus_read (fred t) x = bus_read (fred s) x"
    by (simp_all add: t p) (simp_all add: on_svc_def)
  have "net_source (svc ?s) = i" "net_reset_pending (svc ?s)" by (simp_all add: on_svc_def)
  then show "net_line_ok t" unfolding net_line_ok_def t using SetnIRQ_mask [OF assms(2,2)] by simp
  show "net_service_ok t"
    using assms(1,2) unfolding net_service_ok_def net_ok_def command_block_cong [OF t(4)]
    by (simp add: t p hnd_def) (simp add: on_svc_def)
qed

lemma command_effect:
  assumes "net_service_ok s" "addr < 256" "t = net_service_command (command_block s d) addr d s"
  shows "net_service_ok t" "JIM_ram t = JIM_ram s" "net_pending (svc t)" "net_pending_addr (svc t) = addr"
    "bus_read (fred t) addr = 0x80" "net_line_ok s \<Longrightarrow> net_line_ok t"
proof -
  have w: "mem_wf (fred s)" using assms(1) by (simp add: net_service_ok_def)
  have t: "JIM_ram_size t = JIM_ram_size s" "JIM_ram t = JIM_ram s" "fred t = Pi1MHz_MemoryWrite addr NET_BUSY (fred s)"
      "svc t = (svc s)\<lparr>net_pending_cp := command_block s d, net_pending_addr := addr, net_pending_data := d, net_pending := True\<rparr>"
    by (simp_all add: assms(3) net_service_command_def reply_def on_fred_def on_svc_def)
  then show "JIM_ram t = JIM_ram s" "net_pending (svc t)" "net_pending_addr (svc t) = addr" "bus_read (fred t) addr = 0x80"
    using w assms(2) by (simp_all add: MemoryWrite_read NET_BUSY_def)
  show "net_line_ok s \<Longrightarrow> net_line_ok t"
    by (simp add: net_line_ok_def net_irq_shown_def t Pi1MHz_MemoryWrite_def Let_def)
  show "net_service_ok t"
    using assms(1,2) w unfolding net_service_ok_def net_ok_def command_block_cong [OF t(1)] by (auto simp: t hnd_def MemoryWrite_wf)
qed

lemma event_effect:
  assumes "net_event lw s t" "net_service_ok s"
  shows "net_service_ok t \<and> (\<forall>a. \<not> region s a \<longrightarrow> JIM_ram t a = JIM_ram s a)"
proof -
  have s: "net_ok s" using assms(2) by (simp add: net_service_ok_def)
  have safe: "net_service_ok t \<and> (\<forall>a. \<not> region s a \<longrightarrow> JIM_ram t a = JIM_ram s a)" if "safe s t" for t
    using safe_service [OF that assms(2)] that by (simp add: safe_def confined_def)
  from assms(1) show ?thesis
  proof cases
    case (reset i fn cfg a)
    then show ?thesis using init_effect(1,2) [OF assms(2) reset(2,1)] by simp
  next
    case (command addr d)
    then show ?thesis using command_effect(1,2) [OF assms(2) command(2,1)] by simp
  next
    case poll
    then show ?thesis using net_poll_effect(1,2) [OF assms(2) poll] by simp
  qed (use s safe callback_safe in blast)
qed

lemma net_reachable_ok: "net_reachable lw s \<Longrightarrow> net_service_ok s"
proof (induction rule: net_reachable.induct)
  case (boot s)
  then show ?case by (auto simp: net_boot_def net_service_ok_def net_ok_def intro: cleared_ok)
next
  case (event s t)
  then show ?case using event_effect by blast
next
  case (ram s m)
  then show ?case by (simp add: net_service_ok_def net_ok_def hnd_def set_mem_def command_block_def DISC_RAM_BASE_def)
next
  case (bus s f)
  then show ?case by (simp add: net_service_ok_def net_ok_def hnd_def on_fred_def command_block_def DISC_RAM_BASE_def)
next
  case (network s g)
  then show ?case by (simp add: net_service_ok_def net_ok_def command_block_def DISC_RAM_BASE_def) (simp add: run_net_def on_svc_def)
qed

section \<open>Properties\<close>

text \<open>C13. Whatever the Beeb puts into command blocks and whatever lwIP delivers, the network service
  stores only in the last 32 Mbyte of the JIM RAM: in every reachable state neither a reset, a
  command, a poll nor any callback of the stack changes a byte outside.\<close>

theorem net_service_memory:
  assumes "net_reachable lw s" "net_event lw s t" "a < unat (DISC_RAM_BASE s) \<or> unat (DISC_RAM_BASE s) + 2 ^ 25 \<le> a"
  shows "JIM_ram t a = JIM_ram s a"
  using event_effect [OF assms(2) net_reachable_ok [OF assms(1)]] assms(3) by (auto simp: region_def)

text \<open>C30. In every state that resets, commands, polls and callbacks can reach, the tables of the
  network service are indexed within their bounds: head and tail of every receive ring are below
  its size, the TELNET option map has its 32 bytes, a listener's pending connection is a handle
  of the table, the TNFS request fits its buffer, and every sticky error has bit 7 clear.\<close>

theorem net_service_invariant:
  assumes "net_reachable lw s"
  shows "unat (rx_head (rx (hnd s i))) < 8192 \<and> unat (rx_tail (rx (hnd s i))) < 8192 \<and> length (tn_seen (telnet (hnd s i))) = 32 \<and>
    accept_h (hnd s i) < 8 \<and> length (tnfs_req (tnfs (hnd s i))) \<le> 256 \<and> last_err (hnd s i) < 0x80"
  using net_reachable_ok [OF assms] by (simp add: net_service_ok_def net_ok_def handle_ok_def NET_MAX_HANDLES_def TNFS_REQ_MAX_def)

definition net_range :: "nat \<Rightarrow> service_range" where
  "net_range h = \<lparr>sr_first = SERVICE_CMD_NET_FIRST, sr_last = SERVICE_CMD_NET_LAST, sr_handler = h\<rparr>"

text \<open>C4. The handshake of the network service with the Beeb: a command of its range shows 0x80 in
  the command register at once and through any lwIP callbacks until the next poll of the main
  loop, which replaces it by a result with bit 7 clear and empties the mailbox. A command latched
  just before a reset is answered in the same way: whatever the reset makes of the emulated page
  before net_service_init runs, the poll after it leaves a result with bit 7 clear and an empty
  mailbox.\<close>

theorem net_command_handshake:
  assumes "net_reachable lw s" "table_wf (s_services s)" "net_range h \<in> set (s_services s)" "run h = net_service_command" "a < 256"
    and "45 \<le> JIM_ram s (unat (command_block s d))" "JIM_ram s (unat (command_block s d)) \<le> 79"
    and "t = services_emulator_command run (gpio_word a d) s" "(net_callback lw)\<^sup>*\<^sup>* t v"
    and "w = v \<or> mem_wf (f (fred v)) \<and> unat i < 32 \<and> w = net_service_init fn cfg i x (on_fred f v)" "u = net_service_poll lw w"
  shows "bus_read (fred t) a = 0x80 \<and> bus_read (fred v) a = 0x80 \<and> bus_read (fred u) a < 0x80 \<and> \<not> net_pending (svc u)"
proof -
  have c: "claims (net_range h) (JIM_ram s (unat (command_block s d)))"
    using assms(6,7) by (simp add: claims_def net_range_def SERVICE_CMD_NET_FIRST_def SERVICE_CMD_NET_LAST_def)
  let ?w = "on_fred (Pi1MHz_MemoryWrite a d) s"
  have t: "t = net_service_command (command_block s d) a d ?w"
    using dispatch_to [OF assms(2,3,5) c, of run] assms(4) by (simp add: assms(8) net_range_def)
  have "mem_wf (fred s)" using net_reachable_ok [OF assms(1)] by (simp add: net_service_ok_def)
  then have "net_reachable lw ?w" using assms(1,5) by (intro net_reachable.bus) (simp_all add: MemoryWrite_wf)
  then have r: "net_service_ok ?w" by (rule net_reachable_ok)
  have "command_block ?w d = command_block s d" by (simp add: command_block_def DISC_RAM_BASE_def on_fred_def)
  then have t: "net_service_ok t" "net_pending (svc t)" "net_pending_addr (svc t) = a" "bus_read (fred t) a = 0x80"
    using command_effect [OF r assms(5), of t d] t by simp_all
  then have "safe t v" using callbacks_safe [OF assms(9)] by (simp add: net_service_ok_def)
  then have v: "net_service_ok v" "net_pending (svc v)" "net_pending_addr (svc v) = a" "bus_read (fred v) a = 0x80"
  proof -
    assume s: "safe t v"
    then show "net_service_ok v" "net_pending (svc v)" "net_pending_addr (svc v) = a"
      using safe_service [OF s t(1)] t(2,3) by (simp_all add: safe_def same_box_def)
    have "confined (Suc a) t v" "mem_wf (fred t)" using s t(1) by (simp_all add: safe_def net_service_ok_def)
    then show "bus_read (fred v) a = 0x80" using t(4) assms(5) by (simp add: confined_def)
  qed
  have "net_service_ok (on_fred f v)" if "mem_wf (f (fred v))"
    using v(1) that by (simp add: net_service_ok_def net_ok_def hnd_def on_fred_def command_block_def DISC_RAM_BASE_def)
  then have "net_service_ok w" "net_pending (svc w)" "net_pending_addr (svc w) = a"
    using assms(10) v init_effect(1,4,5) [of "on_fred f v" i w fn cfg x] by (elim disjE; simp; simp add: on_fred_def)+
  then show ?thesis using t(4) v(4) net_poll_effect(3,5) [of w u lw] assms(11) by simp
qed

text \<open>A reset of the Beeb frees every handle at the next poll.\<close>

theorem net_reset_frees:
  assumes "net_reachable lw s" "\<not> net_pending (svc s)" "unat k < 32" "t = net_service_poll lw (net_service_init fn cfg k x s)" "i < 8"
  shows "hstate (hnd t i) = NET_ST_FREE \<and> tpcb (hnd t i) = None \<and> upcb (hnd t i) = None \<and> rx_count (rx (hnd t i)) = 0 \<and>
    url_phase (hnd t i) = URL_START \<and> \<not> accept_ready (hnd t i)"
proof -
  note n = init_effect [OF net_reachable_ok [OF assms(1)] assms(3) refl, of fn cfg x]
  have "cleared (hnd t i)" using net_poll_effect(7) [OF n(1) assms(4) n(3)] n(4) assms(2,5) by simp
  then show ?thesis by (metis cleared_def net_handle_reset_def net_handle.select_convs(1,10,13,14,18,21) rx_ring.select_convs(3) URL_START_def)
qed

text \<open>
  A running machine: like the reachable states, but the rest of the machine leaves this source of nIRQ alone, except
  in a reset of the Beeb, which does with the bus what it likes and then starts the service again.
\<close>

inductive net_running :: "('n, 'y) net_lwip_scheme \<Rightarrow> ('n, 'z) net_services \<Rightarrow> bool" for lw where
  boot: "net_boot s \<Longrightarrow> \<not> net_irq_state (svc s) \<Longrightarrow> nirq_mask (fred s) = 0 \<Longrightarrow> net_running lw s"
| event: "net_running lw s \<Longrightarrow> net_event lw s t \<Longrightarrow> net_running lw t"
| ram: "net_running lw s \<Longrightarrow> net_running lw (set_mem m s)"
| bus: "net_running lw s \<Longrightarrow> mem_wf (f (fred s)) \<Longrightarrow>
    bit (nirq_mask (f (fred s))) (unat (net_source (svc s))) = bit (nirq_mask (fred s)) (unat (net_source (svc s))) \<Longrightarrow>
    net_running lw (on_fred f s)"
| restart: "net_running lw s \<Longrightarrow> mem_wf (f (fred s)) \<Longrightarrow> unat i < 32 \<Longrightarrow> net_running lw (net_service_init fn cfg i a (on_fred f s))"
| network: "net_running lw s \<Longrightarrow> net_running lw (run_net g s)"

lemma event_line:
  assumes "net_event lw s t" "net_service_ok s" "net_line_ok s"
  shows "net_line_ok t"
  using assms(1)
proof cases
  case (reset i fn cfg a)
  then show ?thesis using init_effect(7) [OF assms(2) reset(2,1)] by simp
next
  case (command addr d)
  then show ?thesis using command_effect(6) [OF assms(2) command(2,1) assms(3)] by simp
next
  case poll
  then show ?thesis using net_poll_effect(8) [OF assms(2) poll assms(3)] by (simp add: net_line_ok_def)
next
  case callback
  then have "safe s t" using callback_safe assms(2) unfolding net_service_ok_def by blast
  then show ?thesis using assms(3) by (simp add: net_line_ok_def net_irq_shown_def safe_def same_box_def)
qed

lemma running_line: "net_running lw s \<Longrightarrow> net_reachable lw s \<and> net_line_ok s"
proof (induction rule: net_running.induct)
  case (boot s)
  then show ?case by (auto simp: net_line_ok_def net_irq_shown_def intro: net_reachable.boot)
next
  case (event s t)
  then show ?case using event_line net_reachable_ok net_reachable.event by blast
next
  case (ram s m)
  then show ?case by (auto simp: net_line_ok_def net_irq_shown_def set_mem_def intro: net_reachable.ram [of lw s m, unfolded set_mem_def])
next
  case (bus s f)
  then have "net_reachable lw (on_fred f s)" by (intro net_reachable.bus) simp_all
  moreover have "net_line_ok (on_fred f s)" using bus by (auto simp: net_line_ok_def net_irq_shown_def on_fred_def)
  ultimately show ?case by simp
next
  case (restart s f i fn cfg a)
  then have r: "net_reachable lw (on_fred f s)" by (intro net_reachable.bus) simp_all
  then show ?case using init_effect(7) [OF net_reachable_ok [OF r] restart(3) refl] net_reachable.event [OF r net_event.reset [OF restart(3)]] by blast
next
  case (network s g)
  then show ?case using net_reachable.network [of lw s g]
    by (auto simp: net_line_ok_def net_irq_shown_def) (simp_all add: run_net_def on_svc_def)
qed

text \<open>C31. The interrupt of the network service is a level: in every state that resets, commands,
  polls, callbacks and the outside world can reach from power on, also directly after a reset, a
  poll leaves the service's source of nIRQ asserted if and only if the Beeb has armed it and some
  handle holds unread bytes.\<close>

theorem net_irq_level:
  assumes "net_running lw s" "t = net_service_poll lw s"
  shows "bit (nirq_mask (fred t)) (unat (net_source (svc t))) \<longleftrightarrow>
    net_irq_armed (svc t) \<and> (\<exists>i < 8. ring_view (rx (hnd t i)) \<noteq> [])"
proof -
  have "ring_view r \<noteq> [] \<longleftrightarrow> rx_count r \<noteq> 0" for r by (auto simp: ring_view_def unat_eq_zero)
  with running_line [OF assms(1)] net_poll_effect(8) [OF net_reachable_ok [of lw s] assms(2)] show ?thesis by simp
qed

end
