(* ===== verification/NetData.thy ===== *)
theory NetData
  imports NetSafe
begin

text \<open>
  What the network service carries: a TCP handle delivers the byte stream it accepted, a UDP handle whole datagrams with
  their senders, in the order of arrival.
\<close>

section \<open>The buffer and the command block\<close>

text \<open>A buffer of \<open>n\<close> bytes that does not share memory with the command block.\<close>

definition apart :: "u32 \<Rightarrow> u32 \<Rightarrow> nat \<Rightarrow> 'w services \<Rightarrow> bool" where
  "apart cp off n s \<longleftrightarrow> buffer_at s off + n \<le> unat cp \<or> unat cp + 16 \<le> buffer_at s off"

definition at_block :: "u32 \<Rightarrow> 'w services \<Rightarrow> bool" where
  "at_block cp s \<longleftrightarrow> 2 \<le> unat (JIM_ram_size s) \<and> (\<exists>d. cp = command_block s d)"

lemma at_block_field: "at_block cp s \<Longrightarrow> unat k < 512 \<Longrightarrow> unat (cp + k) = unat cp + unat k"
  using block_field(1) [of s "unat k"] by (auto simp: at_block_def)

lemma at_block_cong: "JIM_ram_size t = JIM_ram_size s \<Longrightarrow> at_block cp t = at_block cp s"
  by (simp add: at_block_def command_block_def DISC_RAM_BASE_def)

lemma wr24_read: "unat v < 2 ^ 24 \<Longrightarrow> jim_rd24 cp k (jim_wr24 cp k v s) = v"
proof -
  assume "unat v < 2 ^ 24"
  then have "unat (byte_of 3 v) = 0" by (simp add: unat_byte_of)
  then have "byte_of 3 v = 0" by (simp add: unat_eq_zero)
  then have "le32 (byte_of 0 v) (byte_of 1 v) (byte_of 2 v) 0 = v" using le32_bytes [of v] by simp
  then show ?thesis by (simp add: jim_rd24_def jim_wr24_def put_bytes_def set_mem_def mem_write_def Let_def nth_Cons')
qed

lemma deliver_read:
  assumes "at_block cp s" "apart cp off (length b) s" "unat k \<le> 13"
  shows "mem_read (JIM_ram (jim_wr24 cp k v (on_h i f (net_deliver off b s)))) (buffer_at s off) (length b) = b"
proof -
  have "unat (cp + k) = unat cp + unat k" using assms(1,3) by (intro at_block_field) simp_all
  then have "JIM_ram (jim_wr24 cp k v (on_h i f (net_deliver off b s))) a = mem_write (JIM_ram s) (buffer_at s off) b a"
    if "buffer_at s off \<le> a" "a < buffer_at s off + length b" for a
    using that assms(2,3)
    by (simp add: jim_wr24_def put_bytes_def set_mem_def net_deliver_def apart_def on_h_def on_svc_def)
       (rule mem_write_outside, auto)
  then have "mem_read (JIM_ram (jim_wr24 cp k v (on_h i f (net_deliver off b s)))) (buffer_at s off) (length b) =
      mem_read (mem_write (JIM_ram s) (buffer_at s off) b) (buffer_at s off) (length b)" by (simp add: mem_read_def)
  then show ?thesis by (simp add: mem_read_write)
qed

section \<open>Streams\<close>

lemma ring_free_nat: "rxr_wf r \<Longrightarrow> unat (ring_free r) = 8192 - unat (rx_count r)"
  by (simp add: ring_free_def NET_RX_RING_SIZE_def rxr_wf_def unat_sub word_le_nat_alt)

lemma ring_get_effect:
  assumes "rxr_wf r"
  shows "fst (ring_get n r) = take n (ring_view r)" "ring_view (snd (ring_get n r)) = drop n (ring_view r)" "rxr_wf (snd (ring_get n r))"
  using rx.get_bytes [OF assms] rx.view_get [OF assms] rx.invar_get [OF assms] by (simp_all add: ring_get_def)

lemma stream_read_effect:
  assumes "rxr_wf (rx (hnd s i))" "at_block cp s" "apart cp off (unat mx) s" "x = stream_read i cp off mx s"
    and "b = take (unat mx) (ring_view (rx (hnd s i)))"
  shows "fst x = NET_OK \<Longrightarrow> mem_read (JIM_ram (snd x)) (buffer_at s off) (unat (jim_rd24 cp 1 (snd x))) = b"
    "fst x \<noteq> NET_OK \<Longrightarrow> b = []" "ring_view (rx (hnd (snd x) i)) = drop (unat mx) (ring_view (rx (hnd s i)))"
    "rxr_wf (rx (hnd (snd x) i))" "JIM_ram_size (snd x) = JIM_ram_size s" "(hnd (snd x) i)\<lparr>rx := r\<rparr> = (hnd s i)\<lparr>rx := r\<rparr>"
proof -
  note g = ring_get_effect [OF assms(1), of "unat mx"]
  define t where "t = jim_wr24 cp 1 (of_nat (length b)) (on_h i (\<lambda>h. h\<lparr>rx := snd (ring_get (unat mx) (rx (hnd s i)))\<rparr>) (net_deliver off b s))"
  have l: "length b \<le> 8192" "length b \<le> unat mx" using rx.view_bound [OF assms(1)] by (auto simp: assms(5))
  then have n: "unat (of_nat (length b) :: u32) = length b" by (simp add: unat_of_nat)
  have x: "snd x = t" "fst x = (if b = [] \<and> rx_count (rx (hnd t i)) = 0
      then if rx_eof (hnd s i) then NET_EOF else if hstate (hnd s i) = NET_ST_ERROR then sticky_err (hnd t i) else NET_OK else NET_OK)"
    using n by (auto simp: assms(4) stream_read_def ring_to_jim_def Let_def case_prod_beta g(1) t_def simp flip: assms(5))
  have a: "apart cp off (length b) s" using assms(3) l(2) by (auto simp: apart_def)
  have "jim_rd24 cp 1 t = of_nat (length b)" unfolding t_def by (rule wr24_read) (use n l(1) in simp)
  moreover have "mem_read (JIM_ram t) (buffer_at s off) (length b) = b" unfolding t_def by (rule deliver_read [OF assms(2) a]) simp
  ultimately show "mem_read (JIM_ram (snd x)) (buffer_at s off) (unat (jim_rd24 cp 1 (snd x))) = b" by (simp add: x(1) n)
  show "fst x \<noteq> NET_OK \<Longrightarrow> b = []" by (simp add: x(2) split: if_splits)
  show "ring_view (rx (hnd (snd x) i)) = drop (unat mx) (ring_view (rx (hnd s i)))" "rxr_wf (rx (hnd (snd x) i))"
    "JIM_ram_size (snd x) = JIM_ram_size s" "(hnd (snd x) i)\<lparr>rx := r\<rparr> = (hnd s i)\<lparr>rx := r\<rparr>"
    using g by (simp_all add: x(1) t_def jim_wr24_def)
qed

text \<open>Segments that lwIP presents and RECV commands of the Beeb, which first writes the memory as it likes.  The result is
  what was accepted, what the Beeb found in its buffer, and the state.\<close>

datatype stream_op = Segment "u8 list list" | Receive mem

fun stream_run ::
  "('n, 'y) net_lwip_scheme \<Rightarrow> nat \<Rightarrow> nat \<Rightarrow> u32 \<Rightarrow> stream_op list \<Rightarrow> ('n, 'z) net_services \<Rightarrow> u8 list \<times> u8 list \<times> ('n, 'z) net_services"
where
  "stream_run lw i pcb cp [] s = ([], [], s)"
| "stream_run lw i pcb cp (Segment p # ops) s =
     (let (e, t) = net_tcp_recv lw i pcb (Some p) True s; (ac, de, u) = stream_run lw i pcb cp ops t in
      ((if e = ERR_OK then concat p else []) @ ac, de, u))"
| "stream_run lw i pcb cp (Receive m # ops) s =
     (let s = set_mem m s; (r, t) = do_recv i cp s;
          got = (if r = NET_OK then mem_read (JIM_ram t) (buffer_at s (block_word cp 4 s)) (unat (jim_rd24 cp 1 t)) else []);
          (ac, de, u) = stream_run lw i pcb cp ops t in
      (ac, got @ de, u))"

definition stream_op_ok :: "u32 \<Rightarrow> ('n, 'z) net_services \<Rightarrow> stream_op \<Rightarrow> bool" where
  "stream_op_ok cp s op = (case op of Segment p \<Rightarrow> True
     | Receive m \<Rightarrow> apart cp (block_word cp 4 (set_mem m s)) (unat (jim_rd24 cp 1 (set_mem m s))) (set_mem m s))"

text \<open>A handle that is open and not a TELNET session.\<close>

definition plain_handle :: "net_handle \<Rightarrow> bool" where
  "plain_handle h \<longleftrightarrow> hstate h \<noteq> NET_ST_FREE \<and> \<not> (is_url h \<and> url_adapter h = NET_URL_TELNET)"

lemma segment_effect:
  assumes "rxr_wf (rx (hnd s i))" "plain_handle (hnd s i)" "x = net_tcp_recv lw i pcb (Some p) True s"
  shows "ring_view (rx (hnd (snd x) i)) = ring_view (rx (hnd s i)) @ (if fst x = ERR_OK then concat p else [])"
    "rxr_wf (rx (hnd (snd x) i))" "plain_handle (hnd (snd x) i)" "JIM_ram_size (snd x) = JIM_ram_size s"
proof -
  note f = ring_free_nat [OF assms(1)]
  have c: "unat (rx_count (rx (hnd s i))) \<le> 8192" using assms(1) by (simp add: rxr_wf_def)
  have "ring_view (ring_put_pbuf p (rx (hnd s i))) = ring_view (rx (hnd s i)) @ concat p \<and> rxr_wf (ring_put_pbuf p (rx (hnd s i)))"
    if "length (concat p) \<le> 8192 - unat (rx_count (rx (hnd s i)))"
    unfolding ring_put_pbuf_def by (rule rx.put_chain [OF assms(1)]) (use that c in simp)
  then show "ring_view (rx (hnd (snd x) i)) = ring_view (rx (hnd s i)) @ (if fst x = ERR_OK then concat p else [])"
    "rxr_wf (rx (hnd (snd x) i))" "plain_handle (hnd (snd x) i)" "JIM_ram_size (snd x) = JIM_ram_size s"
    using assms(1,2) by (auto simp: assms(3) net_tcp_recv_def Let_def f plain_handle_def)
qed

lemma receive_effect:
  assumes "rxr_wf (rx (hnd s i))" "plain_handle (hnd s i)" "at_block cp s" "stream_op_ok cp s (Receive m)" "x = do_recv i cp (set_mem m s)"
    and "got = (if fst x = NET_OK then mem_read (JIM_ram (snd x)) (buffer_at s (block_word cp 4 (set_mem m s))) (unat (jim_rd24 cp 1 (snd x))) else [])"
  shows "got @ ring_view (rx (hnd (snd x) i)) = ring_view (rx (hnd s i))" "rxr_wf (rx (hnd (snd x) i))" "plain_handle (hnd (snd x) i)"
    "JIM_ram_size (snd x) = JIM_ram_size s"
proof -
  let ?s = "set_mem m s"
  define off where "off = block_word cp 4 ?s"
  define mx where "mx = jim_rd24 cp 1 ?s"
  have h: "hnd ?s i = hnd s i" "JIM_ram_size ?s = JIM_ram_size s" "buffer_at ?s off = buffer_at s off"
    by (simp_all add: hnd_def set_mem_def buffer_at_def DISC_RAM_BASE_def)
  have x: "x = (if \<not> net_buffer_ok off mx then (NET_ERR_PARAM, ?s) else stream_read i cp off mx ?s)"
    using assms(2) by (simp add: assms(5) do_recv_def off_def mx_def h plain_handle_def)
  have a: "apart cp off (unat mx) ?s" using assms(4) by (simp add: stream_op_ok_def off_def mx_def)
  have b: "at_block cp ?s" using assms(3) at_block_cong [OF h(2)] by simp
  note e = stream_read_effect [OF _ b a refl refl, of i, unfolded h, OF assms(1)]
  have "got @ ring_view (rx (hnd (snd x) i)) = ring_view (rx (hnd s i)) \<and> rxr_wf (rx (hnd (snd x) i)) \<and>
      plain_handle (hnd (snd x) i) \<and> JIM_ram_size (snd x) = JIM_ram_size s"
  proof (cases "net_buffer_ok off mx")
    case True
    have "hstate (hnd (snd x) i) = hstate (hnd s i)" "is_url (hnd (snd x) i) = is_url (hnd s i)"
      "url_adapter (hnd (snd x) i) = url_adapter (hnd s i)"
      using e(6) [of "rx (hnd s i)"] True x by (metis net_handle.update_convs(21) net_handle.select_convs(1) net_handle.surjective,
          metis net_handle.update_convs(21) net_handle.select_convs(8) net_handle.surjective,
          metis net_handle.update_convs(21) net_handle.select_convs(9) net_handle.surjective)
    then show ?thesis
      using e True x assms(2) append_take_drop_id [of "unat mx" "ring_view (rx (hnd s i))"]
      by (auto simp: assms(6) plain_handle_def off_def [symmetric])
  next
    case False
    then show ?thesis using x assms(1,2) h by (simp add: assms(6) NET_ERR_PARAM_def NET_OK_def)
  qed
  then show "got @ ring_view (rx (hnd (snd x) i)) = ring_view (rx (hnd s i))" "rxr_wf (rx (hnd (snd x) i))" "plain_handle (hnd (snd x) i)"
    "JIM_ram_size (snd x) = JIM_ram_size s" by blast+
qed

lemma stream_op_cong: "JIM_ram_size t = JIM_ram_size s \<Longrightarrow> stream_op_ok cp t op = stream_op_ok cp s op"
  by (cases op) (simp_all add: stream_op_ok_def apart_def buffer_at_def DISC_RAM_BASE_def block_word_def jim_rd24_def set_mem_def)

lemma stream_run_exact:
  assumes "rxr_wf (rx (hnd s i))" "plain_handle (hnd s i)" "at_block cp s" "\<forall>op \<in> set ops. stream_op_ok cp s op"
    and "stream_run lw i pcb cp ops s = (ac, de, t)"
  shows "ring_view (rx (hnd s i)) @ ac = de @ ring_view (rx (hnd t i))"
  using assms
proof (induction ops arbitrary: s ac de)
  case (Cons op ops)
  show ?case
  proof (cases op)
    case (Segment p)
    define x where "x = net_tcp_recv lw i pcb (Some p) True s"
    obtain ac' where r: "stream_run lw i pcb cp ops (snd x) = (ac', de, t)" "ac = (if fst x = ERR_OK then concat p else []) @ ac'"
      using Cons.prems(5) by (auto simp: Segment x_def Let_def case_prod_beta prod_eq_iff)
    note e = segment_effect [OF Cons.prems(1,2) x_def]
    have "ring_view (rx (hnd (snd x) i)) @ ac' = de @ ring_view (rx (hnd t i))"
      by (rule Cons.IH [OF e(2,3) _ _ r(1)]) (use Cons.prems(3,4) at_block_cong [OF e(4)] stream_op_cong [OF e(4)] in auto)
    then show ?thesis using e(1) r(2) by simp
  next
    case (Receive m)
    define x where "x = do_recv i cp (set_mem m s)"
    define got where "got = (if fst x = NET_OK then mem_read (JIM_ram (snd x)) (buffer_at s (block_word cp 4 (set_mem m s))) (unat (jim_rd24 cp 1 (snd x))) else [])"
    have "buffer_at (set_mem m s) off = buffer_at s off" for off by (simp add: buffer_at_def DISC_RAM_BASE_def set_mem_def)
    then obtain de' where r: "stream_run lw i pcb cp ops (snd x) = (ac, de', t)" "de = got @ de'"
      using Cons.prems(5) by (auto simp: Receive x_def got_def Let_def case_prod_beta prod_eq_iff)
    have "stream_op_ok cp s (Receive m)" using Cons.prems(4) by (simp add: Receive)
    note e = receive_effect [OF Cons.prems(1,2,3) this x_def got_def]
    have "ring_view (rx (hnd (snd x) i)) @ ac = de' @ ring_view (rx (hnd t i))"
      by (rule Cons.IH [OF e(2,3) _ _ r(1)]) (use Cons.prems(3,4) at_block_cong [OF e(4)] stream_op_cong [OF e(4)] in auto)
    then show ?thesis unfolding e(1) [symmetric] r(2) by simp
  qed
qed simp

text \<open>C5. A TCP handle delivers exactly the stream it accepted: whatever segments lwIP presents,
  parked ones included, and however the Beeb asks for bytes, what it has found in its buffer,
  followed by what is still in the ring, is the concatenation of the segments accepted; nothing
  is lost, repeated or reordered.\<close>

theorem tcp_stream_exact:
  assumes "rxr_wf (rx (hnd s i))" "rx_count (rx (hnd s i)) = 0" "plain_handle (hnd s i)" "at_block cp s"
    and "\<forall>op \<in> set ops. stream_op_ok cp s op" "stream_run lw i pcb cp ops s = (accepted, delivered, t)"
  shows "accepted = delivered @ ring_view (rx (hnd t i))"
  using stream_run_exact [OF assms(1,3-6)] assms(2) by (simp add: ring_view_def)

section \<open>Datagrams\<close>

type_synonym datagram = "u32 \<times> u16 \<times> u8 list"

definition udp_record :: "datagram \<Rightarrow> u8 list" where
  "udp_record d = (case d of (ip, port, data) \<Rightarrow> udp_header ip port (length data) @ data)"

text \<open>The ring of a UDP handle as a queue of datagrams.\<close>

definition udp_queue :: "rx_ring \<Rightarrow> datagram list \<Rightarrow> bool" where
  "udp_queue r q \<longleftrightarrow> rxr_wf r \<and> ring_view r = concat (map udp_record q)"

lemma length_udp_record: "length (udp_record (ip, port, data)) = 8 + length data"
  by (simp add: udp_record_def udp_header_def ip_octets_def)

lemma udp_queue_put:
  assumes "udp_queue (rx (hnd s i)) q"
  shows "udp_queue (rx (hnd (net_udp_recv i p ip port s) i))
    (if length (concat (map udp_record q)) + 8 + length (concat p) \<le> 8192 then q @ [(ip, port, concat p)] else q)"
proof -
  let ?r = "rx (hnd s i)" and ?h = "udp_header ip port (length (concat p))"
  have w: "rxr_wf ?r" and v: "ring_view ?r = concat (map udp_record q)" using assms by (simp_all add: udp_queue_def)
  have n: "unat (rx_count ?r) = length (concat (map udp_record q))" using v by (metis length_ring_view)
  have c: "unat (rx_count ?r) \<le> 8192" using w by (simp add: rxr_wf_def)
  have g: "length (concat p) + 8 \<le> unat (ring_free ?r) \<longleftrightarrow> unat (rx_count ?r) + 8 + length (concat p) \<le> 8192"
    using c by (simp add: ring_free_nat [OF w]) linarith
  have "udp_queue (ring_put_pbuf p (ring_put_mem ?h ?r)) (q @ [(ip, port, concat p)])" if "unat (rx_count ?r) + 8 + length (concat p) \<le> 8192"
  proof -
    have h: "length ?h = 8" by (simp add: udp_header_def ip_octets_def)
    have "ring_view (ring_put_mem ?h ?r) = ring_view ?r @ ?h" "rxr_wf (ring_put_mem ?h ?r)"
      using rx.view_put [OF w] rx.invar_put [OF w] h that by simp_all
    with rx.put_chain [of "ring_put_mem ?h ?r" p] h that v n
    show ?thesis by (simp add: udp_queue_def ring_put_pbuf_def udp_record_def)
  qed
  then show ?thesis using g assms by (simp add: net_udp_recv_def Let_def flip: n)
qed

lemma udp_header_parts:
  "take 6 (udp_header ip port n @ bs) = ip_octets ip @ u16_bytes port" "n < 65536 \<Longrightarrow> unat (rd_u16 (drop 6 (take 8 (udp_header ip port n @ bs)))) = n"
proof -
  show "take 6 (udp_header ip port n @ bs) = ip_octets ip @ u16_bytes port" by (simp add: udp_header_def ip_octets_def u16_bytes_def)
  have "drop 6 (take 8 (udp_header ip port n @ bs)) = u16_bytes (of_nat n) @ []" by (simp add: udp_header_def ip_octets_def u16_bytes_def)
  then show "unat (rd_u16 (drop 6 (take 8 (udp_header ip port n @ bs)))) = n" if "n < 65536"
    using that by (simp only: rd_u16_bytes) (simp add: unat_of_nat)
qed

lemma ring_header_effect:
  assumes "udp_queue r ((ip, port, data) # q)" "ring_header r = (peer, n, t)"
  shows "peer = ip_octets ip @ u16_bytes port" "n = length data" "rxr_wf t" "ring_view t = data @ concat (map udp_record q)"
    "length data \<le> 8184"
proof -
  have w: "rxr_wf r" and v: "ring_view r = udp_header ip port (length data) @ data @ concat (map udp_record q)"
    using assms(1) by (simp_all add: udp_queue_def udp_record_def)
  have h: "length (udp_header ip port k) = 8" for k by (simp add: udp_header_def ip_octets_def)
  have l: "length (ring_view r) \<le> 8192" by (rule rx.view_bound [OF w])
  then show d: "length data \<le> 8184" by (simp add: v h del: length_ring_view)
  have n: "8 \<le> length (ring_view r)" by (simp add: v h del: length_ring_view)
  have f: "fst (ring_get_mem 8 r) = take 8 (ring_view r)" "ring_view (snd (ring_get_mem 8 r)) = drop 8 (ring_view r)"
      "rxr_wf (snd (ring_get_mem 8 r))"
    using rx.get_bytes [OF w n] rx.view_get [OF w n] rx.invar_get [OF w n] by simp_all
  have r: "peer = take 6 (fst (ring_get_mem 8 r))" "n = unat (rd_u16 (drop 6 (fst (ring_get_mem 8 r))))" "t = snd (ring_get_mem 8 r)"
    using assms(2) by (auto simp: ring_header_def Let_def case_prod_beta)
  show "peer = ip_octets ip @ u16_bytes port" unfolding r f v using udp_header_parts(1) [of ip port "length data" "[]"] by (simp add: h)
  show "n = length data" unfolding r f v using d by (intro udp_header_parts(2)) simp
  show "rxr_wf t" using f(3) by (simp add: r)
  show "ring_view t = data @ concat (map udp_record q)" unfolding r f v by (simp add: h)
qed

lemma ring_skip_effect: "rxr_wf r \<Longrightarrow> n \<le> unat (rx_count r) \<Longrightarrow> rxr_wf (ring_skip n r) \<and> ring_view (ring_skip n r) = drop n (ring_view r)"
proof (induction n r rule: ring_skip.induct)
  case (1 n r)
  show ?case
  proof (cases "n = 0")
    case False
    define k where "k = (if n < 64 then n else 64)"
    have k: "k \<le> length (ring_view r)" "0 < k" "k \<le> n" using 1(3) False by (auto simp: k_def)
    note f = rx.view_get [OF 1(2) k(1)] rx.invar_get [OF 1(2) k(1)]
    have "unat (rx_count (snd (ring_get_mem k r))) = unat (rx_count r) - k" using f(1) by (metis length_drop length_ring_view)
    then have "n - k \<le> unat (rx_count (snd (ring_get_mem k r)))" using 1(3) by simp
    with 1(1) [OF False k_def f(2)] have "rxr_wf (ring_skip (n - k) (snd (ring_get_mem k r))) \<and>
        ring_view (ring_skip (n - k) (snd (ring_get_mem k r))) = drop (n - k) (drop k (ring_view r))" using f(1) by simp
    moreover have "ring_skip n r = ring_skip (n - k) (snd (ring_get_mem k r))"
      using False by (subst ring_skip.simps) (simp add: k_def Let_def)
    ultimately show ?thesis using k by simp
  qed (simp add: ring_skip.simps 1)
qed

lemma datagram_effect:
  assumes "udp_queue (rx (hnd s i)) ((ip, port, data) # q)" "datagram_to_jim i off mx s = (peer, n, t)"
    and "b = take (unat mx) data"
  shows "peer = ip_octets ip @ u16_bytes port" "n = of_nat (length b)" "udp_queue (rx (hnd t i)) q"
    "\<exists>f. t = on_h i f (net_deliver off b s)"
proof -
  let ?r = "rx (hnd s i)"
  obtain peer' dglen r where h: "ring_header ?r = (peer', dglen, r)" by (metis prod_cases3)
  note e = ring_header_effect [OF assms(1) h]
  define copy where "copy = (if dglen < unat mx then dglen else unat mx)"
  have c: "copy = length b" "copy \<le> length data" using e(2) by (auto simp: copy_def assms(3) min_def)
  have "unat (of_nat copy :: u32) = copy" using c(2) e(5) by (simp add: unat_of_nat)
  moreover have "fst (ring_get copy r) = b" "ring_view (snd (ring_get copy r)) = drop copy data @ concat (map udp_record q)"
      "rxr_wf (snd (ring_get copy r))"
    using ring_get_effect [OF e(3), of copy] c e(2,4) by (simp_all add: copy_def assms(3))
  moreover define u where "u = snd (ring_to_jim i off (of_nat copy) (on_h i (\<lambda>h. h\<lparr>rx := r\<rparr>) s))"
  ultimately have u: "u = on_h i (\<lambda>h. h\<lparr>rx := snd (ring_get copy r)\<rparr>) (net_deliver off b (on_h i (\<lambda>h. h\<lparr>rx := r\<rparr>) s))"
    "rxr_wf (snd (ring_get copy r))" "ring_view (snd (ring_get copy r)) = drop copy data @ concat (map udp_record q)"
    by (simp_all add: ring_to_jim_def case_prod_beta)
  have "datagram_to_jim i off mx s =
      (peer', of_nat copy, if copy < dglen then on_h i (\<lambda>h. h\<lparr>rx := ring_skip (dglen - copy) (rx h)\<rparr>) u else u)"
    by (simp only: datagram_to_jim_def h Let_def prod.case copy_def [symmetric] u_def case_prod_beta fst_conv snd_conv)
  then have t: "peer = peer'" "n = of_nat copy"
      "t = (if copy < dglen then on_h i (\<lambda>h. h\<lparr>rx := ring_skip (dglen - copy) (rx h)\<rparr>) u else u)"
    using assms(2) by simp_all
  show "peer = ip_octets ip @ u16_bytes port" "n = of_nat (length b)" using t e(1) c(1) by simp_all
  have v: "ring_view (rx (hnd u i)) = drop copy data @ concat (map udp_record q)" "rxr_wf (rx (hnd u i))"
    using u(2,3) by (simp_all add: u(1))
  have "dglen - copy \<le> unat (rx_count (rx (hnd u i)))"
    using arg_cong [OF v(1), of length] e(2) by simp
  with ring_skip_effect [OF v(2)] have "rxr_wf (ring_skip (dglen - copy) (rx (hnd u i)))"
      "ring_view (ring_skip (dglen - copy) (rx (hnd u i))) = concat (map udp_record q)"
    using v(1) e(2) by simp_all
  then show "udp_queue (rx (hnd t i)) q" using v e(2) by (simp add: t(3) udp_queue_def)
  have "on_h i g (net_deliver off b (on_h i f s)) = on_h i (\<lambda>h. g (f h)) (net_deliver off b s)" for f g
    by (simp add: on_h_def net_deliver_def on_svc_def set_mem_def buffer_at_def DISC_RAM_BASE_def)
  moreover have "on_h i g (on_h i f x) = on_h i (\<lambda>h. g (f h)) x" for f g and x :: "('a, 'b) net_services"
    by (simp add: on_h_def on_svc_def)
  ultimately show "\<exists>f. t = on_h i f (net_deliver off b s)" unfolding t(3) u(1) by (metis (no_types))
qed

lemma u16_octets: "rd_u16 (u16_bytes p) = p" using rd_u16_bytes [of p "[]"] by simp

text \<open>C14. The ring of a UDP handle refines a queue of datagrams: a datagram that fits with its
  header is added at the end and any other is dropped whole; RECVFROM takes the oldest, reports
  its sender and the number of bytes delivered, puts them into the Beeb's buffer and drops the
  rest of the datagram; with an empty queue it reports 0 bytes.\<close>

theorem udp_queue_refines:
  assumes "udp_queue (rx (hnd s i)) q" "htype (hnd s i) = NET_TYPE_UDP" "at_block cp s"
    and "off = block_word cp 10 s" "mx = jim_rd24 cp 7 s" "net_buffer_ok off mx" "apart cp off (unat mx) s"
    and "do_udp_recvfrom i cp s = (res, t)"
  shows "udp_queue (rx (hnd (net_udp_recv i p ip port s) i))
      (if length (concat (map udp_record q)) + 8 + length (concat p) \<le> 8192 then q @ [(ip, port, concat p)] else q) \<and>
    res = NET_OK \<and> (case q of
        [] \<Rightarrow> udp_queue (rx (hnd t i)) [] \<and> jim_rd24 cp 7 t = 0
      | (ip', port', data) # q' \<Rightarrow> udp_queue (rx (hnd t i)) q' \<and> net_ip_from_wire cp 1 t = ip' \<and> block_u16 cp 5 t = port' \<and>
          jim_rd24 cp 7 t = of_nat (min (length data) (unat mx)) \<and>
          mem_read (JIM_ram t) (buffer_at s off) (min (length data) (unat mx)) = take (unat mx) data)"
proof (rule conjI)
  show "udp_queue (rx (hnd (net_udp_recv i p ip port s) i))
      (if length (concat (map udp_record q)) + 8 + length (concat p) \<le> 8192 then q @ [(ip, port, concat p)] else q)"
    by (rule udp_queue_put [OF assms(1)])
  let ?r = "rx (hnd s i)"
  have v: "rxr_wf ?r" "ring_view ?r = concat (map udp_record q)" using assms(1) by (simp_all add: udp_queue_def)
  show "res = NET_OK \<and> (case q of
        [] \<Rightarrow> udp_queue (rx (hnd t i)) [] \<and> jim_rd24 cp 7 t = 0
      | (ip', port', data) # q' \<Rightarrow> udp_queue (rx (hnd t i)) q' \<and> net_ip_from_wire cp 1 t = ip' \<and> block_u16 cp 5 t = port' \<and>
          jim_rd24 cp 7 t = of_nat (min (length data) (unat mx)) \<and>
          mem_read (JIM_ram t) (buffer_at s off) (min (length data) (unat mx)) = take (unat mx) data)"
  proof (cases q)
    case Nil
    then have "rx_count ?r = 0" using arg_cong [OF v(2), of length] by (simp add: unat_eq_zero)
    then have "res = NET_OK" "t = jim_wr24 cp 7 0 s"
      using assms(2,6,8) by (auto simp: do_udp_recvfrom_def Let_def simp flip: assms(4,5))
    then show ?thesis using Nil assms(1) wr24_read [of 0 cp 7 s] by simp
  next
    case (Cons d q')
    obtain ip' port' data where d: "d = (ip', port', data)" by (metis prod_cases3)
    define b where "b = take (unat mx) data"
    define s1 where "s1 = put_bytes (cp + 1) (fst (ring_header ?r)) s"
    obtain peer n u where u: "datagram_to_jim i off mx s1 = (peer, n, u)" by (metis prod_cases3)
    obtain peer' dl r' where z: "ring_header ?r = (peer', dl, r')" by (metis prod_cases3)
    have q: "udp_queue (rx (hnd s1 i)) ((ip', port', data) # q')" using assms(1) Cons d by (simp add: s1_def)
    note e = datagram_effect [OF q u b_def]
    obtain f where f: "u = on_h i f (net_deliver off b s1)" using e(4) by blast
    have pe: "fst (ring_header ?r) = ip_octets ip' @ u16_bytes port'" "length data \<le> 8184"
      using ring_header_effect(1,5) [OF assms(1) [unfolded Cons d] z] z by simp_all
    have "8 \<le> unat (rx_count ?r)" using arg_cong [OF v(2), of length] Cons d by (simp add: length_udp_record)
    then have "\<not> rx_count ?r < 8" by (simp add: word_less_nat_alt)
    then have r: "res = NET_OK" "t = jim_wr24 cp 7 n u"
      using assms(2,6,8) u by (auto simp: do_udp_recvfrom_def Let_def s1_def simp flip: assms(4,5))
    have l: "length b = min (length data) (unat mx)" "length b \<le> 8184" using pe(2) by (simp_all add: b_def)
    have at: "at_block cp s1" "apart cp off (length b) s1" "buffer_at s1 off = buffer_at s off"
      using assms(3,7) l(1) by (auto simp: s1_def at_block_def command_block_def DISC_RAM_BASE_def apart_def buffer_at_def)
    have rd: "jim_rd24 cp 7 t = of_nat (length b)" unfolding r e(2) by (rule wr24_read) (use l(2) in \<open>simp add: unat_of_nat\<close>)
    have bytes: "mem_read (JIM_ram t) (buffer_at s off) (length b) = b"
      unfolding r f using deliver_read [OF at(1,2), of 7] at(3) by simp
    have field: "JIM_ram t (unat cp + k) = (ip_octets ip' @ u16_bytes port') ! (k - 1)" if "1 \<le> k" "k < 7" for k
    proof -
      have "unat (cp + 1) = unat cp + 1" "unat (cp + 7) = unat cp + 7" using at_block_field [OF assms(3)] by simp_all
      then show ?thesis
        using that at(2,3) pe(1) unfolding r f
        by (auto simp: jim_wr24_def put_bytes_def set_mem_def net_deliver_def on_h_def on_svc_def mem_write_def apart_def s1_def
            ip_octets_def u16_bytes_def buffer_at_def DISC_RAM_BASE_def)
    qed
    have a: "unat (cp + 1) = unat cp + 1" "unat (cp + 5) = unat cp + 5" "unat (cp + 6) = unat cp + 6"
      using at_block_field [OF assms(3)] by simp_all
    have "net_ip_from_wire cp 1 t = ip'"
      using le32_bytes [of ip'] field [of 1] field [of 2] field [of 3] field [of 4]
      by (simp add: net_ip_from_wire_def block_word_def jim_read32_def a ip_octets_def u16_bytes_def numeral_eq_Suc)
    moreover have "block_u16 cp 5 t = port'"
      using u16_octets [of port'] field [of 5] field [of 6]
      by (simp add: block_u16_def block_byte_def a ip_octets_def u16_bytes_def rd_u16_def)
    ultimately show ?thesis using Cons d r(1) rd bytes e(3) l(1) b_def by (simp add: r(2))
  qed
qed

end
