(* ===== verification/NetTransact.thy ===== *)
theory NetTransact
  imports NetData
begin

text \<open>
  The transactions of the N: device: a TNFS request is retried a bounded number of times, its answer reaches the Beeb's
  buffer, and an HTTP response is delivered without its headers.
\<close>

section \<open>TNFS requests end\<close>

lemma udp_send_frame [simp]: "hnd (snd (net_udp_send lw u data ip port s)) i = hnd s i"
  by (simp add: net_udp_send_def Let_def case_prod_beta split: option.split)

lemma send_raw_frame [simp]: "hnd (net_tnfs_send_raw lw j req s) i = hnd s i"
  by (auto simp: net_tnfs_send_raw_def case_prod_beta split: option.split)

lemma fire_frame: "tnfs (hnd (net_tnfs_fire lw i s) i) = (tnfs (hnd s i))\<lparr>tnfs_deadline := tnfs_deadline (tnfs (hnd (net_tnfs_fire lw i s) i))\<rparr>"
  by (simp add: net_tnfs_fire_def Let_def)

lemma next_reply_frame: "tnfs (hnd (snd (tnfs_next_reply i s)) i) = tnfs (hnd s i)" "net_stack (svc (snd (tnfs_next_reply i s))) = net_stack (svc s)"
  by (simp_all add: tnfs_next_reply_def Let_def case_prod_beta split: option.split) (simp add: on_h_def on_svc_def)

text \<open>How many more answers of the kind try again the engine puts up with.\<close>

definition tnfs_budget :: "tnfs_session \<Rightarrow> nat" where
  "tnfs_budget x = unat (tnfs_eagain x) * 5 + unat (tnfs_retries x)"

lemma poll_spends:
  assumes "tnfs_retries (tnfs (hnd s i)) \<le> TNFS_RETRIES" "ms_reached (net_now_ms lw s) (tnfs_deadline (tnfs (hnd s i)))"
    and "net_tnfs_poll lw i s = (Inl NET_PENDING, t)"
  shows "tnfs_budget (tnfs (hnd t i)) < tnfs_budget (tnfs (hnd s i))" "tnfs_retries (tnfs (hnd t i)) \<le> TNFS_RETRIES"
proof -
  define y where "y = tnfs_next_reply i s"
  define x where "x = tnfs (hnd s i)"
  have f: "tnfs (hnd (snd y) i) = x" "net_now_ms lw (snd y) = net_now_ms lw s"
    by (simp_all add: y_def x_def next_reply_frame net_now_ms_def)
  have ne: "NET_ERR_CONN \<noteq> NET_PENDING" by (simp add: net_results)
  have dec: "unat (w - 1) = unat w - 1" "0 < unat w" if "w \<noteq> 0" for w :: u8
    using that by (simp_all add: unat_minus_one unat_gt_0)
  have "tnfs_budget (tnfs (hnd t i)) < tnfs_budget x \<and> tnfs_retries (tnfs (hnd t i)) \<le> TNFS_RETRIES"
  proof (cases "fst y")
    case (Some rep)
    then have e: "t_status rep = TNFS_EAGAIN" "tnfs_eagain x \<noteq> 0"
        "\<exists>dl. tnfs (hnd t i) = x\<lparr>tnfs_eagain := tnfs_eagain x - 1, tnfs_retries := TNFS_RETRIES, tnfs_deadline := dl\<rparr>"
      using assms(3) ne f by (auto simp: net_tnfs_poll_def Let_def case_prod_beta y_def [symmetric] split: if_splits)
    then show ?thesis using dec [OF e(2)] by (auto simp: tnfs_budget_def TNFS_RETRIES_def)
  next
    case None
    then have e: "tnfs_retries x \<noteq> 0" "t = net_tnfs_fire lw i (on_tnfs i (\<lambda>x. x\<lparr>tnfs_retries := tnfs_retries x - 1\<rparr>) (snd y))"
      using assms(2,3) ne f by (auto simp: net_tnfs_poll_def Let_def case_prod_beta y_def [symmetric] x_def [symmetric] split: if_splits)
    then have "\<exists>dl. tnfs (hnd t i) = x\<lparr>tnfs_retries := tnfs_retries x - 1, tnfs_deadline := dl\<rparr>"
      using fire_frame [of lw i "on_tnfs i (\<lambda>x. x\<lparr>tnfs_retries := tnfs_retries x - 1\<rparr>) (snd y)"] f(1) by auto
    then show ?thesis using dec [OF e(1)] assms(1) by (auto simp: tnfs_budget_def x_def word_le_nat_alt)
  qed
  then show "tnfs_budget (tnfs (hnd t i)) < tnfs_budget (tnfs (hnd s i))" "tnfs_retries (tnfs (hnd t i)) \<le> TNFS_RETRIES"
    by (simp_all add: x_def)
qed

text \<open>A run of polls, each after a change of the world: what arrives, and the time that passes.\<close>

fun tnfs_polls ::
  "('n, 'y) net_lwip_scheme \<Rightarrow> nat \<Rightarrow> (('n, 'z) net_services \<Rightarrow> ('n, 'z) net_services) list \<Rightarrow> ('n, 'z) net_services \<Rightarrow> (u8 + tnfs_reply) list"
where
  "tnfs_polls lw i [] s = []"
| "tnfs_polls lw i (f # fs) s = (let (r, t) = net_tnfs_poll lw i (f s) in r # tnfs_polls lw i fs t)"

text \<open>A change that leaves the session alone and after which the deadline has passed.\<close>

definition overdue :: "('n, 'y) net_lwip_scheme \<Rightarrow> nat \<Rightarrow> (('n, 'z) net_services \<Rightarrow> ('n, 'z) net_services) \<Rightarrow> bool" where
  "overdue lw i f \<longleftrightarrow> (\<forall>s. tnfs (hnd (f s) i) = tnfs (hnd s i) \<and> ms_reached (net_now_ms lw (f s)) (tnfs_deadline (tnfs (hnd s i))))"

lemma polls_spend:
  assumes "\<forall>f \<in> set fs. overdue lw i f" "tnfs_retries (tnfs (hnd s i)) \<le> TNFS_RETRIES" "set (tnfs_polls lw i fs s) \<subseteq> {Inl NET_PENDING}"
  shows "length fs \<le> tnfs_budget (tnfs (hnd s i))"
  using assms
proof (induction fs arbitrary: s)
  case (Cons f fs)
  have o: "tnfs (hnd (f s) i) = tnfs (hnd s i)" "ms_reached (net_now_ms lw (f s)) (tnfs_deadline (tnfs (hnd (f s) i)))"
    using Cons.prems(1) by (simp_all add: overdue_def)
  obtain t where t: "net_tnfs_poll lw i (f s) = (Inl NET_PENDING, t)" "set (tnfs_polls lw i fs t) \<subseteq> {Inl NET_PENDING}"
    using Cons.prems(3) by (cases "net_tnfs_poll lw i (f s)") auto
  note p = poll_spends [OF _ o(2) t(1)]
  have "length fs \<le> tnfs_budget (tnfs (hnd t i))" by (rule Cons.IH) (use Cons.prems(1,2) p(2) t(2) o(1) in simp_all)
  moreover have "tnfs_budget (tnfs (hnd t i)) < tnfs_budget (tnfs (hnd s i))" using p(1) Cons.prems(2) o(1) by simp
  ultimately show ?case by simp
qed simp

text \<open>C17. A TNFS transaction ends: once a request is sent, at most 45 polls past its deadline bring
  an answer or an error, whatever arrives meanwhile, an endless stream of EAGAIN answers
  included.\<close>

theorem tnfs_gives_up:
  assumes "net_tnfs_start lw i phase (Some req) s = (NET_PENDING, t)" "\<forall>f \<in> set fs. overdue lw i f" "45 \<le> length fs"
  shows "\<exists>r \<in> set (tnfs_polls lw i fs t). r \<noteq> Inl NET_PENDING"
proof (rule ccontr)
  assume "\<not> (\<exists>r \<in> set (tnfs_polls lw i fs t). r \<noteq> Inl NET_PENDING)"
  then have p: "set (tnfs_polls lw i fs t) \<subseteq> {Inl NET_PENDING}" by blast
  have "tnfs_retries (tnfs (hnd t i)) = TNFS_RETRIES" "tnfs_eagain (tnfs (hnd t i)) = TNFS_EAGAIN_MAX"
    using assms(1) by (auto simp: net_tnfs_start_def net_results net_tnfs_fire_def Let_def split: if_splits)
  moreover from this have "length fs \<le> tnfs_budget (tnfs (hnd t i))" using assms(2) p by (intro polls_spend) simp_all
  ultimately show False using assms(3) by (simp add: tnfs_budget_def TNFS_RETRIES_def TNFS_EAGAIN_MAX_def)
qed

section \<open>TNFS data\<close>

lemma udp_pop_effect:
  assumes "udp_queue r ((ip, port, data) # q)" "net_udp_pop cap r = (b, t)"
  shows "b = take cap data" "udp_queue t q"
proof -
  obtain peer n r1 where h: "ring_header r = (peer, n, r1)" by (metis prod_cases3)
  note e = ring_header_effect [OF assms(1) h]
  define copy where "copy = (if n < cap then n else cap)"
  have c: "copy \<le> length (ring_view r1)" "copy = min cap (length data)" using e(2,4) by (auto simp: copy_def min_def)
  have g: "fst (ring_get_mem copy r1) = take cap data" "ring_view (snd (ring_get_mem copy r1)) = drop copy data @ concat (map udp_record q)"
      "rxr_wf (snd (ring_get_mem copy r1))"
    using rx.get_bytes [OF e(3) c(1)] rx.view_get [OF e(3) c(1)] rx.invar_get [OF e(3) c(1)] c(2) e(4) by (simp_all add: min_def)
  have "8 \<le> length (ring_view r)" using assms(1) by (simp add: udp_queue_def length_udp_record del: length_ring_view)
  then have "\<not> rx_count r < 8" by (simp add: word_less_nat_alt)
  then have "net_udp_pop cap r = (fst (ring_get_mem copy r1),
      if copy < n then ring_skip (n - copy) (snd (ring_get_mem copy r1)) else snd (ring_get_mem copy r1))"
    by (simp only: net_udp_pop_def h Let_def prod.case copy_def [symmetric] case_prod_beta fst_conv snd_conv if_False)
  then have t: "b = fst (ring_get_mem copy r1)"
      "t = (if copy < n then ring_skip (n - copy) (snd (ring_get_mem copy r1)) else snd (ring_get_mem copy r1))"
    using assms(2) by simp_all
  show "b = take cap data" using t(1) g(1) by simp
  have "n - copy \<le> unat (rx_count (snd (ring_get_mem copy r1)))" using arg_cong [OF g(2), of length] e(2) by simp
  with ring_skip_effect [OF g(3)] show "udp_queue t q" using g(2,3) e(2) by (simp add: t(2) udp_queue_def)
qed

text \<open>What a handle needs to be waiting for the answer to a READ.\<close>

definition tnfs_reading :: "u16 \<Rightarrow> u8 \<Rightarrow> net_handle \<Rightarrow> bool" where
  "tnfs_reading c q h \<longleftrightarrow> hstate h \<noteq> NET_ST_FREE \<and> url_adapter h = NET_URL_TNFS \<and> tnfs_phase (tnfs h) = TNFS_PH_READING \<and>
     \<not> tnfs_is_dir (tnfs h) \<and> tnfs_seq (tnfs h) = q \<and> tnfs_connid (tnfs h) = c \<and>
     (\<exists>fd n. tnfs_req (tnfs h) = u16_bytes c @ [q, TNFS_CMD_READ, fd] @ u16_bytes n)"

lemma next_reply_read:
  assumes "tnfs_reading c q (hnd s i)" "length data + 7 \<le> TNFS_PKT_MAX"
    and "udp_queue (rx (hnd s i)) ((ip, port, server_reply c q TNFS_CMD_READ TNFS_OK (u16_bytes (of_nat (length data)) @ data)) # rest)"
  shows "\<exists>rep r. tnfs_next_reply i s = (Some rep, on_h i (\<lambda>h. h\<lparr>rx := r\<rparr>) s) \<and> udp_queue r rest \<and> t_status rep = TNFS_OK \<and>
    tnfs_reply_read rep = Some data"
proof -
  let ?pkt = "server_reply c q TNFS_CMD_READ TNFS_OK (u16_bytes (of_nat (length data)) @ data)"
  obtain b r where p: "net_udp_pop TNFS_PKT_MAX (rx (hnd s i)) = (b, r)" by (cases "net_udp_pop TNFS_PKT_MAX (rx (hnd s i))")
  have l: "length ?pkt = length data + 7" by (simp add: server_reply_def)
  then have b: "b = ?pkt" "udp_queue r rest" using udp_pop_effect [OF assms(3) p] assms(2) by simp_all
  have ne: "?pkt \<noteq> []" by (simp add: server_reply_def)
  have "length data < 65536" using assms(2) by (simp add: TNFS_PKT_MAX_def)
  from tnfs_read_roundtrip [OF this, of ?pkt c q "[]"] obtain rep
    where rep: "tnfs_parse_reply ?pkt q TNFS_CMD_READ = Some rep" "t_connid rep = c" "tnfs_reply_read rep = Some data" by auto
  have st: "t_status rep = TNFS_OK" using rep(1) by (simp add: parse_server_reply) auto
  have "8 \<le> length (ring_view (rx (hnd s i)))" using assms(3) by (simp add: udp_queue_def length_udp_record del: length_ring_view)
  then have n: "\<not> rx_count (rx (hnd s i)) < 8" by (simp add: word_less_nat_alt)
  obtain fd m where rq: "tnfs_req (tnfs (hnd s i)) = u16_bytes c @ [q, TNFS_CMD_READ, fd] @ u16_bytes m" "tnfs_seq (tnfs (hnd s i)) = q"
      "tnfs_connid (tnfs (hnd s i)) = c" using assms(1) by (auto simp: tnfs_reading_def)
  then have "tnfs_req (tnfs (hnd s i)) ! 3 = TNFS_CMD_READ" by (simp add: u16_bytes_def)
  then have "tnfs_next_reply i s = (Some rep, on_h i (\<lambda>h. h\<lparr>rx := r\<rparr>) s)"
    using n p b(1) ne rep(1,2) rq by (simp add: tnfs_next_reply_def Let_def)
  then show ?thesis using b(2) st rep(3) by blast
qed

lemma deliver_plain:
  fixes s :: "('n, 'z) net_services"
  assumes "at_block cp s" "apart cp off (length b) s" "unat k \<le> 13"
  shows "mem_read (JIM_ram (jim_wr24 cp k v (net_deliver off b s))) (buffer_at s off) (length b) = b"
proof -
  have "on_h i (\<lambda>h. h) t = t" for i and t :: "('n, 'z) net_services" by (simp add: on_h_def on_svc_def)
  then show ?thesis using deliver_read [OF assms, of v 0 "\<lambda>h. h"] by simp
qed

text \<open>C16. The data of a remote file reach the Beeb: when the server's answer to the outstanding READ
  is the oldest datagram, URL_READ returns success, the number of bytes and exactly the file's
  bytes in the buffer, and the session is ready for the next request.\<close>

theorem tnfs_read_delivers:
  assumes "tnfs_reading c q (hnd s i)" "length data + 7 \<le> TNFS_PKT_MAX"
    and "udp_queue (rx (hnd s i)) ((ip, port, server_reply c q TNFS_CMD_READ TNFS_OK (u16_bytes (of_nat (length data)) @ data)) # rest)"
    and "at_block cp s" "off = block_word cp 4 s" "mx = jim_rd24 cp 1 s" "net_buffer_ok off mx" "apart cp off (unat mx) s"
    and "do_url_read lw i cp s = (res, t)"
  shows "res = NET_OK \<and> jim_rd24 cp 1 t = of_nat (min (length data) (unat mx)) \<and>
    mem_read (JIM_ram t) (buffer_at s off) (min (length data) (unat mx)) = take (unat mx) data \<and>
    tnfs_phase (tnfs (hnd t i)) = TNFS_PH_READY \<and> udp_queue (rx (hnd t i)) rest"
proof -
  define s1 where "s1 = jim_wr24 cp 1 0 s"
  define b where "b = take (unat mx) data"
  have h: "hnd s1 i = hnd s i" by (simp add: s1_def)
  obtain rep r where rep: "tnfs_next_reply i s1 = (Some rep, on_h i (\<lambda>h. h\<lparr>rx := r\<rparr>) s1)" "udp_queue r rest"
      "t_status rep = TNFS_OK" "tnfs_reply_read rep = Some data"
    using next_reply_read [of c q s1 i data ip port rest] assms(1-3) h by auto
  define s2 where "s2 = on_tnfs i (\<lambda>x. x\<lparr>tnfs_phase := TNFS_PH_READY\<rparr>) (on_h i (\<lambda>h. h\<lparr>rx := r\<rparr>) s1)"
  have "net_tnfs_poll lw i s1 = (Inr rep, on_h i (\<lambda>h. h\<lparr>rx := r\<rparr>) s1)"
    using rep by (simp add: net_tnfs_poll_def Let_def TNFS_OK_def TNFS_EAGAIN_def)
  moreover have "\<not> tnfs_is_dir (tnfs (hnd s i))" using assms(1) by (simp add: tnfs_reading_def)
  moreover have "tnfs_phase (tnfs (hnd s i)) = TNFS_PH_READING" "TNFS_PH_READING \<noteq> TNFS_PH_READY"
    using assms(1) by (simp_all add: tnfs_reading_def tnfs_phases)
  moreover have "TNFS_OK \<noteq> TNFS_EOF" by (simp add: TNFS_OK_def TNFS_EOF_def)
  ultimately have "url_read_tnfs lw i cp mx off s = (NET_OK, jim_wr24 cp 1 (of_nat (length b)) (net_deliver off b s2))"
    using rep(3,4) by (simp add: url_read_tnfs_def Let_def s1_def [symmetric] h s2_def b_def)
  then have r: "res = NET_OK" "t = jim_wr24 cp 1 (of_nat (length b)) (net_deliver off b s2)"
    using assms(1,7,9) by (auto simp: do_url_read_def Let_def tnfs_reading_def simp flip: assms(5,6))
  have l: "length b = min (length data) (unat mx)" "length b \<le> 600" using assms(2) by (simp_all add: b_def TNFS_PKT_MAX_def)
  have sz: "JIM_ram_size s2 = JIM_ram_size s" by (simp add: s2_def on_tnfs_def s1_def jim_wr24_def)
  have at: "at_block cp s2" "apart cp off (length b) s2" "buffer_at s2 off = buffer_at s off"
    using assms(4,8) l(1) at_block_cong [OF sz] by (auto simp: apart_def buffer_at_def DISC_RAM_BASE_def sz)
  have "jim_rd24 cp 1 t = of_nat (length b)" unfolding r by (rule wr24_read) (use l(2) in \<open>simp add: unat_of_nat\<close>)
  moreover have "mem_read (JIM_ram t) (buffer_at s off) (length b) = b" unfolding r using deliver_plain [OF at(1,2), of 1] at(3) by simp
  moreover have "tnfs_phase (tnfs (hnd t i)) = TNFS_PH_READY" "udp_queue (rx (hnd t i)) rest" using rep(2) by (simp_all add: r s2_def h)
  ultimately show ?thesis using r(1) l(1) b_def by simp
qed

end
