(* ===== verification/NetHttp.thy ===== *)
theory NetHttp
  imports NetTransact
begin

text \<open>The HTTP adapter: the status code is read from the first line, the headers are consumed, the body is the stream.\<close>

lemma ring_index: "unat ((p + of_nat k) AND (NET_RX_RING_SIZE - 1)) = (unat p + k) mod 8192"
proof -
  have "(p + of_nat k) AND (NET_RX_RING_SIZE - 1) = take_bit 13 (p + of_nat k)"
    by (simp add: NET_RX_RING_SIZE_def take_bit_eq_mask mask_numeral)
  then have "unat ((p + of_nat k) AND (NET_RX_RING_SIZE - 1)) = unat (p + of_nat k) mod 8192"
    by (simp add: unsigned_take_bit_eq) (simp add: take_bit_eq_mod)
  also have "\<dots> = (unat p + k) mod 65536 mod 8192" by (simp add: unat_word_ariths unat_of_nat mod_add_right_eq)
  also have "\<dots> = (unat p + k) mod 8192" by (rule mod_mod_cancel) (simp add: dvd_def)
  finally show ?thesis .
qed

lemma ring_peek_view: "k < unat (rx_count r) \<Longrightarrow> ring_peek r k = ring_view r ! k"
  by (simp add: ring_peek_def ring_index ring_view_def)

definition crlf2 :: "u8 list" where "crlf2 = [13, 10, 13, 10]"

lemma take4_iff:
  "k + 3 < length xs \<Longrightarrow> take 4 (drop k xs) = crlf2 \<longleftrightarrow> xs ! k = 13 \<and> xs ! (k + 1) = 10 \<and> xs ! (k + 2) = 13 \<and> xs ! (k + 3) = 10"
proof -
  assume a: "k + 3 < length xs"
  then have "take 4 (drop k xs) = [xs ! k, xs ! (k + 1), xs ! (k + 2), xs ! (k + 3)]"
    by (intro nth_equalityI) (auto simp: less_Suc_eq numeral_eq_Suc)
  then show ?thesis by (simp add: crlf2_def)
qed

text \<open>Where the headers end: behind the first empty line.\<close>

lemma find_headers_first:
  assumes "ring_view r = pre @ crlf2 @ body" "\<forall>k < length pre. take 4 (drop k (ring_view r)) \<noteq> crlf2"
  shows "net_http_find_headers r = length pre + 4"
proof -
  let ?n = "unat (rx_count r)"
  define P where "P = (\<lambda>k. ring_peek r k = 13 \<and> ring_peek r (k + 1) = 10 \<and> ring_peek r (k + 2) = 13 \<and> ring_peek r (k + 3) = 10)"
  have n: "?n = length pre + 4 + length body" using arg_cong [OF assms(1), of length] by (simp add: crlf2_def)
  have P: "P k \<longleftrightarrow> take 4 (drop k (ring_view r)) = crlf2" if "k + 3 < ?n" for k
    using that take4_iff [of k "ring_view r"] by (simp add: P_def ring_peek_view)
  have "P (length pre)" using P [of "length pre"] n assms(1) by (simp add: crlf2_def)
  moreover have "\<not> P k" if "k < length pre" for k using P [of k] n assms(2) that by simp
  ultimately have "find P [0..<?n - 3] = Some (length pre)"
    unfolding find_Some_iff using n by (intro exI [of _ "length pre"]) (auto simp del: upt_Suc)
  then show ?thesis by (simp add: net_http_find_headers_def P_def)
qed

lemma digit_byte: "d < 10 \<Longrightarrow> of_char (char_of (d + 48) :: char) = (of_nat (d + 48) :: u8)"
proof -
  assume "d < 10"
  then have "(of_char (char_of (d + 48) :: char) :: nat) = d + 48" by simp
  then show ?thesis by (metis of_nat_of_char)
qed

lemma status_digits:
  "http_status_loop (map of_char (dec n) @ r) True v = http_status_loop r True (v * 10 ^ length (dec n) + of_nat n)"
proof (induction n arbitrary: v r rule: dec.induct)
  case (1 n)
  have step: "http_status_loop (of_char (char_of (d + 48) :: char) # r) True w = http_status_loop r True (w * 10 + of_nat d)" if "d < 10" for d w r
  proof -
    have "d \<in> {0, 1, 2, 3, 4, 5, 6, 7, 8, 9}" using that by auto
    then show ?thesis unfolding digit_byte [OF that] by auto
  qed
  show ?case
  proof (cases "n < 10")
    case True
    then show ?thesis using step [of n r v] by (simp add: dec.simps [of n])
  next
    case False
    have d: "dec n = dec (n div 10) @ [char_of (n mod 10 + 48)]" using False by (simp add: dec.simps [of n])
    let ?w = "v * 10 ^ length (dec (n div 10)) + of_nat (n div 10)"
    have w: "?w * 10 + of_nat (n mod 10) = v * 10 ^ length (dec n) + of_nat n"
    proof -
      have "(of_nat n :: u16) = of_nat (n div 10 * 10 + n mod 10)" by simp
      then show ?thesis unfolding d by (simp only: of_nat_add of_nat_mult) (simp add: algebra_simps)
    qed
    have "http_status_loop (map of_char (dec n) @ r) True v = http_status_loop (of_char (char_of (n mod 10 + 48) :: char) # r) True ?w"
      using 1 [OF False, of "of_char (char_of (n mod 10 + 48) :: char) # r" v] by (simp add: d del: http_status_loop.simps)
    also have "\<dots> = http_status_loop r True (?w * 10 + of_nat (n mod 10))" by (rule step) simp
    finally show ?thesis unfolding w .
  qed
qed

lemma status_skip: "0x20 \<notin> set ver \<Longrightarrow> http_status_loop (ver @ 0x20 # r) False v = http_status_loop r True v"
  by (induction ver) auto

text \<open>C24. An HTTP response reaches the Beeb without its headers: when the ring holds a status line,
  further headers, the empty line and a body, URL_READ records the status code, consumes the
  headers up to the first empty line and delivers the first bytes of the body.\<close>

theorem http_body_delivered:
  assumes "hstate (hnd s i) \<noteq> NET_ST_FREE" "url_adapter (hnd s i) = NET_URL_HTTP" "\<not> http_hdr_done (hnd s i)" "rxr_wf (rx (hnd s i))"
    and "ring_view (rx (hnd s i)) = pre @ crlf2 @ body" "\<forall>k < length pre. take 4 (drop k (pre @ crlf2 @ body)) \<noteq> crlf2"
    and "pre = ver @ 0x20 # map of_char (dec code) @ c # rest" "0x20 \<notin> set ver" "\<not> (0x30 \<le> c \<and> c \<le> 0x39)"
    and "length ver + length (dec code) + 2 \<le> 64"
    and "at_block cp s" "off = block_word cp 4 s" "mx = jim_rd24 cp 1 s" "net_buffer_ok off mx" "apart cp off (unat mx) s"
    and "do_url_read lw i cp s = (res, t)"
  shows "http_code (hnd t i) = of_nat code \<and> http_hdr_done (hnd t i) \<and> ring_view (rx (hnd t i)) = drop (unat mx) body \<and>
    (if res = NET_OK then mem_read (JIM_ram t) (buffer_at s off) (unat (jim_rd24 cp 1 t)) = take (unat mx) body
     else take (unat mx) body = [])"
proof -
  let ?r = "rx (hnd s i)"
  have f: "net_http_find_headers ?r = length pre + 4" by (rule find_headers_first [OF assms(5)]) (use assms(5,6) in simp)
  have n: "unat (rx_count ?r) = length pre + 4 + length body" using arg_cong [OF assms(5), of length] by (simp add: crlf2_def)
  have "map (ring_peek ?r) [0..<min (unat (rx_count ?r)) 64] = take 64 (ring_view ?r)"
    by (rule nth_equalityI) (auto simp: ring_peek_view)
  moreover have "take 64 (ring_view ?r) = ver @ 0x20 # map of_char (dec code) @ c # take (64 - (length ver + length (dec code) + 2)) (rest @ crlf2 @ body)"
    using assms(7,10) by (simp add: assms(5) take_Cons')
  ultimately have code: "net_http_parse_status ?r = of_nat code"
    using status_skip [OF assms(8)] assms(9) by (auto simp: net_http_parse_status_def status_digits)
  define s1 where "s1 = on_h i (\<lambda>h. h\<lparr>http_code := of_nat code, rx := ring_skip (length pre + 4) (rx h), http_hdr_done := True\<rparr>) s"
  have k: "rxr_wf (ring_skip (length pre + 4) ?r)" "ring_view (ring_skip (length pre + 4) ?r) = body"
    using ring_skip_effect [OF assms(4), of "length pre + 4"] n assms(5) by (simp_all add: crlf2_def)
  have "url_read_headers i cp s = (None, s1)"
    using f code by (simp add: url_read_headers_def Let_def s1_def on_h_def on_svc_def hnd_def)
  moreover have "NET_URL_HTTP \<noteq> NET_URL_TNFS" "NET_URL_HTTP \<noteq> NET_URL_UDP" by (simp_all add: NET_URL_HTTP_def NET_URL_TNFS_def NET_URL_UDP_def)
  ultimately have x: "(res, t) = stream_read i cp off mx s1"
    using assms(1-3,14,16) by (simp add: do_url_read_def Let_def flip: assms(12,13))
  have sz: "JIM_ram_size s1 = JIM_ram_size s" "buffer_at s1 off = buffer_at s off" "rx (hnd s1 i) = ring_skip (length pre + 4) ?r"
    by (simp_all add: s1_def buffer_at_def DISC_RAM_BASE_def)
  have "at_block cp s1" "apart cp off (unat mx) s1" using assms(11,15) at_block_cong [OF sz(1)] sz(2) by (simp_all add: apart_def)
  note e = stream_read_effect [OF _ this x refl, unfolded sz fst_conv snd_conv, OF k(1), unfolded k(2)]
  have "http_code (hnd t i) = http_code (hnd s1 i)" "http_hdr_done (hnd t i) = http_hdr_done (hnd s1 i)"
    using e(6) [of ?r] by (metis net_handle.update_convs(21) net_handle.select_convs(12) net_handle.surjective,
        metis net_handle.update_convs(21) net_handle.select_convs(11) net_handle.surjective)
  then show ?thesis using e(1-3) by (auto simp: s1_def)
qed

end
