(* ===== verification/NetDemo.thy ===== *)
theory NetDemo
  imports ServiceDemo NetInvariant NetHttp
begin

text \<open>
  Concrete instances for the network service: a stack that accepts everything and keeps only a clock, and a port with
  32 Mbyte of RAM and eight free handles.
\<close>

section \<open>The parts\<close>

definition demo_tcp :: "64 word net_lwip" where
  "demo_tcp = \<lparr>pbuf_alloc = (\<lambda>n l. (Some 1, l)), pbuf_take = (\<lambda>p b l. (True, l)), pbuf_free = (\<lambda>p l. l),
     udp_sendto = (\<lambda>u p i n l. (True, l)), udp_new = (\<lambda>l. (Some 1, l)), udp_bind = (\<lambda>p n l. (True, l)), udp_recv = (\<lambda>p l. l),
     udp_remove = (\<lambda>p l. l), wifi_lwip_rx_kick = (\<lambda>l. l), address_ready = (\<lambda>l. True), netif_added = (\<lambda>l. True),
     netif_ip = (\<lambda>l. 0x0100000A), netif_mask = (\<lambda>l. 0xFFFFFF), RPI_GetSystemTime64 = (\<lambda>l. l),
     udp_recv_on = (\<lambda>u i l. l), udp_connect = (\<lambda>u ip port l. (True, l)), altcp_new_ip_type = (\<lambda>l. (Some 2, l)),
     altcp_bind = (\<lambda>p port l. (True, l)), altcp_listen = (\<lambda>p l. (Some p, l)), altcp_arg = (\<lambda>p h l. l), altcp_recv = (\<lambda>p b l. l),
     altcp_sent = (\<lambda>p b l. l), altcp_poll = (\<lambda>p b n l. l), altcp_err = (\<lambda>p b l. l), altcp_accept = (\<lambda>p b l. l),
     altcp_connect = (\<lambda>p ip port l. (True, l)), altcp_abort = (\<lambda>p l. l), altcp_close = (\<lambda>p l. (True, l)), altcp_sndbuf = (\<lambda>p l. 1024),
     altcp_write = (\<lambda>p b l. (ERR_OK, l)), altcp_output = (\<lambda>p l. l), altcp_recved = (\<lambda>p n l. l),
     dns_gethostbyname = (\<lambda>n h l. ((ERR_INPROGRESS, 0), l))\<rparr>"

definition demo_ring :: rx_ring where
  "demo_ring = \<lparr>rx_head = 0, rx_tail = 0, rx_count = 0, ring_data = (\<lambda>a. 0)\<rparr>"

definition demo_free :: net_handle where
  "demo_free = \<lparr>hstate = NET_ST_FREE, htype = 0, last_err = 0, rx_eof = False, rx_parked = False, dns_done = False, dns_ok = False,
     is_url = False, url_adapter = 0, url_phase = 0, http_hdr_done = False, http_code = 0, tpcb = None, upcb = None,
     remote_ip = 0, remote_port = 0, bind_port = 0, accept_ready = False, accept_h = 0, dns_ip = 0,
     rx = demo_ring, tnfs = tnfs_none, telnet = telnet_reset\<rparr>"

definition net_port :: "mem \<Rightarrow> net_handle \<Rightarrow> 64 word net_state services" where
  "net_port m h = \<lparr>fred = demo_bus, JIM_ram = m, JIM_null = False, JIM_ram_size = 2, page_ram_addr = 0, byte_ram_addr = 0,
     rambyte_address = 0, rampage_init = True, disc_ram_addr = 0, disc_ram_max = 0x2000000, disc_ram_addr_hi = -1, ram_address = 0xA6,
     s_services = [net_range 7], svc = \<lparr>net_h = (\<lambda>i. h), net_stack = 0, net_source = 6, net_enabled = True, net_irq_armed = False,
       net_irq_state = False, net_pending = False, net_pending_cp = 0, net_pending_addr = 0, net_pending_data = 0,
       net_reset_pending = False\<rparr>\<rparr>"

lemma net_port_fields [simp]:
  "fred (net_port m h) = demo_bus" "JIM_ram (net_port m h) = m" "JIM_ram_size (net_port m h) = 2" "hnd (net_port m h) i = h"
  "s_services (net_port m h) = [net_range 7]" "set_mem n (net_port m h) = net_port n h" "DISC_RAM_BASE (net_port m h) = 0"
  by (simp_all add: net_port_def hnd_def set_mem_def DISC_RAM_BASE_def JIM_RAM_STEP_def DISC_RAM_SIZE_def)

lemma net_block: "command_block (net_port m h) 0xE0 = 0xFFE000"
  by (simp add: command_block_def)

lemma net_at_block: "at_block 0xFFE000 (net_port m h)"
  unfolding at_block_def using net_block [of m h] by (auto intro: exI [of _ "0xE0"])

lemma demo_ring_ok [simp]: "rxr_wf demo_ring" "ring_view demo_ring = []" "rx_count demo_ring = 0"
  by (simp_all add: rxr_wf_def ring_view_def demo_ring_def)

lemma net_boot_demo: "net_boot (net_port m demo_free)"
  by (simp add: net_boot_def demo_bus_wf cleared_def demo_free_def net_handle_reset_def demo_ring_def) (simp add: net_port_def)

lemma net_demo_reachable: "net_reachable demo_tcp (net_port m demo_free)"
  by (rule net_reachable.boot [OF net_boot_demo])

section \<open>The service\<close>

lemma net_table: "table_wf [net_range 7]"
  by (simp add: table_wf_def net_range_def SERVICE_CMD_NET_FIRST_def SERVICE_CMD_NET_LAST_def SERVICES_MAX_def)

theorem net_command_handshake_witness:
  "bus_read (fred (net_service_poll demo_tcp (net_service_init (\<lambda>n. 1) [] 6 0 (on_fred (\<lambda>_. demo_bus)
     (net_udp_recv 3 [[1, 2, 3]] 0 80 (services_emulator_command (\<lambda>h. net_service_command) (gpio_word 0xAA 0xE0) (net_port (\<lambda>_. 45) demo_free))))))) 0xAA < 0x80"
proof -
  let ?t = "services_emulator_command (\<lambda>h. net_service_command) (gpio_word 0xAA 0xE0) (net_port (\<lambda>_. 45) demo_free)"
  have "(net_callback demo_tcp)\<^sup>*\<^sup>* ?t (net_udp_recv 3 [[1, 2, 3]] 0 80 ?t)" by (rule r_into_rtranclp) (rule net_callback.udp)
  then show ?thesis
    using net_command_handshake [OF net_demo_reachable [of "\<lambda>_. 45"] _ _ refl _ _ _ refl _ disjI2 refl, where h = 7 and a = "0xAA" and d = "0xE0"
        and i = 6 and fn = "\<lambda>n. 1" and cfg = "[]" and x = 0 and f = "\<lambda>_. demo_bus"] net_table demo_bus_wf
    by simp
qed

theorem net_service_memory_witness: "JIM_ram (net_service_poll demo_tcp (net_port (\<lambda>_. 45) demo_free)) (2 ^ 25) = 45"
  using net_service_memory [OF net_demo_reachable [of "\<lambda>_. 45"] net_event.poll, of "2 ^ 25"] by simp

theorem net_service_invariant_witness: "unat (rx_head (rx (hnd (net_udp_recv 3 [[1, 2, 3]] 0 80 (net_port (\<lambda>_. 0) demo_free)) 3))) < 8192"
  using net_service_invariant [OF net_reachable.event [OF net_demo_reachable [of "\<lambda>_. 0"] net_event.callback [OF net_callback.udp [of _ _ 3 "[[1, 2, 3]]" 0 80]]], of 3] by simp

theorem net_reset_frees_witness:
  "hstate (hnd (net_service_poll demo_tcp (net_service_init (\<lambda>n. 1) [] 6 0 (net_udp_recv 3 [[1]] 0 80 (net_port (\<lambda>_. 0) demo_free)))) 3) = NET_ST_FREE"
proof -
  have "\<not> net_pending (svc (net_udp_recv 3 [[1]] 0 80 (net_port (\<lambda>_. 0) demo_free)))"
    by (simp add: net_udp_recv_def on_h_def on_svc_def Let_def) (simp add: net_port_def)
  then show ?thesis
    using net_reset_frees [OF net_reachable.event [OF net_demo_reachable [of "\<lambda>_. 0"] net_event.callback [OF net_callback.udp [of _ _ 3 "[[1]]" 0 80]]] _ _ refl,
        where i = 3 and k = 6 and fn = "\<lambda>n. 1" and cfg = "[]" and x = 0] by simp
qed

lemma net_demo_running: "net_running demo_tcp (net_port m demo_free)"
  by (rule net_running.boot [OF net_boot_demo])
    (simp_all add: net_port_def demo_bus_def bus_reset_def Let_def Pi1MHz_Register_Memory_def Pi1MHz_SetnNMI_def)

theorem net_irq_level_witness:
  "let t = net_service_poll demo_tcp (net_service_init (\<lambda>n. 1) [] 6 0 (net_udp_recv 3 [[1]] 0 80 (net_port (\<lambda>_. 0) demo_free))) in
   bit (nirq_mask (fred t)) (unat (net_source (svc t))) \<longleftrightarrow> net_irq_armed (svc t) \<and> (\<exists>i < 8. ring_view (rx (hnd t i)) \<noteq> [])"
  unfolding Let_def
  by (rule net_irq_level [OF net_running.event [OF net_running.event [OF net_demo_running net_event.callback [OF net_callback.udp]] net_event.reset] refl])
    simp

section \<open>Streams and datagrams\<close>

text \<open>A block that asks for two bytes, into a buffer near the start of the region.\<close>

definition two_bytes :: mem where "two_bytes = (\<lambda>_. 0)(0xFFE001 := 2, 0xFFE005 := 1)"

lemma two_bytes_fields:
  "block_word 0xFFE000 4 (net_port two_bytes h) = 0x100" "jim_rd24 0xFFE000 1 (net_port two_bytes h) = 2"
  by (simp_all add: two_bytes_def block_word_def jim_read32_def jim_rd24_def le32_def)

definition demo_open :: net_handle where
  "demo_open = demo_free\<lparr>hstate := NET_ST_CONNECTED, tpcb := Some 2\<rparr>"

theorem tcp_stream_exact_witness:
  "let x = stream_run demo_tcp 0 2 0xFFE000 [Segment [[1, 2], [3]], Receive two_bytes, Segment [[4]]] (net_port two_bytes demo_open) in
   fst x = fst (snd x) @ ring_view (rx (hnd (snd (snd x)) 0))"
proof -
  have "stream_op_ok 0xFFE000 (net_port two_bytes demo_open) (Receive two_bytes)"
    by (simp add: stream_op_ok_def two_bytes_fields apart_def buffer_at_def)
  moreover have "plain_handle demo_open" by (simp add: plain_handle_def demo_open_def demo_free_def net_states)
  ultimately show ?thesis
    unfolding Let_def
    using tcp_stream_exact [OF _ _ _ net_at_block, of two_bytes demo_open 0 "[Segment [[1, 2], [3]], Receive two_bytes, Segment [[4]]]" demo_tcp 2]
    by (simp add: stream_op_ok_def demo_open_def demo_free_def)
qed

definition demo_udp :: "u8 list \<Rightarrow> net_handle" where
  "demo_udp data = demo_free\<lparr>hstate := NET_ST_IDLE, htype := NET_TYPE_UDP, upcb := Some 1,
     rx := ring_put_mem (udp_record (0x0200000A, 80, data)) demo_ring\<rparr>"

lemma demo_udp_fields [simp]: "htype (demo_udp data) = NET_TYPE_UDP" "hstate (demo_udp data) = NET_ST_IDLE"
  "rx (demo_udp data) = ring_put_mem (udp_record (0x0200000A, 80, data)) demo_ring"
  by (simp_all add: demo_udp_def)

lemma demo_udp_queue: "length data \<le> 100 \<Longrightarrow> udp_queue (ring_put_mem (udp_record (ip, port, data)) demo_ring) [(ip, port, data)]"
  using rx.view_put [of demo_ring] rx.invar_put [of demo_ring] by (simp add: udp_queue_def length_udp_record)

definition recv_block :: mem where "recv_block = (\<lambda>_. 0)(0xFFE007 := 2, 0xFFE00B := 1)"

lemma recv_block_fields:
  "block_word 0xFFE000 10 (net_port recv_block h) = 0x100" "jim_rd24 0xFFE000 7 (net_port recv_block h) = 2"
  by (simp_all add: recv_block_def block_word_def jim_read32_def jim_rd24_def le32_def)

lemma demo_buffer: "net_buffer_ok 0x100 2" "apart 0xFFE000 0x100 2 (net_port m h)"
  by (simp_all add: net_buffer_ok_def DISC_RAM_SIZE_def JIM_RAM_STEP_def apart_def buffer_at_def)

theorem udp_queue_refines_witness:
  "let x = do_udp_recvfrom 0 0xFFE000 (net_port recv_block (demo_udp [7, 8, 9])) in
   fst x = NET_OK \<and> net_ip_from_wire 0xFFE000 1 (snd x) = 0x0200000A \<and> mem_read (JIM_ram (snd x)) 0x100 2 = [7, 8]"
proof -
  let ?s = "net_port recv_block (demo_udp [7, 8, 9])"
  have "udp_queue (rx (hnd ?s 0)) [(0x0200000A, 80, [7, 8, 9])]" using demo_udp_queue [of "[7, 8, 9]"] by simp
  from udp_queue_refines [THEN conjunct2, OF this _ net_at_block recv_block_fields(1) [symmetric] recv_block_fields(2) [symmetric] demo_buffer(1) _ surjective_pairing]
  have "fst (do_udp_recvfrom 0 0xFFE000 ?s) = NET_OK" "net_ip_from_wire 0xFFE000 1 (snd (do_udp_recvfrom 0 0xFFE000 ?s)) = 0x0200000A"
    "mem_read (JIM_ram (snd (do_udp_recvfrom 0 0xFFE000 ?s))) 0x100 (Suc (Suc 0)) = [7, 8]"
    using demo_buffer(2) [of recv_block] by (simp_all add: buffer_at_def)
  then show ?thesis by (simp add: Let_def numeral_2_eq_2)
qed

section \<open>TNFS\<close>

definition past_deadline :: "64 word net_state services \<Rightarrow> 64 word net_state services" where
  "past_deadline s = run_net (\<lambda>l. ucast (tnfs_deadline (tnfs (hnd s 0))) * 1000) s"

lemma past_deadline_overdue: "overdue demo_tcp 0 past_deadline"
proof -
  have "(ucast ((ucast (d :: u32) * 1000 :: 64 word) div 1000) :: u32) = d" for d
  proof -
    have "unat d * 1000 < 2 ^ 64" using unsigned_less [of d, where 'a = nat] by simp
    moreover have "unat (ucast d :: 64 word) = unat d"
      using unsigned_less [of d, where 'a = nat] by (simp add: unsigned_ucast_eq take_bit_nat_eq_self)
    ultimately have "unat (ucast d * 1000 :: 64 word) = unat d * 1000" by (simp add: unat_word_ariths)
    then have "unat ((ucast d * 1000 :: 64 word) div 1000) = unat d" by (simp add: unat_div)
    then show ?thesis using unsigned_less [of d, where 'a = nat] by (simp add: word_unat_eq_iff unsigned_ucast_eq take_bit_nat_eq_self)
  qed
  then show ?thesis
    by (simp add: overdue_def past_deadline_def net_now_ms_def run_net_def on_svc_def demo_tcp_def ms_reached_def hnd_def)
qed

theorem tnfs_gives_up_witness:
  "\<exists>r \<in> set (tnfs_polls demo_tcp 0 (replicate 45 past_deadline)
     (snd (net_tnfs_start demo_tcp 0 TNFS_PH_READING (Some [1, 0, 2, 0x21]) (net_port (\<lambda>_. 0) (demo_udp []))))). r \<noteq> Inl NET_PENDING"
proof -
  have "net_tnfs_start demo_tcp 0 TNFS_PH_READING (Some [1, 0, 2, 0x21]) (net_port (\<lambda>_. 0) (demo_udp [])) =
      (NET_PENDING, snd (net_tnfs_start demo_tcp 0 TNFS_PH_READING (Some [1, 0, 2, 0x21]) (net_port (\<lambda>_. 0) (demo_udp []))))"
    by (simp add: net_tnfs_start_def TNFS_REQ_MAX_def)
  from tnfs_gives_up [OF this] show ?thesis using past_deadline_overdue by simp
qed

definition demo_reading :: net_handle where
  "demo_reading = demo_free\<lparr>hstate := NET_ST_CONNECTED, htype := NET_TYPE_UDP, is_url := True, url_adapter := NET_URL_TNFS, upcb := Some 1,
     tnfs := tnfs_none\<lparr>tnfs_phase := TNFS_PH_READING, tnfs_seq := 4, tnfs_connid := 0x1234,
       tnfs_req := u16_bytes 0x1234 @ [4, TNFS_CMD_READ, 1] @ u16_bytes 2\<rparr>,
     rx := ring_put_mem (udp_record (0x0200000A, 16384, server_reply 0x1234 4 TNFS_CMD_READ TNFS_OK (u16_bytes 3 @ [7, 8, 9]))) demo_ring\<rparr>"

theorem tnfs_read_delivers_witness:
  "let x = do_url_read demo_tcp 0 0xFFE000 (net_port two_bytes demo_reading) in
   fst x = NET_OK \<and> mem_read (JIM_ram (snd x)) 0x100 2 = [7, 8] \<and> tnfs_phase (tnfs (hnd (snd x) 0)) = TNFS_PH_READY"
proof -
  let ?s = "net_port two_bytes demo_reading"
  let ?d = "server_reply 0x1234 4 TNFS_CMD_READ TNFS_OK (u16_bytes (of_nat (length [7, 8, 9 :: u8])) @ [7, 8, 9])"
  have "length ?d \<le> 100" by (simp add: server_reply_def)
  then have q: "udp_queue (rx (hnd ?s 0)) [(0x0200000A, 16384, ?d)]" using demo_udp_queue [of ?d] by (simp add: demo_reading_def)
  have r: "tnfs_reading 0x1234 4 (hnd ?s 0)"
    by (auto simp: tnfs_reading_def demo_reading_def tnfs_none_def net_states)
  have "fst (do_url_read demo_tcp 0 0xFFE000 ?s) = NET_OK" "tnfs_phase (tnfs (hnd (snd (do_url_read demo_tcp 0 0xFFE000 ?s)) 0)) = TNFS_PH_READY"
    "mem_read (JIM_ram (snd (do_url_read demo_tcp 0 0xFFE000 ?s))) 0x100 (Suc (Suc 0)) = [7, 8]"
    using tnfs_read_delivers [OF r _ q net_at_block two_bytes_fields(1) [symmetric] two_bytes_fields(2) [symmetric] demo_buffer(1) _ surjective_pairing,
        of demo_tcp] demo_buffer(2) [of two_bytes]
    by (simp_all add: TNFS_PKT_MAX_def buffer_at_def)
  then show ?thesis by (simp add: Let_def numeral_2_eq_2)
qed

section \<open>HTTP, TELNET and URLs\<close>

definition demo_response :: "u8 list" where
  "demo_response = map of_char ''HTTP/1.0 200 OK'' @ crlf2 @ [0x48, 0x69, 0x21]"

definition demo_http :: net_handle where
  "demo_http = demo_free\<lparr>hstate := NET_ST_CONNECTED, is_url := True, url_adapter := NET_URL_HTTP, tpcb := Some 2,
     rx := ring_put_mem demo_response demo_ring\<rparr>"

theorem http_body_delivered_witness:
  "let x = do_url_read demo_tcp 0 0xFFE000 (net_port two_bytes demo_http) in
   http_code (hnd (snd x) 0) = 200 \<and> ring_view (rx (hnd (snd x) 0)) = [0x21]"
proof -
  let ?s = "net_port two_bytes demo_http" and ?pre = "map of_char ''HTTP/1.0 200 OK'' :: u8 list"
  have l: "length demo_response = 22" by (simp add: demo_response_def crlf2_def)
  have v: "ring_view (rx (hnd ?s 0)) = ?pre @ crlf2 @ [0x48, 0x69, 0x21]" "rxr_wf (rx (hnd ?s 0))"
    using rx.view_put [of demo_ring demo_response] rx.invar_put [of demo_ring demo_response] l
    by (simp_all add: demo_http_def demo_response_def)
  have f: "\<forall>k < length ?pre. take 4 (drop k (?pre @ crlf2 @ [0x48, 0x69, 0x21])) \<noteq> crlf2"
  proof -
    have "list_all (\<lambda>k. take 4 (drop k (?pre @ crlf2 @ [0x48, 0x69, 0x21])) \<noteq> crlf2) [0..<15]" by code_simp
    then show ?thesis by (auto simp: list_all_iff)
  qed
  have d: "?pre = map of_char ''HTTP/1.0'' @ 0x20 # map of_char (dec 200) @ 0x20 # map of_char ''OK''"
    by code_simp
  show ?thesis
    using http_body_delivered [OF _ _ _ v(2,1) f d _ _ _ net_at_block two_bytes_fields(1) [symmetric] two_bytes_fields(2) [symmetric]
        demo_buffer(1) _ surjective_pairing, of demo_tcp] demo_buffer(2) [of two_bytes]
    by (simp add: Let_def demo_http_def demo_free_def net_states dec.simps)
qed

theorem telnet_session_witness:
  "tr_out (telnet_chunks 256 300 telnet_reset [[0x41, 255, 251], [1, 13, 0, 255, 250, 9], [255, 1, 255, 240, 0x42, 255, 253, 1]]) = [0x41, 13, 0x42] \<and>
   tr_rep (telnet_chunks 256 300 telnet_reset [[0x41, 255, 251], [1, 13, 0, 255, 250, 9], [255, 1, 255, 240, 0x42, 255, 253, 1]]) = [255, 253, 1]"
  using telnet_session [of "[[0x41, 255, 251], [1, 13, 0, 255, 250, 9], [255, 1, 255, 240, 0x42, 255, 253, 1]]" 256 300, OF _ refl]
  by (simp add: tn_policy_def)

theorem telnet_escape_filter_witness:
  "tr_out (telnet_filter telnet_reset (fst (telnet_escape [0x41, 255, 13, 0] 8)) 8 10) = [0x41, 255, 13]"
  using telnet_escape_filter [of "[0x41, 255, 13, 0]" 8 _ _ 8 10, OF surjective_pairing _ _ refl]
  by (simp add: telnet_escape_def tn_codes)

lemma scheme_upper: "map upper ''http'' = ''HTTP''" "map upper ''Tcp'' = ''TCP''"
  by (code_simp)+

theorem net_url_roundtrip_witness:
  "net_url_parse (url_text ''http'' ''pi'' (Some 8080) ''/a'') 256 192 = Some (2, 8080, ''pi'', ''/a'') \<and>
   net_url_parse (url_text ''Tcp'' ''pi'' None ''/a'') 256 192 = None"
  using net_url_roundtrip [of "''http''" 2 "Some 80" "''pi''" "''/a''" _ "Some 8080" 256 192, OF _ _ _ _ _ refl]
    net_url_roundtrip [of "''Tcp''" 0 None "''pi''" "''/a''" _ None 256 192, OF _ _ _ _ _ refl]
    scheme_upper
  by (simp add: url_schemes_def url_chars_def)

section \<open>A stream read of a UDP handle\<close>

definition eight_bytes :: mem where "eight_bytes = (\<lambda>_. 0)(0xFFE001 := 8, 0xFFE005 := 1)"

lemma eight_bytes_fields:
  "block_word 0xFFE000 4 (net_port eight_bytes h) = 0x100" "jim_rd24 0xFFE000 1 (net_port eight_bytes h) = 8" "net_buffer_ok 0x100 8"
  by (simp_all add: eight_bytes_def block_word_def jim_read32_def jim_rd24_def le32_def net_buffer_ok_def DISC_RAM_SIZE_def JIM_RAM_STEP_def)

lemma desync_ring:
  "let r = snd (ring_get 8 (ring_put_mem (udp_record (0x0200000A, 80, [1, 1, 1, 1, 1, 1, 16, 0])) demo_ring)) in
   rx_count r = 8 \<and> fst (snd (ring_header r)) = 16 \<and> rx_count (ring_skip 14 (snd (ring_get 2 (snd (snd (ring_header r)))))) = 65522"
  by code_simp

text \<open>An example of what RECV does to a UDP handle, which it accepts: with one datagram of eight bytes in the ring
  it takes the eight bytes of the record's header, RECVFROM then reads the payload as a header that announces 16
  bytes, delivers 2 and discards 14 more, and the count of the ring runs below zero, to 65522.\<close>

theorem udp_recv_desynchronises:
  "let s = net_port eight_bytes (demo_udp [1, 1, 1, 1, 1, 1, 16, 0]); t = snd (do_recv 0 0xFFE000 s);
       u = do_udp_recvfrom 0 0xFFE000 (set_mem recv_block t) in
   fst u = NET_OK \<and> jim_rd24 0xFFE000 7 (snd u) = 2 \<and> rx_count (rx (hnd (snd u) 0)) = 65522"
proof -
  let ?s = "net_port eight_bytes (demo_udp [1, 1, 1, 1, 1, 1, 16, 0])"
  define r where "r = snd (ring_get 8 (rx (hnd ?s 0)))"
  define t where "t = set_mem recv_block (snd (do_recv 0 0xFFE000 ?s))"
  have "NET_ST_IDLE \<noteq> NET_ST_FREE" by (simp add: net_states)
  then have h: "hnd t 0 = (demo_udp [1, 1, 1, 1, 1, 1, 16, 0])\<lparr>rx := r\<rparr>" "JIM_ram t = recv_block" "JIM_ram_size t = 2"
    using eight_bytes_fields
    by (simp_all add: t_def do_recv_def stream_read_def ring_to_jim_def Let_def case_prod_beta r_def set_mem_def)
       (simp_all add: hnd_def on_h_def on_svc_def jim_wr24_def put_bytes_def set_mem_def net_deliver_def net_port_def)
  have r: "rx_count r = 8" "fst (snd (ring_header r)) = 16" "rx_count (ring_skip 14 (snd (ring_get 2 (snd (snd (ring_header r)))))) = 65522"
    using desync_ring by (simp_all add: r_def Let_def)
  have b: "block_word 0xFFE000 10 t = 0x100" "jim_rd24 0xFFE000 7 t = 2"
    using recv_block_fields by (simp_all add: block_word_def jim_rd24_def h(2))
  have "fst (do_udp_recvfrom 0 0xFFE000 t) = NET_OK" "jim_rd24 0xFFE000 7 (snd (do_udp_recvfrom 0 0xFFE000 t)) = 2"
    "rx_count (rx (hnd (snd (do_udp_recvfrom 0 0xFFE000 t)) 0)) = 65522"
    using r b demo_buffer(1) h(1)
    by (simp_all add: do_udp_recvfrom_def datagram_to_jim_def ring_to_jim_def Let_def case_prod_beta wr24_read)
  then show ?thesis by (simp add: Let_def flip: t_def)
qed

end
