(* ===== verification/Helpers.thy ===== *)
theory Helpers
  imports ServicesProps
begin

text \<open>
  The 6502 helpers of \<open>helpers.c\<close>: a FRED register that lays a page of helper code over the JIM window, takes
  it away again, and puts a help screen into the JIM RAM.
\<close>

section \<open>Text in memory\<close>

definition string_codes :: "string \<Rightarrow> u8 list" where
  "string_codes = map (\<lambda>c. of_nat (of_char c))"

text \<open>\<open>strlcpylen\<close> stores what fits, with its terminator, and returns the number of characters.\<close>

definition strlcpylen :: "mem \<Rightarrow> nat \<Rightarrow> string \<Rightarrow> nat \<Rightarrow> mem \<times> nat" where
  "strlcpylen m dst src dstsize =
     (let t = take (dstsize - 1) src in (mem_write m dst (string_codes t @ [0]), length t))"

text \<open>\<open>snprintf\<close> stores what fits, too, and returns the number of characters there were.\<close>

definition snprintf_to :: "mem \<Rightarrow> nat \<Rightarrow> nat \<Rightarrow> string \<Rightarrow> mem \<times> nat" where
  "snprintf_to m dst sz text = (mem_write m dst (string_codes (take (sz - 1) text) @ [0]), length text)"

section \<open>State\<close>

record helpers =
  helper_ram :: "u8 list"
  helper_address :: u8

text \<open>What the build and the other components tell the help screen.\<close>

record help_info =
  RELEASENAME :: string
  GITVERSION :: string
  BUILD_DATE :: string
  get_info_string :: string
  get_temp_millidegrees :: u32
  M5000_emulator_read_instance :: u8
  harddisc_address :: u8

definition crlf :: string where "crlf = [CHR 0x0D, CHR 0x0A]"

definition help_heading :: "help_info \<Rightarrow> string" where
  "help_heading i = crlf @ ''Pi1MHz '' @ RELEASENAME i @ '' , '' @ GITVERSION i @ crlf @ ''Date : '' @ BUILD_DATE i @ crlf @ ''Pi : ''"

definition help_temp :: "help_info \<Rightarrow> string" where
  "help_temp i = (let t = unat ((get_temp_millidegrees i + 50) div 100) in '' '' @ dec (t div 10) @ ''.'' @ dec (t mod 10) @ ''C'')"

definition help_functions :: string where
  "help_functions = '' <ret>'' @ crlf @ crlf @ ''where n is one of the following :'' @
     crlf @ ''0 # This help screen'' @ crlf @ ''1 # Status N/A'' @ crlf @ ''2 # Enable screen redirector'' @
     crlf @ ''3 # Load ADFS into SWR'' @ crlf @ ''4 # Load MMFS into SWR'' @ crlf @ ''5 # Load MMFS2 into SWR'' @
     crlf @ ''6 # Load BeebSCSI helper ROM into SWR'' @ crlf @ ''7 # Load ATS ROM into SWR'' @
     crlf @ ''8 # Load AUNFSbeeb ROM into SWR'' @ crlf @ ''9 # Load AUNFSM128 ROM into SWR'' @
     crlf @ ''10-15 # Load User ROM10-ROM15 into SWR'' @ crlf @ crlf @ ''*FX147,''"

text \<open>The pieces in front of the temperature and behind it.\<close>

definition help_before :: "help_info \<Rightarrow> string list" where
  "help_before i = [help_heading i, get_info_string i]"

definition help_after :: "help_info \<Rightarrow> u8 \<Rightarrow> string list" where
  "help_after i address =
     (let hex = hex_upper address; d = dec (unat address); m5000 = dec (unat (M5000_emulator_read_instance i));
          scsi = dec (unat (harddisc_address i) + 1) in
      [crlf @ crlf @ ''3 ways to start helper functions :'' @ crlf @ ''*FX147,'', d,
       '',n <ret> *GO FD00 <ret>'' @ crlf @ ''*FX147,'', d,
       '',n <ret> *GOIO FD00 <ret>'' @ crlf @ ''X%=n:CALL&FC'', hex,
       help_functions, scsi,
       '',n # SCSIJUKE box directory'' @ crlf @ ''*FX147,202,'', m5000,
       '':*FX147,203,1 #Record M5000'' @ crlf @ ''*FX147,202,'', m5000,
       '':*FX147,203,0 #End Record'' @ crlf])"

text \<open>The running pointer and the size that is left.\<close>

definition put_piece :: "string \<Rightarrow> mem \<times> nat \<times> nat \<Rightarrow> mem \<times> nat \<times> nat" where
  "put_piece p x = (case x of (m, at, sz) \<Rightarrow> let (m, n) = strlcpylen m at p sz in (m, at + n, sz - n))"

definition put_temp :: "string \<Rightarrow> mem \<times> nat \<times> nat \<Rightarrow> mem \<times> nat \<times> nat" where
  "put_temp p x = (case x of (m, at, sz) \<Rightarrow>
     let (m, n) = snprintf_to m at sz p; n = (if sz \<le> n then sz - 1 else n) in (m, at + n, sz - n))"

definition helpers_screen_setup :: "help_info \<Rightarrow> u8 \<Rightarrow> mem \<Rightarrow> nat \<Rightarrow> nat \<Rightarrow> mem \<times> nat" where
  "helpers_screen_setup i address m start sz =
     (let x = fold put_piece (help_before i) (m, start, sz);
          x = put_temp (help_temp i) x;
          (m, at, _) = fold put_piece (help_after i address) x in
      (m, at - start))"

section \<open>The register\<close>

definition helper_page :: "helpers \<Rightarrow> u8 \<Rightarrow> u8 list" where
  "helper_page h data = map (\<lambda>i. helper_ram h ! (256 * unat data + i)) [0..<256]"

definition helpers_bank_select :: "help_info \<Rightarrow> helpers \<Rightarrow> u32 \<Rightarrow> 'z jim_scheme \<Rightarrow> 'z jim_scheme" where
  "helpers_bank_select i h gpio s =
     (let data = GET_DATA gpio; addr = GET_ADDR gpio in
      if data = 0xFF then ram_emulator_page_restore (on_fred (Pi1MHz_MemoryWrite (addr + 4) 0x60) s)
      else let s = on_fred (Pi1MHz_MemoryWrite (addr + 4) 0x4C) s;
               data = (if 16 \<le> data then 0 else data);
               s = on_fred (Pi1MHz_MemoryWritePage Pi1MHz_MEM_PAGE (helper_page h data)) s in
        if data = 0
        then let s = s\<lparr>JIM_ram := fst (helpers_screen_setup i (helper_address h) (JIM_ram s) (unat (DISC_RAM_BASE s + 0xFFE000)) 1024)\<rparr> in
             on_fred (Pi1MHz_MemoryWrite (Pi1MHz_MEM_PAGE + 1) 3) s
        else s)"

definition helper_code :: "u8 \<Rightarrow> u8 list" where
  "helper_code address = [0x8E, address, 0xFC, 0xEA, 0x4C, 0x00, 0xFD]"

definition helpers_init ::
  "'f sdcard \<Rightarrow> (string \<Rightarrow> nat) \<Rightarrow> bool \<Rightarrow> u8 \<Rightarrow> helpers \<times> 'z jim_scheme \<Rightarrow> 'f \<Rightarrow> (helpers \<times> 'z jim_scheme) \<times> 'f" where
  "helpers_init ops fn mounted address x c =
     (let (h, s) = x; h = h\<lparr>helper_address := address\<rparr>;
          (f, c) = filesystemReadFile ops mounted ''Pi1MHz/6502code.bin'' (Some 4096) c in
      case f of
        Some (b # bs) \<Rightarrow>
          (let h = h\<lparr>helper_ram := (b # bs) @ drop (length (b # bs)) (helper_ram h)\<rparr>;
               s = on_fred (Pi1MHz_Register_Memory WRITE_FRED (unat address) (fn ''helpers_bank_select'')) s;
               s = fold (\<lambda>k. on_fred (Pi1MHz_MemoryWrite (unat address + k) (helper_code address ! k))) [0..<7] s in
           ((h, s), c))
      | _ \<Rightarrow> ((h, s), c))"

definition helpers_get_address :: "helpers \<Rightarrow> u8" where
  "helpers_get_address h = helper_address h"

section \<open>The help screen fits its buffer\<close>

text \<open>After some pieces, the buffer holds as much of their text as fits, and its terminator.\<close>

definition holds_text :: "mem \<Rightarrow> nat \<Rightarrow> nat \<Rightarrow> string \<Rightarrow> mem \<times> nat \<times> nat \<Rightarrow> bool" where
  "holds_text m0 start bufsize str x \<longleftrightarrow> (case x of (m, at, sz) \<Rightarrow>
     at = start + length (take (bufsize - 1) str) \<and> sz = bufsize - length (take (bufsize - 1) str) \<and>
     mem_read m start (length (take (bufsize - 1) str)) = string_codes (take (bufsize - 1) str) \<and>
     (str \<noteq> [] \<longrightarrow> m at = 0) \<and> (\<forall>a. a < start \<or> start + bufsize \<le> a \<longrightarrow> m a = m0 a))"

lemma length_codes [simp]: "length (string_codes s) = length s"
  by (simp add: string_codes_def)

lemma mem_read_append: "mem_read m a (n + k) = mem_read m a n @ mem_read m (a + n) k"
proof -
  have "[a..<a + n + k] = [a..<a + n] @ [a + n..<a + n + k]" by (rule upt_add_eq_append) simp
  then show ?thesis by (simp add: mem_read_def add.assoc)
qed

lemma put_piece_holds:
  assumes "1 \<le> bufsize" "holds_text m0 start bufsize str x"
  shows "holds_text m0 start bufsize (str @ p) (put_piece p x)"
proof -
  obtain m at sz where x: "x = (m, at, sz)" by (cases x)
  define T where "T = take (bufsize - 1) str"
  define P where "P = take (sz - 1) p"
  have h: "at = start + length T" "sz = bufsize - length T" "mem_read m start (length T) = string_codes T"
    "\<forall>a. a < start \<or> start + bufsize \<le> a \<longrightarrow> m a = m0 a"
    using assms(2) by (auto simp: holds_text_def x T_def)
  have l: "length T \<le> bufsize - 1" by (simp add: T_def)
  have sz: "sz - 1 = bufsize - 1 - length str \<or> length T = bufsize - 1 \<and> sz - 1 = 0" using h(2) by (auto simp: T_def)
  have n: "take (bufsize - 1) (str @ p) = T @ P"
    using sz by (auto simp: T_def P_def)
  let ?m = "mem_write m at (string_codes P @ [0])"
  have P: "length P \<le> sz - 1" by (simp add: P_def)
  have "mem_read ?m start (length T + length P) = string_codes T @ string_codes P"
  proof -
    have "mem_read ?m start (length T + length P) = mem_read ?m start (length T) @ mem_read ?m at (length P)"
      unfolding h(1) by (rule mem_read_append)
    moreover have "mem_read ?m start (length T) = mem_read m start (length T)"
      by (simp add: mem_read_def mem_write_def h(1))
    moreover have "mem_read ?m at (length P) = string_codes P"
      by (rule nth_equalityI) (auto simp: mem_read_def mem_write_def nth_append)
    ultimately show ?thesis by (simp add: h(3))
  qed
  moreover have "?m (at + length P) = 0" by (simp add: mem_write_def nth_append)
  moreover have "?m a = m0 a" if "a < start \<or> start + bufsize \<le> a" for a
    using that h l P assms(1) by (auto simp: mem_write_def)
  moreover have "put_piece p x = (?m, at + length P, sz - length P)" by (simp add: x put_piece_def strlcpylen_def Let_def P_def)
  moreover have "string_codes (T @ P) = string_codes T @ string_codes P" by (simp add: string_codes_def)
  ultimately show ?thesis
    unfolding holds_text_def n using h(1,2) by (simp only: prod.case length_append) simp
qed

lemma put_temp_piece: "1 \<le> snd (snd x) \<Longrightarrow> put_temp p x = put_piece p x"
  by (auto simp: put_temp_def put_piece_def snprintf_to_def strlcpylen_def Let_def min_def split: prod.splits)

lemma holds_room: "1 \<le> bufsize \<Longrightarrow> holds_text m0 start bufsize str x \<Longrightarrow> 1 \<le> snd (snd x)"
  by (auto simp: holds_text_def split: prod.splits)

lemma put_pieces_hold:
  assumes "1 \<le> bufsize" "holds_text m0 start bufsize str x"
  shows "holds_text m0 start bufsize (str @ concat ps) (fold put_piece ps x)"
  using assms(2)
proof (induction ps arbitrary: str x)
  case (Cons p ps)
  from Cons.IH [OF put_piece_holds [OF assms(1) Cons.prems, of p]] show ?case by simp
qed simp

definition help_text :: "help_info \<Rightarrow> u8 \<Rightarrow> string" where
  "help_text i address = concat (help_before i) @ help_temp i @ concat (help_after i address)"

lemma screen_holds:
  assumes "1 \<le> bufsize"
  shows "\<exists>at sz. holds_text m start bufsize (help_text i address) (fst (helpers_screen_setup i address m start bufsize), at, sz) \<and>
    snd (helpers_screen_setup i address m start bufsize) = at - start"
proof -
  let ?x = "fold put_piece (help_before i) (m, start, bufsize)"
  let ?y = "put_temp (help_temp i) ?x"
  let ?z = "fold put_piece (help_after i address) ?y"
  have "holds_text m start bufsize [] (m, start, bufsize)" by (simp add: holds_text_def mem_read_def string_codes_def)
  from put_pieces_hold [OF assms this] have x: "holds_text m start bufsize (concat (help_before i)) ?x" by simp
  have "?y = put_piece (help_temp i) ?x" by (rule put_temp_piece [OF holds_room [OF assms x]])
  with put_piece_holds [OF assms x, of "help_temp i"]
  have "holds_text m start bufsize (concat (help_before i) @ help_temp i) ?y" by simp
  from put_pieces_hold [OF assms this] have "holds_text m start bufsize (help_text i address) ?z" by (simp add: help_text_def)
  moreover obtain m1 at sz where z: "?z = (m1, at, sz)" by (cases ?z)
  moreover have "helpers_screen_setup i address m start bufsize = (m1, at - start)"
    unfolding helpers_screen_setup_def Let_def z by simp
  ultimately show ?thesis by auto
qed

theorem helpers_screen_text:
  assumes "1 \<le> bufsize" "helpers_screen_setup i address m start bufsize = (m1, n)" "str = take (bufsize - 1) (help_text i address)"
  shows "n = length str \<and> mem_read m1 start n = string_codes str \<and> m1 (start + n) = 0 \<and>
    (\<forall>a. a < start \<or> start + bufsize \<le> a \<longrightarrow> m1 a = m a)"
proof -
  have "help_text i address \<noteq> []" by (simp add: help_text_def help_temp_def Let_def)
  then show ?thesis using screen_holds [OF assms(1), of m start i address] assms(2,3) by (auto simp: holds_text_def)
qed

section \<open>Laying a helper page over the window\<close>

theorem helpers_bank_roundtrip:
  assumes "mem_wf (fred s)" "a < 252" "data \<noteq> 0xFF"
    and "t = helpers_bank_select i h (gpio_word a data) s" "u = helpers_bank_select j h (gpio_word a 0xFF) t"
  shows "bus_read (fred t) (a + 4) = 0x4C \<and> bus_read (fred u) (a + 4) = 0x60 \<and> page_ram_addr u = page_ram_addr s \<and>
    (\<forall>k < 256. bus_read (fred u) (256 + k) = JIM_ram u (unat (page_ram_addr s) + k)) \<and>
    (\<forall>k < 256. bus_read (fred t) (256 + k) = (if k = 1 \<and> (data = 0 \<or> 16 \<le> data) then 3
       else helper_page h (if 16 \<le> data then 0 else data) ! k)) \<and>
    (\<forall>k < 256. k \<noteq> a + 4 \<longrightarrow> bus_read (fred u) k = bus_read (fred s) k)"
proof -
  define dd where "dd = (if 16 \<le> data then 0 else data)"
  define b1 where "b1 = Pi1MHz_MemoryWrite (a + 4) 0x4C (fred s)"
  define b2 where "b2 = Pi1MHz_MemoryWritePage Pi1MHz_MEM_PAGE (helper_page h dd) b1"
  define b3 where "b3 = (if dd = 0 then Pi1MHz_MemoryWrite (Pi1MHz_MEM_PAGE + 1) 3 b2 else b2)"
  have a: "a < 256" using assms(2) by simp
  have w1: "mem_wf b1" "\<And>k. k < 512 \<Longrightarrow> bus_read b1 k = (if k = a + 4 then 0x4C else bus_read (fred s) k)"
    using assms(1,2) by (simp_all add: b1_def MemoryWrite_wf MemoryWrite_read)
  have l: "length (helper_page h dd) = 256" by (simp add: helper_page_def)
  have w2: "mem_wf b2" "\<And>k. k < 512 \<Longrightarrow> bus_read b2 k = (if 256 \<le> k then helper_page h dd ! (k - 256) else bus_read b1 k)"
    unfolding b2_def by (rule MemoryWritePage_wf [OF w1(1) l], rule MemoryWritePage_read [OF w1(1) l])
  have w3: "mem_wf b3" "\<And>k. k < 512 \<Longrightarrow> bus_read b3 k = (if k = 257 \<and> dd = 0 then 3 else bus_read b2 k)"
    using w2(1) MemoryWrite_wf [OF w2(1), of 257 3] MemoryWrite_read [OF w2(1), of 257 _ 3] by (simp_all add: b3_def Pi1MHz_MEM_PAGE_def)
  have f: "fred t = b3" "page_ram_addr t = page_ram_addr s"
    using assms(3) by (simp_all add: assms(4) b1_def b2_def b3_def dd_def helpers_bank_select_def gpio_fields [OF a] Let_def on_fred_def)
  define b4 where "b4 = Pi1MHz_MemoryWrite (a + 4) 0x60 b3"
  have w4: "mem_wf b4" "\<And>k. k < 512 \<Longrightarrow> bus_read b4 k = (if k = a + 4 then 0x60 else bus_read b3 k)"
    using w3(1) assms(2) by (simp_all add: b4_def MemoryWrite_wf MemoryWrite_read)
  have u: "fred u = Pi1MHz_MemoryWritePage Pi1MHz_MEM_PAGE (mem_read (JIM_ram t) (unat (page_ram_addr s)) 256) b4"
    "JIM_ram u = JIM_ram t" "page_ram_addr u = page_ram_addr s"
    using f by (simp_all add: b4_def assms(5) helpers_bank_select_def gpio_fields [OF a] Let_def on_fred_def ram_emulator_page_restore_def page_bytes_def)
  have b5: "bus_read (fred u) k = (if 256 \<le> k then mem_read (JIM_ram t) (unat (page_ram_addr s)) 256 ! (k - 256) else bus_read b4 k)"
    if "k < 512" for k
    unfolding u(1) by (rule MemoryWritePage_read [OF w4(1) _ that]) simp
  have d: "dd = 0 \<longleftrightarrow> data = 0 \<or> 16 \<le> data" by (simp add: dd_def)
  have "bus_read (fred u) (256 + k) = JIM_ram u (unat (page_ram_addr s) + k)" if "k < 256" for k
    using that b5 [of "256 + k"] u(2) by (simp add: mem_read_def)
  moreover have "bus_read (fred t) (256 + k) = (if k = 1 \<and> (data = 0 \<or> 16 \<le> data) then 3 else helper_page h dd ! k)" if "k < 256" for k
    using that w3(2) [of "256 + k"] w2(2) [of "256 + k"] unfolding f(1) by (auto simp: d)
  moreover have "bus_read (fred u) k = bus_read (fred s) k" if "k < 256" "k \<noteq> a + 4" for k
    using that b5 [of k] w4(2) [of k] w3(2) [of k] w2(2) [of k] w1(2) [of k] by simp
  moreover have "bus_read (fred t) (a + 4) = 0x4C" "bus_read (fred u) (a + 4) = 0x60"
    using assms(2) b5 [of "a + 4"] w4(2) [of "a + 4"] w3(2) [of "a + 4"] w2(2) [of "a + 4"] w1(2) [of "a + 4"] unfolding f(1) by simp_all
  ultimately show ?thesis using u(3) unfolding dd_def by blast
qed

end
