(* ===== verification/HdInit.thy ===== *)
theory HdInit
  imports ScsiEndToEnd Settings
begin

text \<open>
  \<open>harddisc_emulator_init\<close>, which runs at power on and again on every BREAK: it brings the host adapter and
  the target back to the bus free phase, and takes the jukebox directories from the settings only once.
\<close>

section \<open>The init function\<close>

text \<open>The static variables of the function beside the state of the target.\<close>

record ('w, 'f) drive =
  PowerOn :: bool
  scsiid :: u8
  target :: "('w hd, 'f) scsi"

definition hd_register :: "(string \<Rightarrow> nat) \<Rightarrow> 'w hd \<Rightarrow> 'w hd" where
  "hd_register fn h =
     (let a = unat (HD_ADDR h);
          h = on_bus (Pi1MHz_Register_Memory READ_FRED a (fn ''hd_emulator_read_data'')) h;
          h = on_bus (Pi1MHz_Register_Memory WRITE_FRED a (fn ''hd_emulator_write_data'')) h;
          h = on_bus (Pi1MHz_Register_Memory WRITE_FRED (a + 2) (fn ''hd_emulator_nSEL'')) h;
          h = on_bus (Pi1MHz_Register_Memory WRITE_FRED (a + 3) (fn ''hd_emulator_IRQ'')) h in
      on_bus (Pi1MHz_Register_Memory WRITE_FRED (a + 1) (fn ''hd_emulator_write_scsijuke'')) h)"

definition harddisc_emulator_init ::
  "('w hd, 'f) scsi_env \<Rightarrow> (string \<Rightarrow> nat) \<Rightarrow> (string \<times> string) list \<Rightarrow> u8 \<Rightarrow> u8 \<Rightarrow> ('w, 'f) drive \<Rightarrow> ('w, 'f) drive" where
  "harddisc_emulator_init e fn cfg instance address d =
     (let s = do_host (\<lambda>h. hd_register fn (hd_init instance address h)) (target d);
          d = (if \<not> PowerOn d
               then d\<lparr>scsiid := setting_byte cfg ''SCSIID'' (scsiid d), PowerOn := True,
                      target := do_fs (filesystemInitialise (setting_byte cfg ''SCSIJUKE'' 0) (setting_byte cfg ''VFSJUKE'' 0)) s\<rparr>
               else d\<lparr>target := s\<rparr>);
          s = scsiReset (scsiid d) (target d);
          s = do_fs (filesystemReset (sd e)) s in
      d\<lparr>target := do_host (on_bus (Pi1MHz_Register_Poll (fn ''scsiProcessEmulation''))) s\<rparr>)"

definition harddisc_emulator_get_address :: "('w, 'f) drive \<Rightarrow> u8" where
  "harddisc_emulator_get_address d = HD_ADDR (host (target d))"

section \<open>Directories are chosen once\<close>

lemma stop_keeps_directories:
  "lunDirectory (snd (filesystemSetLunStatus ops l False s)) = lunDirectory s"
  "lunDirectoryVFS (snd (filesystemSetLunStatus ops l False s)) = lunDirectoryVFS s"
  "lunDirectory (release_keys l s) = lunDirectory s" "lunDirectoryVFS (release_keys l s) = lunDirectoryVFS s"
  by (simp_all add: filesystemSetLunStatus_def lun_status_set_def release_keys_def case_prod_beta Let_def)

lemma reset_keeps_directories:
  "lunDirectory (filesystemReset ops s) = lunDirectory s" "lunDirectoryVFS (filesystemReset ops s) = lunDirectoryVFS s"
proof -
  have f: "lunDirectory (fold (\<lambda>l s. release_keys l (snd (filesystemSetLunStatus ops l False s))) ls s) = lunDirectory s \<and>
    lunDirectoryVFS (fold (\<lambda>l s. release_keys l (snd (filesystemSetLunStatus ops l False s))) ls s) = lunDirectoryVFS s" for ls s
    by (induction ls arbitrary: s) (simp_all add: stop_keeps_directories)
  show "lunDirectory (filesystemReset ops s) = lunDirectory s" "lunDirectoryVFS (filesystemReset ops s) = lunDirectoryVFS s"
    by (simp_all add: filesystemReset_def filesystemMount_def filesystemDismount_def Let_def case_prod_beta f)
qed

text \<open>What happens to the drive: power on and BREAK run the init function, the target works, the jukebox register is written.\<close>

inductive drive_step :: "('w hd, 'f) scsi_env \<Rightarrow> (string \<Rightarrow> nat) \<Rightarrow> (string \<times> string) list \<Rightarrow> ('w, 'f) drive \<Rightarrow> ('w, 'f) drive \<Rightarrow> bool"
  for e fn cfg where
  reset: "drive_step e fn cfg d (harddisc_emulator_init e fn cfg i a d)"
| works: "PowerOn d \<Longrightarrow> scsi_step e (target d) s \<Longrightarrow> drive_step e fn cfg d (d\<lparr>target := s\<rparr>)"

inductive drive_reachable :: "('w hd, 'f) scsi_env \<Rightarrow> (string \<Rightarrow> nat) \<Rightarrow> (string \<times> string) list \<Rightarrow> ('w, 'f) drive \<Rightarrow> bool"
  for e fn cfg where
  power: "length buf = 16384 \<Longrightarrow> drive_reachable e fn cfg
    \<lparr>PowerOn = False, scsiid = 0, target = scsi_power_on (filesystem_power_on buf dir c) h\<rparr>"
| step: "drive_reachable e fn cfg d \<Longrightarrow> drive_step e fn cfg d d1 \<Longrightarrow> drive_reachable e fn cfg d1"

lemma host_reachable: "scsi_reachable e s \<Longrightarrow> scsi_reachable e (do_host f s)"
  unfolding do_host_def by (rule scsi_reachable.step [OF _ scsi_step.bus_moves])

lemma init_on: "PowerOn (harddisc_emulator_init e fn cfg i a d)"
  by (simp add: harddisc_emulator_init_def Let_def)

lemma drive_target:
  assumes "drive_reachable e fn cfg d"
  shows "(PowerOn d \<longrightarrow> scsi_reachable e (target d)) \<and>
    (\<not> PowerOn d \<longrightarrow> (\<exists>buf dir c h. length buf = 16384 \<and> target d = scsi_power_on (filesystem_power_on buf dir c) h))"
  using assms
proof (induction rule: drive_reachable.induct)
  case (step d d1)
  from step.hyps(2) show ?case
  proof (cases rule: drive_step.cases)
    case (reset i a)
    let ?h = "do_host (\<lambda>h. hd_register fn (hd_init i a h))"
    have r: "scsi_reachable e (do_host f (do_fs (filesystemReset (sd e)) (scsiReset x s)))" if "scsi_reachable e s" for f x s
      using that by (intro host_reachable) (rule scsi_reachable.step [OF _ scsi_step.reset])
    have "scsi_reachable e (target d1)"
    proof (cases "PowerOn d")
      case True
      then have "scsi_reachable e (?h (target d))" using step.IH by (intro host_reachable) simp
      then show ?thesis using True r by (simp add: reset harddisc_emulator_init_def Let_def)
    next
      case False
      then obtain buf dir c h where p: "length buf = 16384" "target d = scsi_power_on (filesystem_power_on buf dir c) h"
        using step.IH by blast
      let ?j = "setting_byte cfg ''SCSIJUKE'' 0" and ?v = "setting_byte cfg ''VFSJUKE'' 0"
      have "do_fs (filesystemInitialise ?j ?v) (?h (target d)) =
          scsi_power_on (filesystemInitialise ?j ?v (filesystem_power_on buf dir c)) (hd_register fn (hd_init i a h))"
        by (simp add: p do_fs_def do_host_def scsi_power_on_def)
      then have "scsi_reachable e (do_fs (filesystemInitialise ?j ?v) (?h (target d)))"
        using scsi_reachable.power_on [OF p(1)] by simp
      then show ?thesis using False r by (simp add: reset harddisc_emulator_init_def Let_def)
    qed
    then show ?thesis using init_on [of e fn cfg i a d] by (simp add: reset)
  next
    case (works s)
    then show ?thesis using step.IH by (auto intro: scsi_reachable.step)
  qed
qed auto

theorem harddisc_init_jukebox:
  assumes "t = target (harddisc_emulator_init e fn cfg i a d)"
  shows "(if PowerOn d then lunDirectory (fs t) = lunDirectory (fs (target d)) \<and> lunDirectoryVFS (fs t) = lunDirectoryVFS (fs (target d))
     else lunDirectory (fs t) = setting_byte cfg ''SCSIJUKE'' 0 \<and> lunDirectoryVFS (fs t) = setting_byte cfg ''VFSJUKE'' 0) \<and>
    ourscsiid t = (if PowerOn d then scsiid d else setting_byte cfg ''SCSIID'' (scsiid d)) \<and>
    scsiState t = SCSI_BUSFREE \<and> requestSenseData t = replicate MAX_LUNS NO_ERROR"
  by (simp add: assms harddisc_emulator_init_def Let_def do_fs_def do_host_def scsiReset_def fcodeClearBuffer_def
      reset_keeps_directories filesystemInitialise_def)

end
