(* ===== verification/Spec2Isabelle.thy ===== *)
theory Spec2Isabelle
  imports AunDemo AunConfig ScsiDemo ServiceDemo NetDemo Helpers HdInit
begin

text \<open>
  Pi1MHz turns a Raspberry Pi on the 1 MHz bus of a BBC Micro into a set of devices: a SCSI hard
  disc, an Econet (AUN) station, memory expansions, sound, video and network services.  This
  development models the parts that carry its own logic.

  \<^bold>\<open>Bus and main program\<close> (\<open>Pi1MHz.c\<close>, theory \<open>Bus\<close>).  The state \<open>bus\<close> holds the emulated FRED and
  JIM page, the packed copy that the VPU reads, the callback and poll tables, the interrupt lines and
  the *FX registers; one definition per function.  \<open>bus_view\<close> is the abstract page the Beeb reads, and
  byte, word and double word writes refine updates of it.  The nIRQ line is the disjunction of its
  sources.  Emulators are configured from the settings file.  Addresses of C functions are numbers,
  0 being the null pointer.

  \<^bold>\<open>Settings\<close> (\<open>config.c\<close>, theory \<open>Config\<close>; \<open>AUN/aun_config.c\<close>, theory \<open>AunConfig\<close>).  Parsers of
  \<open>Pi1MHz.cfg\<close> and of the AUN settings, with round trips from the text of a setting.

  \<^bold>\<open>Hard disc.\<close>  \<open>harddisc_emulator.c\<close> (theories \<open>HostAdapter\<close>, \<open>HdWait\<close>) is the host adapter: register
  callbacks, the REQ/ACK handshake, 256 byte transfers.  \<open>BeebSCSI/scsi.c\<close> (theory \<open>Scsi\<close>) is the target: the
  bus state machine \<open>scsiProcessEmulation\<close> and the command handlers.  \<open>BeebSCSI/filesystem.c\<close> (theories
  \<open>FsTypes\<close>, \<open>Filesystem\<close>) keeps the units, their geometry and mode pages, and streams sectors of the
  image files; \<open>rpi/fileparser.c\<close> (theory \<open>FileParser\<close>) reads and rewrites descriptor files.
  The three layers meet as in the code: the target has a record of the host adapter's operations and
  a record of the card's operations.  The world of the host adapter and that of the card are different
  type variables, so an operation of the one cannot touch the other.
  Lemmas: \<open>FileParserProps\<close> (the fuel of \<open>parse_loop\<close> is the length of the file and always suffices, a
  rewritten line reads back), \<open>FsInvariant\<close> (\<open>fs_wf\<close> and its preservation by every operation),
  \<open>FsStream\<close> (a stream of reads yields the sectors of the image, a stream of writes stores them),
  \<open>ScsiFrame\<close> (what every command keeps and how it ends), \<open>ScsiInvariant\<close> (\<open>scsi_wf\<close> holds in every reachable
  state of \<open>scsi_step\<close>), \<open>ScsiProps\<close> (single commands), \<open>ScsiTransfer\<close> (whole transactions, proved
  in the locale \<open>bus_host\<close> that states what a host adapter owes the target), \<open>HostAdapter\<close> (the
  interpretation of \<open>bus_host\<close> by the model of \<open>harddisc_emulator.c\<close> with a Beeb that follows the
  handshake), \<open>ScsiEndToEnd\<close> (transactions between the Beeb's registers and the image files),
  \<open>HdWait\<close> (the wait for ACK ends), \<open>ScsiDemo\<close> (a card in memory and a Beeb for which all
  hypotheses hold).

  \<^bold>\<open>AUN\<close> (\<open>AUN/aun.c\<close>, theories \<open>AunTypes\<close>, \<open>AunRx\<close>, \<open>AunTx\<close>).  The engine that carries Econet frames in UDP
  datagrams: receive blocks with a ring of frames each, per stream deferral and condemnation,
  acknowledgement when the host collects, transmission with retries, immediate operations held for
  the host and a cache of replies.  \<open>AunBlock\<close> views a ring as a list of frames, \<open>AunReceive\<close> proves
  the receive side, \<open>AunInvariant\<close> and \<open>AunEngine\<close> the invariant of every reachable state and the
  inbound and outbound paths, \<open>AunEndToEnd\<close> two engines back to back, \<open>AunDemo\<close> instances.

  \<^bold>\<open>Services.\<close>  The Beeb reaches the services through a port (\<open>services_emulator.c\<close>, theory \<open>Services\<close>): an address
  register and an auto-incrementing data register onto the last 32 Mbyte of the JIM RAM
  (\<open>ram_emulator.c\<close>, theory \<open>Ram\<close>), and a command register.  The record \<open>services\<close> extends the RAM's record
  \<open>jim\<close>, and its last field is the state of the services, which the FAT service (\<open>fat_service.c\<close>, theory
  \<open>FatService\<close>) and the AUN service (\<open>AUN/aun_emulator.c\<close>, theory \<open>AunService\<close>) extend in turn.  A FAT command runs at
  once; an AUN command waits in a mailbox for the main loop.  \<open>RamProps\<close> and \<open>ServicesProps\<close> prove that
  window and port refine a paged array and a byte stream and that dispatch is unambiguous; \<open>FatProps\<close> and
  \<open>FatFiles\<close> memory safety, write protection, the interlock on open files and the write/read round trip;
  \<open>AunBuffers\<close>, \<open>AunServiceProps\<close> and \<open>AunFresh\<close> that every reachable state of the AUN service keeps the
  engine's invariant and its buffers in the service RAM, that commands are answered, and that replies to
  immediate operations match; \<open>ServiceDemo\<close> instances.

  \<^bold>\<open>Network service\<close> (\<open>net_service.c\<close>, \<open>net_tnfs.c\<close>, \<open>net_telnet.c\<close>).  Commands 45 to 64 of the services port.  \<open>NetRing\<close> models the
  receive rings and proves that they keep the contract of a bounded byte queue (the locale \<open>byte_ring\<close>); \<open>NetTelnet\<close> and
  \<open>NetTnfs\<close> are the protocol codecs, \<open>NetUrl\<close> the parser of URLs.  \<open>NetStack\<close> holds the table of handles and the
  callbacks that lwIP makes on them, \<open>NetService\<close> the socket commands and the adapters, \<open>NetDevice\<close> the N: device, the
  dispatcher, the mailbox and the poll.  lwIP is the record \<open>net_lwip\<close>, which extends the one of the AUN service; a packet buffer is the list of its payloads, and its release after a callback is not shown.
  \<open>NetSafe\<close> proves of every command and callback that it answers with bit 7 clear, stores only in the
  buffer region and keeps the tables in bounds; \<open>NetInvariant\<close> lifts this to every reachable state of \<open>net_event\<close> and
  proves the handshake with the Beeb, resets and the interrupt level; \<open>NetData\<close> that TCP handles carry the stream they accept
  and UDP handles refine a queue of datagrams; \<open>NetTransact\<close> that TNFS transactions end and deliver; \<open>NetHttp\<close> that
  the headers of a response are consumed; \<open>NetDemo\<close> has instances, and a run in which RECV on a UDP handle leaves its ring
  out of step.  The queue theorems are therefore about handles that the Beeb reads with the command of their type.

  \<^bold>\<open>Small devices.\<close>  \<open>helpers.c\<close> (theory \<open>Helpers\<close>): the help text and the helper pages.  \<open>watchdog.c\<close> (theory
  \<open>Watchdog\<close>): the watchdog is fed in time.  \<open>HdInit\<close>: start up of the hard disc.  \<open>Settings\<close>: numbers in settings.

  \<open>Prelude\<close> holds the shared types, collections and lemmas, \<open>Contracts\<close> the locales of shared
  contracts.

  \<^bold>\<open>Conventions.\<close>  Machine integers that are computed with modulo their width are words; lengths and
  indices are natural numbers; pointers into host memory are addresses into a memory function.  C
  strings are character lists without the terminator.  Code outside the repository is a
  parameter: FatFs and \<open>malloc\<close> (the record \<open>sdcard\<close>), the UDP transport and the clock of the
  AUN engine, FatFs as the FAT service calls it (\<open>fat_ops\<close>), lwIP (\<open>lwip\<close>, \<open>net_lwip\<close>), the Beeb, the reset line and the system timer (the record \<open>hd_env\<close>), the F-code interpreter behind
  WRITE F-CODE.  What theorems assume of them is stated by named predicates (\<open>seek_law\<close>, \<open>read_law\<close>,
  \<open>write_laws\<close>, \<open>obliging\<close>, \<open>clock_law\<close>, \<open>env_laws\<close>, \<open>fat_bounds\<close>, \<open>reads_only\<close>, \<open>file_law\<close>, \<open>overdue\<close>), each shown to hold of a concrete instance.
  Volatile variables written in FIQ mode change only where the main program polls them.  The content of an
  uninitialised stack buffer is a parameter.  FSIZE_t is 32 bits.  The cluster link map of a file is
  reduced to attached or not.  An access outside an array is an unspecified element; the invariants
  exclude it.  \<open>hd_spin\<close> runs with fuel \<open>spins\<close>; \<open>hd_wait_ack_ends\<close> shows that 25600256
  rounds already suffice for a clock that advances.

  \<^bold>\<open>Not modelled\<close>: debug output and LEDs; the start-up of the hardware, the VPU and FIQ assembler; the
  F-code interpreter, sound, teletext, mouse, video, frame buffer, USB and WiFi emulators; third-party code (FatFs, lwIP, TinyUSB, fastsid, vasm).
\<close>

end
